(* ===== verification/Prelude.thy ===== *)
theory Prelude
  imports Main "HOL-Library.Signed_Division" "HOL-Library.Sublist"
begin

text \<open>
  Shared vocabulary of the development: the Go values every component uses (byte strings and
  the functions of package \<^verbatim>\<open>strings\<close> the code calls, string maps, 64-bit signed integers with
  wrap-around, truncating division, saturating time differences), the loops several components
  share (keep the first element for a key, first match in a list, conditions joined by
  ``all'' or ``any''), and the lemmas about them.

  Conventions. A Go \<^verbatim>\<open>string\<close> is its list of bytes. A Go map that the code iterates over is an
  association list, one entry per key: the list's order stands for one possible iteration
  order. Reading a missing key of a \<^verbatim>\<open>map[string]string\<close> gives the empty string
  (\<open>mget\<close>). \<^verbatim>\<open>(T, error)\<close> results are sums, \<open>Inl\<close> for the error. Character classification
  (\<^verbatim>\<open>TrimSpace\<close>, \<^verbatim>\<open>ToLower\<close>) is that of ASCII.
\<close>

named_theorems gostr_simps \<open>evaluation of the string functions\<close>
named_theorems loop_simps \<open>characterisations of the shared loops\<close>

type_synonym uuid = nat
type_synonym strmap = "(string \<times> string) list"
type_synonym instant = int \<comment> \<open>nanoseconds on the UTC time line\<close>

subsection \<open>Strings\<close>

definition go_has_prefix :: "string \<Rightarrow> string \<Rightarrow> bool" where
  "go_has_prefix s p = (take (length p) s = p)"

definition go_has_suffix :: "string \<Rightarrow> string \<Rightarrow> bool" where
  "go_has_suffix s p = (length p \<le> length s \<and> drop (length s - length p) s = p)"

fun go_index :: "string \<Rightarrow> string \<Rightarrow> nat option" where
  "go_index [] p = (if p = [] then Some 0 else None)"
| "go_index (c # s) p =
     (if go_has_prefix (c # s) p then Some 0 else map_option Suc (go_index s p))"

definition go_contains :: "string \<Rightarrow> string \<Rightarrow> bool" where
  "go_contains s p = (go_index s p \<noteq> None)"

text \<open>\<^verbatim>\<open>strings.TrimPrefix\<close>: the string itself when the prefix is absent.\<close>

definition go_trim_prefix :: "string \<Rightarrow> string \<Rightarrow> string" where
  "go_trim_prefix s p = (if go_has_prefix s p then drop (length p) s else s)"

text \<open>\<^verbatim>\<open>strings.Split\<close> with a one-byte separator: always at least one part.\<close>

fun go_split :: "char \<Rightarrow> string \<Rightarrow> string list" where
  "go_split c [] = [[]]"
| "go_split c (x # xs) =
     (if x = c then [] # go_split c xs
      else (case go_split c xs of [] \<Rightarrow> [[x]] | y # ys \<Rightarrow> (x # y) # ys))"

fun go_join :: "string \<Rightarrow> string list \<Rightarrow> string" where
  "go_join sep [] = []"
| "go_join sep [x] = x"
| "go_join sep (x # y # ys) = x @ sep @ go_join sep (y # ys)"

definition is_space :: "char \<Rightarrow> bool" where
  "is_space c = (of_char c \<in> {9, 10, 11, 12, 13, 32 :: nat})"

definition go_trim_space :: "string \<Rightarrow> string" where
  "go_trim_space s = rev (dropWhile is_space (rev (dropWhile is_space s)))"

definition lower_char :: "char \<Rightarrow> char" where
  "lower_char c =
     (let n = (of_char c :: nat) in if 65 \<le> n \<and> n \<le> 90 then char_of (n + 32) else c)"

definition go_to_lower :: "string \<Rightarrow> string" where
  "go_to_lower s = map lower_char s"

lemma go_has_prefix_iff: "go_has_prefix s p \<longleftrightarrow> (\<exists>t. s = p @ t)"
  by (metis append_eq_conv_conj append_take_drop_id go_has_prefix_def)

lemma go_has_suffix_iff: "go_has_suffix s p \<longleftrightarrow> (\<exists>t. s = t @ p)"
  unfolding go_has_suffix_def
  by (metis append_eq_append_conv append_take_drop_id length_append length_drop
      diff_diff_cancel le_add2)

lemma go_has_prefix_Nil [simp]: "go_has_prefix s []"
  by (simp add: go_has_prefix_def)

lemma go_has_suffix_Nil [simp]: "go_has_suffix s []"
  by (simp add: go_has_suffix_def)

text \<open>\<open>go_index\<close> is the leftmost occurrence.\<close>

lemma go_index_SomeD:
  "go_index s p = Some i \<Longrightarrow> \<exists>a b. s = a @ p @ b \<and> length a = i"
proof (induction s arbitrary: i)
  case Nil
  then show ?case by (auto split: if_splits)
next
  case (Cons c s)
  show ?case
  proof (cases "go_has_prefix (c # s) p")
    case True
    with Cons.prems have "i = 0" by simp
    moreover from True obtain t where "c # s = p @ t"
      by (auto simp: go_has_prefix_iff)
    ultimately show ?thesis by (intro exI [of _ "[]"] exI [of _ t]) simp
  next
    case False
    with Cons.prems obtain j where j: "go_index s p = Some j" "i = Suc j" by auto
    from Cons.IH [OF j(1)] obtain a b where "s = a @ p @ b" "length a = j" by blast
    with j(2) show ?thesis by (intro exI [of _ "c # a"] exI [of _ b]) simp
  qed
qed

lemma go_index_le:
  "go_index (a @ p @ b) p \<noteq> None \<and> the (go_index (a @ p @ b) p) \<le> length a"
proof (induction a)
  case Nil
  show ?case
  proof (cases "p @ b")
    case Nil
    then show ?thesis by simp
  next
    case (Cons c t)
    then have "go_has_prefix (c # t) p" by (metis go_has_prefix_iff)
    with Cons show ?thesis by simp
  qed
next
  case (Cons c a)
  show ?case
  proof (cases "go_has_prefix (c # a @ p @ b) p")
    case True
    then show ?thesis by simp
  next
    case False
    from Cons obtain i where "go_index (a @ p @ b) p = Some i" "i \<le> length a" by auto
    with False show ?thesis by simp
  qed
qed

lemma go_contains_iff: "go_contains s p \<longleftrightarrow> (\<exists>a b. s = a @ p @ b)"
  unfolding go_contains_def using go_index_SomeD go_index_le by (metis not_None_eq)

lemma go_split_ne [simp]: "go_split c s \<noteq> []"
  by (induction s) (auto split: list.splits)

lemma go_split_no_sep: "p \<in> set (go_split c s) \<Longrightarrow> c \<notin> set p"
proof (induction s arbitrary: p)
  case Nil
  then show ?case by simp
next
  case (Cons x xs)
  then show ?case by (auto split: if_splits list.splits)
qed

lemma go_join_split: "go_join [c] (go_split c s) = s"
proof (induction s)
  case Nil
  show ?case by simp
next
  case (Cons x xs)
  obtain y ys where *: "go_split c xs = y # ys"
    using go_split_ne [of c xs] by (cases "go_split c xs") auto
  with Cons show ?case by (cases ys) auto
qed

lemma go_split_append: "c \<notin> set x \<Longrightarrow> go_split c (x @ [c] @ s) = x # go_split c s"
  by (induction x) auto

lemma go_split_plain: "c \<notin> set x \<Longrightarrow> go_split c x = [x]"
  by (induction x) auto

lemma go_split_join:
  "xs \<noteq> [] \<Longrightarrow> list_all (\<lambda>x. c \<notin> set x) xs \<Longrightarrow> go_split c (go_join [c] xs) = xs"
proof (induction "[c]" xs rule: go_join.induct)
  case 1
  then show ?case by simp
next
  case (2 x)
  then show ?case by (simp add: go_split_plain)
next
  case (3 x y ys)
  then show ?case using go_split_append [of c x "go_join [c] (y # ys)"] by simp
qed

lemma go_split_at: "go_split c (x @ c # y) = go_split c x @ go_split c y"
  by (induction x) (auto split: list.splits)

lemma dropWhile_idem [simp]: "dropWhile P (dropWhile P xs) = dropWhile P xs"
  by (induction xs) auto

lemma dropWhile_rev_keeps_head:
  "dropWhile P xs = xs \<Longrightarrow> dropWhile P (rev (dropWhile P (rev xs))) = rev (dropWhile P (rev xs))"
proof -
  assume h: "dropWhile P xs = xs"
  have "prefix (rev (dropWhile P (rev xs))) xs"
    by (metis rev_rev_ident suffix_dropWhile suffix_to_prefix)
  then obtain zs where zs: "xs = rev (dropWhile P (rev xs)) @ zs" by (auto simp: prefix_def)
  show ?thesis
  proof (cases "rev (dropWhile P (rev xs))")
    case (Cons y ys)
    with zs h have "\<not> P y" by (metis append_Cons dropWhile_eq_self_iff list.sel(1) list.distinct(1))
    with Cons show ?thesis by simp
  next
    case Nil
    show ?thesis unfolding Nil by simp
  qed
qed

lemma go_trim_space_idem [simp]: "go_trim_space (go_trim_space s) = go_trim_space s"
  unfolding go_trim_space_def by (simp add: dropWhile_rev_keeps_head)

lemma lower_char_idem [simp]: "lower_char (lower_char c) = lower_char c"
proof -
  have "of_char (char_of (n + 32) :: char) = n + 32" if "n \<le> 90" for n :: nat
    using that by (simp add: of_char_of)
  then show ?thesis by (auto simp: lower_char_def Let_def)
qed

lemma is_space_lower [simp]: "is_space (lower_char c) = is_space c"
proof -
  have "of_char (char_of (n + 32) :: char) = n + 32" if "n \<le> 90" for n :: nat
    using that by (simp add: of_char_of)
  then show ?thesis by (auto simp: lower_char_def is_space_def Let_def)
qed

lemma go_to_lower_idem [simp]: "go_to_lower (go_to_lower s) = go_to_lower s"
  by (simp add: go_to_lower_def)

lemma go_trim_to_lower: "go_trim_space (go_to_lower s) = go_to_lower (go_trim_space s)"
  by (simp add: go_trim_space_def go_to_lower_def dropWhile_map rev_map o_def)

subsection \<open>Maps\<close>

definition mget :: "strmap \<Rightarrow> string \<Rightarrow> string" where
  "mget m k = (case map_of m k of None \<Rightarrow> [] | Some v \<Rightarrow> v)"

definition wf_map :: "('k \<times> 'v) list \<Rightarrow> bool" where
  "wf_map m = distinct (map fst m)"

text \<open>\<^verbatim>\<open>m[k] = v\<close>: overwrite in place, or add the key.\<close>

fun mput :: "'k \<Rightarrow> 'v \<Rightarrow> ('k \<times> 'v) list \<Rightarrow> ('k \<times> 'v) list" where
  "mput k v [] = [(k, v)]"
| "mput k v ((k', v') # m) = (if k = k' then (k, v) # m else (k', v') # mput k v m)"

lemma map_of_mput [simp]: "map_of (mput k v m) = (map_of m)(k \<mapsto> v)"
  by (induction m) auto

lemma fst_set_mput: "fst ` set (mput k v m) = insert k (fst ` set m)"
  by (induction k v m rule: mput.induct) auto

lemma wf_mput: "wf_map m \<Longrightarrow> wf_map (mput k v m)"
proof (induction m)
  case Nil
  then show ?case by (simp add: wf_map_def)
next
  case (Cons e m)
  then show ?case using fst_set_mput [of k v m] by (cases e) (auto simp: wf_map_def)
qed

subsection \<open>64-bit integers and durations\<close>

definition wrap64 :: "int \<Rightarrow> int" where
  "wrap64 x = (x + 2 ^ 63) mod 2 ^ 64 - 2 ^ 63"

definition in_int64 :: "int \<Rightarrow> bool" where
  "in_int64 x \<longleftrightarrow> - (2 ^ 63) \<le> x \<and> x < 2 ^ 63"

text \<open>\<^verbatim>\<open>Time.Sub\<close> saturates at the bounds of a \<^verbatim>\<open>Duration\<close>.\<close>

definition time_sub :: "instant \<Rightarrow> instant \<Rightarrow> int" where
  "time_sub a b = max (- (2 ^ 63)) (min (2 ^ 63 - 1) (a - b))"

lemma wrap64_id: "in_int64 x \<Longrightarrow> wrap64 x = x"
  by (simp add: wrap64_def in_int64_def)

lemma in_int64_wrap64 [simp]: "in_int64 (wrap64 x)"
proof -
  have "0 \<le> (x + 2 ^ 63) mod 2 ^ 64" "(x + 2 ^ 63) mod 2 ^ 64 < 2 ^ 64"
    by (rule pos_mod_sign, simp) (rule pos_mod_bound, simp)
  then show ?thesis unfolding wrap64_def in_int64_def by simp
qed

lemma time_sub_exact: "in_int64 (a - b) \<Longrightarrow> time_sub a b = a - b"
  by (simp add: time_sub_def in_int64_def)

definition go_second :: int where "go_second = 1000000000"
definition go_minute :: int where "go_minute = 60 * go_second"
definition go_hour :: int where "go_hour = 60 * go_minute"

lemmas duration_defs = go_second_def go_minute_def go_hour_def

text \<open>Truncating division of non-negative numbers is \<open>div\<close> and \<open>mod\<close>.\<close>

lemma sdiv_nonneg: "0 \<le> a \<Longrightarrow> 0 \<le> b \<Longrightarrow> (a :: int) sdiv b = a div b"
  by (simp add: signed_divide_int_def sgn_if)

lemma smod_nonneg: "0 \<le> a \<Longrightarrow> 0 < b \<Longrightarrow> (a :: int) smod b = a mod b"
  by (auto simp: signed_modulo_int_def sgn_if)

subsection \<open>Loops shared by several components\<close>

text \<open>Keep the first element for each key, skipping keys already seen.\<close>

fun dedup_by :: "('a \<Rightarrow> 'k) \<Rightarrow> 'k list \<Rightarrow> 'a list \<Rightarrow> 'a list" where
  "dedup_by key seen [] = []"
| "dedup_by key seen (x # xs) =
     (if key x \<in> set seen then dedup_by key seen xs
      else x # dedup_by key (key x # seen) xs)"

lemma dedup_by_subset: "set (dedup_by key seen xs) \<subseteq> set xs"
  by (induction xs arbitrary: seen) auto

lemma dedup_by_keys: "key ` set (dedup_by key seen xs) = key ` set xs - set seen"
  by (induction xs arbitrary: seen) auto

lemma dedup_by_distinct: "distinct (map key (dedup_by key seen xs))"
proof (induction xs arbitrary: seen)
  case Nil
  show ?case by simp
next
  case (Cons x xs)
  have "key x \<notin> key ` set (dedup_by key (key x # seen) xs)"
    by (simp add: dedup_by_keys)
  with Cons show ?case by simp
qed

lemma dedup_by_subseq: "subseq (dedup_by key seen xs) xs"
  by (induction xs arbitrary: seen) auto

lemma dedup_by_id_set [simp]: "set (dedup_by (\<lambda>x. x) seen xs) = set xs - set seen"
  using dedup_by_keys [of "\<lambda>x. x" seen xs] by simp

lemma dedup_by_id_distinct [simp]: "distinct (dedup_by (\<lambda>x. x) seen xs)"
  using dedup_by_distinct [of "\<lambda>x. x" seen xs] by simp

lemmas dedup_by_facts = dedup_by_subset dedup_by_keys dedup_by_distinct dedup_by_subseq

text \<open>
  Conditions joined by ``all'' or ``any'', as a loop with early returns: under ``any'' the
  first satisfied condition decides, under ``all'' the first one that fails.
\<close>

fun cond_loop :: "bool \<Rightarrow> ('c \<Rightarrow> bool) \<Rightarrow> 'c list \<Rightarrow> bool" where
  "cond_loop any_mode sat [] = (\<not> any_mode)"
| "cond_loop any_mode sat (c # cs) =
     (if any_mode \<and> sat c then True
      else if \<not> any_mode \<and> \<not> sat c then False
      else cond_loop any_mode sat cs)"

lemma cond_loop_any [loop_simps]: "cond_loop True sat cs \<longleftrightarrow> (\<exists>c \<in> set cs. sat c)"
  by (induction cs) auto

lemma cond_loop_all [loop_simps]: "cond_loop False sat cs \<longleftrightarrow> (\<forall>c \<in> set cs. sat c)"
  by (induction cs) auto

text \<open>First match in a list: what precedes the match does not match.\<close>

lemma find_split:
  "List.find P xs = Some x \<longleftrightarrow>
     (\<exists>ys zs. xs = ys @ x # zs \<and> P x \<and> (\<forall>y \<in> set ys. \<not> P y))"
proof (induction xs)
  case Nil
  show ?case by simp
next
  case (Cons a xs)
  show ?case
  proof (cases "P a")
    case True
    then show ?thesis by (auto simp: Cons_eq_append_conv)
  next
    case False
    then have "List.find P (a # xs) = List.find P xs" by simp
    with Cons.IH False show ?thesis
      by (fastforce simp: Cons_eq_append_conv intro: exI [of _ "a # _"])
  qed
qed

lemma find_None: "List.find P xs = None \<longleftrightarrow> (\<forall>x \<in> set xs. \<not> P x)"
  by (induction xs) auto

end
