(* ===== verification/Incident_Lifecycle.thy ===== *)
theory Incident_Lifecycle
  imports Prelude
begin

text \<open>
  Package \<^verbatim>\<open>apps/backend/incident\<close>: the incident state machine (\<^verbatim>\<open>lifecycle.go\<close>) and the
  severity / impact / priority tables (\<^verbatim>\<open>priority.go\<close>), with the SLA targets per priority
  (\<^verbatim>\<open>worker/sla.go\<close>) and the terminal statuses (\<^verbatim>\<open>escalation/cancel.go\<close>).

  The two transition tables are constant association lists, as the Go map literals are. The
  lemmas relate them: every lifecycle action is an edge of the status graph, and the graph is
  characterised as a reachability relation.
\<close>

subsection \<open>The status graph\<close>

definition validTransitions :: "(string \<times> string list) list" where
  "validTransitions =
    [(''detected'', [''triaging'', ''active'', ''cancelled'']),
     (''triaging'', [''active'', ''cancelled'']),
     (''active'', [''mitigated'', ''resolved'', ''cancelled'']),
     (''mitigated'', [''resolved'', ''active'']),
     (''resolved'', [''closed'', ''active'']),
     (''closed'', [''active'']),
     (''cancelled'', [])]"

definition IsValidTransition :: "string \<Rightarrow> string \<Rightarrow> bool" where
  "IsValidTransition src tgt =
     (case map_of validTransitions src of
        None \<Rightarrow> False
      | Some available \<Rightarrow> tgt \<in> set available)"

definition AvailableTransitions :: "string \<Rightarrow> string list" where
  "AvailableTransitions status =
     (case map_of validTransitions status of
        None \<Rightarrow> []
      | Some available \<Rightarrow> available)"

definition actionTransitions :: "(string \<times> string list \<times> string) list" where
  "actionTransitions =
    [(''acknowledge'', [''detected''], ''active''),
     (''begin-triage'', [''detected''], ''triaging''),
     (''promote'', [''triaging''], ''active''),
     (''mitigate'', [''active''], ''mitigated''),
     (''resolve'', [''active'', ''mitigated''], ''resolved''),
     (''close'', [''resolved''], ''closed''),
     (''reopen'', [''mitigated'', ''resolved'', ''closed''], ''active''),
     (''cancel'', [''detected'', ''triaging'', ''active''], ''cancelled'')]"

definition ActionSources :: "string \<Rightarrow> string list" where
  "ActionSources action =
     (case map_of actionTransitions action of
        None \<Rightarrow> []
      | Some entry \<Rightarrow> fst entry)"

definition ActionTarget :: "string \<Rightarrow> string" where
  "ActionTarget action =
     (case map_of actionTransitions action of
        None \<Rightarrow> []
      | Some entry \<Rightarrow> snd entry)"

definition ExpectedIncidentPhaseActions :: "string \<Rightarrow> string list" where
  "ExpectedIncidentPhaseActions status =
     (if status = ''detected'' then
        [''Acknowledge/triage the incident'',
         ''Assign commander/communicator/responder roles'',
         ''Ensure responder agents are investigating likely-affected services (mention them or assign child investigations)'']
      else if status = ''triaging'' then
        [''Complete triage'', ''Promote to active'',
         ''Ensure responder agents are assigned to investigate'']
      else if status = ''active'' then
        [''Ensure investigations cover all affected services'',
         ''Track progress via coordination messages and status updates'',
         ''Collect responder findings as handoffs complete'',
         ''Publish status updates (ask the communicator via mention or publish directly)'']
      else if status = ''mitigated'' then
        [''Verify recovery via responder evidence'', ''Collect final responder findings'',
         ''Publish resolved status update'',
         ''Set resolution docs (root_cause, impact_assessment, actions_taken, resolution)'',
         ''Resolve the incident'']
      else if status = ''resolved'' then
        [''Confirm resolution docs are complete'', ''Close the incident'']
      else [])"

definition IncidentTerminalStatuses :: "string list" where
  "IncidentTerminalStatuses = [''resolved'', ''closed'', ''cancelled'']"

definition IsTerminalIncidentStatus :: "string \<Rightarrow> bool" where
  "IsTerminalIncidentStatus status = (status \<in> {''resolved'', ''closed'', ''cancelled''})"

lemmas lifecycle_tables =
  validTransitions_def IsValidTransition_def actionTransitions_def ActionSources_def
  ActionTarget_def

text \<open>The statuses the table knows, and the statuses reachable along its edges.\<close>

definition known_statuses :: "string list" where
  "known_statuses = map fst validTransitions"

inductive status_path :: "string \<Rightarrow> string \<Rightarrow> bool" where
  path_refl: "status_path s s"
| path_step: "IsValidTransition s t \<Longrightarrow> status_path t u \<Longrightarrow> status_path s u"

inductive_cases status_pathE: "status_path s u"

lemma known_statuses_simps:
  "set known_statuses =
     {''detected'', ''triaging'', ''active'', ''mitigated'', ''resolved'', ''closed'', ''cancelled''}"
  by (simp add: known_statuses_def validTransitions_def)

lemma IsValidTransition_known:
  "IsValidTransition s t \<Longrightarrow> s \<in> set known_statuses \<and> t \<in> set known_statuses"
  by (auto simp: known_statuses_simps lifecycle_tables split: if_splits)

lemma IsValidTransition_iff_available:
  "IsValidTransition s t \<longleftrightarrow> t \<in> set (AvailableTransitions s)"
  by (simp add: IsValidTransition_def AvailableTransitions_def split: option.splits)

lemma status_path_trans: "status_path s t \<Longrightarrow> status_path t u \<Longrightarrow> status_path s u"
  by (induction rule: status_path.induct) (auto intro: status_path.intros)

lemma status_path_edge: "IsValidTransition s t \<Longrightarrow> status_path s t"
  by (blast intro: status_path.intros)

text \<open>Unknown actions have no source and the empty target.\<close>

lemma ActionSources_unknown:
  "action \<notin> fst ` set actionTransitions \<Longrightarrow> ActionSources action = [] \<and> ActionTarget action = []"
proof -
  assume "action \<notin> fst ` set actionTransitions"
  then have "map_of actionTransitions action = None" by (simp add: map_of_eq_None_iff)
  then show ?thesis by (simp add: ActionSources_def ActionTarget_def)
qed

lemma action_edge: "s \<in> set (ActionSources a) \<Longrightarrow> IsValidTransition s (ActionTarget a)"
  by (auto simp: lifecycle_tables split: if_splits)

lemma ActionTarget_not_source: "ActionTarget a \<notin> set (ActionSources a)"
  by (auto simp: lifecycle_tables split: if_splits)

lemma known_action_sources:
  "ActionSources a \<noteq> [] \<Longrightarrow> ActionTarget a \<in> set known_statuses"
  using action_edge IsValidTransition_known by (metis list.set_intros(1) neq_Nil_conv)

text \<open>Every edge of the graph is taken by some lifecycle action.\<close>

lemma edge_has_action:
  "IsValidTransition s t \<Longrightarrow> \<exists>a. s \<in> set (ActionSources a) \<and> ActionTarget a = t"
proof -
  assume "IsValidTransition s t"
  then consider
    "s = ''detected'' \<and> t = ''triaging''" | "s = ''detected'' \<and> t = ''active''"
    | "t = ''cancelled'' \<and> s \<in> {''detected'', ''triaging'', ''active''}"
    | "s = ''triaging'' \<and> t = ''active''" | "s = ''active'' \<and> t = ''mitigated''"
    | "t = ''resolved'' \<and> s \<in> {''active'', ''mitigated''}"
    | "t = ''active'' \<and> s \<in> {''mitigated'', ''resolved'', ''closed''}"
    | "s = ''resolved'' \<and> t = ''closed''"
    by (auto simp: lifecycle_tables split: if_splits)
  then show ?thesis
  proof cases
    case 1 then show ?thesis by (intro exI [of _ "''begin-triage''"]) (simp add: lifecycle_tables)
  next
    case 2 then show ?thesis by (intro exI [of _ "''acknowledge''"]) (simp add: lifecycle_tables)
  next
    case 3 then show ?thesis by (intro exI [of _ "''cancel''"]) (auto simp: lifecycle_tables)
  next
    case 4 then show ?thesis by (intro exI [of _ "''promote''"]) (simp add: lifecycle_tables)
  next
    case 5 then show ?thesis by (intro exI [of _ "''mitigate''"]) (simp add: lifecycle_tables)
  next
    case 6 then show ?thesis by (intro exI [of _ "''resolve''"]) (auto simp: lifecycle_tables)
  next
    case 7 then show ?thesis by (intro exI [of _ "''reopen''"]) (auto simp: lifecycle_tables)
  next
    case 8 then show ?thesis by (intro exI [of _ "''close''"]) (simp add: lifecycle_tables)
  qed
qed

lemma cancelled_absorbing: "status_path s u \<Longrightarrow> s = ''cancelled'' \<Longrightarrow> u = ''cancelled''"
  by (induction rule: status_path.induct) (auto simp: lifecycle_tables split: if_splits)

lemma path_to_active:
  "s \<in> set known_statuses \<Longrightarrow> s \<noteq> ''cancelled'' \<Longrightarrow> status_path s ''active''"
  by (auto simp: known_statuses_simps
      intro: path_refl status_path_edge simp: IsValidTransition_def validTransitions_def)

lemma active_to_closed: "status_path ''active'' ''closed''"
proof -
  have "IsValidTransition ''active'' ''resolved''" "IsValidTransition ''resolved'' ''closed''"
    by (simp_all add: lifecycle_tables)
  then show ?thesis by (blast intro: status_path.intros)
qed

subsection \<open>Severity, impact, priority\<close>

definition validSeverities :: "string list" where
  "validSeverities = [''critical'', ''high'', ''warning'', ''info'']"

definition validIncidentTypes :: "string list" where
  "validIncidentTypes = [''real'', ''alert'', ''degradation'']"

definition validImpacts :: "string list" where
  "validImpacts = [''high'', ''medium'', ''low'']"

definition validPriorities :: "string list" where
  "validPriorities = [''P1'', ''P2'', ''P3'', ''P4'', ''P5'']"

definition priorityMatrix :: "(string \<times> (string \<times> string) list) list" where
  "priorityMatrix =
    [(''critical'', [(''high'', ''P1''), (''medium'', ''P2''), (''low'', ''P3'')]),
     (''high'', [(''high'', ''P2''), (''medium'', ''P3''), (''low'', ''P4'')]),
     (''warning'', [(''high'', ''P3''), (''medium'', ''P4''), (''low'', ''P5'')]),
     (''info'', [(''high'', ''P4''), (''medium'', ''P5''), (''low'', ''P5'')])]"

definition ComputePriority :: "string \<Rightarrow> string \<Rightarrow> string" where
  "ComputePriority severity impact =
     (case map_of priorityMatrix severity of
        None \<Rightarrow> ''P5''
      | Some sevMap \<Rightarrow> (case map_of sevMap impact of None \<Rightarrow> ''P5'' | Some p \<Rightarrow> p))"

definition ValidSeverity :: "string \<Rightarrow> bool" where
  "ValidSeverity s = (s \<in> set validSeverities)"

definition ValidIncidentType :: "string \<Rightarrow> bool" where
  "ValidIncidentType t = (t \<in> set validIncidentTypes)"

definition ValidImpact :: "string \<Rightarrow> bool" where
  "ValidImpact s = (s \<in> set validImpacts)"

definition ValidPriority :: "string \<Rightarrow> bool" where
  "ValidPriority p = (p \<in> set validPriorities)"

definition SeverityRank :: "string \<Rightarrow> int" where
  "SeverityRank severity =
     (if severity = ''critical'' then 0
      else if severity = ''high'' then 1
      else if severity = ''warning'' then 2
      else if severity = ''info'' then 3
      else 4)"

definition PriorityRank :: "string \<Rightarrow> int" where
  "PriorityRank priority =
     (if priority = ''P1'' then 0
      else if priority = ''P2'' then 1
      else if priority = ''P3'' then 2
      else if priority = ''P4'' then 3
      else if priority = ''P5'' then 4
      else 5)"

definition PriorityToSLATargets :: "string \<Rightarrow> int \<times> int" where
  "PriorityToSLATargets priority =
     (if priority = ''P1'' then (15 * go_minute, 4 * go_hour)
      else if priority = ''P2'' then (30 * go_minute, 8 * go_hour)
      else if priority = ''P3'' then (2 * go_hour, 24 * go_hour)
      else if priority = ''P4'' then (8 * go_hour, 72 * go_hour)
      else if priority = ''P5'' then (24 * go_hour, 168 * go_hour)
      else (2 * go_hour, 24 * go_hour))"

lemmas priority_tables =
  validSeverities_def validImpacts_def validPriorities_def priorityMatrix_def
  ComputePriority_def ValidSeverity_def ValidImpact_def ValidPriority_def
  SeverityRank_def PriorityRank_def

text \<open>The rank of an impact level: its row position in the matrix.\<close>

definition impact_rank :: "string \<Rightarrow> int" where
  "impact_rank s =
     (if s = ''high'' then 0 else if s = ''medium'' then 1 else if s = ''low'' then 2 else 3)"

text \<open>The matrix in closed form: the ranks add up, capped at P5.\<close>

lemma PriorityRank_ComputePriority:
  "ValidSeverity sev \<Longrightarrow> ValidImpact imp \<Longrightarrow>
   PriorityRank (ComputePriority sev imp) = min 4 (SeverityRank sev + impact_rank imp)"
  by (auto simp: priority_tables impact_rank_def)

lemma ComputePriority_valid: "ValidPriority (ComputePriority sev imp)"
  by (auto simp: priority_tables split: option.splits if_splits)

lemma ComputePriority_invalid:
  "\<not> (ValidSeverity sev \<and> ValidImpact imp) \<Longrightarrow> ComputePriority sev imp = ''P5''"
  by (auto simp: priority_tables split: option.splits if_splits)

lemma SLA_targets_mono:
  "ValidPriority p \<Longrightarrow> ValidPriority q \<Longrightarrow> PriorityRank p \<le> PriorityRank q \<Longrightarrow>
   fst (PriorityToSLATargets p) \<le> fst (PriorityToSLATargets q) \<and>
   snd (PriorityToSLATargets p) \<le> snd (PriorityToSLATargets q)"
  by (auto simp: priority_tables PriorityToSLATargets_def duration_defs)

subsection \<open>Properties\<close>

text \<open>The action table and the status graph agree exactly: a transition is legal if and
  only if some lifecycle action takes it, so neither table allows a move the other forbids.\<close>

theorem actions_cover_transitions:
  "IsValidTransition s t \<longleftrightarrow> (\<exists>a. s \<in> set (ActionSources a) \<and> ActionTarget a = t)"
  using action_edge edge_has_action by blast

text \<open>Every incident that is not cancelled can still be closed, a cancelled incident stays
  cancelled, and closing always goes through ``resolved''.\<close>

theorem closing_is_reachable:
  "s \<in> set known_statuses \<Longrightarrow>
     (status_path s ''closed'' \<longleftrightarrow> s \<noteq> ''cancelled'') \<and>
     (\<forall>u. status_path ''cancelled'' u \<longrightarrow> u = ''cancelled'') \<and>
     (\<forall>u. IsValidTransition u ''closed'' \<longrightarrow> u = ''resolved'')"
proof (intro conjI iffI allI impI)
  assume s: "s \<in> set known_statuses"
  show "s \<noteq> ''cancelled''" if "status_path s ''closed''"
    using that cancelled_absorbing by fastforce
  show "status_path s ''closed''" if "s \<noteq> ''cancelled''"
    using path_to_active [OF s that] active_to_closed by (rule status_path_trans)
  show "u = ''cancelled''" if "status_path ''cancelled'' u" for u
    using that cancelled_absorbing by blast
  show "u = ''resolved''" if "IsValidTransition u ''closed''" for u
    using that by (auto simp: lifecycle_tables split: if_splits)
qed

theorem closing_is_reachable_witness:
  "status_path ''detected'' ''closed'' \<and> \<not> status_path ''cancelled'' ''closed''"
  using closing_is_reachable [of "''detected''"] closing_is_reachable [of "''cancelled''"]
  by (simp add: known_statuses_simps)

text \<open>The computed priority is always one of P1 to P5, never gets less urgent when severity
  or impact rise, and more urgent priorities get SLA targets that are at least as tight.\<close>

theorem priority_monotone:
  assumes "ValidSeverity sev" "ValidImpact imp" "ValidSeverity sev'" "ValidImpact imp'"
    and "SeverityRank sev \<le> SeverityRank sev'" and "impact_rank imp \<le> impact_rank imp'"
  shows "PriorityRank (ComputePriority sev imp) \<le> PriorityRank (ComputePriority sev' imp') \<and>
         fst (PriorityToSLATargets (ComputePriority sev imp))
           \<le> fst (PriorityToSLATargets (ComputePriority sev' imp')) \<and>
         snd (PriorityToSLATargets (ComputePriority sev imp))
           \<le> snd (PriorityToSLATargets (ComputePriority sev' imp'))"
proof -
  have r: "PriorityRank (ComputePriority sev imp) \<le> PriorityRank (ComputePriority sev' imp')"
    using assms by (simp add: PriorityRank_ComputePriority)
  then show ?thesis
    using SLA_targets_mono [OF ComputePriority_valid ComputePriority_valid] by blast
qed

theorem priority_monotone_witness:
  "PriorityRank (ComputePriority ''critical'' ''high'')
     \<le> PriorityRank (ComputePriority ''warning'' ''low'')"
  using priority_monotone [of "''critical''" "''high''" "''warning''" "''low''"]
  by (simp add: priority_tables impact_rank_def)

end
