(* ===== verification/Incident_Store.thy ===== *)
theory Incident_Store
  imports Incident_Lifecycle
begin

text \<open>
  The incident table of \<^verbatim>\<open>apps/backend/store/incident.go\<close> and the operations that write it.

  A table is the list of its rows. Each SQL statement of the source is translated clause by
  clause: the \<^verbatim>\<open>Where\<close> calls are a row predicate, the \<^verbatim>\<open>Set\<close> calls a row update, \<^verbatim>\<open>RowsAffected\<close>
  the number of rows the predicate selects. Constraints are those of migration
  \<^verbatim>\<open>00006_incidents.sql\<close>. That a statement can fail for reasons of its own (connection,
  timeout) is the Boolean argument \<open>dberr\<close>; times, generated identifiers and sequence values
  are arguments. A Go \<^verbatim>\<open>*T\<close> field is an option; the record's \<^verbatim>\<open>SlackChannelID\<close>, whose empty
  string the store writes as \<^verbatim>\<open>NULL\<close>, is an option as well. JSON columns are kept as their text.
\<close>

record incident =
  in_id :: uuid
  in_number :: int
  in_title :: string
  in_description :: string
  in_summary :: string
  in_status :: string
  in_severity :: string
  in_impact :: string
  in_priority :: string
  in_type :: string
  in_commander :: "uuid option"
  in_communicator :: "uuid option"
  in_responder :: "uuid option"
  in_service :: "uuid option"
  in_policy :: "uuid option"
  in_conference :: string
  in_slack_id :: "string option"
  in_slack_name :: string
  in_slack_archived :: bool
  in_statuspage :: string
  in_sla_respond :: "instant option"
  in_sla_resolve :: "instant option"
  in_sla_acked :: "instant option"
  in_sla_resolved :: "instant option"
  in_started :: "instant option"
  in_mitigated :: "instant option"
  in_resolved :: "instant option"
  in_closed :: "instant option"
  in_triaged :: "instant option"
  in_triage_report :: "string option"
  in_tags :: "string option"
  in_custom :: "string option"
  in_created :: instant
  in_updated :: instant
  in_deleted :: "instant option"

datatype incident_error =
  DbError | ErrIncidentNotFound | ErrIncidentStatusConflict | ConstraintError | SequenceError

text \<open>The zero \<^verbatim>\<open>time.Time\<close>: 1 January of year 1, UTC.\<close>

definition zero_time :: instant where
  "zero_time = - 62135596800 * go_second"

definition or_default :: "string \<Rightarrow> string \<Rightarrow> string" where
  "or_default s d = (if s = [] then d else s)"

text \<open>The \<^verbatim>\<open>CHECK\<close> constraints on a row, and \<^verbatim>\<open>UNIQUE (incident_number)\<close>.\<close>

definition incident_checks :: "incident \<Rightarrow> bool" where
  "incident_checks r \<longleftrightarrow>
     0 \<le> in_number r \<and> in_status r \<in> set known_statuses \<and> ValidSeverity (in_severity r) \<and>
     ValidImpact (in_impact r) \<and> ValidPriority (in_priority r) \<and> ValidIncidentType (in_type r)"

definition incidents_unique :: "incident list \<Rightarrow> bool" where
  "incidents_unique tab \<longleftrightarrow> distinct (map in_number tab) \<and> distinct (map in_id tab)"

subsection \<open>Create\<close>

definition CreateIncident_defaults :: "instant \<Rightarrow> incident \<Rightarrow> incident" where
  "CreateIncident_defaults now rec =
     rec\<lparr>in_status := or_default (in_status rec) ''detected'',
         in_severity := or_default (in_severity rec) ''warning'',
         in_impact := or_default (in_impact rec) ''medium'',
         in_priority := or_default (in_priority rec) ''P4'',
         in_type := or_default (in_type rec) ''real'',
         in_created := (if in_created rec = zero_time then now else in_created rec),
         in_updated := (if in_updated rec = zero_time then now else in_updated rec)\<rparr>"

text \<open>The inserted row copies the record, but for the identifier, and for the columns the
  \<^verbatim>\<open>models.Incident\<close> literal leaves out (\<^verbatim>\<open>summary\<close>, \<^verbatim>\<open>deleted_at\<close>), which get their defaults.\<close>

definition CreateIncident ::
  "bool \<Rightarrow> instant \<Rightarrow> uuid \<Rightarrow> int option \<Rightarrow> incident \<Rightarrow> incident list
     \<Rightarrow> (incident_error + incident) \<times> incident list" where
  "CreateIncident dberr now newid seq rec tab =
     (let rec1 = CreateIncident_defaults now rec in
      case (if in_number rec1 = 0 then seq else Some (in_number rec1)) of
        None \<Rightarrow> (Inl SequenceError, tab)
      | Some n \<Rightarrow>
          let rec2 = rec1\<lparr>in_number := n\<rparr>;
              m = rec2\<lparr>in_id := newid, in_summary := [], in_deleted := None\<rparr>
          in if dberr then (Inl DbError, tab)
             else if \<not> incident_checks m \<or> n \<in> in_number ` set tab \<or> newid \<in> in_id ` set tab
             then (Inl ConstraintError, tab)
             else (Inr (rec2\<lparr>in_id := newid\<rparr>), tab @ [m]))"

subsection \<open>Status transitions\<close>

definition applyStatusTimestampsBun :: "string \<Rightarrow> instant \<Rightarrow> incident \<Rightarrow> incident" where
  "applyStatusTimestampsBun toStatus now r =
     (if toStatus = ''triaging'' then r\<lparr>in_triaged := Some now\<rparr>
      else if toStatus = ''active'' then r\<lparr>in_sla_acked := Some now\<rparr>
      else if toStatus = ''mitigated'' then r\<lparr>in_mitigated := Some now\<rparr>
      else if toStatus = ''resolved'' then r\<lparr>in_resolved := Some now, in_sla_resolved := Some now\<rparr>
      else if toStatus = ''closed'' then r\<lparr>in_closed := Some now\<rparr>
      else r)"

definition transition_where :: "int \<Rightarrow> string list \<Rightarrow> incident \<Rightarrow> bool" where
  "transition_where n fromStatuses r \<longleftrightarrow>
     in_number r = n \<and> in_status r \<in> set fromStatuses \<and> in_deleted r = None"

definition TransitionIncidentStatus ::
  "bool \<Rightarrow> instant \<Rightarrow> int \<Rightarrow> string list \<Rightarrow> string \<Rightarrow> incident list
     \<Rightarrow> (incident_error + unit) \<times> incident list" where
  "TransitionIncidentStatus dberr now n fromStatuses toStatus tab =
     (let upd = (\<lambda>r. applyStatusTimestampsBun toStatus now
                       (r\<lparr>in_status := toStatus, in_updated := now\<rparr>));
          hits = filter (transition_where n fromStatuses) tab;
          tab' = map (\<lambda>r. if transition_where n fromStatuses r then upd r else r) tab
      in if dberr \<or> (hits \<noteq> [] \<and> toStatus \<notin> set known_statuses) then (Inl DbError, tab)
         else if hits = [] then (Inl ErrIncidentStatusConflict, tab)
         else (Inr (), tab'))"

definition ClearSLAResolvedAt ::
  "bool \<Rightarrow> int \<Rightarrow> incident list \<Rightarrow> (incident_error + unit) \<times> incident list" where
  "ClearSLAResolvedAt dberr n tab =
     (if dberr then (Inl DbError, tab)
      else (Inr (), map (\<lambda>r. if in_number r = n \<and> in_deleted r = None
                             then r\<lparr>in_sla_resolved := None\<rparr> else r) tab))"

subsection \<open>Update and delete\<close>

definition keep_or :: "'a option \<Rightarrow> 'a option \<Rightarrow> 'a option" where
  "keep_or new old = (case new of None \<Rightarrow> old | Some v \<Rightarrow> Some v)"

definition UpdateIncident_row :: "instant \<Rightarrow> incident \<Rightarrow> incident \<Rightarrow> incident" where
  "UpdateIncident_row now rec r =
     r\<lparr>in_title := in_title rec,
       in_description := in_description rec,
       in_summary := in_summary rec,
       in_severity := in_severity rec,
       in_impact := in_impact rec,
       in_priority := in_priority rec,
       in_type := in_type rec,
       in_conference := in_conference rec,
       in_statuspage := in_statuspage rec,
       in_updated := now,
       in_slack_id := in_slack_id rec,
       in_slack_name := (if in_slack_name rec \<noteq> [] then in_slack_name rec else in_slack_name r),
       in_slack_archived := in_slack_archived rec,
       in_commander := in_commander rec,
       in_communicator := in_communicator rec,
       in_responder := in_responder rec,
       in_service := in_service rec,
       in_policy := in_policy rec,
       in_sla_respond := keep_or (in_sla_respond rec) (in_sla_respond r),
       in_sla_resolve := keep_or (in_sla_resolve rec) (in_sla_resolve r),
       in_started := keep_or (in_started rec) (in_started r),
       in_mitigated := keep_or (in_mitigated rec) (in_mitigated r),
       in_resolved := keep_or (in_resolved rec) (in_resolved r),
       in_closed := keep_or (in_closed rec) (in_closed r),
       in_triaged := keep_or (in_triaged rec) (in_triaged r),
       in_triage_report := keep_or (in_triage_report rec) (in_triage_report r),
       in_tags := keep_or (in_tags rec) (in_tags r),
       in_custom := keep_or (in_custom rec) (in_custom r)\<rparr>"

definition live_incident :: "int \<Rightarrow> incident list \<Rightarrow> incident option" where
  "live_incident n tab = List.find (\<lambda>r. in_number r = n \<and> in_deleted r = None) tab"

definition UpdateIncident ::
  "bool \<Rightarrow> instant \<Rightarrow> int \<Rightarrow> incident \<Rightarrow> incident list
     \<Rightarrow> (incident_error + incident) \<times> incident list" where
  "UpdateIncident dberr now n rec tab =
     (if dberr then (Inl DbError, tab)
      else case live_incident n tab of
        None \<Rightarrow> (Inl ErrIncidentNotFound, tab)
      | Some inc \<Rightarrow>
          let row = UpdateIncident_row now rec inc in
          if \<not> incident_checks row then (Inl ConstraintError, tab)
          else (Inr row, map (\<lambda>r. if in_id r = in_id inc then UpdateIncident_row now rec r else r) tab))"

text \<open>\<^verbatim>\<open>DeleteIncident\<close>: the row is kept as a tombstone. The investigation artifacts that
  \<^verbatim>\<open>hardDeleteIncidentCascade\<close> removes are in other tables; its failure aborts the
  transaction (\<open>cascade_err\<close>).\<close>

definition DeleteIncident ::
  "bool \<Rightarrow> bool \<Rightarrow> instant \<Rightarrow> int \<Rightarrow> incident list \<Rightarrow> (incident_error + unit) \<times> incident list" where
  "DeleteIncident dberr cascade_err now n tab =
     (if dberr then (Inl DbError, tab)
      else case live_incident n tab of
        None \<Rightarrow> (Inl ErrIncidentNotFound, tab)
      | Some inc \<Rightarrow>
          if cascade_err then (Inl DbError, tab)
          else (Inr (), map (\<lambda>r. if in_id r = in_id inc
                                 then r\<lparr>in_deleted := Some now, in_updated := now\<rparr> else r) tab))"

text \<open>Reads: \<^verbatim>\<open>GetIncident\<close> also sees tombstones.\<close>

definition GetIncident :: "bool \<Rightarrow> int \<Rightarrow> incident list \<Rightarrow> incident_error + incident option" where
  "GetIncident dberr n tab =
     (if dberr then Inl DbError else Inr (List.find (\<lambda>r. in_number r = n) tab))"

subsection \<open>The contract of a lifecycle store\<close>

text \<open>
  What the handlers of \<^verbatim>\<open>api/incident_lifecycle.go\<close> rely on when they call
  \<^verbatim>\<open>TransitionIncidentStatus\<close> with \<^verbatim>\<open>ActionSources(a)\<close> and \<^verbatim>\<open>ActionTarget(a)\<close>: a success means the
  status was one of the sources and is now the target, a failure changes nothing, and other
  incidents keep their status.
\<close>

fun run_actions ::
  "(int \<Rightarrow> string list \<Rightarrow> string \<Rightarrow> 's \<Rightarrow> ('e + unit) \<times> 's) \<Rightarrow> (int \<times> string) list \<Rightarrow> 's \<Rightarrow> 's" where
  "run_actions step [] s = s"
| "run_actions step ((n, a) # ops) s =
     run_actions step ops (snd (step n (ActionSources a) (ActionTarget a) s))"

locale lifecycle_store =
  fixes step :: "int \<Rightarrow> string list \<Rightarrow> string \<Rightarrow> 's \<Rightarrow> ('e + unit) \<times> 's"
    and status_of :: "'s \<Rightarrow> int \<Rightarrow> string option"
    and inv :: "'s \<Rightarrow> bool"
  assumes trans_ok: "inv s \<Longrightarrow> step n srcs tgt s = (Inr (), s') \<Longrightarrow>
      (\<exists>st. status_of s n = Some st \<and> st \<in> set srcs) \<and> status_of s' n = Some tgt"
    and trans_err: "step n srcs tgt s = (Inl e, s') \<Longrightarrow> s' = s"
    and trans_frame: "inv s \<Longrightarrow> step n srcs tgt s = (res, s') \<Longrightarrow> m \<noteq> n \<Longrightarrow>
      status_of s' m = status_of s m"
    and trans_inv: "inv s \<Longrightarrow> step n srcs tgt s = (res, s') \<Longrightarrow> inv s'"
begin

lemma action_step:
  assumes "inv s" and "step n (ActionSources a) (ActionTarget a) s = (res, s')"
    and "status_of s m = Some st"
  shows "\<exists>st'. status_of s' m = Some st' \<and> status_path st st'"
proof (cases "m = n \<and> (\<exists>u. res = Inr u)")
  case True
  then have "res = Inr ()" by auto
  with assms(2) have "step n (ActionSources a) (ActionTarget a) s = (Inr (), s')" by simp
  from trans_ok [OF assms(1) this] assms(3) True show ?thesis
    by (auto intro: status_path_edge action_edge)
next
  case False
  show ?thesis
  proof (cases "m = n")
    case True
    with False obtain e where "res = Inl e" by (cases res) auto
    with assms(2) have "s' = s" using trans_err by blast
    with assms(3) show ?thesis by (blast intro: path_refl)
  next
    case neq: False
    from trans_frame [OF assms(1,2) neq] assms(3) show ?thesis by (auto intro: path_refl)
  qed
qed

lemma run_path:
  "inv s \<Longrightarrow> status_of s m = Some st \<Longrightarrow> \<exists>st'. status_of (run_actions step ops s) m = Some st' \<and> status_path st st'"
proof (induction ops arbitrary: s st)
  case Nil
  then show ?case by (auto intro: path_refl)
next
  case (Cons op ops)
  obtain n a where op: "op = (n, a)" by force
  obtain res s' where t: "step n (ActionSources a) (ActionTarget a) s = (res, s')" by force
  from action_step [OF Cons.prems(1) t Cons.prems(2)] obtain st1
    where st1: "status_of s' m = Some st1" "status_path st st1" by blast
  have "inv s'" using trans_inv [OF Cons.prems(1) t] .
  with Cons.IH op t st1(1) obtain st'
    where "status_of (run_actions step ops s') m = Some st'" "status_path st1 st'" by auto
  with t op st1(2) show ?case by (auto intro: status_path_trans)
qed

text \<open>Optimistic concurrency: of two identical actions on one incident, the second fails.\<close>

lemma action_not_repeatable:
  assumes "inv s" and "step n (ActionSources a) (ActionTarget a) s = (Inr (), s')"
  shows "fst (step n (ActionSources a) (ActionTarget a) s') \<noteq> Inr ()"
proof
  assume "fst (step n (ActionSources a) (ActionTarget a) s') = Inr ()"
  then obtain s'' where t: "step n (ActionSources a) (ActionTarget a) s' = (Inr (), s'')"
    by (metis prod.collapse)
  have "inv s'" using trans_inv [OF assms] .
  from trans_ok [OF this t] trans_ok [OF assms] show False
    using ActionTarget_not_source by fastforce
qed

end

definition incident_status_of :: "incident list \<Rightarrow> int \<Rightarrow> string option" where
  "incident_status_of tab n = map_option in_status (live_incident n tab)"

subsection \<open>The SQL table keeps the contract\<close>

lemma stamps_fields [simp]:
  "in_number (applyStatusTimestampsBun t now r) = in_number r"
  "in_id (applyStatusTimestampsBun t now r) = in_id r"
  "in_status (applyStatusTimestampsBun t now r) = in_status r"
  "in_deleted (applyStatusTimestampsBun t now r) = in_deleted r"
  by (simp_all add: applyStatusTimestampsBun_def)

lemma stamps_checks [simp]:
  "incident_checks (applyStatusTimestampsBun t now r) = incident_checks r"
  by (simp add: applyStatusTimestampsBun_def incident_checks_def)

definition transition_row :: "instant \<Rightarrow> string \<Rightarrow> incident \<Rightarrow> incident" where
  "transition_row now tgt r =
     applyStatusTimestampsBun tgt now (r\<lparr>in_status := tgt, in_updated := now\<rparr>)"

lemma transition_row_fields [simp]:
  "in_number (transition_row now tgt r) = in_number r"
  "in_id (transition_row now tgt r) = in_id r"
  "in_status (transition_row now tgt r) = tgt"
  "in_deleted (transition_row now tgt r) = in_deleted r"
  by (simp_all add: transition_row_def)

lemma Transition_ok:
  "TransitionIncidentStatus dberr now n srcs tgt tab = (Inr (), tab') \<longleftrightarrow>
     \<not> dberr \<and> (\<exists>r \<in> set tab. transition_where n srcs r) \<and> tgt \<in> set known_statuses \<and>
     tab' = map (\<lambda>r. if transition_where n srcs r then transition_row now tgt r else r) tab"
  by (auto simp: TransitionIncidentStatus_def Let_def transition_row_def filter_empty_conv)

lemma Transition_err:
  "TransitionIncidentStatus dberr now n srcs tgt tab = (Inl e, tab') \<Longrightarrow> tab' = tab"
  by (auto simp: TransitionIncidentStatus_def Let_def split: if_splits)

text \<open>With unique numbers an update at a number is an update of the one row found there.\<close>

lemma live_incident_SomeD:
  "live_incident n tab = Some r \<Longrightarrow> r \<in> set tab \<and> in_number r = n \<and> in_deleted r = None"
  by (auto simp: live_incident_def find_split)

lemma live_incident_Some:
  assumes "incidents_unique tab" and "r \<in> set tab" and "in_number r = n" and "in_deleted r = None"
  shows "live_incident n tab = Some r"
proof -
  have "live_incident n tab \<noteq> None"
    using assms(2-4) by (auto simp: live_incident_def find_None)
  then obtain r' where r': "live_incident n tab = Some r'" by blast
  with assms have "r' = r"
    by (auto dest!: live_incident_SomeD simp: incidents_unique_def distinct_map dest: inj_onD)
  with r' show ?thesis by simp
qed

lemma live_incident_None:
  "live_incident n tab = None \<longleftrightarrow> (\<forall>r \<in> set tab. in_number r = n \<longrightarrow> in_deleted r \<noteq> None)"
  by (auto simp: live_incident_def find_None)

lemma incidents_unique_map:
  assumes "\<And>r. in_number (f r) = in_number r" "\<And>r. in_id (f r) = in_id r"
  shows "incidents_unique (map f tab) = incidents_unique tab"
  by (simp add: incidents_unique_def o_def assms)

lemma live_incident_map_other:
  assumes "\<And>r. in_number (f r) = in_number r" "\<And>r. in_number r = m \<Longrightarrow> f r = r"
  shows "live_incident m (map f tab) = live_incident m tab"
  by (induction tab) (auto simp: live_incident_def assms)

lemma live_incident_map:
  assumes "\<And>r. in_number (f r) = in_number r" "\<And>r. in_deleted (f r) = in_deleted r"
  shows "live_incident n (map f tab) = map_option f (live_incident n tab)"
  by (induction tab) (auto simp: live_incident_def assms)

interpretation incident_table:
  lifecycle_store "TransitionIncidentStatus dberr now" incident_status_of incidents_unique
  for dberr now
proof
  fix s n srcs tgt s'
  assume u: "incidents_unique s"
    and t: "TransitionIncidentStatus dberr now n srcs tgt s = (Inr (), s')"
  let ?f = "\<lambda>r. if transition_where n srcs r then transition_row now tgt r else r"
  from t obtain r where r: "r \<in> set s" "transition_where n srcs r" and s': "s' = map ?f s"
    unfolding Transition_ok by blast
  have l: "live_incident n s = Some r"
    using live_incident_Some [OF u r(1)] r(2) by (simp add: transition_where_def)
  moreover have "live_incident n s' = Some (?f r)"
    unfolding s' by (subst live_incident_map) (simp_all add: l)
  ultimately show "(\<exists>st. incident_status_of s n = Some st \<and> st \<in> set srcs) \<and>
      incident_status_of s' n = Some tgt"
    using r by (simp add: incident_status_of_def transition_where_def)
next
  fix n srcs tgt s e s'
  assume "TransitionIncidentStatus dberr now n srcs tgt s = (Inl e, s')"
  then show "s' = s" by (rule Transition_err)
next
  fix s n srcs tgt res s' m
  assume "TransitionIncidentStatus dberr now n srcs tgt s = (res, s')" and "m \<noteq> (n :: int)"
  then show "incident_status_of s' m = incident_status_of s m"
    by (cases res)
       (auto dest: Transition_err simp: Transition_ok incident_status_of_def transition_where_def
          intro!: arg_cong [where f = "map_option in_status"] live_incident_map_other)
next
  fix s n srcs tgt res s'
  assume "incidents_unique s" and "TransitionIncidentStatus dberr now n srcs tgt s = (res, s')"
  then show "incidents_unique s'"
    by (cases res) (auto dest: Transition_err simp: Transition_ok incidents_unique_map)
qed

subsection \<open>Reachable tables\<close>

text \<open>
  The tables the program can reach: incidents are created with no status, ``detected'' (API and
  worker) or ``active'' (agent tool), moved by lifecycle actions, and updated, cleared and
  deleted in between, in any order and with any failures.
\<close>

inductive incident_reach :: "incident list \<Rightarrow> bool" where
  ir_empty: "incident_reach []"
| ir_create: "incident_reach tab \<Longrightarrow> in_status rec \<in> {[], ''detected'', ''active''} \<Longrightarrow>
    CreateIncident dberr now newid seq rec tab = (res, tab') \<Longrightarrow> incident_reach tab'"
| ir_action: "incident_reach tab \<Longrightarrow>
    TransitionIncidentStatus dberr now n (ActionSources a) (ActionTarget a) tab = (res1, tab') \<Longrightarrow>
    incident_reach tab'"
| ir_update: "incident_reach tab \<Longrightarrow> UpdateIncident dberr now n rec tab = (res, tab') \<Longrightarrow>
    incident_reach tab'"
| ir_clear: "incident_reach tab \<Longrightarrow> ClearSLAResolvedAt dberr n tab = (res1, tab') \<Longrightarrow>
    incident_reach tab'"
| ir_delete: "incident_reach tab \<Longrightarrow> DeleteIncident dberr cascade_err now n tab = (res1, tab') \<Longrightarrow>
    incident_reach tab'"

text \<open>A row whose status says it was mitigated, resolved or closed carries the stamps of it.\<close>

definition stamped :: "incident \<Rightarrow> bool" where
  "stamped r \<longleftrightarrow>
     (in_status r = ''mitigated'' \<longrightarrow> in_mitigated r \<noteq> None) \<and>
     (in_status r \<in> {''resolved'', ''closed''} \<longrightarrow> in_resolved r \<noteq> None) \<and>
     (in_status r = ''closed'' \<longrightarrow> in_closed r \<noteq> None)"

definition incident_inv :: "incident list \<Rightarrow> bool" where
  "incident_inv tab \<longleftrightarrow> incidents_unique tab \<and> (\<forall>r \<in> set tab. incident_checks r \<and> stamped r)"

lemma incident_inv_map:
  assumes "incident_inv tab" and "\<And>r. in_number (f r) = in_number r" "\<And>r. in_id (f r) = in_id r"
    and "\<And>r. r \<in> set tab \<Longrightarrow> incident_checks r \<Longrightarrow> stamped r \<Longrightarrow> incident_checks (f r) \<and> stamped (f r)"
  shows "incident_inv (map f tab)"
  using assms by (auto simp: incident_inv_def incidents_unique_map)

definition created_row :: "instant \<Rightarrow> uuid \<Rightarrow> int \<Rightarrow> incident \<Rightarrow> incident" where
  "created_row now newid n rec =
     (CreateIncident_defaults now rec)\<lparr>in_number := n, in_id := newid, in_summary := [],
        in_deleted := None\<rparr>"

lemma created_row_fields [simp]:
  "in_number (created_row now newid n rec) = n"
  "in_id (created_row now newid n rec) = newid"
  "in_status (created_row now newid n rec) = or_default (in_status rec) ''detected''"
  by (simp_all add: created_row_def CreateIncident_defaults_def)

lemma CreateIncident_cases:
  assumes "CreateIncident dberr now newid seq rec tab = (res, tab')"
  obtains (same) "tab' = tab"
  | (new) n where "incident_checks (created_row now newid n rec)" "n \<notin> in_number ` set tab"
      "newid \<notin> in_id ` set tab" "tab' = tab @ [created_row now newid n rec]"
proof -
  have "tab' = tab \<or> (\<exists>n. incident_checks (created_row now newid n rec) \<and> n \<notin> in_number ` set tab \<and>
      newid \<notin> in_id ` set tab \<and> tab' = tab @ [created_row now newid n rec])"
    using assms unfolding CreateIncident_def Let_def created_row_def
    by (split option.split_asm) (simp_all split: if_split_asm, blast+)
  then show thesis using same new by blast
qed

lemma CreateIncident_inv:
  assumes "incident_inv tab" "in_status rec \<in> {[], ''detected'', ''active''}"
    and "CreateIncident dberr now newid seq rec tab = (res, tab')"
  shows "incident_inv tab'"
  using assms(3)
proof (cases rule: CreateIncident_cases)
  case same
  with assms(1) show ?thesis by simp
next
  case (new n)
  have "stamped (created_row now newid n rec)"
    using assms(2) by (auto simp: stamped_def or_default_def)
  with assms(1) new show ?thesis
    by (simp add: incident_inv_def incidents_unique_def)
qed

lemma transition_row_stamped:
  assumes "in_status r \<in> set (ActionSources a)" "incident_checks r" "stamped r"
  shows "incident_checks (transition_row now (ActionTarget a) r) \<and>
         stamped (transition_row now (ActionTarget a) r)"
proof
  have "ActionTarget a \<in> set known_statuses"
    using assms(1) action_edge IsValidTransition_known by blast
  with assms(2) show "incident_checks (transition_row now (ActionTarget a) r)"
    by (simp add: transition_row_def) (simp add: incident_checks_def)
  have "ActionTarget a = ''closed'' \<Longrightarrow> in_status r = ''resolved''"
    using action_edge [OF assms(1)] by (auto simp: lifecycle_tables split: if_splits)
  with assms(3) show "stamped (transition_row now (ActionTarget a) r)"
    by (auto simp: stamped_def transition_row_def applyStatusTimestampsBun_def)
qed

lemma TransitionIncident_inv:
  assumes "incident_inv tab"
    and "TransitionIncidentStatus dberr now n (ActionSources a) (ActionTarget a) tab = (res, tab')"
  shows "incident_inv tab'"
proof (cases res)
  case (Inl e)
  with assms show ?thesis by (auto dest: Transition_err)
next
  case (Inr u)
  with assms(2) have tab': "tab' = map (\<lambda>r. if transition_where n (ActionSources a) r
      then transition_row now (ActionTarget a) r else r) tab"
    by (simp add: Transition_ok)
  show ?thesis unfolding tab'
    by (rule incident_inv_map [OF assms(1)])
       (auto simp: transition_where_def transition_row_stamped)
qed

lemma UpdateIncident_row_fields [simp]:
  "in_number (UpdateIncident_row now rec r) = in_number r"
  "in_id (UpdateIncident_row now rec r) = in_id r"
  "in_status (UpdateIncident_row now rec r) = in_status r"
  "in_deleted (UpdateIncident_row now rec r) = in_deleted r"
  by (simp_all add: UpdateIncident_row_def)

lemma UpdateIncident_stamped: "stamped r \<Longrightarrow> stamped (UpdateIncident_row now rec r)"
  by (auto simp: stamped_def UpdateIncident_row_def keep_or_def split: option.splits)

lemma UpdateIncident_cases:
  assumes "UpdateIncident dberr now n rec tab = (res, tab')"
  obtains (same) "tab' = tab"
  | (upd) inc where "live_incident n tab = Some inc" "res = Inr (UpdateIncident_row now rec inc)"
      "incident_checks (UpdateIncident_row now rec inc)"
      "tab' = map (\<lambda>r. if in_id r = in_id inc then UpdateIncident_row now rec r else r) tab"
  using assms by (auto simp: UpdateIncident_def Let_def split: option.splits if_splits)

lemma UpdateIncident_inv:
  assumes "incident_inv tab" and "UpdateIncident dberr now n rec tab = (res, tab')"
  shows "incident_inv tab'"
  using assms(2)
proof (cases rule: UpdateIncident_cases)
  case same
  with assms(1) show ?thesis by simp
next
  case (upd inc)
  have "r = inc" if "r \<in> set tab" "in_id r = in_id inc" for r
    using assms(1) that live_incident_SomeD [OF upd(1)]
    by (auto simp: incident_inv_def incidents_unique_def distinct_map dest: inj_onD)
  then show ?thesis unfolding upd(4)
    by (intro incident_inv_map [OF assms(1)]) (use upd(3) in \<open>auto simp: UpdateIncident_stamped\<close>)
qed

lemma ClearSLA_inv:
  "incident_inv tab \<Longrightarrow> ClearSLAResolvedAt dberr n tab = (res, tab') \<Longrightarrow> incident_inv tab'"
  by (auto simp: ClearSLAResolvedAt_def incident_checks_def stamped_def split: if_splits
      intro!: incident_inv_map)

lemma DeleteIncident_inv:
  "incident_inv tab \<Longrightarrow> DeleteIncident dberr c now n tab = (res, tab') \<Longrightarrow> incident_inv tab'"
  by (auto simp: DeleteIncident_def incident_checks_def stamped_def split: if_splits option.splits
      intro!: incident_inv_map)

lemma incident_reach_inv: "incident_reach tab \<Longrightarrow> incident_inv tab"
proof (induction rule: incident_reach.induct)
  case ir_empty
  show ?case by (simp add: incident_inv_def incidents_unique_def)
qed (blast intro: CreateIncident_inv TransitionIncident_inv UpdateIncident_inv ClearSLA_inv
      DeleteIncident_inv)+

subsection \<open>Properties\<close>

text \<open>Along any run of lifecycle actions against the incident table, with any failures in
  between, the status of an incident only moves along paths of the status graph; in particular
  a cancelled incident stays cancelled.\<close>

theorem lifecycle_runs_follow_graph:
  assumes "incidents_unique tab" and "incident_status_of tab n = Some st"
  shows "\<exists>st'. incident_status_of (run_actions (TransitionIncidentStatus dberr now) ops tab) n = Some st' \<and>
           status_path st st' \<and> (st = ''cancelled'' \<longrightarrow> st' = ''cancelled'')"
  using incident_table.run_path [OF assms] cancelled_absorbing by blast

definition example_incident :: incident where
  "example_incident =
     \<lparr>in_id = 1, in_number = 7, in_title = ''db down'', in_description = [], in_summary = [],
      in_status = ''detected'', in_severity = ''high'', in_impact = ''medium'',
      in_priority = ''P3'', in_type = ''real'', in_commander = None, in_communicator = None,
      in_responder = None, in_service = None, in_policy = None, in_conference = [],
      in_slack_id = None, in_slack_name = [], in_slack_archived = False, in_statuspage = [],
      in_sla_respond = None, in_sla_resolve = None, in_sla_acked = None, in_sla_resolved = None,
      in_started = None, in_mitigated = None, in_resolved = None, in_closed = None,
      in_triaged = None, in_triage_report = None, in_tags = None, in_custom = None,
      in_created = 5, in_updated = 5, in_deleted = None\<rparr>"

lemma example_incident_facts:
  "incidents_unique [example_incident]" "incident_status_of [example_incident] 7 = Some ''detected''"
  by (simp_all add: incidents_unique_def incident_status_of_def live_incident_def
      example_incident_def)

theorem lifecycle_runs_follow_graph_witness:
  "\<exists>st'. incident_status_of
      (run_actions (TransitionIncidentStatus False 9)
        [(7, ''acknowledge''), (7, ''resolve'')] [example_incident]) 7
      = Some st' \<and> status_path ''detected'' st'"
  using lifecycle_runs_follow_graph [OF example_incident_facts] by blast

text \<open>C6. Optimistic concurrency: when a lifecycle action succeeds, the incident was in a source
  status of the action and is now in its target with its stamps, every other row is unchanged,
  and the same action issued again (the loser of a race) gets a conflict.\<close>

theorem lifecycle_action_wins_once:
  assumes u: "incidents_unique tab"
    and t: "TransitionIncidentStatus dberr now n (ActionSources a) (ActionTarget a) tab = (Inr (), tab')"
  shows "\<exists>r \<in> set tab. in_number r = n \<and> in_deleted r = None \<and> in_status r \<in> set (ActionSources a) \<and>
           tab' = map (\<lambda>x. if x = r then transition_row now (ActionTarget a) r else x) tab \<and>
           TransitionIncidentStatus False later n (ActionSources a) (ActionTarget a) tab'
             = (Inl ErrIncidentStatusConflict, tab')"
proof -
  from t obtain r where r: "r \<in> set tab" "transition_where n (ActionSources a) r"
    and tab': "tab' = map (\<lambda>r. if transition_where n (ActionSources a) r
        then transition_row now (ActionTarget a) r else r) tab"
    unfolding Transition_ok by blast
  have only: "x = r" if "x \<in> set tab" "transition_where n (ActionSources a) x" for x
    using u r that
    by (auto simp: incidents_unique_def distinct_map transition_where_def dest: inj_onD)
  have "tab' = map (\<lambda>x. if x = r then transition_row now (ActionTarget a) r else x) tab"
    unfolding tab'
  proof (rule map_cong [OF refl])
    fix x assume "x \<in> set tab"
    then have eq: "transition_where n (ActionSources a) x \<longleftrightarrow> x = r" using only r(2) by blast
    show "(if transition_where n (ActionSources a) x
        then transition_row now (ActionTarget a) x else x)
      = (if x = r then transition_row now (ActionTarget a) r else x)"
      unfolding eq by (rule if_cong [OF refl _ refl]) (erule arg_cong)
  qed
  moreover have no: "\<not> transition_where n (ActionSources a) y" if y: "y \<in> set tab'" for y
  proof -
    from y tab' obtain x where y': "y = (if transition_where n (ActionSources a) x
        then transition_row now (ActionTarget a) x else x)"
      unfolding tab' set_map by (elim imageE) blast
    have "\<not> transition_where n (ActionSources a) (transition_row now (ActionTarget a) x)"
      unfolding transition_where_def by (simp only: transition_row_fields ActionTarget_not_source) simp
    then show ?thesis unfolding y' by (cases "transition_where n (ActionSources a) x") simp_all
  qed
  have "filter (transition_where n (ActionSources a)) tab' = []"
    unfolding filter_empty_conv using no by blast
  then have "TransitionIncidentStatus False later n (ActionSources a) (ActionTarget a) tab'
      = (Inl ErrIncidentStatusConflict, tab')"
    by (simp add: TransitionIncidentStatus_def)
  ultimately show ?thesis
    using r(1) r(2) [unfolded transition_where_def] by blast
qed

theorem lifecycle_action_wins_once_witness:
  "\<exists>tab'. TransitionIncidentStatus False 9 7 (ActionSources ''acknowledge'')
       (ActionTarget ''acknowledge'') [example_incident] = (Inr (), tab') \<and>
     TransitionIncidentStatus False 10 7 (ActionSources ''acknowledge'')
       (ActionTarget ''acknowledge'') tab' = (Inl ErrIncidentStatusConflict, tab')"
proof -
  have "TransitionIncidentStatus False 9 7 (ActionSources ''acknowledge'')
       (ActionTarget ''acknowledge'') [example_incident]
     = (Inr (), [transition_row 9 ''active'' example_incident])"
    by (simp add: Transition_ok transition_where_def lifecycle_tables example_incident_def
        known_statuses_simps)
  from lifecycle_action_wins_once [OF example_incident_facts(1) this] this
  show ?thesis by blast
qed



text \<open>Editing an incident never moves its lifecycle: \<^verbatim>\<open>UpdateIncident\<close> leaves the status, the
  SLA acknowledge and resolve stamps and the tombstone of every row as they were, whatever the
  record it is given says.\<close>

theorem update_keeps_lifecycle:
  assumes "UpdateIncident dberr now n rec tab = (res, tab')"
  shows "map in_status tab' = map in_status tab \<and> map in_sla_acked tab' = map in_sla_acked tab \<and>
         map in_sla_resolved tab' = map in_sla_resolved tab \<and>
         map in_deleted tab' = map in_deleted tab \<and> map in_number tab' = map in_number tab"
  using assms
  by (cases rule: UpdateIncident_cases) (auto simp: UpdateIncident_row_def)

theorem update_keeps_lifecycle_witness:
  "map in_status (snd (UpdateIncident False 9 7 (example_incident\<lparr>in_status := ''closed''\<rparr>)
     [example_incident])) = [''detected'']"
proof -
  obtain res tab' where t: "UpdateIncident False 9 7 (example_incident\<lparr>in_status := ''closed''\<rparr>)
      [example_incident] = (res, tab')" by force
  have e: "in_status example_incident = ''detected''" by (simp add: example_incident_def)
  from update_keeps_lifecycle [OF t] have "map in_status tab' = [''detected'']" by (simp add: e)
  with t show ?thesis by simp
qed

text \<open>An empty list of source statuses never matches a row: where \<^verbatim>\<open>ActionSources\<close> returns
  nil for an unknown action, the store reports a conflict and changes nothing (its comment
  says the store would treat nil as ``no guard'').\<close>

theorem unknown_action_conflicts:
  assumes "action \<notin> fst ` set actionTransitions"
  shows "TransitionIncidentStatus False now n (ActionSources action) tgt tab
           = (Inl ErrIncidentStatusConflict, tab)"
  using ActionSources_unknown [OF assms]
  by (simp add: TransitionIncidentStatus_def transition_where_def)

theorem unknown_action_conflicts_witness:
  "TransitionIncidentStatus False 9 7 (ActionSources ''escalate'') ''active'' [example_incident]
     = (Inl ErrIncidentStatusConflict, [example_incident])"
  by (rule unknown_action_conflicts) (simp add: actionTransitions_def)

end
