(* ===== verification/Matching.thy ===== *)
theory Matching
  imports Prelude
begin

text \<open>
  Package \<^verbatim>\<open>apps/backend/matching\<close> (\<^verbatim>\<open>conditions.go\<close>): the condition operators of routing and
  automation rules, the wildcard matcher, and the bounded cache of compiled regular expressions.

  The regular-expression engine of the Go library is a parameter:
  \<open>compile p = None\<close> when \<^verbatim>\<open>regexp.Compile\<close> rejects \<open>p\<close>, otherwise the match function of the
  compiled pattern. The wildcard matcher is refined against a declarative glob, the cache
  against the compiler itself.
\<close>

type_synonym regex_engine = "string \<Rightarrow> (string \<Rightarrow> bool) option"
type_synonym regex_cache = "(string \<times> (string \<Rightarrow> bool) option) list"

subsection \<open>Wildcards\<close>

text \<open>The loop of \<^verbatim>\<open>WildcardMatch\<close>: search each non-empty part after position \<open>pos\<close>.\<close>

fun wildcard_loop :: "string list \<Rightarrow> string \<Rightarrow> nat \<Rightarrow> bool" where
  "wildcard_loop [] s pos = True"
| "wildcard_loop (p # ps) s pos =
     (if p = [] then wildcard_loop ps s pos
      else case go_index (drop pos s) p of
             None \<Rightarrow> False
           | Some idx \<Rightarrow> wildcard_loop ps s (pos + idx + length p))"

definition WildcardMatch :: "string \<Rightarrow> string \<Rightarrow> bool" where
  "WildcardMatch pattern s =
     (if \<not> go_contains pattern ''*'' then s = pattern
      else
        let parts = go_split (CHR ''*'') pattern
        in if hd parts \<noteq> [] \<and> \<not> go_has_prefix s (hd parts) then False
           else if last parts \<noteq> [] \<and> \<not> go_has_suffix s (last parts) then False
           else wildcard_loop parts s 0)"

text \<open>The specification: a star stands for any string, every other byte for itself.\<close>

fun glob :: "string \<Rightarrow> string \<Rightarrow> bool" where
  "glob [] s = (s = [])"
| "glob (c # p) [] = (c = CHR ''*'' \<and> glob p [])"
| "glob (c # p) (x # s) =
     (if c = CHR ''*'' then glob p (x # s) \<or> glob (c # p) s else c = x \<and> glob p s)"

text \<open>Occurrences in order, and the same with the first part anchored and the last one final.\<close>

fun in_order :: "string list \<Rightarrow> string \<Rightarrow> bool" where
  "in_order [] s = True"
| "in_order (p # ps) s = (\<exists>a b. s = a @ p @ b \<and> in_order ps b)"

fun tiles :: "string list \<Rightarrow> string \<Rightarrow> bool" where
  "tiles [] s = (s = [])"
| "tiles [p] s = (s = p)"
| "tiles (p # q # ps) s = (\<exists>a b. s = p @ a @ b \<and> tiles (q # ps) b)"

lemma in_order_mono: "in_order ps b \<Longrightarrow> in_order ps (a @ b)"
proof (cases ps)
  case (Cons p qs)
  assume "in_order ps b"
  then obtain u v where "b = u @ p @ v" "in_order qs v" using Cons by auto
  then have "a @ b = (a @ u) @ p @ v" by simp
  with \<open>in_order qs v\<close> show ?thesis unfolding Cons in_order.simps by blast
qed simp

lemma wildcard_loop_in_order: "wildcard_loop ps s pos = in_order ps (drop pos s)"
proof (induction ps s pos rule: wildcard_loop.induct)
  case (1 s pos)
  show ?case by simp
next
  case (2 p ps s pos)
  show ?case
  proof (cases "p = []")
    case True
    have "in_order ([] # ps) t \<longleftrightarrow> in_order ps t" for t
      using in_order_mono by (auto intro: exI [of _ "[]"])
    with True 2(1) show ?thesis by simp
  next
    case ne: False
    show ?thesis
    proof (cases "go_index (drop pos s) p")
      case None
      then have "\<not> go_contains (drop pos s) p" by (simp add: go_contains_def)
      then have "\<not> in_order (p # ps) (drop pos s)" by (auto simp: go_contains_iff)
      with None ne show ?thesis by simp
    next
      case (Some i)
      obtain a b where ab: "drop pos s = a @ p @ b" "length a = i"
        using go_index_SomeD [OF Some] by blast
      have rest: "drop (pos + i + length p) s = b"
        using ab by (metis add.commute append.assoc append_eq_conv_conj drop_drop length_append)
      have "in_order (p # ps) (drop pos s) \<longleftrightarrow> in_order ps b"
      proof
        assume "in_order (p # ps) (drop pos s)"
        then obtain u v where uv: "drop pos s = u @ p @ v" "in_order ps v" by auto
        have "i \<le> length u" using go_index_le [of u p v] Some uv(1) by simp
        moreover have "length u + length v = length a + length b"
          using arg_cong [OF uv(1) [unfolded ab(1)], of length] by simp
        ultimately have "length v \<le> length b" using ab(2) by simp
        moreover have "suffix v (drop pos s)" "suffix b (drop pos s)"
          unfolding suffix_def using uv(1) ab(1) by (metis append_assoc)+
        ultimately have "suffix v b" by (metis suffix_length_suffix)
        with uv(2) show "in_order ps b" by (auto simp: suffix_def intro: in_order_mono)
      qed (use ab in auto)
      with Some ne 2(2) [OF ne Some] rest show ?thesis by simp
    qed
  qed
qed

lemma in_order_anchored:
  "in_order (p # ps) s \<Longrightarrow> go_has_prefix s p \<Longrightarrow> \<exists>t. s = p @ t \<and> in_order ps t"
proof -
  assume "in_order (p # ps) s" "go_has_prefix s p"
  then obtain a b t where ab: "s = a @ p @ b" "in_order ps b" and t: "s = p @ t"
    by (auto simp: go_has_prefix_iff)
  then have "length (a @ p @ b) = length (p @ t)" by simp
  then have "length b \<le> length t" by simp
  moreover have "suffix b s" unfolding suffix_def using ab(1) by (metis append_assoc)
  moreover have "suffix t s" unfolding suffix_def using t by blast
  ultimately have "suffix b t" by (metis suffix_length_suffix)
  with ab(2) t show ?thesis by (auto simp: suffix_def intro: in_order_mono)
qed

lemma in_order_final:
  "in_order (ps @ [z]) t \<Longrightarrow> suffix t s \<Longrightarrow> suffix z s \<Longrightarrow> \<exists>a b. t = a @ b \<and> tiles (ps @ [z]) b"
proof (induction ps arbitrary: t)
  case Nil
  then obtain a b where "t = a @ z @ b" by auto
  then have "length z \<le> length t" by simp
  with Nil.prems have "suffix z t" by (metis suffix_length_suffix)
  then show ?case by (simp add: suffix_def)
next
  case (Cons p ps)
  then obtain a b where ab: "t = a @ p @ b" "in_order (ps @ [z]) b" by auto
  moreover have "suffix b s"
    using ab(1) Cons.prems(2) unfolding suffix_def by (metis append_assoc)
  ultimately obtain c d where "b = c @ d" "tiles (ps @ [z]) d"
    using Cons.IH Cons.prems(3) by blast
  moreover obtain q qs where "ps @ [z] = q # qs" by (cases ps) auto
  ultimately have "tiles ((p # ps) @ [z]) (p @ b)" by auto
  with ab(1) show ?case by blast
qed

lemma tiles_in_order: "tiles ps s \<Longrightarrow> in_order ps s"
proof (induction ps s rule: tiles.induct)
  case (2 p s)
  then show ?case by (auto intro: exI [of _ "[]"])
next
  case (3 p q ps s)
  then obtain a b where ab: "s = p @ a @ b" "tiles (q # ps) b" by auto
  with 3 have "in_order (q # ps) (a @ b)" by (blast intro: in_order_mono)
  with ab(1) show ?case by (subst in_order.simps) (metis append_Nil)
qed simp

lemma tiles_ends:
  "tiles ps s \<Longrightarrow> ps \<noteq> [] \<Longrightarrow> go_has_prefix s (hd ps) \<and> go_has_suffix s (last ps)"
proof (induction ps s rule: tiles.induct)
  case (2 p s)
  then show ?case by (auto simp: go_has_prefix_iff go_has_suffix_iff intro: exI [of _ "[]"])
next
  case (3 p q ps s)
  then show ?case by (auto simp: go_has_prefix_iff go_has_suffix_iff) (metis append_assoc)
qed simp

lemma tiles_iff:
  assumes "2 \<le> length ps"
  shows "tiles ps s \<longleftrightarrow>
    go_has_prefix s (hd ps) \<and> go_has_suffix s (last ps) \<and> in_order ps s"
proof
  assume "tiles ps s"
  moreover have "ps \<noteq> []" using assms by auto
  ultimately show "go_has_prefix s (hd ps) \<and> go_has_suffix s (last ps) \<and> in_order ps s"
    using tiles_ends tiles_in_order by blast
next
  assume r: "go_has_prefix s (hd ps) \<and> go_has_suffix s (last ps) \<and> in_order ps s"
  obtain p q qs where ps: "ps = p # q # qs" using assms
    by (cases ps; cases "tl ps") auto
  then have rest: "q # qs = butlast (q # qs) @ [last (q # qs)]" by simp
  from r ps obtain t where t: "s = p @ t" "in_order (q # qs) t"
    using in_order_anchored [of p "q # qs" s] by auto
  have "suffix t s" using t(1) by (simp add: suffix_def)
  moreover have "suffix (last (q # qs)) s" using r ps by (auto simp: go_has_suffix_iff suffix_def)
  ultimately obtain a b where "t = a @ b" "tiles (q # qs) b"
    using in_order_final [of "butlast (q # qs)" "last (q # qs)" t s] t(2) rest by metis
  with t(1) ps show "tiles ps s" by auto
qed

lemma glob_star: "glob (CHR ''*'' # p) s \<longleftrightarrow> (\<exists>a b. s = a @ b \<and> glob p b)"
proof (induction s)
  case (Cons x s)
  then show ?case by (auto simp: Cons_eq_append_conv)
qed simp

lemma glob_lit: "c \<noteq> CHR ''*'' \<Longrightarrow> glob (c # p) s \<longleftrightarrow> (\<exists>t. s = c # t \<and> glob p t)"
  by (cases s) auto

lemma tiles_push:
  "tiles ((c # y) # ys) s \<longleftrightarrow> (\<exists>t. s = c # t \<and> tiles (y # ys) t)"
  by (cases ys) auto

lemma glob_tiles: "glob p s \<longleftrightarrow> tiles (go_split (CHR ''*'') p) s"
proof (induction p arbitrary: s)
  case (Cons c p)
  obtain y ys where sp: "go_split (CHR ''*'') p = y # ys"
    by (cases "go_split (CHR ''*'') p") auto
  show ?case
  proof (cases "c = CHR ''*''")
    case True
    then show ?thesis using Cons sp by (simp add: glob_star)
  next
    case False
    then show ?thesis using Cons sp by (simp add: glob_lit tiles_push del: glob.simps)
  qed
qed simp

lemma go_split_length: "go_contains p [c] \<longleftrightarrow> 2 \<le> length (go_split c p)"
proof (induction p)
  case Nil
  show ?case by (simp add: go_contains_def)
next
  case (Cons x p)
  have len: "1 \<le> length (go_split c p)" by (cases "go_split c p") auto
  show ?case
  proof (cases "x = c")
    case True
    then show ?thesis using len by (simp add: go_contains_def go_has_prefix_def)
  next
    case False
    then have "go_contains (x # p) [c] \<longleftrightarrow> go_contains p [c]"
      by (simp add: go_contains_def go_has_prefix_def)
    with Cons False show ?thesis by (simp split: list.splits)
  qed
qed

lemma go_split_single: "\<not> go_contains p [c] \<Longrightarrow> go_split c p = [p]"
proof -
  assume "\<not> go_contains p [c]"
  then have "length (go_split c p) < 2" by (simp add: go_split_length)
  moreover have "go_split c p \<noteq> []" by simp
  ultimately obtain y where "go_split c p = [y]"
    by (cases "go_split c p"; cases "tl (go_split c p)") auto
  with go_join_split [of c p] show ?thesis by simp
qed

lemma WildcardMatch_glob: "WildcardMatch p s = glob p s"
proof (cases "go_contains p ''*''")
  case True
  then have "2 \<le> length (go_split (CHR ''*'') p)" by (simp add: go_split_length)
  from tiles_iff [OF this] True show ?thesis
    by (auto simp: WildcardMatch_def Let_def glob_tiles wildcard_loop_in_order)
next
  case False
  then show ?thesis by (simp add: WildcardMatch_def glob_tiles go_split_single)
qed

subsection \<open>The cache of compiled expressions\<close>

definition maxRegexCacheSize :: nat where
  "maxRegexCacheSize = 256"

text \<open>
  \<open>before\<close> is the map under the read lock, \<open>c\<close> the map once the write lock is held (another
  goroutine may have run in between), \<open>order\<close> the order in which \<^verbatim>\<open>range\<close> visits its keys.
\<close>

definition evict_half :: "string list \<Rightarrow> regex_cache \<Rightarrow> regex_cache" where
  "evict_half order c =
     (if length c \<ge> maxRegexCacheSize
      then filter (\<lambda>e. fst e \<notin> set (take (maxRegexCacheSize div 2) order)) c
      else c)"

definition GetCompiledRegex ::
    "regex_engine \<Rightarrow> regex_cache \<Rightarrow> string list \<Rightarrow> string \<Rightarrow> regex_cache
     \<Rightarrow> (string \<Rightarrow> bool) option \<times> regex_cache" where
  "GetCompiledRegex compile before order pattern c =
     (case map_of before pattern of
        Some entry \<Rightarrow> (entry, c)
      | None \<Rightarrow>
         (case map_of c pattern of
            Some entry \<Rightarrow> (entry, c)
          | None \<Rightarrow>
             let re = compile pattern
             in (re, mput pattern re (evict_half order c))))"

definition MatchCondition :: "regex_engine \<Rightarrow> regex_cache \<Rightarrow> string list \<Rightarrow> string \<Rightarrow> string \<Rightarrow> string
     \<Rightarrow> regex_cache \<Rightarrow> bool \<times> regex_cache" where
  "MatchCondition compile before order fieldValue operator pattern c =
     (if operator = ''exact'' then (fieldValue = pattern, c)
      else if operator = ''contains'' then (go_contains fieldValue pattern, c)
      else if operator = ''prefix'' then (go_has_prefix fieldValue pattern, c)
      else if operator = ''suffix'' then (go_has_suffix fieldValue pattern, c)
      else if operator = ''regex'' then
        (if length pattern > 256 then (False, c)
         else case GetCompiledRegex compile before order pattern c of
                (None, c') \<Rightarrow> (False, c')
              | (Some re, c') \<Rightarrow> (re fieldValue, c'))
      else if operator = ''exists'' then (fieldValue \<noteq> [], c)
      else if operator = ''not_exists'' then (fieldValue = [], c)
      else if operator = ''wildcard'' then (WildcardMatch pattern fieldValue, c)
      else (fieldValue = pattern, c))"

text \<open>The meaning of an operator, without the cache.\<close>

definition condition_holds :: "regex_engine \<Rightarrow> string \<Rightarrow> string \<Rightarrow> string \<Rightarrow> bool" where
  "condition_holds compile v operator p =
     (if operator = ''contains'' then \<exists>a b. v = a @ p @ b
      else if operator = ''prefix'' then \<exists>b. v = p @ b
      else if operator = ''suffix'' then \<exists>a. v = a @ p
      else if operator = ''regex'' then
        length p \<le> 256 \<and> (case compile p of None \<Rightarrow> False | Some re \<Rightarrow> re v)
      else if operator = ''exists'' then v \<noteq> []
      else if operator = ''not_exists'' then v = []
      else if operator = ''wildcard'' then glob p v
      else v = p)"

text \<open>The cache's invariant: one entry per pattern, each the compiler's verdict, within the bound.\<close>

definition cache_ok :: "regex_engine \<Rightarrow> regex_cache \<Rightarrow> bool" where
  "cache_ok compile c \<longleftrightarrow>
     wf_map c \<and> length c \<le> maxRegexCacheSize \<and> (\<forall>(k, e) \<in> set c. e = compile k)"

lemma cache_ok_lookup: "cache_ok compile c \<Longrightarrow> map_of c k = Some e \<Longrightarrow> e = compile k"
  by (auto simp: cache_ok_def dest: map_of_SomeD)

lemma length_mput: "k \<notin> fst ` set m \<Longrightarrow> length (mput k v m) = Suc (length m)"
  by (induction k v m rule: mput.induct) auto

lemma set_mput_new: "k \<notin> fst ` set m \<Longrightarrow> set (mput k v m) = insert (k, v) (set m)"
  by (induction k v m rule: mput.induct) auto

lemma evict_half_bound:
  assumes "cache_ok compile c" "set order = fst ` set c"
  shows "length (evict_half order c) < maxRegexCacheSize"
proof (cases "length c \<ge> maxRegexCacheSize")
  case True
  then have "order \<noteq> []" using assms by (auto simp: maxRegexCacheSize_def)
  then obtain k ks where "order = k # ks" by (cases order) auto
  then have k: "k \<in> set (take (maxRegexCacheSize div 2) order)" "k \<in> fst ` set c"
    using assms(2) by (auto simp: maxRegexCacheSize_def)
  then obtain e where "e \<in> set c" "fst e \<in> set (take (maxRegexCacheSize div 2) order)" by auto
  then have "length (evict_half order c) < length c"
    unfolding evict_half_def using True length_filter_less by fastforce
  with assms(1) show ?thesis by (simp add: cache_ok_def)
qed (simp add: evict_half_def)

lemma wf_map_filter: "wf_map m \<Longrightarrow> wf_map (filter P m)"
  by (simp add: wf_map_def distinct_map_filter)

lemma evict_half_ok: "cache_ok compile c \<Longrightarrow> cache_ok compile (evict_half order c)"
  by (auto simp: cache_ok_def evict_half_def wf_map_filter intro: order_trans [OF length_filter_le])

lemma GetCompiledRegex_correct:
  assumes "cache_ok compile before" "cache_ok compile c" "set order = fst ` set c"
  shows "fst (GetCompiledRegex compile before order p c) = compile p \<and>
         cache_ok compile (snd (GetCompiledRegex compile before order p c))"
proof (cases "map_of before p")
  case (Some e)
  with assms show ?thesis by (simp add: GetCompiledRegex_def cache_ok_lookup)
next
  case n: None
  show ?thesis
  proof (cases "map_of c p")
    case (Some e)
    with n assms show ?thesis by (simp add: GetCompiledRegex_def cache_ok_lookup)
  next
    case None
    then have "p \<notin> fst ` set c" by (simp add: map_of_eq_None_iff)
    then have f: "p \<notin> fst ` set (evict_half order c)" by (auto simp: evict_half_def split: if_splits)
    have ok: "cache_ok compile (evict_half order c)" using assms(2) by (rule evict_half_ok)
    have "cache_ok compile (mput p (compile p) (evict_half order c))"
      using ok evict_half_bound [OF assms(2,3)]
      by (auto simp: cache_ok_def length_mput [OF f] set_mput_new [OF f] wf_mput)
    with n None show ?thesis by (simp add: GetCompiledRegex_def Let_def)
  qed
qed

text \<open>The operators, one equation each.\<close>

definition known_operators :: "string set" where
  "known_operators = {''exact'', ''contains'', ''prefix'', ''suffix'', ''regex'', ''exists'',
     ''not_exists'', ''wildcard''}"

lemma MatchCondition_simps:
  "MatchCondition compile before order v ''exact'' p c = (v = p, c)"
  "MatchCondition compile before order v ''contains'' p c = (go_contains v p, c)"
  "MatchCondition compile before order v ''prefix'' p c = (go_has_prefix v p, c)"
  "MatchCondition compile before order v ''suffix'' p c = (go_has_suffix v p, c)"
  "MatchCondition compile before order v ''exists'' p c = (v \<noteq> [], c)"
  "MatchCondition compile before order v ''not_exists'' p c = (v = [], c)"
  "MatchCondition compile before order v ''wildcard'' p c = (WildcardMatch p v, c)"
  "MatchCondition compile before order v ''regex'' p c =
     (if length p > 256 then (False, c)
      else case GetCompiledRegex compile before order p c of
             (None, c') \<Rightarrow> (False, c')
           | (Some re, c') \<Rightarrow> (re v, c'))"
  "operator \<notin> known_operators \<Longrightarrow> MatchCondition compile before order v operator p c = (v = p, c)"
  by (simp_all add: MatchCondition_def known_operators_def)

lemma condition_holds_find:
  "condition_holds compile v ''contains'' p \<longleftrightarrow> go_contains v p"
  by (simp add: condition_holds_def go_contains_iff)

lemma condition_holds_prefix: "condition_holds compile v ''prefix'' p \<longleftrightarrow> go_has_prefix v p"
  by (simp add: condition_holds_def go_has_prefix_iff)

lemma condition_holds_suffix: "condition_holds compile v ''suffix'' p \<longleftrightarrow> go_has_suffix v p"
  by (simp add: condition_holds_def go_has_suffix_iff)

lemma condition_holds_exact: "condition_holds compile v ''exact'' p \<longleftrightarrow> v = p"
  by (simp add: condition_holds_def)

lemma condition_holds_exists: "condition_holds compile v ''exists'' p \<longleftrightarrow> v \<noteq> []"
  by (simp add: condition_holds_def)

lemma condition_holds_not_exists: "condition_holds compile v ''not_exists'' p \<longleftrightarrow> v = []"
  by (simp add: condition_holds_def)

lemma condition_holds_wildcard: "condition_holds compile v ''wildcard'' p \<longleftrightarrow> WildcardMatch p v"
  by (simp add: condition_holds_def WildcardMatch_glob)

lemma condition_holds_other:
  "operator \<notin> known_operators \<Longrightarrow> condition_holds compile v operator p \<longleftrightarrow> v = p"
  by (simp add: condition_holds_def known_operators_def)

lemma condition_holds_regex:
  "condition_holds compile v ''regex'' p \<longleftrightarrow>
     length p \<le> 256 \<and> (case compile p of None \<Rightarrow> False | Some re \<Rightarrow> re v)"
  by (simp add: condition_holds_def)

lemmas condition_holds_simps =
  condition_holds_find condition_holds_prefix condition_holds_suffix condition_holds_exact
  condition_holds_exists condition_holds_not_exists condition_holds_wildcard condition_holds_other

lemma known_operators_cases:
  "operator \<in> known_operators \<Longrightarrow>
     operator = ''exact'' \<or> operator = ''contains'' \<or> operator = ''prefix'' \<or>
     operator = ''suffix'' \<or> operator = ''regex'' \<or> operator = ''exists'' \<or>
     operator = ''not_exists'' \<or> operator = ''wildcard''"
  by (simp only: known_operators_def insert_iff empty_iff simp_thms)

lemma MatchCondition_holds:
  assumes "cache_ok compile before" "cache_ok compile c" "set order = fst ` set c"
  shows "fst (MatchCondition compile before order v operator p c) = condition_holds compile v operator p \<and>
         cache_ok compile (snd (MatchCondition compile before order v operator p c))"
proof -
  obtain r c' where g: "GetCompiledRegex compile before order p c = (r, c')" by force
  with GetCompiledRegex_correct [OF assms, of p] have r: "r = compile p" "cache_ok compile c'" by simp_all
  have regex: "fst (MatchCondition compile before order v ''regex'' p c)
        = condition_holds compile v ''regex'' p \<and>
      cache_ok compile (snd (MatchCondition compile before order v ''regex'' p c))"
    unfolding MatchCondition_simps condition_holds_regex g r(1)
    using r(2) assms(2) by (simp split: option.split)
  show ?thesis
  proof (cases "operator \<in> known_operators")
    case True
    from known_operators_cases [OF this] show ?thesis
      by (elim disjE) (simp_all only: regex MatchCondition_simps(1-7) condition_holds_simps
          fst_conv snd_conv assms(2) simp_thms)
  next
    case False
    then show ?thesis using assms(2) by (simp only: MatchCondition_simps condition_holds_simps
          fst_conv snd_conv simp_thms)
  qed
qed

text \<open>What callers see, whatever the cache holds: evaluation from a cold cache.\<close>

definition match_cold :: "regex_engine \<Rightarrow> string \<Rightarrow> string \<Rightarrow> string \<Rightarrow> bool" where
  "match_cold compile v operator p = fst (MatchCondition compile [] [] v operator p [])"

lemma match_cold_holds: "match_cold compile v operator p = condition_holds compile v operator p"
  unfolding match_cold_def
  by (rule MatchCondition_holds [THEN conjunct1])
    (simp_all add: cache_ok_def wf_map_def)

lemma match_cold_any_cache:
  assumes "cache_ok compile before" "cache_ok compile c" "set order = fst ` set c"
  shows "fst (MatchCondition compile before order v operator p c) = match_cold compile v operator p"
  using MatchCondition_holds [OF assms] match_cold_holds by simp

subsection \<open>Properties\<close>

text \<open>C38. The wildcard matcher, which searches the parts between stars from left to right, decides
  exactly whether the whole string is an instance of the pattern.\<close>

theorem wildcard_is_glob: "WildcardMatch pattern s \<longleftrightarrow> glob pattern s"
  by (rule WildcardMatch_glob)

text \<open>Whatever a concurrent goroutine put into the regular-expression cache between the two
  locks, and in whatever order the eviction visits it, \<^verbatim>\<open>MatchCondition\<close> answers what the operator
  means, and the cache keeps its bound and its entries stay the compiler's verdicts.\<close>

theorem match_condition_cache_transparent:
  assumes "cache_ok compile before" and "cache_ok compile c" and "set order = fst ` set c"
  shows "fst (MatchCondition compile before order v operator p c) = condition_holds compile v operator p \<and>
         cache_ok compile (snd (MatchCondition compile before order v operator p c)) \<and>
         length (snd (MatchCondition compile before order v operator p c)) \<le> maxRegexCacheSize"
  using MatchCondition_holds [OF assms] by (simp add: cache_ok_def)

theorem match_condition_cache_transparent_witness:
  "fst (MatchCondition (\<lambda>p. if p = ''['' then None else Some (go_contains p))
      [] [''db''] ''x'' ''regex'' ''['' [(''db'', Some (go_contains ''db''))]) = False"
proof -
  let ?re = "\<lambda>p. if p = ''['' then None else Some (go_contains p)"
  have "cache_ok ?re []" "cache_ok ?re [(''db'', Some (go_contains ''db''))]"
    by (simp_all add: cache_ok_def wf_map_def maxRegexCacheSize_def)
  moreover have "set [''db''] = fst ` set [(''db'', Some (go_contains ''db''))]" by simp
  ultimately have "fst (MatchCondition ?re [] [''db''] ''x'' ''regex'' ''[''
      [(''db'', Some (go_contains ''db''))]) = condition_holds ?re ''x'' ''regex'' ''[''"
    by (rule match_condition_cache_transparent [THEN conjunct1])
  then show ?thesis by (simp add: condition_holds_def)
qed

end
