(* ===== verification/Alert_Types.thy ===== *)
theory Alert_Types
  imports Prelude
begin

text \<open>
  The alert as it arrives (\<^verbatim>\<open>types/payload.go\<close>) and as it is handed to the correlator
  (\<^verbatim>\<open>rabbitmq/messages.go\<close>). A decoded JSON value of a \<^verbatim>\<open>map[string]any\<close> is a number (its
  decimal text) or something else.
\<close>

datatype json_value = JNumber string | JOther string

record alert =
  al_Status :: string
  al_Acknowledged :: bool
  al_Labels :: strmap
  al_Annotations :: strmap
  al_StartsAt :: string
  al_EndsAt :: string
  al_GeneratorURL :: string
  al_Fingerprint :: string
  al_SilenceURL :: string
  al_DashboardURL :: string
  al_PanelURL :: string
  al_Values :: "(string \<times> json_value) list"
  al_ValueString :: string

record correlated_alert =
  ca_Fingerprint :: string
  ca_AlertNumber :: int
  ca_Labels :: strmap
  ca_Annotations :: strmap
  ca_Status :: string
  ca_StartsAt :: string
  ca_Values :: "(string \<times> string) list"
  ca_GeneratorURL :: string

text \<open>Only the numbers among the values are correlated.\<close>

fun number_values :: "(string \<times> json_value) list \<Rightarrow> (string \<times> string) list" where
  "number_values [] = []"
| "number_values ((k, JNumber x) # vs) = (k, x) # number_values vs"
| "number_values ((k, JOther x) # vs) = number_values vs"

end
