(* ===== verification/Routing.thy ===== *)
theory Routing
  imports Matching Alert_Types
begin

text \<open>
  Package \<^verbatim>\<open>apps/backend/routing\<close> (\<^verbatim>\<open>engine.go\<close>): from the routing configuration to the
  destinations of an alert, with the configuration types of \<^verbatim>\<open>config/config.go\<close>.

  The engine keeps, beside each rule, a copy of its conditions normalised once
  (\<^verbatim>\<open>normalizedRules\<close>); \<^verbatim>\<open>match\<close> uses that copy when its index agrees. The main lemma
  \<open>match_rule_holds\<close> says that on an engine built by \<^verbatim>\<open>NewEngine\<close> this computes the meaning of
  the configured rule, so that \<^verbatim>\<open>Route\<close> refines the specification \<open>route_spec\<close>.
\<close>

subsection \<open>Data\<close>

record route_target =
  rt_Provider :: string
  rt_Channel :: string

record route_condition =
  rc_Source :: string
  rc_Field :: string
  rc_Operator :: string
  rc_Value :: string

record route_config =
  cf_MatchMode :: string
  cf_Conditions :: "route_condition list"
  cf_Targets :: "route_target list"
  cf_Silenced :: bool

record destination =
  d_Provider :: string
  d_Channel :: string
  d_IsSilenced :: bool

record route_result =
  rr_Silenced :: bool
  rr_Destinations :: "destination list"

record rule =
  ru_MatchMode :: string
  ru_Conditions :: "route_condition list"
  ru_Silenced :: bool
  ru_Destinations :: "destination list"

record normalized_rule =
  nr_conditions :: "route_condition list"
  nr_index :: nat

record engine =
  en_rules :: "rule list"
  en_normalizedRules :: "normalized_rule list"
  en_DefaultDestinations :: "destination list"

subsection \<open>Construction\<close>

definition normalizeProvider :: "string \<Rightarrow> string" where
  "normalizeProvider provider = (if provider = ''slack'' then ''slack'' else ''mattermost'')"

fun clean_targets :: "route_target list \<Rightarrow> destination list" where
  "clean_targets [] = []"
| "clean_targets (t # ts) =
     (let ch = go_trim_space (rt_Channel t)
      in if ch = [] then clean_targets ts
         else \<lparr>d_Provider = normalizeProvider (rt_Provider t), d_Channel = ch,
               d_IsSilenced = False\<rparr> # clean_targets ts)"

definition normalize_condition :: "route_condition \<Rightarrow> route_condition" where
  "normalize_condition c =
     \<lparr>rc_Source = go_to_lower (go_trim_space (rc_Source c)),
      rc_Field = go_trim_space (rc_Field c),
      rc_Operator = go_to_lower (go_trim_space (rc_Operator c)),
      rc_Value = rc_Value c\<rparr>"

definition new_rule :: "route_config \<Rightarrow> rule" where
  "new_rule rc =
     \<lparr>ru_MatchMode = go_to_lower (go_trim_space (cf_MatchMode rc)),
      ru_Conditions = cf_Conditions rc,
      ru_Silenced = cf_Silenced rc,
      ru_Destinations = clean_targets (cf_Targets rc)\<rparr>"

definition new_normalized :: "nat \<Rightarrow> route_config \<Rightarrow> normalized_rule" where
  "new_normalized i rc =
     \<lparr>nr_conditions = map normalize_condition (cf_Conditions rc), nr_index = i\<rparr>"

definition NewEngine :: "route_config list \<Rightarrow> engine" where
  "NewEngine cfg =
     \<lparr>en_rules = map new_rule cfg,
      en_normalizedRules = map (\<lambda>(i, rc). new_normalized i rc) (zip [0..<length cfg] cfg),
      en_DefaultDestinations = []\<rparr>"

fun clean_defaults :: "destination list \<Rightarrow> destination list" where
  "clean_defaults [] = []"
| "clean_defaults (d # ds) =
     (let ch = go_trim_space (d_Channel d)
      in if ch = [] then clean_defaults ds
         else \<lparr>d_Provider = normalizeProvider (d_Provider d), d_Channel = ch,
               d_IsSilenced = False\<rparr> # clean_defaults ds)"

definition SetDefaults :: "destination list \<Rightarrow> engine \<Rightarrow> engine" where
  "SetDefaults defaults e = e\<lparr>en_DefaultDestinations := clean_defaults defaults\<rparr>"

subsection \<open>Matching a rule\<close>

text \<open>The value and the presence flag; \<^verbatim>\<open>readConditionField\<close> normalises the source itself.\<close>

definition map_lookup :: "strmap \<Rightarrow> string \<Rightarrow> string \<times> bool" where
  "map_lookup m k = (mget m k, map_of m k \<noteq> None)"

definition readConditionField :: "string \<Rightarrow> string \<Rightarrow> alert \<Rightarrow> string \<times> bool" where
  "readConditionField source field a =
     (let src = go_to_lower (go_trim_space source)
      in if src = ''annotations'' then map_lookup (al_Annotations a) field
         else if src = ''alert'' then
           (if field = ''status'' then (al_Status a, True)
            else if field = ''fingerprint'' then (al_Fingerprint a, True)
            else if field = ''generator_url'' then (al_GeneratorURL a, True)
            else if field = ''silence_url'' then (al_SilenceURL a, True)
            else if field = ''dashboard_url'' then (al_DashboardURL a, True)
            else if field = ''panel_url'' then (al_PanelURL a, True)
            else if field = ''alertname'' then (mget (al_Labels a) ''alertname'', True)
            else ([], False))
         else map_lookup (al_Labels a) field)"

text \<open>The condition loop with its early returns and its count of matches.\<close>

fun match_loop :: "bool \<Rightarrow> bool list \<Rightarrow> nat \<Rightarrow> bool" where
  "match_loop matchAny [] matchedCount = (if matchAny then matchedCount > 0 else True)"
| "match_loop matchAny (matched # rest) matchedCount =
     (if matchAny \<and> matched then True
      else if \<not> matchAny \<and> \<not> matched then False
      else match_loop matchAny rest (if matched then Suc matchedCount else matchedCount))"

definition match_rule :: "regex_engine \<Rightarrow> engine \<Rightarrow> nat \<Rightarrow> rule \<Rightarrow> alert \<Rightarrow> bool" where
  "match_rule compile e ruleIdx r a =
     (if ru_Conditions r = [] then False
      else
        let nrs = en_normalizedRules e;
            normConds = (if ruleIdx < length nrs \<and> nr_index (nrs ! ruleIdx) = ruleIdx
                         then nr_conditions (nrs ! ruleIdx) else []);
            matchAny = (ru_MatchMode r = ''any'');
            conds = ru_Conditions r
        in if normConds \<noteq> [] then
             match_loop matchAny
               (map (\<lambda>(condition, norm).
                  match_cold compile (fst (readConditionField (rc_Source norm) (rc_Field norm) a))
                    (rc_Operator norm) (rc_Value condition)) (zip conds normConds)) 0
           else
             match_loop matchAny
               (map (\<lambda>condition.
                  match_cold compile
                    (fst (readConditionField (rc_Source condition) (rc_Field condition) a))
                    (go_to_lower (go_trim_space (rc_Operator condition))) (rc_Value condition))
                conds) 0)"

definition deduplicateDestinations :: "destination list \<Rightarrow> destination list" where
  "deduplicateDestinations dests = dedup_by (\<lambda>d. d_Provider d @ '':'' @ d_Channel d) [] dests"

fun route_loop :: "regex_engine \<Rightarrow> engine \<Rightarrow> alert \<Rightarrow> nat \<Rightarrow> rule list \<Rightarrow> route_result" where
  "route_loop compile e a i [] =
     \<lparr>rr_Silenced = False, rr_Destinations = en_DefaultDestinations e\<rparr>"
| "route_loop compile e a i (r # rs) =
     (if \<not> match_rule compile e i r a then route_loop compile e a (Suc i) rs
      else if ru_Silenced r then \<lparr>rr_Silenced = True, rr_Destinations = []\<rparr>
      else if ru_Destinations r \<noteq> [] then
        \<lparr>rr_Silenced = False,
         rr_Destinations = deduplicateDestinations (en_DefaultDestinations e @ ru_Destinations r)\<rparr>
      else route_loop compile e a (Suc i) rs)"

definition Route :: "regex_engine \<Rightarrow> engine \<Rightarrow> alert \<Rightarrow> route_result" where
  "Route compile e a = route_loop compile e a 0 (en_rules e)"

subsection \<open>The specification\<close>

definition condition_meaning :: "regex_engine \<Rightarrow> alert \<Rightarrow> route_condition \<Rightarrow> bool" where
  "condition_meaning compile a c =
     condition_holds compile
       (fst (readConditionField (rc_Source c) (go_trim_space (rc_Field c)) a))
       (go_to_lower (go_trim_space (rc_Operator c))) (rc_Value c)"

definition rule_holds :: "regex_engine \<Rightarrow> alert \<Rightarrow> route_config \<Rightarrow> bool" where
  "rule_holds compile a rc =
     (cf_Conditions rc \<noteq> [] \<and>
      (if go_to_lower (go_trim_space (cf_MatchMode rc)) = ''any''
       then \<exists>c \<in> set (cf_Conditions rc). condition_meaning compile a c
       else \<forall>c \<in> set (cf_Conditions rc). condition_meaning compile a c))"

definition route_spec :: "regex_engine \<Rightarrow> destination list \<Rightarrow> route_config list \<Rightarrow> alert \<Rightarrow> route_result" where
  "route_spec compile defaults cfg a =
     (case List.find (\<lambda>rc. rule_holds compile a rc \<and>
             (cf_Silenced rc \<or> clean_targets (cf_Targets rc) \<noteq> [])) cfg of
        None \<Rightarrow> \<lparr>rr_Silenced = False, rr_Destinations = clean_defaults defaults\<rparr>
      | Some rc \<Rightarrow>
          if cf_Silenced rc then \<lparr>rr_Silenced = True, rr_Destinations = []\<rparr>
          else \<lparr>rr_Silenced = False,
                rr_Destinations = deduplicateDestinations
                  (clean_defaults defaults @ clean_targets (cf_Targets rc))\<rparr>)"

lemma match_loop_holds:
  "match_loop matchAny bs n =
     (if matchAny then n > 0 \<or> (\<exists>b \<in> set bs. b) else \<forall>b \<in> set bs. b)"
  by (induction bs arbitrary: n) auto

lemma readConditionField_norm [simp]:
  "readConditionField (go_to_lower (go_trim_space s)) f a = readConditionField s f a"
  by (simp add: readConditionField_def go_trim_to_lower)

lemma norm_condition_meaning:
  "match_cold compile
     (fst (readConditionField (rc_Source (normalize_condition c)) (rc_Field (normalize_condition c)) a))
     (rc_Operator (normalize_condition c)) (rc_Value c) = condition_meaning compile a c"
  by (simp add: match_cold_holds condition_meaning_def normalize_condition_def)

lemma zip_map_self: "zip xs (map f xs) = map (\<lambda>x. (x, f x)) xs"
  by (induction xs) auto

lemma new_engine_index:
  "i < length cfg \<Longrightarrow>
     en_normalizedRules (NewEngine cfg) ! i = new_normalized i (cfg ! i)"
  by (simp add: NewEngine_def)

lemma match_rule_holds:
  assumes "i < length cfg"
    and "en_normalizedRules e = en_normalizedRules (NewEngine cfg)"
  shows "match_rule compile e i (new_rule (cfg ! i)) a = rule_holds compile a (cfg ! i)"
proof -
  have nr: "en_normalizedRules e ! i = new_normalized i (cfg ! i)" "i < length (en_normalizedRules e)"
    using assms new_engine_index by (simp_all add: NewEngine_def)
  show ?thesis
    unfolding match_rule_def Let_def nr(1) new_normalized_def new_rule_def rule_holds_def
    using nr(2) by (simp add: zip_map_self o_def norm_condition_meaning match_loop_holds)
qed

lemma new_rule_fields [simp]:
  "ru_Conditions (new_rule rc) = cf_Conditions rc"
  "ru_Silenced (new_rule rc) = cf_Silenced rc"
  "ru_Destinations (new_rule rc) = clean_targets (cf_Targets rc)"
  by (simp_all add: new_rule_def)

lemma route_loop_spec:
  assumes "en_normalizedRules e = en_normalizedRules (NewEngine (pre @ cfg))"
    and "en_DefaultDestinations e = clean_defaults defaults"
  shows "route_loop compile e a (length pre) (map new_rule cfg) = route_spec compile defaults cfg a"
  using assms
proof (induction cfg arbitrary: pre)
  case Nil
  then show ?case by (simp add: route_spec_def)
next
  case (Cons rc cfg)
  have m: "match_rule compile e (length pre) (new_rule rc) a = rule_holds compile a rc"
    using match_rule_holds [of "length pre" "pre @ rc # cfg" e compile a] Cons.prems(1) by simp
  have "route_loop compile e a (length (pre @ [rc])) (map new_rule cfg)
      = route_spec compile defaults cfg a"
    using Cons.IH [of "pre @ [rc]"] Cons.prems by simp
  then show ?case
    using m Cons.prems(2) by (simp add: route_spec_def)
qed

lemma Route_refines:
  "Route compile (SetDefaults defaults (NewEngine cfg)) a = route_spec compile defaults cfg a"
  unfolding Route_def
  using route_loop_spec [of "SetDefaults defaults (NewEngine cfg)" "[]" cfg defaults compile a]
  by (simp add: SetDefaults_def NewEngine_def)

text \<open>Destinations the engine handles are clean; on those the string key is injective.\<close>

definition clean_dest :: "destination \<Rightarrow> bool" where
  "clean_dest d \<longleftrightarrow> d_Provider d \<in> {''slack'', ''mattermost''} \<and> d_Channel d \<noteq> [] \<and>
     go_trim_space (d_Channel d) = d_Channel d \<and> \<not> d_IsSilenced d"

lemma clean_targets_clean: "d \<in> set (clean_targets ts) \<Longrightarrow> clean_dest d"
  by (induction ts) (auto simp: Let_def clean_dest_def normalizeProvider_def split: if_splits)

lemma clean_defaults_clean: "d \<in> set (clean_defaults ds) \<Longrightarrow> clean_dest d"
  by (induction ds) (auto simp: Let_def clean_dest_def normalizeProvider_def split: if_splits)

lemma clean_key_inj:
  "clean_dest d \<Longrightarrow> clean_dest d' \<Longrightarrow>
     d_Provider d @ '':'' @ d_Channel d = d_Provider d' @ '':'' @ d_Channel d' \<Longrightarrow> d = d'"
  by (cases d; cases d') (auto simp: clean_dest_def)

lemma dedup_clean:
  assumes "\<forall>d \<in> set ds. clean_dest d"
  shows "distinct (deduplicateDestinations ds) \<and> set (deduplicateDestinations ds) = set ds"
proof
  show "distinct (deduplicateDestinations ds)"
    unfolding deduplicateDestinations_def using dedup_by_distinct by (metis distinct_map)
  let ?key = "\<lambda>d. d_Provider d @ '':'' @ d_Channel d"
  have keys: "?key ` set (dedup_by ?key [] ds) = ?key ` set ds" by (simp add: dedup_by_keys)
  have sub: "set (dedup_by ?key [] ds) \<subseteq> set ds" by (rule dedup_by_subset)
  have "d \<in> set (dedup_by ?key [] ds)" if "d \<in> set ds" for d
  proof -
    from that keys obtain d' where "d' \<in> set (dedup_by ?key [] ds)" "?key d' = ?key d"
      by (metis (no_types, lifting) imageE imageI)
    moreover from this sub assms that have "d' = d" using clean_key_inj by blast
    ultimately show ?thesis by simp
  qed
  with sub show "set (deduplicateDestinations ds) = set ds"
    unfolding deduplicateDestinations_def by blast
qed

subsection \<open>Common labels\<close>

definition FindCommonKeyValues :: "strmap list \<Rightarrow> strmap" where
  "FindCommonKeyValues maps =
     (case maps of
        [] \<Rightarrow> []
      | m # ms \<Rightarrow> foldl (\<lambda>result mi. filter (\<lambda>(k, v). mget mi k = v) result) m ms)"

lemma common_fold:
  "set (foldl (\<lambda>result mi. filter (\<lambda>(k, v). mget mi k = v) result) m ms)
     = {(k, v) \<in> set m. \<forall>mi \<in> set ms. mget mi k = v}"
  by (induction ms arbitrary: m) auto

lemma common_fold_wf:
  "wf_map m \<Longrightarrow> wf_map (foldl (\<lambda>result mi. filter (\<lambda>(k, v). mget mi k = v) result) m ms)"
  by (induction ms arbitrary: m) (auto simp: wf_map_filter)

subsection \<open>Properties\<close>

text \<open>C37. Routing an alert through an engine built from a configuration, with its pre-normalised
  conditions, takes the first configured rule whose conditions hold and that silences or has a
  non-blank target: it silences, or adds its targets to the defaults without duplicates; with no
  such rule the defaults are used.\<close>

theorem route_first_match:
  "Route compile (SetDefaults defaults (NewEngine cfg)) a = route_spec compile defaults cfg a"
  by (rule Route_refines)

text \<open>The destinations of an alert are clean (known provider, trimmed non-blank channel, never
  flagged silenced); a silenced alert has none; and when a rule matched they are exactly the
  defaults and the rule's targets, each once.\<close>

theorem route_destinations_clean:
  assumes "r = Route compile (SetDefaults defaults (NewEngine cfg)) a"
  shows "(\<forall>d \<in> set (rr_Destinations r). clean_dest d) \<and>
         (rr_Silenced r \<longrightarrow> rr_Destinations r = []) \<and>
         (\<forall>rc. List.find (\<lambda>rc. rule_holds compile a rc \<and>
               (cf_Silenced rc \<or> clean_targets (cf_Targets rc) \<noteq> [])) cfg = Some rc \<and> \<not> cf_Silenced rc
           \<longrightarrow> distinct (rr_Destinations r) \<and>
               set (rr_Destinations r) = set (clean_defaults defaults) \<union> set (clean_targets (cf_Targets rc)))"
proof -
  have cl: "\<forall>d \<in> set (clean_defaults defaults @ clean_targets ts). clean_dest d" for ts
    using clean_targets_clean clean_defaults_clean by auto
  let ?P = "\<lambda>rc. rule_holds compile a rc \<and> (cf_Silenced rc \<or> clean_targets (cf_Targets rc) \<noteq> [])"
  show ?thesis
  proof (cases "List.find ?P cfg")
    case None
    then show ?thesis
      using clean_defaults_clean unfolding assms Route_refines route_spec_def by simp
  next
    case (Some rc)
    show ?thesis
    proof (cases "cf_Silenced rc")
      case True
      with Some show ?thesis unfolding assms Route_refines route_spec_def by simp
    next
      case False
      have r: "r = \<lparr>rr_Silenced = False, rr_Destinations = deduplicateDestinations
          (clean_defaults defaults @ clean_targets (cf_Targets rc))\<rparr>"
        unfolding assms Route_refines route_spec_def using Some False by simp
      show ?thesis
        using Some False dedup_clean [OF cl [of "cf_Targets rc"]] cl [of "cf_Targets rc"]
        unfolding r by simp
    qed
  qed
qed

definition example_alert :: alert where
  "example_alert =
     \<lparr>al_Status = ''firing'', al_Acknowledged = False,
      al_Labels = [(''alertname'', ''HighLatency''), (''severity'', ''critical'')],
      al_Annotations = [], al_StartsAt = [], al_EndsAt = [], al_GeneratorURL = [],
      al_Fingerprint = ''f1'', al_SilenceURL = [], al_DashboardURL = [], al_PanelURL = [],
      al_Values = [], al_ValueString = []\<rparr>"

theorem route_destinations_clean_witness:
  "list_all clean_dest (rr_Destinations (Route (\<lambda>_. None)
      (SetDefaults [\<lparr>d_Provider = ''x'', d_Channel = '' ops '', d_IsSilenced = True\<rparr>] (NewEngine []))
      example_alert))"
  unfolding list_all_iff by (rule route_destinations_clean [OF refl, THEN conjunct1])

text \<open>The common labels of a list of label maps: a pair is kept exactly when it is in the first
  map and every other map reads that value under the key (a missing key reads as the empty
  string); the result is again a map.\<close>

theorem common_key_values:
  assumes "wf_map m"
  shows "wf_map (FindCommonKeyValues (m # ms)) \<and>
         (\<forall>k v. map_of (FindCommonKeyValues (m # ms)) k = Some v \<longleftrightarrow>
            map_of m k = Some v \<and> (\<forall>mi \<in> set ms. mget mi k = v))"
proof -
  have wf: "wf_map (FindCommonKeyValues (m # ms))"
    using common_fold_wf [OF assms] by (simp add: FindCommonKeyValues_def)
  have "map_of (FindCommonKeyValues (m # ms)) k = Some v \<longleftrightarrow>
      (k, v) \<in> set (FindCommonKeyValues (m # ms))" for k v
    using wf by (simp add: wf_map_def)
  moreover have "map_of m k = Some v \<longleftrightarrow> (k, v) \<in> set m" for k v
    using assms by (simp add: wf_map_def)
  ultimately show ?thesis
    using wf by (simp add: FindCommonKeyValues_def common_fold)
qed

theorem common_key_values_witness:
  "map_of (FindCommonKeyValues [[(''job'', ''api''), (''env'', ''prod'')], [(''env'', ''prod'')]]) ''job'' \<noteq> Some ''api''"
  using common_key_values [of "[(''job'', ''api''), (''env'', ''prod'')]" "[[(''env'', ''prod'')]]"]
  by (simp add: wf_map_def mget_def)

end
