(* ===== verification/Alert_Store.thy ===== *)
theory Alert_Store
  imports Incident_Store Alert_Types
begin

text \<open>
  The alert tables (\<^verbatim>\<open>apps/backend/store/alert.go\<close>, \<^verbatim>\<open>store/alert_store.go\<close>, schema in
  \<^verbatim>\<open>db/migrations/00005_alerts.sql\<close>): alerts, their events, their delivery targets and their
  links to incidents, with the operations of \<^verbatim>\<open>store.Store\<close> translated statement by statement.

  Most operations are a SELECT followed by an UPDATE outside a transaction. The argument
  \<open>env\<close> is what the rest of the system does to the database in between; the UPDATE itself is one
  atomic definition (\<open>ack_update\<close>, \<open>resolve_update\<close>, \<dots>). \<open>fails i\<close> says that the operation's
  \<open>i\<close>-th statement fails (driver error, time-out). An UPDATE that would break a constraint of
  the schema fails and changes nothing. Bun adds ``deleted_at IS NULL'' to the SELECT and UPDATE
  statements on this model unless told otherwise.
\<close>

subsection \<open>Tables\<close>

record alert_row =
  ar_id :: uuid
  ar_number :: int
  ar_fingerprint :: string
  ar_status :: string
  ar_acknowledged :: bool
  ar_silenced :: bool
  ar_labels :: strmap
  ar_annotations :: strmap
  ar_values :: "(string \<times> json_value) list"
  ar_starts :: instant
  ar_ends :: "instant option"
  ar_generator :: string
  ar_created :: instant
  ar_updated :: instant
  ar_deleted :: "instant option"

record alert_event =
  ev_type :: string
  ev_time :: instant
  ev_username :: string
  ev_display :: string
  ev_userid :: string
  ev_source :: string

record event_actor =
  ac_userid :: string
  ac_username :: string
  ac_display :: string
  ac_source :: string

record delivery_target =
  dt_provider :: string
  dt_channel :: string
  dt_channelname :: string
  dt_postid :: string

text \<open>An \<^verbatim>\<open>AlertRecord\<close>: the columns, with what is loaded or supplied beside them.\<close>

record alert_record =
  re_alert :: alert_row
  re_events :: "alert_event list"
  re_targets :: "delivery_target list"
  re_initial :: "alert_event option"

record alert_db =
  db_alerts :: "alert_row list"
  db_events :: "(uuid \<times> alert_event) list"
  db_targets :: "(uuid \<times> delivery_target) list"
  db_links :: "(uuid \<times> uuid) list" \<comment> \<open>incident id, alert id\<close>

datatype alert_error =
  AlertDbError | ErrAlertNotFound | ErrAlertNotFiring | ErrAlertNotResolved | ErrNoIncident

text \<open>The constraints of the schema: keys, the status check, one open alert per fingerprint.\<close>

definition is_open :: "alert_row \<Rightarrow> bool" where
  "is_open r \<longleftrightarrow> ar_status r \<noteq> ''resolved'' \<and> ar_deleted r = None"

definition alert_constraints :: "alert_row list \<Rightarrow> bool" where
  "alert_constraints tab \<longleftrightarrow>
     distinct (map ar_id tab) \<and> distinct (map ar_number tab) \<and>
     list_all (\<lambda>r. ar_status r = ''firing'' \<or> ar_status r = ''resolved'') tab \<and>
     distinct (map ar_fingerprint (filter is_open tab))"

text \<open>One UPDATE: the number of rows it touched and the new table.\<close>

definition sql_update ::
    "(alert_row \<Rightarrow> bool) \<Rightarrow> (alert_row \<Rightarrow> alert_row) \<Rightarrow> alert_row list
     \<Rightarrow> (nat \<times> alert_row list) option" where
  "sql_update P f tab =
     (let tab' = map (\<lambda>r. if P r then f r else r) tab
      in if alert_constraints tab' then Some (length (filter P tab), tab') else None)"

text \<open>\<^verbatim>\<open>ORDER BY updated_at DESC LIMIT 1\<close>.\<close>

fun latest :: "(alert_row \<Rightarrow> int) \<Rightarrow> alert_row list \<Rightarrow> alert_row option" where
  "latest key [] = None"
| "latest key (r # rs) =
     (case latest key rs of
        None \<Rightarrow> Some r
      | Some s \<Rightarrow> if key s > key r then Some s else Some r)"

subsection \<open>Events\<close>

definition AlertEventWithActor :: "string \<Rightarrow> instant \<Rightarrow> event_actor option \<Rightarrow> alert_event" where
  "AlertEventWithActor evType now actor =
     (let src = (case actor of
                   None \<Rightarrow> ''user''
                 | Some a \<Rightarrow> if ac_source a \<noteq> [] then ac_source a else ''user'');
          ev = \<lparr>ev_type = evType, ev_time = now, ev_username = [], ev_display = [],
                ev_userid = [], ev_source = src\<rparr>
      in case actor of
           None \<Rightarrow> ev
         | Some a \<Rightarrow>
             ev\<lparr>ev_userid := ac_userid a, ev_username := ac_username a,
                ev_display := (if ac_display a \<noteq> [] then ac_display a else [])\<rparr>)"

text \<open>\<^verbatim>\<open>insertAlertEvent\<close>; its callers log an error and go on. The foreign key needs the alert.\<close>

definition insertAlertEvent :: "bool \<Rightarrow> uuid \<Rightarrow> alert_event \<Rightarrow> alert_db \<Rightarrow> alert_db" where
  "insertAlertEvent failed ident ev db =
     (if failed \<or> ident \<notin> ar_id ` set (db_alerts db) then db
      else db\<lparr>db_events := db_events db @ [(ident, ev)]\<rparr>)"

subsection \<open>Creation and lookup\<close>

definition created_event :: "alert_record \<Rightarrow> instant \<Rightarrow> alert_event" where
  "created_event record starts =
     (case re_initial record of
        None \<Rightarrow> \<lparr>ev_type = ''fired'', ev_time = starts, ev_username = [], ev_display = [],
                 ev_userid = [], ev_source = ''grafana''\<rparr>
      | Some ev \<Rightarrow>
          ev\<lparr>ev_time := (if ev_time ev = zero_time then starts else ev_time ev),
             ev_type := (if ev_type ev = [] then ''fired'' else ev_type ev),
             ev_source := (if ev_source ev = [] then ''grafana'' else ev_source ev)\<rparr>)"

definition created_alert :: "instant \<Rightarrow> uuid \<Rightarrow> int \<Rightarrow> alert_record \<Rightarrow> alert_row" where
  "created_alert now newid nextnum record =
     (let r = re_alert record
      in r\<lparr>ar_id := newid, ar_number := nextnum, ar_created := now, ar_updated := now,
           ar_starts := (if ar_starts r = zero_time then now else ar_starts r),
           ar_deleted := None\<rparr>)"

text \<open>\<^verbatim>\<open>Create\<close>: alert and first event in one transaction; \<open>newid\<close> and \<open>nextnum\<close> come from the
  UUID generator and the database sequence.\<close>

definition Create ::
    "(nat \<Rightarrow> bool) \<Rightarrow> instant \<Rightarrow> uuid \<Rightarrow> int \<Rightarrow> alert_record \<Rightarrow> alert_db
     \<Rightarrow> (alert_error + int) \<times> alert_db" where
  "Create fails now newid nextnum record db =
     (let row = created_alert now newid nextnum record;
          tab' = db_alerts db @ [row]
      in if fails 0 \<or> fails 1 \<or> \<not> alert_constraints tab' then (Inl AlertDbError, db)
         else (Inr nextnum,
               db\<lparr>db_alerts := tab',
                  db_events := db_events db @ [(newid, created_event record (ar_starts row))]\<rparr>))"

text \<open>\<^verbatim>\<open>buildAlertRecord\<close> does not copy the row's UUID (here 0); events come in time order.\<close>

definition buildAlertRecord :: "alert_row \<Rightarrow> alert_event list \<Rightarrow> delivery_target list \<Rightarrow> alert_record" where
  "buildAlertRecord a events targets =
     \<lparr>re_alert = a\<lparr>ar_id := 0\<rparr>, re_events = events, re_targets = targets, re_initial = None\<rparr>"

definition toAlertRecord :: "alert_db \<Rightarrow> alert_row \<Rightarrow> alert_record" where
  "toAlertRecord db a =
     buildAlertRecord a
       (sort_key ev_time (map snd (filter (\<lambda>e. fst e = ar_id a) (db_events db))))
       (map snd (filter (\<lambda>t. fst t = ar_id a) (db_targets db)))"

definition lookup_result :: "(nat \<Rightarrow> bool) \<Rightarrow> alert_db \<Rightarrow> alert_row option \<Rightarrow> alert_error + alert_record option" where
  "lookup_result fails db found =
     (if fails 0 then Inl AlertDbError
      else case found of
             None \<Rightarrow> Inr None
           | Some a \<Rightarrow> if fails 1 \<or> fails 2 then Inl AlertDbError
                       else Inr (Some (toAlertRecord db a)))"

definition GetByFingerprint :: "(nat \<Rightarrow> bool) \<Rightarrow> string \<Rightarrow> alert_db \<Rightarrow> alert_error + alert_record option" where
  "GetByFingerprint fails fp db =
     lookup_result fails db
       (latest ar_updated (filter (\<lambda>r. ar_fingerprint r = fp) (db_alerts db)))"

definition GetOpenByFingerprint :: "(nat \<Rightarrow> bool) \<Rightarrow> string \<Rightarrow> alert_db \<Rightarrow> alert_error + alert_record option" where
  "GetOpenByFingerprint fails fp db =
     lookup_result fails db
       (latest ar_updated (filter (\<lambda>r. ar_fingerprint r = fp \<and> is_open r) (db_alerts db)))"

definition GetByAlertNumber :: "(nat \<Rightarrow> bool) \<Rightarrow> int \<Rightarrow> alert_db \<Rightarrow> alert_error + alert_record option" where
  "GetByAlertNumber fails n db =
     lookup_result fails db
       (List.find (\<lambda>r. ar_number r = n \<and> ar_deleted r = None) (db_alerts db))"

subsection \<open>Acknowledge, resolve, reopen\<close>

definition ack_update ::
    "(nat \<Rightarrow> bool) \<Rightarrow> instant \<Rightarrow> event_actor option \<Rightarrow> uuid \<Rightarrow> alert_db \<Rightarrow> (alert_error + unit) \<times> alert_db" where
  "ack_update fails now actor ident db =
     (if fails 1 then (Inl AlertDbError, db)
      else case sql_update (\<lambda>r. ar_id r = ident \<and> \<not> ar_acknowledged r \<and> ar_deleted r = None)
                  (\<lambda>r. r\<lparr>ar_acknowledged := True, ar_updated := now\<rparr>) (db_alerts db) of
             None \<Rightarrow> (Inl AlertDbError, db)
           | Some (rows, tab) \<Rightarrow>
               if rows = 0 then (Inr (), db)
               else (Inr (), insertAlertEvent (fails 2) ident (AlertEventWithActor ''acked'' now actor)
                               (db\<lparr>db_alerts := tab\<rparr>)))"

definition AcknowledgeAlertByNumber where
  "AcknowledgeAlertByNumber fails env now n actor db =
     (if fails 0 then (Inl AlertDbError, db)
      else case List.find (\<lambda>r. ar_number r = n \<and> is_open r) (db_alerts db) of
             None \<Rightarrow> (Inl ErrAlertNotFound, db)
           | Some a \<Rightarrow> ack_update fails now actor (ar_id a) (env db))"

definition AcknowledgeAlert where
  "AcknowledgeAlert fails env now fp actor db =
     (if fails 0 then (Inl AlertDbError, db)
      else case List.find (\<lambda>r. ar_fingerprint r = fp \<and> is_open r) (db_alerts db) of
             None \<Rightarrow> (Inl ErrAlertNotFound, db)
           | Some a \<Rightarrow>
               if ar_acknowledged a then (Inr (), db)
               else ack_update fails now actor (ar_id a) (env db))"

text \<open>\<^verbatim>\<open>COALESCE(ends_at, now)\<close>, and the UPDATE every resolve path issues.\<close>

definition resolve_row :: "bool \<Rightarrow> instant \<Rightarrow> alert_row \<Rightarrow> alert_row" where
  "resolve_row silence now r =
     r\<lparr>ar_status := ''resolved'', ar_silenced := (silence \<or> ar_silenced r), ar_updated := now,
       ar_ends := (case ar_ends r of None \<Rightarrow> Some now | Some t \<Rightarrow> Some t)\<rparr>"

text \<open>The statement and its event; the number of rows tells whether this call resolved it.\<close>

definition resolve_stmt ::
    "(nat \<Rightarrow> bool) \<Rightarrow> bool \<Rightarrow> instant \<Rightarrow> alert_event \<Rightarrow> uuid \<Rightarrow> alert_db
     \<Rightarrow> (alert_error + nat) \<times> alert_db" where
  "resolve_stmt fails silence now ev ident db =
     (if fails 1 then (Inl AlertDbError, db)
      else case sql_update (\<lambda>r. ar_id r = ident \<and> is_open r) (resolve_row silence now) (db_alerts db) of
             None \<Rightarrow> (Inl AlertDbError, db)
           | Some (rows, tab) \<Rightarrow>
               if rows = 0 then (Inr 0, db)
               else (Inr rows, insertAlertEvent (fails 2) ident ev (db\<lparr>db_alerts := tab\<rparr>)))"

definition resolve_update ::
    "(nat \<Rightarrow> bool) \<Rightarrow> bool \<Rightarrow> instant \<Rightarrow> alert_event \<Rightarrow> uuid \<Rightarrow> alert_db
     \<Rightarrow> (alert_error + unit) \<times> alert_db" where
  "resolve_update fails silence now ev ident db =
     (case resolve_stmt fails silence now ev ident db of
        (Inl e, db') \<Rightarrow> (Inl e, db')
      | (Inr _, db') \<Rightarrow> (Inr (), db'))"

definition ResolveAlertByNumber where
  "ResolveAlertByNumber fails env now n actor db =
     (if fails 0 then (Inl AlertDbError, db)
      else case List.find (\<lambda>r. ar_number r = n \<and> is_open r) (db_alerts db) of
             None \<Rightarrow> (Inl ErrAlertNotFiring, db)
           | Some a \<Rightarrow>
               resolve_update fails False now (AlertEventWithActor ''resolved'' now actor)
                 (ar_id a) (env db))"

definition ResolveAlertByUser where
  "ResolveAlertByUser fails env now fp actor db =
     (if fails 0 then (Inl AlertDbError, db)
      else case latest ar_updated (filter (\<lambda>r. ar_fingerprint r = fp \<and> is_open r) (db_alerts db)) of
             None \<Rightarrow> (Inl ErrAlertNotFiring, db)
           | Some a \<Rightarrow>
               resolve_update fails False now (AlertEventWithActor ''resolved'' now actor)
                 (ar_id a) (env db))"

definition resolved_event :: "instant \<Rightarrow> alert_event option \<Rightarrow> alert_event" where
  "resolved_event now given =
     (case given of
        None \<Rightarrow> \<lparr>ev_type = ''resolved'', ev_time = now, ev_username = [], ev_display = [],
                 ev_userid = [], ev_source = ''grafana''\<rparr>
      | Some e \<Rightarrow> e\<lparr>ev_time := (if ev_time e = zero_time then now else ev_time e)\<rparr>)"

text \<open>\<^verbatim>\<open>UpdateStatus\<close> to another status than resolved is an unguarded UPDATE without an event.\<close>

definition set_status_update where
  "set_status_update fails now status ident db =
     (if fails (1 :: nat) then (Inl AlertDbError, db)
      else case sql_update (\<lambda>r. ar_id r = ident \<and> ar_deleted r = None)
                  (\<lambda>r. r\<lparr>ar_status := status, ar_updated := now\<rparr>) (db_alerts db) of
             None \<Rightarrow> (Inl AlertDbError, db)
           | Some (rows, tab) \<Rightarrow> (Inr (), db\<lparr>db_alerts := tab\<rparr>))"

definition UpdateStatus where
  "UpdateStatus fails env now fp status resolvedEvent db =
     (if fails 0 then (Inl AlertDbError, db)
      else case List.find (\<lambda>r. ar_fingerprint r = fp \<and> is_open r) (db_alerts db) of
             None \<Rightarrow> (Inl AlertDbError, db)
           | Some a \<Rightarrow>
               if status = ''resolved'' then
                 resolve_update fails False now (resolved_event now resolvedEvent) (ar_id a) (env db)
               else set_status_update fails now status (ar_id a) (env db))"

definition UpdateStatusSilenced where
  "UpdateStatusSilenced fails env now fp db =
     (if fails 0 then (Inl AlertDbError, db)
      else case List.find (\<lambda>r. ar_fingerprint r = fp \<and> is_open r) (db_alerts db) of
             None \<Rightarrow> (Inl AlertDbError, db)
           | Some a \<Rightarrow>
               resolve_update fails True now
                 \<lparr>ev_type = ''resolved'', ev_time = now, ev_username = [], ev_display = [],
                  ev_userid = [], ev_source = ''system''\<rparr> (ar_id a) (env db))"

definition reopen_row :: "instant \<Rightarrow> alert_row \<Rightarrow> alert_row" where
  "reopen_row now r =
     r\<lparr>ar_status := ''firing'', ar_acknowledged := False, ar_silenced := False, ar_ends := None,
       ar_updated := now\<rparr>"

definition reopen_update ::
    "(nat \<Rightarrow> bool) \<Rightarrow> instant \<Rightarrow> alert_event \<Rightarrow> uuid \<Rightarrow> alert_db \<Rightarrow> (alert_error + unit) \<times> alert_db" where
  "reopen_update fails now ev ident db =
     (if fails 1 then (Inl AlertDbError, db)
      else case sql_update (\<lambda>r. ar_id r = ident \<and> ar_deleted r = None) (reopen_row now) (db_alerts db) of
             None \<Rightarrow> (Inl AlertDbError, db)
           | Some (rows, tab) \<Rightarrow>
               (Inr (), insertAlertEvent (fails 2) ident ev (db\<lparr>db_alerts := tab\<rparr>)))"

definition ReopenAlertByNumber where
  "ReopenAlertByNumber fails env now n ev db =
     (if fails 0 then (Inl AlertDbError, db)
      else case latest ar_updated (filter (\<lambda>r. ar_number r = n \<and> ar_status r = ''resolved''
                  \<and> ar_deleted r = None) (db_alerts db)) of
             None \<Rightarrow> (Inl ErrAlertNotFound, db)
           | Some a \<Rightarrow>
               reopen_update fails now
                 (ev\<lparr>ev_type := (if ev_type ev = [] then ''reopened'' else ev_type ev),
                     ev_time := (if ev_time ev = zero_time then now else ev_time ev),
                     ev_source := (if ev_source ev = [] then ''user'' else ev_source ev)\<rparr>)
                 (ar_id a) (env db))"

definition ReopenAlert where
  "ReopenAlert fails env now fp ev db =
     (if fails 0 then (Inl AlertDbError, db)
      else case latest ar_updated (filter (\<lambda>r. ar_fingerprint r = fp \<and> ar_status r = ''resolved''
                  \<and> ar_deleted r = None) (db_alerts db)) of
             None \<Rightarrow> (Inl ErrAlertNotResolved, db)
           | Some a \<Rightarrow>
               reopen_update fails now
                 (ev\<lparr>ev_time := (if ev_time ev = zero_time then now else ev_time ev)\<rparr>)
                 (ar_id a) (env db))"

subsection \<open>Deletion and retention\<close>

text \<open>The cascade over the investigation tables is the first statement of the transaction
  (\<open>fails 1\<close>); those tables are not part of this state.\<close>

definition soft_delete :: "instant \<Rightarrow> uuid \<Rightarrow> alert_row list \<Rightarrow> (nat \<times> alert_row list) option" where
  "soft_delete now ident tab =
     sql_update (\<lambda>r. ar_id r = ident \<and> ar_deleted r = None)
       (\<lambda>r. r\<lparr>ar_deleted := Some now, ar_updated := now\<rparr>) tab"

definition DeleteAlertByNumber where
  "DeleteAlertByNumber fails env now n db =
     (if fails 0 then (Inl AlertDbError, db)
      else case List.find (\<lambda>r. ar_number r = n \<and> ar_deleted r = None) (db_alerts db) of
             None \<Rightarrow> (Inl ErrAlertNotFound, db)
           | Some a \<Rightarrow>
               (let db' = env db
                in if fails 1 \<or> fails 2 then (Inl AlertDbError, db')
                   else case soft_delete now (ar_id a) (db_alerts db') of
                          None \<Rightarrow> (Inl AlertDbError, db')
                        | Some (rows, tab) \<Rightarrow> (Inr (), db'\<lparr>db_alerts := tab\<rparr>)))"

definition DeleteAlert where
  "DeleteAlert fails now fp db =
     (if fails (0 :: nat) then (Inl AlertDbError, db)
      else case latest ar_updated (filter (\<lambda>r. ar_fingerprint r = fp \<and> ar_deleted r = None) (db_alerts db)) of
             None \<Rightarrow> (Inl ErrAlertNotFound, db)
           | Some a \<Rightarrow>
               (if fails 1 \<or> fails 2 then (Inl AlertDbError, db)
                else case soft_delete now (ar_id a) (db_alerts db) of
                       None \<Rightarrow> (Inl AlertDbError, db)
                     | Some (rows, tab) \<Rightarrow>
                         if rows = 0 then (Inl ErrAlertNotFound, db)
                         else (Inr (), db\<lparr>db_alerts := tab\<rparr>)))"

definition is_old :: "instant \<Rightarrow> alert_row \<Rightarrow> bool" where
  "is_old olderThan r \<longleftrightarrow>
     ar_created r < olderThan \<and> ar_status r = ''resolved'' \<and> ar_deleted r = None"

text \<open>One row's transaction of the purge: the foreign keys cascade.\<close>

definition purge_alert :: "uuid \<Rightarrow> alert_db \<Rightarrow> alert_db" where
  "purge_alert ident db =
     db\<lparr>db_alerts := filter (\<lambda>r. ar_id r \<noteq> ident) (db_alerts db),
        db_events := filter (\<lambda>e. fst e \<noteq> ident) (db_events db),
        db_targets := filter (\<lambda>t. fst t \<noteq> ident) (db_targets db),
        db_links := filter (\<lambda>l. snd l \<noteq> ident) (db_links db)\<rparr>"

fun purge_loop :: "(uuid \<Rightarrow> bool) \<Rightarrow> uuid list \<Rightarrow> int \<Rightarrow> alert_db \<Rightarrow> (alert_error \<times> int + int) \<times> alert_db" where
  "purge_loop bad [] purged db = (Inr purged, db)"
| "purge_loop bad (i # is) purged db =
     (if bad i then (Inl (AlertDbError, purged), db)
      else purge_loop bad is (purged + 1) (purge_alert i db))"

definition DeleteOlderThan where
  "DeleteOlderThan failed bad olderThan db =
     (if failed then (Inl (AlertDbError, 0), db)
      else purge_loop bad (map ar_id (filter (is_old olderThan) (db_alerts db))) 0 db)"

definition CountOlderThan :: "bool \<Rightarrow> instant \<Rightarrow> alert_db \<Rightarrow> alert_error + int" where
  "CountOlderThan failed olderThan db =
     (if failed then Inl AlertDbError
      else Inr (int (length (filter (is_old olderThan) (db_alerts db)))))"

subsection \<open>Delivery targets\<close>

text \<open>The inserts run one by one outside a transaction; the schema checks provider and channel.\<close>

definition target_checks :: "delivery_target \<Rightarrow> bool" where
  "target_checks t \<longleftrightarrow>
     dt_provider t \<in> {''slack'', ''mattermost'', ''pagerduty''} \<and> dt_channel t \<noteq> []"

fun insert_targets :: "(nat \<Rightarrow> bool) \<Rightarrow> nat \<Rightarrow> uuid \<Rightarrow> delivery_target list \<Rightarrow> alert_db
     \<Rightarrow> bool \<times> alert_db" where
  "insert_targets fails k ident [] db = (True, db)"
| "insert_targets fails k ident (t # ts) db =
     (if fails k \<or> \<not> target_checks t \<or> ident \<notin> ar_id ` set (db_alerts db) then (False, db)
      else insert_targets fails (Suc k) ident ts (db\<lparr>db_targets := db_targets db @ [(ident, t)]\<rparr>))"

definition UpdateDeliveryTargets where
  "UpdateDeliveryTargets fails env now fp targets db =
     (if fails 0 then (Inl AlertDbError, db)
      else case List.find (\<lambda>r. ar_fingerprint r = fp \<and> is_open r) (db_alerts db) of
             None \<Rightarrow> (Inl AlertDbError, db)
           | Some a \<Rightarrow>
               (let db1 = env db
                in if fails 1 then (Inl AlertDbError, db1)
                   else
                     let db2 = db1\<lparr>db_targets := filter (\<lambda>t. fst t \<noteq> ar_id a) (db_targets db1)\<rparr>;
                         (ok, db3) = insert_targets fails 3 (ar_id a) targets db2
                     in if \<not> ok \<or> fails 2 then (Inl AlertDbError, db3)
                        else case sql_update (\<lambda>r. ar_id r = ar_id a \<and> ar_deleted r = None)
                                    (\<lambda>r. r\<lparr>ar_updated := now\<rparr>) (db_alerts db3) of
                               None \<Rightarrow> (Inl AlertDbError, db3)
                             | Some (rows, tab) \<Rightarrow> (Inr (), db3\<lparr>db_alerts := tab\<rparr>)))"

subsection \<open>Links to incidents\<close>

definition newest_alert :: "string \<Rightarrow> alert_db \<Rightarrow> alert_row option" where
  "newest_alert fp db =
     latest ar_number (filter (\<lambda>r. ar_fingerprint r = fp \<and> ar_deleted r = None) (db_alerts db))"

definition LinkAlertToIncident where
  "LinkAlertToIncident fails incidents fp n db =
     (if fails (0 :: nat) then (Inl AlertDbError, db)
      else case newest_alert fp db of
             None \<Rightarrow> (Inl ErrAlertNotFound, db)
           | Some a \<Rightarrow>
               (if fails 1 then (Inl AlertDbError, db)
                else case live_incident n incidents of
                       None \<Rightarrow> (Inl ErrNoIncident, db)
                     | Some inc \<Rightarrow>
                         if fails 2 then (Inl AlertDbError, db)
                         else if (in_id inc, ar_id a) \<in> set (db_links db) then (Inr (), db)
                         else (Inr (), db\<lparr>db_links := db_links db @ [(in_id inc, ar_id a)]\<rparr>)))"

definition UnlinkAlertFromIncident where
  "UnlinkAlertFromIncident fails incidents fp n db =
     (if fails (0 :: nat) then (Inl AlertDbError, db)
      else case newest_alert fp db of
             None \<Rightarrow> (Inl ErrAlertNotFound, db)
           | Some a \<Rightarrow>
               (if fails 1 then (Inl AlertDbError, db)
                else case live_incident n incidents of
                       None \<Rightarrow> (Inl ErrNoIncident, db)
                     | Some inc \<Rightarrow>
                         if fails 2 then (Inl AlertDbError, db)
                         else (Inr (), db\<lparr>db_links := filter (\<lambda>l. l \<noteq> (in_id inc, ar_id a)) (db_links db)\<rparr>)))"

definition GetAlertsByIncident where
  "GetAlertsByIncident fails incidents n db =
     (if fails (0 :: nat) then Inl AlertDbError
      else case live_incident n incidents of
             None \<Rightarrow> Inr []
           | Some inc \<Rightarrow>
               if fails 1 then Inl AlertDbError
               else Inr (map ar_fingerprint
                 (filter (\<lambda>r. (in_id inc, ar_id r) \<in> set (db_links db)) (db_alerts db))))"

subsection \<open>Resolving the alerts of an incident\<close>

record cascade_result =
  cr_resolved :: "alert_record list"
  cr_skipped :: "(int \<times> string) list" \<comment> \<open>\<^verbatim>\<open>AlertRef\<close>: number and fingerprint\<close>
  cr_failed :: "(int \<times> string) list"

definition alert_ref :: "alert_row \<Rightarrow> int \<times> string" where
  "alert_ref a = (ar_number a, ar_fingerprint a)"

definition linked_alerts :: "incident list \<Rightarrow> int \<Rightarrow> alert_db \<Rightarrow> alert_row list" where
  "linked_alerts incidents n db =
     filter (\<lambda>a. ar_deleted a = None \<and>
       (\<exists>inc \<in> set incidents. in_number inc = n \<and> in_deleted inc = None \<and>
          (in_id inc, ar_id a) \<in> set (db_links db))) (db_alerts db)"

definition co_linked :: "incident list \<Rightarrow> int \<Rightarrow> alert_db \<Rightarrow> uuid \<Rightarrow> bool" where
  "co_linked incidents n db ident \<longleftrightarrow>
     (\<exists>inc \<in> set incidents. (in_id inc, ident) \<in> set (db_links db) \<and> in_number inc \<noteq> n \<and>
        in_deleted inc = None \<and> in_status inc \<notin> {''resolved'', ''closed'', ''cancelled''})"

definition cascade_event :: "instant \<Rightarrow> event_actor option \<Rightarrow> alert_event" where
  "cascade_event now actor =
     (let ev = \<lparr>ev_type = ''resolved'', ev_time = now, ev_username = [], ev_display = [],
                ev_userid = [], ev_source = ''incident_cascade''\<rparr>
      in case actor of
           None \<Rightarrow> ev
         | Some a \<Rightarrow> ev\<lparr>ev_userid := ac_userid a, ev_username := ac_username a,
                          ev_display := ac_display a\<rparr>)"

text \<open>\<open>env i\<close> acts before the UPDATE of alert \<open>i\<close>; \<open>fails i 3\<close> is the conversion for broadcast.\<close>

fun cascade_loop ::
    "(uuid \<Rightarrow> nat \<Rightarrow> bool) \<Rightarrow> (uuid \<Rightarrow> alert_db \<Rightarrow> alert_db) \<Rightarrow> instant \<Rightarrow> event_actor option
     \<Rightarrow> (uuid \<Rightarrow> bool) \<Rightarrow> alert_row list \<Rightarrow> cascade_result \<Rightarrow> alert_db \<Rightarrow> cascade_result \<times> alert_db" where
  "cascade_loop fails env now actor shared [] res db = (res, db)"
| "cascade_loop fails env now actor shared (a # as) res db =
     (if ar_status a = ''resolved'' \<or> shared (ar_id a)
      then cascade_loop fails env now actor shared as
             (res\<lparr>cr_skipped := cr_skipped res @ [alert_ref a]\<rparr>) db
      else
        case resolve_stmt (fails (ar_id a)) False now (cascade_event now actor) (ar_id a)
               (env (ar_id a) db) of
          (Inl _, db') \<Rightarrow>
            cascade_loop fails env now actor shared as
              (res\<lparr>cr_failed := cr_failed res @ [alert_ref a]\<rparr>) db'
        | (Inr rows, db') \<Rightarrow>
            if rows = 0 then
              cascade_loop fails env now actor shared as
                (res\<lparr>cr_skipped := cr_skipped res @ [alert_ref a]\<rparr>) db'
            else if fails (ar_id a) 3 then
              cascade_loop fails env now actor shared as
                (res\<lparr>cr_failed := cr_failed res @ [alert_ref a]\<rparr>) db'
            else
              cascade_loop fails env now actor shared as
                (res\<lparr>cr_resolved := cr_resolved res @
                    [toAlertRecord db' (a\<lparr>ar_status := ''resolved'', ar_updated := now\<rparr>)]\<rparr>) db')"

text \<open>\<open>icActor\<close> is the incident commander the code looks up, preferred over the caller.\<close>

definition ResolveAlertsByIncident where
  "ResolveAlertsByIncident err fails env incidents now n icActor actor db =
     (let linked = linked_alerts incidents n db
      in if err (0 :: nat) \<or> (linked \<noteq> [] \<and> err 1) then (Inl AlertDbError, db)
         else
           let (res, db') = cascade_loop fails env now
                 (case icActor of None \<Rightarrow> actor | Some c \<Rightarrow> Some c)
                 (co_linked incidents n db) linked
                 \<lparr>cr_resolved = [], cr_skipped = [], cr_failed = []\<rparr> db
           in (Inr res, db'))"

end
