(* ===== verification/Alert_Invariant.thy ===== *)
theory Alert_Invariant
  imports Alert_Store "HOL-Library.Multiset"
begin

text \<open>
  What the alert operations keep: the constraints of the schema survive every statement that
  only closes alerts (so those statements never fail on a constraint), every database the
  operations can produce is well formed however they interleave, racing resolves record one
  event, and the incident cascade handles each linked alert once.
\<close>

named_theorems row_simps \<open>columns of the rows the statements write\<close>

lemma resolve_row_fields [row_simps]:
  "ar_id (resolve_row s now r) = ar_id r" "ar_number (resolve_row s now r) = ar_number r"
  "ar_fingerprint (resolve_row s now r) = ar_fingerprint r"
  "ar_status (resolve_row s now r) = ''resolved''" "ar_deleted (resolve_row s now r) = ar_deleted r"
  "ar_ends (resolve_row s now r) \<noteq> None" "\<not> is_open (resolve_row s now r)"
  by (simp_all add: resolve_row_def is_open_def split: option.splits)

lemma reopen_row_fields [row_simps]:
  "ar_id (reopen_row now r) = ar_id r" "ar_number (reopen_row now r) = ar_number r"
  "ar_fingerprint (reopen_row now r) = ar_fingerprint r"
  "ar_status (reopen_row now r) = ''firing''" "ar_deleted (reopen_row now r) = ar_deleted r"
  "ar_ends (reopen_row now r) = None"
  by (simp_all add: reopen_row_def)

lemma is_openD: "is_open r \<Longrightarrow> ar_deleted r = None \<and> ar_status r \<noteq> ''resolved''"
  by (simp add: is_open_def)

subsection \<open>Statements and constraints\<close>

lemma sql_update_Some:
  "sql_update P f tab = Some (k, tab') \<longleftrightarrow>
     tab' = map (\<lambda>r. if P r then f r else r) tab \<and> alert_constraints tab' \<and> k = length (filter P tab)"
  by (auto simp: sql_update_def Let_def)

lemma alert_constraints_iff:
  "alert_constraints tab \<longleftrightarrow>
     distinct (map ar_id tab) \<and> distinct (map ar_number tab) \<and>
     (\<forall>r \<in> set tab. ar_status r = ''firing'' \<or> ar_status r = ''resolved'') \<and>
     distinct (map ar_fingerprint (filter is_open tab))"
  by (simp add: alert_constraints_def list_all_iff)

text \<open>A statement that keeps keys and opens nothing cannot break a constraint.\<close>

lemma distinct_map_filter_sub:
  "distinct (map h (filter Q xs)) \<Longrightarrow> \<forall>x. P x \<longrightarrow> Q x \<Longrightarrow> distinct (map h (filter P xs))"
  by (induction xs) (auto split: if_splits)

lemma constraints_shrink:
  assumes c: "alert_constraints tab"
    and keys: "\<forall>r. ar_id (g r) = ar_id r \<and> ar_number (g r) = ar_number r \<and>
                 ar_fingerprint (g r) = ar_fingerprint r"
    and st: "\<forall>r. ar_status (g r) = ar_status r \<or> ar_status (g r) = ''resolved''"
    and op: "\<forall>r. is_open (g r) \<longrightarrow> is_open r"
  shows "alert_constraints (map g tab)"
proof -
  have "filter is_open (map g tab) = map g (filter (is_open \<circ> g) tab)"
    by (simp add: filter_map)
  then have "map ar_fingerprint (filter is_open (map g tab)) = map ar_fingerprint (filter (is_open \<circ> g) tab)"
    using keys by simp
  moreover have "distinct (map ar_fingerprint (filter (is_open \<circ> g) tab))"
    by (rule distinct_map_filter_sub [of _ is_open]) (use c op in \<open>auto simp: alert_constraints_iff\<close>)
  ultimately have "distinct (map ar_fingerprint (filter is_open (map g tab)))" by simp
  moreover have "map ar_id (map g tab) = map ar_id tab" "map ar_number (map g tab) = map ar_number tab"
    using keys by simp_all
  moreover have "\<forall>r \<in> set (map g tab). ar_status r = ''firing'' \<or> ar_status r = ''resolved''"
  proof
    fix r assume "r \<in> set (map g tab)"
    then obtain x where "x \<in> set tab" "r = g x" unfolding set_map by blast
    with c st show "ar_status r = ''firing'' \<or> ar_status r = ''resolved''"
      unfolding alert_constraints_iff by metis
  qed
  ultimately show ?thesis using c unfolding alert_constraints_iff by metis
qed

lemma sql_update_close:
  assumes "alert_constraints tab"
    and "\<And>r. ar_id (f r) = ar_id r" "\<And>r. ar_number (f r) = ar_number r"
    and "\<And>r. ar_fingerprint (f r) = ar_fingerprint r"
    and "\<And>r. ar_status (f r) = ar_status r \<or> ar_status (f r) = ''resolved''"
    and "\<And>r. is_open (f r) \<Longrightarrow> is_open r"
  shows "sql_update P f tab = Some (length (filter P tab), map (\<lambda>r. if P r then f r else r) tab)"
  unfolding sql_update_Some
  using constraints_shrink [OF assms(1), of "\<lambda>r. if P r then f r else r"] assms(2-) by simp

lemma id_unique:
  "alert_constraints tab \<Longrightarrow> r \<in> set tab \<Longrightarrow> s \<in> set tab \<Longrightarrow> ar_id r = ar_id s \<Longrightarrow> r = s"
  unfolding alert_constraints_iff distinct_map by (blast dest: inj_onD)

lemma open_unique:
  "alert_constraints tab \<Longrightarrow> r \<in> set tab \<Longrightarrow> s \<in> set tab \<Longrightarrow> is_open r \<Longrightarrow> is_open s \<Longrightarrow>
     ar_fingerprint r = ar_fingerprint s \<Longrightarrow> r = s"
proof -
  assume a: "alert_constraints tab" "r \<in> set tab" "s \<in> set tab" "is_open r" "is_open s"
    "ar_fingerprint r = ar_fingerprint s"
  then have "inj_on ar_fingerprint (set (filter is_open tab))"
    by (simp add: alert_constraints_iff distinct_map)
  moreover have "r \<in> set (filter is_open tab)" "s \<in> set (filter is_open tab)" using a by simp_all
  ultimately show "r = s" using a(6) by (blast dest: inj_onD)
qed

lemma insertAlertEvent_fields [simp]:
  "db_alerts (insertAlertEvent b i ev db) = db_alerts db"
  "db_targets (insertAlertEvent b i ev db) = db_targets db"
  "db_links (insertAlertEvent b i ev db) = db_links db"
  by (simp_all add: insertAlertEvent_def)

lemma resolve_stmt_cases:
  assumes "alert_constraints (db_alerts db)" "\<not> fails 1"
  shows "resolve_stmt fails s now ev ident db =
    (let hits = length (filter (\<lambda>r. ar_id r = ident \<and> is_open r) (db_alerts db))
     in if hits = 0 then (Inr 0, db)
        else (Inr hits, insertAlertEvent (fails 2) ident ev
               (db\<lparr>db_alerts := map (\<lambda>r. if ar_id r = ident \<and> is_open r then resolve_row s now r else r)
                    (db_alerts db)\<rparr>)))"
  unfolding resolve_stmt_def Let_def using assms
  by (subst sql_update_close) (simp_all add: row_simps)

lemma hits_le_one:
  "distinct (map ar_id tab) \<Longrightarrow> length (filter (\<lambda>r. ar_id r = ident \<and> Q r) tab) \<le> 1"
proof (induction tab)
  case (Cons r tab)
  then have "ar_id r \<notin> ar_id ` set tab" by simp
  then have "filter (\<lambda>r. ar_id r = ident \<and> Q r) tab = []" if "ar_id r = ident"
    unfolding filter_empty_conv using that by (metis imageI)
  with Cons show ?case by simp
qed simp

subsection \<open>Well-formed databases\<close>

text \<open>Constraints, references, target checks, and: a firing alert has no end time.\<close>

definition alert_wf :: "alert_db \<Rightarrow> bool" where
  "alert_wf db \<longleftrightarrow>
     alert_constraints (db_alerts db) \<and>
     fst ` set (db_events db) \<subseteq> ar_id ` set (db_alerts db) \<and>
     fst ` set (db_targets db) \<subseteq> ar_id ` set (db_alerts db) \<and>
     snd ` set (db_links db) \<subseteq> ar_id ` set (db_alerts db) \<and>
     (\<forall>t \<in> snd ` set (db_targets db). target_checks t) \<and>
     (\<forall>r \<in> set (db_alerts db). ar_status r = ''firing'' \<longrightarrow> ar_ends r = None)"

lemma alert_wf_constraints: "alert_wf db \<Longrightarrow> alert_constraints (db_alerts db)"
  by (simp add: alert_wf_def)

lemma wf_event: "alert_wf db \<Longrightarrow> alert_wf (insertAlertEvent b i ev db)"
  by (auto simp: alert_wf_def insertAlertEvent_def)

text \<open>Any UPDATE that keeps ids and clears the end time of the rows it leaves firing.\<close>

lemma wf_update:
  assumes wf: "alert_wf db" and u: "sql_update P f (db_alerts db) = Some (k, tab)"
    and ids: "\<And>r. ar_id (f r) = ar_id r"
    and ends: "\<And>r. ar_status (f r) = ''firing'' \<Longrightarrow>
      ar_ends (f r) = None \<or> ar_status r = ''firing'' \<and> ar_ends (f r) = ar_ends r"
  shows "alert_wf (db\<lparr>db_alerts := tab\<rparr>)"
proof -
  let ?g = "\<lambda>r. if P r then f r else r"
  have tab: "tab = map ?g (db_alerts db)" "alert_constraints tab"
    using u unfolding sql_update_Some by blast+
  have "map ar_id tab = map ar_id (db_alerts db)" using ids unfolding tab(1) by simp
  then have id: "ar_id ` set tab = ar_id ` set (db_alerts db)" by (metis set_map)
  have "ar_ends r = None" if "r \<in> set tab" "ar_status r = ''firing''" for r
  proof -
    from that(1) obtain x where x: "x \<in> set (db_alerts db)" "r = ?g x" unfolding tab(1) set_map by blast
    have "ar_ends x = None" if "ar_status x = ''firing''" using wf x(1) that by (simp add: alert_wf_def)
    then show ?thesis using ends [of x] that(2) x(2) by (cases "P x") auto
  qed
  then show ?thesis using wf tab(2) id by (simp add: alert_wf_def)
qed

lemma wf_update_event:
  assumes "alert_wf db" "sql_update P f (db_alerts db) = Some (k, tab)"
    and "\<And>r. ar_id (f r) = ar_id r"
    and "\<And>r. ar_status (f r) = ''firing'' \<Longrightarrow>
      ar_ends (f r) = None \<or> ar_status r = ''firing'' \<and> ar_ends (f r) = ar_ends r"
  shows "alert_wf (insertAlertEvent b i ev (db\<lparr>db_alerts := tab\<rparr>))"
  by (rule wf_event) (rule wf_update [OF assms])

lemma wf_ack: "alert_wf db \<Longrightarrow> alert_wf (snd (ack_update fails now actor ident db))"
  by (auto simp: ack_update_def split: option.splits intro!: wf_update_event)

lemma wf_resolve: "alert_wf db \<Longrightarrow> alert_wf (snd (resolve_stmt fails s now ev ident db))"
  by (auto simp: resolve_stmt_def row_simps split: option.splits intro!: wf_update_event)

lemma wf_resolve_update: "alert_wf db \<Longrightarrow> alert_wf (snd (resolve_update fails s now ev ident db))"
  using wf_resolve [of db fails s now ev ident]
  by (auto simp: resolve_update_def split: prod.splits sum.splits)

lemma wf_reopen: "alert_wf db \<Longrightarrow> alert_wf (snd (reopen_update fails now ev ident db))"
  by (auto simp: reopen_update_def row_simps split: option.splits intro!: wf_update_event)

lemma wf_delete:
  "alert_wf db \<Longrightarrow> soft_delete now ident (db_alerts db) = Some (k, tab) \<Longrightarrow>
     alert_wf (db\<lparr>db_alerts := tab\<rparr>)"
  unfolding soft_delete_def by (rule wf_update, assumption, assumption) simp_all

lemma wf_purge: "alert_wf db \<Longrightarrow> alert_wf (purge_alert ident db)"
proof -
  assume wf: "alert_wf db"
  let ?tab = "filter (\<lambda>r. ar_id r \<noteq> ident) (db_alerts db)"
  have "distinct (map ar_fingerprint (filter is_open ?tab))"
    using wf distinct_map_filter_sub [of ar_fingerprint is_open "db_alerts db"
        "\<lambda>r. ar_id r \<noteq> ident \<and> is_open r"]
    by (simp add: alert_wf_def alert_constraints_iff)
  then have "alert_constraints ?tab"
    using wf by (simp add: alert_wf_def alert_constraints_iff distinct_map_filter)
  with wf show ?thesis unfolding alert_wf_def purge_alert_def by auto
qed

lemma wf_purge_loop: "alert_wf db \<Longrightarrow> alert_wf (snd (purge_loop bad is k db))"
  by (induction bad "is" k db rule: purge_loop.induct) (auto simp: wf_purge)

lemma wf_insert_targets:
  "alert_wf db \<Longrightarrow> alert_wf (snd (insert_targets fails k ident ts db))"
proof (induction ts arbitrary: k db)
  case (Cons t ts)
  show ?case
  proof (cases "fails k \<or> \<not> target_checks t \<or> ident \<notin> ar_id ` set (db_alerts db)")
    case False
    then have "alert_wf (db\<lparr>db_targets := db_targets db @ [(ident, t)]\<rparr>)"
      using Cons.prems by (simp add: alert_wf_def)
    then show ?thesis using False Cons.IH by simp
  qed (use Cons.prems in simp)
qed simp

lemma wf_clear_targets: "alert_wf db \<Longrightarrow> alert_wf (db\<lparr>db_targets := filter P (db_targets db)\<rparr>)"
  by (auto simp: alert_wf_def)

lemma wf_touch:
  "alert_wf db \<Longrightarrow> sql_update P (\<lambda>r. r\<lparr>ar_updated := now\<rparr>) (db_alerts db) = Some (k, tab) \<Longrightarrow>
     alert_wf (db\<lparr>db_alerts := tab\<rparr>)"
  by (rule wf_update, assumption, assumption) simp_all

lemma wf_create:
  assumes "alert_wf db"
    and "ar_status (re_alert record) = ''firing'' \<longrightarrow> ar_ends (re_alert record) = None"
  shows "alert_wf (snd (Create fails now newid nextnum record db))"
  using assms
  by (auto simp: Create_def Let_def alert_wf_def created_alert_def)

subsection \<open>All operations\<close>

datatype alert_op =
    OpCreate uuid int alert_record
  | OpAckNumber int "event_actor option"
  | OpAck string "event_actor option"
  | OpResolveNumber int "event_actor option"
  | OpResolveUser string "event_actor option"
  | OpResolved string "alert_event option"
  | OpSilenced string
  | OpReopenNumber int alert_event
  | OpReopen string alert_event
  | OpDeleteNumber int
  | OpDelete string
  | OpPurge instant
  | OpTargets string "delivery_target list"
  | OpLink string int
  | OpUnlink string int

text \<open>The state part of each operation, \<^verbatim>\<open>UpdateStatus\<close> as its callers use it (to ``resolved'').\<close>

fun run_alert_op ::
    "(nat \<Rightarrow> bool) \<Rightarrow> (alert_db \<Rightarrow> alert_db) \<Rightarrow> instant \<Rightarrow> incident list \<Rightarrow> alert_op \<Rightarrow> alert_db \<Rightarrow> alert_db" where
  "run_alert_op fails env now incs (OpCreate i n r) db = snd (Create fails now i n r db)"
| "run_alert_op fails env now incs (OpAckNumber n a) db = snd (AcknowledgeAlertByNumber fails env now n a db)"
| "run_alert_op fails env now incs (OpAck fp a) db = snd (AcknowledgeAlert fails env now fp a db)"
| "run_alert_op fails env now incs (OpResolveNumber n a) db = snd (ResolveAlertByNumber fails env now n a db)"
| "run_alert_op fails env now incs (OpResolveUser fp a) db = snd (ResolveAlertByUser fails env now fp a db)"
| "run_alert_op fails env now incs (OpResolved fp e) db = snd (UpdateStatus fails env now fp ''resolved'' e db)"
| "run_alert_op fails env now incs (OpSilenced fp) db = snd (UpdateStatusSilenced fails env now fp db)"
| "run_alert_op fails env now incs (OpReopenNumber n e) db = snd (ReopenAlertByNumber fails env now n e db)"
| "run_alert_op fails env now incs (OpReopen fp e) db = snd (ReopenAlert fails env now fp e db)"
| "run_alert_op fails env now incs (OpDeleteNumber n) db = snd (DeleteAlertByNumber fails env now n db)"
| "run_alert_op fails env now incs (OpDelete fp) db = snd (DeleteAlert fails now fp db)"
| "run_alert_op fails env now incs (OpPurge t) db = snd (DeleteOlderThan (fails 0) (\<lambda>i. fails (Suc i)) t db)"
| "run_alert_op fails env now incs (OpTargets fp ts) db = snd (UpdateDeliveryTargets fails env now fp ts db)"
| "run_alert_op fails env now incs (OpLink fp n) db = snd (LinkAlertToIncident fails incs fp n db)"
| "run_alert_op fails env now incs (OpUnlink fp n) db = snd (UnlinkAlertFromIncident fails incs fp n db)"

fun alert_op_ok :: "alert_op \<Rightarrow> bool" where
  "alert_op_ok (OpCreate i n r) =
     (ar_status (re_alert r) = ''firing'' \<longrightarrow> ar_ends (re_alert r) = None)"
| "alert_op_ok _ = True"

lemma latest_in: "latest key xs = Some r \<Longrightarrow> r \<in> set xs"
  by (induction xs arbitrary: r) (auto split: option.splits if_splits)

lemma latest_None: "latest key xs = None \<longleftrightarrow> xs = []"
  by (cases xs) (auto split: option.splits)

lemma latest_max: "latest key xs = Some r \<Longrightarrow> s \<in> set xs \<Longrightarrow> key s \<le> key r"
proof (induction xs arbitrary: r)
  case (Cons x xs)
  show ?case
  proof (cases "latest key xs")
    case None
    with Cons.prems show ?thesis by (simp add: latest_None)
  next
    case (Some y)
    with Cons show ?thesis by (fastforce split: if_splits)
  qed
qed simp

lemma wf_link: "alert_wf db \<Longrightarrow> alert_wf (snd (LinkAlertToIncident fails incs fp n db))"
  by (auto simp: LinkAlertToIncident_def alert_wf_def newest_alert_def split: option.splits
      dest!: latest_in)

lemma wf_unlink: "alert_wf db \<Longrightarrow> alert_wf (snd (UnlinkAlertFromIncident fails incs fp n db))"
  by (auto simp: UnlinkAlertFromIncident_def alert_wf_def split: option.splits)

lemma wf_targets:
  assumes "alert_wf db" "\<forall>d. alert_wf d \<longrightarrow> alert_wf (env d)"
  shows "alert_wf (snd (UpdateDeliveryTargets fails env now fp ts db))"
proof -
  have ins: "alert_wf db3"
    if "insert_targets fails 3 i ts ((env db)\<lparr>db_targets := filter (\<lambda>t. fst t \<noteq> i) (db_targets (env db))\<rparr>)
      = (ok, db3)" for i ok db3
    using wf_insert_targets [OF wf_clear_targets [of "env db" "\<lambda>t. fst t \<noteq> i"], of fails 3 i ts]
      assms that by simp
  show ?thesis
    using assms
    by (auto simp: UpdateDeliveryTargets_def Let_def split: option.splits prod.splits
        intro: wf_touch dest: ins)
qed

lemma wf_run_alert_op:
  assumes "alert_wf db" "\<forall>d. alert_wf d \<longrightarrow> alert_wf (env d)" "alert_op_ok op"
  shows "alert_wf (run_alert_op fails env now incs op db)"
proof (cases op)
  case (OpTargets fp ts)
  then show ?thesis using wf_targets [OF assms(1,2)] by simp
next
  case (OpPurge t)
  then show ?thesis using assms(1) by (simp add: DeleteOlderThan_def wf_purge_loop)
next
  case (OpCreate i n r)
  then show ?thesis using assms by (simp add: wf_create)
qed (use assms in \<open>auto simp: wf_link wf_unlink wf_ack wf_resolve_update wf_reopen wf_delete
    AcknowledgeAlertByNumber_def AcknowledgeAlert_def ResolveAlertByNumber_def ResolveAlertByUser_def
    UpdateStatus_def UpdateStatusSilenced_def ReopenAlertByNumber_def ReopenAlert_def
    DeleteAlertByNumber_def DeleteAlert_def Let_def split: option.splits\<close>)

subsection \<open>Lookups\<close>

lemma GetOpen_iff:
  assumes "alert_wf db"
  shows "GetOpenByFingerprint (\<lambda>_. False) fp db =
    Inr (map_option (toAlertRecord db) (List.find (\<lambda>r. ar_fingerprint r = fp \<and> is_open r) (db_alerts db)))"
proof -
  let ?P = "\<lambda>r. ar_fingerprint r = fp \<and> is_open r"
  have "latest ar_updated (filter ?P (db_alerts db)) = List.find ?P (db_alerts db)"
  proof (cases "List.find ?P (db_alerts db)")
    case None
    then have "filter ?P (db_alerts db) = []" by (simp add: find_None filter_empty_conv)
    with None show ?thesis by simp
  next
    case (Some a)
    then have a: "a \<in> set (db_alerts db)" "?P a" by (auto simp: find_split)
    obtain b where b: "latest ar_updated (filter ?P (db_alerts db)) = Some b"
      using a latest_None [of ar_updated "filter ?P (db_alerts db)"]
      by (auto simp: filter_empty_conv)
    then have "b \<in> set (db_alerts db)" "?P b" using latest_in by fastforce+
    with a have "b = a" using open_unique [OF alert_wf_constraints [OF assms]] by metis
    with b Some show ?thesis by simp
  qed
  then show ?thesis
    by (cases "List.find ?P (db_alerts db)") (simp_all add: GetOpenByFingerprint_def lookup_result_def)
qed

lemma find_open:
  assumes "alert_wf db" "a \<in> set (db_alerts db)" "is_open a" "ar_fingerprint a = fp"
  shows "List.find (\<lambda>r. ar_fingerprint r = fp \<and> is_open r) (db_alerts db) = Some a"
proof -
  obtain b where b: "List.find (\<lambda>r. ar_fingerprint r = fp \<and> is_open r) (db_alerts db) = Some b"
    using assms by (metis (mono_tags, lifting) find_None not_None_eq)
  then have "b \<in> set (db_alerts db)" "ar_fingerprint b = fp" "is_open b" by (auto simp: find_split)
  then show ?thesis
    using b assms open_unique [OF alert_wf_constraints [OF assms(1)]] by metis
qed

lemma find_number:
  assumes "alert_wf db" "a \<in> set (db_alerts db)" "is_open a" "ar_number a = n"
  shows "List.find (\<lambda>r. ar_number r = n \<and> is_open r) (db_alerts db) = Some a"
proof -
  obtain b where b: "List.find (\<lambda>r. ar_number r = n \<and> is_open r) (db_alerts db) = Some b"
    using assms by (metis (mono_tags, lifting) find_None not_None_eq)
  then have "b \<in> set (db_alerts db)" "ar_number b = n" by (auto simp: find_split)
  moreover have "inj_on ar_number (set (db_alerts db))"
    using alert_wf_constraints [OF assms(1)] by (simp add: alert_constraints_iff distinct_map)
  ultimately have "b = a" using assms by (metis inj_onD)
  with b show ?thesis by simp
qed

lemma filter_id_open:
  assumes "alert_wf db" "a \<in> set (db_alerts db)" "is_open a"
  shows "length (filter (\<lambda>r. ar_id r = ar_id a \<and> is_open r) (db_alerts db)) = 1"
proof -
  have "length (filter (\<lambda>r. ar_id r = ar_id a \<and> is_open r) (db_alerts db)) \<le> 1"
    using alert_wf_constraints [OF assms(1)] by (intro hits_le_one) (simp add: alert_constraints_iff)
  moreover have "a \<in> set (filter (\<lambda>r. ar_id r = ar_id a \<and> is_open r) (db_alerts db))"
    using assms by simp
  ultimately show ?thesis by (metis One_nat_def Suc_leI le_antisym length_pos_if_in_set)
qed

subsection \<open>Racing resolves\<close>

lemma resolve_stmt_open:
  assumes "alert_wf db" "a \<in> set (db_alerts db)" "is_open a" "\<not> fails 1" "\<not> fails 2"
  shows "resolve_stmt fails s now ev (ar_id a) db =
    (Inr 1, db\<lparr>db_alerts := map (\<lambda>r. if ar_id r = ar_id a \<and> is_open r then resolve_row s now r else r) (db_alerts db),
               db_events := db_events db @ [(ar_id a, ev)]\<rparr>)"
proof -
  let ?g = "\<lambda>r. if ar_id r = ar_id a \<and> is_open r then resolve_row s now r else r"
  have "map ar_id (map ?g (db_alerts db)) = map ar_id (db_alerts db)" by (simp add: row_simps)
  then have "ar_id ` set (map ?g (db_alerts db)) = ar_id ` set (db_alerts db)" by (metis set_map)
  then have "ar_id a \<in> ar_id ` set (map ?g (db_alerts db))" using assms(2) by simp
  then show ?thesis
    unfolding resolve_stmt_cases [where fails = fails, OF alert_wf_constraints [OF assms(1)] assms(4)] Let_def
      filter_id_open [OF assms(1-3)]
    using assms(5) by (simp add: insertAlertEvent_def)
qed

lemma resolve_stmt_closed:
  assumes "alert_wf db" "\<forall>r \<in> set (db_alerts db). ar_id r = ident \<longrightarrow> \<not> is_open r" "\<not> fails 1"
  shows "resolve_stmt fails s now ev ident db = (Inr 0, db)"
proof -
  have "filter (\<lambda>r. ar_id r = ident \<and> is_open r) (db_alerts db) = []"
    using assms(2) by (simp add: filter_empty_conv)
  then show ?thesis
    unfolding resolve_stmt_cases [where fails = fails, OF alert_wf_constraints [OF assms(1)] assms(3)] Let_def by simp
qed

lemma after_resolve_closed:
  assumes "r \<in> set (map (\<lambda>r. if ar_id r = i \<and> is_open r then resolve_row s now r else r) tab)" "ar_id r = i"
  shows "\<not> is_open r"
proof -
  obtain x where "r = (if ar_id x = i \<and> is_open x then resolve_row s now x else x)"
    using assms(1) unfolding set_map by blast
  with assms(2) show ?thesis by (cases "ar_id x = i \<and> is_open x") (auto simp: row_simps)
qed

subsection \<open>The cascade\<close>

lemma alert_ref_record: "alert_ref (re_alert (toAlertRecord db (a\<lparr>ar_status := s, ar_updated := t\<rparr>))) = alert_ref a"
  by (simp add: toAlertRecord_def buildAlertRecord_def alert_ref_def)

definition cascade_refs :: "cascade_result \<Rightarrow> (int \<times> string) multiset" where
  "cascade_refs res =
     mset (map (alert_ref \<circ> re_alert) (cr_resolved res)) + mset (cr_skipped res) + mset (cr_failed res)"

lemma cascade_partition:
  "cascade_refs (fst (cascade_loop fails env now actor shared as res db))
     = cascade_refs res + mset (map alert_ref as)"
proof (induction fails env now actor shared as res db rule: cascade_loop.induct)
  case (2 fails env now actor shared a as res db)
  obtain r db' where st: "resolve_stmt (fails (ar_id a)) False now (cascade_event now actor) (ar_id a)
      (env (ar_id a) db) = (r, db')" by force
  show ?case
  proof (cases "ar_status a = ''resolved'' \<or> shared (ar_id a)")
    case True
    then show ?thesis using 2(1) by (simp add: cascade_refs_def)
  next
    case no: False
    show ?thesis
    proof (cases r)
      case (Inl e)
      then show ?thesis using no st 2(2) [OF no] by (simp add: cascade_refs_def)
    next
      case (Inr k)
      then show ?thesis
        using no st 2(3,4,5) [OF no]
        by (simp add: cascade_refs_def alert_ref_record)
    qed
  qed
qed simp

lemma cascade_effect:
  assumes "alert_constraints (db_alerts db)"
  shows "db_alerts (snd (cascade_loop (\<lambda>_ _. False) (\<lambda>_ d. d) now actor shared as res db)) =
    map (\<lambda>r. if is_open r \<and> (\<exists>a \<in> set as. ar_id a = ar_id r \<and> ar_status a \<noteq> ''resolved'' \<and> \<not> shared (ar_id a))
             then resolve_row False now r else r) (db_alerts db)"
  using assms
proof (induction as arbitrary: res db)
  case Nil
  then show ?case by simp
next
  case (Cons a as)
  let ?sel = "\<lambda>as r. is_open r \<and> (\<exists>a \<in> set as. ar_id a = ar_id r \<and> ar_status a \<noteq> ''resolved'' \<and> \<not> shared (ar_id a))"
  let ?upd = "\<lambda>as tab. map (\<lambda>r. if ?sel as r then resolve_row False now r else r) tab"
  show ?case
  proof (cases "ar_status a = ''resolved'' \<or> shared (ar_id a)")
    case True
    then have "?sel (a # as) r \<longleftrightarrow> ?sel as r" for r by auto
    then show ?thesis using True Cons by (simp cong: if_cong)
  next
    case no: False
    let ?g = "\<lambda>r. if ar_id r = ar_id a \<and> is_open r then resolve_row False now r else r"
    obtain k db' where st: "resolve_stmt (\<lambda>_. False) False now (cascade_event now actor) (ar_id a) db = (Inr k, db')"
      and tab': "db_alerts db' = map ?g (db_alerts db)"
    proof (cases "filter (\<lambda>r. ar_id r = ar_id a \<and> is_open r) (db_alerts db) = []")
      case True
      then have "map ?g (db_alerts db) = db_alerts db"
        by (intro map_idI) (auto simp: filter_empty_conv)
      with True that show ?thesis
        by (simp add: resolve_stmt_cases [where fails = "\<lambda>_. False", OF Cons.prems])
    next
      case False
      with that show ?thesis
        by (simp add: resolve_stmt_cases [where fails = "\<lambda>_. False", OF Cons.prems] Let_def)
    qed
    have c': "alert_constraints (db_alerts db')"
      unfolding tab' using Cons.prems by (rule constraints_shrink) (auto simp: row_simps)
    have "?upd as (map ?g (db_alerts db)) = ?upd (a # as) (db_alerts db)"
      using no by (auto simp: row_simps)
    with Cons.IH [OF c'] no st tab' show ?thesis by simp
  qed
qed

subsection \<open>Properties\<close>

definition example_row :: alert_row where
  "example_row =
     \<lparr>ar_id = 1, ar_number = 7, ar_fingerprint = ''f1'', ar_status = ''firing'',
      ar_acknowledged = False, ar_silenced = False, ar_labels = [], ar_annotations = [],
      ar_values = [], ar_starts = 1, ar_ends = None, ar_generator = [], ar_created = 1,
      ar_updated = 1, ar_deleted = None\<rparr>"

definition example_db :: alert_db where
  "example_db = \<lparr>db_alerts = [example_row], db_events = [], db_targets = [], db_links = [(1, 1)]\<rparr>"

lemma example_row_fields:
  "ar_id example_row = 1" "ar_number example_row = 7" "ar_fingerprint example_row = ''f1''"
  "ar_status example_row = ''firing''" "ar_ends example_row = None" "is_open example_row"
  by (simp_all add: example_row_def is_open_def)

lemma example_db_wf: "alert_wf example_db"
  by (simp add: alert_wf_def example_db_def alert_constraints_def example_row_fields)



text \<open>Two users resolve the same alert at once, the second one's UPDATE arriving after the
  first one finished: both get success, the alert is resolved with the winner's end time, and
  exactly one ``resolved'' event is recorded, the winner's.\<close>

theorem racing_resolves_record_once:
  assumes wf: "alert_wf db" and a: "a \<in> set (db_alerts db)" "is_open a" "ar_number a = n"
    and winner: "\<And>d. env d = snd (ResolveAlertByNumber (\<lambda>_. False) (\<lambda>d. d) t1 n u1 d)"
  shows "\<exists>db'. ResolveAlertByNumber (\<lambda>_. False) env t2 n u2 db = (Inr (), db') \<and>
           db_events db' = db_events db @ [(ar_id a, AlertEventWithActor ''resolved'' t1 u1)] \<and>
           db_alerts db' = map (\<lambda>r. if ar_id r = ar_id a \<and> is_open r then resolve_row False t1 r else r)
             (db_alerts db)"
proof -
  let ?ev = "AlertEventWithActor ''resolved'' t1 u1"
  let ?tab = "map (\<lambda>r. if ar_id r = ar_id a \<and> is_open r then resolve_row False t1 r else r) (db_alerts db)"
  let ?db1 = "db\<lparr>db_alerts := ?tab, db_events := db_events db @ [(ar_id a, ?ev)]\<rparr>"
  note found = find_number [OF wf a]
  note st = resolve_stmt_open [where fails = "\<lambda>_. False" and s = False and now = t1 and ev = ?ev,
      OF wf a(1,2)]
  have one: "env db = ?db1"
    unfolding winner by (simp add: ResolveAlertByNumber_def found resolve_update_def st)
  have wf1: "alert_wf ?db1"
    using wf_resolve [OF wf, of "\<lambda>_. False" False t1 ?ev "ar_id a"] by (simp add: st)
  have "resolve_stmt (\<lambda>_. False) False t2 ev (ar_id a) ?db1 = (Inr 0, ?db1)" for ev
    by (rule resolve_stmt_closed [OF wf1]) (auto simp: row_simps)
  then have "ResolveAlertByNumber (\<lambda>_. False) env t2 n u2 db = (Inr (), ?db1)"
    by (simp add: ResolveAlertByNumber_def found one resolve_update_def)
  then show ?thesis by simp
qed

theorem racing_resolves_record_once_witness:
  "\<exists>db'. ResolveAlertByNumber (\<lambda>_. False)
       (\<lambda>d. snd (ResolveAlertByNumber (\<lambda>_. False) (\<lambda>d. d) 5 7 None d)) 6 7 None example_db = (Inr (), db') \<and>
     length (db_events db') = 1"
proof -
  have "example_row \<in> set (db_alerts example_db)" "db_events example_db = []"
    by (simp_all add: example_db_def)
  with racing_resolves_record_once [OF example_db_wf this(1) example_row_fields(6,2) refl, of 5 None 6 None]
  show ?thesis by auto
qed

text \<open>Closing an incident resolves exactly the alerts it must: an open alert linked to the
  incident is resolved unless it is also linked to another active incident, every other row is
  untouched, and the report names each linked alert exactly once.\<close>

theorem incident_cascade_exact:
  assumes wf: "alert_wf db"
    and run: "ResolveAlertsByIncident (\<lambda>_. False) (\<lambda>_ _. False) (\<lambda>_ d. d) incs now n ic actor db = (Inr res, db')"
  shows "db_alerts db' = map (\<lambda>r. if is_open r \<and> r \<in> set (linked_alerts incs n db) \<and> \<not> co_linked incs n db (ar_id r)
             then resolve_row False now r else r) (db_alerts db) \<and>
         cascade_refs res = mset (map alert_ref (linked_alerts incs n db))"
proof
  let ?l = "linked_alerts incs n db"
  let ?res = "\<lparr>cr_resolved = [], cr_skipped = [], cr_failed = []\<rparr>"
  let ?c = "cascade_loop (\<lambda>_ _. False) (\<lambda>_ d. d) now
      (case ic of None \<Rightarrow> actor | Some c \<Rightarrow> Some c) (co_linked incs n db) ?l ?res db"
  from run have res: "res = fst ?c" and db': "db' = snd ?c"
    by (auto simp: ResolveAlertsByIncident_def Let_def split: prod.splits)
  show "cascade_refs res = mset (map alert_ref ?l)"
    unfolding res cascade_partition by (simp add: cascade_refs_def)
  have sub: "set ?l \<subseteq> set (db_alerts db)" by (auto simp: linked_alerts_def)
  have "(\<exists>a \<in> set ?l. ar_id a = ar_id r \<and> ar_status a \<noteq> ''resolved'' \<and> \<not> co_linked incs n db (ar_id a))
      \<longleftrightarrow> r \<in> set ?l \<and> \<not> co_linked incs n db (ar_id r)" if "r \<in> set (db_alerts db)" "is_open r" for r
    using that sub id_unique [OF alert_wf_constraints [OF wf]] is_openD [OF that(2)] by blast
  then show "db_alerts db' = map (\<lambda>r. if is_open r \<and> r \<in> set ?l \<and> \<not> co_linked incs n db (ar_id r)
      then resolve_row False now r else r) (db_alerts db)"
    unfolding db' cascade_effect [OF alert_wf_constraints [OF wf]]
    by (intro map_cong [OF refl] if_cong) auto
qed

theorem incident_cascade_exact_witness:
  "\<exists>res db'. ResolveAlertsByIncident (\<lambda>_. False) (\<lambda>_ _. False) (\<lambda>_ d. d) [example_incident] 9 7 None None example_db
       = (Inr res, db') \<and> map ar_status (db_alerts db') = [''resolved''] \<and> cascade_refs res = {#(7, ''f1'')#}"
proof -
  obtain res db' where run: "ResolveAlertsByIncident (\<lambda>_. False) (\<lambda>_ _. False) (\<lambda>_ d. d)
      [example_incident] 9 7 None None example_db = (Inr res, db')"
    by (cases "cascade_loop (\<lambda>_ _. False) (\<lambda>_ d. d) 9 None (co_linked [example_incident] 7 example_db)
        (linked_alerts [example_incident] 7 example_db)
        \<lparr>cr_resolved = [], cr_skipped = [], cr_failed = []\<rparr> example_db")
      (simp add: ResolveAlertsByIncident_def Let_def)
  have l: "linked_alerts [example_incident] 7 example_db = [example_row]"
    by (simp add: linked_alerts_def example_db_def example_incident_def example_row_def)
  have "\<not> co_linked [example_incident] 7 example_db (ar_id example_row)"
    by (simp add: co_linked_def example_incident_def)
  with incident_cascade_exact [OF example_db_wf run] run l show ?thesis
    by (simp add: example_db_def example_row_fields row_simps alert_ref_def)
qed

end
