(* ===== verification/Ingest.thy ===== *)
theory Ingest
  imports Alert_Invariant Routing
begin

text \<open>
  Alert ingestion (\<^verbatim>\<open>apps/backend/webhook/receiver.go\<close>, \<^verbatim>\<open>webhook/delivery_posts.go\<close>): the HTTP
  handler, the processing of a payload alert by alert, and what is stored, posted, published and
  handed to the correlator on the way.

  The receiver calls the alert store through an interface (\<^verbatim>\<open>store.Store\<close>); here it is the record
  \<open>store_api\<close> of its operations, its laws are the locale \<open>alert_store_contract\<close>, and the client
  lemmas are proved once under those laws. \<open>pg_store\<close>, built from the operations of
  \<open>Alert_Store\<close> with an oracle for failing statements, clock and identifiers, is the provider.

  The receiver's collaborators are the fields of \<open>receiver\<close>: the routing function, the answer of
  the maintenance-window store, chat delivery, and which optional parts are configured. The
  deduplication cache is an arbitrary function of the position in the payload. What the receiver
  does beside the store is the list of effects.
\<close>

subsection \<open>Interfaces\<close>

record 's store_api =
  so_create :: "alert_record \<Rightarrow> 's \<Rightarrow> (alert_error + int) \<times> 's"
  so_get :: "string \<Rightarrow> 's \<Rightarrow> (alert_error + alert_record option) \<times> 's"
  so_get_open :: "string \<Rightarrow> 's \<Rightarrow> (alert_error + alert_record option) \<times> 's"
  so_update_status :: "string \<Rightarrow> string \<Rightarrow> 's \<Rightarrow> (alert_error + unit) \<times> 's"
  so_silence :: "string \<Rightarrow> 's \<Rightarrow> (alert_error + unit) \<times> 's"
  so_targets :: "string \<Rightarrow> delivery_target list \<Rightarrow> 's \<Rightarrow> (alert_error + unit) \<times> 's"

record receiver =
  rv_route :: "alert \<Rightarrow> route_result"
  rv_windows :: "strmap list option" \<comment> \<open>label matchers; none without a store or on its error\<close>
  rv_send :: "destination \<Rightarrow> alert \<Rightarrow> (string \<times> string) option" \<comment> \<open>post id, channel\<close>
  rv_update_post :: "delivery_target \<Rightarrow> alert \<Rightarrow> bool" \<comment> \<open>whether it succeeded\<close>
  rv_parse :: "string \<Rightarrow> instant" \<comment> \<open>RFC 3339, the zero time when malformed\<close>
  rv_dedup :: bool
  rv_events :: bool
  rv_correlator :: bool
  rv_audit :: bool
  rv_investigations :: bool

datatype effect =
    EPost destination string
  | EUpdatePost delivery_target string
  | EPublish string alert_record
  | ECorrelate correlated_alert
  | ETrack string
  | EUntrack string
  | EAudit string string
  | EStoreFailed string
  | EAutoResolve int string

subsection \<open>Helpers\<close>

definition matchLabels :: "strmap \<Rightarrow> strmap \<Rightarrow> bool" where
  "matchLabels matchers labels =
     (if matchers = [] then True else list_all (\<lambda>(k, v). mget labels k = v) matchers)"

definition isSuppressed :: "receiver \<Rightarrow> strmap \<Rightarrow> bool" where
  "isSuppressed rv labels =
     (case rv_windows rv of
        None \<Rightarrow> False
      | Some windows \<Rightarrow> list_ex (\<lambda>w. matchLabels w labels) windows)"

fun deliverToDestinations :: "receiver \<Rightarrow> alert \<Rightarrow> destination list
     \<Rightarrow> delivery_target list \<times> effect list" where
  "deliverToDestinations rv a [] = ([], [])"
| "deliverToDestinations rv a (dest # ds) =
     (let (ts, es) = deliverToDestinations rv a ds
      in case rv_send rv dest a of
           None \<Rightarrow> (ts, es)
         | Some (postID, resolved) \<Rightarrow>
             (\<lparr>dt_provider = d_Provider dest,
               dt_channel = (if resolved = [] then d_Channel dest else resolved),
               dt_channelname = d_Channel dest, dt_postid = postID\<rparr> # ts,
              EPost dest (al_Fingerprint a) # es))"

definition triggerCorrelator :: "receiver \<Rightarrow> alert \<Rightarrow> int \<Rightarrow> effect list" where
  "triggerCorrelator rv a n =
     (if \<not> rv_correlator rv then []
      else [ECorrelate \<lparr>ca_Fingerprint = al_Fingerprint a, ca_AlertNumber = n,
              ca_Labels = al_Labels a, ca_Annotations = al_Annotations a,
              ca_Status = al_Status a, ca_StartsAt = al_StartsAt a,
              ca_Values = number_values (al_Values a), ca_GeneratorURL = al_GeneratorURL a\<rparr>])"

definition new_record :: "receiver \<Rightarrow> alert \<Rightarrow> string \<Rightarrow> bool \<Rightarrow> alert_record" where
  "new_record rv a status silenced =
     \<lparr>re_alert = \<lparr>ar_id = 0, ar_number = 0, ar_fingerprint = al_Fingerprint a,
        ar_status = status, ar_acknowledged = False, ar_silenced = silenced,
        ar_labels = al_Labels a, ar_annotations = al_Annotations a, ar_values = al_Values a,
        ar_starts = rv_parse rv (al_StartsAt a), ar_ends = None,
        ar_generator = al_GeneratorURL a, ar_created = zero_time, ar_updated = zero_time,
        ar_deleted = None\<rparr>,
      re_events = [], re_targets = [], re_initial = None\<rparr>"

definition with_number :: "int \<Rightarrow> alert_record \<Rightarrow> alert_record" where
  "with_number n r = r\<lparr>re_alert := (re_alert r)\<lparr>ar_number := n\<rparr>\<rparr>"

definition track :: "receiver \<Rightarrow> alert \<Rightarrow> effect list" where
  "track rv a = (if rv_dedup rv then [ETrack (al_Fingerprint a)] else [])"

definition publish :: "receiver \<Rightarrow> string \<Rightarrow> alert_record \<Rightarrow> effect list" where
  "publish rv action r = (if rv_events rv then [EPublish action r] else [])"

definition audit :: "receiver \<Rightarrow> string \<Rightarrow> alert \<Rightarrow> effect list" where
  "audit rv who a = (if rv_audit rv then [EAudit who (al_Fingerprint a)] else [])"

subsection \<open>A firing alert\<close>

definition handleFiring ::
    "receiver \<Rightarrow> 's store_api \<Rightarrow> alert \<Rightarrow> alert_record option \<Rightarrow> 's \<Rightarrow> effect list \<times> 's" where
  "handleFiring rv st a existing s =
     (let fp = al_Fingerprint a in
      if isSuppressed rv (al_Labels a) then
        (if existing \<noteq> None then ([], s)
         else
           let record = new_record rv a ''firing'' True
           in case so_create st record s of
                (Inl _, s1) \<Rightarrow> ([EStoreFailed fp], s1)
              | (Inr _, s1) \<Rightarrow> (track rv a @ publish rv ''alert_created'' record, s1))
      else
        let result = rv_route rv a in
        if existing \<noteq> None then ([], s)
        else
          let record = new_record rv a ''firing'' (rr_Silenced result) in
          if rr_Silenced result then
            (case so_create st record s of
               (Inl _, s1) \<Rightarrow> ([EStoreFailed fp], s1)
             | (Inr n, s1) \<Rightarrow> (track rv a @ publish rv ''alert_created'' (with_number n record), s1))
          else if rr_Destinations result = [] then
            (case so_create st record s of
               (Inl _, s1) \<Rightarrow> (EStoreFailed fp # triggerCorrelator rv a 0, s1)
             | (Inr n, s1) \<Rightarrow>
                 (track rv a @ publish rv ''alert_created'' (with_number n record) @
                  triggerCorrelator rv a n, s1))
          else
            case so_create st record s of
              (Inl _, s1) \<Rightarrow> (EStoreFailed fp # triggerCorrelator rv a 0, s1)
            | (Inr n, s1) \<Rightarrow>
                let (targets, posts) = deliverToDestinations rv a (rr_Destinations result);
                    (_, s2) = so_targets st fp targets s1
                in (track rv a @ posts @
                    publish rv ''alert_created'' ((with_number n record)\<lparr>re_targets := targets\<rparr>) @
                    triggerCorrelator rv a n, s2))"

subsection \<open>A resolved alert\<close>

text \<open>\<^verbatim>\<open>UpdateChatPostsForAlert\<close>: every target is tried; the error is the first one's.\<close>

definition updateAllAlertTargets :: "receiver \<Rightarrow> alert_record \<Rightarrow> alert \<Rightarrow> bool \<times> effect list" where
  "updateAllAlertTargets rv existing a =
     (list_all (\<lambda>t. rv_update_post rv t a) (re_targets existing),
      map (\<lambda>t. EUpdatePost t (al_Fingerprint a)) (re_targets existing))"

text \<open>What follows for the investigation is the lifecycle service's work, given the alert number.\<close>

definition handleAutoResolvedInvestigation :: "receiver \<Rightarrow> alert \<Rightarrow> int \<Rightarrow> effect list" where
  "handleAutoResolvedInvestigation rv a n =
     (if \<not> rv_investigations rv \<or> n = 0 then [] else [EAutoResolve n (al_Fingerprint a)])"

definition handleResolved ::
    "receiver \<Rightarrow> 's store_api \<Rightarrow> alert \<Rightarrow> alert_record option \<Rightarrow> 's \<Rightarrow> effect list \<times> 's" where
  "handleResolved rv st a existing s =
     (let fp = al_Fingerprint a;
          result = rv_route rv a;
          suppressed = isSuppressed rv (al_Labels a)
      in case existing of
           None \<Rightarrow>
             (case so_get st fp s of
                (Inl _, s1) \<Rightarrow> ([], s1)
              | (Inr newest, s1) \<Rightarrow>
                  if (case newest of None \<Rightarrow> False
                      | Some l \<Rightarrow> ar_status (re_alert l) = ''resolved'') then ([], s1)
                  else
                    let record = new_record rv a ''resolved'' (rr_Silenced result \<or> suppressed)
                    in case so_create st record s1 of
                         (Inl _, s2) \<Rightarrow> ([EStoreFailed fp], s2)
                       | (Inr _, s2) \<Rightarrow>
                           if rr_Silenced result \<or> suppressed then
                             (publish rv ''alert_created'' record, s2)
                           else if rr_Destinations result = [] then ([], s2)
                           else
                             let (targets, posts) = deliverToDestinations rv a (rr_Destinations result)
                             in if targets = [] then (posts, s2)
                                else
                                  let (_, s3) = so_targets st fp targets s2
                                  in (posts @ publish rv ''alert_created''
                                        (record\<lparr>re_targets := targets\<rparr>), s3))
         | Some ex \<Rightarrow>
             if ar_status (re_alert ex) = ''resolved'' then ([], s)
             else if rr_Silenced result then
               (case so_silence st fp s of
                  (Inl _, s1) \<Rightarrow>
                    (EStoreFailed fp #
                     handleAutoResolvedInvestigation rv a (ar_number (re_alert ex)), s1)
                | (Inr _, s1) \<Rightarrow>
                    (audit rv ''system'' a @ (if rv_dedup rv then [EUntrack fp] else []) @
                     publish rv ''alert_updated''
                       (ex\<lparr>re_alert := (re_alert ex)\<lparr>ar_status := ''resolved'', ar_silenced := True\<rparr>\<rparr>) @
                     handleAutoResolvedInvestigation rv a (ar_number (re_alert ex)), s1))
             else
               (case so_update_status st fp ''resolved'' s of
                  (Inl _, s1) \<Rightarrow> ([EStoreFailed fp], s1)
                | (Inr _, s1) \<Rightarrow>
                    let (ok, posts) = updateAllAlertTargets rv ex a;
                        base = audit rv ''grafana:monitoring'' a @
                               (if rv_dedup rv then [EUntrack fp] else []) @ posts
                    in if \<not> ok then (base, s1)
                       else
                         (base @ publish rv ''alert_updated''
                            (ex\<lparr>re_alert := (re_alert ex)\<lparr>ar_status := ''resolved''\<rparr>\<rparr>) @
                          handleAutoResolvedInvestigation rv a (ar_number (re_alert ex)), s1)))"

subsection \<open>A payload\<close>

text \<open>One iteration of the loop of \<^verbatim>\<open>ProcessAlerts\<close>; \<open>dup\<close> is the cache's answer.\<close>

definition process_alert ::
    "receiver \<Rightarrow> 's store_api \<Rightarrow> bool \<Rightarrow> alert \<Rightarrow> 's \<Rightarrow> alert_error option \<times> effect list \<times> 's" where
  "process_alert rv st dup a s =
     (let fp = al_Fingerprint a;
          go = (\<lambda>s. case so_get_open st fp s of
                  (Inl e, s1) \<Rightarrow> (Some e, [], s1)
                | (Inr existing, s1) \<Rightarrow>
                    let (es, s2) = (if al_Status a = ''resolved'' then handleResolved rv st a existing s1
                                    else handleFiring rv st a existing s1)
                    in (None, es, s2))
      in if rv_dedup rv \<and> al_Status a \<noteq> ''resolved'' \<and> dup then
           (case so_get_open st fp s of
              (Inl e, s1) \<Rightarrow> (Some e, [], s1)
            | (Inr (Some _), s1) \<Rightarrow> (None, [], s1)
            | (Inr None, s1) \<Rightarrow> go s1)
         else go s)"

fun ProcessAlerts ::
    "receiver \<Rightarrow> 's store_api \<Rightarrow> (nat \<Rightarrow> bool) \<Rightarrow> alert list \<Rightarrow> 's
     \<Rightarrow> alert_error option \<times> effect list \<times> 's" where
  "ProcessAlerts rv st dup [] s = (None, [], s)"
| "ProcessAlerts rv st dup (a # as) s =
     (let (e1, es1, s1) = process_alert rv st (dup 0) a s;
          (e2, es2, s2) = ProcessAlerts rv st (\<lambda>i. dup (Suc i)) as s1
      in (case e1 of None \<Rightarrow> e2 | Some e \<Rightarrow> Some e, es1 @ es2, s2))"

subsection \<open>The HTTP handler\<close>

record http_request =
  rq_method :: string
  rq_authorization :: string
  rq_query_token :: string
  rq_remote_addr :: string
  rq_body :: "string option" \<comment> \<open>none when reading it fails or it exceeds the limit\<close>

text \<open>\<^verbatim>\<open>strings.LastIndex\<close> of a byte, and \<^verbatim>\<open>strings.Trim\<close> with a cutset.\<close>

definition before_last :: "char \<Rightarrow> string \<Rightarrow> string" where
  "before_last c s = (if c \<in> set s then rev (tl (dropWhile (\<lambda>x. x \<noteq> c) (rev s))) else s)"

definition go_trim :: "char list \<Rightarrow> string \<Rightarrow> string" where
  "go_trim cs s = rev (dropWhile (\<lambda>c. c \<in> set cs) (rev (dropWhile (\<lambda>c. c \<in> set cs) s)))"

definition remoteAddrHost :: "http_request \<Rightarrow> string" where
  "remoteAddrHost req = go_trim ''[]'' (before_last (CHR '':'') (rq_remote_addr req))"

definition webhookTokenFromRequest :: "bool \<Rightarrow> http_request \<Rightarrow> string" where
  "webhookTokenFromRequest allowQueryToken req =
     (let token = go_trim_space (rq_authorization req)
      in if token \<noteq> [] then
           (if length token > 7 \<and> go_to_lower (take 7 token) = ''bearer ''
            then go_trim_space (drop 7 token)
            else token)
         else if allowQueryToken then go_trim_space (rq_query_token req)
         else [])"

datatype http_response =
    MethodNotAllowed | RateLimited | Unauthorized | InternalError | BadRequest | Queued | OkStatus

text \<open>\<open>allow\<close>: the rate limiter by key (true without one); \<open>validate\<close>: the token store;
  \<open>enqueue\<close> / \<open>publish_direct\<close>: none when not configured, else whether it succeeded.\<close>

definition handleWebhook ::
    "receiver \<Rightarrow> 's store_api \<Rightarrow> (string \<Rightarrow> bool) \<Rightarrow> (string \<Rightarrow> bool option) \<Rightarrow> bool
     \<Rightarrow> (string \<Rightarrow> alert list option) \<Rightarrow> (alert list \<Rightarrow> bool) option \<Rightarrow> (alert list \<Rightarrow> bool) option
     \<Rightarrow> (nat \<Rightarrow> bool) \<Rightarrow> http_request \<Rightarrow> 's \<Rightarrow> http_response \<times> effect list \<times> 's" where
  "handleWebhook rv st allow validate allowQuery decode enqueue publish_direct dup req s =
     (if rq_method req \<noteq> ''POST'' then (MethodNotAllowed, [], s)
      else if \<not> allow (remoteAddrHost req) then (RateLimited, [], s)
      else
        let token = webhookTokenFromRequest allowQuery req in
        if token = [] then (Unauthorized, [], s)
        else case validate token of
          None \<Rightarrow> (InternalError, [], s)
        | Some False \<Rightarrow> (Unauthorized, [], s)
        | Some True \<Rightarrow>
            (case rq_body req of
               None \<Rightarrow> (BadRequest, [], s)
             | Some body \<Rightarrow>
                 (case decode body of
                    None \<Rightarrow> (BadRequest, [], s)
                  | Some alerts \<Rightarrow>
                      let queued =
                            (case publish_direct of
                               None \<Rightarrow> False
                             | Some direct \<Rightarrow>
                                 (case enqueue of None \<Rightarrow> False | Some enq \<Rightarrow> enq alerts)
                                 \<or> direct alerts)
                      in if queued then (Queued, [], s)
                         else
                           let (err, es, s') = ProcessAlerts rv st dup alerts s
                           in (if err = None then OkStatus else InternalError, es, s'))))"

subsection \<open>The contract of the alert store, and what the receiver makes of it\<close>

text \<open>\<open>opens s fp\<close>: an open alert with this fingerprint; \<open>closed s n\<close>: alert number \<open>n\<close> is resolved.\<close>

locale alert_store_contract =
  fixes st :: "'s store_api"
    and inv :: "'s \<Rightarrow> bool"
    and opens :: "'s \<Rightarrow> string \<Rightarrow> bool"
    and closed :: "'s \<Rightarrow> int \<Rightarrow> bool"
  assumes get_open_law: "inv s \<Longrightarrow> so_get_open st fp s = (res, s') \<Longrightarrow>
      inv s' \<and> opens s' = opens s \<and> closed s' = closed s \<and>
      (res = Inr None \<longrightarrow> \<not> opens s fp) \<and>
      (\<forall>r. res = Inr (Some r) \<longrightarrow> opens s fp \<and> ar_status (re_alert r) \<noteq> ''resolved'')"
    and get_law: "inv s \<Longrightarrow> so_get st fp s = (res, s') \<Longrightarrow>
      inv s' \<and> opens s' = opens s \<and> closed s' = closed s"
    and create_law: "inv s \<Longrightarrow> ar_ends (re_alert r) = None \<Longrightarrow> so_create st r s = (Inr n, s') \<Longrightarrow>
      inv s' \<and> (\<forall>m. closed s m \<longrightarrow> closed s' m) \<and>
      opens s' = (if ar_status (re_alert r) = ''resolved'' then opens s
                  else (opens s)(ar_fingerprint (re_alert r) := True))"
    and create_err: "inv s \<Longrightarrow> so_create st r s = (Inl e, s') \<Longrightarrow>
      inv s' \<and> opens s' = opens s \<and> closed s' = closed s"
    and resolve_law: "inv s \<Longrightarrow> so_update_status st fp ''resolved'' s = (Inr u, s') \<Longrightarrow>
      inv s' \<and> (\<forall>m. closed s m \<longrightarrow> closed s' m) \<and> opens s' = (opens s)(fp := False)"
    and resolve_err: "inv s \<Longrightarrow> so_update_status st fp ''resolved'' s = (Inl e, s') \<Longrightarrow>
      inv s' \<and> opens s' = opens s \<and> closed s' = closed s"
    and silence_law: "inv s \<Longrightarrow> so_silence st fp s = (Inr u, s') \<Longrightarrow>
      inv s' \<and> (\<forall>m. closed s m \<longrightarrow> closed s' m) \<and> opens s' = (opens s)(fp := False)"
    and silence_err: "inv s \<Longrightarrow> so_silence st fp s = (Inl e, s') \<Longrightarrow>
      inv s' \<and> opens s' = opens s \<and> closed s' = closed s"
    and targets_law: "inv s \<Longrightarrow> so_targets st fp ts s = (tres, s') \<Longrightarrow>
      inv s' \<and> opens s' = opens s \<and> closed s' = closed s"
begin

text \<open>What one step may do to the view: \<open>opened\<close> tells whether it may open \<open>fp\<close>.\<close>

definition steps_to :: "bool \<Rightarrow> string \<Rightarrow> 's \<Rightarrow> 's \<Rightarrow> bool" where
  "steps_to firing fp s s' \<longleftrightarrow>
     inv s' \<and> (\<forall>m. closed s m \<longrightarrow> closed s' m) \<and> (\<forall>g. g \<noteq> fp \<longrightarrow> opens s' g = opens s g) \<and>
     (if firing then opens s fp \<longrightarrow> opens s' fp else opens s' fp \<longrightarrow> opens s fp)"

lemma steps_to_same: "inv s' \<and> opens s' = opens s \<and> closed s' = closed s \<Longrightarrow> steps_to f fp s s'"
  by (simp add: steps_to_def)

lemma steps_to_trans: "steps_to f fp s s1 \<Longrightarrow> steps_to f fp s1 s2 \<Longrightarrow> steps_to f fp s s2"
  by (auto simp: steps_to_def split: if_splits)

lemma new_record_fields [simp]:
  "ar_status (re_alert (new_record rv a stt b)) = stt"
  "ar_fingerprint (re_alert (new_record rv a stt b)) = al_Fingerprint a"
  "ar_ends (re_alert (new_record rv a stt b)) = None"
  by (simp_all add: new_record_def)

lemma create_firing:
  assumes "inv s" "so_create st (new_record rv a ''firing'' b) s = (Inr n, s')"
  shows "steps_to True (al_Fingerprint a) s s' \<and> opens s' (al_Fingerprint a)"
  using create_law [OF assms(1) _ assms(2)] by (simp add: steps_to_def)

lemma create_failed:
  assumes "inv s" "so_create st r s = (Inl e, s')"
  shows "steps_to f fp s s'"
  using create_err [OF assms] by (rule steps_to_same)

lemma targets_step:
  assumes "inv s" "so_targets st fp ts s = (res, s')"
  shows "steps_to f g s s' \<and> opens s' = opens s"
  using targets_law [OF assms] steps_to_same by blast

lemma handleFiring_step:
  assumes "inv s" "handleFiring rv st a existing s = (es, s')"
  shows "steps_to True (al_Fingerprint a) s s' \<and>
         (existing = None \<longrightarrow> EStoreFailed (al_Fingerprint a) \<notin> set es \<longrightarrow> opens s' (al_Fingerprint a))"
proof (cases "existing \<noteq> None")
  case True
  with assms show ?thesis
    by (auto simp: handleFiring_def Let_def steps_to_def split: if_splits)
next
  case False
  obtain res s1 where c: "so_create st (new_record rv a ''firing''
      (if isSuppressed rv (al_Labels a) then True else rr_Silenced (rv_route rv a))) s = (res, s1)" by force
  show ?thesis
  proof (cases res)
    case (Inl e)
    then have "s' = s1 \<and> EStoreFailed (al_Fingerprint a) \<in> set es"
      using c assms(2) False
      by (auto simp: handleFiring_def Let_def split: if_splits)
    then show ?thesis using create_failed [OF assms(1)] c Inl by blast
  next
    case (Inr n)
    have op: "steps_to True (al_Fingerprint a) s s1 \<and> opens s1 (al_Fingerprint a)"
      using create_firing [OF assms(1)] c Inr by blast
    have "s' = s1 \<or> (\<exists>ts r. so_targets st (al_Fingerprint a) ts s1 = (r, s'))"
      using c Inr assms(2) False
      by (auto simp: handleFiring_def Let_def split: if_splits prod.splits)
    then show ?thesis
    proof
      assume "\<exists>ts r. so_targets st (al_Fingerprint a) ts s1 = (r, s')"
      moreover have "inv s1" using op by (simp add: steps_to_def)
      ultimately have "steps_to True (al_Fingerprint a) s1 s' \<and> opens s' = opens s1"
        using targets_step by blast
      with op show ?thesis using steps_to_trans by metis
    qed (use op in simp)
  qed
qed

lemma resolve_step:
  assumes "inv s"
    and "so_update_status st fp ''resolved'' s = (Inr u, s') \<or> so_silence st fp s = (Inr u, s')"
  shows "steps_to False fp s s' \<and> \<not> opens s' fp"
  using assms(2) resolve_law [OF assms(1)] silence_law [OF assms(1)] by (fastforce simp: steps_to_def)

lemma create_resolved:
  assumes "inv s" "so_create st (new_record rv a ''resolved'' b) s = (Inr n, s')"
  shows "steps_to f (al_Fingerprint a) s s' \<and> opens s' = opens s"
  using create_law [OF assms(1) _ assms(2)] by (simp add: steps_to_def)

lemma handleResolved_none:
  assumes "inv s" "handleResolved rv st a None s = (es, s')"
  shows "steps_to False (al_Fingerprint a) s s' \<and> opens s' = opens s"
proof -
  obtain res s1 where g: "so_get st (al_Fingerprint a) s = (res, s1)" by force
  with get_law [OF assms(1)] have s1: "inv s1" "opens s1 = opens s" "steps_to False (al_Fingerprint a) s s1"
    using steps_to_same by blast+
  obtain r2 s2 where c: "so_create st (new_record rv a ''resolved''
      (rr_Silenced (rv_route rv a) \<or> isSuppressed rv (al_Labels a))) s1 = (r2, s2)" by force
  have s2: "steps_to False (al_Fingerprint a) s1 s2 \<and> opens s2 = opens s1"
  proof (cases r2)
    case (Inl e)
    then show ?thesis using create_err [OF s1(1)] c steps_to_same by blast
  next
    case (Inr n)
    then show ?thesis using create_resolved [OF s1(1)] c by blast
  qed
  have "s' = s1 \<or> s' = s2 \<or> (\<exists>ts r. so_targets st (al_Fingerprint a) ts s2 = (r, s'))"
    using g c assms(2)
    by (auto simp: handleResolved_def Let_def split: sum.splits if_splits prod.splits)
  moreover have "inv s2" using s2 by (simp add: steps_to_def)
  ultimately show ?thesis
    using s1 s2 targets_step steps_to_trans by metis
qed

lemma handleResolved_some:
  assumes "inv s" "handleResolved rv st a (Some ex) s = (es, s')"
    and "ar_status (re_alert ex) \<noteq> ''resolved''"
  shows "steps_to False (al_Fingerprint a) s s' \<and>
    (EStoreFailed (al_Fingerprint a) \<notin> set es \<longrightarrow> \<not> opens s' (al_Fingerprint a))"
proof -
  let ?fp = "al_Fingerprint a"
  obtain res s1 where c: "(if rr_Silenced (rv_route rv a) then so_silence st ?fp s
      else so_update_status st ?fp ''resolved'' s) = (res, s1)" by force
  show ?thesis
  proof (cases res)
    case (Inl e)
    then have "s' = s1 \<and> EStoreFailed ?fp \<in> set es"
      using c assms(2,3) by (auto simp: handleResolved_def Let_def split: if_splits)
    moreover have "steps_to False ?fp s s1"
      using c Inl silence_err [OF assms(1)] resolve_err [OF assms(1)] steps_to_same
      by (metis (full_types))
    ultimately show ?thesis by blast
  next
    case (Inr u)
    then have "s' = s1"
      using c assms(2,3) by (auto simp: handleResolved_def Let_def split: if_splits prod.splits)
    moreover have "steps_to False ?fp s s1 \<and> \<not> opens s1 ?fp"
      using c Inr resolve_step [OF assms(1)] by (metis (full_types))
    ultimately show ?thesis by blast
  qed
qed

lemma process_alert_step:
  assumes "inv s" "process_alert rv st dup a s = (err, es, s')"
  shows "steps_to (al_Status a \<noteq> ''resolved'') (al_Fingerprint a) s s' \<and>
    (err = None \<and> EStoreFailed (al_Fingerprint a) \<notin> set es \<longrightarrow>
       opens s' (al_Fingerprint a) = (al_Status a \<noteq> ''resolved''))"
proof -
  let ?fp = "al_Fingerprint a" and ?fire = "al_Status a \<noteq> ''resolved''"
  define go where "go = (\<lambda>s. case so_get_open st ?fp s of
      (Inl e, s1) \<Rightarrow> (Some e, [], s1)
    | (Inr existing, s1) \<Rightarrow>
        let (es, s2) = (if al_Status a = ''resolved'' then handleResolved rv st a existing s1
                        else handleFiring rv st a existing s1)
        in (None, es, s2))"
  have go: "steps_to ?fire ?fp s s' \<and>
      (err = None \<and> EStoreFailed ?fp \<notin> set es \<longrightarrow> opens s' ?fp = ?fire)"
    if "inv s" "go s = (err, es, s')" for s
  proof -
    obtain res s1 where g: "so_get_open st ?fp s = (res, s1)" by force
    note law = get_open_law [OF that(1) g]
    then have st1: "steps_to ?fire ?fp s s1" "inv s1" using steps_to_same by blast+
    show ?thesis
    proof (cases res)
      case (Inl e)
      with g that(2) have "err = Some e" "s' = s1" by (simp_all add: go_def)
      with st1(1) show ?thesis by simp
    next
      case (Inr existing)
      obtain es2 s2 where h: "(if al_Status a = ''resolved'' then handleResolved rv st a existing s1
          else handleFiring rv st a existing s1) = (es2, s2)" by force
      with g Inr that(2) have eq: "err = None" "es = es2" "s' = s2" by (simp_all add: go_def)
      show ?thesis
      proof (cases ?fire)
        case True
        with h have f: "handleFiring rv st a existing s1 = (es2, s2)" by simp
        note fire = handleFiring_step [OF st1(2) f]
        have "steps_to True ?fp s s2"
          using steps_to_trans [of True ?fp s s1 s2] st1(1) fire True by simp
        moreover have "opens s2 ?fp" if "EStoreFailed ?fp \<notin> set es2"
        proof (cases existing)
          case None
          with fire that show ?thesis by simp
        next
          case (Some r)
          with law Inr have "opens s1 ?fp" by simp
          with fire show ?thesis by (simp add: steps_to_def)
        qed
        ultimately show ?thesis using True eq by simp
      next
        case False
        with h have r: "handleResolved rv st a existing s1 = (es2, s2)" by simp
        show ?thesis
        proof (cases existing)
          case None
          with handleResolved_none [OF st1(2)] r law Inr have
            "steps_to False ?fp s1 s2 \<and> \<not> opens s2 ?fp" by simp
          with st1(1) False eq show ?thesis using steps_to_trans [of False ?fp s s1 s2] by simp
        next
          case (Some ex)
          with law Inr have "ar_status (re_alert ex) \<noteq> ''resolved''" by simp
          from handleResolved_some [OF st1(2) r [unfolded Some] this] st1(1) False eq show ?thesis
            using steps_to_trans [of False ?fp s s1 s2] by simp
        qed
      qed
    qed
  qed
  have p: "process_alert rv st dup a s = (if rv_dedup rv \<and> ?fire \<and> dup then
           (case so_get_open st ?fp s of
              (Inl e, s1) \<Rightarrow> (Some e, [], s1)
            | (Inr (Some _), s1) \<Rightarrow> (None, [], s1)
            | (Inr None, s1) \<Rightarrow> go s1)
         else go s)"
    unfolding process_alert_def Let_def go_def ..
  show ?thesis
  proof (cases "rv_dedup rv \<and> ?fire \<and> dup")
    case True
    obtain res s1 where g: "so_get_open st ?fp s = (res, s1)" by force
    note law = get_open_law [OF assms(1) g]
    then have st1: "steps_to ?fire ?fp s s1" "inv s1" using steps_to_same by blast+
    consider e where "res = Inl e" | "res = Inr None" | r where "res = Inr (Some r)"
      by (metis not_None_eq old.sum.exhaust)
    then show ?thesis
    proof cases
      case 1
      with True g p assms(2) st1 show ?thesis by auto
    next
      case 2
      then have "go s1 = (err, es, s')" using True g p assms(2) by simp
      from go [OF st1(2) this] st1(1) show ?thesis using steps_to_trans by blast
    next
      case 3
      with True g p assms(2) st1 law show ?thesis by auto
    qed
  next
    case False
    with p assms(2) have "go s = (err, es, s')" by auto
    from go [OF assms(1) this] show ?thesis .
  qed
qed

lemma ProcessAlerts_step:
  assumes "inv s" "ProcessAlerts rv st dup as s = (err, es, s')"
  shows "inv s' \<and> (\<forall>m. closed s m \<longrightarrow> closed s' m) \<and>
    ((\<exists>a \<in> set as. al_Fingerprint a = fp) \<and> err = None \<and> EStoreFailed fp \<notin> set es \<longrightarrow>
       opens s' fp = (al_Status (last (filter (\<lambda>a. al_Fingerprint a = fp) as)) \<noteq> ''resolved'')) \<and>
    (\<forall>g. opens s' g \<longrightarrow> opens s g \<or> (\<exists>a \<in> set as. al_Fingerprint a = g \<and> al_Status a \<noteq> ''resolved'')) \<and>
    ((\<forall>a \<in> set as. al_Fingerprint a \<noteq> fp) \<longrightarrow> opens s' fp = opens s fp)"
  using assms
proof (induction as arbitrary: s dup err es)
  case Nil
  then show ?case by simp
next
  case (Cons a as)
  obtain e1 es1 s1 where p: "process_alert rv st (dup 0) a s = (e1, es1, s1)" using prod_cases3 by blast
  obtain e2 es2 s2 where q: "ProcessAlerts rv st (\<lambda>i. dup (Suc i)) as s1 = (e2, es2, s2)"
    using prod_cases3 by blast
  have eq: "err = (case e1 of None \<Rightarrow> e2 | Some e \<Rightarrow> Some e)" "es = es1 @ es2" "s' = s2"
    using Cons.prems(2) p q by simp_all
  note one = process_alert_step [OF Cons.prems(1) p]
  then have i1: "inv s1" by (simp add: steps_to_def)
  note rest = Cons.IH [OF i1 q [folded eq(3)]]
  have closed: "\<forall>m. closed s m \<longrightarrow> closed s' m" using one rest by (simp add: steps_to_def)
  have untouched: "opens s1 g = opens s g" if "al_Fingerprint a \<noteq> g" for g
    using one that by (auto simp: steps_to_def)
  have grow: "opens s1 g \<longrightarrow> opens s g \<or> al_Fingerprint a = g \<and> al_Status a \<noteq> ''resolved''" for g
    using one untouched [of g] unfolding steps_to_def
    by (cases "al_Fingerprint a = g"; cases "al_Status a = ''resolved''") auto
  have last: "opens s' fp = (al_Status (last (filter (\<lambda>a. al_Fingerprint a = fp) (a # as))) \<noteq> ''resolved'')"
    if h: "\<exists>b \<in> set (a # as). al_Fingerprint b = fp" "err = None" "EStoreFailed fp \<notin> set es"
  proof (cases "\<exists>b \<in> set as. al_Fingerprint b = fp")
    case True
    then have "filter (\<lambda>a. al_Fingerprint a = fp) as \<noteq> []" by (auto simp: filter_empty_conv)
    with rest True h eq show ?thesis by (auto split: option.splits)
  next
    case False
    then have none: "filter (\<lambda>a. al_Fingerprint a = fp) as = []" by (auto simp: filter_empty_conv)
    from False h(1) have fp: "al_Fingerprint a = fp" by simp
    have "opens s' fp = opens s1 fp" using rest False by blast
    with one h eq fp none show ?thesis by (auto split: option.splits)
  qed
  have opened: "opens s' g \<longrightarrow> opens s g \<or>
      (\<exists>b \<in> set (a # as). al_Fingerprint b = g \<and> al_Status b \<noteq> ''resolved'')" for g
    using rest grow [of g] by auto
  have frame: "opens s' fp = opens s fp" if "\<forall>b \<in> set (a # as). al_Fingerprint b \<noteq> fp"
    using rest untouched [of fp] that by simp
  show ?case
    using rest closed opened last frame by blast
qed

end

subsection \<open>The provider\<close>

text \<open>The store of \<open>Alert_Store\<close> as such an interface. The second component of the state counts
  the calls; \<open>evt\<close> is the event the caller passes to \<^verbatim>\<open>UpdateStatus\<close>; \<open>bad\<close>, \<open>clock\<close> and \<open>ids\<close>
  give the failing statements, the time, and the identifier and number drawn at each call.\<close>

type_synonym pg_state = "alert_db \<times> nat"

definition pg_store ::
    "alert_event option \<Rightarrow> (nat \<Rightarrow> nat \<Rightarrow> bool) \<Rightarrow> (nat \<Rightarrow> instant) \<Rightarrow> (nat \<Rightarrow> uuid \<times> int) \<Rightarrow> pg_state store_api" where
  "pg_store evt bad clock ids =
     \<lparr>so_create = (\<lambda>r (db, t). let (res, db') = Create (bad t) (clock t) (fst (ids t)) (snd (ids t)) r db
                              in (res, (db', Suc t))),
      so_get = (\<lambda>fp (db, t). (GetByFingerprint (bad t) fp db, (db, Suc t))),
      so_get_open = (\<lambda>fp (db, t). (GetOpenByFingerprint (bad t) fp db, (db, Suc t))),
      so_update_status = (\<lambda>fp status (db, t).
        let (res, db') = UpdateStatus (bad t) (\<lambda>d. d) (clock t) fp status evt db in (res, (db', Suc t))),
      so_silence = (\<lambda>fp (db, t).
        let (res, db') = UpdateStatusSilenced (bad t) (\<lambda>d. d) (clock t) fp db in (res, (db', Suc t))),
      so_targets = (\<lambda>fp ts (db, t).
        let (res, db') = UpdateDeliveryTargets (bad t) (\<lambda>d. d) (clock t) fp ts db in (res, (db', Suc t)))\<rparr>"

definition pg_inv :: "pg_state \<Rightarrow> bool" where
  "pg_inv s = alert_wf (fst s)"

definition tab_opens :: "alert_row list \<Rightarrow> string \<Rightarrow> bool" where
  "tab_opens tab fp \<longleftrightarrow> (\<exists>r \<in> set tab. is_open r \<and> ar_fingerprint r = fp)"

definition tab_closed :: "alert_row list \<Rightarrow> int \<Rightarrow> bool" where
  "tab_closed tab n \<longleftrightarrow> (\<exists>r \<in> set tab. ar_number r = n \<and> ar_status r = ''resolved'')"

definition pg_opens :: "pg_state \<Rightarrow> string \<Rightarrow> bool" where
  "pg_opens s = tab_opens (db_alerts (fst s))"

definition pg_closed :: "pg_state \<Rightarrow> int \<Rightarrow> bool" where
  "pg_closed s = tab_closed (db_alerts (fst s))"

lemma tab_opens_map:
  "tab_opens (map g tab) fp \<longleftrightarrow> (\<exists>r \<in> set tab. is_open (g r) \<and> ar_fingerprint (g r) = fp)"
  by (simp add: tab_opens_def)

lemma tab_closed_map:
  "tab_closed (map g tab) n \<longleftrightarrow> (\<exists>r \<in> set tab. ar_number (g r) = n \<and> ar_status (g r) = ''resolved'')"
  by (simp add: tab_closed_def)

lemma lookup_result_cases:
  "lookup_result f db found = res \<Longrightarrow>
     (res = Inr None \<longrightarrow> found = None) \<and>
     (\<forall>r. res = Inr (Some r) \<longrightarrow> (\<exists>a. found = Some a \<and> ar_status (re_alert r) = ar_status a))"
  by (auto simp: lookup_result_def toAlertRecord_def buildAlertRecord_def split: option.splits if_splits)

lemma GetOpen_view:
  assumes "GetOpenByFingerprint f fp db = res"
  shows "(res = Inr None \<longrightarrow> \<not> tab_opens (db_alerts db) fp) \<and>
    (\<forall>r. res = Inr (Some r) \<longrightarrow> tab_opens (db_alerts db) fp \<and> ar_status (re_alert r) \<noteq> ''resolved'')"
proof -
  let ?xs = "filter (\<lambda>r. ar_fingerprint r = fp \<and> is_open r) (db_alerts db)"
  from assms have l: "lookup_result f db (latest ar_updated ?xs) = res"
    by (simp add: GetOpenByFingerprint_def)
  have "\<not> tab_opens (db_alerts db) fp" if "latest ar_updated ?xs = None"
    using that by (auto simp: latest_None filter_empty_conv tab_opens_def)
  moreover have some: "tab_opens (db_alerts db) fp \<and> ar_status a \<noteq> ''resolved''"
    if "latest ar_updated ?xs = Some a" for a
    using latest_in [OF that] is_openD by (auto simp: tab_opens_def)
  moreover have "tab_opens (db_alerts db) fp \<and> ar_status (re_alert r) \<noteq> ''resolved''"
    if h: "res = Inr (Some r)" for r
  proof -
    obtain a where "latest ar_updated ?xs = Some a" "ar_status (re_alert r) = ar_status a"
      using lookup_result_cases [OF l] h by blast
    with some show ?thesis by simp
  qed
  ultimately show ?thesis using lookup_result_cases [OF l] by blast
qed

text \<open>Closing the one open row of a fingerprint.\<close>

definition close_tab :: "bool \<Rightarrow> instant \<Rightarrow> uuid \<Rightarrow> alert_row list \<Rightarrow> alert_row list" where
  "close_tab s now i tab = map (\<lambda>r. if ar_id r = i \<and> is_open r then resolve_row s now r else r) tab"

lemma close_tab_closed: "tab_closed tab n \<Longrightarrow> tab_closed (close_tab s now i tab) n"
proof -
  assume "tab_closed tab n"
  then obtain r where r: "r \<in> set tab" "ar_number r = n" "ar_status r = ''resolved''"
    by (auto simp: tab_closed_def)
  then have "\<not> is_open r" by (simp add: is_open_def)
  with r show ?thesis unfolding tab_closed_def close_tab_def set_map by force
qed

lemma close_tab_opens:
  assumes "alert_wf db" "a \<in> set (db_alerts db)" "is_open a"
  shows "tab_opens (close_tab s now (ar_id a) (db_alerts db)) =
    (tab_opens (db_alerts db))(ar_fingerprint a := False)"
proof
  fix fp
  have c: "alert_constraints (db_alerts db)" using assms(1) by (rule alert_wf_constraints)
  have "tab_opens (close_tab s now (ar_id a) (db_alerts db)) fp \<longleftrightarrow>
      (\<exists>r \<in> set (db_alerts db). is_open r \<and> r \<noteq> a \<and> ar_fingerprint r = fp)"
    using id_unique [OF c _ assms(2)] by (force simp: tab_opens_def close_tab_def row_simps)
  also have "\<dots> \<longleftrightarrow> ((tab_opens (db_alerts db))(ar_fingerprint a := False)) fp"
    using open_unique [OF c _ assms(2) _ assms(3)] assms by (auto simp: tab_opens_def)
  finally show "tab_opens (close_tab s now (ar_id a) (db_alerts db)) fp =
      ((tab_opens (db_alerts db))(ar_fingerprint a := False)) fp" .
qed

lemma resolve_update_view:
  assumes wf: "alert_wf db" and a: "a \<in> set (db_alerts db)" "is_open a"
    and r: "resolve_update f s now ev (ar_id a) db = (res, db')"
  shows "alert_wf db' \<and>
    (case res of Inl _ \<Rightarrow> db' = db | Inr _ \<Rightarrow> db_alerts db' = close_tab s now (ar_id a) (db_alerts db))"
proof -
  have "alert_wf db'" using wf_resolve_update [OF wf, of f s now ev "ar_id a"] r by simp
  moreover have "case res of Inl _ \<Rightarrow> db' = db
      | Inr _ \<Rightarrow> db_alerts db' = close_tab s now (ar_id a) (db_alerts db)"
  proof (cases "f 1")
    case True
    with r show ?thesis by (auto simp: resolve_update_def resolve_stmt_def)
  next
    case False
    have "resolve_stmt f s now ev (ar_id a) db = (Inr 1, insertAlertEvent (f 2) (ar_id a) ev
        (db\<lparr>db_alerts := close_tab s now (ar_id a) (db_alerts db)\<rparr>))"
      unfolding resolve_stmt_cases [where fails = f, OF alert_wf_constraints [OF wf] False]
        filter_id_open [OF wf a] Let_def close_tab_def by simp
    with r show ?thesis by (auto simp: resolve_update_def)
  qed
  ultimately show ?thesis by blast
qed

lemma resolve_by_fp_view:
  assumes wf: "alert_wf db"
    and run: "(if f 0 then (Inl AlertDbError, db)
      else case List.find (\<lambda>r. ar_fingerprint r = fp \<and> is_open r) (db_alerts db) of
             None \<Rightarrow> (Inl AlertDbError, db)
           | Some a \<Rightarrow> resolve_update f s now ev (ar_id a) db) = (res, db')"
  shows "alert_wf db' \<and>
    (\<forall>n. tab_closed (db_alerts db) n \<longrightarrow> tab_closed (db_alerts db') n) \<and>
    (case res of Inl _ \<Rightarrow> db' = db
     | Inr _ \<Rightarrow> tab_opens (db_alerts db') = (tab_opens (db_alerts db))(fp := False))"
proof (cases "f 0 \<or> List.find (\<lambda>r. ar_fingerprint r = fp \<and> is_open r) (db_alerts db) = None")
  case True
  with run wf show ?thesis by (auto split: if_splits)
next
  case False
  then obtain a where a: "List.find (\<lambda>r. ar_fingerprint r = fp \<and> is_open r) (db_alerts db) = Some a"
    by blast
  then have m: "a \<in> set (db_alerts db)" "is_open a" "ar_fingerprint a = fp" by (auto simp: find_split)
  from run a False have "resolve_update f s now ev (ar_id a) db = (res, db')" by simp
  note v = resolve_update_view [OF wf m(1,2) this]
  show ?thesis
  proof (cases res)
    case (Inl e)
    with v wf show ?thesis by simp
  next
    case (Inr u)
    with v have "db_alerts db' = close_tab s now (ar_id a) (db_alerts db)" by simp
    with Inr v show ?thesis using close_tab_closed close_tab_opens [OF wf m(1,2)] m(3) by simp
  qed
qed

lemma UpdateStatus_resolved:
  "UpdateStatus f env now fp ''resolved'' e db =
     (if f 0 then (Inl AlertDbError, db)
      else case List.find (\<lambda>r. ar_fingerprint r = fp \<and> is_open r) (db_alerts db) of
             None \<Rightarrow> (Inl AlertDbError, db)
           | Some a \<Rightarrow> resolve_update f False now (resolved_event now e) (ar_id a) (env db))"
  by (simp add: UpdateStatus_def split: option.split)

lemma Create_view:
  assumes wf: "alert_wf db" and e: "ar_ends (re_alert r) = None"
    and run: "Create f now i n r db = (res, db')"
  shows "alert_wf db' \<and> (\<forall>m. tab_closed (db_alerts db) m \<longrightarrow> tab_closed (db_alerts db') m) \<and>
    (case res of Inl _ \<Rightarrow> db' = db
     | Inr _ \<Rightarrow> tab_opens (db_alerts db') = (if ar_status (re_alert r) = ''resolved''
         then tab_opens (db_alerts db)
         else (tab_opens (db_alerts db))(ar_fingerprint (re_alert r) := True)))"
proof -
  have "alert_wf db'" using wf_create [OF wf, of r f now i n] e run by simp
  moreover have "db' = db \<and> (\<exists>e. res = Inl e) \<or>
      (\<exists>k. res = Inr k) \<and> db_alerts db' = db_alerts db @ [created_alert now i n r]"
    using run by (auto simp: Create_def Let_def split: if_splits)
  moreover have "ar_status (created_alert now i n r) = ar_status (re_alert r)"
    "ar_fingerprint (created_alert now i n r) = ar_fingerprint (re_alert r)"
    "ar_deleted (created_alert now i n r) = None"
    by (simp_all add: created_alert_def Let_def)
  ultimately show ?thesis
    by (auto simp: tab_closed_def tab_opens_def is_open_def fun_eq_iff)
qed

lemma touch_view:
  assumes "sql_update P (\<lambda>r. r\<lparr>ar_updated := now\<rparr>) tab = Some (k, tab')"
  shows "tab_opens tab' = tab_opens tab \<and> tab_closed tab' = tab_closed tab"
proof -
  from assms have t: "tab' = map (\<lambda>r. if P r then r\<lparr>ar_updated := now\<rparr> else r) tab"
    unfolding sql_update_Some by blast
  show ?thesis
    unfolding t fun_eq_iff tab_opens_map tab_closed_map
    by (auto simp: tab_opens_def tab_closed_def is_open_def)
qed

lemma insert_targets_alerts [simp]: "db_alerts (snd (insert_targets f k i ts db)) = db_alerts db"
  by (induction ts arbitrary: k db) auto

lemma UpdateDeliveryTargets_view:
  assumes wf: "alert_wf db" and run: "UpdateDeliveryTargets f (\<lambda>d. d) now fp ts db = (res, db')"
  shows "alert_wf db' \<and> tab_opens (db_alerts db') = tab_opens (db_alerts db) \<and>
    tab_closed (db_alerts db') = tab_closed (db_alerts db)"
proof -
  have "alert_wf db'" using wf_targets [OF wf, of "\<lambda>d. d" f now fp ts] run by simp
  moreover have "tab_opens (db_alerts db') = tab_opens (db_alerts db) \<and>
      tab_closed (db_alerts db') = tab_closed (db_alerts db)"
  proof -
    have ins: "db_alerts d = db_alerts db"
      if "insert_targets f 3 j ts (db\<lparr>db_targets := X\<rparr>) = (ok, d)" for j X ok d
      using insert_targets_alerts [of f 3 j ts "db\<lparr>db_targets := X\<rparr>"] that by simp
    show ?thesis
      using run
      by (auto simp: UpdateDeliveryTargets_def Let_def split: if_splits option.splits prod.splits
          dest!: ins touch_view)
  qed
  ultimately show ?thesis by blast
qed

interpretation pg: alert_store_contract "pg_store evt bad clock ids" pg_inv pg_opens pg_closed
proof unfold_locales
  fix s :: pg_state and s' fp
  obtain db t where s: "s = (db, t)" by force
  show "pg_inv s' \<and> pg_opens s' = pg_opens s \<and> pg_closed s' = pg_closed s \<and>
      (res = Inr None \<longrightarrow> \<not> pg_opens s fp) \<and>
      (\<forall>r. res = Inr (Some r) \<longrightarrow> pg_opens s fp \<and> ar_status (re_alert r) \<noteq> ''resolved'')"
    if "pg_inv s" "so_get_open (pg_store evt bad clock ids) fp s = (res, s')" for res
    using that GetOpen_view [of "bad t" fp db res]
    by (auto simp: s pg_store_def pg_inv_def pg_opens_def pg_closed_def)
  show "pg_inv s' \<and> pg_opens s' = pg_opens s \<and> pg_closed s' = pg_closed s"
    if "pg_inv s" "so_get (pg_store evt bad clock ids) fp s = (res, s')" for res
    using that by (auto simp: s pg_store_def pg_inv_def pg_opens_def pg_closed_def)
  show "pg_inv s' \<and> (\<forall>m. pg_closed s m \<longrightarrow> pg_closed s' m) \<and>
      pg_opens s' = (if ar_status (re_alert r) = ''resolved'' then pg_opens s
                  else (pg_opens s)(ar_fingerprint (re_alert r) := True))"
    if "pg_inv s" "ar_ends (re_alert r) = None" "so_create (pg_store evt bad clock ids) r s = (Inr n, s')" for r n
    using that Create_view [of db r "bad t" "clock t" "fst (ids t)" "snd (ids t)" "Inr n" "fst s'"]
    by (auto simp: s pg_store_def pg_inv_def pg_opens_def pg_closed_def split: prod.splits)
  show "pg_inv s' \<and> pg_opens s' = pg_opens s \<and> pg_closed s' = pg_closed s"
    if "pg_inv s" "so_create (pg_store evt bad clock ids) r s = (Inl e, s')" for r e
    using that by (auto simp: s pg_store_def pg_inv_def pg_opens_def pg_closed_def Create_def Let_def
        split: prod.splits if_splits)
  show "pg_inv s' \<and> (\<forall>m. pg_closed s m \<longrightarrow> pg_closed s' m) \<and> pg_opens s' = (pg_opens s)(fp := False)"
    if "pg_inv s" "so_update_status (pg_store evt bad clock ids) fp ''resolved'' s = (Inr u, s')" for u
    using that resolve_by_fp_view [where db = db and f = "bad t" and fp = fp and s = False and now = "clock t"
        and ev = "resolved_event (clock t) evt" and res = "Inr u" and db' = "fst s'"]
    by (auto simp: s pg_store_def pg_inv_def pg_opens_def pg_closed_def UpdateStatus_resolved split: prod.splits)
  show "pg_inv s' \<and> pg_opens s' = pg_opens s \<and> pg_closed s' = pg_closed s"
    if "pg_inv s" "so_update_status (pg_store evt bad clock ids) fp ''resolved'' s = (Inl e, s')" for e
    using that resolve_by_fp_view [where db = db and f = "bad t" and fp = fp and s = False and now = "clock t"
        and ev = "resolved_event (clock t) evt" and res = "Inl e" and db' = "fst s'"]
    by (auto simp: s pg_store_def pg_inv_def pg_opens_def pg_closed_def UpdateStatus_resolved split: prod.splits)
  let ?ev = "\<lparr>ev_type = ''resolved'', ev_time = clock t, ev_username = [], ev_display = [],
      ev_userid = [], ev_source = ''system''\<rparr>"
  show "pg_inv s' \<and> (\<forall>m. pg_closed s m \<longrightarrow> pg_closed s' m) \<and> pg_opens s' = (pg_opens s)(fp := False)"
    if "pg_inv s" "so_silence (pg_store evt bad clock ids) fp s = (Inr u, s')" for u
    using that resolve_by_fp_view [where db = db and f = "bad t" and fp = fp and s = True and now = "clock t"
        and ev = ?ev and res = "Inr u" and db' = "fst s'"]
    by (auto simp: s pg_store_def pg_inv_def pg_opens_def pg_closed_def UpdateStatusSilenced_def split: prod.splits)
  show "pg_inv s' \<and> pg_opens s' = pg_opens s \<and> pg_closed s' = pg_closed s"
    if "pg_inv s" "so_silence (pg_store evt bad clock ids) fp s = (Inl e, s')" for e
    using that resolve_by_fp_view [where db = db and f = "bad t" and fp = fp and s = True and now = "clock t"
        and ev = ?ev and res = "Inl e" and db' = "fst s'"]
    by (auto simp: s pg_store_def pg_inv_def pg_opens_def pg_closed_def UpdateStatusSilenced_def split: prod.splits)
  show "pg_inv s' \<and> pg_opens s' = pg_opens s \<and> pg_closed s' = pg_closed s"
    if "pg_inv s" "so_targets (pg_store evt bad clock ids) fp ts s = (res, s')" for ts res
    using that UpdateDeliveryTargets_view [of db "bad t" "clock t" fp ts res "fst s'"]
    by (auto simp: s pg_store_def pg_inv_def pg_opens_def pg_closed_def split: prod.splits)
qed

subsection \<open>Noise\<close>

text \<open>An effect that disturbs people: a chat post, or a message to the correlator. It must come
  from an alert that no maintenance window suppresses and no silencing rule matches.\<close>

definition may_disturb :: "receiver \<Rightarrow> alert \<Rightarrow> effect \<Rightarrow> bool" where
  "may_disturb rv a e =
     (case e of
        EPost d fp \<Rightarrow>
          fp = al_Fingerprint a \<and> \<not> isSuppressed rv (al_Labels a) \<and>
          \<not> rr_Silenced (rv_route rv a) \<and> d \<in> set (rr_Destinations (rv_route rv a))
      | ECorrelate c \<Rightarrow>
          ca_Fingerprint c = al_Fingerprint a \<and> al_Status a \<noteq> ''resolved'' \<and>
          \<not> isSuppressed rv (al_Labels a) \<and> \<not> rr_Silenced (rv_route rv a)
      | _ \<Rightarrow> True)"

lemma quiet_effects [simp]:
  "e \<in> set (track rv a) \<Longrightarrow> may_disturb rv b e"
  "e \<in> set (publish rv act r) \<Longrightarrow> may_disturb rv b e"
  "e \<in> set (audit rv who a) \<Longrightarrow> may_disturb rv b e"
  "e \<in> set (handleAutoResolvedInvestigation rv a n) \<Longrightarrow> may_disturb rv b e"
  "may_disturb rv b (EStoreFailed fp)" "may_disturb rv b (EUntrack fp)"
  by (auto simp: track_def publish_def audit_def handleAutoResolvedInvestigation_def may_disturb_def
      split: if_splits)

lemma delivered_effects:
  "deliverToDestinations rv a ds = (ts, es) \<Longrightarrow> e \<in> set es \<Longrightarrow>
     \<exists>d \<in> set ds. e = EPost d (al_Fingerprint a)"
  by (induction ds arbitrary: ts es) (auto split: prod.splits option.splits)

lemma delivered_quiet:
  assumes "deliverToDestinations rv a (rr_Destinations (rv_route rv a)) = (ts, es)" "e \<in> set es"
    and "\<not> isSuppressed rv (al_Labels a)" "\<not> rr_Silenced (rv_route rv a)"
  shows "may_disturb rv a e"
  using delivered_effects [OF assms(1,2)] assms(3,4) by (auto simp: may_disturb_def)

lemma correlate_quiet:
  assumes "e \<in> set (triggerCorrelator rv a n)" "al_Status a \<noteq> ''resolved''"
    and "\<not> isSuppressed rv (al_Labels a)" "\<not> rr_Silenced (rv_route rv a)"
  shows "may_disturb rv a e"
  using assms by (auto simp: triggerCorrelator_def may_disturb_def split: if_splits)

lemma handleFiring_quiet:
  assumes "handleFiring rv st a ex s = (es, s')" "e \<in> set es" "al_Status a \<noteq> ''resolved''"
  shows "may_disturb rv a e"
  using assms
  by (auto simp: handleFiring_def Let_def split: if_splits sum.splits prod.splits
      intro: delivered_quiet correlate_quiet)

lemma handleResolved_quiet:
  assumes "handleResolved rv st a ex s = (es, s')" "e \<in> set es"
  shows "may_disturb rv a e"
proof (cases ex)
  case None
  with assms show ?thesis
    by (auto simp: handleResolved_def Let_def split: if_splits sum.splits prod.splits
        intro: delivered_quiet)
next
  case (Some r)
  with assms show ?thesis
    by (auto simp: handleResolved_def Let_def updateAllAlertTargets_def may_disturb_def
        split: if_splits sum.splits prod.splits)
      (auto simp: track_def publish_def audit_def handleAutoResolvedInvestigation_def
        split: if_splits)
qed

lemma process_alert_quiet:
  assumes "process_alert rv st dup a s = (err, es, s')" "e \<in> set es"
  shows "may_disturb rv a e"
  using assms
  by (auto simp: process_alert_def Let_def split: if_splits sum.splits prod.splits option.splits
      intro: handleFiring_quiet handleResolved_quiet)

lemma ProcessAlerts_quiet:
  "ProcessAlerts rv st dup as s = (err, es, s') \<Longrightarrow> e \<in> set es \<Longrightarrow> \<exists>a \<in> set as. may_disturb rv a e"
proof (induction as arbitrary: s dup err es s')
  case (Cons a as)
  obtain e1 es1 s1 where p: "process_alert rv st (dup 0) a s = (e1, es1, s1)" using prod_cases3 by blast
  obtain e2 es2 s2 where q: "ProcessAlerts rv st (\<lambda>i. dup (Suc i)) as s1 = (e2, es2, s2)"
    using prod_cases3 by blast
  from Cons.prems p q have "e \<in> set es1 \<or> e \<in> set es2" by auto
  then show ?case using process_alert_quiet [OF p] Cons.IH [OF q] by auto
qed simp

subsection \<open>Properties\<close>

definition example_receiver :: receiver where
  "example_receiver =
     \<lparr>rv_route = (\<lambda>_. \<lparr>rr_Silenced = False, rr_Destinations = []\<rparr>), rv_windows = None,
      rv_send = (\<lambda>_ _. None), rv_update_post = (\<lambda>_ _. True), rv_parse = (\<lambda>_. 3),
      rv_dedup = True, rv_events = False, rv_correlator = True, rv_audit = False,
      rv_investigations = False\<rparr>"

abbreviation example_pg :: "pg_state store_api" where
  "example_pg \<equiv> pg_store None (\<lambda>_ _. False) int (\<lambda>t. (t, int t))"

definition empty_db :: alert_db where
  "empty_db = \<lparr>db_alerts = [], db_events = [], db_targets = [], db_links = []\<rparr>"

lemma empty_db_wf: "alert_wf empty_db"
  by (simp add: alert_wf_def empty_db_def alert_constraints_def)

text \<open>C14. A payload decides what is open: whatever the deduplication cache answers, once a payload
  has been processed without an error and without a failed write for a fingerprint it mentions,
  that fingerprint has an open alert if its last notification fires, and none if it resolves. So
  a re-fired alert behind a stale cache entry is never swallowed.\<close>

theorem payload_decides_open:
  assumes "alert_wf db"
    and "ProcessAlerts rv (pg_store None bad clock ids) dup alerts (db, t) = (None, effects, (db', t'))"
    and "\<exists>a \<in> set alerts. al_Fingerprint a = fp" and "EStoreFailed fp \<notin> set effects"
  shows "tab_opens (db_alerts db') fp \<longleftrightarrow>
    al_Status (last (filter (\<lambda>a. al_Fingerprint a = fp) alerts)) \<noteq> ''resolved''"
  using pg.ProcessAlerts_step [OF _ assms(2), of fp] assms(1,3,4)
  by (simp add: pg_inv_def pg_opens_def)

lemma example_firing:
  "\<exists>es s1. handleFiring example_receiver example_pg example_alert None (empty_db, k) = (es, s1) \<and>
     EStoreFailed ''f1'' \<notin> set es"
proof -
  let ?r = "new_record example_receiver example_alert ''firing'' False"
  obtain s1 where c: "so_create example_pg ?r (empty_db, k) = (Inr (int k), s1)"
    by (simp add: pg_store_def Create_def Let_def empty_db_def alert_constraints_def
        created_alert_def new_record_def)
  have "\<not> isSuppressed example_receiver (al_Labels example_alert)"
    "rv_route example_receiver example_alert = \<lparr>rr_Silenced = False, rr_Destinations = []\<rparr>"
    by (simp_all add: example_receiver_def isSuppressed_def)
  then show ?thesis
    by (simp add: handleFiring_def c track_def publish_def triggerCorrelator_def)
qed

theorem payload_decides_open_witness:
  "\<exists>effects db' t'. ProcessAlerts example_receiver example_pg (\<lambda>_. True) [example_alert] (empty_db, 0)
       = (None, effects, (db', t')) \<and> tab_opens (db_alerts db') ''f1''"
proof -
  obtain err effects db' t' where run: "ProcessAlerts example_receiver example_pg (\<lambda>_. True)
      [example_alert] (empty_db, 0) = (err, effects, (db', t'))" by (rule prod_cases4)
  have get: "so_get_open example_pg fp (empty_db, k) = (Inr None, (empty_db, Suc k))" for fp k
    by (simp add: pg_store_def GetOpenByFingerprint_def lookup_result_def empty_db_def)
  obtain es s1 where fire: "handleFiring example_receiver example_pg example_alert None (empty_db, Suc (Suc 0)) = (es, s1)"
    "EStoreFailed ''f1'' \<notin> set es"
    using example_firing by blast
  have "al_Status example_alert = ''firing''" by (simp add: example_alert_def)
  then have "process_alert example_receiver example_pg True example_alert (empty_db, 0) = (None, es, s1)"
    by (simp add: process_alert_def get fire Let_def example_receiver_def [THEN arg_cong, of rv_dedup])
  with run fire have ok: "err = None" "EStoreFailed ''f1'' \<notin> set effects" by simp_all
  have "al_Fingerprint example_alert = ''f1''" "al_Status example_alert = ''firing''"
    by (simp_all add: example_alert_def)
  with payload_decides_open [OF empty_db_wf run [unfolded ok(1)], of "''f1''"] ok run
  show ?thesis by simp
qed

text \<open>C27. Ingestion never reopens: whatever a payload contains and whatever fails, the database
  stays well formed, a resolved alert stays resolved, and only fingerprints with a firing
  notification can become open.\<close>

theorem ingest_never_reopens:
  assumes "alert_wf db"
    and "ProcessAlerts rv (pg_store None bad clock ids) dup alerts (db, t) = (err, effects, (db', t'))"
  shows "alert_wf db' \<and> (\<forall>n. tab_closed (db_alerts db) n \<longrightarrow> tab_closed (db_alerts db') n) \<and>
    (\<forall>fp. tab_opens (db_alerts db') fp \<longrightarrow> tab_opens (db_alerts db) fp \<or>
       (\<exists>a \<in> set alerts. al_Fingerprint a = fp \<and> al_Status a \<noteq> ''resolved''))"
  using pg.ProcessAlerts_step [OF _ assms(2)] assms(1)
  by (simp add: pg_inv_def pg_opens_def pg_closed_def)

theorem ingest_never_reopens_witness:
  "alert_wf (fst (snd (snd (ProcessAlerts example_receiver example_pg (\<lambda>_. True)
     [example_alert] (example_db, 0)))))"
proof -
  obtain err effects db' t' where run: "ProcessAlerts example_receiver example_pg (\<lambda>_. True)
      [example_alert] (example_db, 0) = (err, effects, (db', t'))" by (rule prod_cases4)
  from ingest_never_reopens [OF example_db_wf this] run show ?thesis by simp
qed

text \<open>Silence means silence: a chat post or a message to the correlator comes from an alert
  of the payload that no active maintenance window suppresses and no silencing rule matches, is
  correlated only when it fires, and is posted only to its routed destinations.\<close>

theorem silenced_alerts_stay_quiet:
  assumes "ProcessAlerts rv st dup alerts s = (err, effects, s')"
  shows "(\<forall>c. ECorrelate c \<in> set effects \<longrightarrow>
            (\<exists>a \<in> set alerts. al_Fingerprint a = ca_Fingerprint c \<and> al_Status a \<noteq> ''resolved'' \<and>
               \<not> isSuppressed rv (al_Labels a) \<and> \<not> rr_Silenced (rv_route rv a))) \<and>
         (\<forall>d fp. EPost d fp \<in> set effects \<longrightarrow>
            (\<exists>a \<in> set alerts. al_Fingerprint a = fp \<and> \<not> isSuppressed rv (al_Labels a) \<and>
               \<not> rr_Silenced (rv_route rv a) \<and> d \<in> set (rr_Destinations (rv_route rv a))))"
proof (intro conjI allI impI)
  fix c assume "ECorrelate c \<in> set effects"
  from ProcessAlerts_quiet [OF assms this] obtain a
    where "a \<in> set alerts" "may_disturb rv a (ECorrelate c)" by blast
  then show "\<exists>a \<in> set alerts. al_Fingerprint a = ca_Fingerprint c \<and> al_Status a \<noteq> ''resolved'' \<and>
      \<not> isSuppressed rv (al_Labels a) \<and> \<not> rr_Silenced (rv_route rv a)"
    by (intro bexI [of _ a]) (simp_all add: may_disturb_def)
next
  fix d fp assume "EPost d fp \<in> set effects"
  from ProcessAlerts_quiet [OF assms this] obtain a
    where "a \<in> set alerts" "may_disturb rv a (EPost d fp)" by blast
  then show "\<exists>a \<in> set alerts. al_Fingerprint a = fp \<and> \<not> isSuppressed rv (al_Labels a) \<and>
      \<not> rr_Silenced (rv_route rv a) \<and> d \<in> set (rr_Destinations (rv_route rv a))"
    by (intro bexI [of _ a]) (simp_all add: may_disturb_def)
qed

theorem silenced_alerts_stay_quiet_witness:
  "list_all (\<lambda>e. case e of ECorrelate c \<Rightarrow> False | _ \<Rightarrow> True) (fst (snd (ProcessAlerts
     (example_receiver\<lparr>rv_windows := Some [[]]\<rparr>) example_pg (\<lambda>_. True) [example_alert] (empty_db, 0))))"
proof -
  obtain err effects s' where run: "ProcessAlerts (example_receiver\<lparr>rv_windows := Some [[]]\<rparr>)
      example_pg (\<lambda>_. True) [example_alert] (empty_db, 0) = (err, effects, s')" using prod_cases3 by blast
  have "isSuppressed (example_receiver\<lparr>rv_windows := Some [[]]\<rparr>) (al_Labels example_alert)"
    by (simp add: isSuppressed_def matchLabels_def)
  with silenced_alerts_stay_quiet [OF run] run show ?thesis
    by (auto simp: list_all_iff split: effect.splits)
qed

text \<open>Nothing enters without a valid token: if a webhook request is accepted, changes the
  store or has any effect, it was a POST below the rate limit whose token (from the
  Authorization header, or from the query only when that is enabled) the token store validated.\<close>

theorem webhook_needs_token:
  assumes "handleWebhook rv st allow validate allowQuery decode enq direct dup req s = (resp, effects, s')"
    and "resp \<in> {Queued, OkStatus} \<or> effects \<noteq> [] \<or> s' \<noteq> s"
  shows "rq_method req = ''POST'' \<and> allow (remoteAddrHost req) \<and>
    validate (webhookTokenFromRequest allowQuery req) = Some True \<and>
    webhookTokenFromRequest allowQuery req \<noteq> [] \<and>
    (\<not> allowQuery \<longrightarrow> go_trim_space (rq_authorization req) \<noteq> [])"
proof -
  let ?tok = "webhookTokenFromRequest allowQuery req"
  have "rq_method req = ''POST''"
    by (rule ccontr) (use assms in \<open>simp add: handleWebhook_def\<close>)
  moreover have "allow (remoteAddrHost req)"
    by (rule ccontr) (use assms calculation in \<open>simp add: handleWebhook_def\<close>)
  moreover have tok: "?tok \<noteq> []"
    by (rule ccontr) (use assms calculation in \<open>simp add: handleWebhook_def\<close>)
  moreover have "validate ?tok = Some True"
  proof (cases "validate ?tok")
    case None
    then show ?thesis using assms calculation by (simp add: handleWebhook_def)
  next
    case (Some b)
    then show ?thesis using assms calculation by (cases b) (simp_all add: handleWebhook_def)
  qed
  moreover have "\<not> allowQuery \<longrightarrow> go_trim_space (rq_authorization req) \<noteq> []"
    using tok by (auto simp: webhookTokenFromRequest_def)
  ultimately show ?thesis by blast
qed

theorem webhook_needs_token_witness:
  "\<exists>resp effects s'. handleWebhook example_receiver example_pg (\<lambda>_. True)
       (\<lambda>tok. Some (tok = ''s3cret'')) False (\<lambda>_. Some []) None None (\<lambda>_. False)
       \<lparr>rq_method = ''POST'', rq_authorization = ''bearer s3cret'', rq_query_token = [],
        rq_remote_addr = ''[::1]:80'', rq_body = Some ''[]''\<rparr> (empty_db, 0) = (resp, effects, s') \<and>
     resp = OkStatus"
proof -
  let ?req = "\<lparr>rq_method = ''POST'', rq_authorization = ''bearer s3cret'', rq_query_token = [],
        rq_remote_addr = ''[::1]:80'', rq_body = Some ''[]''\<rparr>"
  have tok: "webhookTokenFromRequest False ?req = ''s3cret''"
    by (simp add: webhookTokenFromRequest_def go_trim_space_def is_space_def go_to_lower_def
        lower_char_def)
  have run: "handleWebhook example_receiver example_pg (\<lambda>_. True)
       (\<lambda>tok. Some (tok = ''s3cret'')) False (\<lambda>_. Some []) None None (\<lambda>_. False) ?req (empty_db, 0)
     = (OkStatus, [], (empty_db, 0))"
    unfolding handleWebhook_def Let_def tok by simp
  from webhook_needs_token [OF run] run show ?thesis by blast
qed

text \<open>Posts made for an untracked resolved notification are never recorded: the receiver
  stores a record that is already resolved and then asks for its delivery targets to be set, which
  the store does only for an open alert. The call always fails and no target row is written.\<close>

theorem resolved_targets_never_stored:
  assumes "\<not> tab_opens (db_alerts db) fp"
  shows "UpdateDeliveryTargets fails env now fp targets db = (Inl AlertDbError, db)"
proof -
  have "List.find (\<lambda>r. ar_fingerprint r = fp \<and> is_open r) (db_alerts db) = None"
    unfolding find_None using assms by (auto simp: tab_opens_def)
  then show ?thesis by (simp add: UpdateDeliveryTargets_def)
qed

theorem resolved_targets_never_stored_witness:
  "UpdateDeliveryTargets (\<lambda>_. False) (\<lambda>d. d) 9 ''f1''
     [\<lparr>dt_provider = ''slack'', dt_channel = ''ops'', dt_channelname = ''ops'', dt_postid = ''p''\<rparr>]
     (snd (Create (\<lambda>_. False) 8 1 1 (new_record example_receiver example_alert ''resolved'' False) empty_db))
   = (Inl AlertDbError,
      snd (Create (\<lambda>_. False) 8 1 1 (new_record example_receiver example_alert ''resolved'' False) empty_db))"
  by (rule resolved_targets_never_stored)
    (simp add: tab_opens_def Create_def Let_def created_alert_def new_record_def empty_db_def
      alert_constraints_def is_open_def)

end
