(* ===== verification/Valkey.thy ===== *)
theory Valkey
  imports Prelude
begin

text \<open>
  The Valkey commands the backend's workers use (\<^verbatim>\<open>apps/backend/valkey/client.go\<close>). The server is
  not part of the repository: its commands are the fields of \<open>kv_api\<close> over an abstract server
  state, and what the code relies on is the locale \<open>reliable_valkey\<close> (commands succeed, hashes,
  sorted sets and plain keys are independent, a written value is read back, \<^verbatim>\<open>SET NX\<close> succeeds on
  an absent key only). An in-memory server satisfies it.

  Key texts are built from a prefix and a number and are represented by a constructor, stored
  texts by the value they denote: \<open>HInt 1\<close> is the text ``1''. \<^verbatim>\<open>HGet\<close> on a missing field is an
  error (the client library's nil reply), here \<open>None\<close> like any other error.
\<close>

datatype vkey = KEsc int | KEscClaim int | KAlert string | KAlertNum int | KIncident int
  | KInvestigation string

record schedule =
  sc_max :: int
  sc_delays :: "int \<rightharpoonup> int"

datatype hval = HInt int | HUuid uuid | HSched schedule | HText string

record 'v kv_api =
  kv_hget :: "vkey \<Rightarrow> string \<Rightarrow> 'v \<Rightarrow> hval option"
  kv_hset :: "vkey \<Rightarrow> string \<Rightarrow> hval \<Rightarrow> 'v \<Rightarrow> bool \<times> 'v"
  kv_exists :: "vkey \<Rightarrow> 'v \<Rightarrow> bool"
  kv_setnx :: "vkey \<Rightarrow> 'v \<Rightarrow> bool option \<times> 'v"
  kv_zscore :: "int \<Rightarrow> 'v \<Rightarrow> int option"
  kv_zadd :: "int \<Rightarrow> int \<Rightarrow> 'v \<Rightarrow> bool \<times> 'v"
  kv_zrem :: "int \<Rightarrow> 'v \<Rightarrow> bool \<times> 'v"
  kv_zrange :: "int \<Rightarrow> 'v \<Rightarrow> int list option"

locale reliable_valkey =
  fixes api :: "'v kv_api"
  assumes hset_get: "kv_hget api k f (snd (kv_hset api k' f' x s)) =
      (if k = k' \<and> f = f' then Some x else kv_hget api k f s)"
    and hset_score: "kv_zscore api m (snd (kv_hset api k f x s)) = kv_zscore api m s"
    and hset_exists: "kv_exists api c (snd (kv_hset api k f x s)) = (c = k \<or> kv_exists api c s)"
    and zadd_score: "kv_zscore api m (snd (kv_zadd api sc m' s)) = (if m = m' then Some sc else kv_zscore api m s)"
    and zadd_get: "kv_hget api k f (snd (kv_zadd api sc m s)) = kv_hget api k f s"
    and zadd_exists: "kv_exists api c (snd (kv_zadd api sc m s)) = kv_exists api c s"
    and zrem_score: "kv_zscore api m (snd (kv_zrem api m' s)) = (if m = m' then None else kv_zscore api m s)"
    and zrem_get: "kv_hget api k f (snd (kv_zrem api m s)) = kv_hget api k f s"
    and zrem_exists: "kv_exists api c (snd (kv_zrem api m s)) = kv_exists api c s"
    and setnx_res: "fst (kv_setnx api c s) = Some (\<not> kv_exists api c s)"
    and setnx_exists: "kv_exists api c (snd (kv_setnx api c' s)) = (c = c' \<or> kv_exists api c s)"
    and setnx_get: "kv_hget api k f (snd (kv_setnx api c s)) = kv_hget api k f s"
    and setnx_score: "kv_zscore api m (snd (kv_setnx api c s)) = kv_zscore api m s"
    and ok: "fst (kv_hset api k f x s)" "fst (kv_zadd api sc m s)" "fst (kv_zrem api m s)"
    and zrange: "\<exists>ms. kv_zrange api mx s = Some ms \<and> distinct ms \<and>
      set ms = {m. \<exists>sc. kv_zscore api m s = Some sc \<and> sc \<le> mx}"
begin

lemmas kv_simps = hset_get hset_score hset_exists zadd_score zadd_get zadd_exists
  zrem_score zrem_get zrem_exists setnx_exists setnx_get setnx_score

end

subsection \<open>An in-memory server\<close>

record mem_kv =
  mem_hash :: "((vkey \<times> string) \<times> hval) list"
  mem_zset :: "(int \<times> int) list"
  mem_keys :: "vkey list"

definition mem_api :: "mem_kv kv_api" where
  "mem_api =
     \<lparr>kv_hget = (\<lambda>k f s. map_of (mem_hash s) (k, f)),
      kv_hset = (\<lambda>k f x s. (True, s\<lparr>mem_hash := mput (k, f) x (mem_hash s), mem_keys := k # mem_keys s\<rparr>)),
      kv_exists = (\<lambda>k s. k \<in> set (mem_keys s)),
      kv_setnx = (\<lambda>k s. (Some (k \<notin> set (mem_keys s)), s\<lparr>mem_keys := k # mem_keys s\<rparr>)),
      kv_zscore = (\<lambda>m s. map_of (mem_zset s) m),
      kv_zadd = (\<lambda>sc m s. (True, s\<lparr>mem_zset := mput m sc (mem_zset s)\<rparr>)),
      kv_zrem = (\<lambda>m s. (True, s\<lparr>mem_zset := filter (\<lambda>e. fst e \<noteq> m) (mem_zset s)\<rparr>)),
      kv_zrange = (\<lambda>mx s. Some (filter (\<lambda>m. the (map_of (mem_zset s) m) \<le> mx)
                                  (remdups (map fst (mem_zset s)))))\<rparr>"

definition mem_empty :: mem_kv where
  "mem_empty = \<lparr>mem_hash = [], mem_zset = [], mem_keys = []\<rparr>"

lemma map_of_filter_key: "map_of (filter (\<lambda>e. fst e \<noteq> k) m) = (map_of m)(k := None)"
  by (induction m) auto

interpretation mem: reliable_valkey mem_api
proof unfold_locales
  fix mx and s :: mem_kv
  show "\<exists>ms. kv_zrange mem_api mx s = Some ms \<and> distinct ms \<and>
      set ms = {m. \<exists>sc. kv_zscore mem_api m s = Some sc \<and> sc \<le> mx}"
    by (auto simp: mem_api_def map_of_eq_None_iff dest: weak_map_of_SomeI)
      (metis fst_conv map_of_SomeD image_eqI option.sel weak_map_of_SomeI)+
qed (auto simp: mem_api_def map_of_filter_key)

lemma mem_reliable: "reliable_valkey mem_api"
  by (rule mem.reliable_valkey_axioms)

end
