(* ===== verification/Cancel_Set.thy ===== *)
theory Cancel_Set
  imports Alert_Invariant Incident_Store Valkey
begin

text \<open>
  Whether the entity a message is about has been deleted meanwhile
  (\<^verbatim>\<open>cancellation/cancellation.go\<close>, \<^verbatim>\<open>valkey/cancel_set.go\<close>): the Valkey cancel set first, the
  database as the backstop. \<open>cs\<close>: membership in the cancel set, none without one.
\<close>

definition Contains :: "'v kv_api option \<Rightarrow> 'v \<Rightarrow> vkey \<Rightarrow> bool" where
  "Contains client s key = (case client of None \<Rightarrow> False | Some api \<Rightarrow> kv_exists api key s)"

record alert_lookup =
  lk_by_number :: "int \<Rightarrow> alert_error + alert_record option"
  lk_open :: "string \<Rightarrow> alert_error + alert_record option"

definition AlertCancelled ::
    "(vkey \<Rightarrow> bool) option \<Rightarrow> alert_lookup option \<Rightarrow> string \<Rightarrow> int \<Rightarrow> bool" where
  "AlertCancelled cs lookup fingerprint alertNumber =
     (if alertNumber > 0 then
        (case cs of Some contains \<Rightarrow> contains (KAlertNum alertNumber) | None \<Rightarrow> False) \<or>
        (case lookup of
           None \<Rightarrow> False
         | Some l \<Rightarrow>
             (case lk_by_number l alertNumber of
                Inr (Some r) \<Rightarrow> ar_deleted (re_alert r) \<noteq> None
              | _ \<Rightarrow> False))
      else if (case cs of Some contains \<Rightarrow> contains (KAlert fingerprint) | None \<Rightarrow> False) then True
      else case lookup of
             None \<Rightarrow> False
           | Some l \<Rightarrow>
               fingerprint \<noteq> [] \<and>
               (case lk_open l fingerprint of
                  Inl ErrAlertNotFound \<Rightarrow> True
                | Inr None \<Rightarrow> True
                | _ \<Rightarrow> False))"

definition IncidentCancelled ::
    "(vkey \<Rightarrow> bool) option \<Rightarrow> (int \<Rightarrow> incident_error + incident option) option \<Rightarrow> int \<Rightarrow> bool" where
  "IncidentCancelled cs get n =
     ((case cs of Some contains \<Rightarrow> contains (KIncident n) | None \<Rightarrow> False) \<or>
      (case get of
         None \<Rightarrow> False
       | Some g \<Rightarrow> n > 0 \<and> (case g n of Inr (Some r) \<Rightarrow> in_deleted r \<noteq> None | _ \<Rightarrow> False)))"

definition InvestigationCancelled :: "(vkey \<Rightarrow> bool) option \<Rightarrow> string \<Rightarrow> bool" where
  "InvestigationCancelled cs investigationID =
     (case cs of Some contains \<Rightarrow> investigationID \<noteq> [] \<and> contains (KInvestigation investigationID)
      | None \<Rightarrow> False)"

text \<open>The lookups over the alert tables.\<close>

definition pg_lookup :: "(nat \<Rightarrow> bool) \<Rightarrow> alert_db \<Rightarrow> alert_lookup" where
  "pg_lookup fails db =
     \<lparr>lk_by_number = (\<lambda>n. GetByAlertNumber fails n db), lk_open = (\<lambda>fp. GetOpenByFingerprint fails fp db)\<rparr>"

subsection \<open>What the backstop sees\<close>

lemma GetByAlertNumber_alive:
  "GetByAlertNumber fails n db = Inr (Some r) \<Longrightarrow> ar_deleted (re_alert r) = None"
  by (auto simp: GetByAlertNumber_def lookup_result_def toAlertRecord_def buildAlertRecord_def find_Some_iff
      split: option.splits if_splits)

text \<open>For a message that carries the alert's number the answer of \<^verbatim>\<open>AlertCancelled\<close> is that of the
  cancel set alone: \<^verbatim>\<open>GetByAlertNumber\<close> never returns a deleted alert, so the check of its deletion
  time against the database, meant for an absent or evicted cancel set, is never true.\<close>

theorem alert_backstop_dead:
  assumes "0 < n"
  shows "AlertCancelled cs (Some (pg_lookup fails db)) fp n =
    (case cs of Some contains \<Rightarrow> contains (KAlertNum n) | None \<Rightarrow> False)"
  using assms GetByAlertNumber_alive [of fails n db]
  by (auto simp: AlertCancelled_def pg_lookup_def split: sum.splits option.splits)

theorem alert_backstop_dead_witness:
  "AlertCancelled None (Some (pg_lookup (\<lambda>_. False)
     (example_db\<lparr>db_alerts := [example_row\<lparr>ar_number := 5, ar_deleted := Some 10\<rparr>]\<rparr>))) ''f1'' 5 = False"
  using alert_backstop_dead [of 5 None] by simp

text \<open>The backstop for incidents works: \<^verbatim>\<open>GetIncident\<close> returns deleted incidents.\<close>

lemma incident_backstop:
  "distinct (map in_number tab) \<Longrightarrow> r \<in> set tab \<Longrightarrow> in_number r = n \<Longrightarrow> in_deleted r \<noteq> None \<Longrightarrow> 0 < n \<Longrightarrow>
   IncidentCancelled None (Some (\<lambda>n. GetIncident False n tab)) n"
  by (auto simp: IncidentCancelled_def GetIncident_def find_None_iff find_Some_iff split: option.splits)
     (metis distinct_conv_nth in_set_conv_nth length_map nth_map)

end
