(* ===== verification/Escalation.thy ===== *)
theory Escalation
  imports Incident_Lifecycle Valkey
begin

text \<open>
  Escalation of an incident through the levels of a policy: the policy engine
  (\<^verbatim>\<open>escalation/engine.go\<close>), cancellation (\<^verbatim>\<open>escalation/cancel.go\<close>), the guards of the publishers
  (\<^verbatim>\<open>worker/escalation_guards.go\<close>), the worker that pages and seeds the timer
  (\<^verbatim>\<open>worker/escalation.go\<close>, \<^verbatim>\<open>worker/escalation_dispatch.go\<close>) and the sweep that advances the level
  (\<^verbatim>\<open>worker/escalation_sweep.go\<close>). Times are nanoseconds, scores Unix seconds.
\<close>

subsection \<open>Policies\<close>

record esc_target =
  tg_type :: string
  tg_user :: "uuid option"
  tg_team :: "uuid option"

record esc_level =
  el_number :: int
  el_delay :: int \<comment> \<open>minutes\<close>
  el_targets :: "esc_target list"
  el_channels :: "string list"

record esc_policy =
  ep_repeat :: int
  ep_levels :: "esc_level list"

text \<open>What the engine asks others: the policy store (none on an error or an unknown policy), the
  schedule of a team, who is on call, the id of the ops team. \<open>pe_resolver\<close>: both the resolver
  and the on-call store are configured.\<close>

record policy_engine =
  pe_policy :: "uuid \<Rightarrow> esc_policy option"
  pe_schedule :: "uuid \<Rightarrow> uuid option"
  pe_oncall :: "uuid \<Rightarrow> instant \<Rightarrow> uuid option option" \<comment> \<open>outer none: error\<close>
  pe_ops_team :: "uuid option"
  pe_resolver :: bool

text \<open>The target loop: users found so far, and whether voice is forced.\<close>

fun target_loop :: "policy_engine \<Rightarrow> instant \<Rightarrow> esc_target list \<Rightarrow> uuid list \<Rightarrow> bool \<Rightarrow> uuid list \<times> bool" where
  "target_loop e now [] users forced = (users, forced)"
| "target_loop e now (t # ts) users forced =
     (if tg_type t = ''user'' then
        (case tg_user t of
           Some u \<Rightarrow> if u \<notin> set users then target_loop e now ts (users @ [u]) forced
                     else target_loop e now ts users forced
         | None \<Rightarrow> target_loop e now ts users forced)
      else if tg_type t = ''team'' then
        (case tg_team t of
           None \<Rightarrow> target_loop e now ts users forced
         | Some team \<Rightarrow>
             if \<not> pe_resolver e then target_loop e now ts users forced
             else
               let forced' = (forced \<or> pe_ops_team e = Some team)
               in (case pe_schedule e team of
                     None \<Rightarrow> target_loop e now ts users forced'
                   | Some sched \<Rightarrow>
                       (case pe_oncall e sched now of
                          Some (Some u) \<Rightarrow>
                            if u \<notin> set users then target_loop e now ts (users @ [u]) forced'
                            else target_loop e now ts users forced'
                        | _ \<Rightarrow> target_loop e now ts users forced')))
      else target_loop e now ts users forced)"

definition EvaluatePolicy ::
    "policy_engine \<Rightarrow> instant \<Rightarrow> uuid \<Rightarrow> int \<Rightarrow> (uuid list \<times> string list \<times> bool) option" where
  "EvaluatePolicy e now policyID level =
     (case pe_policy e policyID of
        None \<Rightarrow> None
      | Some policy \<Rightarrow>
          (case List.find (\<lambda>l. el_number l = level) (ep_levels policy) of
             None \<Rightarrow> None
           | Some target \<Rightarrow>
               let (users, forced) = target_loop e now (el_targets target) [] False
               in Some (users, dedup_by (\<lambda>c. c) [] (el_channels target), forced)))"

subsection \<open>Schedules and delays\<close>

text \<open>\<^verbatim>\<open>encodeEscalationSchedule\<close>: none for the empty string (no usable level).\<close>

definition add_level :: "schedule \<Rightarrow> esc_level \<Rightarrow> schedule" where
  "add_level sched lvl =
     (if el_number lvl \<le> 0 then sched
      else \<lparr>sc_max = (if el_number lvl > sc_max sched then el_number lvl else sc_max sched),
            sc_delays = (sc_delays sched)(el_number lvl \<mapsto> el_delay lvl)\<rparr>)"

definition encodeEscalationSchedule :: "esc_level list \<Rightarrow> schedule option" where
  "encodeEscalationSchedule levels =
     (let sched = foldl add_level \<lparr>sc_max = 0, sc_delays = Map.empty\<rparr> levels
      in if sc_max sched = 0 then None else Some sched)"

text \<open>The delay in minutes times \<^verbatim>\<open>time.Minute\<close> wraps at 64 bits; the floor is one minute.\<close>

definition level_delay :: "int \<Rightarrow> int" where
  "level_delay delayMin =
     (let d = wrap64 (delayMin * go_minute) in if d < go_minute then go_minute else d)"

definition scheduleDelayForLevel :: "schedule \<Rightarrow> int \<Rightarrow> int" where
  "scheduleDelayForLevel sched level =
     (case sc_delays sched level of
        Some delayMin \<Rightarrow> level_delay delayMin
      | None \<Rightarrow> 5 * go_minute)"

definition delayForPolicyLevel :: "esc_policy \<Rightarrow> int \<Rightarrow> int" where
  "delayForPolicyLevel policy level =
     (case List.find (\<lambda>l. el_number l = level) (ep_levels policy) of
        Some l \<Rightarrow> level_delay (el_delay l)
      | None \<Rightarrow> 5 * go_minute)"

definition unix :: "instant \<Rightarrow> int" where
  "unix t = t div go_second"

subsection \<open>Cancellation\<close>

datatype esc_output =
    EscNotify uuid "string list" int int \<comment> \<open>user, channels, incident, level\<close>
  | EscTimeline int int nat bool \<comment> \<open>incident, level, users notified, forced\<close>
  | EscCancelled int \<comment> \<open>timeline entry ``Escalation stopped''\<close>

definition CancelForIncident :: "'v kv_api \<Rightarrow> bool \<Rightarrow> int \<Rightarrow> 'v \<Rightarrow> esc_output list \<times> 'v" where
  "CancelForIncident api timeline n s =
     (let wasPending = kv_zscore api n s;
          s1 = snd (kv_hset api (KEsc n) ''acknowledged'' (HInt 1) s);
          s2 = snd (kv_zrem api n s1)
      in (if \<not> timeline \<or> wasPending = None \<or> wasPending = Some 0 \<or> n \<le> 0 then []
          else [EscCancelled n], s2))"

subsection \<open>Guards\<close>

datatype guard_result = guardAllow | guardSkipAcknowledged | guardSkipSilenced | guardSkipClaimLost

definition preflightEscalationState :: "'v kv_api \<Rightarrow> instant \<Rightarrow> int \<Rightarrow> 'v \<Rightarrow> guard_result" where
  "preflightEscalationState api now n s =
     (if kv_hget api (KEsc n) ''acknowledged'' s = Some (HInt 1) then guardSkipAcknowledged
      else case kv_hget api (KEsc n) ''silenced_until'' s of
             Some (HInt silenced) \<Rightarrow> if silenced > unix now then guardSkipSilenced else guardAllow
           | _ \<Rightarrow> guardAllow)"

definition claimEscalationFirstPublish ::
    "'v kv_api \<Rightarrow> instant \<Rightarrow> int \<Rightarrow> uuid \<Rightarrow> int \<Rightarrow> 'v \<Rightarrow> guard_result \<times> 'v" where
  "claimEscalationFirstPublish api now n policyID levelHint s =
     (let verdict = preflightEscalationState api now n s
      in if verdict \<noteq> guardAllow then (verdict, s)
         else case kv_setnx api (KEscClaim n) s of
                (Some True, s1) \<Rightarrow>
                  let s2 = snd (kv_hset api (KEsc n) ''policy_id'' (HUuid policyID) s1);
                      s3 = snd (kv_hset api (KEsc n) ''current_level'' (HInt levelHint) s2)
                  in (guardAllow, s3)
              | (_, s1) \<Rightarrow> (guardSkipClaimLost, s1))"

subsection \<open>The sweep\<close>

record esc_msg =
  em_incident :: int
  em_policy :: uuid
  em_level :: int
  em_retry :: int
  em_max :: int

definition MaxEscalationRetries :: int where
  "MaxEscalationRetries = 4"

text \<open>The script \<^verbatim>\<open>claimLua\<close>, executed atomically by the server.\<close>

definition claimLua :: "'v kv_api \<Rightarrow> int \<Rightarrow> int \<Rightarrow> 'v \<Rightarrow> bool \<times> 'v" where
  "claimLua api n max_score s =
     (case kv_zscore api n s of
        Some score \<Rightarrow> if score \<le> max_score then (True, snd (kv_zrem api n s)) else (False, s)
      | None \<Rightarrow> (False, s))"

text \<open>The script \<^verbatim>\<open>escalateLua\<close>.\<close>

definition escalateLua :: "'v kv_api \<Rightarrow> int \<Rightarrow> int \<Rightarrow> int \<Rightarrow> 'v \<Rightarrow> 'v" where
  "escalateLua api n level nextFire s =
     snd (kv_zadd api nextFire n (snd (kv_hset api (KEsc n) ''current_level'' (HInt level) s)))"

definition dropEntry :: "'v kv_api \<Rightarrow> int \<Rightarrow> 'v \<Rightarrow> 'v" where
  "dropEntry api n s = snd (kv_zrem api n s)"

definition cacheScheduleFromPolicy :: "'v kv_api \<Rightarrow> int \<Rightarrow> esc_level list \<Rightarrow> 'v \<Rightarrow> schedule option \<times> 'v" where
  "cacheScheduleFromPolicy api n levels s =
     (case encodeEscalationSchedule levels of
        None \<Rightarrow> (None, s)
      | Some sched \<Rightarrow> (Some sched, snd (kv_hset api (KEsc n) ''level_schedule'' (HSched sched) s)))"

text \<open>The schedule of the hash, or of the policy when the hash has none (\<open>None\<close>: entry dropped).\<close>

definition sweep_schedule ::
    "'v kv_api \<Rightarrow> (uuid \<Rightarrow> esc_policy option) option \<Rightarrow> int \<Rightarrow> uuid \<Rightarrow> 'v \<Rightarrow> schedule option \<times> 'v" where
  "sweep_schedule api policies n policyID s =
     (let cached = (case kv_hget api (KEsc n) ''level_schedule'' s of
                      Some (HSched sched) \<Rightarrow> if sc_max sched = 0 then None else Some sched
                    | _ \<Rightarrow> None)
      in case cached of
           Some sched \<Rightarrow> (Some sched, s)
         | None \<Rightarrow>
             (case policies of
                None \<Rightarrow> (None, dropEntry api n s)
              | Some get \<Rightarrow>
                  (case get policyID of
                     None \<Rightarrow> (None, dropEntry api n s)
                   | Some policy \<Rightarrow>
                       if ep_levels policy = [] then (None, dropEntry api n s)
                       else
                         (case cacheScheduleFromPolicy api n (ep_levels policy) s of
                            (None, s1) \<Rightarrow> (None, dropEntry api n s1)
                          | (Some sched, s1) \<Rightarrow> (Some sched, s1)))))"

text \<open>The second half of \<^verbatim>\<open>processOne\<close>: next level, repetition, publication, re-arming. \<open>pub_ok\<close>:
  a publisher is configured and accepts the message.\<close>

definition advance_level ::
    "'v kv_api \<Rightarrow> (uuid \<Rightarrow> esc_policy option) option \<Rightarrow> bool \<Rightarrow> instant \<Rightarrow> int \<Rightarrow> int \<Rightarrow> uuid \<Rightarrow> int \<Rightarrow> 'v
     \<Rightarrow> esc_msg list \<times> 'v" where
  "advance_level api policies pub_ok now n currentLevel policyID repeatRemaining s =
     (case sweep_schedule api policies n policyID s of
        (None, s1) \<Rightarrow> ([], s1)
      | (Some sched, s1) \<Rightarrow>
          let next = wrap64 (currentLevel + 1);
              wrapped = (next > sc_max sched);
              level = (if wrapped then 1 else next);
              s2 = (if wrapped
                    then snd (kv_hset api (KEsc n) ''repeat_remaining'' (HInt (repeatRemaining - 1)) s1)
                    else s1)
          in if wrapped \<and> repeatRemaining \<le> 0 then ([], dropEntry api n s1)
             else if \<not> pub_ok then ([], dropEntry api n s2)
             else
               ([\<lparr>em_incident = n, em_policy = policyID, em_level = level, em_retry = 0,
                  em_max = MaxEscalationRetries\<rparr>],
                escalateLua api n level (unix (now + scheduleDelayForLevel sched level)) s2))"

definition processOne ::
    "'v kv_api \<Rightarrow> (uuid \<Rightarrow> esc_policy option) option \<Rightarrow> bool \<Rightarrow> instant \<Rightarrow> int \<Rightarrow> 'v
     \<Rightarrow> esc_msg list \<times> 'v" where
  "processOne api policies pub_ok now n s =
     (case kv_hget api (KEsc n) ''acknowledged'' s of
        None \<Rightarrow> ([], s)
      | Some ack \<Rightarrow>
          if ack = HInt 1 then ([], s)
          else case kv_hget api (KEsc n) ''current_level'' s of
            Some (HInt currentLevel) \<Rightarrow>
              (case (case kv_hget api (KEsc n) ''silenced_until'' s of
                       Some (HInt t) \<Rightarrow> if t > unix now then Some t else None
                     | _ \<Rightarrow> None) of
                 Some silencedUntil \<Rightarrow> ([], escalateLua api n currentLevel silencedUntil s)
               | None \<Rightarrow>
                   (case kv_hget api (KEsc n) ''policy_id'' s of
                      Some (HUuid policyID) \<Rightarrow>
                        advance_level api policies pub_ok now n currentLevel policyID
                          (case kv_hget api (KEsc n) ''repeat_remaining'' s of
                             Some (HInt r) \<Rightarrow> r | _ \<Rightarrow> 0) s
                    | _ \<Rightarrow> ([], s)))
          | _ \<Rightarrow> ([], s))"

text \<open>A tick: each due entry is claimed and, when the claim succeeds, processed.\<close>

fun tick_loop ::
    "'v kv_api \<Rightarrow> (uuid \<Rightarrow> esc_policy option) option \<Rightarrow> bool \<Rightarrow> instant \<Rightarrow> int list \<Rightarrow> 'v
     \<Rightarrow> esc_msg list \<times> 'v" where
  "tick_loop api policies pub_ok now [] s = ([], s)"
| "tick_loop api policies pub_ok now (n # ns) s =
     (let (claimed, s1) = claimLua api n (unix now) s;
          (ms, s2) = (if claimed then processOne api policies pub_ok now n s1 else ([], s1));
          (ms', s3) = tick_loop api policies pub_ok now ns s2
      in (ms @ ms', s3))"

definition tick ::
    "'v kv_api \<Rightarrow> (uuid \<Rightarrow> esc_policy option) option \<Rightarrow> bool \<Rightarrow> instant \<Rightarrow> 'v \<Rightarrow> esc_msg list \<times> 'v" where
  "tick api policies pub_ok now s =
     (case kv_zrange api (unix now) s of
        None \<Rightarrow> ([], s)
      | Some results \<Rightarrow> tick_loop api policies pub_ok now results s)"

subsection \<open>The worker\<close>

definition escalationRetryBudget :: "int \<Rightarrow> int" where
  "escalationRetryBudget maxRetries =
     (if maxRetries \<le> 0 \<or> maxRetries > MaxEscalationRetries then MaxEscalationRetries else maxRetries)"

text \<open>\<^verbatim>\<open>publishRetry\<close>: the queue of the attempt, none beyond the ladder.\<close>

definition publishRetry :: "int \<Rightarrow> int \<Rightarrow> bool \<Rightarrow> int option" where
  "publishRetry retryCount maxRetries accepted =
     (if retryCount > maxRetries then None
      else if retryCount < 1 \<or> retryCount > 4 then None
      else if accepted then Some retryCount else None)"

definition dispatchEscalation ::
    "bool \<Rightarrow> bool \<Rightarrow> int \<Rightarrow> int \<Rightarrow> uuid list \<Rightarrow> string list \<Rightarrow> bool \<Rightarrow> esc_output list" where
  "dispatchEscalation publisher store n level users channels forced =
     (let chs = (if forced then [''voice''] else channels)
      in (if publisher then map (\<lambda>u. EscNotify u chs n level) users else []) @
         (if store \<and> n > 0 then [EscTimeline n level (length users) forced] else []))"

definition seed_fields :: "policy_engine \<Rightarrow> esc_msg \<Rightarrow> (string \<times> hval) list" where
  "seed_fields e msg =
     [(''current_level'', HInt (em_level msg)), (''policy_id'', HUuid (em_policy msg)),
      (''acknowledged'', HInt 0),
      (''repeat_remaining'', HInt (case pe_policy e (em_policy msg) of
                                     None \<Rightarrow> 0 | Some p \<Rightarrow> ep_repeat p))] @
     (case pe_policy e (em_policy msg) of
        None \<Rightarrow> []
      | Some p \<Rightarrow> (case encodeEscalationSchedule (ep_levels p) of
                     None \<Rightarrow> [] | Some sched \<Rightarrow> [(''level_schedule'', HSched sched)]))"

text \<open>\<^verbatim>\<open>HMSet\<close> writes field after field and stops at the first error; the field \<^verbatim>\<open>started_at\<close>, read
  by nobody here, is left out.\<close>

fun HMSet :: "'v kv_api \<Rightarrow> vkey \<Rightarrow> (string \<times> hval) list \<Rightarrow> 'v \<Rightarrow> bool \<times> 'v" where
  "HMSet api key [] s = (True, s)"
| "HMSet api key ((f, v) # fs) s =
     (case kv_hset api key f v s of
        (True, s1) \<Rightarrow> HMSet api key fs s1
      | (False, s1) \<Rightarrow> (False, s1))"

definition seedLevel1State :: "'v kv_api \<Rightarrow> policy_engine \<Rightarrow> instant \<Rightarrow> esc_msg \<Rightarrow> 'v \<Rightarrow> 'v" where
  "seedLevel1State api e now msg s =
     (let nextDelay = (case pe_policy e (em_policy msg) of
                         None \<Rightarrow> 15 * go_minute
                       | Some p \<Rightarrow> delayForPolicyLevel p (em_level msg));
          s1 = snd (HMSet api (KEsc (em_incident msg)) (seed_fields e msg) s)
      in snd (kv_zadd api (unix (now + nextDelay)) (em_incident msg) s1))"

datatype esc_verdict = EscAck | EscNack | EscRetry esc_msg

text \<open>What the worker is connected to: publisher (with its answer for a retry), incident store,
  whether the incident is cancelled (\<^verbatim>\<open>cancellation.IncidentCancelled\<close>), its status (none when the
  lookup fails or finds nothing), Valkey configured or not.\<close>

record esc_worker =
  ew_engine :: policy_engine
  ew_publisher :: bool
  ew_retry_ok :: bool
  ew_store :: bool
  ew_cancelled :: "int \<Rightarrow> bool"
  ew_status :: "int \<Rightarrow> string option"
  ew_valkey :: bool

definition HandleEscalation ::
    "'v kv_api \<Rightarrow> esc_worker \<Rightarrow> instant \<Rightarrow> esc_msg \<Rightarrow> 'v \<Rightarrow> esc_verdict \<times> esc_output list \<times> 'v" where
  "HandleEscalation api w now msg s =
     (if em_level msg \<le> 0 then (EscNack, [], s)
      else if ew_cancelled w (em_incident msg) then (EscAck, [], s)
      else if ew_store w \<and> em_incident msg > 0 \<and>
              (case ew_status w (em_incident msg) of
                 None \<Rightarrow> False | Some st \<Rightarrow> IsTerminalIncidentStatus st)
      then (EscAck, [], s)
      else case EvaluatePolicy (ew_engine w) now (em_policy msg) (em_level msg) of
        None \<Rightarrow>
          (let msg' = msg\<lparr>em_retry := em_retry msg + 1\<rparr>
           in if ew_publisher w \<and> em_retry msg' \<le> escalationRetryBudget (em_max msg') \<and>
                 publishRetry (em_retry msg') MaxEscalationRetries (ew_retry_ok w) \<noteq> None
              then (EscRetry msg', [], s)
              else (EscNack, [], s))
      | Some (users, channels, forced) \<Rightarrow>
          (EscAck,
           dispatchEscalation (ew_publisher w) (ew_store w) (em_incident msg) (em_level msg)
             users channels forced,
           if ew_valkey w \<and> em_level msg = 1 then seedLevel1State api (ew_engine w) now msg s else s))"

end
