(* ===== verification/Escalation_Run.thy ===== *)
theory Escalation_Run
  imports Escalation
begin

text \<open>
  The escalation workers at work: what the sweep does to other incidents, what stops it, how far
  it goes. \<open>run_ticks\<close> is a sequence of sweeps; \<open>round\<close> is one due advance of an incident with
  the worker handling the published message before the next one, and \<open>run_rounds\<close> iterates it.
\<close>

subsection \<open>Delays\<close>

lemma level_delay_min: "go_minute \<le> level_delay m"
  by (simp add: level_delay_def Let_def)

lemma schedule_delay_min: "go_minute \<le> scheduleDelayForLevel sched level"
  using level_delay_min by (simp add: scheduleDelayForLevel_def split: option.split) (simp add: duration_defs)

lemma policy_delay_min: "go_minute \<le> delayForPolicyLevel policy level"
  using level_delay_min by (simp add: delayForPolicyLevel_def split: option.split) (simp add: duration_defs)

lemma unix_later: "go_minute \<le> d \<Longrightarrow> unix now + 60 \<le> unix (now + d)"
proof -
  assume "go_minute \<le> d"
  then have "(now + go_minute) div go_second \<le> (now + d) div go_second"
    by (intro zdiv_mono1) (auto simp: duration_defs)
  moreover have "(now + go_minute) div go_second = now div go_second + 60"
    by (simp add: duration_defs)
  ultimately show ?thesis by (simp add: unix_def)
qed

subsection \<open>Sequences of ticks\<close>

fun run_ticks ::
    "'v kv_api \<Rightarrow> (uuid \<Rightarrow> esc_policy option) option \<Rightarrow> (instant \<times> bool) list \<Rightarrow> 'v \<Rightarrow> esc_msg list \<times> 'v" where
  "run_ticks api policies [] s = ([], s)"
| "run_ticks api policies ((now, pub_ok) # ts) s =
     (let (ms, s1) = tick api policies pub_ok now s;
          (ms', s2) = run_ticks api policies ts s1
      in (ms @ ms', s2))"

text \<open>One advance of an incident at time \<open>now\<close>, if it is due: claim, advance, and the worker
  handles what was published. \<open>run_due\<close> takes each round at the very second it is due.\<close>

fun handle_all ::
    "'v kv_api \<Rightarrow> esc_worker \<Rightarrow> instant \<Rightarrow> esc_msg list \<Rightarrow> 'v \<Rightarrow> esc_output list \<times> 'v" where
  "handle_all api w now [] s = ([], s)"
| "handle_all api w now (m # ms) s =
     (let (v, outs, s1) = HandleEscalation api w now m s;
          (outs', s2) = handle_all api w now ms s1
      in (outs @ outs', s2))"

definition round ::
    "'v kv_api \<Rightarrow> esc_worker \<Rightarrow> instant \<Rightarrow> int \<Rightarrow> 'v \<Rightarrow> esc_msg list \<times> esc_output list \<times> 'v" where
  "round api w now n s =
     (let (claimed, s1) = claimLua api n (unix now) s;
          (ms, s2) = (if claimed then processOne api (Some (pe_policy (ew_engine w))) True now n s1
                      else ([], s1));
          (outs, s3) = handle_all api w now ms s2
      in (ms, outs, s3))"

fun run_rounds ::
    "'v kv_api \<Rightarrow> esc_worker \<Rightarrow> int \<Rightarrow> instant list \<Rightarrow> 'v \<Rightarrow> esc_msg list \<times> 'v" where
  "run_rounds api w n [] s = ([], s)"
| "run_rounds api w n (t # ts) s =
     (let (ms, outs, s1) = round api w t n s;
          (ms', s2) = run_rounds api w n ts s1
      in (ms @ ms', s2))"

fun run_due :: "'v kv_api \<Rightarrow> esc_worker \<Rightarrow> int \<Rightarrow> nat \<Rightarrow> 'v \<Rightarrow> esc_msg list \<times> 'v" where
  "run_due api w n 0 s = ([], s)"
| "run_due api w n (Suc k) s =
     (case kv_zscore api n s of
        None \<Rightarrow> ([], s)
      | Some sc \<Rightarrow>
          let (ms, outs, s1) = round api w (sc * go_second) n s;
              (ms', s2) = run_due api w n k s1
          in (ms @ ms', s2))"

context reliable_valkey
begin

text \<open>The part of the server state that belongs to incident \<open>n\<close>.\<close>

definition same_for :: "int \<Rightarrow> 'v \<Rightarrow> 'v \<Rightarrow> bool" where
  "same_for n s s' \<longleftrightarrow>
     (\<forall>f. kv_hget api (KEsc n) f s' = kv_hget api (KEsc n) f s) \<and> kv_zscore api n s' = kv_zscore api n s"

lemma same_for_refl [simp]: "same_for n s s"
  by (simp add: same_for_def)

lemma same_for_trans: "same_for n s s1 \<Longrightarrow> same_for n s1 s2 \<Longrightarrow> same_for n s s2"
  by (simp add: same_for_def)

lemma same_for_hset [simp]: "m \<noteq> n \<Longrightarrow> same_for n s (snd (kv_hset api (KEsc m) f x s))"
  by (simp add: same_for_def kv_simps)

lemma same_for_zadd [simp]: "m \<noteq> n \<Longrightarrow> same_for n s (snd (kv_zadd api sc m s))"
  by (simp add: same_for_def kv_simps)

lemma same_for_zrem [simp]: "m \<noteq> n \<Longrightarrow> same_for n s (snd (kv_zrem api m s))"
  by (simp add: same_for_def kv_simps)

lemma same_for_drop [simp]: "m \<noteq> n \<Longrightarrow> same_for n s (dropEntry api m s)"
  by (simp add: dropEntry_def)

lemma same_for_escalate [simp]: "m \<noteq> n \<Longrightarrow> same_for n s (escalateLua api m l t s)"
  unfolding escalateLua_def by (blast intro: same_for_trans same_for_hset same_for_zadd)

lemma same_for_claim: "m \<noteq> n \<Longrightarrow> same_for n s (snd (claimLua api m mx s))"
  by (simp add: claimLua_def split: option.split)

lemma sweep_schedule_same: "m \<noteq> n \<Longrightarrow> same_for n s (snd (sweep_schedule api policies m pid s))"
  by (auto simp: sweep_schedule_def cacheScheduleFromPolicy_def Let_def
      split: option.splits hval.splits prod.splits)

lemma advance_frame:
  assumes "advance_level api policies ok now m l pid r s = (ms, s')"
  shows "(\<forall>x \<in> set ms. em_incident x = m) \<and> (m \<noteq> n \<longrightarrow> same_for n s s')"
proof -
  obtain sched s1 where sw: "sweep_schedule api policies m pid s = (sched, s1)" by force
  have mine: "\<forall>x \<in> set ms. em_incident x = m"
    using assms by (auto simp: advance_level_def sw Let_def split: option.splits if_splits)
  moreover have "same_for n s s'" if mn: "m \<noteq> n"
  proof -
    have "same_for n s s1" using sweep_schedule_same [OF mn, of s policies pid] sw by simp
    moreover have "same_for n s1 s'"
    proof -
      have "same_for n s1 (escalateLua api m k t (snd (kv_hset api (KEsc m) f x s1)))"
        "same_for n s1 (dropEntry api m (snd (kv_hset api (KEsc m) f x s1)))" for k t f x
        using same_for_trans [OF same_for_hset [OF mn]] same_for_escalate [OF mn] same_for_drop [OF mn]
        by blast+
      then show ?thesis
        using assms mn by (auto simp: advance_level_def sw Let_def split: option.splits if_splits)
    qed
    ultimately show ?thesis by (rule same_for_trans)
  qed
  ultimately show ?thesis by blast
qed

lemma processOne_cases:
  assumes "processOne api policies ok now n s = (ms, s')"
  obtains (idle) "ms = []" "s' = s"
  | (silenced) l t where "ms = []" "s' = escalateLua api n l t s"
  | (advance) l pid r where "advance_level api policies ok now n l pid r s = (ms, s')"
      "kv_hget api (KEsc n) ''acknowledged'' s \<noteq> Some (HInt 1)"
proof -
  let ?ack = "kv_hget api (KEsc n) ''acknowledged'' s"
  let ?lvl = "kv_hget api (KEsc n) ''current_level'' s"
  let ?sil = "case kv_hget api (KEsc n) ''silenced_until'' s of
                Some (HInt t) \<Rightarrow> if t > unix now then Some t else None | _ \<Rightarrow> None"
  let ?pid = "kv_hget api (KEsc n) ''policy_id'' s"
  show ?thesis
  proof (cases "?ack = None \<or> ?ack = Some (HInt 1) \<or> (\<forall>l. ?lvl \<noteq> Some (HInt l))")
    case True
    then have "processOne api policies ok now n s = ([], s)"
      unfolding processOne_def
      by (cases ?ack; cases ?lvl) (auto split: hval.splits)
    with assms idle show ?thesis by simp
  next
    case False
    then obtain a l where al: "?ack = Some a" "a \<noteq> HInt 1" "?lvl = Some (HInt l)" by auto
    show ?thesis
    proof (cases ?sil)
      case (Some t)
      with al assms show ?thesis by (intro silenced [of l t]) (simp_all add: processOne_def)
    next
      case none: None
      show ?thesis
      proof (cases "\<exists>p. ?pid = Some (HUuid p)")
        case True
        with al none assms advance show ?thesis by (auto simp: processOne_def)
      next
        case False
        with al none have "processOne api policies ok now n s = ([], s)"
          unfolding processOne_def by (cases ?pid) (auto split: hval.splits)
        with assms idle show ?thesis by simp
      qed
    qed
  qed
qed

lemma processOne_frame:
  assumes "processOne api policies ok now m s = (ms, s')"
  shows "(\<forall>x \<in> set ms. em_incident x = m) \<and> (m \<noteq> n \<longrightarrow> same_for n s s')"
  using assms by (cases rule: processOne_cases) (auto dest: advance_frame)

lemma tick_loop_frame:
  assumes "tick_loop api policies ok now ns s = (ms, s')" "n \<notin> set ns"
  shows "(\<forall>x \<in> set ms. em_incident x \<noteq> n) \<and> same_for n s s'"
  using assms
proof (induction ns arbitrary: s ms s')
  case (Cons m ns)
  obtain c s1 where c: "claimLua api m (unix now) s = (c, s1)" by force
  obtain ms1 s2 where p: "(if c then processOne api policies ok now m s1 else ([], s1)) = (ms1, s2)"
    by force
  obtain ms2 s3 where t: "tick_loop api policies ok now ns s2 = (ms2, s3)" by force
  have eq: "ms = ms1 @ ms2" "s' = s3" using Cons.prems(1) c p t by simp_all
  have "m \<noteq> n" using Cons.prems(2) by auto
  then have "same_for n s s1" using same_for_claim [of m n s "unix now"] c by simp
  moreover have "(\<forall>x \<in> set ms1. em_incident x \<noteq> n) \<and> same_for n s1 s2"
    using p processOne_frame [of policies ok now m s1 ms1 s2 n] \<open>m \<noteq> n\<close> by (auto split: if_splits)
  moreover have "(\<forall>x \<in> set ms2. em_incident x \<noteq> n) \<and> same_for n s2 s3"
    using Cons.IH [OF t] Cons.prems(2) by simp
  ultimately show ?case
    using eq same_for_trans [of n s s1 s2] same_for_trans [of n s s2 s3] by auto
qed simp

text \<open>A stopped incident is acknowledged and not pending.\<close>

definition stopped :: "int \<Rightarrow> 'v \<Rightarrow> bool" where
  "stopped n s \<longleftrightarrow>
     kv_hget api (KEsc n) ''acknowledged'' s = Some (HInt 1) \<and> kv_zscore api n s = None"

lemma stopped_same: "stopped n s \<Longrightarrow> same_for n s s' \<Longrightarrow> stopped n s'"
  by (simp add: stopped_def same_for_def)

lemma cancel_stops: "stopped n (snd (CancelForIncident api timeline n s))"
  by (simp add: CancelForIncident_def stopped_def kv_simps Let_def)

lemma tick_stopped:
  assumes "stopped n s" "tick api policies ok now s = (ms, s')"
  shows "(\<forall>x \<in> set ms. em_incident x \<noteq> n) \<and> stopped n s'"
proof -
  obtain ns where ns: "kv_zrange api (unix now) s = Some ns"
    "set ns = {m. \<exists>sc. kv_zscore api m s = Some sc \<and> sc \<le> unix now}"
    using zrange by blast
  then have "n \<notin> set ns" using assms(1) by (simp add: stopped_def)
  moreover have "tick_loop api policies ok now ns s = (ms, s')"
    using assms(2) ns(1) by (simp add: tick_def)
  ultimately show ?thesis using tick_loop_frame stopped_same [OF assms(1)] by blast
qed

lemma run_ticks_stopped:
  assumes "stopped n s" "run_ticks api policies ts s = (ms, s')"
  shows "(\<forall>x \<in> set ms. em_incident x \<noteq> n) \<and> stopped n s'"
  using assms
proof (induction ts arbitrary: s ms s')
  case (Cons t ts)
  obtain now ok where t: "t = (now, ok)" by force
  obtain ms1 s1 where a: "tick api policies ok now s = (ms1, s1)" by force
  obtain ms2 s2 where b: "run_ticks api policies ts s1 = (ms2, s2)" by force
  have eq: "ms = ms1 @ ms2" "s' = s2" using Cons.prems(2) t a b by simp_all
  from tick_stopped [OF Cons.prems(1) a] Cons.IH [of s1 ms2] b eq show ?case by auto
qed simp

lemma stopped_guard:
  "stopped n s \<Longrightarrow> claimEscalationFirstPublish api now n pid l s = (guardSkipAcknowledged, s)"
  by (simp add: claimEscalationFirstPublish_def preflightEscalationState_def stopped_def Let_def)

text \<open>The claim key: one publisher wins.\<close>

lemma claim_blocked:
  assumes "kv_exists api (KEscClaim n) s"
  shows "fst (claimEscalationFirstPublish api now n pid l s) \<noteq> guardAllow"
proof -
  obtain s1 where sx: "kv_setnx api (KEscClaim n) s = (Some False, s1)"
    using setnx_res [of "KEscClaim n" s] assms by (metis (full_types) prod.collapse)
  then show ?thesis
    by (auto simp: claimEscalationFirstPublish_def Let_def)
qed

lemma claim_allow:
  assumes "claimEscalationFirstPublish api now n pid l s = (guardAllow, s')"
  shows "kv_exists api (KEscClaim n) s' \<and>
    kv_hget api (KEsc n) ''current_level'' s' = Some (HInt l) \<and>
    kv_hget api (KEsc n) ''policy_id'' s' = Some (HUuid pid)"
proof -
  have "\<not> kv_exists api (KEscClaim n) s" using claim_blocked assms by (metis fst_conv)
  then obtain s1 where sx: "kv_setnx api (KEscClaim n) s = (Some True, s1)"
    using setnx_res [of "KEscClaim n" s] by (metis (full_types) prod.collapse)
  have s1: "s1 = snd (kv_setnx api (KEscClaim n) s)" using sx by simp
  have "s' = snd (kv_hset api (KEsc n) ''current_level'' (HInt l)
      (snd (kv_hset api (KEsc n) ''policy_id'' (HUuid pid) s1)))"
    using assms by (simp add: claimEscalationFirstPublish_def Let_def sx split: if_splits)
  then show ?thesis by (simp add: kv_simps s1)
qed

subsection \<open>Armed escalations\<close>

text \<open>The state in which the sweep leaves a pending, unacknowledged, unsilenced incident.\<close>

definition armed :: "int \<Rightarrow> uuid \<Rightarrow> schedule \<Rightarrow> int \<Rightarrow> int \<Rightarrow> 'v \<Rightarrow> bool" where
  "armed n pid sched level rep s \<longleftrightarrow>
     kv_hget api (KEsc n) ''acknowledged'' s = Some (HInt 0) \<and>
     kv_hget api (KEsc n) ''current_level'' s = Some (HInt level) \<and>
     kv_hget api (KEsc n) ''silenced_until'' s = None \<and>
     kv_hget api (KEsc n) ''policy_id'' s = Some (HUuid pid) \<and>
     kv_hget api (KEsc n) ''repeat_remaining'' s = Some (HInt rep) \<and>
     kv_hget api (KEsc n) ''level_schedule'' s = Some (HSched sched) \<and>
     kv_zscore api n s \<noteq> None"

lemma claim_due:
  assumes "kv_zscore api n s = Some sc" "sc \<le> mx"
  shows "claimLua api n mx s = (True, snd (kv_zrem api n s))"
  using assms by (simp add: claimLua_def)

lemma processOne_advance:
  assumes "armed n pid sched level rep s" "0 < level" "level < sc_max sched" "in_int64 (sc_max sched)"
  shows "processOne api policies True now n (snd (kv_zrem api n s)) =
     ([\<lparr>em_incident = n, em_policy = pid, em_level = level + 1, em_retry = 0, em_max = MaxEscalationRetries\<rparr>],
      escalateLua api n (level + 1) (unix (now + scheduleDelayForLevel sched (level + 1)))
        (snd (kv_zrem api n s)))"
proof -
  have "in_int64 (level + 1)" using assms by (auto simp: in_int64_def)
  then show ?thesis
    using assms
    by (simp add: processOne_def advance_level_def armed_def kv_simps sweep_schedule_def Let_def wrap64_id)
qed

lemma processOne_wrap:
  assumes "armed n pid sched level rep s" "0 < sc_max sched" "sc_max sched \<le> level" "in_int64 (level + 1)" "0 < rep"
  shows "processOne api policies True now n (snd (kv_zrem api n s)) =
     ([\<lparr>em_incident = n, em_policy = pid, em_level = 1, em_retry = 0, em_max = MaxEscalationRetries\<rparr>],
      escalateLua api n 1 (unix (now + scheduleDelayForLevel sched 1))
        (snd (kv_hset api (KEsc n) ''repeat_remaining'' (HInt (rep - 1)) (snd (kv_zrem api n s)))))"
  using assms by (simp add: processOne_def advance_level_def armed_def kv_simps sweep_schedule_def Let_def wrap64_id)

lemma processOne_exhausted:
  assumes "armed n pid sched level rep s" "0 < sc_max sched" "sc_max sched \<le> level" "in_int64 (level + 1)" "rep \<le> 0"
  shows "processOne api policies True now n (snd (kv_zrem api n s)) =
     ([], dropEntry api n (snd (kv_zrem api n s)))"
  using assms by (simp add: processOne_def advance_level_def armed_def kv_simps sweep_schedule_def Let_def wrap64_id)

lemma escalate_armed:
  assumes "armed n pid sched level rep s"
  shows "armed n pid sched l rep (escalateLua api n l t (snd (kv_zrem api n s)))"
    and "armed n pid sched l rep'
      (escalateLua api n l t (snd (kv_hset api (KEsc n) ''repeat_remaining'' (HInt rep') (snd (kv_zrem api n s)))))"
  using assms by (simp_all add: armed_def escalateLua_def kv_simps)

lemma HMSet_foldl: "snd (HMSet api k fs s) = foldl (\<lambda>s e. snd (kv_hset api k (fst e) (snd e) s)) s fs"
proof (induction fs arbitrary: s)
  case (Cons e fs)
  obtain g v where e: "e = (g, v)" by force
  obtain s1 where "kv_hset api k g v s = (True, s1)"
    using ok(1) [of k g v s] by (cases "kv_hset api k g v s") simp
  with Cons show ?case by (simp add: e)
qed simp

lemma seed_armed:
  assumes "pe_policy e pid = Some policy" "encodeEscalationSchedule (ep_levels policy) = Some sched"
    and "em_incident msg = n" "em_policy msg = pid" "kv_hget api (KEsc n) ''silenced_until'' s = None"
  shows "armed n pid sched (em_level msg) (ep_repeat policy) (seedLevel1State api e now msg s)"
  using assms by (simp add: armed_def seedLevel1State_def seed_fields_def Let_def kv_simps HMSet_foldl del: HMSet.simps)

subsection \<open>How far an escalation goes\<close>

text \<open>A message above level 1 only pages; it leaves the server state alone.\<close>

lemma handle_upper:
  "em_level m \<noteq> 1 \<Longrightarrow> snd (snd (HandleEscalation api w now m s)) = s"
  by (auto simp: HandleEscalation_def Let_def split: option.splits)

lemma handle_all_upper: "em_level m \<noteq> 1 \<Longrightarrow> snd (handle_all api w now [m] s) = s"
  using handle_upper [of m w now s] by (auto split: prod.splits)

lemma round_not_due:
  assumes "\<And>sc. kv_zscore api n s = Some sc \<Longrightarrow> unix now < sc"
  shows "round api w now n s = ([], [], s)"
proof -
  have "claimLua api n (unix now) s = (False, s)"
    using assms by (cases "kv_zscore api n s") (fastforce simp: claimLua_def)+
  then show ?thesis by (simp add: round_def)
qed

lemma round_advance:
  assumes "armed n pid sched level rep s" "0 < level" "level < sc_max sched" "in_int64 (sc_max sched)"
    and "kv_zscore api n s = Some sc" "sc \<le> unix now"
  shows "\<exists>m outs s'. round api w now n s = ([m], outs, s') \<and> em_level m = level + 1 \<and>
    armed n pid sched (level + 1) rep s'"
proof -
  note p = processOne_advance [OF assms(1-4), of "Some (pe_policy (ew_engine w))" now]
  obtain outs s' where h: "handle_all api w now
      [\<lparr>em_incident = n, em_policy = pid, em_level = level + 1, em_retry = 0, em_max = MaxEscalationRetries\<rparr>]
      (escalateLua api n (level + 1) (unix (now + scheduleDelayForLevel sched (level + 1)))
        (snd (kv_zrem api n s))) = (outs, s')" by force
  have "s' = escalateLua api n (level + 1) (unix (now + scheduleDelayForLevel sched (level + 1)))
        (snd (kv_zrem api n s))"
    using handle_all_upper [of "\<lparr>em_incident = n, em_policy = pid, em_level = level + 1, em_retry = 0,
        em_max = MaxEscalationRetries\<rparr>" w now] h assms(2) by (metis add_cancel_right_left esc_msg.select_convs(3) less_irrefl snd_conv)
  then show ?thesis
    using p h escalate_armed(1) [OF assms(1)] claim_due [OF assms(5,6)]
    by (simp add: round_def)
qed

lemma round_exhausted:
  assumes "armed n pid sched level rep s" "0 < sc_max sched" "sc_max sched \<le> level" "in_int64 (level + 1)"
    and "rep \<le> 0" "kv_zscore api n s = Some sc" "sc \<le> unix now"
  shows "\<exists>s'. round api w now n s = ([], [], s') \<and> kv_zscore api n s' = None"
  using processOne_exhausted [OF assms(1-5), of "Some (pe_policy (ew_engine w))" now]
    claim_due [OF assms(6,7)]
  by (simp add: round_def dropEntry_def kv_simps)

lemma run_due_stops:
  assumes "armed n pid sched level 0 s" "0 < level" "level \<le> sc_max sched" "in_int64 (sc_max sched + 1)"
    and "nat (sc_max sched - level) < k"
  shows "\<exists>ms s'. run_due api w n k s = (ms, s') \<and> kv_zscore api n s' = None \<and>
    map em_level ms = [level + 1..sc_max sched]"
  using assms
proof (induction k arbitrary: level s)
  case 0
  then show ?case by simp
next
  case (Suc k)
  obtain sc where sc: "kv_zscore api n s = Some sc" using Suc.prems(1) by (auto simp: armed_def)
  have due: "sc \<le> unix (sc * go_second)" by (simp add: unix_def duration_defs)
  show ?case
  proof (cases "level < sc_max sched")
    case True
    have "in_int64 (sc_max sched)" using Suc.prems by (simp add: in_int64_def)
    from round_advance [OF Suc.prems(1,2) True this sc due, of w] obtain m outs s1
      where r: "round api w (sc * go_second) n s = ([m], outs, s1)" "em_level m = level + 1"
        "armed n pid sched (level + 1) 0 s1" by blast
    have "0 < level + 1" "level + 1 \<le> sc_max sched" "nat (sc_max sched - (level + 1)) < k"
      using Suc.prems True by linarith+
    from Suc.IH [OF r(3) this(1,2) Suc.prems(4) this(3)] obtain ms s'
      where "run_due api w n k s1 = (ms, s')" "kv_zscore api n s' = None"
        "map em_level ms = [level + 1 + 1..sc_max sched]" by blast
    then show ?thesis
      using r(1,2) sc True by (simp add: upto_rec1 [of "level + 1"])
  next
    case False
    then have "sc_max sched \<le> level" "in_int64 (level + 1)" using Suc.prems by simp_all
    from round_exhausted [OF Suc.prems(1) _ this _ sc due, of w] Suc.prems obtain s1
      where r: "round api w (sc * go_second) n s = ([], [], s1)" "kv_zscore api n s1 = None" by force
    then have "run_due api w n k s1 = ([], s1)" by (cases k) simp_all
    then show ?thesis using r sc False Suc.prems(3) by simp
  qed
qed

text \<open>With repetitions, the wrap to level 1 is handled by the worker like a first escalation.\<close>

lemma round_wrap:
  assumes a: "armed n pid sched level rep s" "0 < sc_max sched" "sc_max sched \<le> level" "in_int64 (level + 1)"
    and rep: "0 < rep" and due: "kv_zscore api n s = Some sc" "sc \<le> unix now"
    and pol: "pe_policy (ew_engine w) pid = Some policy"
      "encodeEscalationSchedule (ep_levels policy) = Some sched"
      "EvaluatePolicy (ew_engine w) now pid 1 \<noteq> None"
    and live: "\<not> ew_cancelled w n" "\<And>st. ew_status w n = Some st \<Longrightarrow> \<not> IsTerminalIncidentStatus st"
      "ew_valkey w"
  shows "\<exists>m outs s'. round api w now n s = ([m], outs, s') \<and> em_level m = 1 \<and>
    armed n pid sched 1 (ep_repeat policy) s'"
proof -
  let ?m = "\<lparr>em_incident = n, em_policy = pid, em_level = 1, em_retry = 0, em_max = MaxEscalationRetries\<rparr>"
  let ?s1 = "escalateLua api n 1 (unix (now + scheduleDelayForLevel sched 1))
      (snd (kv_hset api (KEsc n) ''repeat_remaining'' (HInt (rep - 1)) (snd (kv_zrem api n s))))"
  note p = processOne_wrap [OF a rep, of "Some (pe_policy (ew_engine w))" now]
  obtain users chs forced where ev: "EvaluatePolicy (ew_engine w) now pid 1 = Some (users, chs, forced)"
    using pol(3) by (cases "EvaluatePolicy (ew_engine w) now pid 1") auto
  have notterm: "\<not> (case ew_status w n of None \<Rightarrow> False | Some st \<Rightarrow> IsTerminalIncidentStatus st)"
    using live(2) by (simp split: option.split)
  have h: "snd (snd (HandleEscalation api w now ?m ?s1)) = seedLevel1State api (ew_engine w) now ?m ?s1"
    using live notterm ev by (simp add: HandleEscalation_def)
  have "armed n pid sched 1 rep' ?s1" if "rep' = rep - 1" for rep'
    using escalate_armed(2) [OF a(1)] that by blast
  then have "kv_hget api (KEsc n) ''silenced_until'' ?s1 = None" by (simp add: armed_def)
  from seed_armed [OF pol(1,2) _ _ this, of ?m now]
  have "armed n pid sched 1 (ep_repeat policy) (seedLevel1State api (ew_engine w) now ?m ?s1)" by simp
  then show ?thesis
    using p h claim_due [OF due] by (auto simp: round_def split: prod.splits)
qed

lemma run_rounds_pending:
  assumes "armed n pid sched level (ep_repeat policy) s" "0 < level" "level \<le> sc_max sched"
    and "in_int64 (sc_max sched + 1)" "0 < ep_repeat policy"
    and pol: "pe_policy (ew_engine w) pid = Some policy"
      "encodeEscalationSchedule (ep_levels policy) = Some sched"
      "\<And>t. EvaluatePolicy (ew_engine w) t pid 1 \<noteq> None"
    and live: "\<not> ew_cancelled w n" "\<And>st. ew_status w n = Some st \<Longrightarrow> \<not> IsTerminalIncidentStatus st"
      "ew_valkey w"
  shows "\<exists>l. 0 < l \<and> l \<le> sc_max sched \<and>
    armed n pid sched l (ep_repeat policy) (snd (run_rounds api w n ts s))"
  using assms(1-3)
proof (induction ts arbitrary: level s)
  case Nil
  then show ?case by auto
next
  case (Cons t ts)
  obtain sc where sc: "kv_zscore api n s = Some sc" using Cons.prems(1) by (auto simp: armed_def)
  have "\<exists>ms outs s' l. round api w t n s = (ms, outs, s') \<and> 0 < l \<and> l \<le> sc_max sched \<and>
      armed n pid sched l (ep_repeat policy) s'"
  proof (cases "sc \<le> unix t")
    case False
    then have "round api w t n s = ([], [], s)" using sc by (intro round_not_due) simp
    with Cons.prems show ?thesis by blast
  next
    case due: True
    show ?thesis
    proof (cases "level < sc_max sched")
      case True
      have "in_int64 (sc_max sched)" using assms(4) Cons.prems by (simp add: in_int64_def)
      from round_advance [OF Cons.prems(1,2) True this sc due, of w] Cons.prems True
      show ?thesis by (metis add_pos_pos zero_less_one zless_imp_add1_zle)
    next
      case False
      then have lv: "sc_max sched \<le> level" "in_int64 (level + 1)" "0 < sc_max sched"
        using Cons.prems assms(4) by simp_all
      from round_wrap [OF Cons.prems(1) lv(3,1,2) assms(5) sc due pol(1,2) pol(3) live]
      show ?thesis using lv(3) by (metis int_one_le_iff_zero_less zero_less_one)
    qed
  qed
  then obtain ms outs s' l where r: "round api w t n s = (ms, outs, s')" "0 < l" "l \<le> sc_max sched"
    "armed n pid sched l (ep_repeat policy) s'" by blast
  from Cons.IH [OF r(4,2,3)] r(1) show ?case by (cases "run_rounds api w n ts s'") simp
qed

text \<open>An acknowledged incident is never published by the sweep, pending or not.\<close>

definition acked :: "int \<Rightarrow> 'v \<Rightarrow> bool" where
  "acked n s \<longleftrightarrow> kv_hget api (KEsc n) ''acknowledged'' s = Some (HInt 1)"

lemma acked_same: "acked n s \<Longrightarrow> same_for n s s' \<Longrightarrow> acked n s'"
  by (simp add: acked_def same_for_def)

lemma processOne_acked: "acked n s \<Longrightarrow> processOne api policies ok now n s = ([], s)"
  by (simp add: acked_def processOne_def)

lemma claim_acked: "acked n s \<Longrightarrow> acked n (snd (claimLua api m mx s))"
  by (simp add: acked_def claimLua_def kv_simps split: option.split)

lemma tick_loop_acked:
  assumes "acked n s" "tick_loop api policies ok now ns s = (ms, s')"
  shows "(\<forall>x \<in> set ms. em_incident x \<noteq> n) \<and> acked n s'"
  using assms
proof (induction ns arbitrary: s ms s')
  case (Cons m ns)
  obtain c s1 where c: "claimLua api m (unix now) s = (c, s1)" by force
  obtain ms1 s2 where p: "(if c then processOne api policies ok now m s1 else ([], s1)) = (ms1, s2)"
    by force
  obtain ms2 s3 where t: "tick_loop api policies ok now ns s2 = (ms2, s3)" by force
  have eq: "ms = ms1 @ ms2" "s' = s3" using Cons.prems(2) c p t by simp_all
  have s1: "acked n s1" using claim_acked [OF Cons.prems(1), of m "unix now"] c by simp
  have "(\<forall>x \<in> set ms1. em_incident x \<noteq> n) \<and> acked n s2"
  proof (cases "c \<and> m \<noteq> n")
    case True
    then show ?thesis
      using p processOne_frame [of policies ok now m s1 ms1 s2 n] acked_same [OF s1] by auto
  next
    case False
    then show ?thesis using p s1 processOne_acked [of n s1 policies ok now] by (auto split: if_splits)
  qed
  with Cons.IH [OF _ t] eq show ?case by auto
qed simp

lemma run_ticks_acked:
  assumes "acked n s" "run_ticks api policies ts s = (ms, s')"
  shows "(\<forall>x \<in> set ms. em_incident x \<noteq> n) \<and> acked n s'"
  using assms
proof (induction ts arbitrary: s ms s')
  case (Cons t ts)
  obtain now ok where t: "t = (now, ok)" by force
  obtain ms1 s1 where a: "tick api policies ok now s = (ms1, s1)" by force
  obtain ms2 s2 where b: "run_ticks api policies ts s1 = (ms2, s2)" by force
  have eq: "ms = ms1 @ ms2" "s' = s2" using Cons.prems(2) t a b by simp_all
  have "(\<forall>x \<in> set ms1. em_incident x \<noteq> n) \<and> acked n s1"
    using a Cons.prems(1) tick_loop_acked [OF Cons.prems(1)]
    by (auto simp: tick_def split: option.splits)
  with Cons.IH [of s1 ms2] b eq show ?case by auto
qed simp

lemma acked_guard:
  "acked n s \<Longrightarrow> claimEscalationFirstPublish api now n pid l s = (guardSkipAcknowledged, s)"
  by (simp add: claimEscalationFirstPublish_def preflightEscalationState_def acked_def Let_def)

lemma cancel_acked: "acked n (snd (CancelForIncident api timeline n s))"
  using cancel_stops by (simp add: acked_def stopped_def)

lemma claim_mono:
  assumes "kv_exists api (KEscClaim n) s"
  shows "kv_exists api (KEscClaim n) (snd (claimEscalationFirstPublish api now m pid l s))"
proof -
  obtain r s1 where sx: "kv_setnx api (KEscClaim m) s = (r, s1)" by force
  then have "kv_exists api (KEscClaim n) s1" using setnx_exists [of "KEscClaim n" "KEscClaim m" s] assms by simp
  then show ?thesis
    using assms by (auto simp: claimEscalationFirstPublish_def Let_def sx kv_simps split: option.split bool.split)
qed

text \<open>A published advance re-arms the entry.\<close>

lemma advance_rearms:
  assumes "advance_level api policies ok now n l pid r s = (m # ms, s')"
  shows "ms = [] \<and> em_incident m = n \<and> em_policy m = pid \<and>
    kv_hget api (KEsc n) ''current_level'' s' = Some (HInt (em_level m)) \<and>
    (\<exists>sc. kv_zscore api n s' = Some sc \<and> unix now + 60 \<le> sc)"
proof -
  obtain sched s1 where sw: "sweep_schedule api policies n pid s = (sched, s1)" by force
  have sc: "unix now + 60 \<le> unix (now + scheduleDelayForLevel sch k)" for sch k
    by (rule unix_later [OF schedule_delay_min])
  show ?thesis
    using assms sc by (auto simp: advance_level_def sw Let_def escalateLua_def kv_simps split: option.splits if_splits)
qed

lemma processOne_rearms:
  assumes "processOne api policies ok now n s = (m # ms, s')"
  shows "ms = [] \<and> em_incident m = n \<and>
    kv_hget api (KEsc n) ''current_level'' s' = Some (HInt (em_level m)) \<and>
    (\<exists>sc. kv_zscore api n s' = Some sc \<and> unix now + 60 \<le> sc)"
  using assms by (cases rule: processOne_cases) (auto dest: advance_rearms)

end

lemma add_level_max: "0 \<le> sc_max sched \<Longrightarrow> 0 \<le> sc_max (foldl add_level sched levels)"
  by (induction levels arbitrary: sched) (simp_all add: add_level_def)

lemma encode_max: "encodeEscalationSchedule levels = Some sched \<Longrightarrow> 0 < sc_max sched"
  using add_level_max [of "\<lparr>sc_max = 0, sc_delays = Map.empty\<rparr>" levels]
  by (auto simp: encodeEscalationSchedule_def Let_def split: if_splits)

lemma target_loop_distinct:
  "distinct users \<Longrightarrow> distinct (fst (target_loop e now ts users forced))"
  by (induction e now ts users forced rule: target_loop.induct)
     (auto simp: Let_def split: option.splits)

lemma EvaluatePolicy_distinct:
  "EvaluatePolicy e now pid level = Some (users, chs, forced) \<Longrightarrow> distinct users"
  using target_loop_distinct [of "[]" e now _ False]
  by (auto simp: EvaluatePolicy_def split: option.splits prod.splits) (metis fst_conv distinct.simps(1))

end
