(* ===== verification/Escalation_Correct.thy ===== *)
theory Escalation_Correct
  imports Escalation_Run
begin

text \<open>
  What the escalation pipeline promises, stated for every server that satisfies
  \<open>reliable_valkey\<close>; the witnesses run on the in-memory server.
\<close>

subsection \<open>A small world\<close>

definition demo_policy :: esc_policy where
  "demo_policy = \<lparr>ep_repeat = 0, ep_levels =
     [\<lparr>el_number = 1, el_delay = 5, el_targets = [\<lparr>tg_type = ''user'', tg_user = Some 4, tg_team = None\<rparr>,
         \<lparr>tg_type = ''user'', tg_user = Some 4, tg_team = None\<rparr>], el_channels = [''email'']\<rparr>,
      \<lparr>el_number = 2, el_delay = 10, el_targets = [\<lparr>tg_type = ''user'', tg_user = Some 6, tg_team = None\<rparr>],
       el_channels = [''email'']\<rparr>]\<rparr>"

definition demo_engine :: "int \<Rightarrow> policy_engine" where
  "demo_engine repeat = \<lparr>pe_policy = (\<lambda>p. if p = 9 then Some (demo_policy\<lparr>ep_repeat := repeat\<rparr>) else None),
     pe_schedule = (\<lambda>_. None), pe_oncall = (\<lambda>_ _. None), pe_ops_team = None, pe_resolver = True\<rparr>"

definition demo_worker :: "int \<Rightarrow> esc_worker" where
  "demo_worker repeat = \<lparr>ew_engine = demo_engine repeat, ew_publisher = True, ew_retry_ok = True, ew_store = True,
     ew_cancelled = (\<lambda>_. False), ew_status = (\<lambda>_. Some ''Triggered''), ew_valkey = True\<rparr>"

definition demo_first :: "int \<Rightarrow> esc_msg" where
  "demo_first n = \<lparr>em_incident = n, em_policy = 9, em_level = 1, em_retry = 0, em_max = 4\<rparr>"

lemmas demo_defs = demo_policy_def demo_engine_def demo_worker_def demo_first_def

text \<open>Incidents 7 and 8 have been paged at level 1 and are pending.\<close>

definition demo_pending :: mem_kv where
  "demo_pending = (let s1 = snd (snd (HandleEscalation mem_api (demo_worker 0) 0 (demo_first 7) mem_empty))
     in snd (snd (HandleEscalation mem_api (demo_worker 0) 0 (demo_first 8) s1)))"

lemmas demo_eval = demo_defs HandleEscalation_def EvaluatePolicy_def dispatchEscalation_def
  seedLevel1State_def seed_fields_def encodeEscalationSchedule_def add_level_def delayForPolicyLevel_def
  level_delay_def unix_def duration_defs mem_api_def mem_empty_def IsTerminalIncidentStatus_def
  wrap64_id in_int64_def Let_def

lemma demo_schedule:
  "encodeEscalationSchedule (ep_levels demo_policy) = Some \<lparr>sc_max = 2, sc_delays = [1 \<mapsto> 5, 2 \<mapsto> 10]\<rparr>"
  by (simp add: demo_eval)

subsection \<open>Acknowledgement stops the sweep\<close>



subsection \<open>One publisher wins\<close>

fun run_claims ::
    "'v kv_api \<Rightarrow> int \<Rightarrow> (instant \<times> uuid \<times> int) list \<Rightarrow> 'v \<Rightarrow> guard_result list \<times> 'v" where
  "run_claims api n [] s = ([], s)"
| "run_claims api n ((now, pid, hint) # cs) s =
     (let (r, s1) = claimEscalationFirstPublish api now n pid hint s;
          (rs, s2) = run_claims api n cs s1
      in (r # rs, s2))"

lemma run_claims_blocked:
  assumes "reliable_valkey api" "kv_exists api (KEscClaim n) s"
  shows "guardAllow \<notin> set (fst (run_claims api n cs s))"
  using assms(2)
proof (induction cs arbitrary: s)
  case (Cons c cs)
  obtain now pid hint where c: "c = (now, pid, hint)" by (cases c) auto
  obtain r s1 where r: "claimEscalationFirstPublish api now n pid hint s = (r, s1)" by force
  have "r \<noteq> guardAllow" "kv_exists api (KEscClaim n) s1"
    using reliable_valkey.claim_blocked [OF assms(1) Cons.prems] r
      reliable_valkey.claim_mono [OF assms(1) Cons.prems, of now n pid hint] by (metis fst_conv, simp)
  with Cons.IH [of s1] r show ?case by (cases "run_claims api n cs s1") (auto simp: c)
qed simp

text \<open>Of any number of publishers that try to start the escalation of an incident while the claim
  key lives, at most one is allowed, and the allowed one leaves its policy and level in the hash.\<close>

theorem first_publish_single_winner:
  assumes "reliable_valkey api"
  shows "length (filter (\<lambda>r. r = guardAllow) (fst (run_claims api n cs s))) \<le> 1"
    (is "?winners cs s \<le> 1")
proof (induction cs arbitrary: s)
  case (Cons c cs)
  obtain now pid hint where c: "c = (now, pid, hint)" by (cases c) auto
  obtain r s1 where r: "claimEscalationFirstPublish api now n pid hint s = (r, s1)" by force
  show ?case
  proof (cases "r = guardAllow")
    case True
    then have "guardAllow \<notin> set (fst (run_claims api n cs s1))"
      using run_claims_blocked [OF assms] reliable_valkey.claim_allow [OF assms] r by blast
    then have "?winners cs s1 = 0" by (auto simp: filter_empty_conv)
    with r show ?thesis by (cases "run_claims api n cs s1") (simp add: c)
  next
    case False
    with Cons.IH [of s1] r show ?thesis by (cases "run_claims api n cs s1") (simp add: c)
  qed
qed simp

theorem first_publish_single_winner_witness:
  "length (filter (\<lambda>r. r = guardAllow) (fst (run_claims mem_api 7 [(0, 9, 1), (5, 9, 1)] mem_empty))) \<le> 1 \<and>
   fst (run_claims mem_api 7 [(0, 9, 1), (5, 9, 1)] mem_empty) = [guardAllow, guardSkipClaimLost]"
proof
  show "fst (run_claims mem_api 7 [(0, 9, 1), (5, 9, 1)] mem_empty) = [guardAllow, guardSkipClaimLost]"
    by (simp add: claimEscalationFirstPublish_def preflightEscalationState_def demo_eval)
qed (rule first_publish_single_winner [OF mem_reliable])

subsection \<open>The course of an escalation\<close>

lemma seeded:
  assumes "reliable_valkey api" "em_level m = 1" "em_policy m = pid" "em_incident m = n"
    and "pe_policy (ew_engine w) pid = Some policy"
      "encodeEscalationSchedule (ep_levels policy) = Some sched"
      "EvaluatePolicy (ew_engine w) now pid 1 \<noteq> None"
    and "\<not> ew_cancelled w n" "\<And>st. ew_status w n = Some st \<Longrightarrow> \<not> IsTerminalIncidentStatus st"
      "ew_valkey w"
    and "kv_hget api (KEsc n) ''silenced_until'' s = None"
    and "HandleEscalation api w now m s = (v, outs, s')"
  shows "reliable_valkey.armed api n pid sched 1 (ep_repeat policy) s'"
proof -
  obtain users chs forced where ev: "EvaluatePolicy (ew_engine w) now pid 1 = Some (users, chs, forced)"
    using assms(7) by (cases "EvaluatePolicy (ew_engine w) now pid 1") auto
  have notterm: "\<not> (case ew_status w n of None \<Rightarrow> False | Some st \<Rightarrow> IsTerminalIncidentStatus st)"
    using assms(9) by (simp split: option.split)
  have "s' = seedLevel1State api (ew_engine w) now m s"
    using assms ev notterm by (simp add: HandleEscalation_def)
  with reliable_valkey.seed_armed [OF assms(1,5,6,4,3,11), of now] assms(2) show ?thesis by simp
qed



text \<open>Under a policy with a positive repeat count the escalation of an incident nobody acknowledges
  never ends, whatever the count is: the wrap to level 1 publishes a level 1 message, and the worker
  that handles it resets the remaining repetitions to the policy's count. At whatever times the
  sweep runs, the incident is still pending, with all repetitions left.\<close>

theorem escalation_repeats_forever:
  assumes "reliable_valkey api" "em_level m = 1" "em_policy m = pid" "em_incident m = n"
    and "pe_policy (ew_engine w) pid = Some policy"
      "encodeEscalationSchedule (ep_levels policy) = Some sched"
      "\<And>t. EvaluatePolicy (ew_engine w) t pid 1 \<noteq> None"
    and "\<not> ew_cancelled w n" "\<And>st. ew_status w n = Some st \<Longrightarrow> \<not> IsTerminalIncidentStatus st"
      "ew_valkey w"
    and "kv_hget api (KEsc n) ''silenced_until'' s = None"
    and "HandleEscalation api w now m s = (v, outs, s')"
    and "0 < ep_repeat policy" "in_int64 (sc_max sched + 1)"
  shows "kv_zscore api n (snd (run_rounds api w n ts s')) \<noteq> None \<and>
    kv_hget api (KEsc n) ''repeat_remaining'' (snd (run_rounds api w n ts s')) = Some (HInt (ep_repeat policy))"
proof -
  have armed: "reliable_valkey.armed api n pid sched 1 (ep_repeat policy) s'"
    using seeded [OF assms(1-6) assms(7) assms(8-12)] .
  have "0 < sc_max sched" using encode_max [OF assms(6)] .
  then have "1 \<le> sc_max sched" by linarith
  from reliable_valkey.run_rounds_pending [OF assms(1) armed _ this assms(14,13,5,6) assms(7) assms(8-10), of ts]
  show ?thesis by (auto simp: reliable_valkey.armed_def [OF assms(1)])
qed

theorem escalation_repeats_forever_witness:
  "kv_zscore mem_api 7 (snd (run_rounds mem_api (demo_worker 1) 7 (map (\<lambda>k. 1000 * int k * go_second) [1..<20])
      (snd (snd (HandleEscalation mem_api (demo_worker 1) 0 (demo_first 7) mem_empty))))) \<noteq> None \<and>
   kv_hget mem_api (KEsc 7) ''repeat_remaining'' (snd (run_rounds mem_api (demo_worker 1) 7
      (map (\<lambda>k. 1000 * int k * go_second) [1..<20])
      (snd (snd (HandleEscalation mem_api (demo_worker 1) 0 (demo_first 7) mem_empty))))) = Some (HInt 1)"
proof -
  let ?ts = "map (\<lambda>k. 1000 * int k * go_second) [1..<20]"
  obtain v outs s' where h: "HandleEscalation mem_api (demo_worker 1) 0 (demo_first 7) mem_empty = (v, outs, s')"
    by (metis prod_cases3)
  have sched: "encodeEscalationSchedule (ep_levels (demo_policy\<lparr>ep_repeat := 1\<rparr>)) =
      Some \<lparr>sc_max = 2, sc_delays = [1 \<mapsto> 5, 2 \<mapsto> 10]\<rparr>"
    using demo_schedule by simp
  have ev: "EvaluatePolicy (ew_engine (demo_worker 1)) t 9 1 \<noteq> None" for t
    by (simp add: demo_eval)
  have live: "ew_status (demo_worker 1) 7 = Some st \<Longrightarrow> \<not> IsTerminalIncidentStatus st" for st
    by (auto simp: demo_eval)
  have "kv_zscore mem_api 7 (snd (run_rounds mem_api (demo_worker 1) 7 ?ts s')) \<noteq> None \<and>
    kv_hget mem_api (KEsc 7) ''repeat_remaining'' (snd (run_rounds mem_api (demo_worker 1) 7 ?ts s')) = Some (HInt 1)"
    using escalation_repeats_forever [OF mem_reliable, of "demo_first 7" 9 7 "demo_worker 1" "demo_policy\<lparr>ep_repeat := 1\<rparr>",
        OF _ _ _ _ sched ev _ live _ _ h, of ?ts]
    by (simp add: demo_defs mem_api_def mem_empty_def in_int64_def)
  then show ?thesis using h by simp
qed

subsection \<open>One advance, one message\<close>

text \<open>An advance publishes one message of the incident, and re-arms its entry: the hash holds the
  level of the message and the entry is due a minute or more later, whatever the policy's delays
  (negative, or so large that the nanosecond count wraps).\<close>

theorem advance_rearms_entry:
  assumes "reliable_valkey api" "processOne api policies ok now n s = (m # ms, s')"
  shows "ms = [] \<and> em_incident m = n \<and>
    kv_hget api (KEsc n) ''current_level'' s' = Some (HInt (em_level m)) \<and>
    (\<exists>sc. kv_zscore api n s' = Some sc \<and> unix now + 60 \<le> sc)"
  by (rule reliable_valkey.processOne_rearms [OF assms])

theorem advance_rearms_entry_witness:
  "\<exists>m s'. processOne mem_api None True (1000 * go_second) 7 demo_pending = ([m], s') \<and> em_level m = 2 \<and>
    (\<exists>sc. kv_zscore mem_api 7 s' = Some sc \<and> 1060 \<le> sc)"
proof -
  obtain m s' where p: "processOne mem_api None True (1000 * go_second) 7 demo_pending = ([m], s')" "em_level m = 2"
    by (simp add: demo_pending_def demo_eval processOne_def advance_level_def sweep_schedule_def escalateLua_def)
  from advance_rearms_entry [OF mem_reliable p(1)] p show ?thesis by (simp add: unix_def duration_defs)
qed

subsection \<open>Who is paged, and when\<close>

lemma dispatch_pages:
  "EscNotify u chs n' l' \<in> set (dispatchEscalation pb st n l users channels forced) \<longleftrightarrow>
   pb \<and> u \<in> set users \<and> chs = (if forced then [''voice''] else channels) \<and> n' = n \<and> l' = l"
  by (auto simp: dispatchEscalation_def Let_def)

lemma handle_unevaluated:
  "EvaluatePolicy (ew_engine w) now (em_policy m) (em_level m) = None \<Longrightarrow>
   fst (snd (HandleEscalation api w now m s)) = []"
  by (simp add: HandleEscalation_def Let_def)

lemma filter_one_image:
  "distinct xs \<Longrightarrow> x \<in> set xs \<Longrightarrow> (\<And>y. P (f y) = (y = x)) \<Longrightarrow> filter P (map f xs) = [f x]"
proof (induction xs)
  case (Cons y ys)
  then show ?case by (cases "y = x") (auto simp: filter_empty_conv)
qed simp

text \<open>The worker pages somebody only for a positive level of a live incident (not cancelled, not in
  a terminal status), it pages the users that the policy's level yields, each at most once, and by
  voice only when the ops team is among the targets.\<close>

theorem worker_pages_live_incident:
  assumes "HandleEscalation api w now m s = (v, outs, s')" "EscNotify u chs n l \<in> set outs"
  shows "n = em_incident m \<and> l = em_level m \<and> 0 < l \<and> \<not> ew_cancelled w n \<and>
    (ew_store w \<and> 0 < n \<longrightarrow> (\<forall>st. ew_status w n = Some st \<longrightarrow> \<not> IsTerminalIncidentStatus st)) \<and>
    (\<exists>users channels forced. EvaluatePolicy (ew_engine w) now (em_policy m) l = Some (users, channels, forced) \<and>
       u \<in> set users \<and> distinct users \<and> chs = (if forced then [''voice''] else channels) \<and>
       filter (\<lambda>x. case x of EscNotify u' _ _ _ \<Rightarrow> u' = u | _ \<Rightarrow> False) outs = [EscNotify u chs n l])"
proof -
  have pos: "0 < em_level m" using assms by (cases "0 < em_level m") (auto simp: HandleEscalation_def)
  have live: "\<not> ew_cancelled w (em_incident m)"
    using assms pos by (cases "ew_cancelled w (em_incident m)") (auto simp: HandleEscalation_def)
  have nt: "\<not> (ew_store w \<and> em_incident m > 0 \<and>
      (case ew_status w (em_incident m) of None \<Rightarrow> False | Some st \<Rightarrow> IsTerminalIncidentStatus st))" (is "\<not> ?t")
    using assms pos live by (cases ?t) (auto simp: HandleEscalation_def)
  have "EvaluatePolicy (ew_engine w) now (em_policy m) (em_level m) \<noteq> None"
    using assms handle_unevaluated [of w now m api s]
    by (cases "EvaluatePolicy (ew_engine w) now (em_policy m) (em_level m)") simp_all
  then obtain users channels forced where
    ev: "EvaluatePolicy (ew_engine w) now (em_policy m) (em_level m) = Some (users, channels, forced)"
    by (metis not_Some_eq prod_cases3)
  have outs: "outs = dispatchEscalation (ew_publisher w) (ew_store w) (em_incident m) (em_level m) users channels forced"
    using assms pos live nt ev by (simp add: HandleEscalation_def)
  have d: "distinct users" using EvaluatePolicy_distinct [OF ev] .
  have p: "ew_publisher w" "u \<in> set users" "chs = (if forced then [''voice''] else channels)"
    "n = em_incident m" "l = em_level m"
    using assms(2) by (simp_all add: outs dispatch_pages)
  have one: "filter (\<lambda>x. case x of EscNotify u' _ _ _ \<Rightarrow> u' = u | _ \<Rightarrow> False) outs = [EscNotify u chs n l]"
    using p filter_one_image [OF d p(2), of "\<lambda>x. case x of EscNotify u' _ _ _ \<Rightarrow> u' = u | _ \<Rightarrow> False"
        "\<lambda>u. EscNotify u chs n l"]
    by (simp add: outs dispatchEscalation_def Let_def)
  show ?thesis using p pos live nt ev d one by (auto split: option.splits)
qed

theorem worker_pages_live_incident_witness:
  "\<not> ew_cancelled (demo_worker 0) 7 \<and>
   filter (\<lambda>x. case x of EscNotify u' _ _ _ \<Rightarrow> u' = 4 | _ \<Rightarrow> False)
     (fst (snd (HandleEscalation mem_api (demo_worker 0) 0 (demo_first 7) mem_empty))) = [EscNotify 4 [''email''] 7 1]"
proof -
  obtain v outs s' where h: "HandleEscalation mem_api (demo_worker 0) 0 (demo_first 7) mem_empty = (v, outs, s')"
    by (metis prod_cases3)
  then have "EscNotify 4 [''email''] 7 1 \<in> set outs" by (auto simp: demo_eval)
  from worker_pages_live_incident [OF h this] h show ?thesis by auto
qed

subsection \<open>Retries\<close>

text \<open>A failed policy evaluation is retried at most four times: every retry counts up, never beyond
  the ladder, and a retried message has paged nobody and left the server state alone.\<close>

theorem retry_ladder_bounded:
  assumes "HandleEscalation api w now m s = (EscRetry m', outs, s')"
  shows "em_retry m' = em_retry m + 1 \<and> 1 \<le> em_retry m' \<and> em_retry m' \<le> 4 \<and>
    em_level m' = em_level m \<and> em_incident m' = em_incident m \<and> outs = [] \<and> s' = s"
  using assms
  by (auto simp: HandleEscalation_def Let_def publishRetry_def MaxEscalationRetries_def
      split: if_splits option.splits)

theorem retry_ladder_bounded_witness:
  "\<exists>m'. fst (HandleEscalation mem_api (demo_worker 0) 0 ((demo_first 7)\<lparr>em_policy := 5\<rparr>) mem_empty) = EscRetry m' \<and>
    em_retry m' = 1 \<and> em_retry m' \<le> 4"
proof -
  have "\<exists>m' outs s'. HandleEscalation mem_api (demo_worker 0) 0 ((demo_first 7)\<lparr>em_policy := 5\<rparr>) mem_empty =
      (EscRetry m', outs, s')"
    by (simp add: demo_eval escalationRetryBudget_def publishRetry_def MaxEscalationRetries_def)
  then obtain m' outs s' where h: "HandleEscalation mem_api (demo_worker 0) 0 ((demo_first 7)\<lparr>em_policy := 5\<rparr>) mem_empty =
      (EscRetry m', outs, s')" by blast
  from retry_ladder_bounded [OF h] h show ?thesis by (simp add: demo_defs)
qed

end
