(* ===== verification/OnCall.thy ===== *)
theory OnCall
  imports Escalation
begin

text \<open>
  Who is on call: resolution of a schedule at an instant, rotation slots and daily windows,
  expansion into shifts (\<^verbatim>\<open>oncall/resolver.go\<close>), the on-call user of an incident
  (\<^verbatim>\<open>oncall/incident_oncall.go\<close>). A \<^verbatim>\<open>time.Time\<close> is an instant with the offset of its location;
  the time zone database and the parser of user ids are parameters.
\<close>

subsection \<open>Civil time\<close>

record go_time =
  tm_at :: instant
  tm_offset :: int \<comment> \<open>seconds east of UTC\<close>

record zone_db =
  zd_load :: "string \<Rightarrow> (instant \<Rightarrow> int) option" \<comment> \<open>\<^verbatim>\<open>LoadLocation\<close>: offset at an instant\<close>
  zd_uuid :: "string \<Rightarrow> uuid option" \<comment> \<open>\<^verbatim>\<open>uuid.Parse\<close>\<close>

definition local_seconds :: "go_time \<Rightarrow> int" where
  "local_seconds t = tm_at t div go_second + tm_offset t"

definition local_days :: "go_time \<Rightarrow> int" where
  "local_days t = local_seconds t div 86400"

text \<open>Proleptic Gregorian date of a day number (day 0 is 1 January 1970): year, month, day.\<close>

definition civil_of_days :: "int \<Rightarrow> int \<times> int \<times> int" where
  "civil_of_days d =
     (let z = d + 719468;
          era = z div 146097;
          doe = z mod 146097;
          yoe = (doe - doe div 1460 + doe div 36524 - doe div 146096) div 365;
          doy = doe - (365 * yoe + yoe div 4 - yoe div 100);
          mp = (5 * doy + 2) div 153;
          day = doy - (153 * mp + 2) div 5 + 1;
          month = (if mp < 10 then mp + 3 else mp - 9)
      in (yoe + era * 400 + (if month \<le> 2 then 1 else 0), month, day))"

definition days_in_month :: "int \<Rightarrow> int \<Rightarrow> int" where
  "days_in_month y m =
     (if m = 2 then (if (y mod 4 = 0 \<and> y mod 100 \<noteq> 0) \<or> y mod 400 = 0 then 29 else 28)
      else if m = 4 \<or> m = 6 \<or> m = 9 \<or> m = 11 then 30 else 31)"

definition weekday_name :: "go_time \<Rightarrow> string" where
  "weekday_name t =
     [''Sunday'', ''Monday'', ''Tuesday'', ''Wednesday'', ''Thursday'', ''Friday'', ''Saturday'']
       ! nat ((local_days t + 4) mod 7)"

definition two_digits :: "int \<Rightarrow> string" where
  "two_digits n = [char_of (nat (48 + n div 10)), char_of (nat (48 + n mod 10))]"

text \<open>\<^verbatim>\<open>Format("15:04")\<close>.\<close>

definition format_hhmm :: "go_time \<Rightarrow> string" where
  "format_hhmm t =
     (let s = local_seconds t mod 86400
      in two_digits (s div 3600) @ '':'' @ two_digits (s mod 3600 div 60))"

fun str_less :: "string \<Rightarrow> string \<Rightarrow> bool" where
  "str_less xs [] = False"
| "str_less [] (y # ys) = True"
| "str_less (x # xs) (y # ys) =
     ((of_char x :: nat) < of_char y \<or> x = y \<and> str_less xs ys)"

subsection \<open>Schedules\<close>

record schedule_layer =
  sl_rotation :: string
  sl_interval :: int
  sl_start :: go_time
  sl_end :: "instant option"
  sl_timezone :: string
  sl_start_time :: string
  sl_end_time :: string
  sl_days :: "string list"
  sl_priority :: int
  sl_users :: "string list"

record schedule_override =
  so_user :: uuid
  so_start :: instant
  so_end :: instant

definition locationFor :: "zone_db \<Rightarrow> string \<Rightarrow> instant \<Rightarrow> int" where
  "locationFor db tz =
     (if tz = '''' then (\<lambda>_. 0)
      else case zd_load db tz of Some off \<Rightarrow> off | None \<Rightarrow> (\<lambda>_. 0))"

definition sortedLayers :: "schedule_layer list \<Rightarrow> schedule_layer list" where
  "sortedLayers layers = sort_key (\<lambda>l. - sl_priority l) layers"

definition ValidRotationType :: "string \<Rightarrow> bool" where
  "ValidRotationType rt \<longleftrightarrow> rt \<in> {''hourly'', ''daily'', ''weekly'', ''monthly''}"

definition calendarMonthsBetween :: "go_time \<Rightarrow> go_time \<Rightarrow> int" where
  "calendarMonthsBetween start at =
     (let (ay, am, ad) = civil_of_days (local_days at);
          (sy, sm, sd) = civil_of_days (local_days start);
          total = (ay - sy) * 12 + (am - sm);
          startDay = min sd (days_in_month ay am);
          total = (if ad < startDay then total - 1 else total)
      in if total < 0 then 0 else total)"

definition rotationDuration :: "string \<Rightarrow> int \<Rightarrow> int" where
  "rotationDuration rotationType interval =
     (let interval = (if interval \<le> 0 then 1 else interval)
      in if rotationType = ''hourly'' then wrap64 (interval * go_hour)
         else if rotationType = ''daily'' then wrap64 (interval * 24 * go_hour)
         else if rotationType = ''weekly'' then wrap64 (interval * 7 * 24 * go_hour)
         else if rotationType = ''monthly'' then 0
         else wrap64 (interval * 7 * 24 * go_hour))"

definition calculateSlot :: "schedule_layer \<Rightarrow> go_time \<Rightarrow> int" where
  "calculateSlot layer at =
     (let n = int (length (sl_users layer));
          rt = (if sl_rotation layer = '''' then ''weekly'' else sl_rotation layer);
          interval = (if sl_interval layer \<le> 0 then 1 else sl_interval layer)
      in if n = 0 then -1
         else if rt = ''monthly'' then
           max ((calendarMonthsBetween (sl_start layer) at sdiv interval) smod n) 0
         else
           let duration = rotationDuration rt interval
           in if duration = 0 then 0
              else let elapsed = time_sub (tm_at at) (tm_at (sl_start layer))
                   in if elapsed < 0 then 0 else (elapsed sdiv duration) smod n)"

definition matchesActiveWindow :: "schedule_layer \<Rightarrow> go_time \<Rightarrow> bool" where
  "matchesActiveWindow layer at =
     (if sl_days layer \<noteq> [] \<and> weekday_name at \<notin> set (sl_days layer) then False
      else if sl_start_time layer \<noteq> '''' \<and> sl_end_time layer \<noteq> '''' then
        (let cur = format_hhmm at; start = sl_start_time layer; fin = sl_end_time layer
         in if start = fin then True
            else if str_less start fin then \<not> str_less cur start \<and> str_less cur fin
            else \<not> str_less cur start \<or> str_less cur fin)
      else True)"

datatype shift_source = ShiftSourceRotation | ShiftSourceOverride

text \<open>What one layer contributes: the body of the layer loop, none for \<^verbatim>\<open>continue\<close>.\<close>

definition layer_user :: "zone_db \<Rightarrow> schedule_layer \<Rightarrow> instant \<Rightarrow> uuid option" where
  "layer_user db layer at =
     (if (case sl_end layer of Some e \<Rightarrow> at > e | None \<Rightarrow> False) then None
      else if sl_users layer = [] then None
      else
        let localAt = \<lparr>tm_at = at, tm_offset = locationFor db (sl_timezone layer) at\<rparr>
        in if \<not> matchesActiveWindow layer localAt then None
           else let slot = calculateSlot layer localAt
                in if 0 \<le> slot \<and> slot < int (length (sl_users layer))
                   then zd_uuid db (sl_users layer ! nat slot) else None)"

fun layer_loop :: "zone_db \<Rightarrow> schedule_layer list \<Rightarrow> instant \<Rightarrow> uuid option" where
  "layer_loop db [] at = None"
| "layer_loop db (l # ls) at =
     (case layer_user db l at of Some u \<Rightarrow> Some u | None \<Rightarrow> layer_loop db ls at)"

definition covers :: "schedule_override \<Rightarrow> instant \<Rightarrow> bool" where
  "covers ovr at \<longleftrightarrow> (at = so_start ovr \<or> at > so_start ovr) \<and> (at = so_end ovr \<or> at < so_end ovr)"

definition resolveAtTime ::
    "zone_db \<Rightarrow> schedule_layer list \<Rightarrow> schedule_override list \<Rightarrow> instant \<Rightarrow> (uuid \<times> shift_source) option" where
  "resolveAtTime db layers overrides at =
     (case List.find (\<lambda>ovr. covers ovr at) overrides of
        Some ovr \<Rightarrow> Some (so_user ovr, ShiftSourceOverride)
      | None \<Rightarrow> map_option (\<lambda>u. (u, ShiftSourceRotation)) (layer_loop db (sortedLayers layers) at))"

text \<open>The on-call store: outer none is an error.\<close>

record oncall_store =
  oc_schedule :: "uuid \<Rightarrow> schedule_layer list option option"
  oc_overrides :: "uuid \<Rightarrow> schedule_override list option"
  oc_team_schedule :: "uuid \<Rightarrow> uuid option"

definition ResolveWhoIsOnCall :: "zone_db \<Rightarrow> oncall_store \<Rightarrow> uuid \<Rightarrow> instant \<Rightarrow> uuid option option" where
  "ResolveWhoIsOnCall db st scheduleID at =
     (case oc_schedule st scheduleID of
        None \<Rightarrow> None
      | Some None \<Rightarrow> Some None
      | Some (Some layers) \<Rightarrow>
          (case oc_overrides st scheduleID of
             None \<Rightarrow> None
           | Some overrides \<Rightarrow> Some (map_option fst (resolveAtTime db layers overrides at))))"

subsection \<open>Shifts\<close>

record shift_boundary =
  sb_user :: uuid
  sb_start :: instant
  sb_end :: instant
  sb_source :: shift_source

definition truncate_hour :: "instant \<Rightarrow> instant" where
  "truncate_hour t = t - t mod go_hour"

text \<open>The sampling loop: every hour from \<open>cur\<close> up to \<open>fin\<close>, and the hour it stopped at.\<close>

function sample_loop ::
    "(instant \<Rightarrow> (uuid \<times> shift_source) option) \<Rightarrow> instant \<Rightarrow> instant
     \<Rightarrow> (instant \<times> (uuid \<times> shift_source) option) list \<times> instant" where
  "sample_loop res cur fin =
     (if cur < fin then
        let (rest, stop) = sample_loop res (cur + go_hour) fin in ((cur, res cur) # rest, stop)
      else ([], cur))"
  by pat_completeness auto
termination
  by (relation "measure (\<lambda>(res, cur, fin). nat (fin - cur))") (auto simp: duration_defs)

declare sample_loop.simps [simp del]

definition flush_shift :: "(uuid \<times> shift_source) option \<Rightarrow> instant \<Rightarrow> instant \<Rightarrow> shift_boundary list" where
  "flush_shift curUser curStart endAt =
     (case curUser of
        None \<Rightarrow> []
      | Some (u, src) \<Rightarrow> [\<lparr>sb_user = u, sb_start = curStart, sb_end = endAt, sb_source = src\<rparr>])"

text \<open>The coalescing loop over the remaining samples.\<close>

fun coalesce ::
    "(uuid \<times> shift_source) option \<Rightarrow> instant \<Rightarrow> (instant \<times> (uuid \<times> shift_source) option) list \<Rightarrow> instant
     \<Rightarrow> shift_boundary list" where
  "coalesce cur start [] stop = flush_shift cur start stop"
| "coalesce cur start ((t, r) # rest) stop =
     (if r \<noteq> cur then flush_shift cur start t @ coalesce r t rest stop
      else coalesce cur start rest stop)"

definition GenerateShifts :: "zone_db \<Rightarrow> oncall_store \<Rightarrow> uuid \<Rightarrow> instant \<Rightarrow> instant \<Rightarrow> shift_boundary list" where
  "GenerateShifts db st scheduleID start fin =
     (case oc_schedule st scheduleID of
        Some (Some layers) \<Rightarrow>
          (case oc_overrides st scheduleID of
             None \<Rightarrow> []
           | Some overrides \<Rightarrow>
               let srtd = sortedLayers layers;
                   fst_hour = truncate_hour start;
                   first = (if fst_hour < start then fst_hour + go_hour else fst_hour);
                   (samples, stop) = sample_loop (resolveAtTime db srtd overrides) first fin
               in case samples of
                    [] \<Rightarrow> []
                  | (t, r) # rest \<Rightarrow> coalesce r t rest stop)
      | _ \<Rightarrow> [])"

subsection \<open>The on-call user of an incident\<close>

fun oncall_targets ::
    "zone_db \<Rightarrow> oncall_store \<Rightarrow> instant \<Rightarrow> esc_target list \<Rightarrow> uuid option" where
  "oncall_targets db st now [] = None"
| "oncall_targets db st now (t # ts) =
     (if tg_type t \<noteq> ''team'' then oncall_targets db st now ts
      else case tg_team t of
        None \<Rightarrow> oncall_targets db st now ts
      | Some team \<Rightarrow>
          (case oc_team_schedule st team of
             None \<Rightarrow> oncall_targets db st now ts
           | Some sched \<Rightarrow>
               (case ResolveWhoIsOnCall db st sched now of
                  Some (Some u) \<Rightarrow> Some u
                | _ \<Rightarrow> oncall_targets db st now ts)))"

fun oncall_levels ::
    "zone_db \<Rightarrow> oncall_store \<Rightarrow> instant \<Rightarrow> esc_level list \<Rightarrow> uuid option" where
  "oncall_levels db st now [] = None"
| "oncall_levels db st now (l # ls) =
     (case oncall_targets db st now (el_targets l) of
        Some u \<Rightarrow> Some u | None \<Rightarrow> oncall_levels db st now ls)"

text \<open>\<open>service\<close>: the policy of the incident's service (outer none: error), \<open>policy\<close> likewise.\<close>

definition ResolveOnCallUserForIncident ::
    "zone_db \<Rightarrow> oncall_store \<Rightarrow> (uuid \<Rightarrow> uuid option option) \<Rightarrow> (uuid \<Rightarrow> esc_policy option option) \<Rightarrow> instant
     \<Rightarrow> uuid option \<Rightarrow> uuid option option" where
  "ResolveOnCallUserForIncident db st service_policy policy now serviceID =
     (case serviceID of
        None \<Rightarrow> Some None
      | Some sid \<Rightarrow>
          (case service_policy sid of
             None \<Rightarrow> None
           | Some None \<Rightarrow> Some None
           | Some (Some pid) \<Rightarrow>
               (case policy pid of
                  None \<Rightarrow> None
                | Some None \<Rightarrow> Some None
                | Some (Some p) \<Rightarrow> Some (oncall_levels db st now (ep_levels p)))))"

end
