(* ===== verification/OnCall_Correct.thy ===== *)
theory OnCall_Correct
  imports OnCall
begin

text \<open>
  Precedence of overrides and layers, regularity of the rotation, and exactness of the shifts.
\<close>

subsection \<open>Resolution\<close>

lemma layer_loop_find:
  "layer_loop db ls at = Some u \<longleftrightarrow>
     (\<exists>l. List.find (\<lambda>l. layer_user db l at \<noteq> None) ls = Some l \<and> layer_user db l at = Some u)"
  by (induction ls) (auto split: option.splits)

lemma layer_loop_None: "layer_loop db ls at = None \<longleftrightarrow> (\<forall>l \<in> set ls. layer_user db l at = None)"
  by (induction ls) (auto split: option.splits)

lemma sortedLayers_set [simp]: "set (sortedLayers ls) = set ls"
  by (simp add: sortedLayers_def)

lemma sortedLayers_idem [simp]: "sortedLayers (sortedLayers ls) = sortedLayers ls"
  unfolding sortedLayers_def by (rule sort_key_id_if_sorted) (rule sorted_sort_key)

lemma resolveAtTime_sorted [simp]: "resolveAtTime db (sortedLayers ls) = resolveAtTime db ls"
  by (intro ext) (simp add: resolveAtTime_def split: option.split)

lemma sorted_first_highest:
  assumes "sorted (map f xs)" "List.find P xs = Some x" "y \<in> set xs" "P y"
  shows "f x \<le> f y"
proof -
  obtain ys zs where s: "xs = ys @ x # zs" "\<forall>y \<in> set ys. \<not> P y"
    using assms(2) by (auto simp: find_split)
  then have "y = x \<or> y \<in> set zs" using assms(3,4) by auto
  then show ?thesis using assms(1) s(1) by (auto simp: sorted_append)
qed

text \<open>An override that covers the instant decides, the first one of the list; otherwise the
  user comes from a layer that is active at the instant, and no active layer has a higher
  priority; nobody is on call exactly when no override covers the instant and no layer is active.\<close>

theorem on_call_precedence:
  "(case List.find (\<lambda>ovr. covers ovr at) overrides of
      Some ovr \<Rightarrow> resolveAtTime db layers overrides at = Some (so_user ovr, ShiftSourceOverride)
    | None \<Rightarrow>
        (case resolveAtTime db layers overrides at of
           None \<Rightarrow> \<forall>l \<in> set layers. layer_user db l at = None
         | Some (u, src) \<Rightarrow> src = ShiftSourceRotation \<and>
             (\<exists>l \<in> set layers. layer_user db l at = Some u \<and>
                (\<forall>l' \<in> set layers. layer_user db l' at \<noteq> None \<longrightarrow> sl_priority l' \<le> sl_priority l))))"
proof (cases "List.find (\<lambda>ovr. covers ovr at) overrides")
  case None
  show ?thesis
  proof (cases "layer_loop db (sortedLayers layers) at")
    case inner: None
    with None layer_loop_None [of db "sortedLayers layers" at] show ?thesis
      by (simp add: resolveAtTime_def)
  next
    case (Some u)
    then obtain l where l: "List.find (\<lambda>l. layer_user db l at \<noteq> None) (sortedLayers layers) = Some l"
      "layer_user db l at = Some u" using layer_loop_find by blast
    have "l \<in> set layers" using l(1) by (auto simp: find_split dest: arg_cong [of "sortedLayers layers" _ set])
    moreover have "sl_priority l' \<le> sl_priority l" if "l' \<in> set layers" "layer_user db l' at \<noteq> None" for l'
      using sorted_first_highest [of "\<lambda>l. - sl_priority l", OF _ l(1), of l'] that
      by (simp add: sortedLayers_def)
    ultimately show ?thesis using None Some l(2) by (auto simp: resolveAtTime_def)
  qed
qed (simp add: resolveAtTime_def)

definition demo_db :: zone_db where
  "demo_db = \<lparr>zd_load = (\<lambda>_. None), zd_uuid = (\<lambda>s. if s = ''a'' then Some 1 else if s = ''b'' then Some 2 else None)\<rparr>"

definition demo_layer :: schedule_layer where
  "demo_layer = \<lparr>sl_rotation = ''daily'', sl_interval = 1, sl_start = \<lparr>tm_at = 0, tm_offset = 0\<rparr>, sl_end = None,
     sl_timezone = '''', sl_start_time = '''', sl_end_time = '''', sl_days = [], sl_priority = 0,
     sl_users = [''a'', ''b'']\<rparr>"

definition demo_override :: schedule_override where
  "demo_override = \<lparr>so_user = 5, so_start = 2 * go_hour, so_end = 3 * go_hour\<rparr>"

theorem on_call_precedence_witness:
  "resolveAtTime demo_db [demo_layer] [demo_override] (3 * go_hour) = Some (5, ShiftSourceOverride)"
  using on_call_precedence [where at = "3 * go_hour" and overrides = "[demo_override]" and db = demo_db
      and layers = "[demo_layer]"]
  by (simp add: demo_override_def covers_def duration_defs)

subsection \<open>Rotation\<close>

lemma rotationDuration_default [simp]: "rotationDuration rt (if i \<le> 0 then 1 else i) = rotationDuration rt i"
  by (simp add: rotationDuration_def)

lemma calculateSlot_rotation:
  assumes "sl_users layer \<noteq> []" "sl_rotation layer \<noteq> ''monthly''"
    and "d = rotationDuration (if sl_rotation layer = '''' then ''weekly'' else sl_rotation layer) (sl_interval layer)"
    and "0 < d" "tm_at (sl_start layer) \<le> tm_at at" "in_int64 (tm_at at - tm_at (sl_start layer))"
  shows "calculateSlot layer at =
    ((tm_at at - tm_at (sl_start layer)) div d) mod int (length (sl_users layer))"
proof -
  let ?n = "int (length (sl_users layer))" and ?e = "tm_at at - tm_at (sl_start layer)"
  have n: "?n \<noteq> 0" "0 < ?n" using assms(1) by simp_all
  have "calculateSlot layer at = (?e sdiv d) smod ?n"
    using assms(1,2,4,5) unfolding calculateSlot_def Let_def rotationDuration_default assms(3) [symmetric]
      time_sub_exact [OF assms(6)]
    by simp
  also have "\<dots> = (?e div d) mod ?n"
    using n assms(4,5) by (simp add: sdiv_nonneg smod_nonneg pos_imp_zdiv_nonneg_iff)
  finally show ?thesis .
qed

text \<open>An hourly, daily or weekly rotation is regular: the user of the slot changes to the next one
  of the list exactly when a whole duration has passed since the start of the layer.\<close>

theorem rotation_regular:
  assumes "sl_users layer \<noteq> []" "sl_rotation layer \<noteq> ''monthly''"
    and "d = rotationDuration (if sl_rotation layer = '''' then ''weekly'' else sl_rotation layer) (sl_interval layer)"
    and "0 < d" "tm_at at = tm_at (sl_start layer) + k * d + x" "0 \<le> k" "0 \<le> x" "x < d"
    and "in_int64 (k * d + x)"
  shows "calculateSlot layer at = k mod int (length (sl_users layer)) \<and>
    0 \<le> calculateSlot layer at \<and> calculateSlot layer at < int (length (sl_users layer))"
proof -
  have e: "tm_at at - tm_at (sl_start layer) = k * d + x" using assms(5) by simp
  have "tm_at (sl_start layer) \<le> tm_at at" using assms(4-7) by simp
  moreover have "(k * d + x) div d = k" using assms(7,8) by simp
  ultimately have "calculateSlot layer at = k mod int (length (sl_users layer))"
    using calculateSlot_rotation [OF assms(1-4), of at] assms(9) e by simp
  then show ?thesis using assms(1) by simp
qed

theorem rotation_regular_witness:
  "calculateSlot demo_layer \<lparr>tm_at = 73 * go_hour, tm_offset = 0\<rparr> = 1"
  using rotation_regular [of demo_layer "24 * go_hour" "\<lparr>tm_at = 73 * go_hour, tm_offset = 0\<rparr>" 3 "go_hour"]
  by (simp add: demo_layer_def rotationDuration_def duration_defs wrap64_def in_int64_def)

text \<open>The slot never leaves the list of users, whatever the rotation and the instant; a negative
  slot (a duration that wrapped) makes the layer inactive.\<close>

lemma calculateSlot_upper: "calculateSlot layer at < int (length (sl_users layer)) \<or> sl_users layer = []"
proof (cases "sl_users layer = []")
  case False
  then have n: "0 < int (length (sl_users layer))" by simp
  have "a smod int (length (sl_users layer)) < int (length (sl_users layer))" for a
    using n smod_int_range [of "int (length (sl_users layer))" a] by simp
  then show ?thesis
    using n by (simp add: calculateSlot_def Let_def)
qed simp

subsection \<open>Shifts\<close>

fun hourly ::
    "(instant \<Rightarrow> (uuid \<times> shift_source) option) \<Rightarrow> instant
     \<Rightarrow> (instant \<times> (uuid \<times> shift_source) option) list \<Rightarrow> instant \<Rightarrow> bool" where
  "hourly res t [] stop \<longleftrightarrow> t = stop"
| "hourly res t (s # ss) stop \<longleftrightarrow> s = (t, res t) \<and> hourly res (t + go_hour) ss stop"

lemma sample_loop_hourly: "sample_loop res cur fin = (ss, stop) \<Longrightarrow> hourly res cur ss stop"
proof (induction res cur fin arbitrary: ss stop rule: sample_loop.induct)
  case (1 res cur fin)
  then show ?case
    by (subst (asm) (2) sample_loop.simps)
       (auto simp: Let_def split: if_splits prod.splits)
qed

lemma sample_loop_stop:
  "sample_loop res cur fin = (ss, stop) \<Longrightarrow> fin \<le> stop \<and> cur \<le> stop \<and> (ss = [] \<longleftrightarrow> fin \<le> cur)"
proof (induction res cur fin arbitrary: ss stop rule: sample_loop.induct)
  case (1 res cur fin)
  show ?case
  proof (cases "cur < fin")
    case True
    obtain ss' stop' where r: "sample_loop res (cur + go_hour) fin = (ss', stop')" by force
    with 1(2) True have "ss = (cur, res cur) # ss'" "stop = stop'"
      by (simp_all add: sample_loop.simps [of res cur fin])
    with 1(1) [OF True r] True show ?thesis by (simp add: duration_defs)
  next
    case False
    with 1(2) show ?thesis by (simp add: sample_loop.simps [of res cur fin])
  qed
qed

lemma hourly_le: "hourly res t ss stop \<Longrightarrow> t \<le> stop"
proof (induction ss arbitrary: t)
  case (Cons s ss)
  then have "t + go_hour \<le> stop" by simp
  then show ?case by (simp add: duration_defs)
qed simp

definition on_shift :: "shift_boundary list \<Rightarrow> instant \<Rightarrow> uuid \<Rightarrow> shift_source \<Rightarrow> bool" where
  "on_shift shifts t u src \<longleftrightarrow>
     (\<exists>sh \<in> set shifts. sb_start sh \<le> t \<and> t < sb_end sh \<and> sb_user sh = u \<and> sb_source sh = src)"

lemma on_shift_append: "on_shift (a @ b) t u src \<longleftrightarrow> on_shift a t u src \<or> on_shift b t u src"
  by (auto simp: on_shift_def)

lemma on_shift_flush:
  "on_shift (flush_shift cur start stop) t u src \<longleftrightarrow> start \<le> t \<and> t < stop \<and> cur = Some (u, src)"
  by (auto simp: on_shift_def flush_shift_def split: option.splits)

lemma flush_bounds:
  "sh \<in> set (flush_shift cur start stop) \<Longrightarrow> sb_start sh = start \<and> sb_end sh = stop \<and> cur = Some (sb_user sh, sb_source sh)"
  by (auto simp: flush_shift_def split: option.splits)

lemma coalesce_bounds:
  "hourly res t rest stop \<Longrightarrow> start < t \<Longrightarrow>
   (\<forall>sh \<in> set (coalesce cur start rest stop). start \<le> sb_start sh \<and> sb_start sh < sb_end sh \<and> sb_end sh \<le> stop) \<and>
   sorted_wrt (\<lambda>a b. sb_end a \<le> sb_start b) (coalesce cur start rest stop)"
proof (induction rest arbitrary: cur start t)
  case Nil
  then show ?case by (auto simp: flush_shift_def split: option.splits)
next
  case (Cons s rest)
  then have s: "s = (t, res t)" and h: "hourly res (t + go_hour) rest stop" by simp_all
  have lt: "t < t + go_hour" by (simp add: duration_defs)
  then have "start < t + go_hour" using Cons.prems(2) by simp
  note i1 = Cons.IH [OF h lt, of "res t"] and i2 = Cons.IH [OF h this, of cur]
  have ts: "t \<le> stop" using hourly_le [OF Cons.prems(1)] .
  show ?case
  proof (cases "res t = cur")
    case True
    with i2 show ?thesis by (simp add: s)
  next
    case False
    have "sorted_wrt (\<lambda>a b. sb_end a \<le> sb_start b) (flush_shift cur start t)"
      by (simp add: flush_shift_def split: option.split)
    with False i1 ts Cons.prems(2) show ?thesis
      by (auto simp: s sorted_wrt_append dest: flush_bounds)
  qed
qed

lemma hour_step:
  assumes "go_hour dvd (s - a)" "go_hour dvd (t - a)" "t \<le> s" "s < t + go_hour"
  shows "s = t"
proof -
  have "go_hour dvd ((s - a) - (t - a))" using assms(1,2) by (rule dvd_diff)
  then have "go_hour dvd (s - t)" by simp
  then show ?thesis using assms(3,4) zdvd_imp_le [of go_hour "s - t"] by fastforce
qed

lemma coalesce_exact:
  assumes "hourly res t rest stop" "start < t" "go_hour dvd (t - start)"
    and "\<And>s. start \<le> s \<Longrightarrow> s < t \<Longrightarrow> go_hour dvd (s - start) \<Longrightarrow> res s = cur"
    and "start \<le> s" "s < stop" "go_hour dvd (s - start)"
  shows "on_shift (coalesce cur start rest stop) s u src \<longleftrightarrow> res s = Some (u, src)"
  using assms
proof (induction rest arbitrary: cur start t)
  case Nil
  then show ?case by (auto simp: on_shift_flush)
next
  case (Cons x rest)
  then have x: "x = (t, res t)" and h: "hourly res (t + go_hour) rest stop" by simp_all
  have lt: "t < t + go_hour" by (simp add: duration_defs)
  show ?case
  proof (cases "res t = cur")
    case True
    have "res v = cur" if v: "start \<le> v" "v < t + go_hour" "go_hour dvd (v - start)" for v
    proof (cases "v < t")
      case False
      then have "v = t" using hour_step [OF v(3) Cons.prems(3)] v(2) by simp
      with True show ?thesis by simp
    qed (use Cons.prems(4) v in blast)
    moreover have "go_hour dvd (t + go_hour - start)"
      using Cons.prems(3) by (metis add_diff_eq add.commute dvd_add dvd_refl diff_add_eq)
    ultimately have "on_shift (coalesce cur start rest stop) s u src \<longleftrightarrow> res s = Some (u, src)"
      using Cons.IH [OF h] Cons.prems(2,5,6,7) lt by simp
    with True show ?thesis by (simp add: x)
  next
    case False
    have b: "\<forall>sh \<in> set (coalesce (res t) t rest stop). t \<le> sb_start sh"
      using coalesce_bounds [OF h lt, of "res t"] by blast
    show ?thesis
    proof (cases "s < t")
      case True
      then have "\<not> on_shift (coalesce (res t) t rest stop) s u src"
        using b by (force simp: on_shift_def)
      with True False Cons.prems(4-7) show ?thesis
        by (simp add: x on_shift_append on_shift_flush)
    next
      case ge: False
      have d: "go_hour dvd (s - t)"
        using dvd_diff [OF Cons.prems(7,3)] by simp
      have e: "res v = res t" if "t \<le> v" "v < t + go_hour" "go_hour dvd (v - t)" for v
        using hour_step [of v t t] that by simp
      have a: "go_hour dvd (t + go_hour - t)" "t \<le> s" using ge by simp_all
      have "on_shift (coalesce (res t) t rest stop) s u src \<longleftrightarrow> res s = Some (u, src)"
        by (rule Cons.IH [OF h lt a(1) e a(2) Cons.prems(6) d])
      then show ?thesis using ge False by (simp add: x on_shift_append on_shift_flush)
    qed
  qed
qed

lemma coalesce_head:
  assumes "hourly res t rest stop" "start < t" "coalesce cur start rest stop = sh # shs" "sb_start sh = start"
  shows "cur = Some (sb_user sh, sb_source sh)"
  using assms
proof (induction rest arbitrary: t)
  case Nil
  then show ?case using flush_bounds [of sh cur start stop] by simp
next
  case (Cons x rest)
  then have x: "x = (t, res t)" and h: "hourly res (t + go_hour) rest stop" by simp_all
  have lt: "t < t + go_hour" by (simp add: duration_defs)
  show ?case
  proof (cases "res t = cur")
    case True
    then have "coalesce cur start rest stop = sh # shs" using Cons.prems(3) x by simp
    with Cons.IH [OF h _ _ Cons.prems(4)] Cons.prems(2) lt show ?thesis by simp
  next
    case False
    then have e: "flush_shift cur start t @ coalesce (res t) t rest stop = sh # shs"
      using Cons.prems(3) x by simp
    show ?thesis
    proof (cases cur)
      case None
      then have "coalesce (res t) t rest stop = sh # shs" using e by (simp add: flush_shift_def)
      then have "sh \<in> set (coalesce (res t) t rest stop)" by simp
      with coalesce_bounds [OF h lt, of "res t"] Cons.prems(2,4) show ?thesis by fastforce
    next
      case (Some c)
      then have "sh \<in> set (flush_shift cur start t)" using e by (cases c) (simp add: flush_shift_def)
      then show ?thesis using flush_bounds by blast
    qed
  qed
qed

lemma coalesce_maximal:
  assumes "hourly res t rest stop" "start < t"
  shows "successively (\<lambda>a b. sb_end a = sb_start b \<longrightarrow> (sb_user a, sb_source a) \<noteq> (sb_user b, sb_source b))
    (coalesce cur start rest stop)"
  using assms
proof (induction rest arbitrary: cur start t)
  case Nil
  then show ?case by (auto simp: flush_shift_def split: option.splits)
next
  case (Cons x rest)
  then have x: "x = (t, res t)" and h: "hourly res (t + go_hour) rest stop" by simp_all
  have lt: "t < t + go_hour" "start < t + go_hour" using Cons.prems(2) by (simp_all add: duration_defs)
  show ?case
  proof (cases "res t = cur")
    case True
    with Cons.IH [OF h lt(2)] show ?thesis by (simp add: x)
  next
    case False
    show ?thesis
    proof (cases "flush_shift cur start t = [] \<or> coalesce (res t) t rest stop = []")
      case True
      moreover have "successively P (flush_shift cur start t)" for P
        by (auto simp: flush_shift_def split: option.split)
      ultimately show ?thesis using False Cons.IH [OF h lt(1), of "res t"] by (auto simp: x)
    next
      case nil: False
      then obtain a where a: "flush_shift cur start t = [a]" by (auto simp: flush_shift_def split: option.splits)
      obtain b bs where b: "coalesce (res t) t rest stop = b # bs" using nil by (cases "coalesce (res t) t rest stop") auto
      have "sb_end a = t" "cur = Some (sb_user a, sb_source a)" using a flush_bounds [of a cur start t] by simp_all
      moreover have "sb_start b = t \<Longrightarrow> res t = Some (sb_user b, sb_source b)"
        using coalesce_head [OF h lt(1) b] .
      ultimately show ?thesis using False a b Cons.IH [OF h lt(1), of "res t"] by (auto simp: x)
    qed
  qed
qed

text \<open>C33. The generated shifts are the schedule, hour by hour: they are ordered and disjoint, none is
  empty or starts before the window, two shifts that touch differ, and at every full hour of the
  window the user and source of the schedule are those of the shift that contains the hour (none
  for an uncovered hour).\<close>

theorem generated_shifts_exact:
  assumes "oc_schedule st sid = Some (Some layers)" "oc_overrides st sid = Some overrides"
    and "shifts = GenerateShifts db st sid start fin"
  shows "sorted_wrt (\<lambda>a b. sb_end a \<le> sb_start b) shifts \<and>
    successively (\<lambda>a b. sb_end a = sb_start b \<longrightarrow> (sb_user a, sb_source a) \<noteq> (sb_user b, sb_source b)) shifts \<and>
    (\<forall>sh \<in> set shifts. start \<le> sb_start sh \<and> sb_start sh < sb_end sh) \<and>
    (\<forall>t u src. start \<le> t \<and> t < fin \<and> go_hour dvd t \<longrightarrow>
       (on_shift shifts t u src \<longleftrightarrow> resolveAtTime db layers overrides t = Some (u, src)))"
proof -
  let ?res = "resolveAtTime db layers overrides"
  let ?h = "truncate_hour start"
  let ?first = "if ?h < start then ?h + go_hour else ?h"
  have hpos: "0 < go_hour" by (simp add: duration_defs)
  have hd: "go_hour dvd ?h" by (simp add: truncate_hour_def minus_mod_eq_mult_div)
  have "0 \<le> start mod go_hour" "start mod go_hour < go_hour" using hpos by simp_all
  then have first: "start \<le> ?first" "?first < start + go_hour" "go_hour dvd ?first"
    using hd by (auto simp: truncate_hour_def)
  have least: "?first \<le> t" if "start \<le> t" "go_hour dvd t" for t
  proof (rule ccontr)
    assume "\<not> ?first \<le> t"
    then have "t \<le> ?first" "?first < t + go_hour" using that(1) first(2) by linarith+
    from hour_step [of ?first 0 t, OF _ _ this] first(3) that(2) \<open>\<not> ?first \<le> t\<close> show False by simp
  qed
  obtain ss stop where sl: "sample_loop ?res ?first fin = (ss, stop)" by force
  show ?thesis
  proof (cases ss)
    case Nil
    have "shifts = []" unfolding assms(3) GenerateShifts_def Let_def by (simp add: assms(1,2) sl Nil split del: if_split)
    moreover have "fin \<le> ?first" using sample_loop_stop [OF sl] Nil by blast
    ultimately show ?thesis using least by (fastforce simp: on_shift_def)
  next
    case (Cons x rest)
    have h: "hourly ?res ?first (x # rest) stop" using sample_loop_hourly [OF sl] Cons by blast
    then have x: "x = (?first, ?res ?first)" and h': "hourly ?res (?first + go_hour) rest stop" by simp_all
    have sh: "shifts = coalesce (?res ?first) ?first rest stop"
      unfolding assms(3) GenerateShifts_def Let_def by (simp add: assms(1,2) sl Cons x split del: if_split)
    have lt: "?first < ?first + go_hour" using hpos by simp
    have b: "sorted_wrt (\<lambda>a b. sb_end a \<le> sb_start b) shifts"
      "\<forall>sh \<in> set shifts. start \<le> sb_start sh \<and> sb_start sh < sb_end sh"
      using coalesce_bounds [OF h' lt, of "?res ?first"] first(1) unfolding sh by fastforce+
    have e: "on_shift shifts t u src \<longleftrightarrow> ?res t = Some (u, src)"
      if t: "start \<le> t" "t < fin" "go_hour dvd t" for t u src
      unfolding sh
    proof (rule coalesce_exact [OF h' lt])
      show "?first \<le> t" using least [OF t(1,3)] .
      show "t < stop" using sample_loop_stop [OF sl] t(2) by linarith
      show "go_hour dvd (t - ?first)" using dvd_diff [OF t(3) first(3)] .
      show "?res s = ?res ?first" if "?first \<le> s" "s < ?first + go_hour" "go_hour dvd (s - ?first)" for s
        using hour_step [of s ?first ?first] that by simp
    qed simp
    show ?thesis
      using b e coalesce_maximal [OF h' lt, of "?res ?first"] unfolding sh by blast
  qed
qed

definition demo_oncall :: oncall_store where
  "demo_oncall = \<lparr>oc_schedule = (\<lambda>s. if s = 3 then Some (Some [demo_layer]) else None),
     oc_overrides = (\<lambda>_. Some [demo_override]), oc_team_schedule = (\<lambda>_. Some 3)\<rparr>"

theorem generated_shifts_exact_witness:
  "on_shift (GenerateShifts demo_db demo_oncall 3 0 (5 * go_hour)) (2 * go_hour) 5 ShiftSourceOverride"
proof -
  have "resolveAtTime demo_db [demo_layer] [demo_override] (2 * go_hour) = Some (5, ShiftSourceOverride)"
    by (simp add: resolveAtTime_def demo_override_def covers_def duration_defs)
  moreover have "oc_schedule demo_oncall 3 = Some (Some [demo_layer])" "oc_overrides demo_oncall 3 = Some [demo_override]"
    by (simp_all add: demo_oncall_def)
  ultimately show ?thesis
    using generated_shifts_exact [of demo_oncall 3 "[demo_layer]" "[demo_override]" _ demo_db 0 "5 * go_hour", OF _ _ refl]
    by (simp add: duration_defs)
qed

end
