(* ===== verification/Handoff.thy ===== *)
theory Handoff
  imports OnCall
begin

text \<open>
  Detection of on-call hand-offs (\<^verbatim>\<open>oncall/handoff.go\<close>): a cursor per schedule remembers who was on
  call at the last tick; a change creates a hand-off record. A cursor's user text and its value are
  identified (\<open>None\<close>: nobody). The key's expiry after seven days is left out.
\<close>

record handoff_cursor =
  hc_user :: "uuid option"
  hc_resolved_at :: instant

record handoff_record =
  hr_schedule :: uuid
  hr_outgoing :: "uuid option"
  hr_incoming :: "uuid option"
  hr_at :: instant
  hr_status :: string

type_synonym cursors = "uuid \<rightharpoonup> handoff_cursor"

text \<open>What a tick finds: the resolver (outer none: error), whether Valkey is configured, and which
  of the three accesses succeed.\<close>

record handoff_env =
  he_resolve :: "uuid \<Rightarrow> instant \<Rightarrow> uuid option option"
  he_valkey :: bool
  he_read_ok :: bool
  he_write_ok :: bool
  he_create_ok :: bool

definition readCursor :: "handoff_env \<Rightarrow> uuid \<Rightarrow> cursors \<Rightarrow> handoff_cursor option option" where
  "readCursor env sched cs =
     (if \<not> he_valkey env then Some None
      else if \<not> he_read_ok env then None
      else Some (cs sched))"

definition seedCursor :: "handoff_env \<Rightarrow> uuid \<Rightarrow> uuid option \<Rightarrow> instant \<Rightarrow> cursors \<Rightarrow> cursors" where
  "seedCursor env sched user now cs =
     (if he_valkey env \<and> he_write_ok env
      then cs(sched \<mapsto> \<lparr>hc_user = user, hc_resolved_at = now\<rparr>) else cs)"

text \<open>Outer none: the tick of the schedule failed.\<close>

definition tickSchedule ::
    "handoff_env \<Rightarrow> instant \<Rightarrow> uuid \<Rightarrow> cursors \<Rightarrow> handoff_record option option \<times> cursors" where
  "tickSchedule env now sched cs =
     (case he_resolve env sched now of
        None \<Rightarrow> (None, cs)
      | Some incoming \<Rightarrow>
          (case readCursor env sched cs of
             None \<Rightarrow> (Some None, cs)
           | Some None \<Rightarrow> (Some None, seedCursor env sched incoming now cs)
           | Some (Some cursor) \<Rightarrow>
               if hc_user cursor = incoming then (Some None, cs)
               else if \<not> he_create_ok env then (None, cs)
               else (Some (Some \<lparr>hr_schedule = sched, hr_outgoing = hc_user cursor, hr_incoming = incoming,
                                 hr_at = now, hr_status = ''pending''\<rparr>),
                     seedCursor env sched incoming now cs)))"

fun tick_schedules ::
    "(uuid \<Rightarrow> handoff_env) \<Rightarrow> instant \<Rightarrow> uuid list \<Rightarrow> cursors \<Rightarrow> handoff_record list \<times> cursors" where
  "tick_schedules env now [] cs = ([], cs)"
| "tick_schedules env now (s # ss) cs =
     (let (r, cs1) = tickSchedule (env s) now s cs;
          (rs, cs2) = tick_schedules env now ss cs1
      in (case r of Some (Some rec) \<Rightarrow> (rec # rs, cs2) | _ \<Rightarrow> (rs, cs2)))"

text \<open>\<^verbatim>\<open>HandoffDetector.Tick\<close>: the first thousand schedules, none when listing them fails.\<close>

definition handoff_tick ::
    "uuid list option \<Rightarrow> (uuid \<Rightarrow> handoff_env) \<Rightarrow> instant \<Rightarrow> cursors \<Rightarrow> handoff_record list option \<times> cursors" where
  "handoff_tick schedules env now cs =
     (case schedules of
        None \<Rightarrow> (None, cs)
      | Some ss \<Rightarrow> let (rs, cs') = tick_schedules env now (take 1000 ss) cs in (Some rs, cs'))"

subsection \<open>The chain of records\<close>

lemma tickSchedule_other: "s \<noteq> s' \<Longrightarrow> snd (tickSchedule env now s cs) s' = cs s'"
  by (simp add: tickSchedule_def seedCursor_def split: option.split)

fun run_schedule ::
    "(handoff_env \<times> instant) list \<Rightarrow> uuid \<Rightarrow> cursors \<Rightarrow> handoff_record list \<times> cursors" where
  "run_schedule [] sched cs = ([], cs)"
| "run_schedule ((env, now) # ts) sched cs =
     (let (r, cs1) = tickSchedule env now sched cs;
          (rs, cs2) = run_schedule ts sched cs1
      in (case r of Some (Some rec) \<Rightarrow> (rec # rs, cs2) | _ \<Rightarrow> (rs, cs2)))"

text \<open>A tick either records nothing and keeps the cursor's user, or records the change from the
  cursor's user to another one and moves the cursor (when the write succeeds).\<close>

lemma tickSchedule_cases:
  assumes "tickSchedule env now sched cs = (r, cs')" "he_write_ok env"
  obtains (quiet) "\<not> (\<exists>rec. r = Some (Some rec))" "\<And>c. cs sched = Some c \<Longrightarrow> map_option hc_user (cs' sched) = Some (hc_user c) \<or> \<not> he_valkey env"
      "he_valkey env \<Longrightarrow> cs sched \<noteq> None \<Longrightarrow> cs' = cs"
  | (handoff) rec c where "r = Some (Some rec)" "cs sched = Some c" "hr_outgoing rec = hc_user c"
      "hr_incoming rec \<noteq> hr_outgoing rec" "hr_schedule rec = sched" "hr_at rec = now"
      "he_resolve env sched now = Some (hr_incoming rec)"
      "map_option hc_user (cs' sched) = Some (hr_incoming rec)"
proof (cases "he_valkey env \<and> he_read_ok env \<and> (\<exists>c inc. cs sched = Some c \<and>
      he_resolve env sched now = Some inc \<and> hc_user c \<noteq> inc) \<and> he_create_ok env")
  case True
  then obtain c inc where "cs sched = Some c" "he_resolve env sched now = Some inc" "hc_user c \<noteq> inc" by blast
  with True assms show ?thesis
    by (intro handoff) (auto simp: tickSchedule_def readCursor_def seedCursor_def)
next
  case False
  with assms show ?thesis
    by (intro quiet) (auto simp: tickSchedule_def readCursor_def seedCursor_def split: option.splits if_splits)
qed

lemma run_schedule_chain:
  assumes "run_schedule ts sched cs = (rs, cs')"
    and "list_all (\<lambda>(env, now). he_valkey env \<and> he_write_ok env) ts"
  shows "(\<forall>r \<in> set rs. hr_outgoing r \<noteq> hr_incoming r \<and> hr_schedule r = sched) \<and>
    successively (\<lambda>a b. hr_outgoing b = hr_incoming a) rs \<and>
    (\<forall>c. cs sched = Some c \<longrightarrow>
       (if rs = [] then map_option hc_user (cs' sched) = Some (hc_user c)
        else hr_outgoing (hd rs) = hc_user c)) \<and>
    (rs \<noteq> [] \<longrightarrow> map_option hc_user (cs' sched) = Some (hr_incoming (last rs)))"
  using assms
proof (induction ts arbitrary: cs rs cs')
  case (Cons t ts)
  obtain env now where t: "t = (env, now)" by force
  obtain r cs1 where a: "tickSchedule env now sched cs = (r, cs1)" by force
  obtain rs2 cs2 where b: "run_schedule ts sched cs1 = (rs2, cs2)" by force
  have ok: "he_valkey env" "he_write_ok env" and oks: "list_all (\<lambda>(env, now). he_valkey env \<and> he_write_ok env) ts"
    using Cons.prems(2) t by simp_all
  note ih = Cons.IH [OF b oks]
  from a ok(2) show ?case
  proof (cases rule: tickSchedule_cases)
    case quiet
    then have "rs = rs2" "cs' = cs2" using Cons.prems(1) a b t by (auto split: option.splits)
    moreover have "cs sched = Some c \<Longrightarrow> cs1 sched = Some c" for c using quiet(3) ok(1) by simp
    ultimately show ?thesis using ih by blast
  next
    case (handoff rec c)
    then have e: "rs = rec # rs2" "cs' = cs2" using Cons.prems(1) a b t by simp_all
    obtain c1 where c1: "cs1 sched = Some c1" "hc_user c1 = hr_incoming rec" using handoff(8) by auto
    have "successively (\<lambda>a b. hr_outgoing b = hr_incoming a) (rec # rs2)"
      using ih c1 by (cases rs2) auto
    then show ?thesis using e ih c1 handoff(2-5) by (auto split: if_splits)
  qed
qed simp

text \<open>The hand-off records of a schedule form a chain, whichever resolutions, reads and insertions
  fail in between (as long as cursor writes succeed): every record changes the user, its outgoing
  user is the incoming user of the record before it (the cursor's user for the first one), and the
  cursor ends at the incoming user of the last record.\<close>

theorem handoff_records_chain:
  assumes "run_schedule ts sched cs = (rs, cs')"
    and "list_all (\<lambda>(env, now). he_valkey env \<and> he_write_ok env) ts"
    and "cs sched = Some c"
  shows "(\<forall>r \<in> set rs. hr_outgoing r \<noteq> hr_incoming r \<and> hr_schedule r = sched) \<and>
    successively (\<lambda>a b. hr_outgoing b = hr_incoming a) rs \<and>
    (rs \<noteq> [] \<longrightarrow> hr_outgoing (hd rs) = hc_user c) \<and>
    map_option hc_user (cs' sched) = Some (if rs = [] then hc_user c else hr_incoming (last rs))"
  using run_schedule_chain [OF assms(1,2)] assms(3) by (auto split: if_splits)

theorem handoff_records_chain_witness:
  "map (\<lambda>r. (hr_outgoing r, hr_incoming r)) (fst (run_schedule
      (map (\<lambda>(inc, t). (\<lparr>he_resolve = (\<lambda>_ _. inc), he_valkey = True, he_read_ok = True, he_write_ok = True,
          he_create_ok = True\<rparr>, t)) [(Some (Some 1), 10), (None, 20), (Some None, 30), (Some (Some 2), 40)])
      3 [3 \<mapsto> \<lparr>hc_user = Some 1, hc_resolved_at = 0\<rparr>])) = [(Some 1, None), (None, Some 2)] \<and>
   successively (\<lambda>a b. hr_outgoing b = hr_incoming a) (fst (run_schedule
      (map (\<lambda>(inc, t). (\<lparr>he_resolve = (\<lambda>_ _. inc), he_valkey = True, he_read_ok = True, he_write_ok = True,
          he_create_ok = True\<rparr>, t)) [(Some (Some 1), 10), (None, 20), (Some None, 30), (Some (Some 2), 40)])
      3 [3 \<mapsto> \<lparr>hc_user = Some 1, hc_resolved_at = 0\<rparr>]))" (is "?chain \<and> successively ?R (fst (run_schedule ?ts 3 ?cs))")
proof
  show ?chain by (simp add: tickSchedule_def readCursor_def seedCursor_def)
  obtain rs cs' where r: "run_schedule ?ts 3 ?cs = (rs, cs')" by force
  have "list_all (\<lambda>(env, now). he_valkey env \<and> he_write_ok env) ?ts" by simp
  with handoff_records_chain [OF r _ map_upd_Some_unfold [THEN iffD2]] r
  show "successively ?R (fst (run_schedule ?ts 3 ?cs))" by simp
qed

end
