(* ===== verification/Triage.thy ===== *)
theory Triage
  imports Complex_Main Ingest Cancel_Set Escalation
begin

text \<open>
  Triage of alert groups: the deterministic rules (\<^verbatim>\<open>triage/rule_evaluator.go\<close>), the engine
  (\<^verbatim>\<open>triage/triage.go\<close>), the worker that carries a decision out with its retry ladder
  (\<^verbatim>\<open>triage/worker.go\<close>) and the outcome sweep (\<^verbatim>\<open>triage/outcome_worker.go\<close>). The language model, the
  JSON decoder and the result table's failures are parameters; confidences are rationals (every
  finite double is one). Values of enrichment maps are texts.
\<close>

subsection \<open>Rules\<close>

record triage_condition =
  tc_field :: string
  tc_operator :: string
  tc_value :: string

record triage_rule =
  tu_name :: string
  tu_conditions :: "triage_condition list"
  tu_mode :: string
  tu_decision :: string
  tu_severity :: string
  tu_category :: string
  tu_enrichment :: strmap

definition condition_field :: "string \<Rightarrow> strmap \<Rightarrow> strmap \<Rightarrow> string" where
  "condition_field field labels annotations =
     (if go_has_prefix field ''label:'' then mget labels (go_trim_prefix field ''label:'')
      else if go_has_prefix field ''annotation:'' then mget annotations (go_trim_prefix field ''annotation:'')
      else if field = ''alertname'' then mget labels ''alertname''
      else if field = ''namespace'' then mget labels ''namespace''
      else if field = ''severity'' then mget labels ''severity''
      else mget labels field)"

definition matchesRule :: "regex_engine \<Rightarrow> triage_rule \<Rightarrow> strmap \<Rightarrow> strmap \<Rightarrow> bool" where
  "matchesRule compile rule labels annotations =
     (if tu_conditions rule = [] then False
      else cond_loop (tu_mode rule \<noteq> ''all'')
             (\<lambda>c. match_cold compile (condition_field (tc_field c) labels annotations) (tc_operator c) (tc_value c))
             (tu_conditions rule))"

definition EvaluateRules :: "regex_engine \<Rightarrow> triage_rule list option \<Rightarrow> strmap \<Rightarrow> strmap \<Rightarrow> triage_rule option" where
  "EvaluateRules compile rules labels annotations =
     (case rules of
        None \<Rightarrow> None
      | Some rs \<Rightarrow> List.find (\<lambda>r. matchesRule compile r labels annotations) rs)"

subsection \<open>The engine\<close>

record triage_msg =
  tr_key :: string
  tr_alerts :: "correlated_alert list"
  tr_severity :: string
  tr_retry :: int
  tr_trace :: string
  tr_dedupe :: string
  tr_investigation :: string

record triage_enrichment =
  en_owner :: string
  en_runbook :: string
  en_past_cause :: string
  en_past_resolution :: string
  en_actions :: "string list"

record triage_response =
  rs_decision :: string
  rs_confidence :: rat
  rs_severity :: string
  rs_category :: string
  rs_reasoning :: string
  rs_actions :: "string list option" \<comment> \<open>none: absent\<close>
  rs_enrichment :: triage_enrichment

definition decision_only :: "string \<Rightarrow> triage_response" where
  "decision_only d = \<lparr>rs_decision = d, rs_confidence = 0, rs_severity = [], rs_category = [], rs_reasoning = [],
     rs_actions = None, rs_enrichment = \<lparr>en_owner = [], en_runbook = [], en_past_cause = [],
       en_past_resolution = [], en_actions = []\<rparr>\<rparr>"

record triage_record =
  rc_key :: string
  rc_count :: nat
  rc_fingerprints :: "string list"
  rc_labels :: strmap
  rc_severity_input :: string
  rc_decision :: string
  rc_confidence :: rat
  rc_severity :: string
  rc_category :: string
  rc_reasoning :: string
  rc_actions :: "string list"
  rc_enrichment :: strmap
  rc_outcome :: string
  rc_overridden_to :: string
  rc_model :: string
  rc_trace :: string

definition buildRecord ::
    "triage_msg \<Rightarrow> strmap \<Rightarrow> string \<Rightarrow> rat \<Rightarrow> string \<Rightarrow> string \<Rightarrow> string \<Rightarrow> string list option \<Rightarrow> string \<Rightarrow> triage_record" where
  "buildRecord msg labels decision confidence severity category reasoning actions model =
     \<lparr>rc_key = tr_key msg, rc_count = length (tr_alerts msg), rc_fingerprints = map ca_Fingerprint (tr_alerts msg),
      rc_labels = labels, rc_severity_input = tr_severity msg, rc_decision = decision, rc_confidence = confidence,
      rc_severity = severity, rc_category = category, rc_reasoning = reasoning,
      rc_actions = (case actions of None \<Rightarrow> [] | Some a \<Rightarrow> a), rc_enrichment = [],
      rc_outcome = ''pending'', rc_overridden_to = [], rc_model = model, rc_trace = tr_trace msg\<rparr>"

text \<open>\<^verbatim>\<open>ParseTriageResponse\<close>: \<open>json\<close> decodes the text (none for malformed JSON).\<close>

definition fence :: string where
  "fence = [CHR 0x60, CHR 0x60, CHR 0x60]"

definition go_trim_suffix :: "string \<Rightarrow> string \<Rightarrow> string" where
  "go_trim_suffix s p = (if go_has_suffix s p then take (length s - length p) s else s)"

definition ParseTriageResponse :: "(string \<Rightarrow> triage_response option) \<Rightarrow> string \<Rightarrow> triage_response option" where
  "ParseTriageResponse json raw =
     (let raw = go_trim_space raw;
          raw = (if go_has_prefix raw (fence @ ''json'')
                 then go_trim_space (go_trim_suffix (go_trim_prefix raw (fence @ ''json'')) fence)
                 else if go_has_prefix raw fence
                 then go_trim_space (go_trim_suffix (go_trim_prefix raw fence) fence)
                 else raw)
      in case json raw of
           None \<Rightarrow> None
         | Some resp \<Rightarrow> if rs_decision resp = [] then None else Some resp)"

text \<open>\<open>te_rules\<close>: the enabled rules (none on an error). \<open>te_candidate\<close>: \<^verbatim>\<open>AutoPromoteCandidate\<close>
  (none on an error). \<open>te_llm\<close>: a client and a URL are configured. \<open>te_generate\<close>: the answer for the
  prompt built from the message (none on an error). \<open>te_save\<close>: the id of the stored record (none on
  an error). \<open>te_prompts\<close>: text of the reasoning for a rule and for a promotion.\<close>

record triage_engine =
  te_regex :: regex_engine
  te_rules :: "triage_rule list option"
  te_promote :: int
  te_candidate :: "string \<Rightarrow> (string \<times> int) option"
  te_llm :: bool
  te_generate :: "triage_msg \<Rightarrow> strmap \<Rightarrow> string option"
  te_json :: "string \<Rightarrow> triage_response option"
  te_auto_resolve :: bool
  te_suppress :: bool
  te_threshold :: rat
  te_model :: string
  te_save :: "triage_record \<Rightarrow> uuid option"
  te_promoted :: "int \<Rightarrow> string"

definition gate :: "triage_engine \<Rightarrow> triage_response \<Rightarrow> string" where
  "gate e resp =
     (if rs_decision resp = ''auto_resolve'' \<and> \<not> te_auto_resolve e \<or>
         rs_decision resp = ''suppress'' \<and> \<not> te_suppress e \<or>
         rs_confidence resp < te_threshold e \<and> rs_decision resp \<noteq> ''investigate''
      then ''enrich_only'' else rs_decision resp)"

definition llm_enrichment :: "triage_enrichment \<Rightarrow> strmap" where
  "llm_enrichment n =
     [(''service_owner'', en_owner n), (''runbook_url'', en_runbook n), (''past_root_cause'', en_past_cause n),
      (''past_resolution'', en_past_resolution n)]"

definition save ::
    "triage_engine \<Rightarrow> triage_record \<Rightarrow> triage_response \<Rightarrow> (triage_record \<times> uuid \<times> triage_response) option" where
  "save e r resp = map_option (\<lambda>i. (r, i, resp)) (te_save e r)"

text \<open>The language model step: none when it is not configured, fails, or cannot be parsed.\<close>

definition llm_answer :: "triage_engine \<Rightarrow> triage_msg \<Rightarrow> strmap \<Rightarrow> triage_response option" where
  "llm_answer e msg labels =
     (if te_llm e then
        (case te_generate e msg labels of
           None \<Rightarrow> None
         | Some raw \<Rightarrow> ParseTriageResponse (te_json e) raw)
      else None)"

definition auto_promotion :: "triage_engine \<Rightarrow> triage_msg \<Rightarrow> (string \<times> int) option" where
  "auto_promotion e msg =
     (if te_promote e > 0 \<and> tr_key msg \<noteq> [] then
        (case te_candidate e (tr_key msg) of
           None \<Rightarrow> None
         | Some (decision, confirmations) \<Rightarrow>
             if decision \<noteq> [] \<and> confirmations \<ge> te_promote e then Some (decision, confirmations) else None)
      else None)"

definition ProcessTriage ::
    "triage_engine \<Rightarrow> triage_msg \<Rightarrow> (triage_record \<times> uuid \<times> triage_response) option" where
  "ProcessTriage e msg =
     (let labels = FindCommonKeyValues (map ca_Labels (tr_alerts msg));
          annotations = FindCommonKeyValues (map ca_Annotations (tr_alerts msg))
      in case EvaluateRules (te_regex e) (te_rules e) labels annotations of
           Some rule \<Rightarrow>
             save e ((buildRecord msg labels (tu_decision rule) 1 (tu_severity rule) (tu_category rule)
                       (''Deterministic rule match: '' @ tu_name rule) None [])
                     \<lparr>rc_enrichment := tu_enrichment rule\<rparr>) (decision_only (tu_decision rule))
         | None \<Rightarrow>
             (case auto_promotion e msg of
                Some (decision, confirmations) \<Rightarrow>
                  save e (buildRecord msg labels decision 1 [] [] (te_promoted e confirmations) None [])
                    (decision_only decision)
              | None \<Rightarrow>
                  (case llm_answer e msg labels of
                     Some resp \<Rightarrow>
                       save e ((buildRecord msg labels (gate e resp) (rs_confidence resp) (rs_severity resp)
                                 (rs_category resp) (rs_reasoning resp) (rs_actions resp) (te_model e))
                               \<lparr>rc_enrichment := llm_enrichment (rs_enrichment resp)\<rparr>) resp
                   | None \<Rightarrow>
                       save e (buildRecord msg labels ''enrich_only'' 0 [] []
                                 ''Fallback: no triage rules matched and LLM unavailable'' None [])
                         (decision_only ''enrich_only''))))"

subsection \<open>The worker\<close>

record investigate_msg =
  im_investigation :: string
  im_alerts :: "correlated_alert list"
  im_severity :: string
  im_key :: string
  im_dedupe :: string
  im_result :: "uuid option"
  im_decision :: string
  im_tseverity :: string
  im_category :: string
  im_reasoning :: string
  im_confidence :: rat
  im_enrichment :: "triage_enrichment option"

datatype triage_effect =
    TInvestigate investigate_msg
  | TResolved string
  | TSilenced string
  | TUntrack string
  | TComplete int
  | TAudit string string uuid string

datatype triage_verdict = TAck | TNackDrop | TNackRequeue | TRetry triage_msg | TPanic

text \<open>\<open>tw_publisher\<close>: configured, and whether it accepts an investigation and a retry.\<close>

record triage_worker =
  tw_engine :: triage_engine
  tw_cancelled :: "string \<Rightarrow> int \<Rightarrow> bool"
  tw_store :: bool
  tw_publisher :: bool
  tw_pub_ok :: bool
  tw_retry_ok :: bool
  tw_dedup :: bool
  tw_audit :: bool
  tw_lifecycle :: bool

definition MaxTriageRetries :: int where
  "MaxTriageRetries = 4"

definition base_message :: "triage_msg \<Rightarrow> investigate_msg" where
  "base_message msg =
     \<lparr>im_investigation = tr_investigation msg, im_alerts = tr_alerts msg, im_severity = tr_severity msg,
      im_key = tr_key msg, im_dedupe = tr_dedupe msg, im_result = None, im_decision = [], im_tseverity = [],
      im_category = [], im_reasoning = [], im_confidence = 0, im_enrichment = None\<rparr>"

definition investigate_message :: "triage_msg \<Rightarrow> uuid \<Rightarrow> triage_response \<Rightarrow> investigate_msg" where
  "investigate_message msg i resp =
     (base_message msg)
       \<lparr>im_result := Some i, im_decision := rs_decision resp, im_tseverity := rs_severity resp,
        im_category := rs_category resp, im_reasoning := rs_reasoning resp, im_confidence := rs_confidence resp,
        im_enrichment :=
          (if en_owner (rs_enrichment resp) \<noteq> [] \<or> en_runbook (rs_enrichment resp) \<noteq> []
           then Some ((rs_enrichment resp)\<lparr>en_actions := (case rs_actions resp of None \<Rightarrow> [] | Some a \<Rightarrow> a)\<rparr>)
           else None)\<rparr>"

text \<open>Handlers yield whether they succeeded.\<close>

definition handleInvestigate :: "triage_worker \<Rightarrow> triage_msg \<Rightarrow> uuid \<Rightarrow> triage_response \<Rightarrow> bool \<times> triage_effect list" where
  "handleInvestigate w msg i resp =
     (if tw_pub_ok w then (True, [TInvestigate (investigate_message msg i resp)]) else (False, []))"

fun resolve_loop ::
    "'s store_api \<Rightarrow> bool \<Rightarrow> correlated_alert list \<Rightarrow> 's \<Rightarrow> bool \<times> triage_effect list \<times> 's" where
  "resolve_loop st dedup [] s = (True, [], s)"
| "resolve_loop st dedup (ca # cas) s =
     (case so_update_status st (ca_Fingerprint ca) ''resolved'' s of
        (Inl _, s1) \<Rightarrow> (False, [], s1)
      | (Inr _, s1) \<Rightarrow>
          let (ok, effs, s2) = resolve_loop st dedup cas s1
          in (ok, TResolved (ca_Fingerprint ca) # (if dedup then [TUntrack (ca_Fingerprint ca)] else []) @ effs, s2))"

definition handleAutoResolve ::
    "triage_worker \<Rightarrow> 's store_api \<Rightarrow> triage_msg \<Rightarrow> 's \<Rightarrow> bool \<times> triage_effect list \<times> 's" where
  "handleAutoResolve w st msg s =
     (if \<not> tw_store w then (True, [], s)
      else case resolve_loop st (tw_dedup w) (tr_alerts msg) s of
             (False, effs, s1) \<Rightarrow> (False, effs, s1)
           | (True, effs, s1) \<Rightarrow>
               (True, effs @ (if tw_lifecycle w
                              then map (\<lambda>ca. TComplete (ca_AlertNumber ca))
                                     (filter (\<lambda>ca. ca_AlertNumber ca > 0) (tr_alerts msg))
                              else []), s1))"

fun suppress_loop ::
    "'s store_api \<Rightarrow> triage_worker \<Rightarrow> triage_msg \<Rightarrow> uuid \<Rightarrow> string \<Rightarrow> correlated_alert list \<Rightarrow> 's
     \<Rightarrow> bool \<times> triage_effect list \<times> 's" where
  "suppress_loop st w msg i reasoning [] s = (True, [], s)"
| "suppress_loop st w msg i reasoning (ca # cas) s =
     (case so_silence st (ca_Fingerprint ca) s of
        (Inl _, s1) \<Rightarrow> (False, [], s1)
      | (Inr _, s1) \<Rightarrow>
          let (ok, effs, s2) = suppress_loop st w msg i reasoning cas s1
          in (ok, TSilenced (ca_Fingerprint ca)
                # (if tw_dedup w then [TUntrack (ca_Fingerprint ca)] else [])
                @ (if tw_audit w then [TAudit (ca_Fingerprint ca) (tr_key msg) i reasoning] else []) @ effs, s2))"

definition handleSuppress ::
    "triage_worker \<Rightarrow> 's store_api \<Rightarrow> triage_msg \<Rightarrow> uuid \<Rightarrow> triage_response \<Rightarrow> 's \<Rightarrow> bool \<times> triage_effect list \<times> 's" where
  "handleSuppress w st msg i resp s =
     (if \<not> tw_store w then (True, [], s)
      else suppress_loop st w msg i (rs_reasoning resp) (tr_alerts msg) s)"

definition handleTriageRetry :: "triage_worker \<Rightarrow> triage_msg \<Rightarrow> triage_verdict \<times> triage_effect list" where
  "handleTriageRetry w msg =
     (if \<not> tw_publisher w then (TNackRequeue, [])
      else
        let msg' = msg\<lparr>tr_retry := tr_retry msg + 1\<rparr>
        in if tr_retry msg' > MaxTriageRetries
           then (TNackDrop, if tw_pub_ok w then [TInvestigate (base_message msg)] else [])
           else if publishRetry (tr_retry msg') MaxTriageRetries (tw_retry_ok w) = None then (TNackRequeue, [])
           else (TRetry msg', []))"

definition execute ::
    "triage_worker \<Rightarrow> 's store_api \<Rightarrow> triage_msg \<Rightarrow> uuid \<Rightarrow> triage_response \<Rightarrow> 's \<Rightarrow> bool \<times> triage_effect list \<times> 's" where
  "execute w st msg i resp s =
     (if rs_decision resp = ''auto_resolve'' then handleAutoResolve w st msg s
      else if rs_decision resp = ''suppress'' then handleSuppress w st msg i resp s
      else let (ok, effs) = handleInvestigate w msg i resp in (ok, effs, s))"

definition HandleTriage ::
    "triage_worker \<Rightarrow> 's store_api \<Rightarrow> triage_msg \<Rightarrow> 's \<Rightarrow> triage_verdict \<times> triage_effect list \<times> 's" where
  "HandleTriage w st msg s =
     (let (primary, num) = (case tr_alerts msg of [] \<Rightarrow> ([], 0) | ca # _ \<Rightarrow> (ca_Fingerprint ca, ca_AlertNumber ca))
      in if tw_cancelled w primary num then (TAck, [], s)
         else case ProcessTriage (tw_engine w) msg of
           None \<Rightarrow> (let (v, effs) = handleTriageRetry w msg in (v, effs, s))
         | Some (r, i, resp) \<Rightarrow>
             if rs_decision resp \<notin> {''auto_resolve'', ''suppress''} \<and> \<not> tw_publisher w then (TPanic, [], s)
             else
               (case execute w st msg i resp s of
                  (True, effs, s1) \<Rightarrow> (TAck, effs, s1)
                | (False, effs, s1) \<Rightarrow>
                    let (v, effs') = handleTriageRetry w msg in (v, effs @ effs', s1)))"

subsection \<open>Outcomes\<close>

text \<open>\<open>lookup\<close>: \<^verbatim>\<open>GetByFingerprint\<close> (the outer none is an error).\<close>

definition evaluateOutcome :: "(string \<Rightarrow> alert_record option option) \<Rightarrow> triage_record \<Rightarrow> triage_record" where
  "evaluateOutcome lookup result =
     (if rc_decision result = ''auto_resolve'' \<and>
         list_ex (\<lambda>fp. case lookup fp of
                         Some (Some a) \<Rightarrow> ar_deleted (re_alert a) = None \<and> ar_status (re_alert a) = ''firing''
                       | _ \<Rightarrow> False) (rc_fingerprints result)
      then result\<lparr>rc_outcome := ''overridden'', rc_overridden_to := ''investigate''\<rparr>
      else result\<lparr>rc_outcome := ''confirmed''\<rparr>)"

text \<open>\<^verbatim>\<open>AutoPromoteCandidate\<close> over the results of the table, newest first.\<close>

definition AutoPromoteCandidate :: "triage_record list \<Rightarrow> string \<Rightarrow> string \<times> int" where
  "AutoPromoteCandidate tab key =
     (case List.find (\<lambda>r. rc_key r = key \<and> rc_outcome r = ''confirmed'') tab of
        None \<Rightarrow> ([], 0)
      | Some r \<Rightarrow>
          (rc_decision r,
           int (length (filter (\<lambda>x. rc_key x = key \<and> rc_outcome x = ''confirmed'' \<and> rc_decision x = rc_decision r) tab))))"

end
