(* ===== verification/Triage_Correct.thy ===== *)
theory Triage_Correct
  imports Triage
begin

text \<open>
  What carrying out a triage decision does to the alerts, over every store that satisfies
  \<open>alert_store_contract\<close>, then the properties on the store of \<open>Alert_Store\<close>.
\<close>

context alert_store_contract
begin

text \<open>From \<open>s\<close> to \<open>s'\<close> alerts with fingerprints in \<open>fps\<close> may have been closed, nothing else.\<close>

definition only_closes :: "string list \<Rightarrow> 's \<Rightarrow> 's \<Rightarrow> bool" where
  "only_closes fps s s' \<longleftrightarrow>
     inv s' \<and> (\<forall>m. closed s m \<longrightarrow> closed s' m) \<and>
     (\<forall>fp. opens s' fp \<longrightarrow> opens s fp) \<and> (\<forall>fp. fp \<notin> set fps \<longrightarrow> opens s' fp = opens s fp)"

lemma only_closes_refl: "inv s \<Longrightarrow> only_closes fps s s"
  by (simp add: only_closes_def)

lemma only_closes_step:
  assumes "inv s1" "\<forall>m. closed s m \<longrightarrow> closed s1 m" "opens s1 = (opens s)(fp := False)"
    and "only_closes fps s1 s2"
  shows "only_closes (fp # fps) s s2 \<and> \<not> opens s2 fp"
  using assms by (auto simp: only_closes_def split: if_split_asm)

lemma only_closes_same:
  assumes "inv s1" "opens s1 = opens s" "closed s1 = closed s"
  shows "only_closes fps s s1"
  using assms by (simp add: only_closes_def)

lemma resolve_loop_closes:
  assumes "resolve_loop st dedup cas s = (ok, effs, s')" "inv s"
  shows "only_closes (map ca_Fingerprint cas) s s' \<and> (\<forall>fp. TResolved fp \<in> set effs \<longrightarrow> \<not> opens s' fp) \<and>
    (ok \<longrightarrow> (\<forall>ca \<in> set cas. TResolved (ca_Fingerprint ca) \<in> set effs)) \<and>
    (\<forall>x \<in> set effs. \<forall>fp. x \<noteq> TSilenced fp)"
  using assms
proof (induction cas arbitrary: s ok effs s')
  case Nil
  then show ?case by (simp add: only_closes_refl)
next
  case (Cons ca cas)
  obtain r s1 where r: "so_update_status st (ca_Fingerprint ca) ''resolved'' s = (r, s1)" by force
  show ?case
  proof (cases r)
    case (Inl e)
    with Cons.prems r resolve_err [of s "ca_Fingerprint ca" e s1] show ?thesis
      by (auto intro: only_closes_same)
  next
    case (Inr u)
    obtain ok2 effs2 s2 where l: "resolve_loop st dedup cas s1 = (ok2, effs2, s2)" by (metis prod_cases3)
    note law = resolve_law [OF Cons.prems(2) r [unfolded Inr]]
    from Cons.IH [OF l] law
    have ih: "only_closes (map ca_Fingerprint cas) s1 s2" "\<forall>fp. TResolved fp \<in> set effs2 \<longrightarrow> \<not> opens s2 fp"
      "ok2 \<longrightarrow> (\<forall>ca \<in> set cas. TResolved (ca_Fingerprint ca) \<in> set effs2)"
      "\<forall>x \<in> set effs2. \<forall>fp. x \<noteq> TSilenced fp" by blast+
    have e: "ok = ok2" "s' = s2"
      "effs = TResolved (ca_Fingerprint ca) # (if dedup then [TUntrack (ca_Fingerprint ca)] else []) @ effs2"
      using Cons.prems(1) r Inr l by simp_all
    from only_closes_step [OF _ _ _ ih(1), of s "ca_Fingerprint ca"] law ih(2-4) show ?thesis
      unfolding e by auto
  qed
qed

lemma suppress_loop_closes:
  assumes "suppress_loop st w msg i reasoning cas s = (ok, effs, s')" "inv s"
  shows "only_closes (map ca_Fingerprint cas) s s' \<and> (\<forall>fp. TSilenced fp \<in> set effs \<longrightarrow> \<not> opens s' fp) \<and>
    (ok \<longrightarrow> (\<forall>ca \<in> set cas. TSilenced (ca_Fingerprint ca) \<in> set effs)) \<and>
    (\<forall>x \<in> set effs. \<forall>fp. x \<noteq> TResolved fp)"
  using assms
proof (induction cas arbitrary: s ok effs s')
  case Nil
  then show ?case by (simp add: only_closes_refl)
next
  case (Cons ca cas)
  obtain r s1 where r: "so_silence st (ca_Fingerprint ca) s = (r, s1)" by force
  show ?case
  proof (cases r)
    case (Inl e)
    with Cons.prems r silence_err [of s "ca_Fingerprint ca" e s1] show ?thesis
      by (auto intro: only_closes_same)
  next
    case (Inr u)
    obtain ok2 effs2 s2 where l: "suppress_loop st w msg i reasoning cas s1 = (ok2, effs2, s2)" by (metis prod_cases3)
    note law = silence_law [OF Cons.prems(2) r [unfolded Inr]]
    from Cons.IH [OF l] law
    have ih: "only_closes (map ca_Fingerprint cas) s1 s2" "\<forall>fp. TSilenced fp \<in> set effs2 \<longrightarrow> \<not> opens s2 fp"
      "ok2 \<longrightarrow> (\<forall>ca \<in> set cas. TSilenced (ca_Fingerprint ca) \<in> set effs2)"
      "\<forall>x \<in> set effs2. \<forall>fp. x \<noteq> TResolved fp" by blast+
    have e: "ok = ok2" "s' = s2"
      "effs = TSilenced (ca_Fingerprint ca) # (if tw_dedup w then [TUntrack (ca_Fingerprint ca)] else [])
        @ (if tw_audit w then [TAudit (ca_Fingerprint ca) (tr_key msg) i reasoning] else []) @ effs2"
      using Cons.prems(1) r Inr l by simp_all
    from only_closes_step [OF _ _ _ ih(1), of s "ca_Fingerprint ca"] law ih(2-4) show ?thesis
      unfolding e by auto
  qed
qed

text \<open>The alerts an effect list reports as closed.\<close>

definition reports :: "triage_effect list \<Rightarrow> string \<Rightarrow> bool" where
  "reports effs fp \<longleftrightarrow> TResolved fp \<in> set effs \<or> TSilenced fp \<in> set effs"

lemma execute_closes:
  assumes "execute w st msg i resp s = (ok, effs, s')" "inv s"
  shows "only_closes (map ca_Fingerprint (tr_alerts msg)) s s' \<and> (\<forall>fp. reports effs fp \<longrightarrow> \<not> opens s' fp) \<and>
    (ok \<and> tw_store w \<and> rs_decision resp \<in> {''auto_resolve'', ''suppress''} \<longrightarrow>
       (\<forall>ca \<in> set (tr_alerts msg). reports effs (ca_Fingerprint ca))) \<and>
    (rs_decision resp \<notin> {''auto_resolve'', ''suppress''} \<longrightarrow> s' = s)"
proof -
  consider (resolve) "rs_decision resp = ''auto_resolve''" "tw_store w"
    | (suppress) "rs_decision resp = ''suppress''" "tw_store w"
    | (skip) "rs_decision resp \<in> {''auto_resolve'', ''suppress''}" "\<not> tw_store w"
    | (investigate) "rs_decision resp \<notin> {''auto_resolve'', ''suppress''}" by blast
  then show ?thesis
  proof cases
    case resolve
    obtain ok1 effs1 s1 where l: "resolve_loop st (tw_dedup w) (tr_alerts msg) s = (ok1, effs1, s1)"
      by (metis prod_cases3)
    have e: "ok = ok1" "s' = s1" "reports effs = reports effs1"
      using assms(1) resolve l by (cases ok1; auto simp: execute_def handleAutoResolve_def reports_def fun_eq_iff)+
    from resolve_loop_closes [OF l assms(2)] resolve show ?thesis
      unfolding e by (auto simp: reports_def)
  next
    case suppress
    then have l: "suppress_loop st w msg i (rs_reasoning resp) (tr_alerts msg) s = (ok, effs, s')"
      using assms(1) by (simp add: execute_def handleSuppress_def)
    from suppress_loop_closes [OF l assms(2)] suppress show ?thesis by (auto simp: reports_def)
  next
    case skip
    then have "s' = s" "effs = []"
      using assms(1) by (auto simp: execute_def handleAutoResolve_def handleSuppress_def split: if_splits)
    with skip assms(2) show ?thesis by (simp add: only_closes_refl reports_def)
  next
    case investigate
    then have "s' = s" "\<And>fp. \<not> reports effs fp"
      using assms(1) by (auto simp: execute_def handleInvestigate_def reports_def split: if_splits)
    with investigate assms(2) show ?thesis by (simp add: only_closes_refl)
  qed
qed

lemma retry_reports: "handleTriageRetry w msg = (v, effs) \<Longrightarrow> \<not> reports effs fp \<and> v \<noteq> TAck"
  by (auto simp: handleTriageRetry_def Let_def reports_def split: if_splits)

lemma reports_append: "reports (a @ b) fp \<longleftrightarrow> reports a fp \<or> reports b fp"
  by (auto simp: reports_def)

lemma untouched:
  "inv s \<Longrightarrow> s' = s \<Longrightarrow> \<forall>fp. \<not> reports effs fp \<Longrightarrow>
   only_closes fps s s' \<and> (\<forall>fp. reports effs fp \<longrightarrow> \<not> opens s' fp)"
  by (simp add: only_closes_refl)

lemma HandleTriage_cases:
  assumes "HandleTriage w st msg s = (v, effs, s')"
  obtains (idle) "s' = s" "\<forall>fp. \<not> reports effs fp"
  | (executed) r i resp ok effs1 where "ProcessTriage (tw_engine w) msg = Some (r, i, resp)"
      "execute w st msg i resp s = (ok, effs1, s')" "ok \<longleftrightarrow> v = TAck"
      "effs = effs1 @ (if ok then [] else snd (handleTriageRetry w msg))"
proof -
  obtain p n where pn: "(case tr_alerts msg of [] \<Rightarrow> ([], 0) | ca # _ \<Rightarrow> (ca_Fingerprint ca, ca_AlertNumber ca)) = (p, n)"
    by force
  obtain vr er where rt: "handleTriageRetry w msg = (vr, er)" by force
  note h = assms(1) [unfolded HandleTriage_def pn Let_def prod.case]
  show ?thesis
  proof (cases "tw_cancelled w p n")
    case True
    with h show ?thesis by (intro idle) (simp_all add: reports_def)
  next
    case live: False
    show ?thesis
    proof (cases "ProcessTriage (tw_engine w) msg")
      case None
      with live h rt have "s' = s" "effs = er" by simp_all
      with retry_reports [OF rt] show ?thesis by (intro idle) simp_all
    next
      case (Some res)
      obtain r i resp where res: "res = (r, i, resp)" by (cases res) auto
      obtain ok effs1 s1 where x: "execute w st msg i resp s = (ok, effs1, s1)" by (metis prod_cases3)
      show ?thesis
      proof (cases "rs_decision resp \<notin> {''auto_resolve'', ''suppress''} \<and> \<not> tw_publisher w")
        case True
        with live Some res h show ?thesis by (intro idle) (simp_all add: reports_def)
      next
        case False
        have e: "(case (ok, effs1, s1) of (True, effs, s1) \<Rightarrow> (TAck, effs, s1)
            | (False, effs, s1) \<Rightarrow> (vr, effs @ er, s1)) = (v, effs, s')"
          using h by (simp only: live False Some res x rt if_False option.case prod.case refl)
        have "vr \<noteq> TAck" using retry_reports [OF rt] by blast
        with e have "s' = s1" "ok \<longleftrightarrow> v = TAck" "effs = effs1 @ (if ok then [] else snd (handleTriageRetry w msg))"
          using rt by (cases ok; simp)+
        with x Some res show ?thesis by (intro executed [of r i resp ok effs1]) simp_all
      qed
    qed
  qed
qed

lemma HandleTriage_closes:
  assumes "HandleTriage w st msg s = (v, effs, s')" "inv s"
  shows "only_closes (map ca_Fingerprint (tr_alerts msg)) s s' \<and> (\<forall>fp. reports effs fp \<longrightarrow> \<not> opens s' fp)"
  using assms(1)
proof (cases rule: HandleTriage_cases)
  case idle
  with untouched [OF assms(2)] show ?thesis by blast
next
  case (executed r i resp ok effs1)
  have "\<not> reports (snd (handleTriageRetry w msg)) fp" for fp
    using retry_reports [of w msg] by (metis prod.collapse)
  moreover have "\<not> reports [] fp" for fp by (simp add: reports_def)
  moreover have "only_closes (map ca_Fingerprint (tr_alerts msg)) s s'" "\<forall>fp. reports effs1 fp \<longrightarrow> \<not> opens s' fp"
    using execute_closes [OF executed(2) assms(2)] by blast+
  ultimately show ?thesis
    unfolding executed(4) by (simp add: reports_append)
qed

end

subsection \<open>On the alert tables\<close>

definition demo_engine_triage :: "bool \<Rightarrow> triage_engine" where
  "demo_engine_triage enabled =
     \<lparr>te_regex = (\<lambda>_. None), te_rules = Some [], te_promote = 0, te_candidate = (\<lambda>_. None), te_llm = True,
      te_generate = (\<lambda>_ _. Some ''x''),
      te_json = (\<lambda>_. Some ((decision_only ''auto_resolve'')\<lparr>rs_confidence := 1\<rparr>)),
      te_auto_resolve = enabled, te_suppress = True, te_threshold = 0, te_model = ''m'',
      te_save = (\<lambda>_. Some 77), te_promoted = (\<lambda>_. [])\<rparr>"

definition demo_triage :: "bool \<Rightarrow> triage_worker" where
  "demo_triage enabled =
     \<lparr>tw_engine = demo_engine_triage enabled, tw_cancelled = (\<lambda>_ _. False), tw_store = True, tw_publisher = True,
      tw_pub_ok = True, tw_retry_ok = True, tw_dedup = True, tw_audit = False, tw_lifecycle = False\<rparr>"

definition demo_correlated :: "string \<Rightarrow> correlated_alert" where
  "demo_correlated fp = \<lparr>ca_Fingerprint = fp, ca_AlertNumber = 7, ca_Labels = [], ca_Annotations = [],
     ca_Status = ''firing'', ca_StartsAt = [], ca_Values = [], ca_GeneratorURL = []\<rparr>"

definition demo_group :: "string list \<Rightarrow> triage_msg" where
  "demo_group fps = \<lparr>tr_key = ''k'', tr_alerts = map demo_correlated fps, tr_severity = [], tr_retry = 0,
     tr_trace = [], tr_dedupe = [], tr_investigation = []\<rparr>"

lemmas demo_triage_defs = demo_engine_triage_def demo_triage_def demo_correlated_def demo_group_def

abbreviation triage_pg :: "alert_event \<Rightarrow> pg_state store_api" where
  "triage_pg ev \<equiv> pg_store (Some ev) (\<lambda>_ _. False) (\<lambda>t. int t + 5) (\<lambda>t. (t, int t))"

text \<open>Whatever triage decides about a group, and whichever statements of the database fail, the
  alert tables stay well formed, no alert is opened or reopened, only alerts with a fingerprint of
  the group can be closed, and every alert reported as resolved or silenced is closed.\<close>

theorem triage_only_closes_group:
  assumes "HandleTriage w (pg_store (Some ev) bad clock ids) msg (db, t) = (v, effs, (db', t'))"
    and "alert_wf db"
  shows "alert_wf db' \<and>
    (\<forall>fp. tab_opens (db_alerts db') fp \<longrightarrow> tab_opens (db_alerts db) fp) \<and>
    (\<forall>n. tab_closed (db_alerts db) n \<longrightarrow> tab_closed (db_alerts db') n) \<and>
    (\<forall>fp. fp \<notin> set (map ca_Fingerprint (tr_alerts msg)) \<longrightarrow>
       tab_opens (db_alerts db') fp = tab_opens (db_alerts db) fp) \<and>
    (\<forall>fp. TResolved fp \<in> set effs \<or> TSilenced fp \<in> set effs \<longrightarrow> \<not> tab_opens (db_alerts db') fp)"
  using pg.HandleTriage_closes [OF assms(1)] assms(2)
  by (simp add: pg.only_closes_def pg.reports_def pg_inv_def pg_opens_def pg_closed_def)

subsection \<open>Decisions recorded and executed\<close>

lemma ProcessTriage_llm:
  assumes "ProcessTriage e msg = Some (r, i, resp)"
    and "EvaluateRules (te_regex e) (te_rules e) (FindCommonKeyValues (map ca_Labels (tr_alerts msg)))
          (FindCommonKeyValues (map ca_Annotations (tr_alerts msg))) = None"
    and "auto_promotion e msg = None"
  shows "rc_decision r = (case llm_answer e msg (FindCommonKeyValues (map ca_Labels (tr_alerts msg))) of
      None \<Rightarrow> ''enrich_only'' | Some resp \<Rightarrow> gate e resp)"
  using assms by (auto simp: ProcessTriage_def Let_def save_def buildRecord_def split: option.splits)

text \<open>The decision that is recorded is always permitted: an automatic resolution or suppression
  recorded for a group comes from a deterministic rule, from prior confirmations, or from the
  language model while that action is enabled and its confidence reaches the threshold.\<close>

theorem recorded_decision_gated:
  assumes "ProcessTriage e msg = Some (r, i, resp)"
    and "rc_decision r = ''auto_resolve'' \<or> rc_decision r = ''suppress''"
  shows "EvaluateRules (te_regex e) (te_rules e) (FindCommonKeyValues (map ca_Labels (tr_alerts msg)))
          (FindCommonKeyValues (map ca_Annotations (tr_alerts msg))) \<noteq> None \<or>
    auto_promotion e msg \<noteq> None \<or>
    (rs_decision resp = rc_decision r \<and> te_threshold e \<le> rs_confidence resp \<and>
     (rc_decision r = ''auto_resolve'' \<longrightarrow> te_auto_resolve e) \<and> (rc_decision r = ''suppress'' \<longrightarrow> te_suppress e))"
proof (rule ccontr)
  assume "\<not> ?thesis"
  then have n: "EvaluateRules (te_regex e) (te_rules e) (FindCommonKeyValues (map ca_Labels (tr_alerts msg)))
          (FindCommonKeyValues (map ca_Annotations (tr_alerts msg))) = None" "auto_promotion e msg = None"
    and no: "\<not> (rs_decision resp = rc_decision r \<and> te_threshold e \<le> rs_confidence resp \<and>
     (rc_decision r = ''auto_resolve'' \<longrightarrow> te_auto_resolve e) \<and> (rc_decision r = ''suppress'' \<longrightarrow> te_suppress e))"
    by blast+
  note d = ProcessTriage_llm [OF assms(1) n]
  show False
  proof (cases "llm_answer e msg (FindCommonKeyValues (map ca_Labels (tr_alerts msg)))")
    case None
    with d assms(2) show False by simp
  next
    case (Some resp')
    then have "resp' = resp" using assms(1) n
      by (auto simp: ProcessTriage_def Let_def save_def)
    with d Some have "rc_decision r = gate e resp" by simp
    with assms(2) no show False by (auto simp: gate_def split: if_splits)
  qed
qed

lemma demo_decision:
  "ProcessTriage (tw_engine (demo_triage b)) (demo_group fps) =
     Some ((buildRecord (demo_group fps) (FindCommonKeyValues (map ca_Labels (tr_alerts (demo_group fps))))
        (if b then ''auto_resolve'' else ''enrich_only'') 1 [] [] [] None ''m'')
        \<lparr>rc_enrichment := llm_enrichment (rs_enrichment (decision_only []))\<rparr>, 77,
       (decision_only ''auto_resolve'')\<lparr>rs_confidence := 1\<rparr>)"
  by (simp add: demo_triage_def demo_engine_triage_def demo_group_def ProcessTriage_def EvaluateRules_def
      auto_promotion_def llm_answer_def ParseTriageResponse_def decision_only_def gate_def save_def Let_def)

lemma demo_handle:
  "HandleTriage (demo_triage b) st (demo_group fps) s =
     (case handleAutoResolve (demo_triage b) st (demo_group fps) s of
        (True, effs, s1) \<Rightarrow> (TAck, effs, s1)
      | (False, effs, s1) \<Rightarrow>
          let (v, effs') = handleTriageRetry (demo_triage b) (demo_group fps) in (v, effs @ effs', s1))"
proof -
  have c: "tw_cancelled (demo_triage b) p n = False" for p n by (simp add: demo_triage_def)
  have d: "rs_decision ((decision_only ''auto_resolve'')\<lparr>rs_confidence := 1\<rparr>) = ''auto_resolve''"
    by (simp add: decision_only_def)
  show ?thesis
    unfolding HandleTriage_def demo_decision Let_def c
    by (simp add: d execute_def split: prod.split)
qed

lemma pg_resolves_open:
  assumes "alert_wf db" "tab_opens (db_alerts db) fp"
  shows "\<exists>s1. so_update_status (triage_pg ev) fp ''resolved'' (db, t) = (Inr (), s1)"
proof -
  obtain r where "r \<in> set (db_alerts db)" "is_open r" "ar_fingerprint r = fp"
    using assms(2) by (auto simp: tab_opens_def)
  then obtain a where f: "List.find (\<lambda>r. ar_fingerprint r = fp \<and> is_open r) (db_alerts db) = Some a"
    by (cases "List.find (\<lambda>r. ar_fingerprint r = fp \<and> is_open r) (db_alerts db)") (auto simp: find_None_iff)
  then have a: "a \<in> set (db_alerts db)" "is_open a" by (auto simp: find_split)
  let ?f = "\<lambda>_ :: nat. False" and ?ev = "resolved_event (int t + 5) (Some ev)"
  have "\<not> ?f 1" by simp
  note r = resolve_stmt_cases [where fails = ?f, OF alert_wf_constraints [OF assms(1)] this]
  have "\<exists>d. resolve_update ?f False (int t + 5) ?ev (ar_id a) db = (Inr (), d)"
    unfolding resolve_update_def r filter_id_open [OF assms(1) a] Let_def by simp
  then show ?thesis
    using f by (auto simp: pg_store_def UpdateStatus_resolved)
qed

lemma demo_resolves:
  "\<exists>effs db' t'. handleAutoResolve (demo_triage b) (triage_pg ev) (demo_group [''f1'']) (example_db, 0) =
      (True, effs, (db', t')) \<and> TResolved ''f1'' \<in> set effs"
proof -
  have o: "tab_opens (db_alerts example_db) ''f1''"
    by (simp add: tab_opens_def example_db_def example_row_fields)
  obtain s1 where "so_update_status (triage_pg ev) ''f1'' ''resolved'' (example_db, 0) = (Inr (), s1)"
    using pg_resolves_open [OF example_db_wf o] by blast
  moreover obtain db' t' where "s1 = (db', t')" by force
  ultimately have "so_update_status (triage_pg ev) ''f1'' ''resolved'' (example_db, 0) = (Inr (), (db', t'))" by simp
  then show ?thesis by (simp add: handleAutoResolve_def demo_triage_def demo_group_def demo_correlated_def)
qed

theorem triage_only_closes_group_witness:
  "\<exists>effs db' t'. HandleTriage (demo_triage True) (triage_pg (resolved_event 5 None)) (demo_group [''f1'']) (example_db, 0)
      = (TAck, effs, (db', t')) \<and> alert_wf db' \<and> \<not> tab_opens (db_alerts db') ''f1''"
proof -
  obtain effs db' t' where r: "handleAutoResolve (demo_triage True) (triage_pg (resolved_event 5 None))
      (demo_group [''f1'']) (example_db, 0) = (True, effs, (db', t'))" "TResolved ''f1'' \<in> set effs"
    using demo_resolves by blast
  then have h: "HandleTriage (demo_triage True) (triage_pg (resolved_event 5 None)) (demo_group [''f1'']) (example_db, 0)
      = (TAck, effs, (db', t'))" by (simp add: demo_handle)
  from triage_only_closes_group [OF h example_db_wf] h r(2) show ?thesis by blast
qed

theorem recorded_decision_gated_witness:
  "te_threshold (demo_engine_triage True) \<le> 1 \<and> te_auto_resolve (demo_engine_triage True) \<and>
   (\<exists>r resp. ProcessTriage (tw_engine (demo_triage True)) (demo_group [''f1'']) = Some (r, 77, resp) \<and>
     rc_decision r = ''auto_resolve'' \<and> rs_decision resp = ''auto_resolve'')"
proof -
  note d = demo_decision [of True "[''f1'']", simplified if_True]
  have e: "EvaluateRules (te_regex (tw_engine (demo_triage True))) (te_rules (tw_engine (demo_triage True))) l a = None"
    "auto_promotion (tw_engine (demo_triage True)) m = None" for l a m
    by (simp_all add: demo_triage_def demo_engine_triage_def EvaluateRules_def auto_promotion_def)
  from recorded_decision_gated [OF d] e show ?thesis
    using d by (simp add: buildRecord_def decision_only_def demo_triage_def)
qed

text \<open>What is executed is not gated: the worker carries out the model's own decision. With automatic
  resolution disabled, a confident answer ``auto_resolve'' is recorded as ``enrich_only'' and yet
  the alert is resolved.\<close>

theorem disabled_auto_resolve_executed:
  "\<exists>r resp v effs s'. ProcessTriage (tw_engine (demo_triage False)) (demo_group [''f1'']) = Some (r, 77, resp) \<and>
     \<not> te_auto_resolve (tw_engine (demo_triage False)) \<and> rc_decision r = ''enrich_only'' \<and>
     HandleTriage (demo_triage False) (triage_pg (resolved_event 5 None)) (demo_group [''f1'']) (example_db, 0) = (v, effs, s') \<and>
     TResolved ''f1'' \<in> set effs \<and> tab_opens (db_alerts example_db) ''f1'' \<and> \<not> tab_opens (db_alerts (fst s')) ''f1''"
proof -
  obtain effs db' t' where r: "handleAutoResolve (demo_triage False) (triage_pg (resolved_event 5 None))
      (demo_group [''f1'']) (example_db, 0) = (True, effs, (db', t'))" "TResolved ''f1'' \<in> set effs"
    using demo_resolves by blast
  then have h: "HandleTriage (demo_triage False) (triage_pg (resolved_event 5 None)) (demo_group [''f1'']) (example_db, 0)
      = (TAck, effs, (db', t'))" by (simp add: demo_handle)
  have "\<not> tab_opens (db_alerts db') ''f1''"
    using pg.HandleTriage_closes [OF h] example_db_wf r(2)
    by (simp add: pg.reports_def pg_inv_def pg_opens_def)
  moreover have "tab_opens (db_alerts example_db) ''f1''"
    by (simp add: tab_opens_def example_db_def example_row_fields)
  moreover have "\<not> te_auto_resolve (tw_engine (demo_triage False))"
    by (simp add: demo_triage_def demo_engine_triage_def)
  ultimately show ?thesis
    using h r(2) demo_decision [of False "[''f1'']"] by (auto simp: buildRecord_def)
qed

subsection \<open>Partial execution and retries\<close>

lemma pg_resolve_needs_open:
  assumes "alert_wf db" "so_update_status (pg_store evt bad clock ids) fp ''resolved'' (db, t) = (Inr u, s')"
  shows "tab_opens (db_alerts db) fp"
proof -
  have "List.find (\<lambda>r. ar_fingerprint r = fp \<and> is_open r) (db_alerts db) \<noteq> None"
    using assms(2) by (auto simp: pg_store_def UpdateStatus_resolved split: prod.splits if_splits option.splits)
  then show ?thesis by (auto simp: find_None_iff tab_opens_def)
qed

lemma resolve_loop_all_open:
  assumes "resolve_loop (pg_store evt bad clock ids) dedup cas s = (True, effs, s')" "pg_inv s"
  shows "(\<forall>ca \<in> set cas. pg_opens s (ca_Fingerprint ca)) \<and> distinct (map ca_Fingerprint cas)"
  using assms
proof (induction cas arbitrary: s effs)
  case (Cons ca cas)
  obtain r s1 where r: "so_update_status (pg_store evt bad clock ids) (ca_Fingerprint ca) ''resolved'' s = (r, s1)"
    by (metis surj_pair)
  obtain ok effs2 s2 where l: "resolve_loop (pg_store evt bad clock ids) dedup cas s1 = (ok, effs2, s2)" by (metis prod_cases3)
  obtain u where u: "r = Inr u" using Cons.prems(1) r by (cases r) simp_all
  have ok: "ok" using Cons.prems(1) r u l by simp
  obtain db t where s: "s = (db, t)" by force
  have o: "pg_opens s (ca_Fingerprint ca)"
    using pg_resolve_needs_open [of db] Cons.prems(2) r u by (simp add: s pg_inv_def pg_opens_def)
  note law = pg.resolve_law [OF Cons.prems(2) r [unfolded u]]
  have inv1: "pg_inv s1" using law by blast
  have ih: "\<forall>ca \<in> set cas. pg_opens s1 (ca_Fingerprint ca)" "distinct (map ca_Fingerprint cas)"
    using Cons.IH [of s1 effs2] l inv1 ok Cons.prems(1) r u by simp_all
  have "\<not> pg_opens s1 (ca_Fingerprint ca)" "\<And>fp. pg_opens s1 fp \<Longrightarrow> pg_opens s fp"
    using law by (simp_all split: if_split_asm)
  with ih o show ?case by (force simp del: fun_upd_apply)
qed simp

lemma resolve_loop_no_complete:
  "resolve_loop st dedup cas s = (ok, effs, s') \<Longrightarrow> TComplete n \<notin> set effs"
proof (induction cas arbitrary: s ok effs s')
  case (Cons ca cas)
  obtain r s1 where r: "so_update_status st (ca_Fingerprint ca) ''resolved'' s = (r, s1)" by (metis surj_pair)
  obtain ok2 effs2 s2 where l: "resolve_loop st dedup cas s1 = (ok2, effs2, s2)" by (metis prod_cases3)
  from Cons.IH [OF l] Cons.prems r l show ?case by (cases r) auto
qed simp

text \<open>Automatic resolution succeeds only when every alert of the group still has an open row, and
  no fingerprint occurs twice. So a group with an alert that was resolved meanwhile fails, and a
  group whose resolution failed half way can never succeed in a retry: the alerts resolved by the
  first attempt make every later attempt fail, until the ladder ends in an investigation of
  alerts that triage itself has resolved.\<close>

theorem auto_resolve_needs_all_open:
  assumes "handleAutoResolve w (pg_store evt bad clock ids) msg (db, t) = (ok, effs, s')"
    and "alert_wf db" "tw_store w"
    and "\<exists>ca \<in> set (tr_alerts msg). \<not> tab_opens (db_alerts db) (ca_Fingerprint ca)"
  shows "\<not> ok \<and> (\<forall>n. TComplete n \<notin> set effs)"
proof -
  obtain ok1 effs1 s1 where l: "resolve_loop (pg_store evt bad clock ids) (tw_dedup w) (tr_alerts msg) (db, t) = (ok1, effs1, s1)"
    by (metis prod_cases3)
  have "\<not> ok1"
    using resolve_loop_all_open [of evt bad clock ids "tw_dedup w" "tr_alerts msg" "(db, t)" effs1 s1] l assms(2,4)
    by (auto simp: pg_inv_def pg_opens_def)
  moreover have "TComplete n \<notin> set effs1" for n using resolve_loop_no_complete [OF l] .
  ultimately show ?thesis using assms(1,3) l by (auto simp: handleAutoResolve_def)
qed

theorem auto_resolve_needs_all_open_witness:
  "\<not> fst (handleAutoResolve (demo_triage True) (triage_pg (resolved_event 5 None)) (demo_group [''f1'', ''f2'']) (example_db, 0))"
proof -
  obtain ok effs s' where h: "handleAutoResolve (demo_triage True) (triage_pg (resolved_event 5 None))
      (demo_group [''f1'', ''f2'']) (example_db, 0) = (ok, effs, s')" using prod_cases3 by blast
  have "\<not> tab_opens (db_alerts example_db) ''f2''"
    by (simp add: tab_opens_def example_db_def example_row_fields)
  then have "\<exists>ca \<in> set (tr_alerts (demo_group [''f1'', ''f2''])). \<not> tab_opens (db_alerts example_db) (ca_Fingerprint ca)"
    by (simp add: demo_group_def demo_correlated_def)
  moreover have "tw_store (demo_triage True)" by (simp add: demo_triage_def)
  ultimately have "\<not> ok" using auto_resolve_needs_all_open [OF h example_db_wf] by blast
  then show ?thesis unfolding h by simp
qed

lemma investigate_reports:
  assumes "execute w st msg i resp s = (True, effs, s')" "rs_decision resp \<notin> {''auto_resolve'', ''suppress''}"
  shows "TInvestigate (investigate_message msg i resp) \<in> set effs"
  using assms by (auto simp: execute_def handleInvestigate_def split: if_splits)

lemma retry_outcomes:
  assumes "handleTriageRetry w msg = (v, effs)" "tw_publisher w" "tw_pub_ok w" "tw_retry_ok w" "0 \<le> tr_retry msg"
  shows "v = TRetry (msg\<lparr>tr_retry := tr_retry msg + 1\<rparr>) \<and> tr_retry msg < 4 \<or>
    v = TNackDrop \<and> 4 \<le> tr_retry msg \<and> TInvestigate (base_message msg) \<in> set effs"
  using assms by (auto simp: handleTriageRetry_def Let_def publishRetry_def MaxTriageRetries_def split: if_splits)

text \<open>C36. While the queues accept messages, no group of alerts is dropped: it is acknowledged only when it
  is cancelled or its decision has been carried out in full (an investigation published, or every
  alert resolved or silenced), otherwise it is retried with the next count, or, after the fourth
  retry, an investigation of the group is published.\<close>

theorem triage_never_drops:
  assumes "HandleTriage w (pg_store (Some ev) bad clock ids) msg (db, t) = (v, effs, s')"
    and "alert_wf db" "tw_store w" "tw_publisher w" "tw_pub_ok w" "tw_retry_ok w" "0 \<le> tr_retry msg"
    and "\<forall>fp n. \<not> tw_cancelled w fp n"
  shows "(v = TAck \<and> (\<exists>m. TInvestigate m \<in> set effs \<and> im_alerts m = tr_alerts msg)) \<or>
    (v = TAck \<and> (\<forall>ca \<in> set (tr_alerts msg).
       TResolved (ca_Fingerprint ca) \<in> set effs \<or> TSilenced (ca_Fingerprint ca) \<in> set effs)) \<or>
    (v = TRetry (msg\<lparr>tr_retry := tr_retry msg + 1\<rparr>) \<and> tr_retry msg < 4) \<or>
    (v = TNackDrop \<and> 4 \<le> tr_retry msg \<and> TInvestigate (base_message msg) \<in> set effs)"
proof -
  obtain p n where pn: "(case tr_alerts msg of [] \<Rightarrow> ([], 0) | ca # _ \<Rightarrow> (ca_Fingerprint ca, ca_AlertNumber ca)) = (p, n)"
    by force
  obtain vr er where rt: "handleTriageRetry w msg = (vr, er)" by force
  note ro = retry_outcomes [OF rt assms(4-7)]
  note h = assms(1) [unfolded HandleTriage_def pn Let_def prod.case]
  have live: "tw_cancelled w p n = False" using assms(8) by blast
  show ?thesis
  proof (cases "ProcessTriage (tw_engine w) msg")
    case None
    with live h rt have "v = vr" "effs = er" by simp_all
    with ro show ?thesis by blast
  next
    case (Some res)
    obtain r i resp where res: "res = (r, i, resp)" by (cases res) auto
    obtain ok effs1 s1 where x: "execute w (pg_store (Some ev) bad clock ids) msg i resp (db, t) = (ok, effs1, s1)"
      by (metis prod_cases3)
    have e: "(case (ok, effs1, s1) of (True, effs, s1) \<Rightarrow> (TAck, effs, s1)
        | (False, effs, s1) \<Rightarrow> (vr, effs @ er, s1)) = (v, effs, s')"
      using h by (simp only: live Some res x rt if_False option.case prod.case refl assms(4) not_True_eq_False simp_thms)
    show ?thesis
    proof (cases ok)
      case False
      with e have "v = vr" "effs = effs1 @ er" by simp_all
      with ro show ?thesis by auto
    next
      case True
      with e have v: "v = TAck" "effs = effs1" by simp_all
      show ?thesis
      proof (cases "rs_decision resp \<in> {''auto_resolve'', ''suppress''}")
        case dec: True
        have "pg_inv (db, t)" using assms(2) by (simp add: pg_inv_def)
        from pg.execute_closes [OF x this] True assms(3) dec
        have "\<forall>ca \<in> set (tr_alerts msg). pg.reports effs (ca_Fingerprint ca)" unfolding v(2) by blast
        with v show ?thesis unfolding pg.reports_def by blast
      next
        case False
        have "im_alerts (investigate_message msg i resp) = tr_alerts msg"
          by (simp add: investigate_message_def base_message_def)
        with investigate_reports [OF x [unfolded True_implies_equals, simplified True] False] v show ?thesis by blast
      qed
    qed
  qed
qed

theorem triage_never_drops_witness:
  "\<exists>effs s'. HandleTriage (demo_triage True) (triage_pg (resolved_event 5 None)) (demo_group [''f1'']) (example_db, 0)
      = (TAck, effs, s') \<and>
    ((\<exists>m. TInvestigate m \<in> set effs \<and> im_alerts m = tr_alerts (demo_group [''f1''])) \<or>
     list_all (\<lambda>ca. TResolved (ca_Fingerprint ca) \<in> set effs \<or> TSilenced (ca_Fingerprint ca) \<in> set effs)
       (tr_alerts (demo_group [''f1''])))"
proof -
  obtain effs db' t' where r: "handleAutoResolve (demo_triage True) (triage_pg (resolved_event 5 None))
      (demo_group [''f1'']) (example_db, 0) = (True, effs, (db', t'))" "TResolved ''f1'' \<in> set effs"
    using demo_resolves by blast
  then have h: "HandleTriage (demo_triage True) (triage_pg (resolved_event 5 None)) (demo_group [''f1'']) (example_db, 0)
      = (TAck, effs, (db', t'))" by (simp add: demo_handle)
  have w: "tw_store (demo_triage True)" "tw_publisher (demo_triage True)" "tw_pub_ok (demo_triage True)"
    "tw_retry_ok (demo_triage True)" "0 \<le> tr_retry (demo_group [''f1''])"
    "\<forall>fp n. \<not> tw_cancelled (demo_triage True) fp n"
    by (simp_all add: demo_triage_def demo_group_def)
  from triage_never_drops [OF h example_db_wf w] h show ?thesis
    unfolding list_all_iff by blast
qed

end
