(* ===== verification/Correlation.thy ===== *)
theory Correlation
  imports Triage "HOL-Library.Char_ord" "HOL-Library.List_Lexorder"
begin

text \<open>
  Correlation of alerts into investigations: keys and rules (\<^verbatim>\<open>correlator/key.go\<close>,
  \<^verbatim>\<open>correlator/rules.go\<close>), severity of a group (\<^verbatim>\<open>rabbitmq/severity.go\<close>), buffering, flushing and the
  cooldown (\<^verbatim>\<open>correlator/correlator.go\<close>). The Valkey keys carry their expiry, so every access takes
  the time. SHA-256 is a parameter; what stores and queues answer at a call is a \<open>corr_env\<close>.
  Investigation ids are texts.
\<close>

subsection \<open>Keys and rules\<close>

definition canonicalKeys :: "string list" where
  "canonicalKeys = [''deployment'', ''statefulset'', ''daemonset'', ''job'']"

definition put_if :: "string \<Rightarrow> string \<Rightarrow> strmap \<Rightarrow> strmap" where
  "put_if k v m = (if v = [] then m else mput k v m)"

definition label_text :: "strmap \<Rightarrow> string" where
  "label_text labels = concat (map (\<lambda>k. k @ ''='' @ mget labels k @ '','') (sort (map fst labels)))"

text \<open>\<open>sha\<close>: the hexadecimal SHA-256 digest of a text.\<close>

definition CorrelationKey :: "(string \<Rightarrow> string) \<Rightarrow> strmap \<Rightarrow> string \<times> strmap" where
  "CorrelationKey sha labels =
     (let alertname = go_trim_space (mget labels ''alertname'');
          ns = go_trim_space (mget labels ''namespace'');
          disc = put_if ''alertname'' alertname (put_if ''namespace'' ns []);
          part = (\<lambda>v. if v = [] then [] else [v])
      in case List.find (\<lambda>k. go_trim_space (mget labels k) \<noteq> []) canonicalKeys of
           Some k \<Rightarrow>
             (let v = go_trim_space (mget labels k)
              in (go_join '':'' (part ns @ [v, alertname]), mput k v disc))
         | None \<Rightarrow>
             if ns \<noteq> [] \<or> alertname \<noteq> [] then (go_join '':'' (part ns @ part alertname), disc)
             else (''unkeyed:'' @ take 16 (sha (label_text labels)), disc))"

record correlation_rule =
  cu_strategy :: string
  cu_group :: "string list"
  cu_window :: int \<comment> \<open>seconds\<close>

record suppression_rule =
  su_name :: string
  su_namespace :: string
  su_labels :: strmap

text \<open>Absent labels are a nil map.\<close>

definition IsSuppressed :: "strmap option \<Rightarrow> suppression_rule list \<Rightarrow> bool" where
  "IsSuppressed labs rules =
     (case labs of
        None \<Rightarrow> False
      | Some labels \<Rightarrow>
          list_ex (\<lambda>r. (su_name r = [] \<or> su_name r = mget labels ''alertname'') \<and>
                       (su_namespace r = [] \<or> su_namespace r = mget labels ''namespace'') \<and>
                       list_all (\<lambda>(k, v). mget labels k = v) (su_labels r)) rules)"

definition discriminatorsFromLabels :: "strmap \<Rightarrow> strmap" where
  "discriminatorsFromLabels labels =
     put_if ''alertname'' (mget labels ''alertname'') (put_if ''namespace'' (mget labels ''namespace'') [])"

definition uniqueSuffix :: "(string \<Rightarrow> string) \<Rightarrow> strmap \<Rightarrow> string" where
  "uniqueSuffix sha labels =
     (let k = fst (CorrelationKey sha labels) in if length k \<ge> 16 then take 16 k else k)"

definition CorrelationKeyWithRules ::
    "(string \<Rightarrow> string) \<Rightarrow> strmap \<Rightarrow> correlation_rule option \<Rightarrow> string \<times> strmap" where
  "CorrelationKeyWithRules sha labels rule =
     (case rule of
        None \<Rightarrow> CorrelationKey sha labels
      | Some r \<Rightarrow>
          if cu_strategy r = ''solo'' then
            (let name = mget labels ''alertname''
             in (''solo:'' @ (if name = [] then ''unknown'' else name) @ '':'' @ uniqueSuffix sha labels,
                 discriminatorsFromLabels labels))
          else if cu_strategy r = ''namespace'' then
            (let ns = (if mget labels ''namespace'' = [] then ''_default'' else mget labels ''namespace'')
             in (''ns:'' @ ns, [(''namespace'', ns)]))
          else if cu_strategy r = ''label_match'' then
            (''lbl:'' @ go_join '':'' (map (\<lambda>k. if mget labels k = [] then ''_'' else mget labels k) (cu_group r)),
             discriminatorsFromLabels labels)
          else CorrelationKey sha labels)"

text \<open>The severity of a group: the first alert whose severity is critical, page or high decides,
  otherwise the first severity label.\<close>

fun urgent_severity :: "correlated_alert list \<Rightarrow> string option" where
  "urgent_severity [] = None"
| "urgent_severity (a # as) =
     (case map_of (ca_Labels a) ''severity'' of
        Some sev \<Rightarrow>
          if sev = ''critical'' \<or> sev = ''page'' then Some ''critical''
          else if sev = ''high'' then Some ''high''
          else urgent_severity as
      | None \<Rightarrow> urgent_severity as)"

fun first_severity :: "correlated_alert list \<Rightarrow> string option" where
  "first_severity [] = None"
| "first_severity (a # as) =
     (case map_of (ca_Labels a) ''severity'' of Some sev \<Rightarrow> Some sev | None \<Rightarrow> first_severity as)"

definition DetermineAlertSeverity :: "correlated_alert list \<Rightarrow> string" where
  "DetermineAlertSeverity alerts =
     (case urgent_severity alerts of
        Some s \<Rightarrow> s
      | None \<Rightarrow> (case first_severity alerts of Some s \<Rightarrow> s | None \<Rightarrow> ''warning''))"

subsection \<open>State\<close>

text \<open>Lists of buffered alerts (\<open>None\<close>: an undecodable item), cooldowns, flush locks, each with the time
  at which the key expires.\<close>

type_synonym 'a expiring = "string \<rightharpoonup> ('a \<times> instant)"

record corr_kv =
  ck_lists :: "correlated_alert option list expiring"
  ck_cool :: "string expiring"
  ck_locks :: "unit expiring"

definition live :: "instant \<Rightarrow> 'a expiring \<Rightarrow> string \<Rightarrow> 'a option" where
  "live now m k = (case m k of Some (v, e) \<Rightarrow> if now < e then Some v else None | None \<Rightarrow> None)"

record inv_info =
  ii_status :: string

record corr_config =
  cf_window :: int
  cf_cooldown :: int
  cf_rules :: "(string \<times> correlation_rule) list"
  cf_suppress :: "suppression_rule list"
  cf_triage :: bool
  cf_sha :: "string \<Rightarrow> string"

text \<open>Answers of the outside during one call: Valkey reads and writes, the investigation store (if
  any), the queues, and the fresh investigation id.\<close>

record corr_env =
  ce_get_ok :: bool
  ce_set_ok :: bool
  ce_push_ok :: bool
  ce_lock_ok :: bool
  ce_peek_ok :: bool
  ce_pop_ok :: bool
  ce_del_ok :: bool
  ce_store :: bool
  ce_inv :: "string \<Rightarrow> inv_info option option" \<comment> \<open>outer none: error\<close>
  ce_append_ok :: bool
  ce_active :: "string \<Rightarrow> string option option"
  ce_pub_ok :: bool
  ce_incidents :: bool
  ce_incident_ok :: bool
  ce_new_id :: string
  ce_dedupe :: string

datatype corr_effect =
    CMerge string "correlated_alert list"
  | CTriage triage_msg
  | CInvestigate string string "correlated_alert list" string \<comment> \<open>id, key, alerts, severity\<close>
  | CIncident string "correlated_alert list" string
  | CDropped correlated_alert

definition IsTerminalInvestigationStatus :: "string \<Rightarrow> bool" where
  "IsTerminalInvestigationStatus s \<longleftrightarrow>
     s \<in> {''complete'', ''failed'', ''cancelled'', ''timed_out'', ''promoted''}"

subsection \<open>Cooldown\<close>

text \<open>None: the lookup failed; a hit has a non-empty id.\<close>

definition checkCooldown :: "corr_env \<Rightarrow> instant \<Rightarrow> string \<Rightarrow> corr_kv \<Rightarrow> string option option" where
  "checkCooldown env now key kv =
     (if \<not> ce_get_ok env then None
      else case live now (ck_cool kv) key of
             None \<Rightarrow> Some None
           | Some i \<Rightarrow> Some (if i = [] then None else Some i))"

text \<open>\<^verbatim>\<open>delCooldownKey\<close> on a cooldown; a failure is only logged.\<close>

definition delCooldown :: "corr_env \<Rightarrow> string \<Rightarrow> corr_kv \<Rightarrow> corr_kv" where
  "delCooldown env key kv = (if ce_del_ok env then kv\<lparr>ck_cool := (ck_cool kv)(key := None)\<rparr> else kv)"

definition setCooldown :: "corr_env \<Rightarrow> corr_config \<Rightarrow> instant \<Rightarrow> string \<Rightarrow> string \<Rightarrow> corr_kv \<Rightarrow> corr_kv" where
  "setCooldown env cfg now key i kv =
     (let ttl = (if cf_cooldown cfg \<le> 0 then 30 * go_minute else cf_cooldown cfg) div go_second;
          ttl = (if ttl \<le> 0 then 1800 else ttl)
      in if ce_set_ok env then kv\<lparr>ck_cool := (ck_cool kv)(key \<mapsto> (i, now + ttl * go_second))\<rparr> else kv)"

datatype append_result = Appended | AppendStale | AppendError | AppendDropped

definition appendToInvestigation ::
    "corr_env \<Rightarrow> string \<Rightarrow> string \<Rightarrow> correlated_alert \<Rightarrow> corr_kv \<Rightarrow> append_result \<times> corr_effect list \<times> corr_kv" where
  "appendToInvestigation env key i alert kv =
     (if \<not> ce_store env then (AppendDropped, [CDropped alert], kv)
      else case ce_inv env i of
             None \<Rightarrow> (AppendError, [], kv)
           | Some None \<Rightarrow> (AppendStale, [], delCooldown env key kv)
           | Some (Some info) \<Rightarrow>
               if IsTerminalInvestigationStatus (ii_status info) then (AppendStale, [], delCooldown env key kv)
               else if \<not> ce_append_ok env then (AppendError, [], kv)
               else (Appended, [CMerge i [alert]], kv))"

subsection \<open>Flush\<close>

text \<open>Publication of a new investigation.\<close>

definition publish_new ::
    "corr_env \<Rightarrow> corr_config \<Rightarrow> instant \<Rightarrow> string \<Rightarrow> correlated_alert list \<Rightarrow> corr_kv
     \<Rightarrow> bool \<times> corr_effect list \<times> corr_kv" where
  "publish_new env cfg now key alerts kv =
     (let severity = DetermineAlertSeverity alerts; i = ce_new_id env
      in if \<not> ce_pub_ok env then (False, [], kv)
         else if cf_triage cfg then
           (True, [CTriage \<lparr>tr_key = key, tr_alerts = alerts, tr_severity = severity, tr_retry = 0,
                            tr_trace = key, tr_dedupe = ce_dedupe env, tr_investigation = i\<rparr>],
            setCooldown env cfg now key i kv)
         else
           (True, [CInvestigate i key alerts severity] @
                  (if ce_incidents env \<and> severity = ''critical'' \<and> ce_incident_ok env
                   then [CIncident key alerts severity] else []),
            setCooldown env cfg now key i kv))"

text \<open>The last gate before a new investigation: an active one with the same key.\<close>

definition merge_or_publish ::
    "corr_env \<Rightarrow> corr_config \<Rightarrow> instant \<Rightarrow> string \<Rightarrow> correlated_alert list \<Rightarrow> corr_kv
     \<Rightarrow> bool \<times> corr_effect list \<times> corr_kv" where
  "merge_or_publish env cfg now key alerts kv =
     (if \<not> ce_store env then (False, [], kv)
      else case ce_active env key of
             Some (Some i) \<Rightarrow>
               if ce_append_ok env then (True, [CMerge i alerts], setCooldown env cfg now key i kv)
               else publish_new env cfg now key alerts kv
           | _ \<Rightarrow> publish_new env cfg now key alerts kv)"

definition flushInvestigation ::
    "corr_env \<Rightarrow> corr_config \<Rightarrow> instant \<Rightarrow> string \<Rightarrow> correlated_alert list \<Rightarrow> corr_kv
     \<Rightarrow> bool \<times> corr_effect list \<times> corr_kv" where
  "flushInvestigation env cfg now key alerts kv =
     (case checkCooldown env now key kv of
        Some (Some i) \<Rightarrow>
          if \<not> ce_store env then merge_or_publish env cfg now key alerts kv
          else
            (case ce_inv env i of
               None \<Rightarrow> merge_or_publish env cfg now key alerts kv
             | Some None \<Rightarrow> merge_or_publish env cfg now key alerts (delCooldown env key kv)
             | Some (Some info) \<Rightarrow>
                 if IsTerminalInvestigationStatus (ii_status info)
                 then merge_or_publish env cfg now key alerts (delCooldown env key kv)
                 else (True, if ce_append_ok env then [CMerge i alerts] else [], kv))
      | _ \<Rightarrow> merge_or_publish env cfg now key alerts kv)"

text \<open>\<^verbatim>\<open>flushKey\<close> in two steps: lock and peek, then flush, pop and unlock. Between them other replicas may
  append. The script \<^verbatim>\<open>popScript\<close> removes the given number of items from whatever list is there; its nil
  reply for a missing list is an error of the client library.\<close>

datatype flush_start = FlushError | FlushSkip | FlushItems "correlated_alert option list"

definition unlock :: "corr_env \<Rightarrow> string \<Rightarrow> corr_kv \<Rightarrow> corr_kv" where
  "unlock env key kv = (if ce_del_ok env then kv\<lparr>ck_locks := (ck_locks kv)(key := None)\<rparr> else kv)"

definition flush_begin :: "corr_env \<Rightarrow> instant \<Rightarrow> string \<Rightarrow> corr_kv \<Rightarrow> flush_start \<times> corr_kv" where
  "flush_begin env now key kv =
     (if \<not> ce_lock_ok env then (FlushError, kv)
      else if live now (ck_locks kv) key \<noteq> None then (FlushSkip, kv)
      else
        let kv1 = kv\<lparr>ck_locks := (ck_locks kv)(key \<mapsto> ((), now + 60 * go_second))\<rparr>
        in if \<not> ce_peek_ok env then (FlushError, unlock env key kv1)
           else case live now (ck_lists kv1) key of
                  None \<Rightarrow> (FlushSkip, unlock env key kv1)
                | Some items \<Rightarrow> (FlushItems items, kv1))"

definition popPending :: "corr_env \<Rightarrow> instant \<Rightarrow> string \<Rightarrow> nat \<Rightarrow> corr_kv \<Rightarrow> bool \<times> corr_kv" where
  "popPending env now key n kv =
     (if \<not> ce_pop_ok env then (False, kv)
      else case ck_lists kv key of
             None \<Rightarrow> (False, kv)
           | Some (items, e) \<Rightarrow>
               if e \<le> now then (False, kv)
               else if drop n items = [] then (True, kv\<lparr>ck_lists := (ck_lists kv)(key := None)\<rparr>)
               else (True, kv\<lparr>ck_lists := (ck_lists kv)(key \<mapsto> (drop n items, e))\<rparr>))"

definition flush_commit ::
    "corr_env \<Rightarrow> corr_config \<Rightarrow> instant \<Rightarrow> string \<Rightarrow> correlated_alert option list \<Rightarrow> corr_kv
     \<Rightarrow> bool \<times> corr_effect list \<times> corr_kv" where
  "flush_commit env cfg now key items kv =
     (let alerts = List.map_filter (\<lambda>x. x) items
      in if alerts = [] then
           (let (ok, kv1) = popPending env now key (length items) kv in (ok, [], unlock env key kv1))
         else
           (case flushInvestigation env cfg now key alerts kv of
              (False, effs, kv1) \<Rightarrow> (False, effs, unlock env key kv1)
            | (True, effs, kv1) \<Rightarrow>
                let (ok, kv2) = popPending env now key (length items) kv1 in (ok, effs, unlock env key kv2)))"

definition flushKey ::
    "corr_env \<Rightarrow> corr_config \<Rightarrow> instant \<Rightarrow> string \<Rightarrow> corr_kv \<Rightarrow> bool \<times> corr_effect list \<times> corr_kv" where
  "flushKey env cfg now key kv =
     (case flush_begin env now key kv of
        (FlushError, kv1) \<Rightarrow> (False, [], kv1)
      | (FlushSkip, kv1) \<Rightarrow> (True, [], kv1)
      | (FlushItems items, kv1) \<Rightarrow> flush_commit env cfg now key items kv1)"

text \<open>\<^verbatim>\<open>Flush\<close> over the keys the scan returns (none: the scan failed); errors of a key are logged.\<close>

fun Flush ::
    "corr_config \<Rightarrow> (corr_env \<times> instant \<times> string) list \<Rightarrow> corr_kv \<Rightarrow> corr_effect list \<times> corr_kv" where
  "Flush cfg [] kv = ([], kv)"
| "Flush cfg ((env, now, key) # ks) kv =
     (let (ok, effs, kv1) = flushKey env cfg now key kv;
          (effs', kv2) = Flush cfg ks kv1
      in (effs @ effs', kv2))"

subsection \<open>Arrival of an alert\<close>

definition effectiveWindow :: "corr_config \<Rightarrow> correlation_rule option \<Rightarrow> int" where
  "effectiveWindow cfg rule =
     (case rule of
        Some r \<Rightarrow> if cu_window r > 0 then wrap64 (cu_window r * go_second) else cf_window cfg
      | None \<Rightarrow> cf_window cfg)"

text \<open>\<^verbatim>\<open>appendScript\<close>: the expiry is set for the first element only. The third component is the timer to
  start (time, when the window opened).\<close>

definition bufferAlert ::
    "corr_env \<Rightarrow> instant \<Rightarrow> string \<Rightarrow> correlated_alert \<Rightarrow> int \<Rightarrow> corr_kv
     \<Rightarrow> bool \<times> instant option \<times> corr_kv" where
  "bufferAlert env now key alert window kv =
     (let winSecs = (if window div go_second \<le> 0 then 1 else window div go_second)
      in if \<not> ce_push_ok env then (False, None, kv)
         else case ck_lists kv key of
                Some (items, e) \<Rightarrow>
                  if now < e
                  then (True, None, kv\<lparr>ck_lists := (ck_lists kv)(key \<mapsto> (items @ [Some alert], e))\<rparr>)
                  else (True, Some (now + window),
                        kv\<lparr>ck_lists := (ck_lists kv)(key \<mapsto> ([Some alert], now + winSecs * go_second))\<rparr>)
              | None \<Rightarrow>
                  (True, Some (now + window),
                   kv\<lparr>ck_lists := (ck_lists kv)(key \<mapsto> ([Some alert], now + winSecs * go_second))\<rparr>))"

definition ruleFor :: "corr_config \<Rightarrow> string \<Rightarrow> correlation_rule option" where
  "ruleFor cfg name = map_of (cf_rules cfg) name"

definition alert_key :: "corr_config \<Rightarrow> correlated_alert \<Rightarrow> string" where
  "alert_key cfg alert =
     fst (CorrelationKeyWithRules (cf_sha cfg) (ca_Labels alert) (ruleFor cfg (mget (ca_Labels alert) ''alertname'')))"

definition ProcessAlert ::
    "corr_env \<Rightarrow> corr_config \<Rightarrow> instant \<Rightarrow> correlated_alert \<Rightarrow> corr_kv
     \<Rightarrow> bool \<times> corr_effect list \<times> instant option \<times> corr_kv" where
  "ProcessAlert env cfg now alert kv =
     (if IsSuppressed (Some (ca_Labels alert)) (cf_suppress cfg) then (True, [], None, kv)
      else
        let rule = ruleFor cfg (mget (ca_Labels alert) ''alertname'');
            key = alert_key cfg alert;
            window = effectiveWindow cfg rule;
            fresh = (\<lambda>kv. if window \<le> 0
                          then (let (ok, effs, kv1) = flushInvestigation env cfg now key [alert] kv
                                in (ok, effs, None, kv1))
                          else (let (ok, timer, kv1) = bufferAlert env now key alert window kv
                                in (ok, [], timer, kv1)))
        in case checkCooldown env now key kv of
             None \<Rightarrow> (False, [], None, kv)
           | Some None \<Rightarrow> fresh kv
           | Some (Some i) \<Rightarrow>
               (case appendToInvestigation env key i alert kv of
                  (AppendStale, effs, kv1) \<Rightarrow> fresh kv1
                | (AppendError, effs, kv1) \<Rightarrow> (False, effs, None, kv1)
                | (_, effs, kv1) \<Rightarrow> (True, effs, None, kv1)))"

text \<open>\<^verbatim>\<open>scheduleFlush\<close> and the timers of one replica: at most one per key, started at the opening of a
  window; when it fires it is forgotten and the key is flushed (unless the replica has stopped).\<close>

type_synonym timers = "string \<rightharpoonup> instant"

definition scheduleFlush :: "string \<Rightarrow> instant \<Rightarrow> timers \<Rightarrow> timers" where
  "scheduleFlush key due ts = (case ts key of Some _ \<Rightarrow> ts | None \<Rightarrow> ts(key \<mapsto> due))"

definition fire_timer ::
    "corr_env \<Rightarrow> corr_config \<Rightarrow> bool \<Rightarrow> instant \<Rightarrow> string \<Rightarrow> timers \<times> corr_kv \<Rightarrow> corr_effect list \<times> timers \<times> corr_kv" where
  "fire_timer env cfg stopped now key s =
     (let (ts, kv) = s
      in if stopped then ([], ts(key := None), kv)
         else let (ok, effs, kv1) = flushKey env cfg now key kv in (effs, ts(key := None), kv1))"

text \<open>An alert arriving at a replica, with the timer it may start, and the shutdown of a replica: its
  timers are cancelled and the keys the scan returns are flushed.\<close>

definition arrive ::
    "corr_env \<Rightarrow> corr_config \<Rightarrow> instant \<Rightarrow> correlated_alert \<Rightarrow> timers \<times> corr_kv
     \<Rightarrow> bool \<times> corr_effect list \<times> timers \<times> corr_kv" where
  "arrive env cfg now alert s =
     (let (ts, kv) = s; (ok, effs, timer, kv1) = ProcessAlert env cfg now alert kv
      in (ok, effs,
          (case timer of None \<Rightarrow> ts | Some due \<Rightarrow> scheduleFlush (alert_key cfg alert) due ts), kv1))"

definition Stop ::
    "corr_config \<Rightarrow> (corr_env \<times> instant \<times> string) list \<Rightarrow> timers \<times> corr_kv
     \<Rightarrow> corr_effect list \<times> timers \<times> corr_kv" where
  "Stop cfg found s =
     (let (ts, kv) = s; (effs, kv1) = Flush cfg found kv in (effs, Map.empty, kv1))"

definition RemoveCooldown :: "corr_env \<Rightarrow> corr_config \<Rightarrow> strmap \<Rightarrow> corr_kv \<Rightarrow> corr_kv" where
  "RemoveCooldown env cfg labels kv =
     (let keys = (case ruleFor cfg (mget labels ''alertname'') of
                    Some r \<Rightarrow> [fst (CorrelationKeyWithRules (cf_sha cfg) labels (Some r))]
                  | None \<Rightarrow> []) @ [fst (CorrelationKey (cf_sha cfg) labels)];
          gone = (\<lambda>k. ce_del_ok env \<and> k \<noteq> [] \<and> k \<in> set keys)
      in \<lparr>ck_lists = (\<lambda>k. if gone k then None else ck_lists kv k),
          ck_cool = (\<lambda>k. if gone k then None else ck_cool kv k),
          ck_locks = (\<lambda>k. if gone k then None else ck_locks kv k)\<rparr>)"

end
