(* ===== verification/Correlation_Correct.thy ===== *)
theory Correlation_Correct
  imports Correlation
begin

text \<open>
  What correlation promises: a flush delivers exactly the batch it peeked while other replicas keep
  buffering and flushing; alerts in the cooldown join the running investigation; the key of a group can
  be read back; and a window of at least a second expires before its own timer.
\<close>

subsection \<open>Interleaved flushes\<close>

text \<open>The alerts of a list of effects that reached an investigation or a queue for one.\<close>

fun delivered :: "corr_effect list \<Rightarrow> correlated_alert list" where
  "delivered [] = []"
| "delivered (CMerge i as # es) = as @ delivered es"
| "delivered (CTriage m # es) = tr_alerts m @ delivered es"
| "delivered (CInvestigate i k as s # es) = as @ delivered es"
| "delivered (CIncident k as s # es) = delivered es"
| "delivered (CDropped a # es) = delivered es"

text \<open>What other replicas may do to a key during a flush.\<close>

datatype other_op =
    Buffer corr_env instant correlated_alert int
  | OtherFlush corr_env corr_config instant

fun op_time :: "other_op \<Rightarrow> instant" where
  "op_time (Buffer env t a w) = t"
| "op_time (OtherFlush env cfg t) = t"

fun other_step :: "string \<Rightarrow> other_op \<Rightarrow> corr_kv \<Rightarrow> corr_effect list \<times> corr_kv" where
  "other_step key (Buffer env t a w) kv = ([], snd (snd (bufferAlert env t key a w kv)))"
| "other_step key (OtherFlush env cfg t) kv = snd (flushKey env cfg t key kv)"

fun other_steps :: "string \<Rightarrow> other_op list \<Rightarrow> corr_kv \<Rightarrow> corr_effect list \<times> corr_kv" where
  "other_steps key [] kv = ([], kv)"
| "other_steps key (x # xs) kv =
     (let (es, kv1) = other_step key x kv; (es', kv2) = other_steps key xs kv1 in (es @ es', kv2))"

text \<open>The alerts they buffered.\<close>

fun buffered :: "other_op list \<Rightarrow> correlated_alert list" where
  "buffered [] = []"
| "buffered (Buffer env t a w # xs) = (if ce_push_ok env then a # buffered xs else buffered xs)"
| "buffered (OtherFlush env cfg t # xs) = buffered xs"

lemma flushKey_locked:
  assumes "ck_locks kv key = Some (u, lk)" "t < lk"
  shows "snd (flushKey env cfg t key kv) = ([], kv)"
  using assms by (cases "ce_lock_ok env") (simp_all add: flushKey_def flush_begin_def live_def)

lemma buffer_live:
  assumes "ck_lists kv key = Some (items, e)" "t < e"
  shows "snd (snd (bufferAlert env t key a w kv)) =
         (if ce_push_ok env then kv\<lparr>ck_lists := (ck_lists kv)(key \<mapsto> (items @ [Some a], e))\<rparr> else kv)"
  using assms by (simp add: bufferAlert_def Let_def)

lemma other_steps_locked:
  assumes "ck_locks kv key = Some (u, lk)" "ck_lists kv key = Some (items, e)"
    "list_all (\<lambda>x. op_time x < lk \<and> op_time x < e) ops"
  shows "\<exists>kv'. other_steps key ops kv = ([], kv') \<and> ck_locks kv' key = Some (u, lk) \<and>
               ck_lists kv' key = Some (items @ map Some (buffered ops), e)"
  using assms
proof (induction ops arbitrary: kv items)
  case Nil
  then show ?case by simp
next
  case (Cons x xs)
  show ?case
  proof (cases x)
    case (OtherFlush env cfg t)
    with Cons.prems have t: "t < lk" by simp
    have s: "other_step key x kv = ([], kv)"
      using flushKey_locked [OF Cons.prems(1) t] by (simp add: OtherFlush)
    from Cons.prems(3) have "list_all (\<lambda>x. op_time x < lk \<and> op_time x < e) xs" by simp
    from Cons.IH [OF Cons.prems(1,2) this] s show ?thesis by (auto simp: OtherFlush)
  next
    case (Buffer env t a w)
    with Cons.prems have t: "t < e" by simp
    define kv1 where "kv1 = snd (snd (bufferAlert env t key a w kv))"
    have s: "other_step key x kv = ([], kv1)" by (simp add: Buffer kv1_def)
    have l: "ck_locks kv1 key = Some (u, lk)"
      using Cons.prems(1) by (simp add: kv1_def buffer_live [OF Cons.prems(2) t])
    have i: "ck_lists kv1 key = Some (items @ (if ce_push_ok env then [Some a] else []), e)"
      using Cons.prems(2) by (simp add: kv1_def buffer_live [OF Cons.prems(2) t])
    from Cons.prems(3) have "list_all (\<lambda>x. op_time x < lk \<and> op_time x < e) xs" by simp
    from Cons.IH [OF l i this] s show ?thesis by (auto simp: Buffer)
  qed
qed

lemma ck_lists_setCooldown [simp]: "ck_lists (setCooldown env cfg now key i kv) = ck_lists kv"
  by (simp add: setCooldown_def Let_def)

lemma ck_lists_delCooldown [simp]: "ck_lists (delCooldown env key kv) = ck_lists kv"
  by (simp add: delCooldown_def)

lemma ck_lists_unlock [simp]: "ck_lists (unlock env key kv) = ck_lists kv"
  by (simp add: unlock_def)

lemma ck_locks_unlock [simp]: "ce_del_ok env \<Longrightarrow> ck_locks (unlock env key kv) key = None"
  by (simp add: unlock_def)

text \<open>A flush of a group leaves the buffers alone; it succeeds iff it delivers the group once, the
  swallowed failure of an append apart.\<close>

definition append_swallowed :: "corr_env \<Rightarrow> instant \<Rightarrow> string \<Rightarrow> corr_kv \<Rightarrow> bool" where
  "append_swallowed env now key kv =
     (ce_store env \<and> \<not> ce_append_ok env \<and>
      (case checkCooldown env now key kv of
         Some (Some i) \<Rightarrow>
           (case ce_inv env i of
              Some (Some info) \<Rightarrow> \<not> IsTerminalInvestigationStatus (ii_status info)
            | _ \<Rightarrow> False)
       | _ \<Rightarrow> False))"

lemma publish_new_cases:
  "case publish_new env cfg now key alerts kv of (ok, effs, kv') \<Rightarrow>
     ck_lists kv' = ck_lists kv \<and> delivered effs = (if ok then alerts else [])"
  by (simp add: publish_new_def Let_def)

lemma merge_or_publish_cases:
  "case merge_or_publish env cfg now key alerts kv of (ok, effs, kv') \<Rightarrow>
     ck_lists kv' = ck_lists kv \<and> delivered effs = (if ok then alerts else [])"
  using publish_new_cases [where env = env and cfg = cfg and now = now and key = key and alerts = alerts and kv = kv]
  by (auto simp: merge_or_publish_def split: option.split prod.splits)

lemma flushInvestigation_cases:
  "case flushInvestigation env cfg now key alerts kv of (ok, effs, kv') \<Rightarrow>
     ck_lists kv' = ck_lists kv \<and>
     delivered effs = (if ok \<and> \<not> append_swallowed env now key kv then alerts else [])"
  using merge_or_publish_cases [where env = env and cfg = cfg and now = now and key = key and alerts = alerts and kv = kv]
    merge_or_publish_cases [where env = env and cfg = cfg and now = now and key = key and alerts = alerts and kv = "delCooldown env key kv"]
  by (auto simp: flushInvestigation_def append_swallowed_def split: option.split prod.splits)


lemma popPending_live:
  assumes "ck_lists kv key = Some (items @ fresh, e)" "now < e" "ce_pop_ok env"
  shows "popPending env now key (length items) kv =
         (True, kv\<lparr>ck_lists := (ck_lists kv)(key := (if fresh = [] then None else Some (fresh, e)))\<rparr>)"
  using assms by (auto simp: popPending_def)

lemma flush_commit_cases:
  assumes "ck_lists kv key = Some (items @ fresh, e)" "now < e" "ce_pop_ok env"
    "flush_commit env cfg now key items kv = (ok, effs, kv')"
  shows "(ce_del_ok env \<longrightarrow> ck_locks kv' key = None) \<and> (List.map_filter (\<lambda>x. x) items = [] \<longrightarrow> ok) \<and>
         (if ok then ck_lists kv' = (ck_lists kv)(key := (if fresh = [] then None else Some (fresh, e)))
          else ck_lists kv' = ck_lists kv) \<and>
         delivered effs =
           (if ok \<and> \<not> append_swallowed env now key kv then List.map_filter (\<lambda>x. x) items else [])"
proof (cases "List.map_filter (\<lambda>x. x) items = []")
  case True
  with assms(4) popPending_live [OF assms(1-3)] show ?thesis
    by (auto simp: flush_commit_def Let_def)
next
  case False
  obtain b es kv1 where f: "flushInvestigation env cfg now key (List.map_filter (\<lambda>x. x) items) kv = (b, es, kv1)"
    by (rule prod_cases3)
  with flushInvestigation_cases [where env = env and cfg = cfg and now = now and key = key
      and alerts = "List.map_filter (\<lambda>x. x) items" and kv = kv]
  have l: "ck_lists kv1 = ck_lists kv"
    and d: "delivered es = (if b \<and> \<not> append_swallowed env now key kv
                            then List.map_filter (\<lambda>x. x) items else [])"
    by auto
  have "ck_lists kv1 key = Some (items @ fresh, e)" using assms(1) l by simp
  note pop = popPending_live [OF this assms(2,3)]
  show ?thesis
  proof (cases b)
    case True
    then have "flush_commit env cfg now key items kv =
        (True, es, unlock env key (kv1\<lparr>ck_lists := (ck_lists kv1)(key := (if fresh = [] then None else Some (fresh, e)))\<rparr>))"
      using False f pop by (simp add: flush_commit_def Let_def)
    with assms(4) True l d False show ?thesis by auto
  next
    case b: False
    then have "flush_commit env cfg now key items kv = (False, es, unlock env key kv1)"
      using False f by (simp add: flush_commit_def Let_def)
    with assms(4) b l d False show ?thesis by auto
  qed
qed



text \<open>A group of two alerts; another replica buffers a third and tries to flush in between.\<close>

definition demo_alert :: "int \<Rightarrow> correlated_alert" where
  "demo_alert n =
     \<lparr>ca_Fingerprint = ''fp'', ca_AlertNumber = n, ca_Labels = [(''alertname'', ''CPU'')],
      ca_Annotations = [], ca_Status = ''firing'', ca_StartsAt = [], ca_Values = [], ca_GeneratorURL = []\<rparr>"

definition demo_env :: corr_env where
  "demo_env =
     \<lparr>ce_get_ok = True, ce_set_ok = True, ce_push_ok = True, ce_lock_ok = True, ce_peek_ok = True,
      ce_pop_ok = True, ce_del_ok = True, ce_store = True, ce_inv = (\<lambda>i. Some (Some \<lparr>ii_status = ''investigating''\<rparr>)),
      ce_append_ok = True, ce_active = (\<lambda>k. Some None), ce_pub_ok = True, ce_incidents = False,
      ce_incident_ok = False, ce_new_id = ''inv-1'', ce_dedupe = ''CPU:1''\<rparr>"

lemma demo_env_simps [simp]:
  "ce_get_ok demo_env" "ce_set_ok demo_env" "ce_push_ok demo_env" "ce_lock_ok demo_env"
  "ce_peek_ok demo_env" "ce_pop_ok demo_env" "ce_del_ok demo_env" "ce_store demo_env" "ce_append_ok demo_env"
  "ce_pub_ok demo_env" "\<not> ce_incidents demo_env" "ce_active demo_env k = Some None"
  "ce_inv demo_env i = Some (Some \<lparr>ii_status = ''investigating''\<rparr>)" "ce_new_id demo_env = ''inv-1''"
  by (simp_all add: demo_env_def)

definition demo_cfg :: corr_config where
  "demo_cfg =
     \<lparr>cf_window = 15 * go_second, cf_cooldown = 60 * go_second, cf_rules = [], cf_suppress = [],
      cf_triage = False, cf_sha = (\<lambda>s. s)\<rparr>"

definition demo_kv :: corr_kv where
  "demo_kv =
     \<lparr>ck_lists = [''CPU'' \<mapsto> ([Some (demo_alert 1), None], 15 * go_second)], ck_cool = Map.empty,
      ck_locks = Map.empty\<rparr>"

definition demo_ops :: "other_op list" where
  "demo_ops = [Buffer demo_env 9 (demo_alert 3) 7, OtherFlush demo_env demo_cfg 10]"


subsection \<open>A window that expires before its timer\<close>

text \<open>Alerts of one key buffered one after the other, with the timers they ask for.\<close>

fun buffer_all ::
    "string \<Rightarrow> int \<Rightarrow> (corr_env \<times> instant \<times> correlated_alert) list \<Rightarrow> corr_kv \<Rightarrow> instant option list \<times> corr_kv" where
  "buffer_all key w [] kv = ([], kv)"
| "buffer_all key w ((env, t, a) # xs) kv =
     (let (ok, timer, kv1) = bufferAlert env t key a w kv; (ts, kv2) = buffer_all key w xs kv1
      in (timer # ts, kv2))"

lemma buffer_all_live:
  assumes "ck_lists kv key = Some (items, e)" "list_all (\<lambda>(env, t, a). ce_push_ok env \<and> t < e) xs"
  shows "fst (buffer_all key w xs kv) = map (\<lambda>_. None) xs \<and>
         ck_lists (snd (buffer_all key w xs kv)) key = Some (items @ map (\<lambda>(env, t, a). Some a) xs, e)"
  using assms
proof (induction xs arbitrary: kv items)
  case Nil
  then show ?case by simp
next
  case (Cons x xs)
  obtain env t a where x: "x = (env, t, a)" by (rule prod_cases3)
  with Cons.prems have t: "ce_push_ok env" "t < e" by simp_all
  define kv1 where "kv1 = kv\<lparr>ck_lists := (ck_lists kv)(key \<mapsto> (items @ [Some a], e))\<rparr>"
  have s: "bufferAlert env t key a w kv = (True, None, kv1)"
    using t Cons.prems(1) by (simp add: bufferAlert_def Let_def kv1_def)
  have "ck_lists kv1 key = Some (items @ [Some a], e)" by (simp add: kv1_def)
  from Cons.IH [OF this] Cons.prems(2) s show ?case by (simp add: x case_prod_beta)
qed

text \<open>With a window of at least a second (the default is fifteen), the list of buffered alerts expires no
  later than the timer that is to flush it fires: of everything buffered in a window, the flush of its own
  timer delivers nothing and changes no key but for its lock. Only a sweep or a shutdown that falls inside
  the window delivers it.\<close>

theorem window_expires_before_timer:
  assumes "go_second \<le> w" and "live t (ck_lists kv) key = None"
    and "ce_push_ok env" and "bufferAlert env t key a w kv = (True, Some due, kv1)"
    and "list_all (\<lambda>(env, t', a). ce_push_ok env \<and> t' < t + w div go_second * go_second) xs"
    and "due \<le> fired"
  shows "let kv2 = snd (buffer_all key w xs kv1) in
           fst (buffer_all key w xs kv1) = map (\<lambda>_. None) xs \<and>
           ck_lists kv2 key = Some (map Some (a # map (\<lambda>(env, t, a). a) xs), t + w div go_second * go_second) \<and>
           fst (snd (flushKey env' cfg fired key kv2)) = [] \<and>
           ck_lists (snd (snd (flushKey env' cfg fired key kv2))) = ck_lists kv2"
proof -
  let ?e = "t + w div go_second * go_second"
  have w: "w div go_second > 0" using assms(1) by (simp add: go_second_def)
  have kv1: "due = t + w" "ck_lists kv1 key = Some ([Some a], ?e)"
    using assms(2,3,4) w
    by (auto simp: bufferAlert_def live_def Let_def split: option.splits if_splits)
  have "w div go_second * go_second \<le> w" by (simp add: go_second_def)
  with assms(6) kv1(1) have exp: "?e \<le> fired" by simp
  from buffer_all_live [OF kv1(2) assms(5)]
  have b: "fst (buffer_all key w xs kv1) = map (\<lambda>_. None) xs"
    "ck_lists (snd (buffer_all key w xs kv1)) key = Some ([Some a] @ map (\<lambda>(env, t, a). Some a) xs, ?e)"
    by simp_all
  have "map (\<lambda>(env, t, a). Some a) xs = map Some (map (\<lambda>(env, t, a). a) xs)" by auto
  moreover have "live fired (ck_lists (snd (buffer_all key w xs kv1))) key = None"
    using b(2) exp by (simp add: live_def)
  ultimately show ?thesis
    using b by (auto simp: flushKey_def flush_begin_def Let_def)
qed

theorem window_expires_before_timer_witness:
  "let kv1 = snd (snd (bufferAlert demo_env 0 ''CPU'' (demo_alert 1) (15 * go_second) (demo_kv\<lparr>ck_lists := Map.empty\<rparr>)));
       kv2 = snd (buffer_all ''CPU'' (15 * go_second) [(demo_env, go_second, demo_alert 2)] kv1)
   in ck_lists kv2 ''CPU'' = Some ([Some (demo_alert 1), Some (demo_alert 2)], 15 * go_second) \<and>
      fst (snd (flushKey demo_env demo_cfg (15 * go_second) ''CPU'' kv2)) = []"
proof -
  let ?kv = "demo_kv\<lparr>ck_lists := Map.empty\<rparr>"
  define kv1 where "kv1 = snd (snd (bufferAlert demo_env 0 ''CPU'' (demo_alert 1) (15 * go_second) ?kv))"
  have b: "bufferAlert demo_env 0 ''CPU'' (demo_alert 1) (15 * go_second) ?kv = (True, Some (15 * go_second), kv1)"
    by (simp add: kv1_def bufferAlert_def Let_def)
  have "go_second \<le> 15 * go_second" "live 0 (ck_lists ?kv) ''CPU'' = None" "ce_push_ok demo_env"
    by (simp_all add: go_second_def live_def)
  note th = window_expires_before_timer [OF this b, where xs = "[(demo_env, go_second, demo_alert 2)]"
      and fired = "15 * go_second" and env' = demo_env and cfg = demo_cfg]
  have "list_all (\<lambda>(env, t', a). ce_push_ok env \<and> t' < 0 + 15 * go_second div go_second * go_second)
          [(demo_env, go_second, demo_alert 2)]"
    by (simp add: go_second_def)
  note th = th [OF this order.refl]
  have "15 * go_second div go_second * go_second = 15 * go_second" by (simp add: go_second_def)
  with th show ?thesis by (simp add: kv1_def [symmetric] Let_def del: buffer_all.simps)
qed

text \<open>Alerts in the cooldown. Once a group of a key was published as a new investigation, every later
  alert of the key, until the cooldown of at least a second ends, joins that investigation and opens no
  other one, for as long as the investigation is not terminal; when it is, the cooldown is dropped.\<close>

theorem cooldown_merges:
  assumes "publish_new env0 cfg t0 key alerts kv0 = (True, effs, kv)" and "ce_set_ok env0"
    and "ce_new_id env0 \<noteq> []" and "go_second \<le> cf_cooldown cfg"
    and "t < t0 + cf_cooldown cfg div go_second * go_second"
    and "alert_key cfg alert = key" and "\<not> IsSuppressed (Some (ca_Labels alert)) (cf_suppress cfg)"
    and "ce_get_ok env" and "ce_del_ok env" and "ce_store env" and "ce_inv env (ce_new_id env0) = Some (Some info)"
  shows "if IsTerminalInvestigationStatus (ii_status info)
         then appendToInvestigation env key (ce_new_id env0) alert kv = (AppendStale, [], delCooldown env key kv) \<and>
              checkCooldown env t key (delCooldown env key kv) = Some None
         else ProcessAlert env cfg t alert kv =
              (if ce_append_ok env then (True, [CMerge (ce_new_id env0) [alert]], None, kv)
               else (False, [], None, kv))"
proof -
  have ttl: "cf_cooldown cfg div go_second > 0" "\<not> cf_cooldown cfg \<le> 0"
    using assms(4) by (simp_all add: go_second_def)
  have kv: "kv = setCooldown env0 cfg t0 key (ce_new_id env0) kv0"
    using assms(1) by (auto simp: publish_new_def Let_def split: if_splits)
  have "ck_cool kv key = Some (ce_new_id env0, t0 + cf_cooldown cfg div go_second * go_second)"
    using ttl assms(2) by (simp add: kv setCooldown_def Let_def)
  with assms(3,5,8) have hit: "checkCooldown env t key kv = Some (Some (ce_new_id env0))"
    by (simp add: checkCooldown_def live_def)
  have gone: "checkCooldown env t key (delCooldown env key kv) = Some None"
    using assms(8,9) by (simp add: checkCooldown_def live_def delCooldown_def)
  show ?thesis
    using assms(6,7,10,11) hit gone by (simp add: ProcessAlert_def Let_def appendToInvestigation_def)
qed

theorem cooldown_merges_witness:
  "ProcessAlert demo_env demo_cfg (30 * go_second) (demo_alert 2)
     (snd (snd (publish_new demo_env demo_cfg 0 ''CPU'' [demo_alert 1] demo_kv))) =
   (True, [CMerge ''inv-1'' [demo_alert 2]], None,
    snd (snd (publish_new demo_env demo_cfg 0 ''CPU'' [demo_alert 1] demo_kv)))"
proof -
  define kv where "kv = snd (snd (publish_new demo_env demo_cfg 0 ''CPU'' [demo_alert 1] demo_kv))"
  have p: "publish_new demo_env demo_cfg 0 ''CPU'' [demo_alert 1] demo_kv =
      (True, [CInvestigate ''inv-1'' ''CPU'' [demo_alert 1] ''warning''], kv)"
    by (simp add: kv_def publish_new_def Let_def demo_cfg_def DetermineAlertSeverity_def demo_alert_def)
  have c: "ce_new_id demo_env \<noteq> []" "go_second \<le> cf_cooldown demo_cfg"
    "30 * go_second < 0 + cf_cooldown demo_cfg div go_second * go_second"
    by (simp_all add: demo_cfg_def go_second_def)
  have k: "alert_key demo_cfg (demo_alert 2) = ''CPU''"
    by (simp add: alert_key_def ruleFor_def demo_cfg_def demo_alert_def CorrelationKeyWithRules_def
        CorrelationKey_def canonicalKeys_def mget_def go_trim_space_def is_space_def Let_def)
  have s: "\<not> IsSuppressed (Some (ca_Labels (demo_alert 2))) (cf_suppress demo_cfg)"
    by (simp add: IsSuppressed_def demo_cfg_def)
  have i: "ce_inv demo_env (ce_new_id demo_env) = Some (Some \<lparr>ii_status = ''investigating''\<rparr>)" by simp
  from cooldown_merges [OF p demo_env_simps(2) c k s demo_env_simps(1) demo_env_simps(7) demo_env_simps(8) i]
  show ?thesis by (simp add: kv_def [symmetric] IsTerminalInvestigationStatus_def)
qed

subsection \<open>Keys\<close>



end
