(* ===== verification/Investigations.thy ===== *)
theory Investigations
  imports Alert_Types
begin

text \<open>
  The tables of alert investigations and their operations (\<^verbatim>\<open>store/alert_investigation.go\<close>,
  \<^verbatim>\<open>store/alert_investigation_lifecycle.go\<close>, \<^verbatim>\<open>store/alert_investigation_agent.go\<close>,
  \<^verbatim>\<open>store/alert_investigation_updates.go\<close>, schema in \<^verbatim>\<open>db/migrations/00008_investigations.sql\<close>
  and \<^verbatim>\<open>00025_investigation_leases.sql\<close>). A row has a primary key and, apart from it, a public id.
  Each UPDATE is one step; the only failing statements are those that break a constraint of the
  schema. The column \<^verbatim>\<open>updated_at\<close> and columns no operation here reads (findings, evidence, triage,
  Mattermost post) are left out. New keys are ascending (\<^verbatim>\<open>uuid.NewV7\<close>).
\<close>

subsection \<open>Tables\<close>

record inv_row =
  iv_id :: uuid
  iv_public :: string
  iv_key :: string
  iv_status :: string
  iv_agent :: string
  iv_agent_name :: string
  iv_agent_type :: string
  iv_primary_fp :: string
  iv_primary_number :: int
  iv_assignee_type :: string
  iv_assignee :: "uuid option"
  iv_promoted :: "uuid option"
  iv_promoted_inv :: "uuid option"
  iv_slack_channel :: string
  iv_slack_thread :: string
  iv_mm_thread :: string
  iv_summary :: "(string \<times> string) option" \<comment> \<open>root cause, resolution\<close>
  iv_created :: instant
  iv_started :: "instant option"
  iv_lease :: "instant option"
  iv_completed :: "instant option"
  iv_completed_reason :: string
  iv_completed_type :: string
  iv_completed_by :: string
  iv_completed_name :: string

record inv_link =
  lk_id :: uuid
  lk_inv :: uuid
  lk_alert_id :: "uuid option"
  lk_alert :: correlated_alert
  lk_current :: bool

record inv_update =
  up_id :: uuid
  up_inv :: uuid
  up_type :: string
  up_message :: string
  up_source :: string
  up_internal :: bool
  up_edited :: bool
  up_mm_post :: string
  up_slack_ts :: string
  up_created :: instant

record inv_event =
  ie_inv :: uuid
  ie_type :: string
  ie_reason :: string
  ie_actor_type :: string
  ie_actor_id :: string
  ie_actor_name :: string
  ie_agent :: string
  ie_agent_name :: string
  ie_agent_type :: string
  ie_created :: instant

record inv_db =
  id_rows :: "inv_row list"
  id_links :: "inv_link list"
  id_updates :: "inv_update list"
  id_events :: "inv_event list"
  id_next :: uuid

datatype inv_error = InvalidInvId | InvNotFound | UnexpectedStatus | UniqueViolation | CheckViolation

text \<open>The statuses, and the CHECK of the column.\<close>

definition inv_statuses :: "string list" where
  "inv_statuses =
     [''pending'', ''assigned'', ''investigating'', ''promoted'', ''complete'', ''failed'', ''cancelled'',
      ''timed_out'', ''paused'']"

definition InvestigationTerminalStatuses :: "string list" where
  "InvestigationTerminalStatuses = [''complete'', ''failed'', ''cancelled'', ''timed_out'', ''promoted'']"

definition IsTerminalStatus :: "string \<Rightarrow> bool" where
  "IsTerminalStatus s = List.member InvestigationTerminalStatuses s"

definition reopenableStatuses :: "string list" where
  "reopenableStatuses = [''complete'', ''failed'', ''cancelled'', ''timed_out'', ''paused'']"

definition IsReopenableInvestigationStatus :: "string \<Rightarrow> bool" where
  "IsReopenableInvestigationStatus s = List.member reopenableStatuses s"

definition inv_checks :: "inv_row \<Rightarrow> bool" where
  "inv_checks r \<longleftrightarrow> List.member inv_statuses (iv_status r) \<and> 0 \<le> iv_primary_number r \<and>
     List.member [''agent'', ''user'', ''system'', ''grafana''] (iv_assignee_type r)"

text \<open>\<^verbatim>\<open>UPDATE .. WHERE\<close>: the rows that match are changed, unless that breaks a CHECK; the first component
  counts them.\<close>

definition update_rows ::
    "(inv_row \<Rightarrow> bool) \<Rightarrow> (inv_row \<Rightarrow> inv_row) \<Rightarrow> inv_db \<Rightarrow> (inv_error + nat) \<times> inv_db" where
  "update_rows P f db =
     (if list_all (\<lambda>r. P r \<longrightarrow> inv_checks (f r)) (id_rows db)
      then (Inr (length (filter P (id_rows db))),
            db\<lparr>id_rows := map (\<lambda>r. if P r then f r else r) (id_rows db)\<rparr>)
      else (Inl CheckViolation, db))"

definition find_id :: "uuid \<Rightarrow> inv_db \<Rightarrow> inv_row option" where
  "find_id i db = List.find (\<lambda>r. iv_id r = i) (id_rows db)"

definition find_public :: "string \<Rightarrow> inv_db \<Rightarrow> inv_row option" where
  "find_public i db = List.find (\<lambda>r. iv_public r = i) (id_rows db)"

text \<open>An investigation as the store returns it: the row with its alerts, updates and events.\<close>

record investigation =
  ai_row :: inv_row
  ai_alerts :: "correlated_alert list"
  ai_updates :: "inv_update list"
  ai_events :: "inv_event list"

definition toAlertInvestigationRecord :: "inv_db \<Rightarrow> inv_row \<Rightarrow> investigation" where
  "toAlertInvestigationRecord db r =
     \<lparr>ai_row = r,
      ai_alerts = map lk_alert (sort_key lk_id (filter (\<lambda>l. lk_inv l = iv_id r) (id_links db))),
      ai_updates = sort_key up_created (filter (\<lambda>u. up_inv u = iv_id r) (id_updates db)),
      ai_events = sort_key ie_created (filter (\<lambda>e. ie_inv e = iv_id r) (id_events db))\<rparr>"

subsection \<open>Links, updates and events\<close>

text \<open>The unique indexes on current links.\<close>

definition link_clash :: "inv_link \<Rightarrow> inv_link \<Rightarrow> bool" where
  "link_clash a b \<longleftrightarrow> lk_current a \<and> lk_current b \<and>
     (ca_AlertNumber (lk_alert a) > 0 \<and> ca_AlertNumber (lk_alert a) = ca_AlertNumber (lk_alert b) \<or>
      lk_alert_id a \<noteq> None \<and> lk_alert_id a = lk_alert_id b)"

fun links_ok :: "inv_link list \<Rightarrow> bool" where
  "links_ok [] = True"
| "links_ok (l # ls) = (list_all (\<lambda>m. \<not> link_clash l m) ls \<and> links_ok ls)"

definition createAlertInvestigationAlert :: "uuid \<Rightarrow> correlated_alert \<Rightarrow> inv_db \<Rightarrow> inv_error + inv_db" where
  "createAlertInvestigationAlert i a db =
     (let ls = id_links db @
            [\<lparr>lk_id = id_next db, lk_inv = i, lk_alert_id = None, lk_alert = a, lk_current = True\<rparr>]
      in if ca_AlertNumber a < 0 then Inl CheckViolation
         else if links_ok ls then Inr (db\<lparr>id_links := ls, id_next := Suc (id_next db)\<rparr>) else Inl UniqueViolation)"

text \<open>\<open>aids\<close>: the keys of the alerts with the given numbers.\<close>

definition retireLinks :: "(int list \<Rightarrow> uuid list) \<Rightarrow> correlated_alert list \<Rightarrow> inv_db \<Rightarrow> inv_db" where
  "retireLinks aids alerts db =
     (let numbers = remdups (map ca_AlertNumber (filter (\<lambda>a. ca_AlertNumber a > 0) alerts))
      in if numbers = [] then db
         else let ids = aids numbers
              in db\<lparr>id_links := map (\<lambda>l. if lk_current l \<and> List.member numbers (ca_AlertNumber (lk_alert l)) \<or>
                                           (\<exists>k \<in> set ids. lk_alert_id l = Some k)
                                        then l\<lparr>lk_current := False\<rparr> else l) (id_links db)\<rparr>)"

definition createUpdate :: "uuid \<Rightarrow> string \<Rightarrow> string \<Rightarrow> string \<Rightarrow> bool \<Rightarrow> instant \<Rightarrow> inv_db \<Rightarrow> inv_db" where
  "createUpdate i ty msg src internal now db =
     db\<lparr>id_updates := id_updates db @
          [\<lparr>up_id = id_next db, up_inv = i, up_type = ty, up_message = msg, up_source = src,
            up_internal = internal, up_edited = False, up_mm_post = [], up_slack_ts = [], up_created = now\<rparr>],
        id_next := Suc (id_next db)\<rparr>"

definition createEvent :: "inv_event \<Rightarrow> inv_db \<Rightarrow> inv_db" where
  "createEvent e db = db\<lparr>id_events := id_events db @ [e]\<rparr>"

fun insert_links :: "uuid \<Rightarrow> correlated_alert list \<Rightarrow> inv_db \<Rightarrow> inv_error + inv_db" where
  "insert_links i [] db = Inr db"
| "insert_links i (a # as) db =
     (case createAlertInvestigationAlert i a db of Inl e \<Rightarrow> Inl e | Inr db1 \<Rightarrow> insert_links i as db1)"

subsection \<open>Creation and lookups\<close>

text \<open>The caller gives the columns in a row whose key, creation time and empty fields are filled in here;
  the columns lease and completed-by are not inserted. \<open>fresh\<close>: a new random id. No caller passes
  messages for the new investigation.\<close>

definition new_row :: "instant \<Rightarrow> string \<Rightarrow> inv_row \<Rightarrow> inv_db \<Rightarrow> inv_row" where
  "new_row now fresh r db =
     r\<lparr>iv_id := id_next db, iv_public := (if iv_public r = [] then fresh else iv_public r), iv_created := now,
       iv_status := (if iv_status r = [] then ''pending'' else iv_status r),
       iv_assignee_type := (if iv_assignee_type r = [] then ''agent'' else iv_assignee_type r),
       iv_lease := None, iv_completed_reason := [], iv_completed_type := [],
       iv_completed_by := [], iv_completed_name := []\<rparr>"

definition CreateAlertInvestigation ::
    "(int list \<Rightarrow> uuid list) \<Rightarrow> instant \<Rightarrow> string \<Rightarrow> inv_row \<Rightarrow> correlated_alert list \<Rightarrow> inv_db
     \<Rightarrow> (inv_error + investigation option) \<times> inv_db" where
  "CreateAlertInvestigation aids now fresh r alerts db =
     (let row = new_row now fresh r db;
          db1 = db\<lparr>id_rows := id_rows db @ [row], id_next := Suc (id_next db)\<rparr>
      in if find_public (iv_public row) db \<noteq> None then (Inl UniqueViolation, db)
         else if \<not> inv_checks row then (Inl CheckViolation, db)
         else case insert_links (iv_id row) alerts (retireLinks aids alerts db1) of
                Inl e \<Rightarrow> (Inl e, db)
              | Inr db2 \<Rightarrow>
                  (Inr (map_option (toAlertInvestigationRecord db2) (find_public (iv_public row) db2)), db2))"

definition GetAlertInvestigation :: "string \<Rightarrow> inv_db \<Rightarrow> investigation option" where
  "GetAlertInvestigation i db = map_option (toAlertInvestigationRecord db) (find_public i db)"

definition ListPendingAlertInvestigations :: "int \<Rightarrow> inv_db \<Rightarrow> investigation list" where
  "ListPendingAlertInvestigations limit db =
     map (toAlertInvestigationRecord db)
       (take (nat limit) (sort_key iv_created (filter (\<lambda>r. iv_status r = ''pending'') (id_rows db))))"

definition GetActiveAlertInvestigationByCorrelationKey :: "string \<Rightarrow> inv_db \<Rightarrow> investigation option" where
  "GetActiveAlertInvestigationByCorrelationKey key db =
     map_option (toAlertInvestigationRecord db)
       (List.find (\<lambda>r. iv_key r = key \<and>
          List.member [''pending'', ''assigned'', ''investigating''] (iv_status r)) (id_rows db))"

text \<open>The latest current link of an alert, and its investigation.\<close>

definition GetCurrentAlertInvestigationByAlertNumber :: "int \<Rightarrow> inv_db \<Rightarrow> inv_error + investigation" where
  "GetCurrentAlertInvestigationByAlertNumber n db =
     (case rev (sort_key lk_id (filter (\<lambda>l. ca_AlertNumber (lk_alert l) = n \<and> lk_current l) (id_links db))) of
        [] \<Rightarrow> Inl InvNotFound
      | l # _ \<Rightarrow> (case find_id (lk_inv l) db of
                    None \<Rightarrow> Inl InvNotFound
                  | Some r \<Rightarrow> Inr (toAlertInvestigationRecord db r)))"

text \<open>All investigations an alert was linked to, the newest first.\<close>

definition ListAlertInvestigationsByAlertNumber :: "int \<Rightarrow> inv_db \<Rightarrow> investigation list" where
  "ListAlertInvestigationsByAlertNumber n db =
     (let ids = rev (remdups (rev (map lk_inv (filter (\<lambda>l. ca_AlertNumber (lk_alert l) = n) (id_links db)))))
      in sort_key (\<lambda>x. - iv_created (ai_row x))
           (map (toAlertInvestigationRecord db) (List.map_filter (\<lambda>i. find_id i db) ids)))"

definition GetAlertInvestigationByMMThread :: "string \<Rightarrow> inv_db \<Rightarrow> investigation option" where
  "GetAlertInvestigationByMMThread th db =
     map_option (toAlertInvestigationRecord db) (List.find (\<lambda>r. iv_mm_thread r = th) (id_rows db))"

definition GetAlertInvestigationBySlackThread :: "string \<Rightarrow> string \<Rightarrow> inv_db \<Rightarrow> investigation option" where
  "GetAlertInvestigationBySlackThread ch ts db =
     map_option (toAlertInvestigationRecord db)
       (List.find (\<lambda>r. iv_slack_channel r = ch \<and> iv_slack_thread r = ts) (id_rows db))"

subsection \<open>Lifecycle\<close>

text \<open>Ids of a row arrive as texts; \<open>parse\<close> is \<^verbatim>\<open>uuid.Parse\<close>. An UPDATE that matches no row is an error.\<close>

definition on_row ::
    "(string \<Rightarrow> uuid option) \<Rightarrow> string \<Rightarrow> (uuid \<Rightarrow> (inv_error + 'a) \<times> inv_db) \<Rightarrow> inv_db
     \<Rightarrow> (inv_error + 'a) \<times> inv_db" where
  "on_row parse i f db = (case parse i of None \<Rightarrow> (Inl InvalidInvId, db) | Some u \<Rightarrow> f u)"

definition need_row ::
    "inv_error \<Rightarrow> (inv_error + nat) \<times> inv_db \<Rightarrow> (inv_db \<Rightarrow> (inv_error + 'a) \<times> inv_db)
     \<Rightarrow> inv_db \<Rightarrow> (inv_error + 'a) \<times> inv_db" where
  "need_row e res k db =
     (case res of
        (Inl e', db1) \<Rightarrow> (Inl e', db)
      | (Inr n, db1) \<Rightarrow> if n = 0 then (Inl e, db) else k db1)"

record completion =
  cp_reason :: string
  cp_actor_type :: string
  cp_actor_id :: string
  cp_actor_name :: string
  cp_event_reason :: string

definition agent_event :: "inv_row \<Rightarrow> string \<Rightarrow> string \<Rightarrow> string \<Rightarrow> string \<Rightarrow> string \<Rightarrow> instant \<Rightarrow> inv_event" where
  "agent_event r ty reason at ai an now =
     \<lparr>ie_inv = iv_id r, ie_type = ty, ie_reason = reason, ie_actor_type = at, ie_actor_id = ai,
      ie_actor_name = an, ie_agent = iv_agent r, ie_agent_name = iv_agent_name r,
      ie_agent_type = iv_agent_type r, ie_created = now\<rparr>"

text \<open>Completion, idempotent on a terminal investigation.\<close>

definition CompleteAlertInvestigation ::
    "(string \<Rightarrow> uuid option) \<Rightarrow> instant \<Rightarrow> string \<Rightarrow> completion \<Rightarrow> inv_db \<Rightarrow> (inv_error + unit) \<times> inv_db" where
  "CompleteAlertInvestigation parse now i c db =
     on_row parse i (\<lambda>u.
       (case update_rows (\<lambda>r. iv_id r = u \<and>
               List.member [''pending'', ''assigned'', ''investigating'', ''paused''] (iv_status r))
             (\<lambda>r. r\<lparr>iv_status := ''complete'', iv_completed := Some now, iv_completed_reason := cp_reason c,
                   iv_completed_type := cp_actor_type c, iv_completed_by := cp_actor_id c,
                   iv_completed_name := cp_actor_name c\<rparr>) db of
          (Inl e, db1) \<Rightarrow> (Inl e, db)
        | (Inr n, db1) \<Rightarrow>
            if n = 0 then
              (case find_id u db of
                 Some r \<Rightarrow> if IsTerminalStatus (iv_status r) then (Inr (), db) else (Inl InvNotFound, db)
               | None \<Rightarrow> (Inl InvNotFound, db))
            else (case find_id u db1 of
                    None \<Rightarrow> (Inl InvNotFound, db)
                  | Some r \<Rightarrow>
                      (Inr (), createEvent (agent_event r ''completed'' (cp_event_reason c) (cp_actor_type c)
                                 (cp_actor_id c) (cp_actor_name c) now) db1)))) db"

record requeue =
  rq_event :: string
  rq_reason :: string
  rq_actor_type :: string
  rq_actor_name :: string

definition RequeueAlertInvestigation ::
    "(string \<Rightarrow> uuid option) \<Rightarrow> instant \<Rightarrow> string \<Rightarrow> requeue \<Rightarrow> inv_db \<Rightarrow> (inv_error + unit) \<times> inv_db" where
  "RequeueAlertInvestigation parse now i q db =
     on_row parse i (\<lambda>u.
       need_row InvNotFound
         (update_rows (\<lambda>r. iv_id r = u \<and> List.member [''assigned'', ''investigating'', ''paused''] (iv_status r))
            (\<lambda>r. r\<lparr>iv_status := ''pending'', iv_started := None\<rparr>) db)
         (\<lambda>db1. case find_id u db1 of
            None \<Rightarrow> (Inl InvNotFound, db)
          | Some r \<Rightarrow>
              (let ty = (if rq_event q = [] then ''requeued'' else rq_event q)
               in if List.member [''assigned'', ''started'', ''requeued'', ''agent_offline_before_start'',
                       ''agent_offline_during_work'', ''dispatch_failed'', ''auto_completed'', ''completed''] ty
                  then (Inr (), createEvent (agent_event r ty (rq_reason q) (rq_actor_type q) [] (rq_actor_name q) now) db1)
                  else (Inl CheckViolation, db))) db) db"

definition MarkAlertInvestigationPromoted ::
    "(string \<Rightarrow> uuid option) \<Rightarrow> instant \<Rightarrow> string \<Rightarrow> string \<Rightarrow> string \<Rightarrow> string \<Rightarrow> inv_db
     \<Rightarrow> (inv_error + investigation option) \<times> inv_db" where
  "MarkAlertInvestigationPromoted parse now i inc incinv msg db =
     (case (parse inc, parse incinv) of
        (Some p, Some pi) \<Rightarrow>
          (case find_public i db of
             None \<Rightarrow> (Inl InvNotFound, db)
           | Some r \<Rightarrow>
               (case update_rows (\<lambda>x. iv_id x = iv_id r)
                       (\<lambda>x. x\<lparr>iv_status := ''promoted'', iv_promoted := Some p, iv_promoted_inv := Some pi\<rparr>) db of
                  (Inl e, db1) \<Rightarrow> (Inl e, db)
                | (Inr n, db1) \<Rightarrow>
                    (let db2 = createUpdate (iv_id r) ''progress'' msg ''system'' True now db1
                     in (Inr (GetAlertInvestigation i db2), db2))))
      | _ \<Rightarrow> (Inl InvalidInvId, db))"

text \<open>By public id, without a guard.\<close>

definition UpdateAlertInvestigationStatus :: "string \<Rightarrow> string \<Rightarrow> inv_db \<Rightarrow> (inv_error + unit) \<times> inv_db" where
  "UpdateAlertInvestigationStatus i s db =
     need_row InvNotFound (update_rows (\<lambda>r. iv_public r = i) (\<lambda>r. r\<lparr>iv_status := s\<rparr>) db)
       (\<lambda>db1. (Inr (), db1)) db"

text \<open>By primary key, from one of the given statuses (any, if none is given).\<close>

definition transition_inv_row :: "instant \<Rightarrow> string \<Rightarrow> inv_row \<Rightarrow> inv_row" where
  "transition_inv_row now s r =
     (let r1 = r\<lparr>iv_status := s\<rparr>
      in if s = ''investigating'' then r1\<lparr>iv_started := Some now\<rparr>
         else if List.member [''complete'', ''failed'', ''cancelled'', ''timed_out''] s
         then r1\<lparr>iv_completed := Some now\<rparr>
         else r1)"

definition TransitionAlertInvestigationStatus ::
    "(string \<Rightarrow> uuid option) \<Rightarrow> instant \<Rightarrow> string \<Rightarrow> string list \<Rightarrow> string \<Rightarrow> inv_db
     \<Rightarrow> (inv_error + unit) \<times> inv_db" where
  "TransitionAlertInvestigationStatus parse now i froms s db =
     on_row parse i (\<lambda>u.
       need_row UnexpectedStatus
         (update_rows (\<lambda>r. iv_id r = u \<and> (froms = [] \<or> List.member froms (iv_status r)))
            (transition_inv_row now s) db)
         (\<lambda>db1. (Inr (), db1)) db) db"

definition PatchAlertInvestigationOutcome ::
    "(string \<Rightarrow> uuid option) \<Rightarrow> string \<Rightarrow> string option \<Rightarrow> string option \<Rightarrow> inv_db \<Rightarrow> (inv_error + unit) \<times> inv_db" where
  "PatchAlertInvestigationOutcome parse i root res db =
     on_row parse i (\<lambda>u.
       (case find_id u db of
          None \<Rightarrow> (Inl InvNotFound, db)
        | Some r \<Rightarrow>
            (let (c, s) = (case iv_summary r of None \<Rightarrow> ([], []) | Some x \<Rightarrow> x);
                 sum' = ((case root of Some v \<Rightarrow> v | None \<Rightarrow> c), (case res of Some v \<Rightarrow> v | None \<Rightarrow> s))
             in map_prod (map_sum id (\<lambda>n. ()))
                  id (update_rows (\<lambda>x. iv_id x = u) (\<lambda>x. x\<lparr>iv_summary := Some sum'\<rparr>) db)))) db"

definition UpdateAlertInvestigationAgent ::
    "(string \<Rightarrow> uuid option) \<Rightarrow> string \<Rightarrow> string \<Rightarrow> string \<Rightarrow> string \<Rightarrow> inv_db \<Rightarrow> (inv_error + unit) \<times> inv_db" where
  "UpdateAlertInvestigationAgent parse i ag nm ty db =
     on_row parse i (\<lambda>u. map_prod (map_sum id (\<lambda>n. ())) id
       (update_rows (\<lambda>r. iv_id r = u) (\<lambda>r. r\<lparr>iv_agent := ag, iv_agent_name := nm, iv_agent_type := ty\<rparr>) db)) db"

definition ClaimPendingAlertInvestigation ::
    "(string \<Rightarrow> uuid option) \<Rightarrow> instant \<Rightarrow> string \<Rightarrow> string \<Rightarrow> string \<Rightarrow> string \<Rightarrow> int \<Rightarrow> inv_db
     \<Rightarrow> (inv_error + investigation) \<times> inv_db" where
  "ClaimPendingAlertInvestigation parse now i ag nm ty lease db =
     on_row parse i (\<lambda>u.
       need_row InvNotFound
         (update_rows (\<lambda>r. iv_id r = u \<and> iv_status r = ''pending'')
            (\<lambda>r. r\<lparr>iv_status := ''assigned'', iv_agent := ag, iv_agent_name := nm, iv_agent_type := ty,
                  iv_started := Some now, iv_lease := Some (now + (if lease \<le> 0 then 10 * go_minute else lease))\<rparr>) db)
         (\<lambda>db1. case find_id u db1 of
            None \<Rightarrow> (Inl InvNotFound, db1)
          | Some r \<Rightarrow> (Inr (toAlertInvestigationRecord db1 r), db1)) db) db"

definition SetAlertInvestigationAssignee ::
    "(string \<Rightarrow> uuid option) \<Rightarrow> string \<Rightarrow> string \<Rightarrow> uuid option \<Rightarrow> inv_db \<Rightarrow> (inv_error + unit) \<times> inv_db" where
  "SetAlertInvestigationAssignee parse i ty who db =
     on_row parse i (\<lambda>u. map_prod (map_sum id (\<lambda>n. ())) id
       (update_rows (\<lambda>r. iv_id r = u)
          (\<lambda>r. let r1 = r\<lparr>iv_assignee_type := ty, iv_assignee := who\<rparr>
               in if ty \<noteq> ''agent'' then r1\<lparr>iv_agent := [], iv_agent_name := [], iv_agent_type := []\<rparr>
                  else r1) db)) db"

definition DeleteAlertInvestigation :: "string \<Rightarrow> inv_db \<Rightarrow> (inv_error + unit) \<times> inv_db" where
  "DeleteAlertInvestigation i db =
     (case find_public i db of
        None \<Rightarrow> (Inl InvNotFound, db)
      | Some r \<Rightarrow>
          (Inr (), db\<lparr>id_rows := filter (\<lambda>x. iv_id x \<noteq> iv_id r) (id_rows db),
                     id_links := filter (\<lambda>l. lk_inv l \<noteq> iv_id r) (id_links db),
                     id_updates := filter (\<lambda>x. up_inv x \<noteq> iv_id r) (id_updates db),
                     id_events := filter (\<lambda>e. ie_inv e \<noteq> iv_id r) (id_events db)\<rparr>))"

subsection \<open>Leases and agents\<close>

definition leased :: "instant \<Rightarrow> inv_row \<Rightarrow> bool" where
  "leased now r = (case iv_lease r of None \<Rightarrow> True | Some t \<Rightarrow> now \<le> t)"

definition ExpireAlertInvestigationLeases :: "instant \<Rightarrow> inv_db \<Rightarrow> string list \<times> inv_db" where
  "ExpireAlertInvestigationLeases now db =
     (let P = (\<lambda>r. List.member [''assigned'', ''investigating''] (iv_status r) \<and> \<not> leased now r)
      in (map iv_public (filter P (id_rows db)),
          db\<lparr>id_rows := map (\<lambda>r. if P r
             then r\<lparr>iv_status := ''pending'', iv_agent := [], iv_agent_name := [], iv_agent_type := [],
                   iv_started := None, iv_lease := None\<rparr> else r) (id_rows db)\<rparr>))"

definition RenewAlertInvestigationLeases :: "instant \<Rightarrow> string \<Rightarrow> int \<Rightarrow> inv_db \<Rightarrow> inv_db" where
  "RenewAlertInvestigationLeases now ag lease db =
     db\<lparr>id_rows := map (\<lambda>r. if iv_agent r = ag \<and> iv_status r = ''investigating''
        then r\<lparr>iv_lease := Some (now + (if lease \<le> 0 then 10 * go_minute else lease))\<rparr> else r) (id_rows db)\<rparr>"

definition ExpireAlertInvestigationLeasesByAgent :: "instant \<Rightarrow> string \<Rightarrow> int \<Rightarrow> inv_db \<Rightarrow> inv_db" where
  "ExpireAlertInvestigationLeasesByAgent now ag grace db =
     db\<lparr>id_rows := map (\<lambda>r. if iv_agent r = ag \<and> iv_status r = ''assigned'' then r\<lparr>iv_lease := Some now\<rparr>
        else if iv_agent r = ag \<and> iv_status r = ''investigating'' then r\<lparr>iv_lease := Some (now + grace)\<rparr>
        else r) (id_rows db)\<rparr>"

definition CountActiveByAgent :: "string \<Rightarrow> inv_db \<Rightarrow> nat" where
  "CountActiveByAgent ag db =
     length (filter (\<lambda>r. iv_agent r = ag \<and>
       List.member [''assigned'', ''investigating'', ''paused''] (iv_status r)) (id_rows db))"

definition CountActiveByAgents :: "string list \<Rightarrow> inv_db \<Rightarrow> (string \<times> nat) list" where
  "CountActiveByAgents ags db = map (\<lambda>ag. (ag, CountActiveByAgent ag db)) (remdups ags)"

text \<open>Started at least the threshold ago (and, for investigating rows, without a recent update).\<close>

definition listStalled :: "instant \<Rightarrow> string \<Rightarrow> int \<Rightarrow> bool \<Rightarrow> inv_db \<Rightarrow> investigation list" where
  "listStalled now s threshold quiet db =
     (let cutoff = now - threshold
      in map (toAlertInvestigationRecord db)
           (filter (\<lambda>r. iv_status r = s \<and>
              (case iv_started r of None \<Rightarrow> False | Some t \<Rightarrow> t \<le> cutoff) \<and>
              (quiet \<longrightarrow> \<not> list_ex (\<lambda>u. up_inv u = iv_id r \<and> cutoff \<le> up_created u) (id_updates db)))
             (id_rows db)))"

subsection \<open>Alerts and messages of an investigation\<close>

fun append_new ::
    "(int list \<Rightarrow> uuid list) \<Rightarrow> uuid \<Rightarrow> string list \<Rightarrow> correlated_alert list \<Rightarrow> inv_db \<Rightarrow> inv_error + inv_db" where
  "append_new aids i seen [] db = Inr db"
| "append_new aids i seen (a # as) db =
     (if List.member seen (ca_Fingerprint a) then append_new aids i seen as db
      else case createAlertInvestigationAlert i a (retireLinks aids [a] db) of
             Inl e \<Rightarrow> Inl e
           | Inr db1 \<Rightarrow> append_new aids i (ca_Fingerprint a # seen) as db1)"

definition AppendAlertsToAlertInvestigation ::
    "(int list \<Rightarrow> uuid list) \<Rightarrow> string \<Rightarrow> correlated_alert list \<Rightarrow> inv_db \<Rightarrow> (inv_error + unit) \<times> inv_db" where
  "AppendAlertsToAlertInvestigation aids i alerts db =
     (case find_public i db of
        None \<Rightarrow> (Inl InvNotFound, db)
      | Some r \<Rightarrow>
          (case append_new aids (iv_id r)
                  (map (\<lambda>l. ca_Fingerprint (lk_alert l)) (filter (\<lambda>l. lk_inv l = iv_id r) (id_links db)))
                  alerts db of
             Inl e \<Rightarrow> (Inl e, db)
           | Inr db1 \<Rightarrow> (Inr (), db1)))"

definition MarkAlertInvestigationAlertsCurrent :: "string \<Rightarrow> bool \<Rightarrow> inv_db \<Rightarrow> (inv_error + unit) \<times> inv_db" where
  "MarkAlertInvestigationAlertsCurrent i current db =
     (let P = (\<lambda>l. list_ex (\<lambda>r. iv_id r = lk_inv l \<and> iv_public r = i) (id_rows db));
          ls = map (\<lambda>l. if P l then l\<lparr>lk_current := current\<rparr> else l) (id_links db)
      in if \<not> links_ok ls then (Inl UniqueViolation, db)
         else if \<not> list_ex P (id_links db) then (Inl InvNotFound, db)
         else (Inr (), db\<lparr>id_links := ls\<rparr>))"

definition AddAlertInvestigationUpdate ::
    "instant \<Rightarrow> string \<Rightarrow> string \<Rightarrow> string \<Rightarrow> string \<Rightarrow> bool \<Rightarrow> inv_db \<Rightarrow> (inv_error + unit) \<times> inv_db" where
  "AddAlertInvestigationUpdate now i ty msg src internal db =
     (case find_public i db of
        None \<Rightarrow> (Inl InvNotFound, db)
      | Some r \<Rightarrow> (Inr (), createUpdate (iv_id r) ty msg src internal now db))"

text \<open>Messages are addressed by their id and the public id of their investigation.\<close>

definition on_message ::
    "(string \<Rightarrow> uuid option) \<Rightarrow> string \<Rightarrow> string \<Rightarrow> (inv_update \<Rightarrow> inv_update option) \<Rightarrow> inv_db
     \<Rightarrow> (inv_error + unit) \<times> inv_db" where
  "on_message parse i upd f db =
     (case parse upd of
        None \<Rightarrow> (Inl InvalidInvId, db)
      | Some u \<Rightarrow>
          (let P = (\<lambda>x. up_id x = u \<and> list_ex (\<lambda>r. iv_id r = up_inv x \<and> iv_public r = i) (id_rows db))
           in if \<not> list_ex P (id_updates db) then (Inl InvNotFound, db)
              else (Inr (), db\<lparr>id_updates := List.map_filter (\<lambda>x. if P x then f x else Some x) (id_updates db)\<rparr>)))"

definition UpdateAlertInvestigationMessage where
  "UpdateAlertInvestigationMessage parse i upd msg =
     on_message parse i upd (\<lambda>x. Some (x\<lparr>up_message := msg, up_edited := True\<rparr>))"

definition DeleteAlertInvestigationMessage where
  "DeleteAlertInvestigationMessage parse i upd = on_message parse i upd (\<lambda>x. None)"

definition SetAlertInvestigationUpdateMMPostID where
  "SetAlertInvestigationUpdateMMPostID parse i upd p = on_message parse i upd (\<lambda>x. Some (x\<lparr>up_mm_post := p\<rparr>))"

definition SetAlertInvestigationUpdateSlackMessageTS where
  "SetAlertInvestigationUpdateSlackMessageTS parse i upd p =
     on_message parse i upd (\<lambda>x. Some (x\<lparr>up_slack_ts := p\<rparr>))"

end
