(* ===== verification/Investigation_Actions.thy ===== *)
theory Investigation_Actions
  imports Investigations Alert_Store
begin

text \<open>
  What users, agents and the scheduler do to alert investigations: assignment by hand
  (\<^verbatim>\<open>api/alert_investigation_assign.go\<close>), completion once all alerts are resolved and the permission of
  an agent (\<^verbatim>\<open>api/alert_investigation_lifecycle.go\<close>), resolving and reopening an alert with its
  investigation (\<^verbatim>\<open>api/alert.go\<close>) and the lease sweep (\<^verbatim>\<open>worker/scheduler_dispatch.go\<close>). Audit and
  live updates are left out; the deduplication cache and messages to agents are effects.
\<close>

text \<open>The outside of a call: failing statements of the \<open>k\<close>-th alert store operation and what happens to the
  alert tables meanwhile, the UUID texts, the agents with a connection, the time.\<close>

record action_env =
  ax_fails :: "nat \<Rightarrow> nat \<Rightarrow> bool"
  ax_env :: "alert_db \<Rightarrow> alert_db"
  ax_parse :: "string \<Rightarrow> uuid option"
  ax_text :: "uuid \<Rightarrow> string"
  ax_online :: "string \<Rightarrow> bool"
  ax_now :: instant

datatype action_effect =
    Track string
  | Untrack string
  | ResumeAgent string string \<comment> \<open>agent, investigation\<close>
  | NotifyPending

subsection \<open>Assignment by hand\<close>

datatype http_code =
  Forbidden | ServiceUnavailable | ValidationFailed | UnprocessableEntity | NotFound | Conflict | Unauthorized
  | InternalError

datatype assign_result = AssignError http_code | AssignPanic | AssignOk "investigation option"

record assign_request =
  rq_permitted :: bool
  rq_store :: bool
  rq_id :: string
  rq_body :: "(string \<times> string) option" \<comment> \<open>assignee type and id\<close>
  rq_users :: "(uuid \<Rightarrow> bool) option" \<comment> \<open>user store\<close>

definition assign_target :: "action_env \<Rightarrow> assign_request \<Rightarrow> string \<Rightarrow> string \<Rightarrow> http_code + uuid option" where
  "assign_target ax rq ty who =
     (if ty \<noteq> ''user'' then Inr None
      else if who = [] then Inl UnprocessableEntity
      else case ax_parse ax who of
             None \<Rightarrow> Inl UnprocessableEntity
           | Some u \<Rightarrow>
               (case rq_users rq of
                  None \<Rightarrow> Inl ServiceUnavailable
                | Some known \<Rightarrow> if known u then Inr (Some u) else Inl NotFound))"

text \<open>The writes, and the answer.\<close>

definition assign_commit ::
    "action_env \<Rightarrow> string \<Rightarrow> investigation \<Rightarrow> string \<Rightarrow> uuid option \<Rightarrow> inv_db \<Rightarrow> assign_result \<times> inv_db" where
  "assign_commit ax ident i ty target db =
     (let pk = ax_text ax (iv_id (ai_row i)); s = iv_status (ai_row i)
      in case SetAlertInvestigationAssignee (ax_parse ax) pk ty target db of
           (Inl e, db1) \<Rightarrow> (AssignError InternalError, db1)
         | (Inr u, db1) \<Rightarrow>
             let db2 = (if ty = ''user'' \<and> s = ''pending''
                        then snd (UpdateAlertInvestigationStatus pk ''assigned'' db1)
                        else if ty = ''agent'' \<and> s = ''assigned''
                        then snd (UpdateAlertInvestigationStatus pk ''pending'' db1)
                        else db1)
             in (AssignOk (GetAlertInvestigation ident db2), db2))"

definition handleAlertInvestigationAssign ::
    "action_env \<Rightarrow> assign_request \<Rightarrow> inv_db \<Rightarrow> assign_result \<times> inv_db" where
  "handleAlertInvestigationAssign ax rq db =
     (if \<not> rq_permitted rq then (AssignError Forbidden, db)
      else if \<not> rq_store rq then (AssignError ServiceUnavailable, db)
      else if rq_id rq = [] then (AssignError ValidationFailed, db)
      else case rq_body rq of
        None \<Rightarrow> (AssignError ValidationFailed, db)
      | Some (ty, who) \<Rightarrow>
          if ty \<noteq> ''user'' \<and> ty \<noteq> ''agent'' then (AssignError UnprocessableEntity, db)
          else case assign_target ax rq ty who of
            Inl c \<Rightarrow> (AssignError c, db)
          | Inr target \<Rightarrow>
              (case GetAlertInvestigation (rq_id rq) db of
                 None \<Rightarrow> (AssignPanic, db)
               | Some i \<Rightarrow>
                   if IsTerminalStatus (iv_status (ai_row i)) then (AssignError Conflict, db)
                   else assign_commit ax (rq_id rq) i ty target db))"

subsection \<open>Completion\<close>

fun all_resolved :: "(nat \<Rightarrow> nat \<Rightarrow> bool) \<Rightarrow> nat \<Rightarrow> correlated_alert list \<Rightarrow> alert_db \<Rightarrow> bool" where
  "all_resolved fails k [] adb = True"
| "all_resolved fails k (a # as) adb =
     (case GetByFingerprint (fails k) (ca_Fingerprint a) adb of
        Inl e \<Rightarrow> False
      | Inr None \<Rightarrow> all_resolved fails (Suc k) as adb
      | Inr (Some rec) \<Rightarrow>
          if ar_status (re_alert rec) \<noteq> ''resolved'' then False else all_resolved fails (Suc k) as adb)"

definition AllAlertInvestigationAlertsResolved ::
    "(nat \<Rightarrow> nat \<Rightarrow> bool) \<Rightarrow> nat \<Rightarrow> investigation \<Rightarrow> alert_db \<Rightarrow> bool" where
  "AllAlertInvestigationAlertsResolved fails k i adb =
     (ai_alerts i \<noteq> [] \<and> all_resolved fails k (ai_alerts i) adb)"

definition RequireAlertActionAllowed :: "string option \<Rightarrow> int \<Rightarrow> inv_db \<Rightarrow> bool" where
  "RequireAlertActionAllowed agent n db =
     (case agent of
        None \<Rightarrow> True
      | Some ag \<Rightarrow>
          (case GetCurrentAlertInvestigationByAlertNumber n db of
             Inl e \<Rightarrow> e = InvNotFound
           | Inr i \<Rightarrow> iv_promoted (ai_row i) \<noteq> None \<or> iv_agent (ai_row i) = [] \<or> iv_agent (ai_row i) = ag))"

record completion_request =
  cr_number :: int
  cr_reason :: string
  cr_type :: string
  cr_id :: string
  cr_name :: string

definition CompleteIfAllAlertsResolved ::
    "action_env \<Rightarrow> nat \<Rightarrow> completion_request \<Rightarrow> alert_db \<Rightarrow> inv_db \<Rightarrow> (inv_error + unit) \<times> inv_db" where
  "CompleteIfAllAlertsResolved ax k rq adb db =
     (if cr_number rq \<le> 0 then (Inr (), db)
      else case GetCurrentAlertInvestigationByAlertNumber (cr_number rq) db of
             Inl e \<Rightarrow> if e = InvNotFound then (Inr (), db) else (Inl e, db)
           | Inr i \<Rightarrow>
               if IsTerminalStatus (iv_status (ai_row i)) then (Inr (), db)
               else if \<not> AllAlertInvestigationAlertsResolved (ax_fails ax) k i adb then (Inr (), db)
               else CompleteAlertInvestigation (ax_parse ax) (ax_now ax) (ax_text ax (iv_id (ai_row i)))
                      \<lparr>cp_reason = (if cr_reason rq = [] then ''alerts_resolved'' else cr_reason rq),
                       cp_actor_type = (if cr_type rq = [] then ''system'' else cr_type rq),
                       cp_actor_id = cr_id rq, cp_actor_name = cr_name rq,
                       cp_event_reason = ''all linked alerts resolved''\<rparr> db)"

subsection \<open>Resolving and reopening an alert\<close>

record action_actor =
  aa_actor :: event_actor
  aa_agent :: bool

definition handleAlertResolve ::
    "action_env \<Rightarrow> string \<Rightarrow> action_actor option \<Rightarrow> alert_db \<times> inv_db
     \<Rightarrow> http_code option \<times> action_effect list \<times> alert_db \<times> inv_db" where
  "handleAlertResolve ax fp who s =
     (let (adb, db) = s
      in case who of
        None \<Rightarrow> (Some Unauthorized, [], adb, db)
      | Some a \<Rightarrow>
          (case ResolveAlertByUser (ax_fails ax 0) (ax_env ax) (ax_now ax) fp (Some (aa_actor a)) adb of
             (Inl ErrAlertNotFiring, adb1) \<Rightarrow> (Some ValidationFailed, [], adb1, db)
           | (Inl e, adb1) \<Rightarrow> (Some InternalError, [], adb1, db)
           | (Inr u, adb1) \<Rightarrow>
               (let db1 = (case GetByFingerprint (ax_fails ax 1) fp adb1 of
                             Inr (Some rec) \<Rightarrow>
                               snd (CompleteIfAllAlertsResolved ax 2
                                 \<lparr>cr_number = ar_number (re_alert rec), cr_reason = ''alerts_resolved'',
                                  cr_type = (if aa_agent a then ''agent'' else ''user''),
                                  cr_id = ac_userid (aa_actor a),
                                  cr_name = (if ac_display (aa_actor a) = [] then ac_username (aa_actor a)
                                             else ac_display (aa_actor a))\<rparr> adb1 db)
                           | _ \<Rightarrow> db)
                in (None, [Untrack fp], adb1, db1))))"

fun ack_alerts :: "action_env \<Rightarrow> nat \<Rightarrow> string list \<Rightarrow> alert_db \<Rightarrow> alert_db" where
  "ack_alerts ax k [] adb = adb"
| "ack_alerts ax k (f # fs) adb =
     ack_alerts ax (Suc k) fs
       (snd (AcknowledgeAlert (ax_fails ax k) (ax_env ax) (ax_now ax) f
          (Some \<lparr>ac_userid = [], ac_username = ''System'', ac_display = [], ac_source = ''system''\<rparr>) adb))"

text \<open>\<open>msg\<close>: the note on the investigation. The newest investigation of the alert is resumed by its agent
  if that is connected, otherwise it is handed back to the queue.\<close>

definition reopenLinkedInvestigations ::
    "action_env \<Rightarrow> string \<Rightarrow> string \<Rightarrow> alert_db \<times> inv_db \<Rightarrow> action_effect list \<times> alert_db \<times> inv_db" where
  "reopenLinkedInvestigations ax fp msg s =
     (let (adb, db) = s
      in case GetByFingerprint (ax_fails ax 1) fp adb of
        Inl e \<Rightarrow> ([], adb, db)
      | Inr None \<Rightarrow> ([], adb, db)
      | Inr (Some rec) \<Rightarrow>
          (case ListAlertInvestigationsByAlertNumber (ar_number (re_alert rec)) db of
             [] \<Rightarrow> ([], adb, db)
           | i # _ \<Rightarrow>
               if \<not> IsReopenableInvestigationStatus (iv_status (ai_row i)) then ([], adb, db)
               else
                 let adb1 = ack_alerts ax 2 (if ai_alerts i = [] then [ar_fingerprint (re_alert rec)]
                                            else map ca_Fingerprint (ai_alerts i)) adb;
                     pk = ax_text ax (iv_id (ai_row i)); pub = iv_public (ai_row i); ag = iv_agent (ai_row i);
                     froms = InvestigationTerminalStatuses @ [''paused'']
                 in if ag \<noteq> [] \<and> ax_online ax ag then
                      (case TransitionAlertInvestigationStatus (ax_parse ax) (ax_now ax) pk froms ''investigating'' db of
                         (Inl e, db1) \<Rightarrow> ([], adb1, db1)
                       | (Inr u, db1) \<Rightarrow>
                           ([ResumeAgent ag pub], adb1,
                            snd (AddAlertInvestigationUpdate (ax_now ax) pub ''comment'' msg ''system'' True db1)))
                    else
                      (case UpdateAlertInvestigationAgent (ax_parse ax) pk [] [] [] db of
                         (Inl e, db1) \<Rightarrow> ([], adb1, db1)
                       | (Inr u, db1) \<Rightarrow>
                           (case TransitionAlertInvestigationStatus (ax_parse ax) (ax_now ax) pk froms ''pending'' db1 of
                              (Inl e, db2) \<Rightarrow> ([], adb1, db2)
                            | (Inr u, db2) \<Rightarrow>
                                ([NotifyPending], adb1,
                                 snd (AddAlertInvestigationUpdate (ax_now ax) pub ''comment'' msg ''system'' True db2))))))"

definition handleAlertReopen ::
    "action_env \<Rightarrow> string \<Rightarrow> string \<Rightarrow> action_actor option \<Rightarrow> alert_db \<times> inv_db
     \<Rightarrow> http_code option \<times> action_effect list \<times> alert_db \<times> inv_db" where
  "handleAlertReopen ax fp msg who s =
     (let (adb, db) = s
      in case who of
        None \<Rightarrow> (Some Unauthorized, [], adb, db)
      | Some a \<Rightarrow>
          (case ReopenAlert (ax_fails ax 0) (ax_env ax) (ax_now ax) fp
                  (AlertEventWithActor ''reopened'' (ax_now ax) (Some (aa_actor a))) adb of
             (Inl ErrAlertNotResolved, adb1) \<Rightarrow> (Some ValidationFailed, [], adb1, db)
           | (Inl e, adb1) \<Rightarrow> (Some InternalError, [], adb1, db)
           | (Inr u, adb1) \<Rightarrow>
               (let (effs, adb2, db2) = reopenLinkedInvestigations ax fp msg (adb1, db)
                in (None, Track fp # effs, adb2, db2))))"

end
