(* ===== verification/Investigation_Correct.thy ===== *)
theory Investigation_Correct
  imports Investigation_Actions
begin

text \<open>
  What alert investigations promise: well-formed tables with at most one current investigation per
  alert, one winner among agents that claim the same investigation, leases that hand back exactly the
  abandoned ones, completion exactly when every alert is resolved; and what reopening and assigning by
  hand really do.
\<close>

subsection \<open>The invariant\<close>

lemma links_ok_sorted: "links_ok ls \<longleftrightarrow> sorted_wrt (\<lambda>a b. \<not> link_clash a b) ls"
  by (induction ls) (auto simp: list_all_iff)

lemma links_ok_append:
  "links_ok (ls @ [l]) \<longleftrightarrow> links_ok ls \<and> (\<forall>m\<in>set ls. \<not> link_clash m l)"
  by (auto simp: links_ok_sorted sorted_wrt_append)

lemma links_ok_map:
  assumes "links_ok ls" "\<And>a b. link_clash (f a) (f b) \<Longrightarrow> link_clash a b"
  shows "links_ok (map f ls)"
  using assms by (auto simp: links_ok_sorted sorted_wrt_map elim: sorted_wrt_mono_rel [rotated])

lemma links_ok_filter: "links_ok ls \<Longrightarrow> links_ok (filter P ls)"
  by (simp add: links_ok_sorted sorted_wrt_filter)

text \<open>The tables are well formed: keys and public ids are unique, the CHECKs hold, current links do not
  clash, and links, updates and events belong to an existing row.\<close>

definition inv_wf :: "inv_db \<Rightarrow> bool" where
  "inv_wf db \<longleftrightarrow>
     distinct (map iv_id (id_rows db)) \<and> distinct (map iv_public (id_rows db)) \<and>
     (\<forall>r\<in>set (id_rows db). inv_checks r \<and> iv_id r < id_next db) \<and>
     links_ok (id_links db) \<and>
     (\<forall>l\<in>set (id_links db). lk_inv l \<in> iv_id ` set (id_rows db) \<and> lk_id l < id_next db) \<and>
     (\<forall>u\<in>set (id_updates db). up_inv u \<in> iv_id ` set (id_rows db)) \<and>
     (\<forall>e\<in>set (id_events db). ie_inv e \<in> iv_id ` set (id_rows db))"

lemma wf_links: "inv_wf db \<Longrightarrow> links_ok ls \<Longrightarrow>
    (\<forall>l\<in>set ls. lk_inv l \<in> iv_id ` set (id_rows db) \<and> lk_id l < id_next db) \<Longrightarrow>
    inv_wf (db\<lparr>id_links := ls\<rparr>)"
  by (simp add: inv_wf_def)

lemma wf_rows:
  assumes "inv_wf db" "\<And>r. iv_id (f r) = iv_id r \<and> iv_public (f r) = iv_public r"
    "\<And>r. r \<in> set (id_rows db) \<Longrightarrow> inv_checks (f r)"
  shows "inv_wf (db\<lparr>id_rows := map f (id_rows db)\<rparr>)"
proof -
  have "map iv_id (map f (id_rows db)) = map iv_id (id_rows db)"
    "map iv_public (map f (id_rows db)) = map iv_public (id_rows db)"
    "iv_id ` set (map f (id_rows db)) = iv_id ` set (id_rows db)"
    using assms(2) by (simp_all add: comp_def image_image)
  moreover have "\<forall>r\<in>set (map f (id_rows db)). inv_checks r \<and> iv_id r < id_next db"
    using assms by (simp add: inv_wf_def)
  ultimately show ?thesis using assms(1) by (simp add: inv_wf_def del: map_map set_map)
qed

lemma wf_update_rows:
  assumes "inv_wf db" "\<And>r. iv_id (f r) = iv_id r \<and> iv_public (f r) = iv_public r"
  shows "inv_wf (snd (update_rows P f db))"
proof (cases "list_all (\<lambda>r. P r \<longrightarrow> inv_checks (f r)) (id_rows db)")
  case True
  have "inv_wf (db\<lparr>id_rows := map (\<lambda>r. if P r then f r else r) (id_rows db)\<rparr>)"
    using assms True by (intro wf_rows) (auto simp: inv_wf_def list_all_iff)
  with True show ?thesis by (simp add: update_rows_def)
qed (simp add: update_rows_def assms(1))

lemma wf_createUpdate: "inv_wf db \<Longrightarrow> i \<in> iv_id ` set (id_rows db) \<Longrightarrow> inv_wf (createUpdate i ty m s b now db)"
  by (fastforce simp: inv_wf_def createUpdate_def)

lemma wf_createEvent: "inv_wf db \<Longrightarrow> ie_inv e \<in> iv_id ` set (id_rows db) \<Longrightarrow> inv_wf (createEvent e db)"
  by (simp add: inv_wf_def createEvent_def)

lemma find_id_SomeD: "find_id u db = Some r \<Longrightarrow> r \<in> set (id_rows db) \<and> iv_id r = u"
  by (auto simp: find_id_def find_Some_iff)

lemma find_public_SomeD: "find_public p db = Some r \<Longrightarrow> r \<in> set (id_rows db) \<and> iv_public r = p"
  by (auto simp: find_public_def find_Some_iff)

lemma find_id_Some: "inv_wf db \<Longrightarrow> r \<in> set (id_rows db) \<Longrightarrow> find_id (iv_id r) db = Some r"
proof -
  assume wf: "inv_wf db" and r: "r \<in> set (id_rows db)"
  then obtain r' where f: "find_id (iv_id r) db = Some r'"
    by (cases "find_id (iv_id r) db") (auto simp: find_id_def find_None_iff)
  from wf have "inj_on iv_id (set (id_rows db))" by (simp add: inv_wf_def distinct_map)
  with find_id_SomeD [OF f] r have "r' = r" by (auto dest: inj_onD)
  with f show ?thesis by simp
qed

lemma wf_retire: "inv_wf db \<Longrightarrow> inv_wf (retireLinks aids alerts db)"
proof -
  assume wf: "inv_wf db"
  let ?f = "\<lambda>l. if lk_current l \<and> List.member (remdups (map ca_AlertNumber (filter (\<lambda>a. ca_AlertNumber a > 0) alerts))) (ca_AlertNumber (lk_alert l)) \<or>
      (\<exists>k \<in> set (aids (remdups (map ca_AlertNumber (filter (\<lambda>a. ca_AlertNumber a > 0) alerts)))). lk_alert_id l = Some k)
    then l\<lparr>lk_current := False\<rparr> else l"
  have "links_ok (map ?f (id_links db))"
    using wf by (intro links_ok_map) (auto simp: inv_wf_def link_clash_def split: if_splits)
  then have "inv_wf (db\<lparr>id_links := map ?f (id_links db)\<rparr>)"
    by (rule wf_links [OF wf]) (use wf in \<open>auto simp: inv_wf_def\<close>)
  with wf show ?thesis by (simp add: retireLinks_def Let_def)
qed

lemma retire_fields [simp]:
  "id_rows (retireLinks aids alerts db) = id_rows db" "id_next (retireLinks aids alerts db) = id_next db"
  "id_updates (retireLinks aids alerts db) = id_updates db" "id_events (retireLinks aids alerts db) = id_events db"
  by (simp_all add: retireLinks_def Let_def)

lemma createLink_Inr:
  assumes "createAlertInvestigationAlert i a db = Inr db'"
  shows "id_rows db' = id_rows db \<and> id_next db' = Suc (id_next db) \<and> 0 \<le> ca_AlertNumber a \<and>
         id_updates db' = id_updates db \<and> id_events db' = id_events db \<and>
         id_links db' = id_links db @ [\<lparr>lk_id = id_next db, lk_inv = i, lk_alert_id = None, lk_alert = a, lk_current = True\<rparr>]"
  using assms by (auto simp: createAlertInvestigationAlert_def Let_def split: if_splits)

lemma wf_createLink:
  assumes "inv_wf db" "i \<in> iv_id ` set (id_rows db)" "createAlertInvestigationAlert i a db = Inr db'"
  shows "inv_wf db'"
proof -
  have "links_ok (id_links db')"
    using assms(3) by (auto simp: createAlertInvestigationAlert_def Let_def split: if_splits)
  with assms(1,2) createLink_Inr [OF assms(3)] show ?thesis
    by (auto simp: inv_wf_def less_Suc_eq)
qed

lemma wf_insert_links:
  "insert_links i as db = Inr db' \<Longrightarrow> inv_wf db \<Longrightarrow> i \<in> iv_id ` set (id_rows db) \<Longrightarrow>
   inv_wf db' \<and> id_rows db' = id_rows db \<and> list_all (\<lambda>a. 0 \<le> ca_AlertNumber a) as \<and>
   set (id_links db) \<subseteq> set (id_links db') \<and>
   (\<forall>a\<in>set as. \<exists>l\<in>set (id_links db'). lk_inv l = i \<and> lk_alert l = a \<and> lk_current l)"
proof (induction as arbitrary: db)
  case Nil
  then show ?case by simp
next
  case (Cons a as)
  from Cons.prems(1) obtain db1 where c: "createAlertInvestigationAlert i a db = Inr db1"
    and r: "insert_links i as db1 = Inr db'"
    by (auto split: sum.splits)
  note f = createLink_Inr [OF c]
  from Cons.IH [OF r wf_createLink [OF Cons.prems(2,3) c]] Cons.prems(3) f
  have ih: "inv_wf db' \<and> id_rows db' = id_rows db1 \<and> list_all (\<lambda>a. 0 \<le> ca_AlertNumber a) as \<and>
      set (id_links db1) \<subseteq> set (id_links db') \<and>
      (\<forall>a\<in>set as. \<exists>l\<in>set (id_links db'). lk_inv l = i \<and> lk_alert l = a \<and> lk_current l)" by simp
  let ?l = "\<lparr>lk_id = id_next db, lk_inv = i, lk_alert_id = None, lk_alert = a, lk_current = True\<rparr>"
  from ih f have "?l \<in> set (id_links db')" by auto
  then have "\<exists>l\<in>set (id_links db'). lk_inv l = i \<and> lk_alert l = a \<and> lk_current l" by force
  with ih f show ?case by auto
qed

lemma wf_append_new:
  "append_new aids i seen as db = Inr db' \<Longrightarrow> inv_wf db \<Longrightarrow> i \<in> iv_id ` set (id_rows db) \<Longrightarrow>
   inv_wf db' \<and> id_rows db' = id_rows db"
proof (induction as arbitrary: seen db)
  case Nil
  then show ?case by simp
next
  case (Cons a as)
  show ?case
  proof (cases "List.member seen (ca_Fingerprint a)")
    case True
    with Cons show ?thesis by simp
  next
    case False
    with Cons.prems(1) obtain db1 where c: "createAlertInvestigationAlert i a (retireLinks aids [a] db) = Inr db1"
      and r: "append_new aids i (ca_Fingerprint a # seen) as db1 = Inr db'"
      by (auto split: sum.splits)
    have "inv_wf db1" using c Cons.prems(2,3) by (intro wf_createLink [OF wf_retire [OF Cons.prems(2)] _ c]) simp
    with Cons.IH [OF r] createLink_Inr [OF c] Cons.prems(3) show ?thesis by simp
  qed
qed

lemma wf_new_row:
  assumes "inv_wf db" "inv_checks row" "iv_id row = id_next db" "find_public (iv_public row) db = None"
  shows "inv_wf (db\<lparr>id_rows := id_rows db @ [row], id_next := Suc (id_next db)\<rparr>)"
proof -
  have "iv_public row \<notin> iv_public ` set (id_rows db)"
    using assms(4) by (auto simp: find_public_def find_None_iff)
  moreover have "iv_id row \<notin> iv_id ` set (id_rows db)"
    using assms(1,3) by (fastforce simp: inv_wf_def)
  ultimately show ?thesis using assms(1,2,3) by (auto simp: inv_wf_def less_Suc_eq)
qed

lemma Create_cases:
  assumes "inv_wf db" "CreateAlertInvestigation aids now fresh r alerts db = (res, db')"
  shows "(\<exists>e. res = Inl e \<and> db' = db) \<or>
    (inv_wf db' \<and> id_rows db' = id_rows db @ [new_row now fresh r db] \<and>
     (\<forall>a\<in>set alerts. \<exists>l\<in>set (id_links db'). lk_inv l = id_next db \<and> lk_alert l = a \<and> lk_current l))"
proof -
  let ?row = "new_row now fresh r db"
  let ?db1 = "db\<lparr>id_rows := id_rows db @ [?row], id_next := Suc (id_next db)\<rparr>"
  have id: "iv_id ?row = id_next db" by (simp add: new_row_def)
  show ?thesis
  proof (cases "find_public (iv_public ?row) db = None \<and> inv_checks ?row")
    case True
    with wf_new_row [OF assms(1)] id have wf: "inv_wf ?db1" by simp
    show ?thesis
    proof (cases "insert_links (iv_id ?row) alerts (retireLinks aids alerts ?db1)")
      case (Inl e)
      with True assms(2) show ?thesis by (auto simp: CreateAlertInvestigation_def Let_def)
    next
      case (Inr db2)
      have "iv_id ?row \<in> iv_id ` set (id_rows (retireLinks aids alerts ?db1))" by simp
      from wf_insert_links [OF Inr wf_retire [OF wf] this] True assms(2) Inr id show ?thesis
        by (simp add: CreateAlertInvestigation_def Let_def)
    qed
  next
    case False
    with assms(2) show ?thesis by (auto simp: CreateAlertInvestigation_def Let_def split: if_splits)
  qed
qed

text \<open>The operations of the store that change its tables.\<close>

datatype inv_op =
    IoCreate instant string inv_row "correlated_alert list"
  | IoComplete instant string completion
  | IoRequeue instant string requeue
  | IoPromote instant string string string string
  | IoStatus string string
  | IoTransition instant string "string list" string
  | IoOutcome string "string option" "string option"
  | IoAgent string string string string
  | IoClaim instant string string string string int
  | IoAssignee string string "uuid option"
  | IoDelete string
  | IoExpire instant
  | IoRenew instant string int
  | IoExpireAgent instant string int
  | IoAppend string "correlated_alert list"
  | IoCurrent string bool
  | IoUpdate instant string string string string bool
  | IoMessage string string string
  | IoDeleteMessage string string
  | IoMMPost string string string
  | IoSlack string string string

fun run_inv_op ::
    "(int list \<Rightarrow> uuid list) \<Rightarrow> (string \<Rightarrow> uuid option) \<Rightarrow> inv_op \<Rightarrow> inv_db \<Rightarrow> inv_db" where
  "run_inv_op aids parse (IoCreate now fresh r alerts) db = snd (CreateAlertInvestigation aids now fresh r alerts db)"
| "run_inv_op aids parse (IoComplete now i c) db = snd (CompleteAlertInvestigation parse now i c db)"
| "run_inv_op aids parse (IoRequeue now i q) db = snd (RequeueAlertInvestigation parse now i q db)"
| "run_inv_op aids parse (IoPromote now i inc pi m) db = snd (MarkAlertInvestigationPromoted parse now i inc pi m db)"
| "run_inv_op aids parse (IoStatus i s) db = snd (UpdateAlertInvestigationStatus i s db)"
| "run_inv_op aids parse (IoTransition now i fs s) db = snd (TransitionAlertInvestigationStatus parse now i fs s db)"
| "run_inv_op aids parse (IoOutcome i a b) db = snd (PatchAlertInvestigationOutcome parse i a b db)"
| "run_inv_op aids parse (IoAgent i a n t) db = snd (UpdateAlertInvestigationAgent parse i a n t db)"
| "run_inv_op aids parse (IoClaim now i a n t l) db = snd (ClaimPendingAlertInvestigation parse now i a n t l db)"
| "run_inv_op aids parse (IoAssignee i t w) db = snd (SetAlertInvestigationAssignee parse i t w db)"
| "run_inv_op aids parse (IoDelete i) db = snd (DeleteAlertInvestigation i db)"
| "run_inv_op aids parse (IoExpire now) db = snd (ExpireAlertInvestigationLeases now db)"
| "run_inv_op aids parse (IoRenew now a l) db = RenewAlertInvestigationLeases now a l db"
| "run_inv_op aids parse (IoExpireAgent now a g) db = ExpireAlertInvestigationLeasesByAgent now a g db"
| "run_inv_op aids parse (IoAppend i alerts) db = snd (AppendAlertsToAlertInvestigation aids i alerts db)"
| "run_inv_op aids parse (IoCurrent i b) db = snd (MarkAlertInvestigationAlertsCurrent i b db)"
| "run_inv_op aids parse (IoUpdate now i ty m src b) db = snd (AddAlertInvestigationUpdate now i ty m src b db)"
| "run_inv_op aids parse (IoMessage i u m) db = snd (UpdateAlertInvestigationMessage parse i u m db)"
| "run_inv_op aids parse (IoDeleteMessage i u) db = snd (DeleteAlertInvestigationMessage parse i u db)"
| "run_inv_op aids parse (IoMMPost i u p) db = snd (SetAlertInvestigationUpdateMMPostID parse i u p db)"
| "run_inv_op aids parse (IoSlack i u p) db = snd (SetAlertInvestigationUpdateSlackMessageTS parse i u p db)"

lemma wf_on_row:
  "inv_wf db \<Longrightarrow> (\<And>u. parse i = Some u \<Longrightarrow> inv_wf (snd (f u))) \<Longrightarrow> inv_wf (snd (on_row parse i f db))"
  by (simp add: on_row_def split: option.split)

lemma wf_need_row:
  assumes "inv_wf db" "inv_wf (snd res)" "\<And>db1. db1 = snd res \<Longrightarrow> inv_wf db1 \<Longrightarrow> inv_wf (snd (k db1))"
  shows "inv_wf (snd (need_row e res k db))"
  using assms by (cases res) (auto simp: need_row_def split: sum.split)

lemma wf_map_prod: "inv_wf (snd res) \<Longrightarrow> inv_wf (snd (map_prod f id res))"
  by (cases res) simp

lemma update_rows_ids:
  assumes "\<And>r. iv_id (f r) = iv_id r"
  shows "iv_id ` set (id_rows (snd (update_rows P f db))) = iv_id ` set (id_rows db)"
proof -
  have "iv_id ` set (map (\<lambda>r. if P r then f r else r) rs) = iv_id ` set rs" for rs
    using assms by (induction rs) auto
  then show ?thesis by (simp add: update_rows_def del: set_map)
qed

lemma find_id_dom: "find_id u db = Some r \<Longrightarrow> iv_id r \<in> iv_id ` set (id_rows db)"
  by (auto dest: find_id_SomeD)

lemma wf_map_rows: "inv_wf db \<Longrightarrow> (\<And>r. iv_id (f r) = iv_id r \<and> iv_public (f r) = iv_public r) \<Longrightarrow>
    (\<And>r. inv_checks r \<Longrightarrow> inv_checks (f r)) \<Longrightarrow> inv_wf (db\<lparr>id_rows := map f (id_rows db)\<rparr>)"
  by (rule wf_rows) (auto simp: inv_wf_def)

lemma wf_map_updates:
  assumes "inv_wf db" "set us \<subseteq> {u. up_inv u \<in> iv_id ` set (id_rows db)}"
  shows "inv_wf (db\<lparr>id_updates := us\<rparr>)"
  using assms by (auto simp: inv_wf_def)

lemma wf_on_message:
  assumes "inv_wf db" "\<And>x y. f x = Some y \<Longrightarrow> up_inv y = up_inv x"
  shows "inv_wf (snd (on_message parse i upd f db))"
proof -
  have "set (List.map_filter (\<lambda>x. if P x then f x else Some x) (id_updates db)) \<subseteq> {u. up_inv u \<in> iv_id ` set (id_rows db)}" for P
    using assms by (auto simp: inv_wf_def map_filter_def split: if_splits)
  note us = wf_map_updates [OF assms(1) this]
  show ?thesis using assms(1) us by (simp add: on_message_def Let_def split: option.split)
qed

lemma wf_Complete: "inv_wf db \<Longrightarrow> inv_wf (snd (CompleteAlertInvestigation parse now i c db))"
  unfolding CompleteAlertInvestigation_def
proof (rule wf_on_row)
  fix u assume wf: "inv_wf db"
  let ?P = "\<lambda>r. iv_id r = u \<and> List.member [''pending'', ''assigned'', ''investigating'', ''paused''] (iv_status r)"
  let ?f = "\<lambda>r. r\<lparr>iv_status := ''complete'', iv_completed := Some now, iv_completed_reason := cp_reason c,
      iv_completed_type := cp_actor_type c, iv_completed_by := cp_actor_id c, iv_completed_name := cp_actor_name c\<rparr>"
  obtain e db1 where u: "update_rows ?P ?f db = (e, db1)" by (rule prod.exhaust)
  have "inv_wf db1" using wf_update_rows [OF wf, of ?f ?P] u by simp
  then have "find_id u db1 = Some r \<Longrightarrow> inv_wf (createEvent (agent_event r ty a b cc d now) db1)" for r ty a b cc d
    by (intro wf_createEvent) (auto simp: agent_event_def dest: find_id_dom)
  with wf u show "inv_wf (snd (case update_rows ?P ?f db of
      (Inl e, db1) \<Rightarrow> (Inl e, db)
    | (Inr n, db1) \<Rightarrow>
        if n = 0 then
          (case find_id u db of
             Some r \<Rightarrow> if IsTerminalStatus (iv_status r) then (Inr (), db) else (Inl InvNotFound, db)
           | None \<Rightarrow> (Inl InvNotFound, db))
        else (case find_id u db1 of
                None \<Rightarrow> (Inl InvNotFound, db)
              | Some r \<Rightarrow>
                  (Inr (), createEvent (agent_event r ''completed'' (cp_event_reason c) (cp_actor_type c)
                             (cp_actor_id c) (cp_actor_name c) now) db1))))"
    by (auto split: sum.split option.split)
qed

lemma wf_Requeue: "inv_wf db \<Longrightarrow> inv_wf (snd (RequeueAlertInvestigation parse now i q db))"
  unfolding RequeueAlertInvestigation_def
  by (intro wf_on_row wf_need_row wf_update_rows)
    (auto simp: Let_def agent_event_def split: option.split intro!: wf_createEvent dest: find_id_dom)

lemma wf_Promote: "inv_wf db \<Longrightarrow> inv_wf (snd (MarkAlertInvestigationPromoted parse now i inc pi m db))"
proof -
  assume wf: "inv_wf db"
  have "inv_wf (createUpdate (iv_id r) ty m s b now (snd (update_rows P f db)))"
    if "find_public i db = Some r" "\<And>x. iv_id (f x) = iv_id x \<and> iv_public (f x) = iv_public x" for r P f ty m s b
    using that by (intro wf_createUpdate wf_update_rows [OF wf])
      (auto simp: update_rows_ids dest: find_public_SomeD)
  from this [where f = "\<lambda>x. x\<lparr>iv_status := ''promoted'', iv_promoted := Some p, iv_promoted_inv := Some q\<rparr>" for p q]
  have *: "find_public i db = Some r \<Longrightarrow> inv_wf (createUpdate (iv_id r) ty m s b now (snd (update_rows P
      (\<lambda>x. x\<lparr>iv_status := ''promoted'', iv_promoted := Some p, iv_promoted_inv := Some q\<rparr>) db)))" for r P p q ty m s b
    by simp
  show ?thesis
    unfolding MarkAlertInvestigationPromoted_def Let_def
    apply (simp split: option.split prod.split sum.split add: wf)
    apply (metis "*" snd_conv)
    done
qed

lemma wf_Transition: "inv_wf db \<Longrightarrow> inv_wf (snd (TransitionAlertInvestigationStatus parse now i fs s db))"
  unfolding TransitionAlertInvestigationStatus_def
  by (intro wf_on_row wf_need_row wf_update_rows) (auto simp: transition_inv_row_def Let_def)

lemma wf_Status: "inv_wf db \<Longrightarrow> inv_wf (snd (UpdateAlertInvestigationStatus i s db))"
  unfolding UpdateAlertInvestigationStatus_def by (intro wf_need_row wf_update_rows) auto

lemma wf_Outcome: "inv_wf db \<Longrightarrow> inv_wf (snd (PatchAlertInvestigationOutcome parse i a b db))"
  unfolding PatchAlertInvestigationOutcome_def
  by (intro wf_on_row) (auto simp: Let_def split: option.split prod.split intro!: wf_map_prod wf_update_rows)

lemma wf_Agent: "inv_wf db \<Longrightarrow> inv_wf (snd (UpdateAlertInvestigationAgent parse i a n t db))"
  unfolding UpdateAlertInvestigationAgent_def by (intro wf_on_row wf_map_prod wf_update_rows) auto

lemma wf_Claim: "inv_wf db \<Longrightarrow> inv_wf (snd (ClaimPendingAlertInvestigation parse now i a n t l db))"
  unfolding ClaimPendingAlertInvestigation_def
  by (intro wf_on_row wf_need_row wf_update_rows) (auto split: option.split)

lemma wf_Assignee: "inv_wf db \<Longrightarrow> inv_wf (snd (SetAlertInvestigationAssignee parse i t w db))"
  unfolding SetAlertInvestigationAssignee_def by (intro wf_on_row wf_map_prod wf_update_rows) (auto simp: Let_def)

lemma wf_Delete: "inv_wf db \<Longrightarrow> inv_wf (snd (DeleteAlertInvestigation i db))"
proof (cases "find_public i db")
  case (Some r)
  assume wf: "inv_wf db"
  have "iv_id ` set (filter (\<lambda>x. iv_id x \<noteq> iv_id r) (id_rows db)) = iv_id ` set (id_rows db) - {iv_id r}"
    by auto
  with wf Some show ?thesis
    by (simp add: DeleteAlertInvestigation_def inv_wf_def distinct_map_filter links_ok_filter del: set_filter)
      (simp add: set_filter)
qed (simp add: DeleteAlertInvestigation_def)

lemma wf_Append: "inv_wf db \<Longrightarrow> inv_wf (snd (AppendAlertsToAlertInvestigation aids i alerts db))"
  by (auto simp: AppendAlertsToAlertInvestigation_def split: option.split sum.split
      dest: find_public_SomeD wf_append_new)

lemma wf_Current: "inv_wf db \<Longrightarrow> inv_wf (snd (MarkAlertInvestigationAlertsCurrent i b db))"
  by (auto simp: MarkAlertInvestigationAlertsCurrent_def Let_def inv_wf_def)

lemma wf_Update: "inv_wf db \<Longrightarrow> inv_wf (snd (AddAlertInvestigationUpdate now i ty m src b db))"
  by (auto simp: AddAlertInvestigationUpdate_def split: option.split intro!: wf_createUpdate dest: find_public_SomeD)

lemma wf_run_inv_op: "inv_wf db \<Longrightarrow> inv_wf (run_inv_op aids parse x db)"
proof (cases x)
  case (IoCreate now fresh r alerts)
  assume wf: "inv_wf db"
  from Create_cases [OF wf, of aids now fresh r alerts] IoCreate wf show ?thesis
    by (cases "CreateAlertInvestigation aids now fresh r alerts db") auto
next
  case (IoExpire now)
  assume "inv_wf db"
  then show ?thesis using IoExpire
    by (simp add: ExpireAlertInvestigationLeases_def Let_def) (rule wf_map_rows, auto simp: inv_checks_def inv_statuses_def)
next
  case (IoRenew now a l)
  assume "inv_wf db"
  then show ?thesis using IoRenew
    by (simp add: RenewAlertInvestigationLeases_def) (intro conjI impI wf_map_rows, auto simp: inv_checks_def)
next
  case (IoExpireAgent now a l)
  assume "inv_wf db"
  then show ?thesis using IoExpireAgent
    by (simp add: ExpireAlertInvestigationLeasesByAgent_def) (intro conjI impI wf_map_rows, auto simp: inv_checks_def)
qed (auto simp: wf_Complete wf_Requeue wf_Promote wf_Transition wf_Status wf_Outcome wf_Agent wf_Claim wf_Assignee
    wf_Delete wf_Append wf_Current wf_Update UpdateAlertInvestigationMessage_def
    DeleteAlertInvestigationMessage_def SetAlertInvestigationUpdateMMPostID_def
    SetAlertInvestigationUpdateSlackMessageTS_def intro!: wf_on_message)

subsection \<open>One current investigation per alert\<close>

lemma links_ok_unique:
  assumes "links_ok ls" "a \<in> set ls" "b \<in> set ls" "link_clash a b"
  shows "a = b"
  using assms
proof (induction ls)
  case (Cons l ls)
  have sym: "link_clash x y \<Longrightarrow> link_clash y x" for x y by (auto simp: link_clash_def)
  from Cons show ?case by (auto simp: list_all_iff dest: sym)
qed simp

lemma current_lookup:
  assumes "inv_wf db" "l \<in> set (id_links db)" "lk_current l" "0 < ca_AlertNumber (lk_alert l)"
  shows "\<exists>r\<in>set (id_rows db). iv_id r = lk_inv l \<and>
    GetCurrentAlertInvestigationByAlertNumber (ca_AlertNumber (lk_alert l)) db = Inr (toAlertInvestigationRecord db r)"
proof -
  let ?P = "\<lambda>m. ca_AlertNumber (lk_alert m) = ca_AlertNumber (lk_alert l) \<and> lk_current m"
  let ?ls = "rev (sort_key lk_id (filter ?P (id_links db)))"
  have all: "m = l" if "m \<in> set ?ls" for m
    using that assms links_ok_unique [of "id_links db" m l] by (auto simp: inv_wf_def link_clash_def)
  have "l \<in> set ?ls" using assms by simp
  then obtain m ms where ls: "?ls = m # ms" by (cases ?ls) auto
  then have "m \<in> set ?ls" by simp
  with all have "m = l" by blast
  obtain r where r: "r \<in> set (id_rows db)" "iv_id r = lk_inv l"
    using assms(1,2) by (auto simp: inv_wf_def)
  with find_id_Some [OF assms(1)] have "find_id (lk_inv l) db = Some r" by metis
  with ls \<open>m = l\<close> r show ?thesis by (auto simp: GetCurrentAlertInvestigationByAlertNumber_def)
qed

text \<open>The tables of alert investigations stay well formed under every operation of the store, in any order and
  with any arguments: ids are unique, statuses are known, links, updates and events belong to an
  investigation, and an alert has at most one current investigation. When a new investigation is created,
  it becomes the current one of each of its (numbered) alerts, whatever they were linked to before.\<close>

theorem investigations_well_formed:
  assumes "inv_wf db0" and "db = fold (run_inv_op aids parse) ops db0"
  shows "inv_wf db \<and>
    (case CreateAlertInvestigation aids now fresh r alerts db of
       (Inl e, db') \<Rightarrow> db' = db
     | (Inr res, db') \<Rightarrow>
         list_all (\<lambda>a. ca_AlertNumber a > 0 \<longrightarrow>
           (case GetCurrentAlertInvestigationByAlertNumber (ca_AlertNumber a) db' of
              Inr i \<Rightarrow> ai_row i = new_row now fresh r db
            | Inl e \<Rightarrow> False)) alerts)"
proof -
  have wf: "inv_wf db"
    unfolding assms(2) using assms(1) by (induction ops arbitrary: db0) (simp_all add: wf_run_inv_op)
  obtain res db' where c: "CreateAlertInvestigation aids now fresh r alerts db = (res, db')" by (rule prod.exhaust)
  show ?thesis
  proof (cases res)
    case (Inl e)
    with c show ?thesis using wf Create_cases [OF wf c]
      by (auto simp: CreateAlertInvestigation_def Let_def split: if_splits sum.splits)
  next
    case (Inr x)
    with Create_cases [OF wf c] have n: "inv_wf db'" "id_rows db' = id_rows db @ [new_row now fresh r db]"
      "\<forall>a\<in>set alerts. \<exists>l\<in>set (id_links db'). lk_inv l = id_next db \<and> lk_alert l = a \<and> lk_current l" by auto
    have "case GetCurrentAlertInvestigationByAlertNumber (ca_AlertNumber a) db' of
        Inr i \<Rightarrow> ai_row i = new_row now fresh r db | Inl e \<Rightarrow> False" if a: "a \<in> set alerts" "ca_AlertNumber a > 0" for a
    proof -
      from n(3) a obtain l where l: "l \<in> set (id_links db')" "lk_inv l = id_next db" "lk_alert l = a" "lk_current l" by blast
      from current_lookup [OF n(1) l(1,4)] l a obtain x where x: "x \<in> set (id_rows db')" "iv_id x = id_next db"
        "GetCurrentAlertInvestigationByAlertNumber (ca_AlertNumber a) db' = Inr (toAlertInvestigationRecord db' x)" by auto
      have "x = new_row now fresh r db"
        using x(1,2) n(2) wf by (auto simp: inv_wf_def)
      with x(3) show ?thesis by (simp add: toAlertInvestigationRecord_def)
    qed
    with wf c Inr show ?thesis by (simp add: list_all_iff)
  qed
qed

definition empty_inv_db :: inv_db where
  "empty_inv_db = \<lparr>id_rows = [], id_links = [], id_updates = [], id_events = [], id_next = 1\<rparr>"

definition blank_row :: inv_row where
  "blank_row =
     \<lparr>iv_id = 0, iv_public = [], iv_key = ''CPU'', iv_status = [], iv_agent = [], iv_agent_name = [],
      iv_agent_type = [], iv_primary_fp = [], iv_primary_number = 0, iv_assignee_type = [], iv_assignee = None,
      iv_promoted = None, iv_promoted_inv = None, iv_slack_channel = [], iv_slack_thread = [],
      iv_mm_thread = [], iv_summary = None, iv_created = 0, iv_started = None, iv_lease = None,
      iv_completed = None, iv_completed_reason = [], iv_completed_type = [], iv_completed_by = [],
      iv_completed_name = []\<rparr>"

definition some_alert :: "string \<Rightarrow> int \<Rightarrow> correlated_alert" where
  "some_alert fp n =
     \<lparr>ca_Fingerprint = fp, ca_AlertNumber = n, ca_Labels = [], ca_Annotations = [], ca_Status = ''firing'',
      ca_StartsAt = [], ca_Values = [], ca_GeneratorURL = []\<rparr>"

lemma empty_inv_wf: "inv_wf empty_inv_db"
  by (simp add: inv_wf_def empty_inv_db_def)

theorem investigations_well_formed_witness:
  "inv_wf (fold (run_inv_op (\<lambda>ns. []) (\<lambda>i. Some 1))
     [IoCreate 5 ''a'' blank_row [some_alert ''f'' 7], IoClaim 6 ''x'' ''bob'' [] [] 10, IoExpire 20] empty_inv_db)"
  using investigations_well_formed [OF empty_inv_wf refl, of "\<lambda>ns. []" "\<lambda>i. Some 1"] by blast

subsection \<open>Claims\<close>

fun claims :: "(string \<Rightarrow> uuid option) \<Rightarrow> string \<Rightarrow> (instant \<times> string) list \<Rightarrow> inv_db \<Rightarrow> bool list \<times> inv_db" where
  "claims parse i [] db = ([], db)"
| "claims parse i ((now, ag) # cs) db =
     (let (res, db1) = ClaimPendingAlertInvestigation parse now i ag ag [] 0 db;
          (won, db2) = claims parse i cs db1
      in ((\<not> isl res) # won, db2))"

lemma update_rows_find:
  assumes "inv_wf db" "r \<in> set (id_rows db)" "\<And>x. iv_id (f x) = iv_id x \<and> iv_public (f x) = iv_public x"
    "inv_checks (f r)" "P r" "\<And>x. P x \<Longrightarrow> iv_id x = iv_id r"
  shows "update_rows P f db = (Inr 1, db\<lparr>id_rows := map (\<lambda>x. if iv_id x = iv_id r then f x else x) (id_rows db)\<rparr>)"
    "find_id (iv_id r) (db\<lparr>id_rows := map (\<lambda>x. if iv_id x = iv_id r then f x else x) (id_rows db)\<rparr>) = Some (f r)"
proof -
  have uniq: "x = r" if "x \<in> set (id_rows db)" "iv_id x = iv_id r" for x
    using that assms(1,2) by (auto simp: inv_wf_def distinct_map dest: inj_onD)
  have P: "P x \<longleftrightarrow> iv_id x = iv_id r" if "x \<in> set (id_rows db)" for x
    using that uniq assms(5,6) by blast
  have d: "distinct (map iv_id (id_rows db))" using assms(1) by (simp add: inv_wf_def)
  have "filter P (id_rows db) = filter (\<lambda>x. iv_id x = iv_id r) (id_rows db)"
    using P by (intro filter_cong) auto
  moreover have "length (filter (\<lambda>x. iv_id x = iv_id r) rs) = 1"
    if "distinct (map iv_id rs)" "r \<in> set rs" for rs
    using that by (induction rs) (auto simp: filter_empty_conv image_iff)
  ultimately have n: "length (filter P (id_rows db)) = 1" using d assms(2) by simp
  have ok: "list_all (\<lambda>x. P x \<longrightarrow> inv_checks (f x)) (id_rows db)"
    using P uniq assms(4) by (auto simp: list_all_iff)
  have m: "map (\<lambda>x. if P x then f x else x) (id_rows db) = map (\<lambda>x. if iv_id x = iv_id r then f x else x) (id_rows db)"
    using P by simp
  show u: "update_rows P f db = (Inr 1, db\<lparr>id_rows := map (\<lambda>x. if iv_id x = iv_id r then f x else x) (id_rows db)\<rparr>)"
    using n ok m by (simp add: update_rows_def)
  have "inv_wf (db\<lparr>id_rows := map (\<lambda>x. if iv_id x = iv_id r then f x else x) (id_rows db)\<rparr>)"
    using wf_update_rows [OF assms(1,3), of P] u by simp
  from find_id_Some [OF this, of "f r"] assms(2,3)
  show "find_id (iv_id r) (db\<lparr>id_rows := map (\<lambda>x. if iv_id x = iv_id r then f x else x) (id_rows db)\<rparr>) = Some (f r)"
    by force
qed

lemma find_id_row: "find_id u db = Some r \<Longrightarrow> r \<in> set (id_rows db)"
  by (auto dest: find_id_SomeD)

lemma claim_lost:
  assumes "inv_wf db" "parse i = Some u" "find_id u db = Some r" "iv_status r \<noteq> ''pending''"
  shows "ClaimPendingAlertInvestigation parse now i ag nm ty l db = (Inl InvNotFound, db)"
proof -
  let ?P = "\<lambda>x. iv_id x = u \<and> iv_status x = ''pending''"
  have "\<not> ?P x" if "x \<in> set (id_rows db)" for x
    using find_id_Some [OF assms(1) that] assms(3,4) by auto
  then have "filter ?P (id_rows db) = []" "list_all (\<lambda>x. ?P x \<longrightarrow> Q x) (id_rows db)" for Q
    by (auto simp: filter_empty_conv list_all_iff)
  then show ?thesis
    using assms(2) by (simp add: ClaimPendingAlertInvestigation_def on_row_def need_row_def update_rows_def)
qed

text \<open>Racing claims. When several schedulers claim one pending investigation for their agents, in whatever
  order their updates reach the database, exactly the first claim wins; the investigation ends up assigned
  to that agent with its lease, and every later claim fails and changes nothing.\<close>

theorem claim_single_winner:
  assumes "inv_wf db" "parse i = Some u" "find_id u db = Some r" "iv_status r = ''pending''"
    and "claims parse i ((now, ag) # cs) db = (won, db')"
  shows "won = True # map (\<lambda>c. False) cs \<and>
    (case find_id u db' of
       None \<Rightarrow> False
     | Some r' \<Rightarrow> iv_status r' = ''assigned'' \<and> iv_agent r' = ag \<and> iv_started r' = Some now \<and>
         iv_lease r' = Some (now + 10 * go_minute) \<and> iv_created r' = iv_created r)"
proof -
  let ?f = "\<lambda>r. r\<lparr>iv_status := ''assigned'', iv_agent := ag, iv_agent_name := ag, iv_agent_type := [],
      iv_started := Some now, iv_lease := Some (now + 10 * go_minute)\<rparr>"
  have r: "r \<in> set (id_rows db)" "iv_id r = u" using find_id_SomeD [OF assms(3)] by auto
  have "inv_checks (?f r)" using assms(1) r by (auto simp: inv_wf_def inv_checks_def inv_statuses_def)
  note up = update_rows_find [OF assms(1) r(1), of ?f "\<lambda>x. iv_id x = u \<and> iv_status x = ''pending''"]
  define db1 where "db1 = db\<lparr>id_rows := map (\<lambda>x. if iv_id x = iv_id r then ?f x else x) (id_rows db)\<rparr>"
  have u1: "update_rows (\<lambda>x. iv_id x = u \<and> iv_status x = ''pending'') ?f db = (Inr 1, db1)"
    and f1: "find_id u db1 = Some (?f r)"
    using up \<open>inv_checks (?f r)\<close> assms(4) r(2) by (simp_all add: db1_def)
  have first: "ClaimPendingAlertInvestigation parse now i ag ag [] 0 db =
      (Inr (toAlertInvestigationRecord db1 (?f r)), db1)"
    using assms(2) u1 f1 by (simp add: ClaimPendingAlertInvestigation_def on_row_def need_row_def)
  have wf1: "inv_wf db1" using wf_Claim [OF assms(1), of parse now i ag ag "[]" 0] first by simp
  have "claims parse i cs db1 = (map (\<lambda>c. False) cs, db1)"
  proof (induction cs)
    case (Cons c cs)
    obtain t a where c: "c = (t, a)" by (rule prod.exhaust)
    have "ClaimPendingAlertInvestigation parse t i a a [] 0 db1 = (Inl InvNotFound, db1)"
      by (rule claim_lost [where parse = parse and i = i, OF wf1 assms(2) f1]) simp
    with Cons.IH show ?case by (simp add: c)
  qed simp
  with assms(5) first f1 show ?thesis by (simp del: One_nat_def)
qed

theorem claim_single_winner_witness:
  "fst (claims (\<lambda>i. Some 1) ''x'' [(6, ''bob''), (6, ''eve'')]
     (run_inv_op (\<lambda>ns. []) (\<lambda>i. Some 1) (IoCreate 5 ''a'' blank_row []) empty_inv_db)) = [True, False]"
proof -
  define db where "db = run_inv_op (\<lambda>ns. []) (\<lambda>i. Some 1) (IoCreate 5 ''a'' blank_row []) empty_inv_db"
  have rows: "id_rows db = [new_row 5 ''a'' blank_row empty_inv_db]"
    by (simp add: db_def CreateAlertInvestigation_def Let_def new_row_def blank_row_def empty_inv_db_def
        find_public_def inv_checks_def inv_statuses_def retireLinks_def)
  have wf: "inv_wf db" unfolding db_def by (rule wf_run_inv_op [OF empty_inv_wf])
  have f: "find_id 1 db = Some (new_row 5 ''a'' blank_row empty_inv_db)"
    by (simp add: find_id_def rows) (simp add: new_row_def empty_inv_db_def)
  have s: "iv_status (new_row 5 ''a'' blank_row empty_inv_db) = ''pending''" by (simp add: new_row_def blank_row_def)
  obtain won db' where c: "claims (\<lambda>i. Some 1) ''x'' [(6, ''bob''), (6, ''eve'')] db = (won, db')" by (rule prod.exhaust)
  have "(\<lambda>i::string. Some (1::uuid)) ''x'' = Some 1" by simp
  from claim_single_winner [where parse = "\<lambda>i. Some 1" and i = "''x''", OF wf this f s c] c show ?thesis by (simp add: db_def)
qed

subsection \<open>Leases\<close>

definition lapsed :: "instant \<Rightarrow> inv_row \<Rightarrow> bool" where
  "lapsed now r \<longleftrightarrow> (iv_status r = ''assigned'' \<or> iv_status r = ''investigating'') \<and> \<not> leased now r"

definition handed_back :: "inv_row \<Rightarrow> inv_row" where
  "handed_back r = r\<lparr>iv_status := ''pending'', iv_agent := [], iv_agent_name := [], iv_agent_type := [],
     iv_started := None, iv_lease := None\<rparr>"

lemma expire_eq:
  "ExpireAlertInvestigationLeases now db =
     (map iv_public (filter (lapsed now) (id_rows db)),
      db\<lparr>id_rows := map (\<lambda>r. if lapsed now r then handed_back r else r) (id_rows db)\<rparr>)"
proof -
  have "(\<lambda>r. List.member [''assigned'', ''investigating''] (iv_status r) \<and> \<not> leased now r) = lapsed now"
    by (rule ext) (auto simp: lapsed_def)
  then show ?thesis by (simp add: ExpireAlertInvestigationLeases_def Let_def handed_back_def)
qed

lemma not_lapsed_handed_back [simp]: "\<not> lapsed now (handed_back r)"
  by (simp add: lapsed_def handed_back_def)

text \<open>The lease sweep hands back exactly the assigned and investigating investigations whose lease has
  lapsed, naming each of them, and a second sweep finds nothing. An agent that renews its leases keeps
  what it investigates through every sweep up to the new lease, and an agent that disconnected keeps it
  for the grace period only.\<close>

theorem lease_sweep_exact:
  assumes "ExpireAlertInvestigationLeases now db = (ids, db')"
  shows "ids = map iv_public (filter (lapsed now) (id_rows db)) \<and>
    id_rows db' = map (\<lambda>r. if lapsed now r then handed_back r else r) (id_rows db) \<and>
    ExpireAlertInvestigationLeases now db' = ([], db') \<and>
    (let lease = (if l \<le> 0 then 10 * go_minute else l);
         renewed = RenewAlertInvestigationLeases t ag l db;
         dropped = ExpireAlertInvestigationLeasesByAgent t ag g db
     in (t \<le> now \<and> now \<le> t + lease \<longrightarrow>
           list_all2 (\<lambda>r r'. iv_agent r = ag \<and> iv_status r = ''investigating'' \<longrightarrow> r' = r\<lparr>iv_lease := Some (t + lease)\<rparr>)
             (id_rows db) (id_rows (snd (ExpireAlertInvestigationLeases now renewed)))) \<and>
        (t + g < now \<and> 0 \<le> g \<longrightarrow>
           list_all2 (\<lambda>r r'. iv_agent r = ag \<and> (iv_status r = ''investigating'' \<or> iv_status r = ''assigned'')
               \<longrightarrow> r' = handed_back r)
             (id_rows db) (id_rows (snd (ExpireAlertInvestigationLeases now dropped)))))"
proof -
  have e: "ids = map iv_public (filter (lapsed now) (id_rows db))"
    "db' = db\<lparr>id_rows := map (\<lambda>r. if lapsed now r then handed_back r else r) (id_rows db)\<rparr>"
    using assms by (simp_all add: expire_eq)
  have twice: "ExpireAlertInvestigationLeases now db' = ([], db')"
    by (auto simp: expire_eq e(2) filter_empty_conv)
  have renew: "list_all2 (\<lambda>r r'. iv_agent r = ag \<and> iv_status r = ''investigating'' \<longrightarrow> r' = r\<lparr>iv_lease := Some (t + lease)\<rparr>)
      (id_rows db) (id_rows (snd (ExpireAlertInvestigationLeases now (RenewAlertInvestigationLeases t ag l db))))"
    if "now \<le> t + lease" "lease = (if l \<le> 0 then 10 * go_minute else l)" for lease
    using that unfolding expire_eq RenewAlertInvestigationLeases_def
    by (auto simp: list_all2_map2 list_all2_same lapsed_def leased_def)
  have drop: "list_all2 (\<lambda>r r'. iv_agent r = ag \<and> (iv_status r = ''investigating'' \<or> iv_status r = ''assigned'')
        \<longrightarrow> r' = handed_back r) (id_rows db)
      (id_rows (snd (ExpireAlertInvestigationLeases now (ExpireAlertInvestigationLeasesByAgent t ag g db))))"
    if "t + g < now" "0 \<le> g"
    using that unfolding expire_eq ExpireAlertInvestigationLeasesByAgent_def
    by (auto simp add: list_all2_map2 list_all2_same lapsed_def leased_def handed_back_def)
  show ?thesis using e twice renew drop by (simp add: Let_def)
qed

theorem lease_sweep_exact_witness:
  "let db = empty_inv_db\<lparr>id_rows := [blank_row\<lparr>iv_public := ''x'', iv_status := ''assigned'', iv_lease := Some 5\<rparr>]\<rparr>
   in fst (ExpireAlertInvestigationLeases 6 db) = [''x'']"
proof -
  define db where "db = empty_inv_db\<lparr>id_rows := [blank_row\<lparr>iv_public := ''x'', iv_status := ''assigned'', iv_lease := Some 5\<rparr>]\<rparr>"
  obtain ids db' where e: "ExpireAlertInvestigationLeases 6 db = (ids, db')" by (rule prod.exhaust)
  from lease_sweep_exact [OF e, of 0 0 "[]" 0] e show ?thesis
    by (simp add: db_def [symmetric] Let_def) (simp add: db_def lapsed_def leased_def)
qed

subsection \<open>Reopening and assigning\<close>

lemma transition_Inr:
  assumes "inv_wf db" "parse i = Some u" "find_id u db = Some r" "froms = [] \<or> List.member froms (iv_status r)"
    "List.member inv_statuses s"
  shows "TransitionAlertInvestigationStatus parse now i froms s db =
     (Inr (), db\<lparr>id_rows := map (\<lambda>x. if iv_id x = u then transition_inv_row now s x else x) (id_rows db)\<rparr>)"
proof -
  have r: "r \<in> set (id_rows db)" "iv_id r = u" using find_id_SomeD [OF assms(3)] by auto
  have "inv_checks (transition_inv_row now s r)"
    using assms(1,5) r by (auto simp: inv_wf_def inv_checks_def transition_inv_row_def Let_def)
  with update_rows_find(1) [OF assms(1) r(1), of "transition_inv_row now s"
      "\<lambda>x. iv_id x = u \<and> (froms = [] \<or> List.member froms (iv_status x))"] assms(2,4) r(2)
  show ?thesis
    by (simp add: TransitionAlertInvestigationStatus_def on_row_def need_row_def transition_inv_row_def Let_def)
qed

text \<open>Reopening an alert whose investigation has ended resumes the investigation with the agent it had, but
  keeps the lease of the first dispatch. When that has lapsed, the next sweep takes the investigation
  away from the agent that was just told to resume it.\<close>

theorem reopened_investigation_swept:
  assumes "inv_wf db" and "\<And>u. ax_parse ax (ax_text ax u) = Some u"
    and "GetByFingerprint (ax_fails ax 1) fp adb = Inr (Some rec)"
    and "ListAlertInvestigationsByAlertNumber (ar_number (re_alert rec)) db = i # older"
    and "r \<in> set (id_rows db)" and "ai_row i = r"
    and "IsReopenableInvestigationStatus (iv_status r)"
    and "iv_agent r \<noteq> []" and "ax_online ax (iv_agent r)"
    and "iv_lease r = Some t" and "t < now'"
  shows "case reopenLinkedInvestigations ax fp msg (adb, db) of (effs, adb1, db1) \<Rightarrow>
    effs = [ResumeAgent (iv_agent r) (iv_public r)] \<and>
    (case find_id (iv_id r) db1 of
       None \<Rightarrow> False
     | Some r1 \<Rightarrow> iv_status r1 = ''investigating'' \<and> iv_agent r1 = iv_agent r \<and> iv_completed r1 = iv_completed r) \<and>
    (case ExpireAlertInvestigationLeases now' db1 of (ids, db2) \<Rightarrow>
       List.member ids (iv_public r) \<and>
       (case find_id (iv_id r) db2 of
          None \<Rightarrow> False
        | Some r2 \<Rightarrow> iv_status r2 = ''pending'' \<and> iv_agent r2 = []))"
proof -
  let ?u = "iv_id r"
  have fr: "find_id ?u db = Some r" by (rule find_id_Some [OF assms(1,5)])
  have froms: "List.member (InvestigationTerminalStatuses @ [''paused'']) (iv_status r)"
    using assms(7) by (auto simp: IsReopenableInvestigationStatus_def reopenableStatuses_def InvestigationTerminalStatuses_def)
  define db1 where "db1 = db\<lparr>id_rows := map (\<lambda>x. if iv_id x = ?u then transition_inv_row (ax_now ax) ''investigating'' x else x) (id_rows db)\<rparr>"
  have tr: "TransitionAlertInvestigationStatus (ax_parse ax) (ax_now ax) (ax_text ax ?u)
      (InvestigationTerminalStatuses @ [''paused'']) ''investigating'' db = (Inr (), db1)"
    unfolding db1_def
    by (rule transition_Inr [where parse = "ax_parse ax" and i = "ax_text ax (iv_id r)", OF assms(1) assms(2) fr disjI2 [OF froms]])
      (simp add: inv_statuses_def)
  define db2 where "db2 = snd (AddAlertInvestigationUpdate (ax_now ax) (iv_public r) ''comment'' msg ''system'' True db1)"
  have run: "\<exists>adb1. reopenLinkedInvestigations ax fp msg (adb, db) = ([ResumeAgent (iv_agent r) (iv_public r)], adb1, db2)"
    using assms(3,4,6,7,8,9) tr by (simp add: reopenLinkedInvestigations_def Let_def db2_def)
  have wf2: "inv_wf db2"
    using wf_Update wf_Transition [OF assms(1)] tr unfolding db2_def by (metis snd_conv)
  have rows: "id_rows db2 = id_rows db1"
    by (simp add: db2_def AddAlertInvestigationUpdate_def createUpdate_def split: option.split)
  let ?r1 = "transition_inv_row (ax_now ax) ''investigating'' r"
  have r1: "?r1 \<in> set (id_rows db2)" "iv_id ?r1 = ?u" "iv_public ?r1 = iv_public r" "iv_lease ?r1 = Some t"
    "iv_status ?r1 = ''investigating''" "iv_agent ?r1 = iv_agent r" "iv_completed ?r1 = iv_completed r"
    using assms(5,10) by (auto simp: rows db1_def transition_inv_row_def Let_def)
  have f2: "find_id ?u db2 = Some ?r1" using find_id_Some [OF wf2 r1(1)] r1(2) by simp
  have l: "lapsed now' ?r1" using r1 assms(11) by (simp add: lapsed_def leased_def)
  define db3 where "db3 = snd (ExpireAlertInvestigationLeases now' db2)"
  have wf3: "inv_wf db3" using wf_run_inv_op [OF wf2, of _ _ "IoExpire now'"] by (simp add: db3_def)
  have "handed_back ?r1 \<in> set (id_rows db3)" "iv_id (handed_back ?r1) = ?u"
    using r1 l by (auto simp: db3_def expire_eq handed_back_def)
  with find_id_Some [OF wf3 this(1)] have f3: "find_id ?u db3 = Some (handed_back ?r1)" by simp
  have "iv_public r \<in> set (fst (ExpireAlertInvestigationLeases now' db2))"
    using imageI [of ?r1 "set (filter (lapsed now') (id_rows db2))" iv_public] r1(1,3) l by (simp add: expire_eq)
  with run f2 f3 r1 show ?thesis
    by (auto simp: case_prod_beta db3_def handed_back_def)
qed

text \<open>Assigning by hand writes the status by the primary key where the store expects the public id. As long
  as no public id is the text of a primary key, the handler changes no status at all: an investigation
  given to a user stays pending, and the next claim hands it to an agent. A request for an unknown
  investigation dereferences a nil record.\<close>

theorem assign_changes_no_status:
  assumes "list_all (\<lambda>x. list_all (\<lambda>r. iv_public x \<noteq> ax_text ax (iv_id r)) (id_rows db)) (id_rows db)"
    and "handleAlertInvestigationAssign ax rq db = (res, db')"
  shows "map iv_status (id_rows db') = map iv_status (id_rows db) \<and>
    (rq_permitted rq \<and> rq_store rq \<and> rq_id rq \<noteq> [] \<and> rq_body rq = Some (''agent'', []) \<and>
     GetAlertInvestigation (rq_id rq) db = None \<longrightarrow> res = AssignPanic)"
proof -
  have set: "map iv_status (id_rows (snd (SetAlertInvestigationAssignee parse pk ty who db))) = map iv_status (id_rows db) \<and>
      map iv_public (id_rows (snd (SetAlertInvestigationAssignee parse pk ty who db))) = map iv_public (id_rows db)"
    for parse pk ty who
    by (auto simp: SetAlertInvestigationAssignee_def on_row_def update_rows_def Let_def split: option.split)
  have stat: "snd (UpdateAlertInvestigationStatus pk s db1) = db1"
    if "pk \<notin> set (map iv_public (id_rows db1))" for pk s db1
  proof -
    have "filter (\<lambda>r. iv_public r = pk) (id_rows db1) = []" using that by (auto simp: filter_empty_conv)
    then show ?thesis by (simp add: UpdateAlertInvestigationStatus_def need_row_def update_rows_def)
  qed
  have fresh: "ax_text ax (iv_id (ai_row i)) \<notin> set (map iv_public (id_rows db))"
    if "GetAlertInvestigation (rq_id rq) db = Some i" for i
  proof -
    from that obtain z where "find_public (rq_id rq) db = Some z" "ai_row i = z"
      by (auto simp: GetAlertInvestigation_def toAlertInvestigationRecord_def)
    with find_public_SomeD have "ai_row i \<in> set (id_rows db)" by blast
    with assms(1) show ?thesis by (fastforce simp: list_all_iff)
  qed
  have "map iv_status (id_rows db') = map iv_status (id_rows db)"
  proof (cases "GetAlertInvestigation (rq_id rq) db")
    case None
    then have "db' = db" using assms(2)
      by (auto simp: handleAlertInvestigationAssign_def split: if_splits option.splits sum.splits)
    then show ?thesis by simp
  next
    case (Some i)
    have one: "map iv_status (id_rows (snd (assign_commit ax (rq_id rq) i ty target db))) = map iv_status (id_rows db)" for ty target
      using set [of "ax_parse ax" "ax_text ax (iv_id (ai_row i))" ty target] fresh [OF Some]
        stat [of "ax_text ax (iv_id (ai_row i))" "snd (SetAlertInvestigationAssignee (ax_parse ax) (ax_text ax (iv_id (ai_row i))) ty target db)"]
      by (auto simp: assign_commit_def Let_def case_prod_beta split: sum.split)
    have "snd (handleAlertInvestigationAssign ax rq db) = db \<or>
        (\<exists>ty target. snd (handleAlertInvestigationAssign ax rq db) = snd (assign_commit ax (rq_id rq) i ty target db))"
      unfolding handleAlertInvestigationAssign_def Some
      by (simp split: option.split prod.split sum.split) blast
    with one have "map iv_status (id_rows (snd (handleAlertInvestigationAssign ax rq db))) = map iv_status (id_rows db)"
      by auto
    with assms(2) show ?thesis by simp
  qed
  with assms(2) show ?thesis by (auto simp: handleAlertInvestigationAssign_def assign_target_def)
qed

text \<open>An investigation of the agent bob, dispatched at 6 with a lease to 16 and completed.\<close>

definition bobs_row :: inv_row where
  "bobs_row = blank_row\<lparr>iv_id := 1, iv_public := ''x'', iv_status := ''complete'', iv_assignee_type := ''agent'',
     iv_agent := ''bob'', iv_started := Some 6, iv_lease := Some 16, iv_completed := Some 9\<rparr>"

definition bobs_db :: inv_db where
  "bobs_db = \<lparr>id_rows = [bobs_row],
     id_links = [\<lparr>lk_id = 2, lk_inv = 1, lk_alert_id = None, lk_alert = some_alert ''f'' 7, lk_current = True\<rparr>],
     id_updates = [], id_events = [], id_next = 3\<rparr>"

definition demo_ax :: action_env where
  "demo_ax = \<lparr>ax_fails = \<lambda>k j. False, ax_env = \<lambda>db. db, ax_parse = \<lambda>s. Some (length s),
     ax_text = \<lambda>u. replicate u CHR ''u'', ax_online = \<lambda>a. True, ax_now = 20\<rparr>"

definition fired_row :: alert_row where
  "fired_row = \<lparr>ar_id = 4, ar_number = 7, ar_fingerprint = ''f'', ar_status = ''firing'', ar_acknowledged = False,
     ar_silenced = False, ar_labels = [], ar_annotations = [], ar_values = [], ar_starts = 1, ar_ends = None,
     ar_generator = [], ar_created = 1, ar_updated = 1, ar_deleted = None\<rparr>"

definition fired_db :: alert_db where
  "fired_db = \<lparr>db_alerts = [fired_row], db_events = [], db_targets = [], db_links = []\<rparr>"

lemma bobs_wf: "inv_wf bobs_db"
  by (simp add: inv_wf_def bobs_db_def bobs_row_def blank_row_def inv_checks_def inv_statuses_def)

lemma fired_found: "GetByFingerprint (\<lambda>j. False) ''f'' fired_db = Inr (Some (toAlertRecord fired_db fired_row))"
  by (simp add: GetByFingerprint_def fired_db_def fired_row_def lookup_result_def)

lemma fired_number: "ar_number (re_alert (toAlertRecord fired_db fired_row)) = 7"
  by (simp add: toAlertRecord_def buildAlertRecord_def fired_row_def)

theorem reopened_investigation_swept_witness:
  "case reopenLinkedInvestigations demo_ax ''f'' ''reopened'' (fired_db, bobs_db) of (effs, adb1, db1) \<Rightarrow>
     effs = [ResumeAgent ''bob'' ''x''] \<and> List.member (fst (ExpireAlertInvestigationLeases 21 db1)) ''x''"
proof -
  have p: "ax_parse demo_ax (ax_text demo_ax u) = Some u" for u by (simp add: demo_ax_def)
  have g: "GetByFingerprint (ax_fails demo_ax 1) ''f'' fired_db = Inr (Some (toAlertRecord fired_db fired_row))"
    using fired_found by (simp add: demo_ax_def)
  have l: "ListAlertInvestigationsByAlertNumber (ar_number (re_alert (toAlertRecord fired_db fired_row))) bobs_db =
      toAlertInvestigationRecord bobs_db bobs_row # []"
    unfolding fired_number
    by (simp add: ListAlertInvestigationsByAlertNumber_def bobs_db_def Let_def some_alert_def find_id_def
        map_filter_simps bobs_row_def)
  have r: "bobs_row \<in> set (id_rows bobs_db)" "ai_row (toAlertInvestigationRecord bobs_db bobs_row) = bobs_row"
    "IsReopenableInvestigationStatus (iv_status bobs_row)" "iv_agent bobs_row \<noteq> []"
    "ax_online demo_ax (iv_agent bobs_row)" "iv_lease bobs_row = Some 16" "16 < (21::int)"
    by (simp_all add: bobs_db_def toAlertInvestigationRecord_def bobs_row_def IsReopenableInvestigationStatus_def
        reopenableStatuses_def demo_ax_def)
  have "iv_agent bobs_row = ''bob''" "iv_public bobs_row = ''x''" by (simp_all add: bobs_row_def)
  with reopened_investigation_swept [OF bobs_wf p g l r, of "''reopened''"] show ?thesis
    by (simp add: case_prod_beta)
qed

theorem assign_changes_no_status_witness:
  "let db = bobs_db\<lparr>id_rows := [bobs_row\<lparr>iv_status := ''pending''\<rparr>]\<rparr>;
       rq = \<lparr>rq_permitted = True, rq_store = True, rq_id = ''x'', rq_body = Some (''user'', ''1''),
             rq_users = Some (\<lambda>u. True)\<rparr>
   in map iv_status (id_rows (snd (handleAlertInvestigationAssign demo_ax rq db))) = [''pending'']"
proof -
  define db where "db = bobs_db\<lparr>id_rows := [bobs_row\<lparr>iv_status := ''pending''\<rparr>]\<rparr>"
  define rq where "rq = \<lparr>rq_permitted = True, rq_store = True, rq_id = ''x'', rq_body = Some (''user'', ''1''),
             rq_users = Some (\<lambda>u. True)\<rparr>"
  obtain res db' where h: "handleAlertInvestigationAssign demo_ax rq db = (res, db')" by (rule prod.exhaust)
  have "list_all (\<lambda>x. list_all (\<lambda>r. iv_public x \<noteq> ax_text demo_ax (iv_id r)) (id_rows db)) (id_rows db)"
    by (simp add: db_def bobs_row_def demo_ax_def)
  from assign_changes_no_status [OF this h] h show ?thesis
    by (simp add: db_def rq_def Let_def)
qed

subsection \<open>Completion\<close>

lemma complete_Inr:
  assumes "inv_wf db" "parse i = Some (iv_id r)" "r \<in> set (id_rows db)"
    "List.member [''pending'', ''assigned'', ''investigating'', ''paused''] (iv_status r)"
  shows "\<exists>db1. CompleteAlertInvestigation parse now i c db = (Inr (), db1) \<and>
    id_rows db1 = map (\<lambda>x. if iv_id x = iv_id r
      then x\<lparr>iv_status := ''complete'', iv_completed := Some now, iv_completed_reason := cp_reason c,
             iv_completed_type := cp_actor_type c, iv_completed_by := cp_actor_id c, iv_completed_name := cp_actor_name c\<rparr>
      else x) (id_rows db) \<and> length (id_events db1) = Suc (length (id_events db))"
proof -
  let ?f = "\<lambda>x. x\<lparr>iv_status := ''complete'', iv_completed := Some now, iv_completed_reason := cp_reason c,
      iv_completed_type := cp_actor_type c, iv_completed_by := cp_actor_id c, iv_completed_name := cp_actor_name c\<rparr>"
  have "inv_checks (?f r)" using assms(1,3) by (auto simp: inv_wf_def inv_checks_def inv_statuses_def)
  note up = update_rows_find [OF assms(1,3), of ?f
      "\<lambda>x. iv_id x = iv_id r \<and> List.member [''pending'', ''assigned'', ''investigating'', ''paused''] (iv_status x)"]
  have u: "update_rows (\<lambda>x. iv_id x = iv_id r \<and> List.member [''pending'', ''assigned'', ''investigating'', ''paused''] (iv_status x)) ?f db =
       (Inr 1, db\<lparr>id_rows := map (\<lambda>x. if iv_id x = iv_id r then ?f x else x) (id_rows db)\<rparr>)"
    by (rule up(1)) (use \<open>inv_checks (?f r)\<close> assms(4) in \<open>simp_all\<close>)
  have f: "find_id (iv_id r) (db\<lparr>id_rows := map (\<lambda>x. if iv_id x = iv_id r then ?f x else x) (id_rows db)\<rparr>) = Some (?f r)"
    by (rule up(2)) (use \<open>inv_checks (?f r)\<close> assms(4) in simp_all)
  show ?thesis
    unfolding CompleteAlertInvestigation_def on_row_def assms(2) option.case u prod.case sum.case
    by (simp add: f createEvent_def)
qed

lemma all_resolved_iff:
  assumes "\<And>k j. \<not> fails k j"
  shows "all_resolved fails k as adb \<longleftrightarrow>
    list_all (\<lambda>a. case latest ar_updated (filter (\<lambda>r. ar_fingerprint r = ca_Fingerprint a) (db_alerts adb)) of
        None \<Rightarrow> True | Some r \<Rightarrow> ar_status r = ''resolved'') as"
  by (induction as arbitrary: k)
    (auto simp: GetByFingerprint_def lookup_result_def assms toAlertRecord_def buildAlertRecord_def split: option.split)

lemma not_terminal_open:
  "List.member inv_statuses s \<Longrightarrow>
   IsTerminalStatus s \<longleftrightarrow> \<not> List.member [''pending'', ''assigned'', ''investigating'', ''paused''] s"
  by (auto simp: inv_statuses_def IsTerminalStatus_def InvestigationTerminalStatuses_def)

text \<open>When an alert is resolved, its current investigation is completed exactly if it is not terminal yet, has
  alerts, and the latest alert with the fingerprint of each of them is resolved (or gone); then its row
  alone is marked complete, with one event, and otherwise the tables do not change.\<close>

theorem completion_when_all_resolved:
  assumes "inv_wf db" and "\<And>k j. \<not> ax_fails ax k j" and "\<And>u. ax_parse ax (ax_text ax u) = Some u"
    and "0 < cr_number rq"
    and "GetCurrentAlertInvestigationByAlertNumber (cr_number rq) db = Inr i"
    and "ai_row i \<in> set (id_rows db)"
  shows "case CompleteIfAllAlertsResolved ax k rq adb db of (res, db') \<Rightarrow>
    res = Inr () \<and>
    (if \<not> IsTerminalStatus (iv_status (ai_row i)) \<and> ai_alerts i \<noteq> [] \<and>
        list_all (\<lambda>a. case latest ar_updated (filter (\<lambda>r. ar_fingerprint r = ca_Fingerprint a) (db_alerts adb)) of
            None \<Rightarrow> True | Some r \<Rightarrow> ar_status r = ''resolved'') (ai_alerts i)
     then map iv_status (id_rows db') =
            map (\<lambda>r. if iv_id r = iv_id (ai_row i) then ''complete'' else iv_status r) (id_rows db) \<and>
          length (id_events db') = Suc (length (id_events db))
     else db' = db)"
proof (cases "\<not> IsTerminalStatus (iv_status (ai_row i)) \<and> AllAlertInvestigationAlertsResolved (ax_fails ax) k i adb")
  case False
  with assms show ?thesis
    by (auto simp: CompleteIfAllAlertsResolved_def AllAlertInvestigationAlertsResolved_def all_resolved_iff)
next
  case True
  have "List.member inv_statuses (iv_status (ai_row i))"
    using assms(1,6) by (auto simp: inv_wf_def inv_checks_def)
  with True have "List.member [''pending'', ''assigned'', ''investigating'', ''paused''] (iv_status (ai_row i))"
    using not_terminal_open by blast
  note st = this
  define c where "c = \<lparr>cp_reason = (if cr_reason rq = [] then ''alerts_resolved'' else cr_reason rq),
     cp_actor_type = (if cr_type rq = [] then ''system'' else cr_type rq), cp_actor_id = cr_id rq,
     cp_actor_name = cr_name rq, cp_event_reason = ''all linked alerts resolved''\<rparr>"
  obtain db1 where d: "CompleteAlertInvestigation (ax_parse ax) (ax_now ax) (ax_text ax (iv_id (ai_row i))) c db = (Inr (), db1)"
    "id_rows db1 = map (\<lambda>x. if iv_id x = iv_id (ai_row i)
      then x\<lparr>iv_status := ''complete'', iv_completed := Some (ax_now ax), iv_completed_reason := cp_reason c,
             iv_completed_type := cp_actor_type c, iv_completed_by := cp_actor_id c, iv_completed_name := cp_actor_name c\<rparr>
      else x) (id_rows db)" "length (id_events db1) = Suc (length (id_events db))"
    using complete_Inr [where parse = "ax_parse ax" and i = "ax_text ax (iv_id (ai_row i))" and c = c and now = "ax_now ax",
        OF assms(1) assms(3) assms(6) st] by blast
  have "CompleteIfAllAlertsResolved ax k rq adb db = (Inr (), db1)"
    using True assms(4,5) d(1) by (simp add: CompleteIfAllAlertsResolved_def c_def)
  moreover have "map iv_status (id_rows db1) = map (\<lambda>r. if iv_id r = iv_id (ai_row i) then ''complete'' else iv_status r) (id_rows db)"
    by (simp add: d(2))
  moreover note d(3)
  ultimately show ?thesis using True assms(2)
    by (simp add: AllAlertInvestigationAlertsResolved_def all_resolved_iff)
qed

theorem completion_when_all_resolved_witness:
  "let db = bobs_db\<lparr>id_rows := [bobs_row\<lparr>iv_status := ''assigned''\<rparr>]\<rparr>;
       rq = \<lparr>cr_number = 7, cr_reason = [], cr_type = [], cr_id = [], cr_name = []\<rparr>;
       adb = fired_db\<lparr>db_alerts := [fired_row\<lparr>ar_status := ''resolved''\<rparr>]\<rparr>
   in map iv_status (id_rows (snd (CompleteIfAllAlertsResolved demo_ax 0 rq adb db))) = [''complete''] \<and>
      CompleteIfAllAlertsResolved demo_ax 0 rq fired_db db = (Inr (), db)"
proof -
  define db where "db = bobs_db\<lparr>id_rows := [bobs_row\<lparr>iv_status := ''assigned''\<rparr>]\<rparr>"
  define rq where "rq = \<lparr>cr_number = 7, cr_reason = [], cr_type = [], cr_id = [], cr_name = []\<rparr>"
  define i where "i = toAlertInvestigationRecord db (bobs_row\<lparr>iv_status := ''assigned''\<rparr>)"
  have wf: "inv_wf db"
    by (simp add: inv_wf_def db_def bobs_db_def bobs_row_def blank_row_def inv_checks_def inv_statuses_def)
  have n: "0 < cr_number rq" by (simp add: rq_def)
  have g: "GetCurrentAlertInvestigationByAlertNumber (cr_number rq) db = Inr i"
    by (simp add: GetCurrentAlertInvestigationByAlertNumber_def rq_def db_def bobs_db_def some_alert_def
        find_id_def bobs_row_def i_def)
  have r: "ai_row i \<in> set (id_rows db)" by (simp add: i_def toAlertInvestigationRecord_def db_def)
  have a: "ai_alerts i = [some_alert ''f'' 7]" "iv_status (ai_row i) = ''assigned''" "iv_id (ai_row i) = 1"
    by (simp_all add: i_def toAlertInvestigationRecord_def db_def bobs_db_def bobs_row_def)
  have ax: "\<And>k j. \<not> ax_fails demo_ax k j" "\<And>u. ax_parse demo_ax (ax_text demo_ax u) = Some u"
    by (simp_all add: demo_ax_def)
  note th = completion_when_all_resolved [where ax = demo_ax, OF wf ax n g r]
  have 1: "map iv_status (id_rows (snd (CompleteIfAllAlertsResolved demo_ax 0 rq
      (fired_db\<lparr>db_alerts := [fired_row\<lparr>ar_status := ''resolved''\<rparr>]\<rparr>) db))) = [''complete'']"
    using th [where k = 0 and adb = "fired_db\<lparr>db_alerts := [fired_row\<lparr>ar_status := ''resolved''\<rparr>]\<rparr>"]
    by (simp add: case_prod_beta a IsTerminalStatus_def InvestigationTerminalStatuses_def some_alert_def fired_row_def)
      (simp add: db_def bobs_row_def)
  have 2: "CompleteIfAllAlertsResolved demo_ax 0 rq fired_db db = (Inr (), db)"
    using th [where k = 0 and adb = fired_db]
    by (simp add: case_prod_beta a IsTerminalStatus_def InvestigationTerminalStatuses_def some_alert_def fired_row_def
        fired_db_def prod_eq_iff)
  from 1 2 show ?thesis by (simp add: db_def rq_def Let_def)
qed

end
