(* ===== verification/Access.thy ===== *)
theory Access
  imports Prelude "HOL-Library.Char_ord" "HOL-Library.List_Lexorder"
begin

text \<open>
  Permissions of roles (\<^verbatim>\<open>rbac/permissions.go\<close>, \<^verbatim>\<open>rbac/roles.go\<close>) and capabilities of agent tokens
  (\<^verbatim>\<open>capability/capability.go\<close>). A permission is its text; sorting is by bytes.
\<close>

subsection \<open>Roles\<close>

definition admin_permissions :: "string list" where
  "admin_permissions =
     [''alerts:read'', ''alerts:write'', ''alerts:delete'', ''knowledge:read'', ''knowledge:write'',
      ''knowledge:delete'', ''routes:read'', ''routes:write'', ''integrations:read'',
      ''integrations:write'', ''integrations:test'', ''users:manage'', ''tokens:manage'',
      ''dashboard:read'', ''channels:read'', ''audit:read'', ''notifications:read'',
      ''notifications:write'', ''memories:read'', ''memories:write'', ''memories:delete'',
      ''system:read'', ''system:write'', ''triage:read'', ''triage:write'', ''triage:override'',
      ''incidents:read'', ''incidents:write'', ''incidents:command'', ''incidents:delete'',
      ''services:read'', ''services:write'', ''oncall:read'', ''oncall:write'', ''escalation:read'',
      ''escalation:write'', ''postmortems:read'', ''postmortems:write'', ''postmortems:delete'',
      ''playbooks:read'', ''playbooks:write'', ''playbooks:delete'', ''automation:read'',
      ''automation:write'', ''automation:delete'', ''heartbeats:read'', ''heartbeats:write'',
      ''heartbeats:delete'', ''statuspages:read'', ''statuspages:write'', ''statuspages:delete'',
      ''oidc:manage'', ''credentials:manage'', ''credentials:read'', ''admin:access'']"

definition operator_permissions :: "string list" where
  "operator_permissions =
     [''alerts:read'', ''alerts:write'', ''knowledge:read'', ''knowledge:write'', ''routes:read'',
      ''integrations:read'', ''dashboard:read'', ''channels:read'', ''audit:read'',
      ''notifications:read'', ''notifications:write'', ''memories:read'', ''memories:write'',
      ''triage:read'', ''triage:write'', ''triage:override'', ''incidents:read'',
      ''incidents:write'', ''incidents:command'', ''services:read'', ''oncall:read'',
      ''escalation:read'', ''postmortems:read'', ''postmortems:write'', ''playbooks:read'',
      ''playbooks:write'', ''automation:read'', ''automation:write'', ''heartbeats:read'',
      ''heartbeats:write'', ''statuspages:read'', ''statuspages:write'', ''credentials:read'',
      ''credentials:manage'']"

definition viewer_permissions :: "string list" where
  "viewer_permissions =
     [''alerts:read'', ''knowledge:read'', ''routes:read'', ''integrations:read'',
      ''dashboard:read'', ''channels:read'', ''notifications:read'', ''memories:read'',
      ''triage:read'', ''incidents:read'', ''services:read'', ''oncall:read'', ''escalation:read'',
      ''postmortems:read'', ''playbooks:read'', ''heartbeats:read'', ''statuspages:read'']"

definition rolePermissions :: "string \<Rightarrow> string list option" where
  "rolePermissions role =
     (if role = ''admin'' then Some admin_permissions
      else if role = ''operator'' then Some operator_permissions
      else if role = ''viewer'' then Some viewer_permissions
      else None)"

definition ValidRole :: "string \<Rightarrow> bool" where
  "ValidRole role = List.member [''admin'', ''operator'', ''viewer''] role"

definition HasAnyPermission :: "string \<Rightarrow> string list \<Rightarrow> bool" where
  "HasAnyPermission role perms =
     (case rolePermissions role of
        None \<Rightarrow> False
      | Some granted \<Rightarrow> list_ex (List.member granted) perms)"

definition AllPermissions :: "string \<Rightarrow> string list" where
  "AllPermissions role = sort (case rolePermissions role of None \<Rightarrow> [] | Some perms \<Rightarrow> perms)"

subsection \<open>Capabilities\<close>

definition All_capabilities :: "string list" where
  "All_capabilities = [''investigate'', ''communicate'', ''command'', ''secrets'']"

definition IsValid :: "string \<Rightarrow> bool" where
  "IsValid c = List.member All_capabilities c"

text \<open>The first invalid capability.\<close>

definition Validate_caps :: "string list \<Rightarrow> string option" where
  "Validate_caps caps = List.find (\<lambda>c. \<not> IsValid c) caps"

fun normalize_loop :: "string list \<Rightarrow> string list \<Rightarrow> string list" where
  "normalize_loop out [] = out"
| "normalize_loop out (c # cs) =
     (if \<not> IsValid c \<or> List.member out c then normalize_loop out cs else normalize_loop (out @ [c]) cs)"

definition Normalize :: "string list \<Rightarrow> string list" where
  "Normalize caps =
     (if caps = [] then [''investigate'']
      else let out = normalize_loop [] caps
           in if out = [] then [''investigate''] else sort out)"

definition Has :: "string list \<Rightarrow> string \<Rightarrow> bool" where
  "Has caps target = List.member caps target"

definition HasAny :: "string list \<Rightarrow> string list \<Rightarrow> bool" where
  "HasAny caps targets = list_ex (List.member targets) caps"

subsection \<open>Properties\<close>

lemma normalize_loop_set:
  "distinct out \<Longrightarrow> list_all IsValid out \<Longrightarrow>
   distinct (normalize_loop out cs) \<and> list_all IsValid (normalize_loop out cs) \<and>
   set (normalize_loop out cs) = set out \<union> {c \<in> set cs. IsValid c}"
  by (induction out cs rule: normalize_loop.induct) auto

text \<open>C39. Whatever capabilities a token is created with, the normalised list is sorted, free of duplicates, not
  empty and valid; it keeps exactly the valid ones (or grants investigation only), and normalising again
  changes nothing.\<close>

theorem normalized_capabilities:
  "let out = Normalize caps
   in sorted out \<and> distinct out \<and> out \<noteq> [] \<and> Validate_caps out = None \<and> Normalize out = out \<and>
      set out = (if list_ex IsValid caps then set (filter IsValid caps) else {''investigate''})"
proof -
  let ?o = "normalize_loop [] caps"
  have d: "distinct ?o" and v: "list_all IsValid ?o" and e: "set ?o = {c \<in> set caps. IsValid c}"
    using normalize_loop_set [of "[]" caps] by simp_all
  have i: "IsValid ''investigate''" by (simp add: IsValid_def All_capabilities_def)
  have ex: "list_ex IsValid caps \<longleftrightarrow> ?o \<noteq> []"
    unfolding list_ex_iff set_empty [symmetric] e by blast
  have out: "sorted (Normalize caps) \<and> distinct (Normalize caps) \<and> Normalize caps \<noteq> [] \<and> list_all IsValid (Normalize caps) \<and>
      set (Normalize caps) = (if list_ex IsValid caps then set (filter IsValid caps) else {''investigate''})"
  proof (cases "?o = []")
    case True
    then have "Normalize caps = [''investigate'']" by (simp add: Normalize_def)
    with True ex i show ?thesis by simp
  next
    case False
    then have "caps \<noteq> []" by auto
    with False have n: "Normalize caps = sort ?o" by (simp add: Normalize_def Let_def)
    from v have "list_all IsValid (sort ?o)" by (simp add: list_all_iff)
    moreover have "sort ?o \<noteq> []" using False by (metis set_empty set_sort)
    ultimately show ?thesis using d e ex False unfolding n by simp
  qed
  moreover have "Validate_caps xs = None" if "list_all IsValid xs" for xs
    using that by (simp add: Validate_caps_def find_None_iff list_all_iff)
  moreover have "Normalize xs = xs" if "sorted xs" "distinct xs" "xs \<noteq> []" "list_all IsValid xs" for xs
  proof -
    have "{c \<in> set xs. IsValid c} = set xs" using that(4) unfolding list_all_iff by blast
    then have n: "distinct (normalize_loop [] xs)" "set (normalize_loop [] xs) = set xs"
      using normalize_loop_set [of "[]" xs] by simp_all
    then have "sort (normalize_loop [] xs) = xs"
      using that(1,2) by (intro sorted_distinct_set_unique) simp_all
    moreover have "normalize_loop [] xs \<noteq> []" using n(2) that(3) by (metis set_empty)
    ultimately show ?thesis using that(3) by (simp add: Normalize_def)
  qed
  ultimately show ?thesis by (simp add: Let_def)
qed

text \<open>Roles form a hierarchy: every permission of a viewer is one of an operator, every permission of an
  operator one of an administrator, the inclusions are proper, an unknown role has none, and only an
  administrator deletes, manages users or has administrative access.\<close>

theorem role_hierarchy:
  "(HasAnyPermission ''viewer'' ps \<longrightarrow> HasAnyPermission ''operator'' ps) \<and>
   (HasAnyPermission ''operator'' ps \<longrightarrow> HasAnyPermission ''admin'' ps) \<and>
   (HasAnyPermission role ps \<longrightarrow> ValidRole role) \<and>
   (HasAnyPermission role [''users:manage'', ''tokens:manage'', ''admin:access'', ''system:write'', ''incidents:delete'']
      \<longrightarrow> role = ''admin'')"
proof -
  let ?gated = "[''users:manage'', ''tokens:manage'', ''admin:access'', ''system:write'', ''incidents:delete'']"
  have "list_all (List.member operator_permissions) viewer_permissions"
    "list_all (List.member admin_permissions) operator_permissions" by code_simp+
  then have "(HasAnyPermission ''viewer'' ps \<longrightarrow> HasAnyPermission ''operator'' ps) \<and>
      (HasAnyPermission ''operator'' ps \<longrightarrow> HasAnyPermission ''admin'' ps)"
    by (auto simp: HasAnyPermission_def rolePermissions_def list_all_iff list_ex_iff)
  moreover have "HasAnyPermission ''operator'' ?gated = False" "HasAnyPermission ''viewer'' ?gated = False" by code_simp+
  moreover have "ValidRole role" "role = ''admin'' \<or> role = ''operator'' \<or> role = ''viewer''" if "HasAnyPermission role qs" for qs
    using that by (auto simp: HasAnyPermission_def rolePermissions_def ValidRole_def split: if_splits)
  ultimately show ?thesis by metis
qed

theorem role_hierarchy_witness:
  "HasAnyPermission ''operator'' [''incidents:command''] \<and> HasAnyPermission ''admin'' [''incidents:command'']"
proof -
  have "HasAnyPermission ''operator'' [''incidents:command'']" by code_simp
  with role_hierarchy [of "[''incidents:command'']" "''operator''"] show ?thesis by blast
qed

end
