(* ===== verification/Agent_Health.thy ===== *)
theory Agent_Health
  imports Prelude
begin

text \<open>
  Success and failure counts of agents and their circuit breaker (\<^verbatim>\<open>worker/agent_health.go\<close>), and Go's stable
  sort, whose outcome matters where a comparison is not a weak order.

  A ratio of counts is the pair numerator, denominator; the floating-point operations of the code (a ratio against
  0.3, equality of two ratios, the truncated share kept by the window) agree with exact arithmetic for counts below
  \<^verbatim>\<open>2^40\<close>.
\<close>

subsection \<open>Tracker\<close>

record health_entry =
  he_successes :: int
  he_failures :: int

record health_tracker =
  ht_window :: int
  ht_entries :: "string \<rightharpoonup> health_entry"
  ht_circuit :: "string \<Rightarrow> bool"

definition NewAgentHealthTracker :: "int \<Rightarrow> health_tracker" where
  "NewAgentHealthTracker window =
     \<lparr>ht_window = (if window \<le> 0 then 50 else window), ht_entries = Map.empty, ht_circuit = (\<lambda>i. False)\<rparr>"

text \<open>The entry of an agent, scaled down to half the window once the window is full.\<close>

definition getOrCreate :: "health_tracker \<Rightarrow> string \<Rightarrow> health_entry" where
  "getOrCreate h i =
     (let e = (case ht_entries h i of None \<Rightarrow> \<lparr>he_successes = 0, he_failures = 0\<rparr> | Some e \<Rightarrow> e);
          total = he_successes e + he_failures e
      in if total > ht_window h
         then (let keep = ht_window h sdiv 2; s = (keep * he_successes e) sdiv total
               in \<lparr>he_successes = s, he_failures = keep - s\<rparr>)
         else e)"

definition RecordSuccess :: "string \<Rightarrow> health_tracker \<Rightarrow> health_tracker" where
  "RecordSuccess i h =
     (let e = getOrCreate h i
      in h\<lparr>ht_entries := (ht_entries h)(i \<mapsto> e\<lparr>he_successes := he_successes e + 1\<rparr>),
           ht_circuit := (ht_circuit h)(i := False)\<rparr>)"

definition RecordFailure :: "string \<Rightarrow> health_tracker \<Rightarrow> health_tracker" where
  "RecordFailure i h =
     (let e0 = getOrCreate h i;
          e = e0\<lparr>he_failures := he_failures e0 + 1\<rparr>;
          total = he_successes e + he_failures e;
          h1 = h\<lparr>ht_entries := (ht_entries h)(i \<mapsto> e)\<rparr>
      in if total \<ge> 3 \<and> 10 * he_successes e < 3 * total
         then h1\<lparr>ht_circuit := (ht_circuit h)(i := True)\<rparr> else h1)"

definition Health :: "health_tracker \<Rightarrow> string \<Rightarrow> int \<times> int" where
  "Health h i =
     (case ht_entries h i of
        None \<Rightarrow> (1, 1)
      | Some e \<Rightarrow> if he_successes e + he_failures e = 0 then (1, 1)
                  else (he_successes e, he_successes e + he_failures e))"

definition IsCircuitBroken :: "health_tracker \<Rightarrow> string \<Rightarrow> bool" where
  "IsCircuitBroken h i = ht_circuit h i"

lemma circuit_success [simp]: "ht_circuit (RecordSuccess i h) = (ht_circuit h)(i := False)"
  by (simp add: RecordSuccess_def Let_def)

lemma circuit_failure: "ht_circuit h j \<Longrightarrow> ht_circuit (RecordFailure i h) j"
  by (simp add: RecordFailure_def Let_def)

subsection \<open>Stable sort\<close>

text \<open>\<^verbatim>\<open>slices.SortStableFunc\<close> is an insertion sort on up to 20 elements; on longer slices it merges such blocks,
  with the same outcome whenever \<open>cmp\<close> is a strict weak order. The accumulator is reversed.\<close>

fun ins_back :: "('a \<Rightarrow> 'a \<Rightarrow> int) \<Rightarrow> 'a \<Rightarrow> 'a list \<Rightarrow> 'a list" where
  "ins_back cmp x [] = [x]"
| "ins_back cmp x (y # ys) = (if cmp x y < 0 then y # ins_back cmp x ys else x # y # ys)"

definition SortStableFunc :: "('a \<Rightarrow> 'a \<Rightarrow> int) \<Rightarrow> 'a list \<Rightarrow> 'a list" where
  "SortStableFunc cmp xs = rev (fold (ins_back cmp) xs [])"

lemma set_ins_back [simp]: "set (ins_back cmp x ys) = insert x (set ys)"
  by (induction ys) auto

lemma set_fold_ins: "set (fold (ins_back cmp) xs acc) = set xs \<union> set acc"
  by (induction xs arbitrary: acc) auto

lemma set_SortStableFunc [simp]: "set (SortStableFunc cmp xs) = set xs"
  by (simp add: SortStableFunc_def set_fold_ins)

lemma length_ins_back [simp]: "length (ins_back cmp x ys) = Suc (length ys)"
  by (induction ys) auto

lemma length_SortStableFunc [simp]: "length (SortStableFunc cmp xs) = length xs"
proof -
  have "length (fold (ins_back cmp) xs acc) = length xs + length acc" for acc
    by (induction xs arbitrary: acc) auto
  then show ?thesis by (simp add: SortStableFunc_def)
qed

lemma map_ins_distinct: "distinct (map f (ins_back cmp x ys)) \<longleftrightarrow> f x \<notin> f ` set ys \<and> distinct (map f ys)"
  by (induction ys) auto

lemma distinct_SortStableFunc: "distinct (map f xs) \<Longrightarrow> distinct (map f (SortStableFunc cmp xs))"
proof -
  have "distinct (map f xs) \<Longrightarrow> distinct (map f acc) \<Longrightarrow> f ` set xs \<inter> f ` set acc = {} \<Longrightarrow>
      distinct (map f (fold (ins_back cmp) xs acc))" for acc
    by (induction xs arbitrary: acc) (auto simp: map_ins_distinct)
  from this [of "[]"] show "distinct (map f xs) \<Longrightarrow> ?thesis"
    by (simp add: SortStableFunc_def rev_map [symmetric])
qed

text \<open>A comparison that decides by a key where keys differ sorts by that key, whatever it answers elsewhere.\<close>

lemma sorted_ins_back:
  fixes k :: "'a \<Rightarrow> 'b :: linorder"
  assumes "\<And>x y. k x < k y \<Longrightarrow> cmp x y < 0" "\<And>x y. k y < k x \<Longrightarrow> \<not> cmp x y < 0"
  shows "sorted_wrt (\<lambda>a b. k b \<le> k a) ys \<Longrightarrow> sorted_wrt (\<lambda>a b. k b \<le> k a) (ins_back cmp x ys)"
proof (induction ys)
  case (Cons y ys)
  show ?case
  proof (cases "cmp x y < 0")
    case True
    with assms(2) have "k x \<le> k y" by (meson not_le_imp_less)
    with True Cons show ?thesis by auto
  next
    case False
    with assms(1) have "k y \<le> k x" by (meson not_le_imp_less)
    with False Cons show ?thesis by (auto intro: order_trans)
  qed
qed simp

lemma SortStableFunc_key:
  fixes k :: "'a \<Rightarrow> 'b :: linorder"
  assumes "\<And>x y. k x < k y \<Longrightarrow> cmp x y < 0" "\<And>x y. k y < k x \<Longrightarrow> \<not> cmp x y < 0"
  shows "sorted_wrt (\<lambda>a b. k a \<le> k b) (SortStableFunc cmp xs)"
proof -
  have "sorted_wrt (\<lambda>a b. k b \<le> k a) acc \<Longrightarrow> sorted_wrt (\<lambda>a b. k b \<le> k a) (fold (ins_back cmp) xs acc)" for acc
    by (induction xs arbitrary: acc) (simp_all add: sorted_ins_back [where k = k and cmp = cmp] assms)
  from this [of "[]"] show ?thesis by (simp add: SortStableFunc_def sorted_wrt_rev)
qed

lemma sort_head_least:
  fixes k :: "'a \<Rightarrow> 'b :: linorder"
  assumes "\<And>x y. k x < k y \<Longrightarrow> cmp x y < 0" "\<And>x y. k y < k x \<Longrightarrow> \<not> cmp x y < 0"
    and "SortStableFunc cmp xs = z # zs" "x \<in> set xs"
  shows "k z \<le> k x"
proof -
  have "sorted_wrt (\<lambda>a b. k a \<le> k b) (z # zs)"
    using SortStableFunc_key [where k = k and cmp = cmp and xs = xs] assms by simp
  moreover have "set (z # zs) = set xs" using set_SortStableFunc [of cmp xs] assms(3) by simp
  ultimately show ?thesis using assms(4) by (metis order_refl set_ConsD sorted_wrt.simps(2))
qed

end
