(* ===== verification/Scheduler.thy ===== *)
theory Scheduler
  imports Agent_Health Access Routing Investigation_Actions Incident_Store Correlation
begin

text \<open>
  The scheduler of alert investigations (\<^verbatim>\<open>worker/scheduler_dispatch.go\<close>, helpers of
  \<^verbatim>\<open>worker/scheduler_sweep.go\<close>, \<^verbatim>\<open>worker/scheduler_disconnect.go\<close>): one pass expires leases, filters
  pending work, ranks it, chooses an agent for each item, claims and forwards it. The state is the scheduler's maps,
  its health tracker and the tables it writes. Agents online are a list in place of a map keyed by id: the keys are
  those of the agent table, and \<open>se_visit\<close> gives the order in which a map is ranged over. The texts of
  prompts are left out, so a forward is its agent and investigation. A pass happens at one instant.
\<close>

subsection \<open>State\<close>

record agent_token =
  tk_id :: string
  tk_name :: string
  tk_type :: string
  tk_caps :: "string list"
  tk_scope :: string
  tk_selectors :: "route_condition list"

text \<open>The outside of a pass: what the stores and the transport answer. \<open>se_presence\<close>: the registry, if it is
  available; \<open>se_local\<close>: the connections of this replica.\<close>

record sched_env =
  se_ax :: action_env
  se_max :: int
  se_timeout :: int
  se_agents :: "agent_token list option"
  se_presence :: "(string \<Rightarrow> bool) option"
  se_local :: "(string \<Rightarrow> bool) option"
  se_visit :: "string \<Rightarrow> agent_token list \<Rightarrow> agent_token list"
  se_compile :: regex_engine
  se_count_ok :: bool
  se_pending_ok :: bool
  se_expire_ok :: bool
  se_forward :: "string \<Rightarrow> string \<Rightarrow> bool"
  se_lookup :: "nat \<Rightarrow> bool" \<comment> \<open>failing statements of the alert lookups\<close>
  se_incident_err :: bool

record sched =
  ss_backoff :: "string \<rightharpoonup> instant"
  ss_attempts :: "string \<rightharpoonup> (int \<times> instant)"
  ss_health :: health_tracker
  ss_inv :: inv_db
  ss_alerts :: alert_db
  ss_incidents :: "incident list"

datatype sched_effect =
    SForward string string bool \<comment> \<open>agent, investigation, delivered\<close>
  | SActive string string \<comment> \<open>agent, investigation: the registry of active work\<close>
  | SDeadLetter string
  | SExpired string

abbreviation se_now :: "sched_env \<Rightarrow> instant" where
  "se_now env \<equiv> ax_now (se_ax env)"

subsection \<open>Label selectors\<close>

definition operatorWeight :: "string \<Rightarrow> int" where
  "operatorWeight operator =
     (let o1 = go_to_lower (go_trim_space operator)
      in if o1 = ''exact'' then 5
         else if List.member [''contains'', ''prefix'', ''suffix''] o1 then 3
         else if o1 = ''wildcard'' then 2
         else if List.member [''regex'', ''exists'', ''not_exists''] o1 then 1
         else 0)"

definition computeSpecificity :: "route_condition list \<Rightarrow> int" where
  "computeSpecificity cs =
     (if cs = [] then 0 else int (length cs) * 10 + sum_list (map (\<lambda>c. operatorWeight (rc_Operator c)) cs))"

text \<open>The loop over the middle parts of a pattern; what is left of the text afterwards.\<close>

fun wild_rest :: "string list \<Rightarrow> string \<Rightarrow> string option" where
  "wild_rest [] s = Some s"
| "wild_rest (p # ps) s =
     (case go_index s p of None \<Rightarrow> None | Some i \<Rightarrow> wild_rest ps (drop (i + length p) s))"

definition wildcardMatch :: "string \<Rightarrow> string \<Rightarrow> bool" where
  "wildcardMatch pattern s =
     (let parts = go_split (CHR ''*'') pattern
      in if length parts = 2
         then go_has_prefix s (parts ! 0) \<and> go_has_suffix s (parts ! 1) \<and>
              length s \<ge> length (parts ! 0) + length (parts ! 1)
         else if \<not> go_has_prefix s (hd parts) then False
         else case wild_rest (butlast (tl parts)) (drop (length (hd parts)) s) of
                None \<Rightarrow> False
              | Some t \<Rightarrow> go_has_suffix t (last parts))"

text \<open>Regular expressions go through the shared cache, which answers like the compiler.\<close>

definition matchCondition :: "regex_engine \<Rightarrow> route_condition \<Rightarrow> strmap \<Rightarrow> bool" where
  "matchCondition compile c labels =
     (let field = go_trim_space (rc_Field c);
          actual = mget labels field;
          found = (map_of labels field \<noteq> None);
          o1 = go_to_lower (go_trim_space (rc_Operator c));
          value = rc_Value c
      in if o1 = ''exists'' then found \<and> go_trim_space actual \<noteq> []
         else if o1 = ''not_exists'' then \<not> found \<or> go_trim_space actual = []
         else if o1 = ''contains'' then go_contains actual value
         else if o1 = ''prefix'' then go_has_prefix actual value
         else if o1 = ''suffix'' then go_has_suffix actual value
         else if o1 = ''wildcard'' then wildcardMatch value actual
         else if o1 = ''regex''
         then length value \<le> 256 \<and> (case compile value of None \<Rightarrow> False | Some re \<Rightarrow> re actual)
         else actual = value)"

definition matchConditions :: "regex_engine \<Rightarrow> route_condition list \<Rightarrow> strmap \<Rightarrow> bool" where
  "matchConditions compile cs labels \<longleftrightarrow> cs \<noteq> [] \<and> list_all (\<lambda>c. matchCondition compile c labels) cs"

subsection \<open>Filters\<close>

definition agent_online :: "sched_env \<Rightarrow> string \<Rightarrow> bool" where
  "agent_online env i \<longleftrightarrow>
     (case se_presence env of None \<Rightarrow> False | Some p \<Rightarrow> p i) \<or>
     (case se_local env of None \<Rightarrow> False | Some l \<Rightarrow> l i)"

definition filterOnlineAgents :: "sched_env \<Rightarrow> agent_token list \<Rightarrow> agent_token list" where
  "filterOnlineAgents env agents = filter (\<lambda>a. agent_online env (tk_id a)) agents"

text \<open>When the query fails the cache is empty, so that every load reads as 0.\<close>

definition buildCapacityCache :: "sched_env \<Rightarrow> agent_token list \<Rightarrow> inv_db \<Rightarrow> string \<Rightarrow> int" where
  "buildCapacityCache env online db =
     (if se_count_ok env
      then (\<lambda>i. case map_of (CountActiveByAgents (map tk_id online) db) i of None \<Rightarrow> 0 | Some n \<Rightarrow> int n)
      else (\<lambda>i. 0))"

fun applyBackoff ::
    "instant \<Rightarrow> investigation list \<Rightarrow> (string \<rightharpoonup> instant) \<Rightarrow> investigation list \<times> (string \<rightharpoonup> instant)" where
  "applyBackoff now [] b = ([], b)"
| "applyBackoff now (x # xs) b =
     (let i = iv_public (ai_row x)
      in case b i of
           Some until \<Rightarrow>
             if now < until then applyBackoff now xs b
             else (case applyBackoff now xs (b(i := None)) of (out, b1) \<Rightarrow> (x # out, b1))
         | None \<Rightarrow> (case applyBackoff now xs b of (out, b1) \<Rightarrow> (x # out, b1)))"

definition filterScope :: "investigation list \<Rightarrow> investigation list" where
  "filterScope xs = filter (\<lambda>x. iv_assignee_type (ai_row x) = [] \<or> iv_assignee_type (ai_row x) = ''agent'') xs"

fun hasCurrentActiveAlert :: "(nat \<Rightarrow> bool) \<Rightarrow> alert_db \<Rightarrow> correlated_alert list \<Rightarrow> bool" where
  "hasCurrentActiveAlert fails adb [] = False"
| "hasCurrentActiveAlert fails adb (a # as) =
     (if go_trim_space (ca_Fingerprint a) = [] then True
      else case GetOpenByFingerprint fails (ca_Fingerprint a) adb of
             Inl e \<Rightarrow> if e = ErrAlertNotFound then hasCurrentActiveAlert fails adb as else True
           | Inr r \<Rightarrow> if r \<noteq> None then True else hasCurrentActiveAlert fails adb as)"

definition filterInactiveAlertInvestigations ::
    "(nat \<Rightarrow> bool) \<Rightarrow> alert_db \<Rightarrow> investigation list \<Rightarrow> investigation list" where
  "filterInactiveAlertInvestigations fails adb xs =
     filter (\<lambda>x. ai_alerts x = [] \<or> hasCurrentActiveAlert fails adb (ai_alerts x)) xs"

subsection \<open>Ranking\<close>

definition severityWeight :: "string \<Rightarrow> int" where
  "severityWeight s =
     (if s = ''critical'' then 1000 else if s = ''high'' then 500 else if s = ''warning'' then 100 else 10)"

text \<open>A priority is severity weight plus age in minutes, here in nanoseconds; the comparison truncates the
  difference to whole minutes. (The code computes it in floating point.)\<close>

definition computePriority :: "instant \<Rightarrow> investigation \<Rightarrow> int" where
  "computePriority now x =
     severityWeight (DetermineAlertSeverity (ai_alerts x)) * go_minute + (now - iv_created (ai_row x))"

definition cmp_priority :: "instant \<Rightarrow> investigation \<Rightarrow> investigation \<Rightarrow> int" where
  "cmp_priority now a b = (computePriority now b - computePriority now a) sdiv go_minute"

record scored =
  sd_agent :: agent_token
  sd_score :: int
  sd_active :: int

definition cmp_scored :: "health_tracker \<Rightarrow> scored \<Rightarrow> scored \<Rightarrow> int" where
  "cmp_scored h a b =
     (if sd_score a \<noteq> sd_score b then sd_score b - sd_score a
      else if sd_active a \<noteq> sd_active b then (if sd_active a < sd_active b then 1 else - 1)
      else (case (Health h (tk_id (sd_agent a)), Health h (tk_id (sd_agent b))) of
              ((na, da), (nb, db)) \<Rightarrow>
                if na * db \<noteq> nb * da then (nb * da - na * db) sdiv (da * db)
                else if tk_id (sd_agent a) < tk_id (sd_agent b) then - 1
                else if tk_id (sd_agent a) > tk_id (sd_agent b) then 1
                else 0))"

definition pick :: "health_tracker \<Rightarrow> scored list \<Rightarrow> agent_token option" where
  "pick h pool = (case SortStableFunc (cmp_scored h) pool of [] \<Rightarrow> None | x # _ \<Rightarrow> Some (sd_agent x))"

definition extractLabels :: "investigation \<Rightarrow> strmap" where
  "extractLabels x = (case ai_alerts x of [] \<Rightarrow> [] | a # _ \<Rightarrow> ca_Labels a)"

text \<open>The two tiers: agents whose selector matches, and those that take everything.\<close>

definition has_room :: "sched_env \<Rightarrow> (string \<Rightarrow> int) \<Rightarrow> agent_token \<Rightarrow> bool" where
  "has_room env cache a \<longleftrightarrow> Has (tk_caps a) ''investigate'' \<and> cache (tk_id a) < se_max env"

definition scope_of :: "agent_token \<Rightarrow> string" where
  "scope_of a = (if tk_scope a = [] then ''all'' else tk_scope a)"

fun candidate_loop ::
    "sched_env \<Rightarrow> strmap \<Rightarrow> (string \<Rightarrow> int) \<Rightarrow> agent_token list \<Rightarrow> scored list \<times> scored list" where
  "candidate_loop env labels cache [] = ([], [])"
| "candidate_loop env labels cache (a # as) =
     (case candidate_loop env labels cache as of (lm, ca) \<Rightarrow>
        if \<not> has_room env cache a then (lm, ca)
        else if scope_of a = ''all''
        then (lm, \<lparr>sd_agent = a, sd_score = 0, sd_active = cache (tk_id a)\<rparr> # ca)
        else if scope_of a = ''labels'' \<and> matchConditions (se_compile env) (tk_selectors a) labels
        then (\<lparr>sd_agent = a, sd_score = computeSpecificity (tk_selectors a), sd_active = cache (tk_id a)\<rparr> # lm, ca)
        else (lm, ca))"

definition pickCandidate ::
    "sched_env \<Rightarrow> health_tracker \<Rightarrow> investigation \<Rightarrow> agent_token list \<Rightarrow> (string \<Rightarrow> int) \<Rightarrow> agent_token option" where
  "pickCandidate env h x online cache =
     (case candidate_loop env (extractLabels x) cache (se_visit env (iv_public (ai_row x)) online) of
        (lm, ca) \<Rightarrow> (case pick h lm of Some a \<Rightarrow> Some a | None \<Rightarrow> pick h ca))"

text \<open>The loop of \<^verbatim>\<open>pickLeastLoaded\<close> over the agents in visiting order; used for incident work.\<close>

fun least_loaded :: "(string \<Rightarrow> int) \<Rightarrow> agent_token option \<Rightarrow> agent_token list \<Rightarrow> agent_token option" where
  "least_loaded cache best [] = best"
| "least_loaded cache best (a # as) =
     least_loaded cache
       (case best of None \<Rightarrow> Some a | Some b \<Rightarrow> if cache (tk_id a) < cache (tk_id b) then Some a else best) as"

definition pickLeastLoaded :: "agent_token list \<Rightarrow> (string \<Rightarrow> int) \<Rightarrow> agent_token option" where
  "pickLeastLoaded agents cache = least_loaded cache None agents"

text \<open>Roles of an incident: \<open>(status, assignee type, agent token, role)\<close>; \<open>None\<close>: the lookup failed
  or there is no role store.\<close>

definition resolveIncidentRole ::
    "(string \<times> string \<times> string option \<times> string) list option \<Rightarrow> int \<Rightarrow> string \<Rightarrow> string" where
  "resolveIncidentRole roles n i =
     (if n = 0 \<or> i = [] then []
      else case roles of
             None \<Rightarrow> []
           | Some rs \<Rightarrow>
               (case List.find (\<lambda>(st, ty, ag, ro). st = ''active'' \<and> ty = ''agent'' \<and> ag = Some i) rs of
                  None \<Rightarrow> []
                | Some (st, ty, ag, ro) \<Rightarrow> ro))"

definition pickIncidentInvestigationCandidate ::
    "sched_env \<Rightarrow> (string \<times> string \<times> string option \<times> string) list option \<Rightarrow> int \<Rightarrow> agent_token list
     \<Rightarrow> (string \<Rightarrow> int) \<Rightarrow> agent_token option" where
  "pickIncidentInvestigationCandidate env roles n online cache =
     pickLeastLoaded
       (filter (\<lambda>a. has_room env cache a \<and> resolveIncidentRole roles n (tk_id a) \<noteq> ''incident_commander'') online)
       cache"

subsection \<open>Dispatch\<close>

definition maxDispatchAttempts :: int where
  "maxDispatchAttempts = 6"

definition failureBackoff :: int where
  "failureBackoff = 30 * go_second"

definition maxBackoff :: int where
  "maxBackoff = 480 * go_second"

definition backoffDuration :: "int \<Rightarrow> int" where
  "backoffDuration attempt =
     (let attempt = (if attempt \<le> 0 then 1 else attempt);
          e = min (attempt - 1) 4
      in min (failureBackoff * 2 ^ nat e) maxBackoff)"

fun decimal :: "nat \<Rightarrow> string" where
  "decimal n = (if n < 10 then [char_of (48 + n)] else decimal (n div 10) @ [char_of (48 + n mod 10)])"

declare decimal.simps [simp del]

definition dead_letter_message :: "int \<Rightarrow> string" where
  "dead_letter_message attempts =
     ''Investigation dead-lettered after '' @ decimal (nat attempts) @
     '' dispatch attempts - no agent could accept it''"

text \<open>Alerts and the promoted incident of an investigation that an agent has taken.\<close>

definition ack_incident :: "sched_env \<Rightarrow> uuid \<Rightarrow> incident list \<Rightarrow> incident list" where
  "ack_incident env p tab =
     (if se_incident_err env then tab
      else case List.find (\<lambda>r. in_id r = p) tab of
             None \<Rightarrow> tab
           | Some r \<Rightarrow>
               (case TransitionIncidentStatus False (se_now env) (in_number r)
                       (ActionSources ''acknowledge'') (ActionTarget ''acknowledge'') tab of
                  (Inl ErrIncidentStatusConflict, tab1) \<Rightarrow>
                    snd (TransitionIncidentStatus False (se_now env) (in_number r)
                           (ActionSources ''promote'') (ActionTarget ''promote'') tab)
                | (_, tab1) \<Rightarrow> tab1))"

definition autoAcknowledge :: "sched_env \<Rightarrow> investigation \<Rightarrow> sched \<Rightarrow> sched" where
  "autoAcknowledge env x s =
     (let s1 = s\<lparr>ss_alerts := ack_alerts (se_ax env) 0 (map ca_Fingerprint (ai_alerts x)) (ss_alerts s)\<rparr>
      in case iv_promoted (ai_row x) of
           None \<Rightarrow> s1
         | Some p \<Rightarrow> s1\<lparr>ss_incidents := ack_incident env p (ss_incidents s1)\<rparr>)"

definition dispatch :: "sched_env \<Rightarrow> investigation \<Rightarrow> agent_token \<Rightarrow> sched \<Rightarrow> bool \<times> sched_effect list \<times> sched" where
  "dispatch env x a s =
     (let i = iv_public (ai_row x);
          attempts = (case ss_attempts s i of None \<Rightarrow> 0 | Some (n, t) \<Rightarrow> n) + 1;
          s1 = s\<lparr>ss_attempts := (ss_attempts s)(i \<mapsto> (attempts, se_now env))\<rparr>
      in if attempts > maxDispatchAttempts
         then (let db1 = snd (UpdateAlertInvestigationStatus i ''timed_out'' (ss_inv s1));
                   db2 = snd (AddAlertInvestigationUpdate (se_now env) i ''dead_lettered''
                           (dead_letter_message attempts) ''system'' True db1)
               in (False, [SDeadLetter i],
                   s1\<lparr>ss_inv := db2, ss_attempts := (ss_attempts s1)(i := None)\<rparr>))
         else if \<not> se_forward env (tk_id a) i
         then (False, [SForward (tk_id a) i False],
               s1\<lparr>ss_inv := snd (TransitionAlertInvestigationStatus (ax_parse (se_ax env)) (se_now env)
                               (ax_text (se_ax env) (iv_id (ai_row x))) [''assigned''] ''pending'' (ss_inv s1)),
                  ss_backoff := (ss_backoff s1)(i \<mapsto> se_now env + backoffDuration attempts),
                  ss_health := RecordFailure (tk_id a) (ss_health s1)\<rparr>)
         else (let s2 = autoAcknowledge env x s1
               in (True, [SForward (tk_id a) i True, SActive (iv_agent (ai_row x)) i],
                   s2\<lparr>ss_health := RecordSuccess (tk_id a) (ss_health s2),
                      ss_attempts := (ss_attempts s2)(i := None)\<rparr>)))"

definition CleanupCompleted :: "string \<Rightarrow> sched \<Rightarrow> sched" where
  "CleanupCompleted i s =
     s\<lparr>ss_attempts := (ss_attempts s)(i := None), ss_backoff := (ss_backoff s)(i := None)\<rparr>"

definition expireInvestigationLeases :: "sched_env \<Rightarrow> sched \<Rightarrow> sched_effect list \<times> sched" where
  "expireInvestigationLeases env s =
     (if se_expire_ok env
      then (case ExpireAlertInvestigationLeases (se_now env) (ss_inv s) of
              (ids, db) \<Rightarrow> (map SExpired ids, fold CleanupCompleted ids (s\<lparr>ss_inv := db\<rparr>)))
      else ([], s))"

text \<open>Claim and forward, in ranked order.\<close>

fun bind_loop ::
    "sched_env \<Rightarrow> agent_token list \<Rightarrow> investigation list \<Rightarrow> (string \<Rightarrow> int) \<Rightarrow> sched \<Rightarrow> sched_effect list \<times> sched" where
  "bind_loop env online [] cache s = ([], s)"
| "bind_loop env online (x # xs) cache s =
     (if iv_status (ai_row x) \<noteq> ''pending'' then bind_loop env online xs cache s
      else case pickCandidate env (ss_health s) x online cache of
             None \<Rightarrow> bind_loop env online xs cache s
           | Some a \<Rightarrow>
               (case ClaimPendingAlertInvestigation (ax_parse (se_ax env)) (se_now env)
                       (ax_text (se_ax env) (iv_id (ai_row x))) (tk_id a) (tk_name a) (tk_type a)
                       (se_timeout env) (ss_inv s) of
                  (Inl e, db) \<Rightarrow> bind_loop env online xs cache (s\<lparr>ss_inv := db\<rparr>)
                | (Inr y, db) \<Rightarrow>
                    (case dispatch env y a (s\<lparr>ss_inv := db\<rparr>) of
                       (ok, es, s1) \<Rightarrow>
                         (case bind_loop env online xs
                                 (if ok then cache(tk_id a := cache (tk_id a) + 1) else cache) s1 of
                            (fs, s2) \<Rightarrow> (es @ fs, s2)))))"

definition pending_work :: "sched_env \<Rightarrow> sched \<Rightarrow> investigation list \<times> sched" where
  "pending_work env s =
     (case applyBackoff (se_now env) (ListPendingAlertInvestigations 200 (ss_inv s)) (ss_backoff s) of
        (xs, b) \<Rightarrow>
          (SortStableFunc (cmp_priority (se_now env))
             (filterInactiveAlertInvestigations (se_lookup env) (ss_alerts s) (filterScope xs)),
           s\<lparr>ss_backoff := b\<rparr>))"

definition schedule_pass :: "sched_env \<Rightarrow> sched \<Rightarrow> sched_effect list \<times> sched" where
  "schedule_pass env s0 =
     (case expireInvestigationLeases env s0 of
        (es, s) \<Rightarrow>
          (case se_agents env of
             None \<Rightarrow> (es, s)
           | Some agents \<Rightarrow>
               (let online = filterOnlineAgents env agents
                in if online = [] then (es, s)
                   else
                     let cache = buildCapacityCache env online (ss_inv s);
                         online = filter (\<lambda>a. \<not> IsCircuitBroken (ss_health s) (tk_id a)) online
                     in if \<not> se_pending_ok env then (es, s)
                        else case pending_work env s of
                               (xs, s1) \<Rightarrow>
                                 (case bind_loop env online xs cache s1 of (fs, s2) \<Rightarrow> (es @ fs, s2)))))"

subsection \<open>Housekeeping\<close>

definition purgeDispatchAttempts :: "sched_env \<Rightarrow> sched \<Rightarrow> sched" where
  "purgeDispatchAttempts env s =
     (let timeout = (if se_timeout env \<le> 0 then 10 * go_minute else se_timeout env)
      in s\<lparr>ss_attempts := (\<lambda>i. case ss_attempts s i of
             None \<Rightarrow> None
           | Some (n, t) \<Rightarrow> if se_now env - t > 2 * timeout then None else Some (n, t))\<rparr>)"

definition runMapPurge :: "sched_env \<Rightarrow> sched \<Rightarrow> sched" where
  "runMapPurge env s =
     (let s1 = purgeDispatchAttempts env s
      in s1\<lparr>ss_backoff := (\<lambda>i. case ss_backoff s1 i of
             None \<Rightarrow> None | Some t \<Rightarrow> if t < se_now env then None else Some t)\<rparr>)"

text \<open>An agent that disconnects: its leases are shortened. The result says whether the timer that ends the agent's
  incident roles is started (\<open>None\<close>: no Valkey, or an error).\<close>

definition OnAgentOffline :: "sched_env \<Rightarrow> bool option \<Rightarrow> bool \<Rightarrow> int \<Rightarrow> string \<Rightarrow> sched \<Rightarrow> bool \<times> sched" where
  "OnAgentOffline env setnx stopped grace0 i s =
     (if i = [] then (False, s)
      else
        let grace = (if grace0 \<le> 0 then 45 * go_second else grace0)
        in ((case setnx of None \<Rightarrow> True | Some ok \<Rightarrow> ok) \<and> \<not> stopped,
            if se_expire_ok env
            then s\<lparr>ss_inv := ExpireAlertInvestigationLeasesByAgent (se_now env) i grace (ss_inv s)\<rparr> else s))"

text \<open>The backstop of the completion service over pending work.\<close>

definition completeResolvedInvestigations :: "sched_env \<Rightarrow> sched \<Rightarrow> sched" where
  "completeResolvedInvestigations env s =
     (if \<not> se_pending_ok env then s
      else s\<lparr>ss_inv :=
        fold (\<lambda>x db.
           if ai_alerts x = [] \<or> \<not> List.member [''pending'', ''assigned'', ''investigating''] (iv_status (ai_row x)) then db
           else fold (\<lambda>a db1.
                  if ca_AlertNumber a \<le> 0 then db1
                  else snd (CompleteIfAllAlertsResolved (se_ax env) 0
                         \<lparr>cr_number = ca_AlertNumber a, cr_reason = ''alerts_resolved'', cr_type = ''system'',
                          cr_id = [], cr_name = ''scheduler''\<rparr> (ss_alerts s) db1))
                (ai_alerts x) db)
          (ListPendingAlertInvestigations 200 (ss_inv s)) (ss_inv s)\<rparr>)"

end
