(* ===== verification/Scheduler_Correct.thy ===== *)
theory Scheduler_Correct
  imports Scheduler Investigation_Correct "HOL-Library.Product_Lexorder"
begin

text \<open>
  Properties of the scheduler: what its selectors match, whom a pass picks, the circuit breaker, the capacity of
  agents, and the fate of work that cannot be delivered.
\<close>

subsection \<open>Selectors\<close>

lemma wild_rest_tiles:
  "(case wild_rest ms s of None \<Rightarrow> False | Some t \<Rightarrow> go_has_suffix t z) \<longleftrightarrow>
   (\<exists>a b. s = a @ b \<and> tiles (ms @ [z]) b)"
proof (induction ms arbitrary: s)
  case Nil
  show ?case by (auto simp: go_has_suffix_iff)
next
  case (Cons m ms)
  have tl: "tiles ((m # ms) @ [z]) b \<longleftrightarrow> (\<exists>c d. b = m @ c @ d \<and> tiles (ms @ [z]) d)" for b
    by (cases "ms @ [z]") simp_all
  show ?case
  proof (cases "go_index s m")
    case None
    then have "\<not> (\<exists>a b. s = a @ m @ b)"
      by (metis go_contains_def go_contains_iff)
    with None show ?thesis unfolding tl by auto
  next
    case (Some i)
    obtain u v where uv: "s = u @ m @ v" "length u = i" using go_index_SomeD [OF Some] by blast
    have "(\<exists>a b. s = a @ b \<and> tiles ((m # ms) @ [z]) b) \<longleftrightarrow> (\<exists>a b. v = a @ b \<and> tiles (ms @ [z]) b)"
    proof
      assume "\<exists>a b. s = a @ b \<and> tiles ((m # ms) @ [z]) b"
      then obtain a c d where s: "s = a @ m @ (c @ d)" "tiles (ms @ [z]) d" unfolding tl by auto
      then have "i \<le> length a" using go_index_le [of a m "c @ d"] Some by simp
      with s(1) uv have "length (c @ d) \<le> length v"
        by (metis add_le_cancel_left add_le_mono1 length_append nat_le_linear order_antisym_conv)
      moreover have "suffix (c @ d) s" "suffix v s"
        using s(1) uv(1) unfolding suffix_def by (metis append_assoc)+
      ultimately have "suffix (c @ d) v" by (metis suffix_length_suffix)
      then obtain e where "v = e @ c @ d" by (auto simp: suffix_def)
      with s(2) show "\<exists>a b. v = a @ b \<and> tiles (ms @ [z]) b" by (metis append_assoc)
    next
      assume "\<exists>a b. v = a @ b \<and> tiles (ms @ [z]) b"
      then show "\<exists>a b. s = a @ b \<and> tiles ((m # ms) @ [z]) b" unfolding tl using uv(1) by blast
    qed
    moreover have "drop (i + length m) s = v" using uv by simp
    ultimately show ?thesis using Cons.IH [of v] Some by simp
  qed
qed

text \<open>The wildcard operator of an agent's selector is the glob of the routing rules when the pattern has a star. A
  pattern without a star is not compared for equality: it matches the texts that begin and end with separate copies
  of it, hence never the text equal to a non-empty pattern.\<close>

theorem selector_wildcard:
  "wildcardMatch p s =
     (if list_ex (\<lambda>c. c = CHR ''*'') p then glob p s
      else go_has_prefix s p \<and> go_has_suffix (drop (length p) s) p)"
proof (cases "list_ex (\<lambda>c. c = CHR ''*'') p")
  case False
  then have "\<not> go_contains p ''*''" by (auto simp: go_contains_iff list_ex_iff)
  then have "go_split (CHR ''*'') p = [p]" by (rule go_split_single)
  with False show ?thesis by (auto simp: wildcardMatch_def)
next
  case True
  then have "go_contains p ''*''" unfolding go_contains_iff by (auto simp: list_ex_iff in_set_conv_decomp)
  then have "2 \<le> length (go_split (CHR ''*'') p)" by (simp add: go_split_length)
  then obtain q r rs where ps: "go_split (CHR ''*'') p = q # r # rs"
    by (metis Suc_le_length_iff numeral_2_eq_2)
  have two: "tiles [q, r] s \<longleftrightarrow> go_has_prefix s q \<and> go_has_suffix s r \<and> length s \<ge> length q + length r"
  proof
    assume "tiles [q, r] s"
    then obtain a where "s = q @ a @ r" by auto
    then show "go_has_prefix s q \<and> go_has_suffix s r \<and> length s \<ge> length q + length r"
      unfolding go_has_prefix_iff go_has_suffix_iff by (metis append_assoc length_append le_add1 add_le_cancel_left le_add2)
  next
    assume "go_has_prefix s q \<and> go_has_suffix s r \<and> length s \<ge> length q + length r"
    then obtain t where t: "s = q @ t" "length r \<le> length t" "go_has_suffix s r" by (auto simp: go_has_prefix_iff)
    then have "suffix r t" by (metis go_has_suffix_iff suffix_def suffix_length_suffix)
    with t(1) show "tiles [q, r] s" by (auto simp: suffix_def)
  qed
  have many: "tiles (q # r # rs) s \<longleftrightarrow> go_has_prefix s q \<and>
      (case wild_rest (butlast (r # rs)) (drop (length q) s) of None \<Rightarrow> False | Some t \<Rightarrow> go_has_suffix t (last (r # rs)))"
    unfolding wild_rest_tiles by (auto simp: go_has_prefix_iff) blast+
  have "wildcardMatch p s = tiles (q # r # rs) s"
  proof (cases rs)
    case Nil
    with two ps show ?thesis by (auto simp: wildcardMatch_def Let_def)
  next
    case (Cons t ts)
    then have len: "(length (q # r # rs) = 2) = False" by simp
    have l: "last (q # r # rs) = last (r # rs)" by simp
    show ?thesis unfolding wildcardMatch_def Let_def ps len l list.sel many by (simp only: if_False) simp
  qed
  with True ps show ?thesis by (simp add: glob_tiles)
qed

theorem selector_wildcard_witness:
  "\<not> wildcardMatch ''web'' ''web'' \<and> wildcardMatch ''web'' ''webweb'' \<and> wildcardMatch ''web*'' ''web-1''"
  by (simp add: selector_wildcard) code_simp

subsection \<open>Choice of an agent\<close>

definition visits_all :: "sched_env \<Rightarrow> bool" where
  "visits_all env \<longleftrightarrow> (\<forall>k xs. set (se_visit env k xs) = set xs)"

definition targeted :: "sched_env \<Rightarrow> strmap \<Rightarrow> agent_token \<Rightarrow> bool" where
  "targeted env labels a \<longleftrightarrow> scope_of a = ''labels'' \<and> matchConditions (se_compile env) (tk_selectors a) labels"

definition scored_as :: "(string \<Rightarrow> int) \<Rightarrow> int \<Rightarrow> agent_token \<Rightarrow> scored" where
  "scored_as cache n a = \<lparr>sd_agent = a, sd_score = n, sd_active = cache (tk_id a)\<rparr>"

lemma scored_as_fields [simp]:
  "sd_agent (scored_as cache n a) = a" "sd_score (scored_as cache n a) = n"
  "sd_active (scored_as cache n a) = cache (tk_id a)"
  by (simp_all add: scored_as_def)

lemma candidate_loop_eq:
  "candidate_loop env labels cache as =
     (map (\<lambda>a. scored_as cache (computeSpecificity (tk_selectors a)) a)
        (filter (\<lambda>a. has_room env cache a \<and> targeted env labels a) as),
      map (scored_as cache 0) (filter (\<lambda>a. has_room env cache a \<and> scope_of a = ''all'') as))"
  by (induction as) (auto simp: targeted_def scored_as_def)

text \<open>Whatever the comparison does with health and ids, it decides by score and load first.\<close>

definition scored_key :: "scored \<Rightarrow> int \<times> int" where
  "scored_key x = (- sd_score x, - sd_active x)"

lemma pick_greatest:
  assumes "pick h pool = Some a"
  shows "\<exists>x\<in>set pool. sd_agent x = a \<and>
    (\<forall>y\<in>set pool. sd_score y < sd_score x \<or> sd_score y = sd_score x \<and> sd_active y \<le> sd_active x)"
proof -
  obtain x xs where xs: "SortStableFunc (cmp_scored h) pool = x # xs" "sd_agent x = a"
    using assms by (auto simp: pick_def split: list.splits)
  have lt: "cmp_scored h u v < 0" if "scored_key u < scored_key v" for u v
    using that by (auto simp: scored_key_def cmp_scored_def less_prod_def)
  have gt: "\<not> cmp_scored h u v < 0" if "scored_key v < scored_key u" for u v
    using that by (auto simp: scored_key_def cmp_scored_def less_prod_def)
  have "x \<in> set pool" using xs(1) set_SortStableFunc by (metis list.set_intros(1))
  moreover have "sd_score y < sd_score x \<or> sd_score y = sd_score x \<and> sd_active y \<le> sd_active x" if "y \<in> set pool" for y
  proof -
    have "scored_key x \<le> scored_key y"
      by (rule sort_head_least [where k = scored_key, OF lt gt xs(1) that])
    then show ?thesis by (auto simp: scored_key_def less_eq_prod_def)
  qed
  ultimately show ?thesis using xs(2) by blast
qed

lemma pick_None: "pick h pool = None \<longleftrightarrow> pool = []"
proof -
  have "SortStableFunc (cmp_scored h) pool = [] \<longleftrightarrow> pool = []"
    using length_SortStableFunc [of "cmp_scored h" pool] by (metis length_0_conv)
  then show ?thesis by (auto simp: pick_def split: list.splits)
qed

lemma pick_Nil [simp]: "pick h [] = None"
  by (simp add: pick_None)

lemma pickCandidate_eligible:
  assumes "pickCandidate env h x online cache = Some a" "visits_all env"
  shows "a \<in> set online \<and> has_room env cache a"
proof -
  let ?o = "se_visit env (iv_public (ai_row x)) online"
  have o: "set ?o = set online" using assms(2) by (simp add: visits_all_def)
  from assms(1) obtain pool where p: "pick h pool = Some a"
    "pool = fst (candidate_loop env (extractLabels x) cache ?o) \<or> pool = snd (candidate_loop env (extractLabels x) cache ?o)"
    by (auto simp: pickCandidate_def split: prod.splits option.splits)
  from pick_greatest [OF p(1)] obtain z where z: "z \<in> set pool" "sd_agent z = a" by blast
  then have "z \<in> set (fst (candidate_loop env (extractLabels x) cache ?o)) \<union>
      set (snd (candidate_loop env (extractLabels x) cache ?o))" using p(2) by blast
  then show ?thesis using z(2) unfolding candidate_loop_eq by (auto simp: o)
qed

text \<open>The agent chosen for an investigation is connected, has the capability and a free slot. If some such
  agent's selector matches, the choice is a targeted agent of the highest specificity, else one that takes
  everything; among equals it is the one with the most active investigations, although the comment asks for the
  least loaded.\<close>

theorem picks_the_busiest:
  assumes "pickCandidate env h x online cache = Some a" "visits_all env"
  shows "let targets = filter (\<lambda>b. has_room env cache b \<and> targeted env (extractLabels x) b) online;
             rest = filter (\<lambda>b. has_room env cache b \<and> scope_of b = ''all'') online
         in if targets \<noteq> []
            then List.member targets a \<and>
                 list_all (\<lambda>b. computeSpecificity (tk_selectors b) < computeSpecificity (tk_selectors a) \<or>
                   computeSpecificity (tk_selectors b) = computeSpecificity (tk_selectors a) \<and>
                   cache (tk_id b) \<le> cache (tk_id a)) targets
            else List.member rest a \<and> list_all (\<lambda>b. cache (tk_id b) \<le> cache (tk_id a)) rest"
proof -
  let ?o = "se_visit env (iv_public (ai_row x)) online"
  let ?T = "\<lambda>b. has_room env cache b \<and> targeted env (extractLabels x) b"
  let ?C = "\<lambda>b. has_room env cache b \<and> scope_of b = ''all''"
  have o: "set ?o = set online" using assms(2) by (simp add: visits_all_def)
  have loop: "candidate_loop env (extractLabels x) cache ?o =
      (map (\<lambda>b. scored_as cache (computeSpecificity (tk_selectors b)) b) (filter ?T ?o),
       map (scored_as cache 0) (filter ?C ?o))" by (rule candidate_loop_eq)
  have ne: "filter ?T ?o = [] \<longleftrightarrow> filter ?T online = []" by (simp add: filter_empty_conv o)
  show ?thesis
  proof (cases "filter ?T online = []")
    case False
    then have "pick h (map (\<lambda>b. scored_as cache (computeSpecificity (tk_selectors b)) b) (filter ?T ?o)) = Some a"
      using assms(1) ne pick_None by (auto simp: pickCandidate_def loop split: option.splits)
    from pick_greatest [OF this] have "a \<in> set (filter ?T online) \<and>
        (\<forall>b\<in>set (filter ?T online). computeSpecificity (tk_selectors b) < computeSpecificity (tk_selectors a) \<or>
           computeSpecificity (tk_selectors b) = computeSpecificity (tk_selectors a) \<and>
           cache (tk_id b) \<le> cache (tk_id a))"
      by (auto simp: o)
    with False show ?thesis by (simp add: Let_def list_all_iff)
  next
    case True
    then have "pick h (map (scored_as cache 0) (filter ?C ?o)) = Some a"
      using assms(1) ne pick_None by (auto simp: pickCandidate_def loop split: option.splits)
    from pick_greatest [OF this] have "a \<in> set (filter ?C online) \<and>
        (\<forall>b\<in>set (filter ?C online). cache (tk_id b) \<le> cache (tk_id a))"
      by (auto simp: o)
    with True show ?thesis by (simp add: Let_def list_all_iff)
  qed
qed

definition demo_agent :: "string \<Rightarrow> agent_token" where
  "demo_agent i = \<lparr>tk_id = i, tk_name = i, tk_type = ''sre'', tk_caps = [''investigate''], tk_scope = ''all'', tk_selectors = []\<rparr>"

definition demo_ax :: action_env where
  "demo_ax = \<lparr>ax_fails = (\<lambda>k j. False), ax_env = (\<lambda>d. d), ax_parse = (\<lambda>t. Some (length t)),
     ax_text = (\<lambda>u. replicate u CHR ''x''), ax_online = (\<lambda>i. True), ax_now = 1000 * go_second\<rparr>"

definition demo_sched_env :: "(string \<Rightarrow> string \<Rightarrow> bool) \<Rightarrow> sched_env" where
  "demo_sched_env fwd =
     \<lparr>se_ax = demo_ax, se_max = 3, se_timeout = 600 * go_second,
      se_agents = Some [demo_agent ''a1'', demo_agent ''a2''], se_presence = None, se_local = Some (\<lambda>i. True),
      se_visit = (\<lambda>k xs. xs), se_compile = (\<lambda>p. None), se_count_ok = True, se_pending_ok = True,
      se_expire_ok = True, se_forward = fwd, se_lookup = (\<lambda>k. False), se_incident_err = False\<rparr>"

definition demo_row :: inv_row where
  "demo_row =
     \<lparr>iv_id = 1, iv_public = ''inv-1'', iv_key = ''web'', iv_status = ''pending'', iv_agent = [], iv_agent_name = [],
      iv_agent_type = [], iv_primary_fp = [], iv_primary_number = 0, iv_assignee_type = ''agent'', iv_assignee = None,
      iv_promoted = None, iv_promoted_inv = None, iv_slack_channel = [], iv_slack_thread = [], iv_mm_thread = [],
      iv_summary = None, iv_created = 0, iv_started = None, iv_lease = None, iv_completed = None,
      iv_completed_reason = [], iv_completed_type = [], iv_completed_by = [], iv_completed_name = []\<rparr>"

definition demo_work :: investigation where
  "demo_work = \<lparr>ai_row = demo_row, ai_alerts = [], ai_updates = [], ai_events = []\<rparr>"

theorem picks_the_busiest_witness:
  "pickCandidate (demo_sched_env (\<lambda>a i. True)) (NewAgentHealthTracker 50) demo_work
     [demo_agent ''a1'', demo_agent ''a2''] (\<lambda>i. if i = ''a2'' then 2 else 0) = Some (demo_agent ''a2'') \<and>
   list_all (\<lambda>b. (if tk_id b = ''a2'' then 2 else 0) \<le> (2 :: int)) [demo_agent ''a1'', demo_agent ''a2'']"
proof -
  let ?e = "demo_sched_env (\<lambda>a i. True)" and ?c = "\<lambda>i. if i = ''a2'' then 2 else (0 :: int)"
  have p: "pickCandidate ?e (NewAgentHealthTracker 50) demo_work [demo_agent ''a1'', demo_agent ''a2''] ?c =
      Some (demo_agent ''a2'')" by code_simp
  have v: "visits_all ?e" by (simp add: visits_all_def demo_sched_env_def)
  have t: "filter (\<lambda>b. has_room ?e ?c b \<and> targeted ?e (extractLabels demo_work) b)
      [demo_agent ''a1'', demo_agent ''a2''] = []" by code_simp
  have r: "filter (\<lambda>b. has_room ?e ?c b \<and> scope_of b = ''all'')
      [demo_agent ''a1'', demo_agent ''a2''] = [demo_agent ''a1'', demo_agent ''a2'']" by code_simp
  have i: "tk_id (demo_agent ''a2'') = ''a2''" by (simp add: demo_agent_def)
  from picks_the_busiest [OF p v] p show ?thesis unfolding t r Let_def by (simp add: i)
qed

subsection \<open>The circuit breaker\<close>

lemma autoAcknowledge_fields [simp]:
  "ss_health (autoAcknowledge env x s) = ss_health s" "ss_inv (autoAcknowledge env x s) = ss_inv s"
  "ss_attempts (autoAcknowledge env x s) = ss_attempts s" "ss_backoff (autoAcknowledge env x s) = ss_backoff s"
  by (simp_all add: autoAcknowledge_def Let_def split: option.split)

definition forwarded_to :: "string \<Rightarrow> sched_effect \<Rightarrow> bool" where
  "forwarded_to i e = (case e of SForward a x d \<Rightarrow> a = i | _ \<Rightarrow> False)"

lemma dispatch_other:
  assumes "dispatch env x a s = (ok, es, s1)" "tk_id a \<noteq> i"
  shows "(ht_circuit (ss_health s) i \<longrightarrow> ht_circuit (ss_health s1) i) \<and> \<not> list_ex (forwarded_to i) es"
  using assms by (auto simp: dispatch_def Let_def forwarded_to_def circuit_failure split: if_splits)

lemma bind_loop_other:
  assumes "visits_all env"
  shows "\<forall>b\<in>set online. tk_id b \<noteq> i \<Longrightarrow> ht_circuit (ss_health s) i \<Longrightarrow>
    bind_loop env online xs cache s = (es, s1) \<Longrightarrow>
    ht_circuit (ss_health s1) i \<and> \<not> list_ex (forwarded_to i) es"
proof (induction xs arbitrary: cache s es s1)
  case (Cons x xs)
  show ?case
  proof (cases "iv_status (ai_row x) = ''pending''")
    case False
    with Cons show ?thesis by simp
  next
    case pen: True
    show ?thesis
    proof (cases "pickCandidate env (ss_health s) x online cache")
      case None
      with pen Cons show ?thesis by simp
    next
      case (Some a)
      then have a: "tk_id a \<noteq> i" using pickCandidate_eligible assms Cons.prems(1) by blast
      obtain r db where c: "ClaimPendingAlertInvestigation (ax_parse (se_ax env)) (se_now env)
          (ax_text (se_ax env) (iv_id (ai_row x))) (tk_id a) (tk_name a) (tk_type a) (se_timeout env) (ss_inv s) = (r, db)"
        by (rule prod.exhaust)
      show ?thesis
      proof (cases r)
        case (Inl e)
        with Cons.prems(3) pen Some c have "bind_loop env online xs cache (s\<lparr>ss_inv := db\<rparr>) = (es, s1)" by simp
        from Cons.IH [OF Cons.prems(1) _ this] Cons.prems(2) show ?thesis by simp
      next
        case (Inr y)
        obtain ok es0 s0 where d: "dispatch env y a (s\<lparr>ss_inv := db\<rparr>) = (ok, es0, s0)" by (rule prod_cases3)
        obtain fs s2 where b: "bind_loop env online xs (if ok then cache(tk_id a := cache (tk_id a) + 1) else cache) s0 = (fs, s2)"
          by (rule prod.exhaust)
        have e: "es = es0 @ fs" "s1 = s2" using Cons.prems(3) pen Some c Inr d b by simp_all
        have h: "ht_circuit (ss_health s0) i \<and> \<not> list_ex (forwarded_to i) es0"
          using dispatch_other [OF d a] Cons.prems(2) by simp
        with Cons.IH [OF Cons.prems(1) _ b] e show ?thesis by simp
      qed
    qed
  qed
qed simp

lemma fold_cleanup [simp]:
  "ss_health (fold CleanupCompleted ids s) = ss_health s" "ss_inv (fold CleanupCompleted ids s) = ss_inv s"
  "ss_alerts (fold CleanupCompleted ids s) = ss_alerts s"
  by (induction ids arbitrary: s) (simp_all add: CleanupCompleted_def)

lemma expire_leases_health:
  assumes "expireInvestigationLeases env s = (es, s1)"
  shows "ss_health s1 = ss_health s \<and> \<not> list_ex (forwarded_to i) es"
  using assms
  by (auto simp: expireInvestigationLeases_def forwarded_to_def list_ex_iff split: if_splits prod.splits)

lemma schedule_other:
  assumes "visits_all env" "ht_circuit (ss_health s) i" "schedule_pass env s = (es, s1)"
  shows "ht_circuit (ss_health s1) i \<and> \<not> list_ex (forwarded_to i) es"
proof -
  obtain e0 s0 where x: "expireInvestigationLeases env s = (e0, s0)" by (rule prod.exhaust)
  note h = expire_leases_health [OF x, of i]
  show ?thesis
  proof (cases "se_agents env = None \<or> filterOnlineAgents env (the (se_agents env)) = [] \<or> \<not> se_pending_ok env")
    case True
    with assms(2,3) x h show ?thesis by (auto simp: schedule_pass_def Let_def split: option.splits if_splits)
  next
    case False
    then obtain agents where ag: "se_agents env = Some agents" "filterOnlineAgents env agents \<noteq> []" "se_pending_ok env"
      by auto
    let ?on = "filter (\<lambda>a. \<not> IsCircuitBroken (ss_health s0) (tk_id a)) (filterOnlineAgents env agents)"
    obtain xs s2 where w: "pending_work env s0 = (xs, s2)" by (rule prod.exhaust)
    then have w2: "ss_health s2 = ss_health s0" by (auto simp: pending_work_def split: prod.splits)
    obtain fs s3 where b: "bind_loop env ?on xs (buildCapacityCache env (filterOnlineAgents env agents) (ss_inv s0)) s2 = (fs, s3)"
      by (rule prod.exhaust)
    have e: "es = e0 @ fs" "s1 = s3" using assms(3) x ag w b by (simp_all add: schedule_pass_def Let_def)
    have "\<forall>b\<in>set ?on. tk_id b \<noteq> i" using h assms(2) by (auto simp: IsCircuitBroken_def)
    from bind_loop_other [OF assms(1) this _ b] w2 h assms(2) e show ?thesis by simp
  qed
qed

text \<open>Passes one after another; before each of them the tables have been changed at will by the rest of the system.\<close>

fun run_passes :: "(sched_env \<times> inv_db \<times> alert_db) list \<Rightarrow> sched \<Rightarrow> sched_effect list \<times> sched" where
  "run_passes [] s = ([], s)"
| "run_passes ((env, db, adb) # ps) s =
     (case schedule_pass env (s\<lparr>ss_inv := db, ss_alerts := adb\<rparr>) of
        (es, s1) \<Rightarrow> (case run_passes ps s1 of (fs, s2) \<Rightarrow> (es @ fs, s2)))"

text \<open>Once an agent's circuit is broken no later pass forwards anything to it, whatever happens to agents, work
  and time in between; and since only a delivery closes the circuit, it stays broken as long as the process runs.\<close>

theorem broken_circuit_stays:
  assumes "list_all (\<lambda>p. visits_all (fst p)) passes" "IsCircuitBroken (ss_health s) i"
    "run_passes passes s = (es, s1)"
  shows "IsCircuitBroken (ss_health s1) i \<and> \<not> list_ex (forwarded_to i) es"
  using assms
proof (induction passes arbitrary: s es)
  case (Cons p ps)
  obtain env db adb where p: "p = (env, db, adb)" by (rule prod_cases3)
  obtain e0 s0 where c: "schedule_pass env (s\<lparr>ss_inv := db, ss_alerts := adb\<rparr>) = (e0, s0)" by (rule prod.exhaust)
  obtain fs s2 where r: "run_passes ps s0 = (fs, s2)" by (rule prod.exhaust)
  have e: "es = e0 @ fs" "s1 = s2" using Cons.prems(3) p c r by simp_all
  have v: "visits_all env" "list_all (\<lambda>p. visits_all (fst p)) ps" using Cons.prems(1) p by simp_all
  have h: "ht_circuit (ss_health s0) i \<and> \<not> list_ex (forwarded_to i) e0"
    using schedule_other [OF v(1) _ c] Cons.prems(2) by (simp add: IsCircuitBroken_def)
  from Cons.IH [OF v(2) _ r [folded e(2)]] h e show ?case by (simp add: IsCircuitBroken_def)
qed (simp add: IsCircuitBroken_def)

definition no_alerts :: alert_db where
  "no_alerts = \<lparr>db_alerts = [], db_events = [], db_targets = [], db_links = []\<rparr>"

definition demo_invs :: "inv_row list \<Rightarrow> inv_db" where
  "demo_invs rs = \<lparr>id_rows = rs, id_links = [], id_updates = [], id_events = [], id_next = 5\<rparr>"

definition demo_sched :: "health_tracker \<Rightarrow> inv_row list \<Rightarrow> sched" where
  "demo_sched h rs =
     \<lparr>ss_backoff = Map.empty, ss_attempts = Map.empty, ss_health = h, ss_inv = demo_invs rs,
      ss_alerts = no_alerts, ss_incidents = []\<rparr>"

theorem broken_circuit_stays_witness:
  "let h = (RecordFailure ''a1'' ^^ 3) (NewAgentHealthTracker 50);
       pass = (demo_sched_env (\<lambda>a i. True), demo_invs [demo_row], no_alerts);
       r = run_passes [pass, pass] (demo_sched h [])
   in IsCircuitBroken (ss_health (snd r)) ''a1'' \<and> \<not> list_ex (forwarded_to ''a1'') (fst r)"
proof -
  let ?h = "(RecordFailure ''a1'' ^^ 3) (NewAgentHealthTracker 50)"
  let ?p = "(demo_sched_env (\<lambda>a i. True), demo_invs [demo_row], no_alerts)"
  have v: "list_all (\<lambda>p. visits_all (fst p)) [?p, ?p]" by (simp add: visits_all_def demo_sched_env_def)
  have b: "IsCircuitBroken (ss_health (demo_sched ?h [])) ''a1''"
    by (simp add: demo_sched_def NewAgentHealthTracker_def RecordFailure_def getOrCreate_def numeral_3_eq_3
      IsCircuitBroken_def Let_def)
  obtain es s1 where r: "run_passes [?p, ?p] (demo_sched ?h []) = (es, s1)" by (rule prod.exhaust)
  from broken_circuit_stays [OF v b r] show ?thesis unfolding Let_def r fst_conv snd_conv .
qed

subsection \<open>Claim and dispatch of one investigation\<close>

definition texts_ok :: "sched_env \<Rightarrow> bool" where
  "texts_ok env \<longleftrightarrow> (\<forall>u. ax_parse (se_ax env) (ax_text (se_ax env) u) = Some u)"

text \<open>The row with the key of \<open>g\<close> is replaced by \<open>g\<close>.\<close>

definition with_row :: "inv_row \<Rightarrow> inv_db \<Rightarrow> inv_db" where
  "with_row g db = db\<lparr>id_rows := map (\<lambda>x. if iv_id x = iv_id g then g else x) (id_rows db)\<rparr>"

lemma with_row_rows [simp]: "id_rows (with_row g db) = map (\<lambda>x. if iv_id x = iv_id g then g else x) (id_rows db)"
  by (simp add: with_row_def)

lemma map_unique_row:
  assumes "inv_wf db" "r \<in> set (id_rows db)" "\<And>x. iv_id (f x) = iv_id x"
  shows "db\<lparr>id_rows := map (\<lambda>x. if iv_id x = iv_id r then f x else x) (id_rows db)\<rparr> = with_row (f r) db"
proof -
  have "x = r" if "x \<in> set (id_rows db)" "iv_id x = iv_id r" for x
    using that assms(1,2) by (auto simp: inv_wf_def distinct_map dest: inj_onD)
  then have "map (\<lambda>x. if iv_id x = iv_id r then f x else x) (id_rows db) =
      map (\<lambda>x. if iv_id x = iv_id (f r) then f r else x) (id_rows db)"
    using assms(3) by (intro map_cong) auto
  then show ?thesis by (simp add: with_row_def)
qed

lemma find_with_row: "find_id (iv_id g) db = Some r \<Longrightarrow> find_id (iv_id g) (with_row g db) = Some g"
proof -
  have "List.find (\<lambda>r. iv_id r = iv_id g) rs = Some r \<Longrightarrow>
      List.find (\<lambda>r. iv_id r = iv_id g) (map (\<lambda>x. if iv_id x = iv_id g then g else x) rs) = Some g" for rs
    by (induction rs) (auto split: if_splits)
  then show "find_id (iv_id g) db = Some r \<Longrightarrow> ?thesis" by (simp add: find_id_def)
qed

lemma find_other_row: "u \<noteq> iv_id g \<Longrightarrow> find_id u (with_row g db) = find_id u db"
proof -
  assume u: "u \<noteq> iv_id g"
  have "List.find (\<lambda>r. iv_id r = u) (map (\<lambda>x. if iv_id x = iv_id g then g else x) rs) = List.find (\<lambda>r. iv_id r = u) rs" for rs
    using u by (induction rs) auto
  then show ?thesis by (simp add: find_id_def)
qed

lemma with_row_twice: "iv_id h = iv_id g \<Longrightarrow> with_row h (with_row g db) = with_row h db"
  by (simp add: with_row_def)

definition claimed :: "instant \<Rightarrow> string \<Rightarrow> string \<Rightarrow> string \<Rightarrow> int \<Rightarrow> inv_row \<Rightarrow> inv_row" where
  "claimed now ag nm ty lease r =
     r\<lparr>iv_status := ''assigned'', iv_agent := ag, iv_agent_name := nm, iv_agent_type := ty,
       iv_started := Some now, iv_lease := Some (now + (if lease \<le> 0 then 10 * go_minute else lease))\<rparr>"

lemma claimed_fields [simp]:
  "iv_id (claimed now ag nm ty lease r) = iv_id r" "iv_public (claimed now ag nm ty lease r) = iv_public r"
  "iv_status (claimed now ag nm ty lease r) = ''assigned''" "iv_agent (claimed now ag nm ty lease r) = ag"
  by (simp_all add: claimed_def)

lemma claim_wins:
  assumes "inv_wf db" "parse i = Some u" "find_id u db = Some r" "iv_status r = ''pending''"
  shows "ClaimPendingAlertInvestigation parse now i ag nm ty lease db =
    (let g = claimed now ag nm ty lease r
     in (Inr (toAlertInvestigationRecord (with_row g db) g), with_row g db))"
proof -
  have r: "r \<in> set (id_rows db)" "iv_id r = u" using find_id_SomeD [OF assms(3)] by auto
  let ?f = "claimed now ag nm ty lease"
  have "inv_checks (?f r)" using assms(1) r by (auto simp: inv_wf_def inv_checks_def inv_statuses_def claimed_def)
  note up = update_rows_find [OF assms(1) r(1), of ?f "\<lambda>x. iv_id x = u \<and> iv_status x = ''pending''"]
  have u1: "update_rows (\<lambda>x. iv_id x = u \<and> iv_status x = ''pending'') ?f db = (Inr 1, with_row (?f r) db)"
    and f1: "find_id u (with_row (?f r) db) = Some (?f r)"
    using up \<open>inv_checks (?f r)\<close> assms(4) r map_unique_row [OF assms(1) r(1), of ?f] by simp_all
  show ?thesis
    unfolding ClaimPendingAlertInvestigation_def claimed_def [symmetric] on_row_def need_row_def Let_def
    using assms(2) u1 f1 by simp
qed

lemma claim_none:
  assumes "find_id u db = None" "parse i = Some u"
  shows "ClaimPendingAlertInvestigation parse now i ag nm ty l db = (Inl InvNotFound, db)"
proof -
  have "\<not> (iv_id x = u \<and> iv_status x = ''pending'')" if "x \<in> set (id_rows db)" for x
    using that assms(1) by (auto simp: find_id_def find_None_iff)
  then have "filter (\<lambda>x. iv_id x = u \<and> iv_status x = ''pending'') (id_rows db) = []"
    "list_all (\<lambda>x. iv_id x = u \<and> iv_status x = ''pending'' \<longrightarrow> Q x) (id_rows db)" for Q
    by (auto simp: filter_empty_conv list_all_iff)
  then show ?thesis
    using assms(2) by (simp add: ClaimPendingAlertInvestigation_def on_row_def need_row_def update_rows_def)
qed

text \<open>The three outcomes of a dispatch for the tables.\<close>

definition set_status :: "string \<Rightarrow> inv_row \<Rightarrow> inv_row" where
  "set_status st r = r\<lparr>iv_status := st\<rparr>"

lemma set_status_fields [simp]:
  "iv_id (set_status st r) = iv_id r" "iv_public (set_status st r) = iv_public r" "iv_status (set_status st r) = st"
  by (simp_all add: set_status_def)

lemma set_status_eta: "set_status st = iv_status_update (\<lambda>_. st)"
  by (simp add: fun_eq_iff set_status_def)

definition attempts_of :: "sched \<Rightarrow> string \<Rightarrow> int" where
  "attempts_of s i = (case ss_attempts s i of None \<Rightarrow> 0 | Some (n, t) \<Rightarrow> n)"

lemma dispatch_delivered:
  assumes "dispatch env y a s = (ok, es, s1)" "attempts_of s (iv_public (ai_row y)) < maxDispatchAttempts"
    "se_forward env (tk_id a) (iv_public (ai_row y))"
  shows "ok \<and> ss_inv s1 = ss_inv s"
  using assms by (auto simp: dispatch_def attempts_of_def Let_def)

lemma dispatch_undelivered:
  assumes d: "dispatch env y a s = (ok, es, s1)"
    and n: "attempts_of s (iv_public g) < maxDispatchAttempts" and f: "\<not> se_forward env (tk_id a) (iv_public g)"
    and wf: "inv_wf (ss_inv s)" and t: "texts_ok env"
    and g: "ai_row y = g" "find_id (iv_id g) (ss_inv s) = Some g" "iv_status g = ''assigned''"
  shows "\<not> ok \<and> es = [SForward (tk_id a) (iv_public g) False] \<and>
    ss_inv s1 = with_row (set_status ''pending'' g) (ss_inv s) \<and> attempts_of s1 (iv_public g) = attempts_of s (iv_public g) + 1"
proof -
  have r: "g \<in> set (id_rows (ss_inv s))" using find_id_SomeD [OF g(2)] by simp
  have p: "ax_parse (se_ax env) (ax_text (se_ax env) (iv_id g)) = Some (iv_id g)" using t by (simp add: texts_ok_def)
  have "TransitionAlertInvestigationStatus (ax_parse (se_ax env)) (se_now env)
      (ax_text (se_ax env) (iv_id g)) [''assigned''] ''pending'' (ss_inv s) =
      (Inr (), with_row (set_status ''pending'' g) (ss_inv s))"
    using transition_Inr [where parse = "ax_parse (se_ax env)" and i = "ax_text (se_ax env) (iv_id g)"
        and froms = "[''assigned'']" and s = "''pending''" and now = "se_now env", OF wf p g(2)] g(3)
      map_unique_row [OF wf r, of "transition_inv_row (se_now env) ''pending''"]
    by (simp add: transition_inv_row_def inv_statuses_def set_status_def)
  then show ?thesis using d n f g(1) by (auto simp: dispatch_def attempts_of_def Let_def)
qed

lemma dispatch_exhausted:
  assumes d: "dispatch env y a s = (ok, es, s1)"
    and n: "\<not> attempts_of s (iv_public g) < maxDispatchAttempts"
    and wf: "inv_wf (ss_inv s)" and g: "ai_row y = g" "find_id (iv_id g) (ss_inv s) = Some g"
  shows "\<not> ok \<and> es = [SDeadLetter (iv_public g)] \<and> id_rows (ss_inv s1) = id_rows (with_row (set_status ''timed_out'' g) (ss_inv s)) \<and>
    inv_wf (ss_inv s1)"
proof -
  have r: "g \<in> set (id_rows (ss_inv s))" using find_id_SomeD [OF g(2)] by simp
  have same: "iv_public x = iv_public g \<longleftrightarrow> iv_id x = iv_id g" if "x \<in> set (id_rows (ss_inv s))" for x
    using that r wf by (auto simp: inv_wf_def distinct_map dest: inj_onD)
  let ?u = "UpdateAlertInvestigationStatus (iv_public g) ''timed_out'' (ss_inv s)"
  have c: "inv_checks (set_status ''timed_out'' g)"
    using wf r by (auto simp: inv_wf_def inv_checks_def inv_statuses_def set_status_def)
  have ex: "\<exists>x\<in>set (id_rows (ss_inv s)). iv_public x = iv_public g" using r by blast
  have "update_rows (\<lambda>x. iv_public x = iv_public g) (set_status ''timed_out'') (ss_inv s) =
      (Inr (length (filter (\<lambda>x. iv_public x = iv_public g) (id_rows (ss_inv s)))),
       with_row (set_status ''timed_out'' g) (ss_inv s))"
  proof -
    have u: "x = g" if "x \<in> set (id_rows (ss_inv s))" "iv_public x = iv_public g" for x
      using that r wf by (auto simp: inv_wf_def distinct_map dest: inj_onD)
    have "list_all (\<lambda>x. iv_public x = iv_public g \<longrightarrow> inv_checks (set_status ''timed_out'' x)) (id_rows (ss_inv s))"
      using u c by (auto simp: list_all_iff)
    moreover have "map (\<lambda>x. if iv_public x = iv_public g then set_status ''timed_out'' x else x) (id_rows (ss_inv s)) =
        map (\<lambda>x. if iv_id x = iv_id g then set_status ''timed_out'' g else x) (id_rows (ss_inv s))"
      using u same by (intro map_cong) auto
    ultimately show ?thesis by (simp add: update_rows_def with_row_def)
  qed
  then have u: "snd ?u = with_row (set_status ''timed_out'' g) (ss_inv s)"
    using ex unfolding UpdateAlertInvestigationStatus_def need_row_def set_status_eta [symmetric]
    by (auto simp: filter_empty_conv)
  have w: "inv_wf (snd ?u)" by (rule wf_Status [OF wf])
  let ?m = "AddAlertInvestigationUpdate (se_now env) (iv_public g) ''dead_lettered''
      (dead_letter_message (attempts_of s (iv_public g) + 1)) ''system'' True (snd ?u)"
  have "id_rows (snd ?m) = id_rows (snd ?u)"
    by (simp add: AddAlertInvestigationUpdate_def createUpdate_def split: option.split)
  moreover have "inv_wf (snd ?m)" using w
    by (auto simp: AddAlertInvestigationUpdate_def split: option.split dest!: find_public_SomeD intro!: wf_createUpdate)
  ultimately show ?thesis using d n g(1) u by (auto simp: dispatch_def attempts_of_def Let_def)
qed

text \<open>One scheduling attempt for the investigation with key \<open>u\<close>, and several of them in a row, each with the
  agent chosen for it.\<close>

definition attempt :: "sched_env \<Rightarrow> uuid \<Rightarrow> agent_token \<Rightarrow> sched \<Rightarrow> sched_effect list \<times> sched" where
  "attempt env u a s =
     (case ClaimPendingAlertInvestigation (ax_parse (se_ax env)) (se_now env) (ax_text (se_ax env) u)
             (tk_id a) (tk_name a) (tk_type a) (se_timeout env) (ss_inv s) of
        (Inl e, db) \<Rightarrow> ([], s\<lparr>ss_inv := db\<rparr>)
      | (Inr y, db) \<Rightarrow> (case dispatch env y a (s\<lparr>ss_inv := db\<rparr>) of (ok, es, s1) \<Rightarrow> (es, s1)))"

fun attempt_all :: "uuid \<Rightarrow> (sched_env \<times> agent_token) list \<Rightarrow> sched \<Rightarrow> sched_effect list \<times> sched" where
  "attempt_all u [] s = ([], s)"
| "attempt_all u ((env, a) # ts) s =
     (case attempt env u a s of
        (es, s1) \<Rightarrow> (case attempt_all u ts s1 of (fs, s2) \<Rightarrow> (es @ fs, s2)))"

lemma attempt_claims:
  assumes "inv_wf (ss_inv s)" "texts_ok env" "find_id u (ss_inv s) = Some r" "iv_status r = ''pending''"
  obtains g y where "g = claimed (se_now env) (tk_id a) (tk_name a) (tk_type a) (se_timeout env) r" "ai_row y = g"
    "iv_id g = u" "iv_public g = iv_public r" "iv_status g = ''assigned''" "iv_agent g = tk_id a"
    "ClaimPendingAlertInvestigation (ax_parse (se_ax env)) (se_now env) (ax_text (se_ax env) u)
       (tk_id a) (tk_name a) (tk_type a) (se_timeout env) (ss_inv s) = (Inr y, with_row g (ss_inv s))"
    "inv_wf (with_row g (ss_inv s))" "find_id u (with_row g (ss_inv s)) = Some g"
proof -
  let ?g = "claimed (se_now env) (tk_id a) (tk_name a) (tk_type a) (se_timeout env) r"
  have p: "ax_parse (se_ax env) (ax_text (se_ax env) u) = Some u" using assms(2) by (simp add: texts_ok_def)
  have u: "iv_id r = u" using find_id_SomeD [OF assms(3)] by simp
  note c = claim_wins [where parse = "ax_parse (se_ax env)" and i = "ax_text (se_ax env) u" and now = "se_now env"
      and ag = "tk_id a" and nm = "tk_name a" and ty = "tk_type a" and lease = "se_timeout env",
      OF assms(1) p assms(3,4), unfolded Let_def]
  have w: "inv_wf (with_row ?g (ss_inv s))"
    using wf_Claim [OF assms(1), of "ax_parse (se_ax env)" "se_now env" "ax_text (se_ax env) u" "tk_id a" "tk_name a"
        "tk_type a" "se_timeout env"] c by simp
  have f: "find_id u (with_row ?g (ss_inv s)) = Some ?g"
    using find_with_row [of ?g "ss_inv s" r] assms(3) u by simp
  show thesis
    by (rule that [of ?g "toAlertInvestigationRecord (with_row ?g (ss_inv s)) ?g"])
      (use u c w f in \<open>simp_all add: toAlertInvestigationRecord_def\<close>)
qed

lemma attempt_lost:
  assumes "inv_wf (ss_inv s)" "texts_ok env" "find_id u (ss_inv s) = Some r" "iv_status r \<noteq> ''pending''"
  shows "attempt env u a s = ([], s)"
proof -
  have p: "ax_parse (se_ax env) (ax_text (se_ax env) u) = Some u" using assms(2) by (simp add: texts_ok_def)
  show ?thesis
    using claim_lost [where parse = "ax_parse (se_ax env)" and i = "ax_text (se_ax env) u" and now = "se_now env"
      and ag = "tk_id a" and nm = "tk_name a" and ty = "tk_type a" and l = "se_timeout env", OF assms(1) p assms(3,4)]
    by (simp add: attempt_def)
qed

lemma attempts_after_end:
  assumes "inv_wf (ss_inv s)" "list_all (\<lambda>t. texts_ok (fst t)) ts" "find_id u (ss_inv s) = Some r" "iv_status r \<noteq> ''pending''"
  shows "attempt_all u ts s = ([], s)"
  using assms by (induction ts) (auto simp: attempt_lost)

lemma attempt_failing:
  assumes wf: "inv_wf (ss_inv s)" and t: "texts_ok env" and r: "find_id u (ss_inv s) = Some r" "iv_status r = ''pending''"
    and f: "\<not> se_forward env (tk_id a) (iv_public r)" and n: "attempts_of s (iv_public r) < maxDispatchAttempts"
    and at: "attempt env u a s = (es, s1)"
  shows "es = [SForward (tk_id a) (iv_public r) False] \<and> inv_wf (ss_inv s1) \<and>
    attempts_of s1 (iv_public r) = attempts_of s (iv_public r) + 1 \<and>
    (\<exists>r1. find_id u (ss_inv s1) = Some r1 \<and> iv_status r1 = ''pending'' \<and> iv_public r1 = iv_public r)"
proof -
  obtain g y where g: "ai_row y = g" "iv_id g = u" "iv_public g = iv_public r" "iv_status g = ''assigned''"
    "ClaimPendingAlertInvestigation (ax_parse (se_ax env)) (se_now env) (ax_text (se_ax env) u)
       (tk_id a) (tk_name a) (tk_type a) (se_timeout env) (ss_inv s) = (Inr y, with_row g (ss_inv s))"
    "inv_wf (with_row g (ss_inv s))" "find_id u (with_row g (ss_inv s)) = Some g"
    by (rule attempt_claims [OF wf t r])
  let ?s = "s\<lparr>ss_inv := with_row g (ss_inv s)\<rparr>"
  obtain ok fs s2 where d: "dispatch env y a ?s = (ok, fs, s2)" by (rule prod_cases3)
  have e: "es = fs" "s1 = s2" using at g(5) d by (simp_all add: attempt_def)
  have n2: "attempts_of ?s (iv_public g) < maxDispatchAttempts" using n g(3) by (simp add: attempts_of_def)
  have u2: "\<not> ok \<and> fs = [SForward (tk_id a) (iv_public g) False] \<and>
      ss_inv s2 = with_row (set_status ''pending'' g) (ss_inv ?s) \<and>
      attempts_of s2 (iv_public g) = attempts_of ?s (iv_public g) + 1"
    using f g by (intro dispatch_undelivered [OF d n2 _ _ t]) simp_all
  have p: "ax_parse (se_ax env) (ax_text (se_ax env) u) = Some u" using t by (simp add: texts_ok_def)
  have "find_id u (ss_inv s2) = Some (set_status ''pending'' g)"
    using find_with_row [of "set_status ''pending'' g" "ss_inv ?s" g] g u2 by simp
  moreover have "inv_wf (ss_inv s2)"
    using wf_Transition [OF g(6), of "ax_parse (se_ax env)" "se_now env" "ax_text (se_ax env) u" "[''assigned'']" "''pending''"]
      transition_Inr [where parse = "ax_parse (se_ax env)" and i = "ax_text (se_ax env) u"
        and froms = "[''assigned'']" and s = "''pending''" and now = "se_now env", OF g(6) p g(7)] g(4)
      map_unique_row [where r = g and db = "with_row g (ss_inv s)" and f = "transition_inv_row (se_now env) ''pending''", OF g(6)]
      find_id_SomeD [OF g(7)] g(2) u2
    by (simp add: transition_inv_row_def inv_statuses_def set_status_def)
  ultimately show ?thesis using e u2 g(3) by (simp add: attempts_of_def)
qed

lemma attempt_exhausted:
  assumes wf: "inv_wf (ss_inv s)" and t: "texts_ok env" and r: "find_id u (ss_inv s) = Some r" "iv_status r = ''pending''"
    and n: "\<not> attempts_of s (iv_public r) < maxDispatchAttempts" and at: "attempt env u a s = (es, s1)"
  shows "es = [SDeadLetter (iv_public r)] \<and> inv_wf (ss_inv s1) \<and>
    (\<exists>r1. find_id u (ss_inv s1) = Some r1 \<and> iv_status r1 = ''timed_out'')"
proof -
  obtain g y where g: "ai_row y = g" "iv_id g = u" "iv_public g = iv_public r"
    "ClaimPendingAlertInvestigation (ax_parse (se_ax env)) (se_now env) (ax_text (se_ax env) u)
       (tk_id a) (tk_name a) (tk_type a) (se_timeout env) (ss_inv s) = (Inr y, with_row g (ss_inv s))"
    "inv_wf (with_row g (ss_inv s))" "find_id u (with_row g (ss_inv s)) = Some g"
    by (rule attempt_claims [OF wf t r])
  let ?s = "s\<lparr>ss_inv := with_row g (ss_inv s)\<rparr>"
  obtain ok fs s2 where d: "dispatch env y a ?s = (ok, fs, s2)" by (rule prod_cases3)
  have e: "es = fs" "s1 = s2" using at g(4) d by (simp_all add: attempt_def)
  have n2: "\<not> attempts_of ?s (iv_public g) < maxDispatchAttempts" using n g(3) by (simp add: attempts_of_def)
  have x: "\<not> ok \<and> fs = [SDeadLetter (iv_public g)] \<and>
      id_rows (ss_inv s2) = id_rows (with_row (set_status ''timed_out'' g) (ss_inv ?s)) \<and> inv_wf (ss_inv s2)"
    using g by (intro dispatch_exhausted [OF d n2]) simp_all
  have "find_id u (with_row (set_status ''timed_out'' g) (ss_inv ?s)) = Some (set_status ''timed_out'' g)"
    using find_with_row [of "set_status ''timed_out'' g" "ss_inv ?s" g] g by simp
  then have "find_id u (ss_inv s2) = Some (set_status ''timed_out'' g)" using x by (simp add: find_id_def)
  then show ?thesis using e x g(3) by simp
qed

lemma attempts_fail:
  "inv_wf (ss_inv s) \<Longrightarrow> find_id u (ss_inv s) = Some r \<Longrightarrow> iv_status r = ''pending'' \<Longrightarrow> iv_public r = i \<Longrightarrow>
   attempts_of s i + int k = 6 \<Longrightarrow>
   list_all (\<lambda>t. texts_ok (fst t) \<and> \<not> se_forward (fst t) (tk_id (snd t)) i) ts \<Longrightarrow>
   attempt_all u ts s = (es, s1) \<Longrightarrow>
   es = map (\<lambda>t. SForward (tk_id (snd t)) i False) (take k ts) @ (if k < length ts then [SDeadLetter i] else []) \<and>
   (\<exists>r1. find_id u (ss_inv s1) = Some r1 \<and> iv_status r1 = (if k < length ts then ''timed_out'' else ''pending''))"
proof (induction ts arbitrary: s r k es)
  case (Cons t ts)
  obtain env a where t: "t = (env, a)" by (rule prod.exhaust)
  obtain e0 s0 where at: "attempt env u a s = (e0, s0)" by (rule prod.exhaust)
  obtain fs s2 where rest: "attempt_all u ts s0 = (fs, s2)" by (rule prod.exhaust)
  have e: "es = e0 @ fs" "s1 = s2" using Cons.prems(7) t at rest by simp_all
  have ok: "texts_ok env" "\<not> se_forward env (tk_id a) (iv_public r)"
    "list_all (\<lambda>t. texts_ok (fst t) \<and> \<not> se_forward (fst t) (tk_id (snd t)) i) ts"
    using Cons.prems(4,6) t by simp_all
  show ?case
  proof (cases k)
    case 0
    then have "\<not> attempts_of s (iv_public r) < maxDispatchAttempts" using Cons.prems(4,5) by (simp add: maxDispatchAttempts_def)
    from attempt_exhausted [OF Cons.prems(1) ok(1) Cons.prems(2,3) this at] Cons.prems(4)
    obtain r1 where x: "e0 = [SDeadLetter i]" "inv_wf (ss_inv s0)" "find_id u (ss_inv s0) = Some r1" "iv_status r1 = ''timed_out''"
      by blast
    have "list_all (\<lambda>t. texts_ok (fst t)) ts" using ok(3) by (simp add: list_all_iff)
    from attempts_after_end [OF x(2) this x(3)] x(4) have "fs = []" "s2 = s0" using rest by simp_all
    with 0 e x show ?thesis by simp
  next
    case (Suc k')
    then have "attempts_of s (iv_public r) < maxDispatchAttempts" using Cons.prems(4,5) by (simp add: maxDispatchAttempts_def)
    from attempt_failing [OF Cons.prems(1) ok(1) Cons.prems(2,3) ok(2) this at] Cons.prems(4)
    obtain r1 where x: "e0 = [SForward (tk_id a) i False]" "inv_wf (ss_inv s0)" "attempts_of s0 i = attempts_of s i + 1"
      "find_id u (ss_inv s0) = Some r1" "iv_status r1 = ''pending''" "iv_public r1 = i"
      by blast
    have "attempts_of s0 i + int k' = 6" using x(3) Suc Cons.prems(5) by simp
    from Cons.IH [OF x(2,4,5,6) this ok(3) rest [folded e(2)]] e x(1) Suc t show ?thesis by simp
  qed
qed simp

text \<open>Work that cannot be delivered: a pending investigation whose every delivery fails is forwarded at most six
  times; it is pending again after each failure, and the next attempt after the sixth marks it timed out without a
  forward. Further attempts do nothing.\<close>

theorem undeliverable_ends:
  assumes "inv_wf (ss_inv s)" "find_id u (ss_inv s) = Some r" "iv_status r = ''pending''"
    "ss_attempts s (iv_public r) = None"
    "list_all (\<lambda>t. texts_ok (fst t) \<and> \<not> se_forward (fst t) (tk_id (snd t)) (iv_public r)) tries"
    "attempt_all u tries s = (es, s1)"
  shows "es = map (\<lambda>t. SForward (tk_id (snd t)) (iv_public r) False) (take 6 tries) @
              (if 6 < length tries then [SDeadLetter (iv_public r)] else []) \<and>
    map_option iv_status (find_id u (ss_inv s1)) = Some (if 6 < length tries then ''timed_out'' else ''pending'')"
proof -
  have "attempts_of s (iv_public r) + int 6 = 6" using assms(4) by (simp add: attempts_of_def)
  from attempts_fail [OF assms(1,2,3) refl this assms(5,6)] show ?thesis by auto
qed

lemma demo_invs_wf: "inv_wf (demo_invs [demo_row])"
  by (simp add: inv_wf_def demo_invs_def demo_row_def inv_checks_def inv_statuses_def)

lemma demo_env_ok: "texts_ok (demo_sched_env f)" "visits_all (demo_sched_env f)"
  by (simp_all add: texts_ok_def visits_all_def demo_sched_env_def demo_ax_def)

theorem undeliverable_ends_witness:
  "let r = attempt_all 1 (replicate 8 (demo_sched_env (\<lambda>a i. False), demo_agent ''a1''))
             (demo_sched (NewAgentHealthTracker 50) [demo_row])
   in length (fst r) = 7 \<and> map_option iv_status (find_id 1 (ss_inv (snd r))) = Some ''timed_out''"
proof -
  let ?s = "demo_sched (NewAgentHealthTracker 50) [demo_row]"
  let ?t = "replicate 8 (demo_sched_env (\<lambda>a i. False), demo_agent ''a1'')"
  have i: "ss_inv ?s = demo_invs [demo_row]" "ss_attempts ?s (iv_public demo_row) = None" by (simp_all add: demo_sched_def)
  have f: "find_id 1 (ss_inv ?s) = Some demo_row" "iv_status demo_row = ''pending''"
    unfolding i by (simp_all add: find_id_def demo_invs_def demo_row_def)
  have t: "list_all (\<lambda>t. texts_ok (fst t) \<and> \<not> se_forward (fst t) (tk_id (snd t)) (iv_public demo_row)) ?t"
    by (simp add: list_all_iff demo_env_ok) (simp add: demo_sched_env_def)
  obtain es s1 where r: "attempt_all 1 ?t ?s = (es, s1)" by (rule prod.exhaust)
  from undeliverable_ends [OF demo_invs_wf [folded i(1)] f i(2) t r] show ?thesis unfolding r by simp
qed

subsection \<open>Capacity\<close>

definition active_for :: "string \<Rightarrow> inv_row \<Rightarrow> bool" where
  "active_for i r \<longleftrightarrow> iv_agent r = i \<and> List.member [''assigned'', ''investigating'', ''paused''] (iv_status r)"

lemma Count_active: "CountActiveByAgent i db = length (filter (active_for i) (id_rows db))"
  unfolding CountActiveByAgent_def active_for_def ..

lemma count_with_row:
  assumes "inv_wf db" "find_id (iv_id g) db = Some r"
  shows "CountActiveByAgent i (with_row g db) + of_bool (active_for i r) = CountActiveByAgent i db + of_bool (active_for i g)"
proof -
  have "distinct (map iv_id rs) \<Longrightarrow> r \<in> set rs \<Longrightarrow> iv_id r = iv_id g \<Longrightarrow>
      length (filter (active_for i) (map (\<lambda>x. if iv_id x = iv_id g then g else x) rs)) + of_bool (active_for i r) =
      length (filter (active_for i) rs) + of_bool (active_for i g)" for rs
  proof (induction rs)
    case (Cons x xs)
    show ?case
    proof (cases "x = r")
      case True
      then have "iv_id y \<noteq> iv_id g" if "y \<in> set xs" for y
        using that Cons.prems(1,3) by (metis distinct.simps(2) image_eqI list.set_map list.simps(9))
      then have "map (\<lambda>x. if iv_id x = iv_id g then g else x) xs = xs" by (intro map_idI) simp
      with True Cons.prems(3) show ?thesis by simp
    next
      case False
      with Cons.prems have "r \<in> set xs" by simp
      with Cons.prems have "iv_id x \<noteq> iv_id g" by (metis distinct.simps(2) image_eqI list.set_map list.simps(9))
      with Cons.IH Cons.prems \<open>r \<in> set xs\<close> show ?thesis by simp
    qed
  qed simp
  with assms show ?thesis using find_id_SomeD [OF assms(2)] by (simp add: Count_active inv_wf_def)
qed

text \<open>A claim followed by a dispatch adds at most one active investigation, to the agent it was made for, and none
  when the dispatch fails.\<close>

lemma claim_dispatch_count:
  assumes wf: "inv_wf (ss_inv s)" and t: "texts_ok env" and r: "find_id u (ss_inv s) = Some r" "iv_status r = ''pending''"
    and c: "ClaimPendingAlertInvestigation (ax_parse (se_ax env)) (se_now env) (ax_text (se_ax env) u)
       (tk_id a) (tk_name a) (tk_type a) (se_timeout env) (ss_inv s) = (Inr y, db)"
    and d: "dispatch env y a (s\<lparr>ss_inv := db\<rparr>) = (ok, es, s1)"
  shows "inv_wf (ss_inv s1) \<and>
    CountActiveByAgent i (ss_inv s1) = CountActiveByAgent i (ss_inv s) + of_bool (ok \<and> i = tk_id a)"
proof -
  obtain g where g: "ai_row y = g" "iv_id g = u" "iv_public g = iv_public r" "iv_status g = ''assigned''" "iv_agent g = tk_id a"
    "db = with_row g (ss_inv s)" "inv_wf db" "find_id u db = Some g"
  proof (rule attempt_claims [OF wf t r, of a])
    fix g z
    assume "ai_row z = g" "iv_id g = u" "iv_public g = iv_public r" "iv_status g = ''assigned''" "iv_agent g = tk_id a"
      "ClaimPendingAlertInvestigation (ax_parse (se_ax env)) (se_now env) (ax_text (se_ax env) u)
         (tk_id a) (tk_name a) (tk_type a) (se_timeout env) (ss_inv s) = (Inr z, with_row g (ss_inv s))"
      "inv_wf (with_row g (ss_inv s))" "find_id u (with_row g (ss_inv s)) = Some g"
    with c that [of g] show thesis by simp
  qed
  let ?s = "s\<lparr>ss_inv := db\<rparr>"
  have pen: "\<not> active_for i r" using r(2) by (simp add: active_for_def)
  have cg: "CountActiveByAgent i db = CountActiveByAgent i (ss_inv s) + of_bool (i = tk_id a)"
    using count_with_row [OF wf, of g r i] r(1) g pen by (auto simp: active_for_def)
  have freed: "CountActiveByAgent i (with_row (set_status st g) db) = CountActiveByAgent i (ss_inv s)"
    if "st = ''pending'' \<or> st = ''timed_out''" for st
    using count_with_row [OF g(7), of "set_status st g" g i] g cg that
    by (cases "i = tk_id a") (auto simp: active_for_def)
  show ?thesis
  proof (cases "attempts_of ?s (iv_public g) < maxDispatchAttempts")
    case False
    have "\<not> ok \<and> es = [SDeadLetter (iv_public g)] \<and>
        id_rows (ss_inv s1) = id_rows (with_row (set_status ''timed_out'' g) (ss_inv ?s)) \<and> inv_wf (ss_inv s1)"
      using g by (intro dispatch_exhausted [OF d False]) simp_all
    then show ?thesis using freed [of "''timed_out''"] by (simp add: Count_active)
  next
    case n: True
    show ?thesis
    proof (cases "se_forward env (tk_id a) (iv_public g)")
      case True
      with dispatch_delivered [OF d] n g(1) have "ok" "ss_inv s1 = db" by simp_all
      with g(7) cg show ?thesis by simp
    next
      case False
      have u: "\<not> ok \<and> es = [SForward (tk_id a) (iv_public g) False] \<and>
          ss_inv s1 = with_row (set_status ''pending'' g) (ss_inv ?s) \<and>
          attempts_of s1 (iv_public g) = attempts_of ?s (iv_public g) + 1"
        using g False by (intro dispatch_undelivered [OF d n _ _ t]) simp_all
      have "inv_wf (with_row (set_status ''pending'' g) db)"
        using wf_map_rows [OF g(7), of "\<lambda>x. if iv_id x = iv_id g then set_status ''pending'' x else x"]
          map_unique_row [where r = g and db = db and f = "set_status ''pending''", OF g(7)] find_id_SomeD [OF g(8)]
        by (simp add: inv_checks_def inv_statuses_def set_status_def)
      with u freed [of "''pending''"] show ?thesis by simp
    qed
  qed
qed

lemma bind_loop_capacity:
  assumes v: "visits_all env" and t: "texts_ok env"
  shows "inv_wf (ss_inv s) \<Longrightarrow> \<forall>a\<in>set online. int (CountActiveByAgent (tk_id a) (ss_inv s)) \<le> cache (tk_id a) \<Longrightarrow>
    bind_loop env online xs cache s = (es, s1) \<Longrightarrow>
    inv_wf (ss_inv s1) \<and> int (CountActiveByAgent i (ss_inv s1)) \<le> max (int (CountActiveByAgent i (ss_inv s))) (se_max env)"
proof (induction xs arbitrary: cache s es)
  case (Cons x xs)
  show ?case
  proof (cases "iv_status (ai_row x) = ''pending'' \<and> pickCandidate env (ss_health s) x online cache \<noteq> None")
    case False
    with Cons.prems(3) have "bind_loop env online xs cache s = (es, s1)" by (auto split: if_splits)
    with Cons.IH Cons.prems(1,2) show ?thesis by blast
  next
    case True
    then obtain a where p: "iv_status (ai_row x) = ''pending''" "pickCandidate env (ss_health s) x online cache = Some a" by auto
    have a: "a \<in> set online" "cache (tk_id a) < se_max env"
      using pickCandidate_eligible [OF p(2) v] by (auto simp: has_room_def)
    let ?u = "iv_id (ai_row x)"
    have pu: "ax_parse (se_ax env) (ax_text (se_ax env) ?u) = Some ?u" using t by (simp add: texts_ok_def)
    let ?cl = "ClaimPendingAlertInvestigation (ax_parse (se_ax env)) (se_now env) (ax_text (se_ax env) ?u)
       (tk_id a) (tk_name a) (tk_type a) (se_timeout env) (ss_inv s)"
    show ?thesis
    proof (cases "\<exists>r. find_id ?u (ss_inv s) = Some r \<and> iv_status r = ''pending''")
      case False
      have "?cl = (Inl InvNotFound, ss_inv s)"
      proof (cases "find_id ?u (ss_inv s)")
        case None
        from claim_none [where parse = "ax_parse (se_ax env)", OF this pu] show ?thesis .
      next
        case (Some r)
        with False have "iv_status r \<noteq> ''pending''" by simp
        from claim_lost [where parse = "ax_parse (se_ax env)", OF Cons.prems(1) pu Some this] show ?thesis .
      qed
      with Cons.prems(3) p have "bind_loop env online xs cache s = (es, s1)" by simp
      with Cons.IH Cons.prems(1,2) show ?thesis by blast
    next
      case True
      then obtain r where r: "find_id ?u (ss_inv s) = Some r" "iv_status r = ''pending''" by blast
      obtain y db where c: "?cl = (Inr y, db)" by (rule attempt_claims [OF Cons.prems(1) t r, of a])
      obtain ok es0 s0 where d: "dispatch env y a (s\<lparr>ss_inv := db\<rparr>) = (ok, es0, s0)" by (rule prod_cases3)
      let ?cache = "if ok then cache(tk_id a := cache (tk_id a) + 1) else cache"
      obtain fs s2 where b: "bind_loop env online xs ?cache s0 = (fs, s2)" by (rule prod.exhaust)
      have e: "es = es0 @ fs" "s1 = s2" using Cons.prems(3) p c d b by simp_all
      note cd = claim_dispatch_count [OF Cons.prems(1) t r c d]
      have inv: "\<forall>b\<in>set online. int (CountActiveByAgent (tk_id b) (ss_inv s0)) \<le> ?cache (tk_id b)"
        using Cons.prems(2) cd by auto
      from Cons.IH [OF conjunct1 [OF cd] inv b [folded e(2)]]
      have ih: "inv_wf (ss_inv s1)"
        "int (CountActiveByAgent i (ss_inv s1)) \<le> max (int (CountActiveByAgent i (ss_inv s0))) (se_max env)" by simp_all
      have "int (CountActiveByAgent i (ss_inv s0)) \<le> max (int (CountActiveByAgent i (ss_inv s))) (se_max env)"
      proof (cases "ok \<and> i = tk_id a")
        case True
        with cd [of i] Cons.prems(2) a have "int (CountActiveByAgent i (ss_inv s0)) \<le> cache (tk_id a) + 1" by auto
        with a(2) show ?thesis by simp
      next
        case False
        with cd [of i] show ?thesis by simp
      qed
      with ih show ?thesis by simp
    qed
  qed
qed simp

lemma expire_leases_count:
  assumes "inv_wf (ss_inv s)" "expireInvestigationLeases env s = (es, s1)"
  shows "inv_wf (ss_inv s1) \<and> CountActiveByAgent i (ss_inv s1) \<le> CountActiveByAgent i (ss_inv s)"
proof (cases "se_expire_ok env")
  case True
  let ?f = "\<lambda>r. if lapsed (se_now env) r then handed_back r else r"
  have inv: "ss_inv s1 = (ss_inv s)\<lparr>id_rows := map ?f (id_rows (ss_inv s))\<rparr>"
    using assms(2) True by (auto simp: expireInvestigationLeases_def expire_eq)
  have "length (filter (active_for i) (map ?f rs)) \<le> length (filter (active_for i) rs)" for rs
    by (induction rs) (auto simp: active_for_def handed_back_def)
  moreover have "inv_wf ((ss_inv s)\<lparr>id_rows := map ?f (id_rows (ss_inv s))\<rparr>)"
    by (rule wf_map_rows [OF assms(1)]) (auto simp: handed_back_def inv_checks_def inv_statuses_def)
  ultimately show ?thesis unfolding inv Count_active by simp
qed (use assms in \<open>auto simp: expireInvestigationLeases_def\<close>)

lemma cache_counts:
  "se_count_ok env \<Longrightarrow> a \<in> set online \<Longrightarrow> buildCapacityCache env online db (tk_id a) = int (CountActiveByAgent (tk_id a) db)"
proof -
  assume a: "se_count_ok env" "a \<in> set online"
  have "map_of (map (\<lambda>ag. (ag, CountActiveByAgent ag db)) is) (tk_id a) = Some (CountActiveByAgent (tk_id a) db)"
    if "tk_id a \<in> set is" for "is"
    using that by (induction "is") auto
  with a show ?thesis by (simp add: buildCapacityCache_def CountActiveByAgents_def)
qed

text \<open>C25. A scheduling pass never gives an agent more than the configured number of active investigations: after it, an
  agent has at most as many as before or at most the maximum, whichever is larger, whatever deliveries fail in
  between. It needs the count query to succeed; the code schedules without limits when it fails.\<close>

theorem capacity_respected:
  assumes "inv_wf (ss_inv s)" "visits_all env" "texts_ok env" "se_count_ok env" "schedule_pass env s = (es, s1)"
  shows "inv_wf (ss_inv s1) \<and>
    int (CountActiveByAgent i (ss_inv s1)) \<le> max (int (CountActiveByAgent i (ss_inv s))) (se_max env)"
proof -
  obtain e0 s0 where x: "expireInvestigationLeases env s = (e0, s0)" by (rule prod.exhaust)
  note h = expire_leases_count [OF assms(1) x, of i]
  show ?thesis
  proof (cases "se_agents env = None \<or> filterOnlineAgents env (the (se_agents env)) = [] \<or> \<not> se_pending_ok env")
    case True
    with assms(5) x have "s1 = s0" by (auto simp: schedule_pass_def Let_def split: option.splits if_splits)
    with h show ?thesis by (simp add: le_max_iff_disj)
  next
    case False
    then obtain agents where ag: "se_agents env = Some agents" "filterOnlineAgents env agents \<noteq> []" "se_pending_ok env"
      by auto
    let ?all = "filterOnlineAgents env agents"
    let ?on = "filter (\<lambda>a. \<not> IsCircuitBroken (ss_health s0) (tk_id a)) ?all"
    obtain xs s2 where w: "pending_work env s0 = (xs, s2)" by (rule prod.exhaust)
    then have w2: "ss_inv s2 = ss_inv s0" by (auto simp: pending_work_def split: prod.splits)
    obtain fs s3 where b: "bind_loop env ?on xs (buildCapacityCache env ?all (ss_inv s0)) s2 = (fs, s3)"
      by (rule prod.exhaust)
    have e: "s1 = s3" using assms(5) x ag w b by (simp add: schedule_pass_def Let_def)
    have "\<forall>a\<in>set ?on. int (CountActiveByAgent (tk_id a) (ss_inv s2)) \<le> buildCapacityCache env ?all (ss_inv s0) (tk_id a)"
      using cache_counts [OF assms(4)] w2 by simp
    from bind_loop_capacity [OF assms(2,3) _ this b, of i] h w2 e show ?thesis by auto
  qed
qed

theorem capacity_respected_witness:
  "let s1 = snd (schedule_pass (demo_sched_env (\<lambda>a i. True)) (demo_sched (NewAgentHealthTracker 50) [demo_row]))
   in inv_wf (ss_inv s1) \<and> int (CountActiveByAgent ''a1'' (ss_inv s1)) \<le> 3"
proof -
  let ?s = "demo_sched (NewAgentHealthTracker 50) [demo_row]"
  let ?e = "demo_sched_env (\<lambda>a i. True)"
  have i: "ss_inv ?s = demo_invs [demo_row]" by (simp add: demo_sched_def)
  have z: "CountActiveByAgent ''a1'' (ss_inv ?s) = 0" "se_max ?e = 3" "se_count_ok ?e"
    unfolding i by (simp_all add: CountActiveByAgent_def demo_invs_def demo_row_def demo_sched_env_def)
  obtain es s1 where r: "schedule_pass ?e ?s = (es, s1)" by (rule prod.exhaust)
  from capacity_respected [OF demo_invs_wf [folded i] demo_env_ok(2,1) z(3) r, of "''a1''"] z
  show ?thesis unfolding r by simp
qed

end
