(* ===== verification/Leader.thy ===== *)
theory Leader
  imports Prelude
begin

text \<open>
  Leader election between the replicas (\<^verbatim>\<open>valkey/leader.go\<close>, \<^verbatim>\<open>acquireLeadership\<close> of
  \<^verbatim>\<open>worker/scheduler.go\<close>). The shared state is one key with its owner and expiry; a replica keeps the flag
  \<open>held\<close>. A command is answered, or fails for the caller, in which case it may or may not have
  taken effect on the server.
\<close>

subsection \<open>The lease\<close>

datatype reply = Answered | Failed bool \<comment> \<open>whether the command was carried out\<close>

type_synonym lease_key = "(string \<times> instant) option"

definition lease_free :: "instant \<Rightarrow> lease_key \<Rightarrow> bool" where
  "lease_free now k = (case k of None \<Rightarrow> True | Some (w, e) \<Rightarrow> e \<le> now)"

definition lease_owner :: "instant \<Rightarrow> string \<Rightarrow> lease_key \<Rightarrow> bool" where
  "lease_owner now me k = (case k of None \<Rightarrow> False | Some (w, e) \<Rightarrow> now < e \<and> w = me)"

text \<open>The whole seconds sent to the server.\<close>

definition lease_secs :: "int \<Rightarrow> int" where
  "lease_secs ttl0 =
     (let ttl = (if ttl0 \<le> 0 then 15 * go_second else ttl0);
          secs = ttl div go_second
      in if secs \<le> 0 then 15 else secs)"

text \<open>Results: the answer (\<open>None\<close>: an error), the key, the flag.\<close>

definition Acquire :: "reply \<Rightarrow> int \<Rightarrow> instant \<Rightarrow> string \<Rightarrow> lease_key \<Rightarrow> bool \<Rightarrow> bool option \<times> lease_key \<times> bool" where
  "Acquire r ttl now me k held =
     (let k1 = (if lease_free now k then Some (me, now + lease_secs ttl * go_second) else k)
      in case r of
           Answered \<Rightarrow> if lease_free now k then (Some True, k1, True) else (Some False, k, False)
         | Failed applied \<Rightarrow> (None, if applied then k1 else k, held))"

definition Renew :: "reply \<Rightarrow> int \<Rightarrow> instant \<Rightarrow> string \<Rightarrow> lease_key \<Rightarrow> bool \<Rightarrow> bool option \<times> lease_key \<times> bool" where
  "Renew r ttl now me k held =
     (let k1 = (if lease_owner now me k then Some (me, now + lease_secs ttl * go_second) else k)
      in case r of
           Answered \<Rightarrow> if lease_owner now me k then (Some True, k1, True) else (Some False, k, False)
         | Failed applied \<Rightarrow> (None, if applied then k1 else k, held))"

definition Release :: "reply \<Rightarrow> instant \<Rightarrow> string \<Rightarrow> lease_key \<Rightarrow> lease_key \<times> bool" where
  "Release r now me k =
     (let k1 = (if lease_owner now me k then None else k)
      in (case r of Answered \<Rightarrow> k1 | Failed applied \<Rightarrow> if applied then k1 else k, False))"

subsection \<open>Replicas\<close>

record election =
  el_key :: lease_key
  el_held :: "string \<Rightarrow> bool"

definition IsLeader :: "string \<Rightarrow> election \<Rightarrow> bool" where
  "IsLeader me s = el_held s me"

definition acquireLeadership :: "int \<Rightarrow> instant \<Rightarrow> string \<Rightarrow> reply \<Rightarrow> reply \<Rightarrow> election \<Rightarrow> bool \<times> election" where
  "acquireLeadership ttl now me r1 r2 s =
     (let (renewed, k1, h1) =
            (if IsLeader me s then Renew r1 ttl now me (el_key s) (el_held s me)
             else (Some False, el_key s, el_held s me))
      in if renewed = Some True
         then (True, s\<lparr>el_key := k1, el_held := (el_held s)(me := h1)\<rparr>)
         else (let (ok, k2, h2) = Acquire r2 ttl now me k1 h1
               in (ok = Some True, s\<lparr>el_key := k2, el_held := (el_held s)(me := h2)\<rparr>)))"

datatype election_op =
    Try instant string reply reply
  | Leave instant string reply

fun op_time :: "election_op \<Rightarrow> instant" where
  "op_time (Try t w r1 r2) = t"
| "op_time (Leave t w r) = t"

text \<open>A sequence of steps of the replicas, with the answers of their attempts.\<close>

fun run_election :: "int \<Rightarrow> election_op list \<Rightarrow> election \<Rightarrow> (string \<times> bool) list \<times> election" where
  "run_election ttl [] s = ([], s)"
| "run_election ttl (Try t w r1 r2 # xs) s =
     (case acquireLeadership ttl t w r1 r2 s of
        (ok, s1) \<Rightarrow> (case run_election ttl xs s1 of (res, s2) \<Rightarrow> ((w, ok) # res, s2)))"
| "run_election ttl (Leave t w r # xs) s =
     (case Release r t w (el_key s) of
        (k, h) \<Rightarrow> run_election ttl xs (s\<lparr>el_key := k, el_held := (el_held s)(w := h)\<rparr>))"

subsection \<open>Properties\<close>

lemma lease_secs_pos: "0 < lease_secs ttl"
  by (simp add: lease_secs_def Let_def)

text \<open>While \<open>a\<close> owns the key until \<open>e\<close>, only \<open>a\<close> gets a positive answer before \<open>e\<close>.\<close>

definition owned_until :: "string \<Rightarrow> instant \<Rightarrow> election \<Rightarrow> bool" where
  "owned_until a e s = (case el_key s of None \<Rightarrow> False | Some (w, x) \<Rightarrow> w = a \<and> e \<le> x)"

lemma try_owned:
  assumes "owned_until a e s" "t < e" "e \<le> t + lease_secs ttl * go_second" "acquireLeadership ttl t w r1 r2 s = (ok, s1)"
  shows "owned_until a e s1 \<and> (w \<noteq> a \<longrightarrow> \<not> ok)"
proof -
  from assms(1) obtain x where x: "el_key s = Some (a, x)" "e \<le> x" by (auto simp: owned_until_def split: option.splits)
  with assms(2,3,4) show ?thesis
    by (auto simp: acquireLeadership_def Renew_def Acquire_def lease_free_def lease_owner_def owned_until_def Let_def
        split: if_splits reply.splits prod.splits)
qed

lemma success_owns:
  assumes "acquireLeadership ttl t a r1 r2 s = (True, s1)"
  shows "owned_until a (t + lease_secs ttl * go_second) s1"
  using assms
  by (auto simp: acquireLeadership_def Renew_def Acquire_def owned_until_def Let_def split: if_splits reply.splits prod.splits)


definition no_election :: election where
  "no_election = \<lparr>el_key = None, el_held = (\<lambda>w. False)\<rparr>"


text \<open>The flag is no such guarantee: when the leader cannot reach the server any more, its flag stays set however
  often it tries, while another replica takes the lapsed lease. From then on both are leaders for the passes that
  ask the flag only (hand-offs and summaries).\<close>

theorem stale_leader_flag:
  assumes "acquireLeadership ttl t a r1 r2 s = (True, s1)" "a \<noteq> b" "\<not> IsLeader b s"
    "t + lease_secs ttl * go_second \<le> t2"
  shows "let s2 = snd (run_election ttl (map (\<lambda>u. Try u a (Failed False) (Failed False)) polls @ [Try t2 b Answered Answered]) s1)
         in IsLeader a s2 \<and> IsLeader b s2"
proof -
  have h: "el_held s1 a" "\<not> el_held s1 b" "el_key s1 = Some (a, t + lease_secs ttl * go_second)"
    using assms(1,2,3)
    by (auto simp: acquireLeadership_def IsLeader_def Renew_def Acquire_def Let_def split: if_splits reply.splits prod.splits)
  have lost: "acquireLeadership ttl u a (Failed False) (Failed False) x = (False, x)" if "el_held x a" for u x
    using that by (simp add: acquireLeadership_def IsLeader_def Renew_def Acquire_def fun_upd_idem)
  have "el_held x a \<Longrightarrow> snd (run_election ttl (map (\<lambda>u. Try u a (Failed False) (Failed False)) polls @ ys) x) =
      snd (run_election ttl ys x)" for ys x
    by (induction polls) (simp_all add: lost case_prod_unfold)
  from this [OF h(1), of "[Try t2 b Answered Answered]"] h assms(2,4) show ?thesis
    by (auto simp: acquireLeadership_def IsLeader_def Acquire_def lease_free_def Let_def)
qed

theorem stale_leader_flag_witness:
  "let s1 = snd (acquireLeadership 0 0 ''a'' Answered Answered no_election);
       s2 = snd (run_election 0 (map (\<lambda>u. Try u ''a'' (Failed False) (Failed False)) [go_second] @
                  [Try (20 * go_second) ''b'' Answered Answered]) s1)
   in IsLeader ''a'' s2 \<and> IsLeader ''b'' s2"
proof -
  obtain s1 where a: "acquireLeadership 0 0 ''a'' Answered Answered no_election = (True, s1)"
    by (simp add: acquireLeadership_def IsLeader_def no_election_def Acquire_def lease_free_def)
  have b: "\<not> IsLeader ''b'' no_election" by (simp add: IsLeader_def no_election_def)
  have "0 + lease_secs 0 * go_second \<le> 20 * go_second" by (simp add: lease_secs_def go_second_def)
  from stale_leader_flag [OF a _ b this, of "[go_second]"] show ?thesis unfolding a snd_conv by simp
qed

end
