(* ===== verification/Outbox.thy ===== *)
theory Outbox
  imports Prelude
begin

text \<open>
  The transactional outbox (\<^verbatim>\<open>store/outbox.go\<close>, \<^verbatim>\<open>worker/outbox.go\<close>, schema in
  \<^verbatim>\<open>db/migrations/00012_audit_outbox.sql\<close>) with the retry schedule of \<^verbatim>\<open>rabbitmq/retry.go\<close>: rows
  wait as pending, are published by a periodic worker, and after four failures stay failed for good. Payloads are
  texts.
\<close>

subsection \<open>Table\<close>

record outbox_row =
  ob_id :: uuid
  ob_type :: string
  ob_aggregate :: string
  ob_exchange :: string
  ob_routing :: string
  ob_payload :: string
  ob_status :: string
  ob_event :: string
  ob_retry :: int
  ob_created :: instant
  ob_published :: "instant option"
  ob_next :: "instant option"

definition MaxOutboxRetries :: int where
  "MaxOutboxRetries = 4"

definition outbox_checks :: "outbox_row \<Rightarrow> bool" where
  "outbox_checks r \<longleftrightarrow> ob_type r \<noteq> [] \<and> ob_exchange r \<noteq> [] \<and> 0 \<le> ob_retry r \<and>
     List.member [''pending'', ''published'', ''failed''] (ob_status r)"

text \<open>\<open>newid\<close>: a new key. A statement fails on an error or a violated constraint.\<close>

definition InsertOutbox ::
    "bool \<Rightarrow> instant \<Rightarrow> uuid \<Rightarrow> string \<Rightarrow> string \<Rightarrow> string \<Rightarrow> string \<Rightarrow> string \<Rightarrow> string \<Rightarrow> outbox_row list
     \<Rightarrow> bool \<times> outbox_row list" where
  "InsertOutbox ok now newid ty agg ex key body ev tab =
     (let r = \<lparr>ob_id = newid, ob_type = ty, ob_aggregate = agg, ob_exchange = ex, ob_routing = key, ob_payload = body,
               ob_status = ''pending'', ob_event = ev, ob_retry = 0, ob_created = now, ob_published = None, ob_next = None\<rparr>
      in if ok \<and> outbox_checks r \<and> newid \<notin> ob_id ` set tab then (True, tab @ [r]) else (False, tab))"

definition due :: "instant \<Rightarrow> outbox_row \<Rightarrow> bool" where
  "due now r \<longleftrightarrow>
     (ob_status r = ''pending'' \<or> ob_status r = ''failed'' \<and> ob_retry r < MaxOutboxRetries) \<and>
     (case ob_next r of None \<Rightarrow> True | Some t \<Rightarrow> t \<le> now)"

definition FetchUnpublished :: "instant \<Rightarrow> int \<Rightarrow> outbox_row list \<Rightarrow> outbox_row list" where
  "FetchUnpublished now limit tab =
     (let limit = min (if limit \<le> 0 then 100 else limit) 500
      in take (nat limit) (sort_key ob_created (filter (due now) tab)))"

definition on_id :: "uuid \<Rightarrow> (outbox_row \<Rightarrow> outbox_row) \<Rightarrow> outbox_row list \<Rightarrow> outbox_row list" where
  "on_id i f tab = map (\<lambda>r. if ob_id r = i then f r else r) tab"

definition published_row :: "instant \<Rightarrow> outbox_row \<Rightarrow> outbox_row" where
  "published_row t r = r\<lparr>ob_status := ''published'', ob_published := Some t\<rparr>"

definition retried_row :: "instant option \<Rightarrow> outbox_row \<Rightarrow> outbox_row" where
  "retried_row t r = r\<lparr>ob_retry := ob_retry r + 1, ob_status := ''failed'', ob_next := t\<rparr>"

definition failed_row :: "outbox_row \<Rightarrow> outbox_row" where
  "failed_row r = r\<lparr>ob_retry := MaxOutboxRetries, ob_status := ''failed'', ob_next := None\<rparr>"

definition MarkPublished :: "bool \<Rightarrow> uuid \<Rightarrow> instant \<Rightarrow> outbox_row list \<Rightarrow> outbox_row list" where
  "MarkPublished ok i t tab = (if ok then on_id i (published_row t) tab else tab)"

definition IncrementRetry :: "bool \<Rightarrow> uuid \<Rightarrow> instant option \<Rightarrow> outbox_row list \<Rightarrow> outbox_row list" where
  "IncrementRetry ok i t tab = (if ok then on_id i (retried_row t) tab else tab)"

definition MarkFailed :: "bool \<Rightarrow> uuid \<Rightarrow> outbox_row list \<Rightarrow> outbox_row list" where
  "MarkFailed ok i tab = (if ok then on_id i failed_row tab else tab)"

definition PrunePublished :: "bool \<Rightarrow> instant \<Rightarrow> outbox_row list \<Rightarrow> outbox_row list" where
  "PrunePublished ok t tab =
     (if ok then filter (\<lambda>r. \<not> (ob_status r = ''published'' \<and> ob_created r < t)) tab else tab)"

definition GetOutbox :: "uuid \<Rightarrow> outbox_row list \<Rightarrow> outbox_row option" where
  "GetOutbox i tab = List.find (\<lambda>r. ob_id r = i) tab"

subsection \<open>Worker\<close>

definition RetrySchedule :: "int list" where
  "RetrySchedule = [go_minute, 5 * go_minute, 15 * go_minute, 60 * go_minute]"

definition nextAttempt :: "instant \<Rightarrow> int \<Rightarrow> instant" where
  "nextAttempt now retryCount =
     (let stage = max 0 (retryCount - 1);
          stage = (if stage \<ge> int (length RetrySchedule) then int (length RetrySchedule) - 1 else stage)
      in now + RetrySchedule ! nat stage)"

text \<open>What the broker and the database answer during one scan; \<open>oe_store\<close>: the UPDATE for a row.\<close>

record outbox_env =
  oe_now :: instant
  oe_prune :: bool
  oe_fetch :: bool
  oe_publish :: "uuid \<Rightarrow> bool"
  oe_store :: "uuid \<Rightarrow> bool"

record outbox_worker =
  ow_retention :: int
  ow_pruneEvery :: int
  ow_ticks :: int

text \<open>An attempt is the row's key and whether the broker took the message.\<close>

definition publishOne :: "outbox_env \<Rightarrow> outbox_row \<Rightarrow> outbox_row list \<Rightarrow> (uuid \<times> bool) \<times> outbox_row list" where
  "publishOne env r tab =
     (let i = ob_id r; ok = oe_store env i
      in if oe_publish env i then ((i, True), MarkPublished ok i (oe_now env) tab)
         else ((i, False),
               if ob_retry r + 1 \<ge> MaxOutboxRetries then MarkFailed ok i tab
               else IncrementRetry ok i (Some (nextAttempt (oe_now env) (ob_retry r + 1))) tab))"

fun publish_loop :: "outbox_env \<Rightarrow> outbox_row list \<Rightarrow> outbox_row list \<Rightarrow> (uuid \<times> bool) list \<times> outbox_row list" where
  "publish_loop env [] tab = ([], tab)"
| "publish_loop env (r # rs) tab =
     (case publishOne env r tab of
        (a, tab1) \<Rightarrow> (case publish_loop env rs tab1 of (as, tab2) \<Rightarrow> (a # as, tab2)))"

definition outbox_tick ::
    "outbox_env \<Rightarrow> outbox_worker \<Rightarrow> outbox_row list \<Rightarrow> (uuid \<times> bool) list \<times> outbox_worker \<times> outbox_row list" where
  "outbox_tick env w tab =
     (let w1 = w\<lparr>ow_ticks := ow_ticks w + 1\<rparr>;
          tab1 = (if ow_retention w > 0 \<and> ow_pruneEvery w > 0 \<and> ow_ticks w1 smod ow_pruneEvery w = 0
                  then PrunePublished (oe_prune env) (oe_now env - ow_retention w) tab else tab)
      in if \<not> oe_fetch env then ([], w1, tab1)
         else (case publish_loop env (FetchUnpublished (oe_now env) 100 tab1) tab1 of
                 (as, tab2) \<Rightarrow> (as, w1, tab2)))"

fun run_ticks :: "outbox_env list \<Rightarrow> outbox_worker \<Rightarrow> outbox_row list \<Rightarrow> (uuid \<times> bool) list \<times> outbox_row list" where
  "run_ticks [] w tab = ([], tab)"
| "run_ticks (e # es) w tab =
     (case outbox_tick e w tab of
        (as, w1, tab1) \<Rightarrow> (case run_ticks es w1 tab1 of (bs, tab2) \<Rightarrow> (as @ bs, tab2)))"

subsection \<open>Properties\<close>

definition keys_ok :: "outbox_row list \<Rightarrow> bool" where
  "keys_ok tab \<longleftrightarrow> distinct (map ob_id tab) \<and>
     list_all (\<lambda>r. 0 \<le> ob_retry r \<and> ob_retry r \<le> MaxOutboxRetries \<and> (ob_status r = ''pending'' \<longrightarrow> ob_retry r = 0)) tab"

text \<open>The attempts left to the row with key \<open>i\<close>.\<close>

definition attempts_left :: "uuid \<Rightarrow> outbox_row list \<Rightarrow> nat" where
  "attempts_left i tab =
     (case GetOutbox i tab of
        None \<Rightarrow> 0
      | Some r \<Rightarrow> if ob_status r = ''published'' then 0 else nat (MaxOutboxRetries - ob_retry r))"

definition tries :: "uuid \<Rightarrow> (uuid \<times> bool) list \<Rightarrow> bool list" where
  "tries i as = map snd (filter (\<lambda>a. fst a = i) as)"

lemma tries_simps [simp]:
  "tries i [] = []" "tries i ((j, b) # as) = (if j = i then b # tries i as else tries i as)"
  "tries i (as @ bs) = tries i as @ tries i bs"
  by (simp_all add: tries_def)

lemma keys_on_id:
  assumes "keys_ok tab" "\<And>r. ob_id (f r) = ob_id r"
    "\<And>r. r \<in> set tab \<Longrightarrow> 0 \<le> ob_retry r \<Longrightarrow> ob_id r = i \<Longrightarrow> 0 \<le> ob_retry (f r) \<and> ob_retry (f r) \<le> MaxOutboxRetries \<and>
      (ob_status (f r) = ''pending'' \<longrightarrow> ob_retry (f r) = 0)"
  shows "keys_ok (on_id i f tab)"
proof -
  have "map ob_id (on_id i f tab) = map ob_id tab" using assms(2) by (simp add: on_id_def)
  then have "distinct (map ob_id (on_id i f tab))" using assms(1) by (simp add: keys_ok_def)
  with assms(1,3) show ?thesis unfolding keys_ok_def by (auto simp: on_id_def list_all_iff)
qed

lemma get_on_id:
  assumes "\<And>r. ob_id (f r) = ob_id r"
  shows "GetOutbox j (on_id i f tab) = (if j = i then map_option f (GetOutbox i tab) else GetOutbox j tab)"
  using assms by (induction tab) (auto simp: GetOutbox_def on_id_def)

lemma get_SomeD: "GetOutbox i tab = Some r \<Longrightarrow> r \<in> set tab \<and> ob_id r = i"
  unfolding GetOutbox_def by (induction tab) (auto split: if_splits)

lemma get_member: "keys_ok tab \<Longrightarrow> r \<in> set tab \<Longrightarrow> GetOutbox (ob_id r) tab = Some r"
  unfolding GetOutbox_def keys_ok_def by (induction tab) (auto simp: image_iff)

lemma row_ids [simp]:
  "ob_id (published_row t r) = ob_id r" "ob_id (retried_row u r) = ob_id r" "ob_id (failed_row r) = ob_id r"
  by (simp_all add: published_row_def retried_row_def failed_row_def)

text \<open>One attempt on the present row with a working store: the attempts left go down to 0 on success, by one on
  failure; other rows are untouched.\<close>

lemma publishOne_step:
  assumes "keys_ok tab" "GetOutbox (ob_id r) tab = Some r" "oe_store env (ob_id r)" "ob_status r \<noteq> ''published''"
    "ob_retry r < MaxOutboxRetries" "publishOne env r tab = (a, tab1)"
  shows "keys_ok tab1 \<and> fst a = ob_id r \<and>
    (if snd a then attempts_left (ob_id r) tab1 = 0 else attempts_left (ob_id r) tab = Suc (attempts_left (ob_id r) tab1)) \<and>
    (\<forall>j. j \<noteq> ob_id r \<longrightarrow> GetOutbox j tab1 = GetOutbox j tab)"
proof -
  let ?i = "ob_id r"
  have uniq: "x = r" if "x \<in> set tab" "ob_id x = ?i" for x
    using get_member [OF assms(1) that(1)] that(2) assms(2) by simp
  have r0: "0 \<le> ob_retry r"
  proof -
    have "r \<in> set tab" using assms(2) by (auto simp: GetOutbox_def find_Some_iff)
    with assms(1) show ?thesis by (simp add: keys_ok_def list_all_iff)
  qed
  show ?thesis
  proof (cases "oe_publish env ?i")
    case True
    then have t: "a = (?i, True)" "tab1 = on_id ?i (published_row (oe_now env)) tab"
      using assms(3,6) by (simp_all add: publishOne_def MarkPublished_def Let_def)
    have "keys_ok tab1" unfolding t(2)
      using r0 assms(5) by (intro keys_on_id [OF assms(1)], simp) (drule (1) uniq, simp add: published_row_def)
    with t assms(2) show ?thesis by (simp add: attempts_left_def get_on_id published_row_def)
  next
    case False
    let ?f = "if ob_retry r + 1 \<ge> MaxOutboxRetries then failed_row
        else retried_row (Some (nextAttempt (oe_now env) (ob_retry r + 1)))"
    have t: "a = (?i, False)" "tab1 = on_id ?i ?f tab"
      using assms(3,6) False by (simp_all add: publishOne_def MarkFailed_def IncrementRetry_def Let_def split: if_splits)
    have "keys_ok tab1" unfolding t(2)
      using r0 assms(5)
      by (intro keys_on_id [OF assms(1)], simp)
        (drule (1) uniq, simp add: failed_row_def retried_row_def MaxOutboxRetries_def)
    with t assms(2,4,5) r0 show ?thesis
      by (auto simp: attempts_left_def get_on_id failed_row_def retried_row_def MaxOutboxRetries_def)
  qed
qed

lemma publish_loop_tries:
  "keys_ok tab \<Longrightarrow> distinct (map ob_id rs) \<Longrightarrow>
   list_all (\<lambda>r. GetOutbox (ob_id r) tab = Some r \<and> ob_status r \<noteq> ''published'' \<and> ob_retry r < MaxOutboxRetries) rs \<Longrightarrow>
   list_all (\<lambda>r. oe_store env (ob_id r)) rs \<Longrightarrow> publish_loop env rs tab = (as, tab1) \<Longrightarrow>
   keys_ok tab1 \<and>
   (if tries i as = [] then GetOutbox i tab1 = GetOutbox i tab
    else tries i as = [True] \<and> attempts_left i tab1 = 0 \<and> 0 < attempts_left i tab \<or>
         tries i as = [False] \<and> attempts_left i tab = Suc (attempts_left i tab1))"
proof (induction rs arbitrary: tab as)
  case (Cons r rs)
  obtain a t1 where p: "publishOne env r tab = (a, t1)" by (rule prod.exhaust)
  obtain bs t2 where l: "publish_loop env rs t1 = (bs, t2)" by (rule prod.exhaust)
  have e: "as = a # bs" "tab1 = t2" using Cons.prems(5) p l by simp_all
  have r: "GetOutbox (ob_id r) tab = Some r" "oe_store env (ob_id r)" "ob_status r \<noteq> ''published''" "ob_retry r < MaxOutboxRetries"
    using Cons.prems(3,4) by simp_all
  have st: "keys_ok t1 \<and> fst a = ob_id r \<and>
    (if snd a then attempts_left (ob_id r) t1 = 0 else attempts_left (ob_id r) tab = Suc (attempts_left (ob_id r) t1)) \<and>
    (\<forall>j. j \<noteq> ob_id r \<longrightarrow> GetOutbox j t1 = GetOutbox j tab)"
    by (rule publishOne_step [OF Cons.prems(1) r p])
  have other: "ob_id x \<noteq> ob_id r" if "x \<in> set rs" for x
    using that Cons.prems(2) by (metis distinct.simps(2) image_eqI list.set_map list.simps(9))
  have pre: "list_all (\<lambda>r. GetOutbox (ob_id r) t1 = Some r \<and> ob_status r \<noteq> ''published'' \<and> ob_retry r < MaxOutboxRetries) rs"
    "list_all (\<lambda>r. oe_store env (ob_id r)) rs" "distinct (map ob_id rs)"
    using Cons.prems(2,3,4) st other by (simp_all add: list_all_iff)
  note ih = Cons.IH [OF conjunct1 [OF st] pre(3,1,2) l [folded e(2)]]
  have left: "0 < attempts_left (ob_id r) tab" using r by (simp add: attempts_left_def)
  obtain k b where a: "a = (k, b)" by (rule prod.exhaust)
  show ?case
  proof (cases "i = ob_id r")
    case True
    have "tries i bs = []"
    proof -
      have "publish_loop env rs t1 = (bs, t2) \<Longrightarrow> map fst bs = map ob_id rs" for t1 bs t2
        by (induction rs arbitrary: t1 bs t2) (auto simp: publishOne_def Let_def split: prod.splits if_splits)
      from this [OF l] have "k \<in> set (map ob_id rs)" if "(k, b) \<in> set bs" for k b
        using that by (metis fst_conv image_eqI set_map)
      then show ?thesis using True other by (fastforce simp: tries_def filter_empty_conv)
    qed
    with ih have "GetOutbox i tab1 = GetOutbox i t1" by simp
    then have "attempts_left i tab1 = attempts_left i t1" by (simp add: attempts_left_def)
    with True \<open>tries i bs = []\<close> st ih e a left show ?thesis by (cases b) auto
  next
    case False
    with st have g: "GetOutbox i t1 = GetOutbox i tab" by simp
    then have "attempts_left i t1 = attempts_left i tab" by (simp add: attempts_left_def)
    with False g st ih e a show ?thesis by auto
  qed
qed simp

lemma prune_keys: "keys_ok tab \<Longrightarrow> keys_ok (PrunePublished ok t tab) \<and> attempts_left i (PrunePublished ok t tab) = attempts_left i tab"
proof -
  assume k: "keys_ok tab"
  let ?P = "\<lambda>r. \<not> (ob_status r = ''published'' \<and> ob_created r < t)"
  have k2: "keys_ok (filter ?P tab)" using k by (auto simp: keys_ok_def list_all_iff distinct_map_filter)
  have "attempts_left i (filter ?P tab) = attempts_left i tab"
  proof (cases "GetOutbox i (filter ?P tab)")
    case (Some r)
    then have "r \<in> set tab" "ob_id r = i" by (auto dest: get_SomeD)
    with get_member [OF k] Some show ?thesis by (auto simp: attempts_left_def)
  next
    case gone: None
    show ?thesis
    proof (cases "GetOutbox i tab")
      case (Some r)
      then have r: "r \<in> set tab" "ob_id r = i" by (auto simp: GetOutbox_def find_Some_iff)
      have "ob_status r = ''published''"
      proof (rule ccontr)
        assume "ob_status r \<noteq> ''published''"
        with r have "r \<in> set (filter ?P tab)" by simp
        from get_member [OF k2 this] r gone show False by simp
      qed
      then show ?thesis unfolding attempts_left_def gone Some by simp
    next
      case None
      show ?thesis unfolding attempts_left_def gone None ..
    qed
  qed
  with k k2 show ?thesis by (simp add: PrunePublished_def)
qed

lemma fetched_rows:
  assumes "keys_ok tab"
  shows "distinct (map ob_id (FetchUnpublished now n tab)) \<and>
    list_all (\<lambda>r. GetOutbox (ob_id r) tab = Some r \<and> ob_status r \<noteq> ''published'' \<and> ob_retry r < MaxOutboxRetries)
      (FetchUnpublished now n tab)"
proof -
  let ?s = "sort_key ob_created (filter (due now) tab)"
  have "distinct (map ob_id (filter (due now) tab))" using assms by (simp add: keys_ok_def distinct_map_filter)
  then have "inj_on ob_id (set (filter (due now) tab))" "distinct (filter (due now) tab)" by (simp_all add: distinct_map)
  then have "distinct (map ob_id ?s)" by (simp add: distinct_map)
  then have "distinct (map ob_id (take k ?s))" for k by (simp add: take_map [symmetric])
  moreover have "GetOutbox (ob_id r) tab = Some r \<and> ob_status r \<noteq> ''published'' \<and> ob_retry r < MaxOutboxRetries"
    if "r \<in> set (take k ?s)" for r k
  proof -
    from in_set_takeD [OF that] have r: "r \<in> set tab" "due now r" by simp_all
    moreover from r(1) assms have "ob_status r = ''pending'' \<longrightarrow> ob_retry r = 0" by (simp add: keys_ok_def list_all_iff)
    ultimately show ?thesis using get_member [OF assms r(1)] by (auto simp: due_def MaxOutboxRetries_def)
  qed
  ultimately show ?thesis unfolding FetchUnpublished_def Let_def list_all_iff by blast
qed

definition store_works :: "outbox_env \<Rightarrow> bool" where
  "store_works e \<longleftrightarrow> (\<forall>i. oe_store e i)"

lemma outbox_tick_tries:
  assumes "keys_ok tab" "store_works e" "outbox_tick e w tab = (as, w1, tab1)"
  shows "keys_ok tab1 \<and>
    (tries i as = [] \<and> attempts_left i tab1 = attempts_left i tab \<or>
     tries i as = [True] \<and> attempts_left i tab1 = 0 \<and> 0 < attempts_left i tab \<or>
     tries i as = [False] \<and> attempts_left i tab = Suc (attempts_left i tab1))"
proof -
  let ?prune = "ow_retention w > 0 \<and> ow_pruneEvery w > 0 \<and> (ow_ticks w + 1) smod ow_pruneEvery w = 0"
  define tab0 where "tab0 = (if ?prune then PrunePublished (oe_prune e) (oe_now e - ow_retention w) tab else tab)"
  have t0: "keys_ok tab0" "attempts_left i tab0 = attempts_left i tab"
    using prune_keys [OF assms(1), of "oe_prune e" "oe_now e - ow_retention w" i] assms(1) by (simp_all add: tab0_def)
  have tk: "outbox_tick e w tab = (if \<not> oe_fetch e then ([], w\<lparr>ow_ticks := ow_ticks w + 1\<rparr>, tab0)
       else (case publish_loop e (FetchUnpublished (oe_now e) 100 tab0) tab0 of
               (as, tab2) \<Rightarrow> (as, w\<lparr>ow_ticks := ow_ticks w + 1\<rparr>, tab2)))"
    by (simp add: outbox_tick_def Let_def tab0_def)
  show ?thesis
  proof (cases "oe_fetch e")
    case False
    with t0 tk assms(3) show ?thesis by simp
  next
    case True
    obtain bs t2 where l: "publish_loop e (FetchUnpublished (oe_now e) 100 tab0) tab0 = (bs, t2)" by (rule prod.exhaust)
    have e: "as = bs" "tab1 = t2" using tk True assms(3) l by simp_all
    have "list_all (\<lambda>r. oe_store e (ob_id r)) (FetchUnpublished (oe_now e) 100 tab0)"
      using assms(2) by (simp add: store_works_def list_all_iff)
    from publish_loop_tries [OF t0(1) conjunct1 [OF fetched_rows [OF t0(1)]] conjunct2 [OF fetched_rows [OF t0(1)]] this l, of i]
    show ?thesis using t0(2) e by (auto simp: attempts_left_def split: if_splits)
  qed
qed

text \<open>As long as its updates reach the database, the worker tries a row at most as often as it has attempts left
  (four for a new row) over any number of scans, every attempt but the last has failed, and a row that was published
  or has failed for good is never tried again.\<close>

theorem outbox_attempts_bounded:
  assumes "keys_ok tab" "list_all store_works envs" "run_ticks envs w tab = (as, tab1)"
  shows "keys_ok tab1 \<and> length (tries i as) \<le> attempts_left i tab \<and> list_all Not (butlast (tries i as))"
  using assms
proof (induction envs arbitrary: w tab as)
  case (Cons e es)
  obtain bs w1 t1 where t: "outbox_tick e w tab = (bs, w1, t1)" by (rule prod_cases3)
  obtain cs t2 where r: "run_ticks es w1 t1 = (cs, t2)" by (rule prod.exhaust)
  have eq: "as = bs @ cs" "tab1 = t2" using Cons.prems(3) t r by simp_all
  have st: "keys_ok t1 \<and>
    (tries i bs = [] \<and> attempts_left i t1 = attempts_left i tab \<or>
     tries i bs = [True] \<and> attempts_left i t1 = 0 \<and> 0 < attempts_left i tab \<or>
     tries i bs = [False] \<and> attempts_left i tab = Suc (attempts_left i t1))"
    using Cons.prems(1,2) by (intro outbox_tick_tries [OF _ _ t]) simp_all
  have "list_all store_works es" using Cons.prems(2) by simp
  note ih = Cons.IH [OF conjunct1 [OF st] this r [folded eq(2)]]
  have app: "list_all Not (butlast (b # bl))" if "\<not> b \<or> bl = []" "list_all Not (butlast bl)" for b bl
    using that by (cases bl) auto
  from conjunct2 [OF st] show ?case
  proof (elim disjE conjE)
    assume "tries i bs = []" "attempts_left i t1 = attempts_left i tab"
    with ih show ?thesis unfolding eq(1) tries_simps by simp
  next
    assume c: "tries i bs = [True]" "attempts_left i t1 = 0" "0 < attempts_left i tab"
    with ih have "tries i cs = []" by simp
    with c ih show ?thesis unfolding eq(1) tries_simps by simp
  next
    assume "tries i bs = [False]" "attempts_left i tab = Suc (attempts_left i t1)"
    with ih app [of False] show ?thesis unfolding eq(1) tries_simps by simp
  qed
qed simp

definition demo_outbox :: outbox_row where
  "demo_outbox = \<lparr>ob_id = 1, ob_type = ''alert.received'', ob_aggregate = [], ob_exchange = ''alerts'', ob_routing = [],
     ob_payload = [], ob_status = ''pending'', ob_event = ''e'', ob_retry = 0, ob_created = 0, ob_published = None,
     ob_next = None\<rparr>"

definition demo_scan :: "bool \<Rightarrow> bool \<Rightarrow> instant \<Rightarrow> outbox_env" where
  "demo_scan broker store now =
     \<lparr>oe_now = now, oe_prune = True, oe_fetch = True, oe_publish = (\<lambda>i. broker), oe_store = (\<lambda>i. store)\<rparr>"

theorem outbox_attempts_bounded_witness:
  "length (tries 1 (fst (run_ticks (map (\<lambda>k. demo_scan False True (k * 60 * go_minute)) [0..9])
      \<lparr>ow_retention = 0, ow_pruneEvery = 12, ow_ticks = 0\<rparr> [demo_outbox]))) \<le> 4"
proof -
  let ?w = "\<lparr>ow_retention = 0, ow_pruneEvery = 12, ow_ticks = 0\<rparr>"
  let ?e = "map (\<lambda>k. demo_scan False True (k * 60 * go_minute)) [0..9]"
  have k: "keys_ok [demo_outbox]" by (simp add: keys_ok_def demo_outbox_def MaxOutboxRetries_def)
  have s: "list_all store_works ?e" by (simp add: list_all_iff store_works_def demo_scan_def)
  have l: "attempts_left 1 [demo_outbox] = 4" by (simp add: attempts_left_def GetOutbox_def demo_outbox_def MaxOutboxRetries_def)
  obtain as t where r: "run_ticks ?e ?w [demo_outbox] = (as, t)" by (rule prod.exhaust)
  from outbox_attempts_bounded [OF k s r, of 1] l show ?thesis unfolding r fst_conv by simp
qed

text \<open>Without that, a row goes out more than once: the second scan publishes it again.\<close>

lemma outbox_repeats_example:
  "fst (run_ticks [demo_scan True False 0, demo_scan True True go_second] \<lparr>ow_retention = 0, ow_pruneEvery = 12, ow_ticks = 0\<rparr>
     [demo_outbox]) = [(1, True), (1, True)]"
  by (simp add: outbox_tick_def demo_scan_def FetchUnpublished_def due_def demo_outbox_def publishOne_def MarkPublished_def Let_def)

text \<open>A row whose publications fail is tried at once and after one, five and fifteen minutes; the last stage of the
  schedule is not used.\<close>

lemma outbox_ladder_example:
  "fst (run_ticks (map (demo_scan False True) [0, go_minute - 1, go_minute, 6 * go_minute, 21 * go_minute, 1000 * go_minute])
      \<lparr>ow_retention = 0, ow_pruneEvery = 12, ow_ticks = 0\<rparr> [demo_outbox]) = replicate 4 (1, False)"
  by code_simp

end
