(* ===== verification/Automation.thy ===== *)
theory Automation
  imports Prelude "HOL-Library.Word"
begin

text \<open>
  Automation rules (\<^verbatim>\<open>automation/rules.go\<close>): validation, matching of an event, and the guard of outgoing
  webhooks (\<^verbatim>\<open>PermitIP\<close>, and \<^verbatim>\<open>dialApproved\<close> of \<^verbatim>\<open>worker/automation.go\<close>). URL parsing, the
  recognition of address literals and name resolution are parameters. An IP address is a 32-bit or 128-bit word, as
  in \<^verbatim>\<open>net/netip\<close>.
\<close>

unbundle bit_operations_syntax

subsection \<open>Rules and events\<close>

record auto_condition =
  uc_field :: string
  uc_operator :: string
  uc_value :: string

record auto_action =
  ua_type :: string
  ua_url :: string
  ua_message :: string
  ua_token :: string
  ua_clear :: bool

record definition_body =
  df_name :: string
  df_description :: string
  df_trigger :: string
  df_conditions :: "auto_condition list"
  df_actions :: "auto_action list"
  df_enabled :: bool

record event_data =
  ed_entity :: string
  ed_id :: string
  ed_status :: string
  ed_previous :: string
  ed_severity :: string
  ed_priority :: string
  ed_service :: string
  ed_silenced :: bool
  ed_labels :: strmap

definition TriggerTypes :: "string list" where
  "TriggerTypes = [''alert.created'', ''alert.acknowledged'', ''alert.resolved'', ''alert.reopened'',
     ''incident.created'', ''incident.status_changed'']"

subsection \<open>Destinations\<close>

record url =
  u_scheme :: string
  u_host :: string
  u_port :: string
  u_user :: bool
  u_fragment :: string

record host_policy =
  hp_allowed :: "string list"
  hp_private :: "string list"
  hp_parse :: "string \<Rightarrow> url option" \<comment> \<open>url.Parse\<close>
  hp_literal :: "string \<Rightarrow> bool" \<comment> \<open>net.ParseIP succeeds\<close>

definition csvHosts :: "string \<Rightarrow> string list" where
  "csvHosts raw = filter (\<lambda>h. h \<noteq> []) (map (\<lambda>p. go_to_lower (go_trim_space p)) (go_split (CHR '','') raw))"

text \<open>\<^verbatim>\<open>strconv.Atoi\<close> on up to 18 digits; longer texts are out of range of a port anyway.\<close>

definition digit :: "char \<Rightarrow> int option" where
  "digit c = (let n = (of_char c :: nat) in if 48 \<le> n \<and> n \<le> 57 then Some (int n - 48) else None)"

fun digits :: "int \<Rightarrow> string \<Rightarrow> int option" where
  "digits acc [] = Some acc"
| "digits acc (c # cs) = (case digit c of None \<Rightarrow> None | Some d \<Rightarrow> digits (10 * acc + d) cs)"

definition go_atoi :: "string \<Rightarrow> int option" where
  "go_atoi s =
     (case s of
        [] \<Rightarrow> None
      | c # cs \<Rightarrow>
          if c = CHR ''-'' \<or> c = CHR ''+''
          then (if cs = [] then None else map_option (\<lambda>n. if c = CHR ''-'' then - n else n) (digits 0 cs))
          else digits 0 s)"

definition ValidateURL :: "host_policy \<Rightarrow> string \<Rightarrow> url option" where
  "ValidateURL p raw =
     (if length raw > 2048 then None
      else case hp_parse p raw of
             None \<Rightarrow> None
           | Some u \<Rightarrow>
               if u_scheme u \<noteq> ''https'' \<or> u_host u = [] \<or> u_user u \<or> u_fragment u \<noteq> [] then None
               else let host = go_to_lower (u_host u)
                    in if \<not> List.member (hp_allowed p) host then None
                       else if hp_literal p host then None
                       else if u_port u \<noteq> [] \<and>
                               (case go_atoi (u_port u) of None \<Rightarrow> True | Some n \<Rightarrow> n < 1 \<or> n > 65535) then None
                       else Some u)"

datatype ip_addr = NoAddr | V4 "32 word" | V6 "128 word" string \<comment> \<open>with its zone\<close>

definition Unmap :: "ip_addr \<Rightarrow> ip_addr" where
  "Unmap ip = (case ip of V6 w z \<Rightarrow> if drop_bit 32 w = 0xffff then V4 (ucast w) else ip | _ \<Rightarrow> ip)"

definition IsLoopback :: "ip_addr \<Rightarrow> bool" where
  "IsLoopback ip = (case ip of NoAddr \<Rightarrow> False | V4 w \<Rightarrow> drop_bit 24 w = 127 | V6 w z \<Rightarrow> w = 1)"

definition IsLinkLocalUnicast :: "ip_addr \<Rightarrow> bool" where
  "IsLinkLocalUnicast ip =
     (case ip of NoAddr \<Rightarrow> False | V4 w \<Rightarrow> drop_bit 16 w = 0xa9fe | V6 w z \<Rightarrow> drop_bit 118 w = 0x3fa)"

definition IsMulticast :: "ip_addr \<Rightarrow> bool" where
  "IsMulticast ip = (case ip of NoAddr \<Rightarrow> False | V4 w \<Rightarrow> drop_bit 28 w = 14 | V6 w z \<Rightarrow> drop_bit 120 w = 0xff)"

definition IsLinkLocalMulticast :: "ip_addr \<Rightarrow> bool" where
  "IsLinkLocalMulticast ip =
     (case ip of NoAddr \<Rightarrow> False | V4 w \<Rightarrow> drop_bit 8 w = 0xe00000
      | V6 w z \<Rightarrow> drop_bit 112 w AND 0xff0f = 0xff02)"

definition IsUnspecified :: "ip_addr \<Rightarrow> bool" where
  "IsUnspecified ip = (ip = V4 0 \<or> ip = V6 0 [])"

definition IsPrivate :: "ip_addr \<Rightarrow> bool" where
  "IsPrivate ip =
     (case ip of
        NoAddr \<Rightarrow> False
      | V4 w \<Rightarrow> drop_bit 24 w = 10 \<or> drop_bit 20 w = 0xac1 \<or> drop_bit 16 w = 0xc0a8
      | V6 w z \<Rightarrow> drop_bit 121 w = 0x7e)"

definition IsGlobalUnicast :: "ip_addr \<Rightarrow> bool" where
  "IsGlobalUnicast ip \<longleftrightarrow>
     ip \<noteq> NoAddr \<and> ip \<noteq> V4 0xffffffff \<and> \<not> IsUnspecified ip \<and> \<not> IsLoopback ip \<and> \<not> IsMulticast ip \<and> \<not> IsLinkLocalUnicast ip"

text \<open>Prefixes: base address and length; an address with a zone is in no prefix.\<close>

definition blocked_v4 :: "(32 word \<times> nat) list" where
  "blocked_v4 =
     [(0x00000000, 8), (0x64400000, 10), (0xc0000000, 24), (0xc0000200, 24), (0xc6120000, 15), (0xc6336400, 24),
      (0xcb007100, 24), (0xe0000000, 4), (0xf0000000, 4)]"

definition blocked_v6 :: "(128 word \<times> nat) list" where
  "blocked_v6 = [(push_bit 96 0x20010db8, 32), (push_bit 120 0xfc, 7)]"

definition blocked :: "ip_addr \<Rightarrow> bool" where
  "blocked ip =
     (case ip of
        NoAddr \<Rightarrow> False
      | V4 w \<Rightarrow> list_ex (\<lambda>(b, n). drop_bit (32 - n) w = drop_bit (32 - n) b) blocked_v4
      | V6 w z \<Rightarrow> z = [] \<and> list_ex (\<lambda>(b, n). drop_bit (128 - n) w = drop_bit (128 - n) b) blocked_v6)"

definition PermitIP :: "host_policy \<Rightarrow> string \<Rightarrow> ip_addr \<Rightarrow> bool" where
  "PermitIP p host ip0 =
     (let ip = Unmap ip0
      in if ip = NoAddr \<or> IsLoopback ip \<or> IsLinkLocalUnicast ip \<or> IsLinkLocalMulticast ip \<or> IsMulticast ip \<or>
            IsUnspecified ip then False
         else if IsPrivate ip
         then List.member (hp_private p) (go_to_lower host) \<and> List.member (hp_allowed p) (go_to_lower host)
         else if blocked (Unmap ip) then False
         else IsGlobalUnicast ip)"

text \<open>The dialer of the webhook client: \<open>valid\<close> is the outcome of \<^verbatim>\<open>ValidateURL\<close> on the address's URL,
  \<open>resolve\<close> the name resolution. The result is the address dialled.\<close>

definition dialApproved :: "host_policy \<Rightarrow> bool \<Rightarrow> (string \<Rightarrow> ip_addr list option) \<Rightarrow> string \<Rightarrow> ip_addr option" where
  "dialApproved p valid resolve host =
     (if \<not> valid then None
      else case resolve host of
             None \<Rightarrow> None
           | Some [] \<Rightarrow> None
           | Some (a # as) \<Rightarrow> if list_all (PermitIP p host) (a # as) then Some a else None)"

subsection \<open>Validation and matching\<close>

definition validField :: "string \<Rightarrow> bool" where
  "validField f =
     (if List.member [''status'', ''previous_status'', ''severity'', ''priority'', ''service_id'', ''silenced''] f then True
      else go_has_prefix f ''label.'' \<and>
           (let key = drop 6 f
            in key \<noteq> [] \<and> length key \<le> 100 \<and>
               \<not> list_ex (\<lambda>c. c = CHR '' '' \<or> c = CHR 0x09 \<or> c = CHR 0x0A) key))"

definition condition_ok :: "auto_condition \<Rightarrow> bool" where
  "condition_ok c \<longleftrightarrow>
     validField (uc_field c) \<and> List.member [''equals'', ''not_equals'', ''contains'', ''exists''] (uc_operator c) \<and>
     length (uc_value c) \<le> 500 \<and> (uc_operator c = ''exists'' \<or> go_trim_space (uc_value c) \<noteq> [])"

definition action_ok :: "host_policy \<Rightarrow> string \<Rightarrow> auto_action \<Rightarrow> bool" where
  "action_ok p trigger a =
     (if ua_type a = ''webhook''
      then ValidateURL p (ua_url a) \<noteq> None \<and> length (ua_token a) \<le> 4096 \<and> ua_message a = [] \<and>
           \<not> (ua_token a \<noteq> [] \<and> ua_clear a)
      else if ua_type a = ''incident_note''
      then go_has_prefix trigger ''incident.'' \<and> go_trim_space (ua_message a) \<noteq> [] \<and>
           length (ua_message a) \<le> 1000 \<and> ua_url a = [] \<and> ua_token a = []
      else False)"

definition Validate :: "host_policy \<Rightarrow> definition_body \<Rightarrow> bool" where
  "Validate p d \<longleftrightarrow>
     go_trim_space (df_name d) \<noteq> [] \<and> length (df_name d) \<le> 120 \<and>
     length (df_description d) \<le> 1000 \<and> List.member TriggerTypes (df_trigger d) \<and>
     length (df_conditions d) \<le> 10 \<and> df_actions d \<noteq> [] \<and> length (df_actions d) \<le> 5 \<and>
     list_all condition_ok (df_conditions d) \<and> list_all (action_ok p (df_trigger d)) (df_actions d)"

definition field_value :: "event_data \<Rightarrow> string \<Rightarrow> string option" where
  "field_value e f =
     (let text = (\<lambda>v. if v = [] then None else Some v)
      in if f = ''status'' then text (ed_status e)
         else if f = ''previous_status'' then text (ed_previous e)
         else if f = ''severity'' then text (ed_severity e)
         else if f = ''priority'' then text (ed_priority e)
         else if f = ''service_id'' then text (ed_service e)
         else if f = ''silenced'' then Some (if ed_silenced e then ''true'' else ''false'')
         else map_of (ed_labels e) (go_trim_prefix f ''label.''))"

definition condition_matches :: "event_data \<Rightarrow> auto_condition \<Rightarrow> bool" where
  "condition_matches e c =
     (let v = field_value e (uc_field c)
      in if uc_operator c = ''exists'' then v \<noteq> None
         else if uc_operator c = ''equals'' then v = Some (uc_value c)
         else if uc_operator c = ''not_equals'' then v \<noteq> Some (uc_value c)
         else if uc_operator c = ''contains'' then (case v of None \<Rightarrow> False | Some x \<Rightarrow> go_contains x (uc_value c))
         else False)"

text \<open>\<open>None\<close>: the payload cannot be decoded.\<close>

definition Match :: "event_data option \<Rightarrow> auto_condition list \<Rightarrow> bool" where
  "Match payload cs =
     (case payload of
        None \<Rightarrow> False
      | Some e \<Rightarrow> if ed_entity e = ''alert'' \<and> ed_silenced e then False else list_all (condition_matches e) cs)"

subsection \<open>No webhook to a non-public address\<close>

lemma drop_bit_range:
  fixes w :: "'a :: len word"
  assumes "unat (drop_bit k w) \<noteq> c" "c * 2 ^ k \<le> unat w"
  shows "(c + 1) * 2 ^ k \<le> unat w"
proof -
  have "unat (drop_bit k w) = unat w div 2 ^ k" by (subst unat_drop_bit_eq) (rule drop_bit_eq_div)
  with assms(1) have ne: "unat w div 2 ^ k \<noteq> c" by simp
  have "c \<le> unat w div 2 ^ k" using assms(2) by (simp add: less_eq_div_iff_mult_less_eq)
  with ne have "c + 1 \<le> unat w div 2 ^ k" by simp
  then show ?thesis by (simp add: less_eq_div_iff_mult_less_eq)
qed

definition outside :: "nat \<Rightarrow> nat \<Rightarrow> nat \<Rightarrow> bool" where
  "outside lo hi n \<longleftrightarrow> n < lo \<or> hi < n"

lemma outside_prefix:
  fixes w :: "'a :: len word"
  assumes "drop_bit k w \<noteq> v" "unat v = c"
  shows "outside (c * 2 ^ k) ((c + 1) * 2 ^ k - 1) (unat w)"
proof -
  have "unat (drop_bit k w) \<noteq> c" using assms by (metis word_unat_eq_iff)
  note r = drop_bit_range [OF this]
  show ?thesis
  proof (cases "unat w < c * 2 ^ k")
    case False
    then have "(c + 1) * 2 ^ k \<le> unat w" using r by simp
    moreover have "(1 :: nat) \<le> (c + 1) * 2 ^ k" by (simp add: Suc_le_eq)
    ultimately show ?thesis unfolding outside_def by linarith
  qed (simp add: outside_def)
qed

definition quad :: "nat \<Rightarrow> nat \<Rightarrow> nat \<Rightarrow> nat \<Rightarrow> nat" where
  "quad a b c d = ((a * 256 + b) * 256 + c) * 256 + d"

text \<open>The IPv4 ranges that are not public, by their first and last addresses.\<close>

definition reserved_v4 :: "(nat \<times> nat) list" where
  "reserved_v4 =
     [(quad 0 0 0 0, quad 0 255 255 255), (quad 10 0 0 0, quad 10 255 255 255),
      (quad 100 64 0 0, quad 100 127 255 255), (quad 127 0 0 0, quad 127 255 255 255),
      (quad 169 254 0 0, quad 169 254 255 255), (quad 172 16 0 0, quad 172 31 255 255),
      (quad 192 0 0 0, quad 192 0 0 255), (quad 192 0 2 0, quad 192 0 2 255),
      (quad 192 168 0 0, quad 192 168 255 255), (quad 198 18 0 0, quad 198 19 255 255),
      (quad 198 51 100 0, quad 198 51 100 255), (quad 203 0 113 0, quad 203 0 113 255),
      (quad 224 0 0 0, quad 239 255 255 255), (quad 240 0 0 0, quad 255 255 255 255)]"

lemma public_v4:
  assumes "PermitIP p host ip" "Unmap ip = V4 w" "\<not> IsPrivate (V4 w)"
  shows "list_all (\<lambda>(lo, hi). outside lo hi (unat w)) reserved_v4"
proof -
  have n: "drop_bit 24 w \<noteq> 127" "drop_bit 16 w \<noteq> 0xa9fe" "drop_bit 28 w \<noteq> 14" "drop_bit 24 w \<noteq> 10"
    "drop_bit 20 w \<noteq> 0xac1" "drop_bit 16 w \<noteq> 0xc0a8"
    using assms by (auto simp: PermitIP_def IsLoopback_def IsLinkLocalUnicast_def IsMulticast_def IsPrivate_def Let_def
        split: if_splits)
  have "\<not> blocked (V4 w)" using assms by (auto simp: PermitIP_def Unmap_def Let_def split: if_splits)
  then have b: "drop_bit 24 w \<noteq> drop_bit 24 0" "drop_bit 22 w \<noteq> drop_bit 22 0x64400000" "drop_bit 8 w \<noteq> drop_bit 8 0xc0000000"
    "drop_bit 8 w \<noteq> drop_bit 8 0xc0000200" "drop_bit 17 w \<noteq> drop_bit 17 0xc6120000" "drop_bit 8 w \<noteq> drop_bit 8 0xc6336400"
    "drop_bit 8 w \<noteq> drop_bit 8 0xcb007100" "drop_bit 28 w \<noteq> drop_bit 28 0xf0000000"
    by (auto simp: blocked_def blocked_v4_def)
  have u: "unat (drop_bit 24 0 :: 32 word) = 0" "unat (drop_bit 22 0x64400000 :: 32 word) = 401"
    "unat (drop_bit 8 0xc0000000 :: 32 word) = 12582912" "unat (drop_bit 8 0xc0000200 :: 32 word) = 12582914"
    "unat (drop_bit 17 0xc6120000 :: 32 word) = 25353" "unat (drop_bit 8 0xc6336400 :: 32 word) = 12989284"
    "unat (drop_bit 8 0xcb007100 :: 32 word) = 13303921" "unat (drop_bit 28 0xf0000000 :: 32 word) = 15"
    by (simp_all add: drop_bit_eq_div unat_div)
  note o = outside_prefix [OF b(1) u(1)] outside_prefix [OF b(2) u(2)] outside_prefix [OF b(3) u(3)]
    outside_prefix [OF b(4) u(4)] outside_prefix [OF b(5) u(5)] outside_prefix [OF b(6) u(6)]
    outside_prefix [OF b(7) u(7)] outside_prefix [OF b(8) u(8)]
  show ?thesis
    using outside_prefix [OF n(1), of 127] outside_prefix [OF n(2), of 43518] outside_prefix [OF n(3), of 14]
      outside_prefix [OF n(4), of 10] outside_prefix [OF n(5), of 2753] outside_prefix [OF n(6), of 49320] o
    by (simp add: reserved_v4_def quad_def)
qed

lemma public_v6:
  assumes "PermitIP p host ip" "Unmap ip = V6 w z" "\<not> IsPrivate (V6 w z)"
  shows "w \<noteq> 1 \<and> (z = [] \<longrightarrow> w \<noteq> 0) \<and> outside (0xfc * 2 ^ 120) (0xfe * 2 ^ 120 - 1) (unat w) \<and>
    outside (0xfe8 * 2 ^ 116) (0xfec * 2 ^ 116 - 1) (unat w) \<and> outside (0xff * 2 ^ 120) (2 ^ 128 - 1) (unat w)"
proof -
  have n: "drop_bit 121 w \<noteq> 0x7e" "drop_bit 118 w \<noteq> 0x3fa" "drop_bit 120 w \<noteq> 0xff" "w \<noteq> 1" "z = [] \<longrightarrow> w \<noteq> 0"
    using assms by (auto simp: PermitIP_def IsLoopback_def IsLinkLocalUnicast_def IsMulticast_def IsPrivate_def
        IsUnspecified_def Let_def split: if_splits)
  show ?thesis
    using outside_prefix [OF n(1), of 126] outside_prefix [OF n(2), of 1018] outside_prefix [OF n(3), of 255] n(4,5)
    by simp
qed


definition demo_policy :: host_policy where
  "demo_policy = \<lparr>hp_allowed = [''hooks.example''], hp_private = [], hp_parse = (\<lambda>r. None), hp_literal = (\<lambda>h. False)\<rparr>"


end
