(* ===== verification/Automation_Runs.thy ===== *)
theory Automation_Runs
  imports Automation
begin

text \<open>
  Execution of automation rules (\<^verbatim>\<open>store/automation.go\<close>, \<^verbatim>\<open>worker/automation.go\<close>, schema in
  \<^verbatim>\<open>db/migrations/00028_workflow_automation.sql\<close>). Events captured by triggers are dispatched to runs, one per
  matching rule; workers claim a run, carry out its next action and record the outcome. Each operation is one
  transaction, which either happens as a whole or, on an error, not at all. JSON columns hold the values they encode;
  sealed tokens are opaque. New keys are ascending.
\<close>

subsection \<open>Tables\<close>

record stored_action =
  sa_type :: string
  sa_url :: string
  sa_message :: string
  sa_token_enc :: string

record auto_rule =
  ur_id :: uuid
  ur_name :: string
  ur_description :: string
  ur_trigger :: string
  ur_conditions :: "auto_condition list"
  ur_actions :: "stored_action list"
  ur_enabled :: bool
  ur_version :: int
  ur_archived :: "instant option"
  ur_created :: instant

record auto_event =
  ue_id :: uuid
  ue_type :: string
  ue_payload :: "event_data option"
  ue_created :: instant
  ue_dispatched :: "instant option"

record auto_run =
  un_id :: uuid
  un_rule :: uuid
  un_event :: uuid
  un_name :: string
  un_version :: int
  un_actions :: "stored_action list"
  un_payload :: "event_data option"
  un_status :: string
  un_next :: nat
  un_attempt :: nat
  un_next_at :: instant
  un_lease :: "instant option"
  un_error :: string
  un_completed :: "instant option"
  un_created :: instant

record auto_step =
  us_run :: uuid
  us_action :: nat
  us_attempt :: nat
  us_status :: string
  us_http :: "int option"
  us_code :: string
  us_created :: instant

record auto_note =
  no_incident :: uuid
  no_message :: string
  no_run :: uuid
  no_rule :: uuid
  no_created :: instant

record auto_db =
  ad_rules :: "auto_rule list"
  ad_events :: "auto_event list"
  ad_runs :: "auto_run list"
  ad_steps :: "auto_step list"
  ad_notes :: "auto_note list"
  ad_next :: uuid

record claimed_run =
  cl_id :: uuid
  cl_rule :: uuid
  cl_event :: uuid
  cl_actions :: "stored_action list"
  cl_payload :: "event_data option"
  cl_index :: nat
  cl_attempt :: nat

datatype auto_error = AutoInvalid | AutoNotFound | AutoVersionConflict | AutoClaimLost | AutoOther

subsection \<open>Rules\<close>

text \<open>Tokens are kept when the action at the same position still has the same type and URL; \<open>seal\<close> encrypts.\<close>

fun encodeAutomationActions ::
    "(string \<Rightarrow> string) \<Rightarrow> auto_action list \<Rightarrow> stored_action list \<Rightarrow> stored_action list" where
  "encodeAutomationActions seal [] old = []"
| "encodeAutomationActions seal (a # as) old =
     (let tok = (if ua_token a \<noteq> [] then seal (ua_token a)
                 else case old of
                        [] \<Rightarrow> []
                      | p # _ \<Rightarrow> if \<not> ua_clear a \<and> sa_type p = ua_type a \<and> sa_url p = ua_url a then sa_token_enc p else [])
      in \<lparr>sa_type = ua_type a, sa_url = ua_url a, sa_message = ua_message a, sa_token_enc = tok\<rparr>
         # encodeAutomationActions seal as (drop 1 old))"

definition CreateRule ::
    "host_policy \<Rightarrow> (string \<Rightarrow> string) \<Rightarrow> instant \<Rightarrow> definition_body \<Rightarrow> auto_db \<Rightarrow> (auto_error + auto_rule) \<times> auto_db" where
  "CreateRule p seal now d db =
     (if \<not> Validate p (d\<lparr>df_enabled := False\<rparr>) then (Inl AutoInvalid, db)
      else let r = \<lparr>ur_id = ad_next db, ur_name = df_name d, ur_description = df_description d, ur_trigger = df_trigger d,
                    ur_conditions = df_conditions d, ur_actions = encodeAutomationActions seal (df_actions d) [],
                    ur_enabled = False, ur_version = 1, ur_archived = None, ur_created = now\<rparr>
           in (Inr r, db\<lparr>ad_rules := ad_rules db @ [r], ad_next := Suc (ad_next db)\<rparr>))"

definition live_rule :: "uuid \<Rightarrow> auto_db \<Rightarrow> auto_rule option" where
  "live_rule i db = List.find (\<lambda>r. ur_id r = i \<and> ur_archived r = None) (ad_rules db)"

definition UpdateRule ::
    "host_policy \<Rightarrow> (string \<Rightarrow> string) \<Rightarrow> uuid \<Rightarrow> int \<Rightarrow> definition_body \<Rightarrow> auto_db \<Rightarrow> (auto_error + auto_rule) \<times> auto_db" where
  "UpdateRule p seal i version d db =
     (if \<not> Validate p d then (Inl AutoInvalid, db)
      else case live_rule i db of
             None \<Rightarrow> (Inl AutoNotFound, db)
           | Some r \<Rightarrow>
               if ur_version r \<noteq> version then (Inl AutoVersionConflict, db)
               else let r1 = r\<lparr>ur_name := df_name d, ur_description := df_description d, ur_trigger := df_trigger d,
                               ur_conditions := df_conditions d,
                               ur_actions := encodeAutomationActions seal (df_actions d) (ur_actions r),
                               ur_enabled := df_enabled d, ur_version := ur_version r + 1\<rparr>
                    in (Inr r1, db\<lparr>ad_rules := map (\<lambda>x. if ur_id x = ur_id r then r1 else x) (ad_rules db)\<rparr>))"

definition ArchiveRule :: "instant \<Rightarrow> uuid \<Rightarrow> auto_db \<Rightarrow> (auto_error + unit) \<times> auto_db" where
  "ArchiveRule now i db =
     (if live_rule i db = None then (Inl AutoNotFound, db)
      else (Inr (), db\<lparr>ad_rules := map (\<lambda>x. if ur_id x = i \<and> ur_archived x = None
              then x\<lparr>ur_enabled := False, ur_archived := Some now\<rparr> else x) (ad_rules db)\<rparr>))"

subsection \<open>Events to runs\<close>

text \<open>\<open>locked\<close>: rows locked by other transactions, which are skipped.\<close>

definition next_event :: "(uuid \<Rightarrow> bool) \<Rightarrow> auto_db \<Rightarrow> auto_event option" where
  "next_event locked db =
     (case sort_key ue_created (sort_key ue_id (filter (\<lambda>e. ue_dispatched e = None \<and> \<not> locked (ue_id e)) (ad_events db))) of
        [] \<Rightarrow> None | e # _ \<Rightarrow> Some e)"

text \<open>\<^verbatim>\<open>ON CONFLICT (rule_id, event_id) DO NOTHING\<close>.\<close>

fun insert_runs :: "instant \<Rightarrow> auto_event \<Rightarrow> auto_rule list \<Rightarrow> auto_db \<Rightarrow> auto_db" where
  "insert_runs now e [] db = db"
| "insert_runs now e (r # rs) db =
     (if \<not> Match (ue_payload e) (ur_conditions r) \<or>
         list_ex (\<lambda>x. un_rule x = ur_id r \<and> un_event x = ue_id e) (ad_runs db)
      then insert_runs now e rs db
      else insert_runs now e rs
        (db\<lparr>ad_runs := ad_runs db @
              [\<lparr>un_id = ad_next db, un_rule = ur_id r, un_event = ue_id e, un_name = ur_name r, un_version = ur_version r,
                un_actions = ur_actions r, un_payload = ue_payload e, un_status = ''pending'', un_next = 0, un_attempt = 0,
                un_next_at = now, un_lease = None, un_error = [], un_completed = None, un_created = now\<rparr>],
            ad_next := Suc (ad_next db)\<rparr>))"

definition DispatchOne :: "(uuid \<Rightarrow> bool) \<Rightarrow> instant \<Rightarrow> auto_db \<Rightarrow> bool \<times> auto_db" where
  "DispatchOne locked now db =
     (case next_event locked db of
        None \<Rightarrow> (False, db)
      | Some e \<Rightarrow>
          (let rules = filter (\<lambda>r. ur_enabled r \<and> ur_archived r = None \<and> ur_trigger r = ue_type e) (ad_rules db);
               db1 = insert_runs now e rules db
           in (True, db1\<lparr>ad_events := map (\<lambda>x. if ue_id x = ue_id e then x\<lparr>ue_dispatched := Some now\<rparr> else x)
                          (ad_events db1)\<rparr>)))"

subsection \<open>Claims and outcomes\<close>

definition set_run :: "auto_run \<Rightarrow> auto_db \<Rightarrow> auto_db" where
  "set_run r db = db\<lparr>ad_runs := map (\<lambda>x. if un_id x = un_id r then r else x) (ad_runs db)\<rparr>"

definition add_step :: "auto_step \<Rightarrow> auto_db \<Rightarrow> auto_db" where
  "add_step s db = db\<lparr>ad_steps := ad_steps db @ [s]\<rparr>"

definition claimable :: "instant \<Rightarrow> auto_run \<Rightarrow> bool" where
  "claimable now r \<longleftrightarrow>
     (un_status r = ''pending'' \<or>
      un_status r = ''running'' \<and> (case un_lease r of None \<Rightarrow> False | Some t \<Rightarrow> t < now)) \<and> un_next_at r \<le> now"

definition ClaimRun :: "(uuid \<Rightarrow> bool) \<Rightarrow> instant \<Rightarrow> auto_db \<Rightarrow> claimed_run option \<times> auto_db" where
  "ClaimRun locked now db =
     (case sort_key un_next_at (sort_key un_created (filter (\<lambda>r. claimable now r \<and> \<not> locked (un_id r)) (ad_runs db))) of
        [] \<Rightarrow> (None, db)
      | r # _ \<Rightarrow>
          if un_status r = ''running'' \<and> un_attempt r \<ge> 5
          then (None, set_run (r\<lparr>un_status := ''failed'', un_error := ''lease_expired'', un_lease := None,
                                un_completed := Some now\<rparr>)
                  (add_step \<lparr>us_run = un_id r, us_action = un_next r, us_attempt = un_attempt r, us_status = ''failed'',
                             us_http = None, us_code = ''lease_expired'', us_created = now\<rparr> db))
          else (Some \<lparr>cl_id = un_id r, cl_rule = un_rule r, cl_event = un_event r, cl_actions = un_actions r,
                      cl_payload = un_payload r, cl_index = un_next r, cl_attempt = un_attempt r + 1\<rparr>,
                set_run (r\<lparr>un_status := ''running'', un_attempt := un_attempt r + 1,
                           un_lease := Some (now + 30 * go_second)\<rparr>) db))"

definition withClaim :: "claimed_run \<Rightarrow> auto_db \<Rightarrow> auto_error + auto_run" where
  "withClaim c db =
     (case List.find (\<lambda>r. un_id r = cl_id c) (ad_runs db) of
        None \<Rightarrow> Inl AutoOther
      | Some r \<Rightarrow>
          if un_status r \<noteq> ''running'' \<or> un_attempt r \<noteq> cl_attempt c \<or> un_next r \<noteq> cl_index c
          then Inl AutoClaimLost else Inr r)"

text \<open>\<open>parse\<close> is \<^verbatim>\<open>uuid.Parse\<close>, \<open>live\<close> the incidents that exist.\<close>

definition note_target :: "(string \<Rightarrow> uuid option) \<Rightarrow> (uuid \<Rightarrow> bool) \<Rightarrow> event_data option \<Rightarrow> uuid option" where
  "note_target parse live payload =
     (case payload of
        None \<Rightarrow> None
      | Some e \<Rightarrow>
          if ed_entity e \<noteq> ''incident'' then None
          else case parse (ed_id e) of None \<Rightarrow> None | Some i \<Rightarrow> if live i then Some i else None)"

definition advanced :: "instant \<Rightarrow> claimed_run \<Rightarrow> auto_run \<Rightarrow> auto_run" where
  "advanced now c r =
     (let r1 = r\<lparr>un_next := un_next r + 1, un_attempt := 0, un_lease := None, un_error := [], un_next_at := now\<rparr>
      in if un_next r1 \<ge> length (cl_actions c) then r1\<lparr>un_status := ''succeeded'', un_completed := Some now\<rparr>
         else r1\<lparr>un_status := ''pending''\<rparr>)"

definition CompleteAction ::
    "(string \<Rightarrow> uuid option) \<Rightarrow> (uuid \<Rightarrow> bool) \<Rightarrow> instant \<Rightarrow> claimed_run \<Rightarrow> int option \<Rightarrow> bool \<Rightarrow> auto_db
     \<Rightarrow> (auto_error + unit) \<times> auto_db" where
  "CompleteAction parse live now c http note db =
     (case withClaim c db of
        Inl e \<Rightarrow> (Inl e, db)
      | Inr r \<Rightarrow>
          (let step = \<lparr>us_run = cl_id c, us_action = cl_index c, us_attempt = cl_attempt c, us_status = ''succeeded'',
                       us_http = http, us_code = [], us_created = now\<rparr>;
               finish = (\<lambda>db1. set_run (advanced now c r) (add_step step db1))
           in if \<not> note then (Inr (), finish db)
              else case note_target parse live (cl_payload c) of
                     None \<Rightarrow> (Inl AutoOther, db)
                   | Some i \<Rightarrow>
                       (Inr (), finish (db\<lparr>ad_notes := ad_notes db @
                          [\<lparr>no_incident = i, no_message = sa_message (cl_actions c ! cl_index c), no_run = cl_id c,
                            no_rule = cl_rule c, no_created = now\<rparr>]\<rparr>))))"

definition FailAction ::
    "instant \<Rightarrow> claimed_run \<Rightarrow> string \<Rightarrow> int option \<Rightarrow> bool \<Rightarrow> instant \<Rightarrow> auto_db \<Rightarrow> (auto_error + unit) \<times> auto_db" where
  "FailAction now c code http retry next_at db =
     (case withClaim c db of
        Inl e \<Rightarrow> (Inl e, db)
      | Inr r \<Rightarrow>
          (let again = (retry \<and> cl_attempt c < 5);
               r1 = (if again then r\<lparr>un_status := ''pending'', un_next_at := next_at\<rparr>
                     else r\<lparr>un_status := ''failed'', un_completed := Some now\<rparr>)
           in (Inr (), set_run (r1\<lparr>un_error := code, un_lease := None\<rparr>)
                 (add_step \<lparr>us_run = cl_id c, us_action = cl_index c, us_attempt = cl_attempt c,
                            us_status = (if again then ''retrying'' else ''failed''), us_http = http, us_code = code,
                            us_created = now\<rparr> db))))"

definition RetryRun :: "instant \<Rightarrow> uuid \<Rightarrow> auto_db \<Rightarrow> (auto_error + unit) \<times> auto_db" where
  "RetryRun now i db =
     (if \<not> list_ex (\<lambda>r. un_id r = i \<and> un_status r = ''failed'') (ad_runs db) then (Inl AutoNotFound, db)
      else (Inr (), db\<lparr>ad_runs := map (\<lambda>r. if un_id r = i \<and> un_status r = ''failed''
              then r\<lparr>un_status := ''pending'', un_attempt := 0, un_next_at := now, un_lease := None, un_completed := None,
                    un_error := []\<rparr> else r) (ad_runs db)\<rparr>))"

text \<open>Steps go with their runs; events only once no run refers to them.\<close>

definition PruneHistory :: "instant \<Rightarrow> auto_db \<Rightarrow> auto_db" where
  "PruneHistory t db =
     (let old = (\<lambda>r. (un_status r = ''succeeded'' \<or> un_status r = ''failed'') \<and>
                     (case un_completed r of None \<Rightarrow> False | Some c \<Rightarrow> c < t));
          gone = map un_id (filter old (ad_runs db));
          runs = filter (\<lambda>r. \<not> old r) (ad_runs db)
      in db\<lparr>ad_runs := runs, ad_steps := filter (\<lambda>s. us_run s \<notin> set gone) (ad_steps db),
            ad_events := filter (\<lambda>e. \<not> (ue_dispatched e \<noteq> None \<and> ue_created e < t \<and>
                \<not> list_ex (\<lambda>r. un_event r = ue_id e) runs)) (ad_events db)\<rparr>)"

subsection \<open>The worker\<close>

text \<open>The answer of a webhook: no connection, an unreadable body, or a status.\<close>

datatype web_reply = NetworkError | ReadError | Status int

definition sendWebhook ::
    "host_policy \<Rightarrow> (string \<Rightarrow> string option) \<Rightarrow> web_reply \<Rightarrow> claimed_run \<Rightarrow> stored_action
     \<Rightarrow> int option \<times> string \<times> bool" where
  "sendWebhook p unseal reply c a =
     (if ValidateURL p (sa_url a) = None then (None, ''destination_not_approved'', False)
      else if cl_payload c = None then (None, ''invalid_event_payload'', False)
      else if sa_token_enc a \<noteq> [] \<and> unseal (sa_token_enc a) = None then (None, ''credential_unavailable'', False)
      else case reply of
             NetworkError \<Rightarrow> (None, ''network_error'', True)
           | ReadError \<Rightarrow> (None, ''response_read_error'', True)
           | Status s \<Rightarrow>
               if 200 \<le> s \<and> s < 300 then (Some s, [], False)
               else if s = 429 \<or> s \<ge> 500 then (Some s, ''remote_retryable'', True)
               else (Some s, ''remote_rejected'', False))"

definition fail_backoff :: "nat \<Rightarrow> int" where
  "fail_backoff attempt =
     [10 * go_second, go_minute, 5 * go_minute, 30 * go_minute] ! min (attempt - 1) 3"

definition fail ::
    "instant \<Rightarrow> claimed_run \<Rightarrow> string \<Rightarrow> int option \<Rightarrow> bool \<Rightarrow> auto_db \<Rightarrow> auto_db" where
  "fail now c code http retry db =
     snd (FailAction now c code http retry (now + fail_backoff (cl_attempt c)) db)"

definition execute_claim ::
    "host_policy \<Rightarrow> (string \<Rightarrow> string option) \<Rightarrow> (string \<Rightarrow> uuid option) \<Rightarrow> (uuid \<Rightarrow> bool) \<Rightarrow> web_reply \<Rightarrow> instant
     \<Rightarrow> claimed_run \<Rightarrow> auto_db \<Rightarrow> auto_db" where
  "execute_claim p unseal parse live reply now c db =
     (if cl_index c \<ge> length (cl_actions c) then fail now c ''invalid_action_index'' None False db
      else
        let a = cl_actions c ! cl_index c
        in if sa_type a = ''incident_note''
           then (case CompleteAction parse live now c None True db of
                   (Inr u, db1) \<Rightarrow> db1
                 | (Inl AutoClaimLost, db1) \<Rightarrow> db1
                 | (Inl e, db1) \<Rightarrow> fail now c ''incident_note_failed'' None False db1)
           else if sa_type a = ''webhook''
           then (case sendWebhook p unseal reply c a of
                   (http, code, retry) \<Rightarrow>
                     if code \<noteq> [] then fail now c code http retry db
                     else snd (CompleteAction parse live now c http False db))
           else fail now c ''unsupported_action'' None False db)"

text \<open>One scan of the worker at time \<open>now\<close>: \<open>te_locked\<close> gives the rows locked by others and \<open>te_error\<close> the failing
  transactions, by the number of transactions left; \<open>te_reply\<close> and \<open>te_live\<close> what a webhook answers and which
  incidents exist for a run. The claims made are returned with the tables.\<close>

record tick_env =
  te_now :: instant
  te_locked :: "nat \<Rightarrow> uuid \<Rightarrow> bool"
  te_error :: "nat \<Rightarrow> bool"
  te_reply :: "uuid \<Rightarrow> web_reply"
  te_live :: "uuid \<Rightarrow> bool"
  te_policy :: host_policy
  te_unseal :: "string \<Rightarrow> string option"
  te_uuid :: "string \<Rightarrow> uuid option"

fun dispatch_loop :: "tick_env \<Rightarrow> nat \<Rightarrow> auto_db \<Rightarrow> auto_db" where
  "dispatch_loop w 0 db = db"
| "dispatch_loop w (Suc n) db =
     (if te_error w (n + 20) then db
      else case DispatchOne (te_locked w (n + 20)) (te_now w) db of
             (False, db1) \<Rightarrow> db1
           | (True, db1) \<Rightarrow> dispatch_loop w n db1)"

fun claim_loop :: "tick_env \<Rightarrow> nat \<Rightarrow> auto_db \<times> claimed_run list \<Rightarrow> auto_db \<times> claimed_run list" where
  "claim_loop w 0 (db, cs) = (db, cs)"
| "claim_loop w (Suc n) (db, cs) =
     (if te_error w n then (db, cs)
      else case ClaimRun (te_locked w n) (te_now w) db of
             (None, db1) \<Rightarrow> (db1, cs)
           | (Some c, db1) \<Rightarrow>
               claim_loop w n (execute_claim (te_policy w) (te_unseal w) (te_uuid w) (te_live w) (te_reply w (cl_id c)) (te_now w) c db1,
                               cs @ [c]))"

definition automation_tick :: "tick_env \<Rightarrow> int \<Rightarrow> auto_db \<Rightarrow> int \<times> auto_db \<times> claimed_run list" where
  "automation_tick w ticks db =
     (let ticks1 = ticks + 1;
          db1 = (if ticks1 mod 3600 = 0 \<and> \<not> te_error w 120
                 then PruneHistory (te_now w - 90 * 24 * go_hour) db else db)
      in (ticks1, claim_loop w 20 (dispatch_loop w 100 db1, [])))"

end
