(* ===== verification/Automation_Correct.thy ===== *)
theory Automation_Correct
  imports Automation_Runs
begin

text \<open>
  Correctness of the automation runs. A history is any sequence of transactions: rules edited, events captured and
  dispatched, runs claimed, claims carried out or failed late (a claim can be used at any time after it was issued,
  also after its lease has run out), runs retried by hand and pruned. Over every history the actions of a run
  take effect in order, each at most once.
\<close>

subsection \<open>Histories\<close>

datatype auto_cmd =
    Capture string "event_data option" instant
  | Create_Rule definition_body instant
  | Update_Rule uuid int definition_body
  | Archive_Rule uuid instant
  | Dispatch "uuid list" instant
  | Claim "uuid list" instant
  | Execute nat web_reply "uuid list" instant
  | Fail_Late nat string "int option" bool instant
  | Retry_Run uuid instant
  | Prune instant

text \<open>\<open>capture_event\<close> is the trigger of the migration: a new event, not yet dispatched. The commands refer to an
  issued claim by its position; \<open>locked\<close> lists the rows locked by others and \<open>live\<close> the incidents that exist.\<close>

definition capture_event :: "string \<Rightarrow> event_data option \<Rightarrow> instant \<Rightarrow> auto_db \<Rightarrow> auto_db" where
  "capture_event ty payload now db =
     db\<lparr>ad_events := ad_events db @
          [\<lparr>ue_id = ad_next db, ue_type = ty, ue_payload = payload, ue_created = now, ue_dispatched = None\<rparr>],
        ad_next := Suc (ad_next db)\<rparr>"

record auto_world =
  aw_policy :: host_policy
  aw_seal :: "string \<Rightarrow> string"
  aw_unseal :: "string \<Rightarrow> string option"
  aw_uuid :: "string \<Rightarrow> uuid option"

fun auto_do :: "auto_world \<Rightarrow> auto_cmd \<Rightarrow> auto_db \<times> claimed_run list \<Rightarrow> auto_db \<times> claimed_run list" where
  "auto_do w (Capture ty payload now) (db, cs) = (capture_event ty payload now db, cs)"
| "auto_do w (Create_Rule d now) (db, cs) = (snd (CreateRule (aw_policy w) (aw_seal w) now d db), cs)"
| "auto_do w (Update_Rule i v d) (db, cs) = (snd (UpdateRule (aw_policy w) (aw_seal w) i v d db), cs)"
| "auto_do w (Archive_Rule i now) (db, cs) = (snd (ArchiveRule now i db), cs)"
| "auto_do w (Dispatch locked now) (db, cs) = (snd (DispatchOne (List.member locked) now db), cs)"
| "auto_do w (Claim locked now) (db, cs) =
     (case ClaimRun (List.member locked) now db of
        (None, db1) \<Rightarrow> (db1, cs) | (Some c, db1) \<Rightarrow> (db1, cs @ [c]))"
| "auto_do w (Execute k reply live now) (db, cs) =
     (if k < length cs
      then (execute_claim (aw_policy w) (aw_unseal w) (aw_uuid w) (List.member live) reply now (cs ! k) db, cs) else (db, cs))"
| "auto_do w (Fail_Late k code http retry now) (db, cs) =
     (if k < length cs then (fail now (cs ! k) code http retry db, cs) else (db, cs))"
| "auto_do w (Retry_Run i now) (db, cs) = (snd (RetryRun now i db), cs)"
| "auto_do w (Prune now) (db, cs) = (PruneHistory now db, cs)"

definition auto_history :: "auto_world \<Rightarrow> auto_cmd list \<Rightarrow> auto_db \<times> claimed_run list" where
  "auto_history w cmds =
     fold (auto_do w) cmds (\<lparr>ad_rules = [], ad_events = [], ad_runs = [], ad_steps = [], ad_notes = [], ad_next = 1\<rparr>, [])"

subsection \<open>The invariant\<close>

definition done_actions :: "auto_db \<Rightarrow> uuid \<Rightarrow> nat list" where
  "done_actions db i = map us_action (filter (\<lambda>s. us_run s = i \<and> us_status s = ''succeeded'') (ad_steps db))"

definition notes_of :: "auto_db \<Rightarrow> uuid \<Rightarrow> string list" where
  "notes_of db i = map no_message (filter (\<lambda>n. no_run n = i) (ad_notes db))"

definition note_actions :: "stored_action list \<Rightarrow> string list" where
  "note_actions as = map sa_message (filter (\<lambda>a. sa_type a = ''incident_note'') as)"

text \<open>What is recorded of a run: the actions before \<^verbatim>\<open>next_action\<close> have succeeded, once each and in order,
  their notes have been written, and nothing else.\<close>

definition run_exact :: "auto_db \<Rightarrow> auto_run \<Rightarrow> bool" where
  "run_exact db r \<longleftrightarrow>
     done_actions db (un_id r) = [0..<un_next r] \<and>
     notes_of db (un_id r) = note_actions (take (un_next r) (un_actions r)) \<and>
     un_next r \<le> length (un_actions r) \<and> (un_status r = ''succeeded'') = (un_next r = length (un_actions r)) \<and>
     un_attempt r \<le> 5 \<and> (un_status r = ''pending'' \<longrightarrow> un_attempt r \<le> 4)"

definition auto_wf :: "auto_db \<times> claimed_run list \<Rightarrow> bool" where
  "auto_wf = (\<lambda>(db, cs).
     distinct (map un_id (ad_runs db)) \<and> distinct (map (\<lambda>r. (un_rule r, un_event r)) (ad_runs db)) \<and>
     list_all (\<lambda>r. un_id r < ad_next db \<and> run_exact db r) (ad_runs db) \<and>
     list_all (\<lambda>s. us_run s < ad_next db) (ad_steps db) \<and> list_all (\<lambda>n. no_run n < ad_next db) (ad_notes db) \<and>
     list_all (\<lambda>r. ur_actions r \<noteq> []) (ad_rules db) \<and> distinct (map ur_id (ad_rules db)) \<and>
     list_all (\<lambda>r. ur_id r < ad_next db) (ad_rules db) \<and>
     list_all (\<lambda>c. cl_id c < ad_next db \<and> (\<forall>r \<in> set (ad_runs db). un_id r = cl_id c \<longrightarrow> cl_actions c = un_actions r)) cs)"

lemma auto_wfI:
  assumes "distinct (map un_id (ad_runs db))" "distinct (map (\<lambda>r. (un_rule r, un_event r)) (ad_runs db))"
    "\<And>r. r \<in> set (ad_runs db) \<Longrightarrow> un_id r < ad_next db \<and> run_exact db r"
    "\<And>s. s \<in> set (ad_steps db) \<Longrightarrow> us_run s < ad_next db" "\<And>n. n \<in> set (ad_notes db) \<Longrightarrow> no_run n < ad_next db"
    "\<And>r. r \<in> set (ad_rules db) \<Longrightarrow> ur_actions r \<noteq> [] \<and> ur_id r < ad_next db" "distinct (map ur_id (ad_rules db))"
    "\<And>c. c \<in> set cs \<Longrightarrow> cl_id c < ad_next db"
    "\<And>c r. c \<in> set cs \<Longrightarrow> r \<in> set (ad_runs db) \<Longrightarrow> un_id r = cl_id c \<Longrightarrow> cl_actions c = un_actions r"
  shows "auto_wf (db, cs)"
  using assms by (simp add: auto_wf_def list_all_iff)

lemma auto_wfD:
  assumes "auto_wf (db, cs)"
  shows "distinct (map un_id (ad_runs db))" "distinct (map (\<lambda>r. (un_rule r, un_event r)) (ad_runs db))"
    "r \<in> set (ad_runs db) \<Longrightarrow> un_id r < ad_next db" "r \<in> set (ad_runs db) \<Longrightarrow> run_exact db r"
    "s \<in> set (ad_steps db) \<Longrightarrow> us_run s < ad_next db" "n \<in> set (ad_notes db) \<Longrightarrow> no_run n < ad_next db"
    "q \<in> set (ad_rules db) \<Longrightarrow> ur_actions q \<noteq> []" "q \<in> set (ad_rules db) \<Longrightarrow> ur_id q < ad_next db"
    "distinct (map ur_id (ad_rules db))" "c \<in> set cs \<Longrightarrow> cl_id c < ad_next db"
    "c \<in> set cs \<Longrightarrow> r \<in> set (ad_runs db) \<Longrightarrow> un_id r = cl_id c \<Longrightarrow> cl_actions c = un_actions r"
  using assms by (simp_all add: auto_wf_def list_all_iff)

subsection \<open>Rules and events\<close>

text \<open>Transactions that touch neither runs nor their records.\<close>

lemma wf_other_tables:
  assumes "auto_wf (db, cs)" "ad_runs db1 = ad_runs db" "ad_steps db1 = ad_steps db" "ad_notes db1 = ad_notes db"
    "ad_next db \<le> ad_next db1" "list_all (\<lambda>r. ur_actions r \<noteq> [] \<and> ur_id r < ad_next db1) (ad_rules db1)"
    "distinct (map ur_id (ad_rules db1))"
  shows "auto_wf (db1, cs)"
proof (rule auto_wfI)
  note wf = auto_wfD [OF assms(1)]
  show "un_id r < ad_next db1 \<and> run_exact db1 r" if "r \<in> set (ad_runs db1)" for r
    using wf(3,4) that assms(2-5)
    by (fastforce simp: run_exact_def done_actions_def notes_of_def)
  show "us_run s < ad_next db1" if "s \<in> set (ad_steps db1)" for s using wf(5) that assms(3,5) by fastforce
  show "no_run s < ad_next db1" if "s \<in> set (ad_notes db1)" for s using wf(6) that assms(4,5) by fastforce
  show "cl_id c < ad_next db1" if "c \<in> set cs" for c using wf(10) [OF that] assms(5) by simp
  show "cl_actions c = un_actions r" if "c \<in> set cs" "r \<in> set (ad_runs db1)" "un_id r = cl_id c" for c r
    using wf(11) that assms(2) by simp
qed (use auto_wfD [OF assms(1)] assms in \<open>simp_all add: list_all_iff\<close>)

lemma encode_ne [simp]: "encodeAutomationActions seal as old = [] \<longleftrightarrow> as = []"
  by (cases as) (simp_all add: Let_def)

lemma validate_actions: "Validate p d \<Longrightarrow> df_actions d \<noteq> []"
  by (simp add: Validate_def)

lemma capture_wf: "auto_wf (db, cs) \<Longrightarrow> auto_wf (capture_event ty payload now db, cs)"
  by (rule wf_other_tables) (auto simp: capture_event_def list_all_iff less_Suc_eq dest: auto_wfD)

lemma create_wf:
  assumes "auto_wf (db, cs)"
  shows "auto_wf (snd (CreateRule p seal now d db), cs)"
proof (cases "Validate p (d\<lparr>df_enabled := False\<rparr>)")
  case True
  from validate_actions [OF this] have "df_actions d \<noteq> []" by simp
  with True show ?thesis
    using auto_wfD(7,9) [OF assms] less_imp_neq [OF auto_wfD(8) [OF assms]]
    by (intro wf_other_tables [OF assms])
      (auto simp: CreateRule_def Let_def list_all_iff less_Suc_eq image_iff dest: auto_wfD(8) [OF assms])
qed (use assms in \<open>simp add: CreateRule_def\<close>)

lemma map_same_ids: "(\<And>x. x \<in> set xs \<Longrightarrow> P x \<Longrightarrow> f (g x) = f x) \<Longrightarrow> map f (map (\<lambda>x. if P x then g x else x) xs) = map f xs"
  by (induction xs) auto

lemma find_in: "List.find P xs = Some x \<Longrightarrow> x \<in> set xs \<and> P x"
  by (auto simp: find_split)

lemma live_rule_in: "live_rule i db = Some r \<Longrightarrow> r \<in> set (ad_rules db) \<and> ur_id r = i"
  unfolding live_rule_def by (drule find_in) simp

lemma update_wf:
  assumes "auto_wf (db, cs)"
  shows "auto_wf (snd (UpdateRule p seal i v d db), cs)"
proof (cases "live_rule i db")
  case (Some r)
  show ?thesis
  proof (cases "Validate p d \<and> ur_version r = v")
    case True
    with Some validate_actions [of p d] auto_wfD(7,8,9) [OF assms] live_rule_in [OF Some]
    show ?thesis
      by (intro wf_other_tables [OF assms])
        (auto simp: UpdateRule_def Let_def list_all_iff comp_def if_distrib [of ur_id] cong: if_cong)
  qed (use assms Some in \<open>auto simp: UpdateRule_def\<close>)
qed (use assms in \<open>simp add: UpdateRule_def\<close>)

lemma archive_wf:
  assumes "auto_wf (db, cs)"
  shows "auto_wf (snd (ArchiveRule now i db), cs)"
proof -
  let ?g = "\<lambda>x. if ur_id x = i \<and> ur_archived x = None then x\<lparr>ur_enabled := False, ur_archived := Some now\<rparr> else x"
  have "map ur_id (map ?g (ad_rules db)) = map ur_id (ad_rules db)" by (rule map_same_ids) simp
  then have "distinct (map ur_id (map ?g (ad_rules db)))" using auto_wfD(9) [OF assms] by (simp only:)
  then show ?thesis using auto_wfD(7,8) [OF assms]
    by (cases "live_rule i db = None") (use assms in \<open>simp add: ArchiveRule_def\<close>,
        intro wf_other_tables [OF assms], auto simp: ArchiveRule_def list_all_iff)
qed

text \<open>A run is added under a new key, for a rule and an event that have no run yet.\<close>

lemma wf_new_run:
  assumes wf: "auto_wf (db, cs)" and r: "un_id r = ad_next db" "un_status r = ''pending''" "un_next r = 0" "un_attempt r = 0"
    "un_actions r \<noteq> []" "\<not> list_ex (\<lambda>x. un_rule x = un_rule r \<and> un_event x = un_event r) (ad_runs db)"
  shows "auto_wf (db\<lparr>ad_runs := ad_runs db @ [r], ad_next := Suc (ad_next db)\<rparr>, cs)" (is "auto_wf (?db, cs)")
proof (rule auto_wfI)
  note d = auto_wfD [OF wf]
  show "distinct (map un_id (ad_runs ?db))" using d(1,3) r(1) by fastforce
  show "distinct (map (\<lambda>r. (un_rule r, un_event r)) (ad_runs ?db))" using d(2) r(6) by (auto simp: list_ex_iff)
  have none: "done_actions db (un_id r) = []" "notes_of db (un_id r) = []"
    using d(5,6) r(1) by (fastforce simp: done_actions_def notes_of_def filter_empty_conv)+
  then have "run_exact ?db r" using r by (simp add: run_exact_def done_actions_def notes_of_def note_actions_def)
  moreover have "run_exact ?db x" if "x \<in> set (ad_runs db)" for x
    using d(4) [OF that] by (simp add: run_exact_def done_actions_def notes_of_def)
  ultimately show "un_id x < ad_next ?db \<and> run_exact ?db x" if "x \<in> set (ad_runs ?db)" for x
    using that d(3) r(1) by (auto simp: less_Suc_eq)
  show "cl_actions c = un_actions x" if "c \<in> set cs" "x \<in> set (ad_runs ?db)" "un_id x = cl_id c" for c x
    using that d(10,11) r(1) by (cases "x = r") (fastforce, simp)
qed (use auto_wfD [OF wf] in \<open>auto simp: less_Suc_eq\<close>)

lemma insert_runs_other [simp]:
  "ad_rules (insert_runs now e rs db) = ad_rules db" "ad_steps (insert_runs now e rs db) = ad_steps db"
  "ad_notes (insert_runs now e rs db) = ad_notes db" "ad_events (insert_runs now e rs db) = ad_events db"
  by (induction rs arbitrary: db) simp_all

lemma insert_runs_wf:
  "auto_wf (db, cs) \<Longrightarrow> list_all (\<lambda>r. ur_actions r \<noteq> []) rs \<Longrightarrow> auto_wf (insert_runs now e rs db, cs)"
  by (induction rs arbitrary: db) (simp_all add: wf_new_run)

lemma dispatch_wf:
  assumes "auto_wf (db, cs)"
  shows "auto_wf (snd (DispatchOne locked now db), cs)"
proof (cases "next_event locked db")
  case (Some e)
  let ?rules = "filter (\<lambda>r. ur_enabled r \<and> ur_archived r = None \<and> ur_trigger r = ue_type e) (ad_rules db)"
  have "auto_wf (insert_runs now e ?rules db, cs)"
    using auto_wfD(7) [OF assms] by (intro insert_runs_wf [OF assms]) (simp add: list_all_iff)
  then have "auto_wf (insert_runs now e ?rules db\<lparr>ad_events := evs\<rparr>, cs)" for evs
    by (rule wf_other_tables) (use auto_wfD [OF \<open>auto_wf (insert_runs now e ?rules db, cs)\<close>] in \<open>simp_all add: list_all_iff\<close>)
  then show ?thesis by (simp add: DispatchOne_def Some Let_def)
qed (use assms in \<open>simp add: DispatchOne_def\<close>)

subsection \<open>Claims and outcomes\<close>

text \<open>A transaction on one run: its row is replaced, steps and notes of this run are appended.\<close>

lemma wf_set_run:
  assumes wf: "auto_wf (db, cs)" and r: "r \<in> set (ad_runs db)"
    and row: "un_id r1 = un_id r" "un_rule r1 = un_rule r" "un_event r1 = un_event r" "un_actions r1 = un_actions r"
    and db1: "ad_runs db1 = ad_runs db" "ad_rules db1 = ad_rules db" "ad_next db1 = ad_next db"
      "ad_steps db1 = ad_steps db @ ss" "ad_notes db1 = ad_notes db @ ns"
    and own: "list_all (\<lambda>s. us_run s = un_id r) ss" "list_all (\<lambda>n. no_run n = un_id r) ns"
    and ex: "run_exact db1 r1"
  shows "auto_wf (set_run r1 db1, cs)"
proof (rule auto_wfI)
  note d = auto_wfD [OF wf]
  have same: "x = r" if "x \<in> set (ad_runs db)" "un_id x = un_id r1" for x
    using d(1) that r row(1) by (auto simp: distinct_map dest: inj_onD)
  have keep: "map f (ad_runs (set_run r1 db1)) = map f (ad_runs db)" if "f r1 = f r" for f :: "auto_run \<Rightarrow> 'z"
    using same that db1(1) by (auto simp: set_run_def)
  show "distinct (map un_id (ad_runs (set_run r1 db1)))" unfolding keep [of un_id, OF row(1)] by (rule d(1))
  show "distinct (map (\<lambda>r. (un_rule r, un_event r)) (ad_runs (set_run r1 db1)))"
    using d(2) keep [of "\<lambda>r. (un_rule r, un_event r)"] row by simp
  have in_set: "x = r1 \<or> x \<in> set (ad_runs db) \<and> un_id x \<noteq> un_id r" if "x \<in> set (ad_runs (set_run r1 db1))" for x
    using that db1(1) row(1) by (auto simp: set_run_def split: if_splits)
  have other: "run_exact (set_run r1 db1) x" if "x \<in> set (ad_runs db)" "un_id x \<noteq> un_id r" for x
  proof -
    have "filter (\<lambda>s. us_run s = un_id x \<and> us_status s = ''succeeded'') ss = []" "filter (\<lambda>n. no_run n = un_id x) ns = []"
      using own that(2) by (auto simp: filter_empty_conv list_all_iff)
    with d(4) [OF that(1)] db1 show ?thesis
      by (simp add: run_exact_def done_actions_def notes_of_def set_run_def)
  qed
  have "run_exact (set_run r1 db1) r1" using ex by (simp add: run_exact_def done_actions_def notes_of_def set_run_def)
  with in_set other d(3) r row(1) db1(3)
  show "un_id x < ad_next (set_run r1 db1) \<and> run_exact (set_run r1 db1) x" if "x \<in> set (ad_runs (set_run r1 db1))" for x
    using in_set [OF that] by (fastforce simp: set_run_def)
  show "cl_actions c = un_actions x" if "c \<in> set cs" "x \<in> set (ad_runs (set_run r1 db1))" "un_id x = cl_id c" for c x
    using in_set [OF that(2)] d(11) [OF that(1)] that(3) r row by auto
  show "us_run s < ad_next (set_run r1 db1)" if "s \<in> set (ad_steps (set_run r1 db1))" for s
    using that d(3) [OF r] d(5) own db1 by (auto simp: set_run_def list_all_iff)
  show "no_run s < ad_next (set_run r1 db1)" if "s \<in> set (ad_notes (set_run r1 db1))" for s
    using that d(3) [OF r] d(6) own db1 by (auto simp: set_run_def list_all_iff)
qed (use auto_wfD [OF wf] db1 in \<open>auto simp: set_run_def\<close>)

lemma run_exact_step:
  assumes "run_exact db r" "un_id r1 = un_id r" "un_actions r1 = un_actions r" "un_next r1 = un_next r"
    "ad_steps db1 = ad_steps db \<or> (\<exists>s. ad_steps db1 = ad_steps db @ [s] \<and> us_status s \<noteq> ''succeeded'')"
    "ad_notes db1 = ad_notes db" "(un_status r1 = ''succeeded'') = (un_next r = length (un_actions r))"
    "un_attempt r1 \<le> 5" "un_status r1 = ''pending'' \<Longrightarrow> un_attempt r1 \<le> 4"
  shows "run_exact db1 r1"
  using assms by (auto simp: run_exact_def done_actions_def notes_of_def)

lemma claim_wf:
  assumes wf: "auto_wf (db, cs)" and cl: "ClaimRun locked now db = (c, db1)"
  shows "auto_wf (db1, case c of None \<Rightarrow> cs | Some c \<Rightarrow> cs @ [c])"
proof (cases "sort_key un_next_at (sort_key un_created (filter (\<lambda>r. claimable now r \<and> \<not> locked (un_id r)) (ad_runs db)))")
  case Nil
  with wf cl show ?thesis by (simp add: ClaimRun_def)
next
  case (Cons r rs)
  then have "r \<in> set (sort_key un_next_at (sort_key un_created (filter (\<lambda>r. claimable now r \<and> \<not> locked (un_id r)) (ad_runs db))))"
    by (simp only: list.set_intros)
  then have r: "r \<in> set (ad_runs db)" "claimable now r" by simp_all
  have ex: "run_exact db r" by (rule auto_wfD(4) [OF wf r(1)])
  have st: "un_status r = ''pending'' \<or> un_status r = ''running''" using r(2) by (auto simp: claimable_def)
  then have n: "un_next r \<noteq> length (un_actions r)" using ex by (auto simp: run_exact_def)
  show ?thesis
  proof (cases "un_status r = ''running'' \<and> un_attempt r \<ge> 5")
    case True
    with cl Cons have c: "c = None"
      "db1 = set_run (r\<lparr>un_status := ''failed'', un_error := ''lease_expired'', un_lease := None, un_completed := Some now\<rparr>)
         (add_step \<lparr>us_run = un_id r, us_action = un_next r, us_attempt = un_attempt r, us_status = ''failed'',
                    us_http = None, us_code = ''lease_expired'', us_created = now\<rparr> db)"
      by (simp_all add: ClaimRun_def)
    have "auto_wf (db1, cs)" unfolding c(2)
    proof (rule wf_set_run [OF wf r(1), where ns = "[]"])
      show "ad_steps (add_step x db) = ad_steps db @ [x]" for x by (simp add: add_step_def)
    qed (use n ex in \<open>auto simp: add_step_def intro!: run_exact_step [OF ex], simp add: run_exact_def\<close>)
    with c(1) show ?thesis by simp
  next
    case False
    let ?c = "\<lparr>cl_id = un_id r, cl_rule = un_rule r, cl_event = un_event r, cl_actions = un_actions r,
        cl_payload = un_payload r, cl_index = un_next r, cl_attempt = un_attempt r + 1\<rparr>"
    let ?r1 = "r\<lparr>un_status := ''running'', un_attempt := un_attempt r + 1, un_lease := Some (now + 30 * go_second)\<rparr>"
    have c: "c = Some ?c" "db1 = set_run ?r1 db" using False cl Cons by (simp_all only: ClaimRun_def list.case if_False prod.inject)
    have a: "un_attempt r + 1 \<le> 5" using False st ex by (auto simp: run_exact_def)
    have "run_exact db ?r1" by (rule run_exact_step [OF ex]) (use n a in simp_all)
    then have "auto_wf (db1, cs)" unfolding c(2) by (intro wf_set_run [OF wf r(1), where ss = "[]" and ns = "[]"]) simp_all
    moreover have "cl_actions ?c = un_actions x" if "x \<in> set (ad_runs db1)" "un_id x = cl_id ?c" for x
    proof (cases "x = ?r1")
      case False
      with that c(2) have "x \<in> set (ad_runs db)" "un_id x = un_id r" by (auto simp: set_run_def split: if_splits)
      then have "x = r" using auto_wfD(1) [OF wf] r(1) by (auto simp: distinct_map dest: inj_onD)
      then show ?thesis by simp
    qed simp
    moreover have "cl_id ?c < ad_next db1" using auto_wfD(3) [OF wf r(1)] c(2) by (simp add: set_run_def)
    ultimately show ?thesis by (simp add: c(1) auto_wf_def)
  qed
qed

lemma withClaim_row:
  assumes "withClaim c db = Inr r"
  shows "r \<in> set (ad_runs db) \<and> un_id r = cl_id c \<and> un_status r = ''running'' \<and> un_attempt r = cl_attempt c \<and>
    un_next r = cl_index c"
proof -
  obtain x where f: "List.find (\<lambda>r. un_id r = cl_id c) (ad_runs db) = Some x"
    using assms by (cases "List.find (\<lambda>r. un_id r = cl_id c) (ad_runs db)") (simp_all add: withClaim_def)
  with assms find_in [OF f] show ?thesis by (simp add: withClaim_def split: if_splits)
qed

lemma fail_action_wf:
  assumes wf: "auto_wf (db, cs)"
  shows "auto_wf (snd (FailAction now c code http retry t db), cs)"
proof (cases "withClaim c db")
  case (Inr r)
  note w = withClaim_row [OF Inr]
  then have r: "r \<in> set (ad_runs db)" by simp
  have ex: "run_exact db r" by (rule auto_wfD(4) [OF wf r])
  have n: "un_next r \<noteq> length (un_actions r)" using ex w by (auto simp: run_exact_def)
  have a: "un_attempt r \<le> 5" using ex by (simp add: run_exact_def)
  let ?again = "retry \<and> cl_attempt c < 5"
  let ?s = "\<lparr>us_run = cl_id c, us_action = cl_index c, us_attempt = cl_attempt c,
      us_status = (if ?again then ''retrying'' else ''failed''), us_http = http, us_code = code, us_created = now\<rparr>"
  let ?r1 = "(if ?again then r\<lparr>un_status := ''pending'', un_next_at := t\<rparr>
      else r\<lparr>un_status := ''failed'', un_completed := Some now\<rparr>)\<lparr>un_error := code, un_lease := None\<rparr>"
  have "run_exact (add_step ?s db) ?r1" by (rule run_exact_step [OF ex]) (use n a w in \<open>auto simp: add_step_def\<close>)
  then have "auto_wf (set_run ?r1 (add_step ?s db), cs)"
    by (intro wf_set_run [OF wf r, where ss = "[?s]" and ns = "[]"]) (use w in \<open>simp_all add: add_step_def\<close>)
  then show ?thesis by (simp add: FailAction_def Inr Let_def)
qed (use wf in \<open>simp add: FailAction_def\<close>)

text \<open>The action succeeds: the run moves on by one, with the note of an incident note.\<close>

lemma note_actions_Suc:
  "n < length as \<Longrightarrow> note_actions (take (Suc n) as) =
     note_actions (take n as) @ (if sa_type (as ! n) = ''incident_note'' then [sa_message (as ! n)] else [])"
  by (simp add: note_actions_def take_Suc_conv_app_nth)

lemma complete_wf:
  assumes wf: "auto_wf (db, cs)" and c: "c \<in> set cs" and i: "cl_index c < length (cl_actions c)"
    and n: "note \<longleftrightarrow> sa_type (cl_actions c ! cl_index c) = ''incident_note''"
  shows "auto_wf (snd (CompleteAction parse live now c http note db), cs)"
proof (cases "withClaim c db")
  case (Inr r)
  note w = withClaim_row [OF Inr]
  then have r: "r \<in> set (ad_runs db)" by simp
  have ex: "run_exact db r" by (rule auto_wfD(4) [OF wf r])
  have acts: "cl_actions c = un_actions r" using auto_wfD(11) [OF wf c r] w by simp
  let ?s = "\<lparr>us_run = cl_id c, us_action = cl_index c, us_attempt = cl_attempt c, us_status = ''succeeded'',
      us_http = http, us_code = [], us_created = now\<rparr>"
  let ?r1 = "advanced now c r"
  have adv: "un_id ?r1 = un_id r" "un_rule ?r1 = un_rule r" "un_event ?r1 = un_event r" "un_actions ?r1 = un_actions r"
    "un_next ?r1 = Suc (un_next r)" "un_attempt ?r1 = 0"
    "(un_status ?r1 = ''succeeded'') = (length (un_actions r) \<le> Suc (un_next r))"
    using acts by (simp_all add: advanced_def Let_def)
  have fin: "auto_wf (set_run ?r1 (add_step ?s (db\<lparr>ad_notes := ad_notes db @ ns\<rparr>)), cs)"
    if ns: "list_all (\<lambda>x. no_run x = un_id r) ns"
      "map no_message ns = (if note then [sa_message (un_actions r ! un_next r)] else [])" for ns
  proof (rule wf_set_run [OF wf r, where ss = "[?s]"])
    have "filter (\<lambda>x. no_run x = un_id r) ns = ns" using ns(1) by (simp add: list_all_iff)
    with ex acts i n w ns(2) show "run_exact (add_step ?s (db\<lparr>ad_notes := ad_notes db @ ns\<rparr>)) ?r1"
      by (auto simp: run_exact_def adv done_actions_def notes_of_def add_step_def note_actions_Suc)
  qed (use adv w ns in \<open>simp_all add: add_step_def\<close>)
  from fin [of "[]"] have off: "auto_wf (set_run ?r1 (add_step ?s db), cs)" if "\<not> note"
    using that by simp
  show ?thesis
  proof (cases "note_target parse live (cl_payload c)")
    case None
    then show ?thesis using off wf by (simp add: CompleteAction_def Inr Let_def)
  next
    case (Some t)
    from fin [of "[\<lparr>no_incident = t, no_message = sa_message (cl_actions c ! cl_index c), no_run = cl_id c,
        no_rule = cl_rule c, no_created = now\<rparr>]"] acts w off Some
    show ?thesis by (simp add: CompleteAction_def Inr Let_def)
  qed
qed (use wf in \<open>simp add: CompleteAction_def\<close>)

lemma fail_wf: "auto_wf (db, cs) \<Longrightarrow> auto_wf (fail now c code http retry db, cs)"
  by (simp add: fail_def fail_action_wf)

lemma execute_wf:
  assumes wf: "auto_wf (db, cs)" and c: "c \<in> set cs"
  shows "auto_wf (execute_claim p unseal parse live reply now c db, cs)"
proof (cases "cl_index c < length (cl_actions c)")
  case True
  let ?a = "cl_actions c ! cl_index c"
  have comp: "auto_wf (snd (CompleteAction parse live now c http (sa_type ?a = ''incident_note'') db), cs)" for http
    by (rule complete_wf [OF wf c True refl])
  obtain res db1 where r: "CompleteAction parse live now c None True db = (res, db1)" by (rule prod.exhaust)
  obtain http code retry where s: "sendWebhook p unseal reply c ?a = (http, code, retry)" by (rule prod_cases3)
  show ?thesis
  proof (cases "sa_type ?a = ''incident_note''")
    case nt: True
    with comp [of None] r have "auto_wf (db1, cs)" by simp
    with True nt r show ?thesis
      by (auto simp: execute_claim_def Let_def fail_wf split: sum.split auto_error.split)
  next
    case False
    with True comp s wf show ?thesis by (simp add: execute_claim_def Let_def fail_wf)
  qed
qed (use wf in \<open>simp add: execute_claim_def fail_wf\<close>)

lemma retry_wf:
  assumes wf: "auto_wf (db, cs)"
  shows "auto_wf (snd (RetryRun now i db), cs)"
proof (cases "list_ex (\<lambda>r. un_id r = i \<and> un_status r = ''failed'') (ad_runs db)")
  case True
  then obtain r where r: "r \<in> set (ad_runs db)" "un_id r = i" "un_status r = ''failed''" by (auto simp: list_ex_iff)
  let ?r1 = "r\<lparr>un_status := ''pending'', un_attempt := 0, un_next_at := now, un_lease := None, un_completed := None,
      un_error := []\<rparr>"
  have ex: "run_exact db r" by (rule auto_wfD(4) [OF wf r(1)])
  then have "run_exact db ?r1" by (rule run_exact_step) (use ex r(3) in \<open>auto simp: run_exact_def\<close>)
  then have "auto_wf (set_run ?r1 db, cs)"
    by (intro wf_set_run [OF wf r(1), where ss = "[]" and ns = "[]"]) simp_all
  moreover have same: "x = r" if "x \<in> set (ad_runs db)" "un_id x = i" for x
    using that r auto_wfD(1) [OF wf] by (auto simp: distinct_map dest: inj_onD)
  have "map (\<lambda>x. if un_id x = un_id ?r1 then ?r1 else x) (ad_runs db) =
      map (\<lambda>x. if un_id x = i \<and> un_status x = ''failed'' then x\<lparr>un_status := ''pending'', un_attempt := 0,
        un_next_at := now, un_lease := None, un_completed := None, un_error := []\<rparr> else x) (ad_runs db)"
    using r(2,3) by (intro map_cong [OF refl]) (case_tac "un_id x = i", drule (1) same, simp_all)
  ultimately show ?thesis using True by (simp add: RetryRun_def set_run_def del: map_eq_conv)
qed (use wf in \<open>simp add: RetryRun_def\<close>)

lemma prune_wf:
  assumes wf: "auto_wf (db, cs)"
  shows "auto_wf (PruneHistory t db, cs)"
proof (rule auto_wfI)
  note d = auto_wfD [OF wf]
  let ?old = "\<lambda>r. (un_status r = ''succeeded'' \<or> un_status r = ''failed'') \<and>
      (case un_completed r of None \<Rightarrow> False | Some c \<Rightarrow> c < t)"
  let ?gone = "un_id ` {r \<in> set (ad_runs db). ?old r}"
  have runs: "ad_runs (PruneHistory t db) = filter (\<lambda>r. \<not> ?old r) (ad_runs db)"
    and steps: "ad_steps (PruneHistory t db) = filter (\<lambda>s. us_run s \<notin> ?gone) (ad_steps db)"
    and rest: "ad_notes (PruneHistory t db) = ad_notes db" "ad_rules (PruneHistory t db) = ad_rules db"
      "ad_next (PruneHistory t db) = ad_next db"
    by (simp_all add: PruneHistory_def Let_def)
  show "distinct (map un_id (ad_runs (PruneHistory t db)))" using d(1) by (simp add: runs distinct_map_filter)
  show "distinct (map (\<lambda>r. (un_rule r, un_event r)) (ad_runs (PruneHistory t db)))"
    using d(2) by (simp add: runs distinct_map_filter)
  show "un_id r < ad_next (PruneHistory t db) \<and> run_exact (PruneHistory t db) r" if "r \<in> set (ad_runs (PruneHistory t db))" for r
  proof -
    have r: "r \<in> set (ad_runs db)" "\<not> ?old r" using that by (simp_all add: runs)
    have "un_id r \<notin> ?gone"
    proof
      assume "un_id r \<in> ?gone"
      then obtain x where "x \<in> set (ad_runs db)" "?old x" "un_id r = un_id x" by blast
      moreover from this r(1) have "x = r" using d(1) by (auto simp: distinct_map dest: inj_onD)
      ultimately show False using r(2) by simp
    qed
    then have "filter (\<lambda>s. us_run s = un_id r \<and> us_status s = ''succeeded'') (ad_steps (PruneHistory t db)) =
        filter (\<lambda>s. us_run s = un_id r \<and> us_status s = ''succeeded'') (ad_steps db)"
      unfolding steps filter_filter by (intro filter_cong [OF refl]) metis
    with d(3,4) [OF r(1)] rest show ?thesis by (simp add: run_exact_def done_actions_def notes_of_def)
  qed
  show "us_run s < ad_next (PruneHistory t db)" if "s \<in> set (ad_steps (PruneHistory t db))" for s
    using that d(5) by (simp add: steps rest)
  show "cl_actions c = un_actions r" if "c \<in> set cs" "r \<in> set (ad_runs (PruneHistory t db))" "un_id r = cl_id c" for c r
    using that d(11) by (simp add: runs)
qed (use auto_wfD [OF wf] in \<open>simp_all add: PruneHistory_def Let_def\<close>)

subsection \<open>The theorem\<close>

lemma auto_do_wf: "auto_wf st \<Longrightarrow> auto_wf (auto_do w cmd st)"
proof (cases st)
  case (Pair db cs)
  assume "auto_wf st"
  with Pair have wf: "auto_wf (db, cs)" by simp
  show ?thesis
  proof (cases cmd)
    case (Claim locked now)
    obtain c db1 where cl: "ClaimRun (List.member locked) now db = (c, db1)" by (rule prod.exhaust)
    from claim_wf [OF wf cl] show ?thesis by (cases c) (simp_all add: Claim Pair cl)
  qed (simp_all add: Pair wf capture_wf create_wf update_wf archive_wf dispatch_wf execute_wf fail_wf retry_wf prune_wf)
qed

lemma auto_history_wf: "auto_wf (auto_history w cmds)"
proof -
  have "auto_wf st \<Longrightarrow> auto_wf (fold (auto_do w) cmds st)" for st
    by (induction cmds arbitrary: st) (simp_all add: auto_do_wf)
  then show ?thesis by (simp add: auto_history_def auto_wf_def)
qed

text \<open>C30. Over any history of rule edits, captured events, claims, late or lost workers, manual retries and pruning,
  a rule has at most one run per event, and every run has carried out its first \<^verbatim>\<open>next_action\<close> actions, in
  order and each exactly once: one succeeded step per action, one note per incident note among them and no other.
  It is succeeded exactly when all its actions are done, and it never has more than five attempts at an action.\<close>

theorem automation_exactly_once:
  "distinct (map (\<lambda>r. (un_rule r, un_event r)) (ad_runs (fst (auto_history w cmds)))) \<and>
   list_all (run_exact (fst (auto_history w cmds))) (ad_runs (fst (auto_history w cmds)))"
proof -
  obtain db cs where h: "auto_history w cmds = (db, cs)" by (rule prod.exhaust)
  note d = auto_wfD [OF auto_history_wf [of w cmds, unfolded h]]
  from d(2,4) show ?thesis by (simp add: h list_all_iff)
qed

text \<open>A scan of the worker keeps the invariant too.\<close>

lemma automation_tick_wf:
  assumes "auto_wf (db, [])" "automation_tick w ticks db = (ticks1, db1, cs)"
  shows "auto_wf (db1, cs)"
proof -
  have dl: "auto_wf (d, []) \<Longrightarrow> auto_wf (dispatch_loop w n d, [])" for n d
  proof (induction n arbitrary: d)
    case (Suc n)
    obtain b d1 where d: "DispatchOne (te_locked w (n + 20)) (te_now w) d = (b, d1)" by (rule prod.exhaust)
    with dispatch_wf [OF Suc.prems, of "te_locked w (n + 20)" "te_now w"] have "auto_wf (d1, [])" by simp
    with d Suc show ?case by (cases b) simp_all
  qed simp
  have cl: "auto_wf (d, es) \<Longrightarrow> auto_wf (claim_loop w n (d, es))" for n d es
  proof (induction n arbitrary: d es)
    case (Suc n)
    obtain c d1 where c: "ClaimRun (te_locked w n) (te_now w) d = (c, d1)" by (rule prod.exhaust)
    from claim_wf [OF Suc.prems c] Suc c show ?case by (cases c) (simp_all add: execute_wf)
  qed simp
  define d0 where "d0 = (if (ticks + 1) mod 3600 = 0 \<and> \<not> te_error w 120 then PruneHistory (te_now w - 90 * 24 * go_hour) db else db)"
  have "auto_wf (d0, [])" using assms(1) prune_wf [OF assms(1)] by (simp add: d0_def)
  then have "auto_wf (claim_loop w 20 (dispatch_loop w 100 d0, []))" by (intro cl dl)
  moreover have "claim_loop w 20 (dispatch_loop w 100 d0, []) = (db1, cs)"
    using assms(2) by (simp only: automation_tick_def Let_def d0_def [symmetric] prod.inject)
  ultimately show ?thesis by simp
qed

subsection \<open>An example\<close>

definition demo_world :: auto_world where
  "demo_world =
     \<lparr>aw_policy = \<lparr>hp_allowed = [''h''], hp_private = [],
         hp_parse = (\<lambda>_. Some \<lparr>u_scheme = ''https'', u_host = ''h'', u_port = [], u_user = False, u_fragment = []\<rparr>),
         hp_literal = (\<lambda>_. False)\<rparr>,
      aw_seal = (\<lambda>t. t), aw_unseal = Some, aw_uuid = (\<lambda>_. Some 7)\<rparr>"

definition demo_body :: "bool \<Rightarrow> definition_body" where
  "demo_body on = \<lparr>df_name = ''n'', df_description = [], df_trigger = ''incident.created'', df_conditions = [],
     df_actions = [\<lparr>ua_type = ''webhook'', ua_url = ''u'', ua_message = [], ua_token = [], ua_clear = False\<rparr>,
                   \<lparr>ua_type = ''incident_note'', ua_url = [], ua_message = ''m'', ua_token = [], ua_clear = False\<rparr>],
     df_enabled = on\<rparr>"

definition demo_event :: event_data where
  "demo_event = \<lparr>ed_entity = ''incident'', ed_id = ''7'', ed_status = ''triggered'', ed_previous = [], ed_severity = [],
     ed_priority = [], ed_service = [], ed_silenced = False, ed_labels = []\<rparr>"

definition demo_setup :: "auto_cmd list" where
  "demo_setup = [Create_Rule (demo_body False) 0, Update_Rule 1 1 (demo_body True),
     Capture ''incident.created'' (Some demo_event) 0, Dispatch [] 0]"

text \<open>Both actions carried out; a worker that repeats a finished claim changes nothing.\<close>

lemma demo_runs:
  "map un_status (ad_runs (fst (auto_history demo_world
     (demo_setup @ [Claim [] 0, Execute 0 (Status 200) [7] 1, Execute 0 (Status 500) [7] 2,
                    Claim [] 2, Execute 1 NetworkError [7] 3])))) = [''succeeded'']"
  by code_simp

text \<open>The fence of a claim is the attempt counter, which a manual retry starts again at 0: a claim whose lease ran
  out is accepted once more when the retried run is at the same attempt.\<close>

lemma retried_run_takes_stale_claim:
  "let lapse = map (\<lambda>k. Claim [] (int k * 31 * go_second)) [0..<6];
       st = auto_history demo_world (demo_setup @ lapse @ [Retry_Run 3 (190 * go_second), Claim [] (190 * go_second)]);
       old = snd st ! 0; new = snd st ! 5
   in cl_attempt old = 1 \<and> sum.isl (withClaim old (fst st)) = False \<and>
      withClaim new (fst (auto_do demo_world (Execute 0 (Status 200) [] (191 * go_second)) st)) = Inl AutoClaimLost"
  by code_simp

end
