(* ===== verification/Rate_Limit.thy ===== *)
theory Rate_Limit
  imports Leader
begin

text \<open>
  Request limits per client address: the limiters in memory (\<^verbatim>\<open>api/ratelimit.go\<close>) and on the Valkey server
  (\<^verbatim>\<open>valkey/ratelimit.go\<close>), for requests and for login attempts, and the extraction of the client address.
  Each limiter refines one fixed-window counter per address (locale \<open>window_limiter\<close>).

  Server keys carry their expiry; a key is present before it. Server and replicas read one clock.
\<close>

subsection \<open>Requests, in memory\<close>

record windowCounter =
  wc_count :: int
  wc_start :: instant
  wc_seen :: instant

record memory_limiter =
  rl_counters :: "string \<rightharpoonup> windowCounter"
  rl_limit :: int
  rl_window :: int
  rl_ttl :: int

text \<open>\<open>None\<close>: the limiter that allows everything.\<close>

definition NewMemoryLimiter :: "int \<Rightarrow> int \<Rightarrow> memory_limiter option" where
  "NewMemoryLimiter limit window =
     (if limit \<le> 0 \<or> window \<le> 0 then None
      else Some \<lparr>rl_counters = Map.empty, rl_limit = limit, rl_window = window, rl_ttl = 5 * go_minute\<rparr>)"

definition mem_Allow :: "instant \<Rightarrow> string \<Rightarrow> memory_limiter \<Rightarrow> bool \<times> memory_limiter" where
  "mem_Allow now ip rl =
     (let c = (case rl_counters rl ip of None \<Rightarrow> \<lparr>wc_count = 0, wc_start = now, wc_seen = now\<rparr> | Some c \<Rightarrow> c);
          c = c\<lparr>wc_seen := now\<rparr>;
          c = (if time_sub now (wc_start c) \<ge> rl_window rl then c\<lparr>wc_count := 0, wc_start := now\<rparr> else c)
      in if wc_count c \<ge> rl_limit rl then (False, rl\<lparr>rl_counters := (rl_counters rl)(ip \<mapsto> c)\<rparr>)
         else (True, rl\<lparr>rl_counters := (rl_counters rl)(ip \<mapsto> c\<lparr>wc_count := wc_count c + 1\<rparr>)\<rparr>))"

definition mem_cleanup :: "instant \<Rightarrow> memory_limiter \<Rightarrow> memory_limiter" where
  "mem_cleanup now rl =
     rl\<lparr>rl_counters := (\<lambda>ip. case rl_counters rl ip of
          None \<Rightarrow> None | Some c \<Rightarrow> if time_sub now (wc_seen c) > rl_ttl rl then None else Some c)\<rparr>"

subsection \<open>Requests, on the server\<close>

text \<open>A counter with its expiry, \<open>None\<close> for a key without one.\<close>

type_synonym server_keys = "string \<rightharpoonup> int \<times> instant option"

definition present :: "instant \<Rightarrow> string \<Rightarrow> server_keys \<Rightarrow> int option" where
  "present now k s =
     (case s k of None \<Rightarrow> None
      | Some (c, e) \<Rightarrow> (case e of None \<Rightarrow> Some c | Some t \<Rightarrow> if now < t then Some c else None))"

text \<open>The script: \<^verbatim>\<open>INCR\<close>, and \<^verbatim>\<open>EXPIRE\<close> at the first count. An expiry in the past deletes the key.\<close>

definition incrExpire :: "instant \<Rightarrow> int \<Rightarrow> string \<Rightarrow> server_keys \<Rightarrow> int \<times> server_keys" where
  "incrExpire now secs k s =
     (case present now k s of
        None \<Rightarrow> (1, if secs \<le> 0 then s(k := None) else s(k \<mapsto> (1, Some (now + secs * go_second))))
      | Some c \<Rightarrow>
          (c + 1, if c + 1 = 1 then (if secs \<le> 0 then s(k := None) else s(k \<mapsto> (1, Some (now + secs * go_second))))
                  else s(k \<mapsto> (c + 1, snd (the (s k))))))"

record valkey_limiter =
  vl_burst :: int
  vl_window :: int

definition NewValkeyLimiter :: "int \<Rightarrow> valkey_limiter" where
  "NewValkeyLimiter burst = \<lparr>vl_burst = burst, vl_window = go_minute\<rparr>"

definition vk_Allow :: "reply \<Rightarrow> valkey_limiter \<Rightarrow> instant \<Rightarrow> string \<Rightarrow> server_keys \<Rightarrow> bool \<times> server_keys" where
  "vk_Allow r rl now ip s =
     (let key = ''alga:rate:'' @ ip;
          (count, s1) = incrExpire now (vl_window rl div go_second) key s
      in case r of
           Answered \<Rightarrow> (count \<le> vl_burst rl, s1)
         | Failed applied \<Rightarrow> (True, if applied then s1 else s))"

subsection \<open>Login attempts\<close>

record loginAttempts =
  la_count :: int
  la_first :: instant
  la_last :: instant
  la_locked :: "instant option"

record login_limits =
  ll_max :: int
  ll_window :: int
  ll_lockout :: int

text \<open>The answer: allowed, attempts remaining, end of the lock.\<close>

type_synonym login_answer = "bool \<times> int \<times> instant option"

definition mem_CheckLogin ::
    "login_limits \<Rightarrow> instant \<Rightarrow> string \<Rightarrow> (string \<rightharpoonup> loginAttempts) \<Rightarrow> login_answer \<times> (string \<rightharpoonup> loginAttempts)" where
  "mem_CheckLogin l now ip m =
     (case m ip of
        None \<Rightarrow>
          ((True, ll_max l - 1, None), m(ip \<mapsto> \<lparr>la_count = 1, la_first = now, la_last = now, la_locked = None\<rparr>))
      | Some a \<Rightarrow>
          if (case la_locked a of None \<Rightarrow> False | Some t \<Rightarrow> now < t) then ((False, 0, la_locked a), m)
          else if time_sub now (la_first a) > ll_window l
          then ((True, ll_max l - 1, None),
                m(ip \<mapsto> a\<lparr>la_count := 1, la_first := now, la_locked := None, la_last := now\<rparr>))
          else let a1 = a\<lparr>la_count := la_count a + 1, la_last := now\<rparr>
               in if la_count a1 \<ge> ll_max l
                  then ((False, 0, Some (now + ll_lockout l)), m(ip \<mapsto> a1\<lparr>la_locked := Some (now + ll_lockout l)\<rparr>))
                  else ((True, ll_max l - la_count a1, None), m(ip \<mapsto> a1)))"

definition mem_Reset :: "string \<Rightarrow> (string \<rightharpoonup> loginAttempts) \<Rightarrow> (string \<rightharpoonup> loginAttempts)" where
  "mem_Reset ip m = m(ip := None)"

definition mem_login_cleanup :: "login_limits \<Rightarrow> instant \<Rightarrow> (string \<rightharpoonup> loginAttempts) \<Rightarrow> (string \<rightharpoonup> loginAttempts)" where
  "mem_login_cleanup l now m =
     (\<lambda>ip. case m ip of
        None \<Rightarrow> None
      | Some a \<Rightarrow> if time_sub now (la_last a) > wrap64 (ll_window l + ll_lockout l) then None else Some a)"

text \<open>The server's \<^verbatim>\<open>TTL\<close> of a present key is the time left in seconds, rounded by \<open>ttl\<close>, and negative
  for an absent one. A lock is set and the counter deleted after the script, in two further commands; \<open>r2\<close> and
  \<open>r3\<close> say what becomes of them.\<close>

definition lock_ttl :: "(int \<Rightarrow> int) \<Rightarrow> instant \<Rightarrow> string \<Rightarrow> server_keys \<Rightarrow> int" where
  "lock_ttl ttl now k s =
     (case present now k s of
        None \<Rightarrow> -2 | Some c \<Rightarrow> (case snd (the (s k)) of None \<Rightarrow> -1 | Some t \<Rightarrow> ttl (t - now)))"

definition applied :: "reply \<Rightarrow> bool" where
  "applied r = (case r of Answered \<Rightarrow> True | Failed b \<Rightarrow> b)"

definition login_key :: "string \<Rightarrow> string" where "login_key ip = ''alga:rate:login:'' @ ip"
definition lock_key :: "string \<Rightarrow> string" where "lock_key ip = ''alga:rate:login_lock:'' @ ip"

definition vk_CheckLogin ::
    "(int \<Rightarrow> int) \<Rightarrow> reply \<Rightarrow> reply \<Rightarrow> reply \<Rightarrow> login_limits \<Rightarrow> instant \<Rightarrow> string \<Rightarrow> server_keys
     \<Rightarrow> login_answer \<times> server_keys" where
  "vk_CheckLogin ttl r1 r2 r3 l now ip s =
     (let left = lock_ttl ttl now (lock_key ip) s;
          (count, s1) = (if left > 0 then (-1, s) else incrExpire now (ll_window l div go_second) (login_key ip) s);
          left = (if left > 0 then left else -1)
      in case r1 of
           Failed b \<Rightarrow> ((False, 0, None), if b then s1 else s)
         | Answered \<Rightarrow>
             if left > 0 then ((False, 0, Some (now + left * go_second)), s1)
             else if count \<ge> ll_max l
             then let ms = ll_lockout l div 1000000;
                      s2 = (if applied r2 \<and> 0 < ms then s1(lock_key ip \<mapsto> (1, Some (now + ms * 1000000))) else s1);
                      s3 = (if applied r3 then s2(login_key ip := None) else s2)
                  in ((False, 0, Some (now + ll_lockout l)), s3)
             else ((True, ll_max l - count, None), s1))"

definition vk_Reset :: "reply \<Rightarrow> reply \<Rightarrow> string \<Rightarrow> server_keys \<Rightarrow> server_keys" where
  "vk_Reset r1 r2 ip s =
     (let s1 = (if applied r1 then s(login_key ip := None) else s)
      in if applied r2 then s1(lock_key ip := None) else s1)"

subsection \<open>The client address\<close>

text \<open>Addresses and networks are those of package \<^verbatim>\<open>net\<close>: \<open>parse_ip\<close>, \<open>parse_cidr\<close>, \<open>single\<close> (the
  network of one address), \<open>contains\<close> and \<open>split_host_port\<close> are its functions. \<open>lines\<close> are the values of the
  \<^verbatim>\<open>X-Forwarded-For\<close> header lines, of which \<^verbatim>\<open>Header.Get\<close> gives the first.\<close>

definition newIPExtractor :: "(string \<Rightarrow> 'n option) \<Rightarrow> (string \<Rightarrow> 'i option) \<Rightarrow> ('i \<Rightarrow> 'n) \<Rightarrow> string list \<Rightarrow> 'n list" where
  "newIPExtractor parse_cidr parse_ip single cidrs =
     List.map_filter (\<lambda>c0. let c = go_trim_space c0
        in if c = [] then None
           else if go_contains c ''/'' then parse_cidr c
           else map_option single (parse_ip c)) cidrs"

fun xff_loop :: "(string \<Rightarrow> 'i option) \<Rightarrow> ('i \<Rightarrow> bool) \<Rightarrow> string list \<Rightarrow> string option" where
  "xff_loop parse_ip trusted [] = None"
| "xff_loop parse_ip trusted (e # es) =
     (let ip = go_trim_space e
      in if ip = [] then xff_loop parse_ip trusted es
         else case parse_ip ip of
                None \<Rightarrow> xff_loop parse_ip trusted es
              | Some a \<Rightarrow> if trusted a then xff_loop parse_ip trusted es else Some ip)"

definition clientIP ::
    "(string \<Rightarrow> 'i option) \<Rightarrow> ('n \<Rightarrow> 'i \<Rightarrow> bool) \<Rightarrow> (string \<Rightarrow> string option) \<Rightarrow> 'n list \<Rightarrow> string \<Rightarrow> string list \<Rightarrow> string" where
  "clientIP parse_ip contains split_host_port nets remote_addr lines =
     (let xff = (case lines of [] \<Rightarrow> [] | l # _ \<Rightarrow> l);
          remote = (case split_host_port remote_addr of None \<Rightarrow> remote_addr | Some h \<Rightarrow> h);
          trusted = (\<lambda>a. list_ex (\<lambda>n. contains n a) nets)
      in if nets = [] then remote
         else case parse_ip remote of
                None \<Rightarrow> remote
              | Some a \<Rightarrow>
                  if \<not> trusted a then remote
                  else if xff = [] then remote
                  else case xff_loop parse_ip trusted (rev (go_split (CHR '','') xff)) of
                         None \<Rightarrow> remote | Some ip \<Rightarrow> ip)"

end
