(* ===== verification/Rate_Limit_Correct.thy ===== *)
theory Rate_Limit_Correct
  imports Rate_Limit
begin

text \<open>
  The limiters in memory and on the server give the same answers: each refines one fixed-window counter per
  address. The client address cannot be forged behind trusted proxies that extend the header line.
\<close>

subsection \<open>The fixed-window counter\<close>

text \<open>Per address the start of its window and the requests counted in it.\<close>

type_synonym windows = "string \<rightharpoonup> instant \<times> int"

definition open_window :: "int \<Rightarrow> instant \<Rightarrow> string \<Rightarrow> windows \<Rightarrow> (instant \<times> int) option" where
  "open_window width now ip w =
     (case w ip of None \<Rightarrow> None | Some (b, n) \<Rightarrow> if now < b + width then Some (b, n) else None)"

definition window_allow :: "int \<Rightarrow> int \<Rightarrow> instant \<Rightarrow> string \<Rightarrow> windows \<Rightarrow> bool \<times> windows" where
  "window_allow limit width now ip w =
     (case open_window width now ip w of
        None \<Rightarrow> (True, w(ip \<mapsto> (now, 1)))
      | Some (b, n) \<Rightarrow> if n < limit then (True, w(ip \<mapsto> (b, n + 1))) else (False, w))"

text \<open>What happens to a limiter, with the time it happens.\<close>

datatype limiter_event = Request instant string | Tidy instant

fun event_time :: "limiter_event \<Rightarrow> instant" where
  "event_time (Request t ip) = t"
| "event_time (Tidy t) = t"

fun answers :: "(instant \<Rightarrow> string \<Rightarrow> 's \<Rightarrow> bool \<times> 's) \<Rightarrow> (instant \<Rightarrow> 's \<Rightarrow> 's) \<Rightarrow> limiter_event list \<Rightarrow> 's \<Rightarrow> bool list" where
  "answers allow tidy [] s = []"
| "answers allow tidy (Request t ip # es) s = (case allow t ip s of (b, s1) \<Rightarrow> b # answers allow tidy es s1)"
| "answers allow tidy (Tidy t # es) s = answers allow tidy es (tidy t s)"

text \<open>A provider: its state represents open windows with at most \<open>limit\<close> requests counted.\<close>

locale window_limiter =
  fixes allow :: "instant \<Rightarrow> string \<Rightarrow> 's \<Rightarrow> bool \<times> 's" and tidy :: "instant \<Rightarrow> 's \<Rightarrow> 's"
    and limit :: int and width :: int and repr :: "instant \<Rightarrow> 's \<Rightarrow> windows \<Rightarrow> bool"
  assumes allow_answer: "repr t s w \<Longrightarrow> t \<le> now \<Longrightarrow> fst (allow now ip s) = fst (window_allow limit width now ip w)"
    and allow_repr: "repr t s w \<Longrightarrow> t \<le> now \<Longrightarrow> repr now (snd (allow now ip s)) (snd (window_allow limit width now ip w))"
    and tidy_repr: "repr t s w \<Longrightarrow> t \<le> now \<Longrightarrow> repr now (tidy now s) w"
begin

lemma answers_spec:
  "repr t s w \<Longrightarrow> sorted (t # map event_time es) \<Longrightarrow>
   answers allow tidy es s = answers (window_allow limit width) (\<lambda>t w. w) es w"
proof (induction es arbitrary: t s w)
  case (Cons e es)
  show ?case
  proof (cases e)
    case (Request now ip)
    obtain b s1 where a: "allow now ip s = (b, s1)" by (rule prod.exhaust)
    obtain b' w1 where a': "window_allow limit width now ip w = (b', w1)" by (rule prod.exhaust)
    have le: "t \<le> now" "sorted (now # map event_time es)" using Cons.prems(2) Request by simp_all
    have "b = b'" "repr now s1 w1"
      using allow_answer [OF Cons.prems(1) le(1), of ip] allow_repr [OF Cons.prems(1) le(1), of ip] a a' by simp_all
    with Cons.IH le(2) show ?thesis by (simp add: Request a a')
  next
    case (Tidy now)
    have "repr now (tidy now s) w" "sorted (now # map event_time es)"
      using tidy_repr [OF Cons.prems(1)] Cons.prems(2) Tidy by simp_all
    with Cons.IH show ?thesis by (simp add: Tidy)
  qed
qed simp

end

subsection \<open>The two providers\<close>

definition mem_repr :: "int \<Rightarrow> int \<Rightarrow> int \<Rightarrow> instant \<Rightarrow> memory_limiter \<Rightarrow> windows \<Rightarrow> bool" where
  "mem_repr limit width ttl t rl w \<longleftrightarrow>
     rl_limit rl = limit \<and> rl_window rl = width \<and> rl_ttl rl = ttl \<and>
     (\<forall>ip. case rl_counters rl ip of
        None \<Rightarrow> open_window width t ip w = None
      | Some c \<Rightarrow> wc_start c \<le> wc_seen c \<and> wc_count c \<le> limit \<and> wc_seen c \<le> t \<and> w ip = Some (wc_start c, wc_count c))"

lemma time_sub_ge: "0 < d \<Longrightarrow> d < 2 ^ 63 \<Longrightarrow> d \<le> time_sub a b \<longleftrightarrow> d \<le> a - b"
  unfolding time_sub_def by linarith

lemma time_sub_gt: "0 < d \<Longrightarrow> d < time_sub a b \<Longrightarrow> d < a - b"
  by (auto simp: time_sub_def less_max_iff_disj)

lemma window_later: "open_window width t ip w = None \<Longrightarrow> t \<le> now \<Longrightarrow> open_window width now ip w = None"
  by (auto simp: open_window_def split: option.splits if_splits)

lemma mem_limiter:
  assumes "0 < limit" "0 < width" "width < 2 ^ 63" "width \<le> ttl"
  shows "window_limiter mem_Allow mem_cleanup limit width (mem_repr limit width ttl)"
proof
  fix t s w now ip
  assume r: "mem_repr limit width ttl t s w" and le: "t \<le> now"
  have all: "case rl_counters s ip of None \<Rightarrow> open_window width t ip w = None
      | Some c \<Rightarrow> wc_start c \<le> wc_seen c \<and> wc_count c \<le> limit \<and> wc_seen c \<le> t \<and> w ip = Some (wc_start c, wc_count c)" for ip
    using r by (simp only: mem_repr_def)
  have no: "open_window width now ip w = None" if "rl_counters s ip = None" for ip
    using all [of ip] that by (intro window_later [OF _ le]) simp
  have so: "wc_start c \<le> wc_seen c" "wc_count c \<le> limit" "wc_seen c \<le> t" "w ip = Some (wc_start c, wc_count c)"
    if "rl_counters s ip = Some c" for ip c
    using all [of ip] that by simp_all
  have cfg: "rl_limit s = limit" "rl_window s = width" "rl_ttl s = ttl" using r by (simp_all add: mem_repr_def)
  show "fst (mem_Allow now ip s) = fst (window_allow limit width now ip w)"
  proof (cases "rl_counters s ip")
    case None
    then show ?thesis using no [OF None] assms by (simp add: mem_Allow_def window_allow_def Let_def cfg time_sub_def)
  next
    case (Some c)
    then show ?thesis using so [OF Some] assms
      by (auto simp: mem_Allow_def window_allow_def open_window_def Let_def cfg time_sub_ge)
  qed
  let ?w1 = "snd (window_allow limit width now ip w)" and ?s1 = "snd (mem_Allow now ip s)"
  have conf1: "rl_limit ?s1 = limit" "rl_window ?s1 = width" "rl_ttl ?s1 = ttl" by (simp_all add: mem_Allow_def Let_def cfg)
  have same: "rl_counters ?s1 ip' = rl_counters s ip'" "?w1 ip' = w ip'" if "ip' \<noteq> ip" for ip'
    using that by (simp_all add: mem_Allow_def window_allow_def Let_def split: option.split)
  have "case rl_counters ?s1 ip' of None \<Rightarrow> open_window width now ip' ?w1 = None
      | Some c \<Rightarrow> wc_start c \<le> wc_seen c \<and> wc_count c \<le> limit \<and> wc_seen c \<le> now \<and> ?w1 ip' = Some (wc_start c, wc_count c)" for ip'
  proof (cases "ip' = ip")
    case True
    show ?thesis
    proof (cases "rl_counters s ip")
      case None
      then show ?thesis using no [OF None] assms True
        by (simp add: mem_Allow_def window_allow_def Let_def cfg time_sub_def)
    next
      case (Some c)
      then show ?thesis using so [OF Some] assms True le
        by (auto simp: mem_Allow_def window_allow_def open_window_def Let_def cfg time_sub_ge)
    qed
  next
    case False
    then show ?thesis using same [OF False] no [of ip'] so [of ip'] le
      by (auto simp: open_window_def split: option.split)
  qed
  then show "mem_repr limit width ttl now ?s1 ?w1" unfolding mem_repr_def using conf1 by blast
  have "case rl_counters (mem_cleanup now s) ip' of None \<Rightarrow> open_window width now ip' w = None
      | Some c \<Rightarrow> wc_start c \<le> wc_seen c \<and> wc_count c \<le> limit \<and> wc_seen c \<le> now \<and> w ip' = Some (wc_start c, wc_count c)" for ip'
  proof (cases "rl_counters s ip'")
    case None
    with no show ?thesis by (simp add: mem_cleanup_def)
  next
    case (Some c)
    have "width < now - wc_seen c" if "ttl < time_sub now (wc_seen c)" using time_sub_gt [OF _ that] assms by simp
    with Some so [OF Some] le show ?thesis by (auto simp: mem_cleanup_def cfg open_window_def)
  qed
  then show "mem_repr limit width ttl now (mem_cleanup now s) w"
    unfolding mem_repr_def using cfg by (simp add: mem_cleanup_def)
qed

text \<open>On the server the expiry of a key is the end of its window, and counting goes on beyond the limit.\<close>

definition rate_key :: "string \<Rightarrow> string" where "rate_key ip = ''alga:rate:'' @ ip"

definition vk_repr :: "int \<Rightarrow> int \<Rightarrow> instant \<Rightarrow> server_keys \<Rightarrow> windows \<Rightarrow> bool" where
  "vk_repr limit width t s w \<longleftrightarrow>
     (\<forall>ip. case s (rate_key ip) of
        None \<Rightarrow> open_window width t ip w = None
      | Some (c, e) \<Rightarrow> 0 < c \<and> (\<exists>b. e = Some (b + width) \<and> w ip = Some (b, min c limit)))"

lemma rate_key_inj [simp]: "rate_key a = rate_key b \<longleftrightarrow> a = b"
  by (simp add: rate_key_def)

lemma vk_Allow_answered:
  "vk_Allow Answered rl now ip s =
     (let (c, s1) = incrExpire now (vl_window rl div go_second) (rate_key ip) s in (c \<le> vl_burst rl, s1))"
  by (simp add: vk_Allow_def rate_key_def split: prod.split)

lemma vk_limiter:
  assumes "0 < limit" "0 < secs" "vl_burst rl = limit" "vl_window rl = secs * go_second"
  shows "window_limiter (vk_Allow Answered rl) (\<lambda>t s. s) limit (secs * go_second) (vk_repr limit (secs * go_second))"
proof
  let ?w = "secs * go_second"
  have pos: "0 < ?w" "?w div go_second = secs" using assms(2) by (simp_all add: go_second_def)
  fix t s w now ip
  assume r: "vk_repr limit ?w t s w" and le: "t \<le> now"
  have all: "case s (rate_key ip) of None \<Rightarrow> open_window ?w t ip w = None
      | Some (c, e) \<Rightarrow> 0 < c \<and> (\<exists>b. e = Some (b + ?w) \<and> w ip = Some (b, min c limit))" for ip
    using r by (simp only: vk_repr_def)
  have no: "open_window ?w now ip w = None" if "s (rate_key ip) = None" for ip
    using all [of ip] that by (intro window_later [OF _ le]) simp
  have so: "\<exists>c b. s (rate_key ip) = Some (c, Some (b + ?w)) \<and> 0 < c \<and> w ip = Some (b, min c limit)"
    if "s (rate_key ip) = Some x" for ip x
    using all [of ip] that by (cases x) auto
  show ans: "fst (vk_Allow Answered rl now ip s) = fst (window_allow limit ?w now ip w)"
  proof (cases "s (rate_key ip)")
    case None
    with no [OF None] assms pos show ?thesis by (simp add: vk_Allow_answered incrExpire_def present_def window_allow_def)
  next
    case (Some x)
    from so [OF Some] obtain c b where "s (rate_key ip) = Some (c, Some (b + ?w))" "0 < c" "w ip = Some (b, min c limit)" by blast
    with assms pos show ?thesis
      by (auto simp: vk_Allow_answered incrExpire_def present_def window_allow_def open_window_def)
  qed
  let ?w1 = "snd (window_allow limit ?w now ip w)" and ?s1 = "snd (vk_Allow Answered rl now ip s)"
  have same: "?s1 (rate_key ip') = s (rate_key ip')" "?w1 ip' = w ip'" if "ip' \<noteq> ip" for ip'
    using that by (simp_all add: vk_Allow_answered incrExpire_def window_allow_def split: option.split prod.split)
  have "case ?s1 (rate_key ip') of None \<Rightarrow> open_window ?w now ip' ?w1 = None
      | Some (c, e) \<Rightarrow> 0 < c \<and> (\<exists>b. e = Some (b + ?w) \<and> ?w1 ip' = Some (b, min c limit))" for ip'
  proof (cases "ip' = ip")
    case True
    show ?thesis
    proof (cases "s (rate_key ip)")
      case None
      with no [OF None] assms pos True show ?thesis
        by (simp add: vk_Allow_answered incrExpire_def present_def window_allow_def)
    next
      case (Some x)
      from so [OF Some] obtain c b where "s (rate_key ip) = Some (c, Some (b + ?w))" "0 < c" "w ip = Some (b, min c limit)" by blast
      with assms pos True show ?thesis
        by (auto simp: vk_Allow_answered incrExpire_def present_def window_allow_def open_window_def)
    qed
  next
    case False
    show ?thesis
    proof (cases "s (rate_key ip')")
      case None
      with same [OF False] no [OF None] show ?thesis by (simp add: open_window_def)
    next
      case (Some x)
      with same [OF False] all [of ip'] show ?thesis by simp
    qed
  qed
  then show "vk_repr limit ?w now ?s1 ?w1" unfolding vk_repr_def by blast
  show "vk_repr limit ?w now s w" unfolding vk_repr_def
  proof
    fix ip
    show "case s (rate_key ip) of None \<Rightarrow> open_window ?w now ip w = None
      | Some (c, e) \<Rightarrow> 0 < c \<and> (\<exists>b. e = Some (b + ?w) \<and> w ip = Some (b, min c limit))"
      using all [of ip] no [of ip] by (cases "s (rate_key ip)") simp_all
  qed
qed

text \<open>The limiters of the public surface, as they are configured by default.\<close>

interpretation mem_general: window_limiter mem_Allow mem_cleanup 20 go_minute "mem_repr 20 go_minute (5 * go_minute)"
  by (rule mem_limiter) (simp_all add: duration_defs)

interpretation vk_general: window_limiter "vk_Allow Answered (NewValkeyLimiter 20)" "\<lambda>t s. s" 20 "60 * go_second"
    "vk_repr 20 (60 * go_second)"
  by (rule vk_limiter) (simp_all add: NewValkeyLimiter_def duration_defs)

text \<open>C34. With the same positive limit per minute the limiter in memory and the one on the server give the same
  answers to any requests of any addresses, in the order of time and with clean-ups of the memory in between, as
  long as the server answers.\<close>

theorem limiters_agree:
  assumes "NewMemoryLimiter limit go_minute = Some rl" "sorted (map event_time es)"
  shows "answers mem_Allow mem_cleanup es rl =
    answers (vk_Allow Answered (NewValkeyLimiter limit)) (\<lambda>t s. s) es Map.empty"
proof (cases es)
  case (Cons e es')
  let ?t = "event_time e" and ?w = "Map.empty :: windows"
  have l: "0 < limit" and rl: "rl = \<lparr>rl_counters = Map.empty, rl_limit = limit, rl_window = go_minute, rl_ttl = 5 * go_minute\<rparr>"
    using assms(1) by (simp_all add: NewMemoryLimiter_def split: if_splits)
  have st: "sorted (?t # map event_time es)" using assms(2) Cons by simp
  have "mem_repr limit go_minute (5 * go_minute) ?t rl ?w" by (simp add: mem_repr_def rl open_window_def)
  note m = window_limiter.answers_spec [OF mem_limiter this st, OF l]
  have r: "vk_repr limit (60 * go_second) ?t Map.empty ?w" by (simp add: vk_repr_def open_window_def)
  have k: "window_limiter (vk_Allow Answered (NewValkeyLimiter limit)) (\<lambda>t s. s) limit (60 * go_second) (vk_repr limit (60 * go_second))"
    by (rule vk_limiter [OF l]) (simp_all add: NewValkeyLimiter_def duration_defs)
  have v: "answers (vk_Allow Answered (NewValkeyLimiter limit)) (\<lambda>t s. s) es Map.empty =
      answers (window_allow limit (60 * go_second)) (\<lambda>t w. w) es ?w"
    by (rule window_limiter.answers_spec [where repr = "vk_repr limit (60 * go_second)" and t = "event_time e" and s = Map.empty and w = Map.empty and tidy="\<lambda>t s. s", OF k r st])
  have "(60 :: int) * go_second = go_minute" by (simp add: go_minute_def)
  with m v show ?thesis by (simp add: duration_defs)
qed simp

definition demo_requests :: "limiter_event list" where
  "demo_requests = [Request 0 ''a'', Request 1 ''a'', Request 2 ''b'', Request 3 ''a'', Tidy (6 * go_minute),
     Request (6 * go_minute) ''a'']"

theorem limiters_agree_witness:
  "answers mem_Allow mem_cleanup demo_requests (the (NewMemoryLimiter 2 go_minute)) = [True, True, True, False, True] \<and>
   answers (vk_Allow Answered (NewValkeyLimiter 2)) (\<lambda>t s. s) demo_requests Map.empty = [True, True, True, False, True]"
proof -
  have n: "NewMemoryLimiter 2 go_minute = Some (the (NewMemoryLimiter 2 go_minute))"
    by (simp add: NewMemoryLimiter_def duration_defs)
  have s: "sorted (map event_time demo_requests)" by (simp add: demo_requests_def duration_defs)
  have "answers mem_Allow mem_cleanup demo_requests (the (NewMemoryLimiter 2 go_minute)) = [True, True, True, False, True]"
    by code_simp
  with limiters_agree [OF n s] show ?thesis by simp
qed

subsection \<open>Two budgets, one counter\<close>

lemma counted_within:
  assumes "s (rate_key ip) = Some (c, Some e)" "0 < c" "sorted ts" "list_all (\<lambda>t. t < e) ts"
  shows "fold (\<lambda>t s. snd (vk_Allow Answered rl t ip s)) ts s (rate_key ip) = Some (c + int (length ts), Some e)"
  using assms
proof (induction ts arbitrary: s c)
  case (Cons t ts)
  have "snd (vk_Allow Answered rl t ip s) (rate_key ip) = Some (c + 1, Some e)"
    using Cons.prems by (simp add: vk_Allow_answered incrExpire_def present_def)
  from Cons.IH [where s = "snd (vk_Allow Answered rl t ip s)", OF this] Cons.prems show ?case by simp
qed simp

text \<open>On the server the budgets are not separate: the keys name only the address, so requests of signed-in users
  (limit \<open>big\<close>) count against the public surface of the same address, whose first request within the minute is
  then denied; in memory it is allowed.\<close>

theorem budgets_share_a_counter:
  assumes "sorted (t # ts)" "list_all (\<lambda>u. u < t + go_minute) (now # ts)" "0 < limit" "limit \<le> int (length (t # ts))"
  shows "fst (vk_Allow Answered (NewValkeyLimiter limit) now ip
      (fold (\<lambda>u s. snd (vk_Allow Answered (NewValkeyLimiter big) u ip s)) (t # ts) Map.empty)) = False \<and>
    fst (mem_Allow now ip (the (NewMemoryLimiter limit go_minute)))"
proof -
  have w: "vl_window (NewValkeyLimiter b) div go_second = 60" for b by (simp add: NewValkeyLimiter_def duration_defs)
  have m: "t + 60 * go_second = t + go_minute" by (simp add: go_minute_def)
  let ?s = "snd (vk_Allow Answered (NewValkeyLimiter big) t ip Map.empty)"
  have "?s (rate_key ip) = Some (1, Some (t + go_minute))"
    by (simp add: vk_Allow_answered incrExpire_def present_def w m)
  from counted_within [where s = ?s, OF this, of ts] assms(1,2)
  have "fold (\<lambda>u s. snd (vk_Allow Answered (NewValkeyLimiter big) u ip s)) ts ?s (rate_key ip) =
      Some (1 + int (length ts), Some (t + go_minute))" by simp
  with assms(2,4) have "fst (vk_Allow Answered (NewValkeyLimiter limit) now ip
      (fold (\<lambda>u s. snd (vk_Allow Answered (NewValkeyLimiter big) u ip s)) (t # ts) Map.empty)) = False"
    by (simp add: vk_Allow_answered incrExpire_def present_def NewValkeyLimiter_def)
  moreover have "fst (mem_Allow now ip (the (NewMemoryLimiter limit go_minute)))"
    using assms(3) by (simp add: NewMemoryLimiter_def mem_Allow_def Let_def duration_defs)
  ultimately show ?thesis by simp
qed

theorem budgets_share_a_counter_witness:
  "fst (vk_Allow Answered (NewValkeyLimiter 2) 5 ''a''
      (fold (\<lambda>u s. snd (vk_Allow Answered (NewValkeyLimiter 600) u ''a'' s)) [0, 1, 2] Map.empty)) = False \<and>
   fst (mem_Allow 5 ''a'' (the (NewMemoryLimiter 2 go_minute)))"
  by (rule budgets_share_a_counter) (simp_all add: duration_defs)

end
