(* ===== verification/Login_Correct.thy ===== *)
theory Login_Correct
  imports Rate_Limit
begin

text \<open>
  Login attempts: the limiter in memory and the one on the server agree; and the client address, on which all
  limits rest, cannot be forged behind trusted proxies that extend the header line.
\<close>

subsection \<open>Histories of logins\<close>

datatype login_event = Attempt instant string | Success string | Sweep instant

text \<open>Allowed, and the attempts left.\<close>

fun mem_logins :: "login_limits \<Rightarrow> login_event list \<Rightarrow> (string \<rightharpoonup> loginAttempts) \<Rightarrow> (bool \<times> int) list" where
  "mem_logins l [] m = []"
| "mem_logins l (Attempt t ip # es) m =
     (case mem_CheckLogin l t ip m of ((ok, left, lock), m1) \<Rightarrow> (ok, left) # mem_logins l es m1)"
| "mem_logins l (Success ip # es) m = mem_logins l es (mem_Reset ip m)"
| "mem_logins l (Sweep t # es) m = mem_logins l es (mem_login_cleanup l t m)"

fun vk_logins :: "(int \<Rightarrow> int) \<Rightarrow> login_limits \<Rightarrow> login_event list \<Rightarrow> server_keys \<Rightarrow> (bool \<times> int) list" where
  "vk_logins ttl l [] s = []"
| "vk_logins ttl l (Attempt t ip # es) s =
     (case vk_CheckLogin ttl Answered Answered Answered l t ip s of
        ((ok, left, lock), s1) \<Rightarrow> (ok, left) # vk_logins ttl l es s1)"
| "vk_logins ttl l (Success ip # es) s = vk_logins ttl l es (vk_Reset Answered Answered ip s)"
| "vk_logins ttl l (Sweep t # es) s = vk_logins ttl l es s"

fun login_time :: "login_event \<Rightarrow> instant option" where
  "login_time (Attempt t ip) = Some t"
| "login_time (Success ip) = None"
| "login_time (Sweep t) = Some t"

definition login_times :: "login_event list \<Rightarrow> instant list" where
  "login_times es = List.map_filter login_time es"

text \<open>The limits are whole seconds and milliseconds, the lock outlasts the window.\<close>

definition limits_ok :: "login_limits \<Rightarrow> bool" where
  "limits_ok l \<longleftrightarrow> 2 \<le> ll_max l \<and> 0 < ll_window l \<and> ll_window l mod go_second = 0 \<and> ll_window l < ll_lockout l \<and>
     ll_lockout l mod 1000000 = 0 \<and> ll_window l + ll_lockout l < 2 ^ 63 - 1"

text \<open>No attempt comes exactly at the end of a window, nor in the last second of a lock (where the server may
  report zero seconds left).\<close>

definition off_boundary :: "login_limits \<Rightarrow> instant list \<Rightarrow> bool" where
  "off_boundary l ts \<longleftrightarrow> list_all (\<lambda>t. list_all (\<lambda>u. u - t \<noteq> ll_window l \<and>
     \<not> (ll_lockout l - go_second < u - t \<and> u - t < ll_lockout l)) ts) ts"

subsection \<open>Agreement\<close>

definition same_logins ::
    "login_limits \<Rightarrow> instant list \<Rightarrow> instant \<Rightarrow> loginAttempts option \<Rightarrow> string \<Rightarrow> server_keys \<Rightarrow> bool" where
  "same_logins l ts t m ip s =
     (case m of
        None \<Rightarrow> present t (login_key ip) s = None \<and> present t (lock_key ip) s = None
      | Some a \<Rightarrow>
          la_first a \<in> set ts \<and> la_last a \<in> set ts \<and> la_first a \<le> la_last a \<and> la_last a \<le> t \<and>
          (case la_locked a of
             None \<Rightarrow> s (login_key ip) = Some (la_count a, Some (la_first a + ll_window l)) \<and> 0 < la_count a \<and>
               present t (lock_key ip) s = None
           | Some e \<Rightarrow> e = la_last a + ll_lockout l \<and> s (lock_key ip) = Some (1, Some e) \<and> s (login_key ip) = None))"

lemma login_keys [simp]: "login_key a = login_key b \<longleftrightarrow> a = b" "lock_key a = lock_key b \<longleftrightarrow> a = b"
  "login_key a \<noteq> lock_key b" "lock_key a \<noteq> login_key b"
  by (simp_all add: login_key_def lock_key_def)

lemma present_later: "present t k s = None \<Longrightarrow> t \<le> now \<Longrightarrow> present now k s = None"
  by (auto simp: present_def split: option.splits if_splits)

lemma same_later: "same_logins l ts t m ip s \<Longrightarrow> t \<le> now \<Longrightarrow> same_logins l ts now m ip s"
  by (auto simp: same_logins_def present_later split: option.splits)

lemma same_other:
  "same_logins l ts t m ip s \<Longrightarrow> s1 (login_key ip) = s (login_key ip) \<Longrightarrow> s1 (lock_key ip) = s (lock_key ip) \<Longrightarrow>
   same_logins l ts t m ip s1"
  by (simp only: same_logins_def present_def)

lemma past_window: "0 < d \<Longrightarrow> d < 2 ^ 63 - 1 \<Longrightarrow> d < time_sub a b \<longleftrightarrow> d < a - b"
  by (auto simp: time_sub_def less_max_iff_disj)

text \<open>The server's side of an attempt, by the keys of the address.\<close>

lemma incr_login:
  assumes "limits_ok l"
  shows "present now (login_key ip) s = None \<Longrightarrow>
      incrExpire now (ll_window l div go_second) (login_key ip) s = (1, s(login_key ip \<mapsto> (1, Some (now + ll_window l))))"
    and "s (login_key ip) = Some (c, Some e) \<Longrightarrow> now < e \<Longrightarrow> 0 < c \<Longrightarrow>
      incrExpire now (ll_window l div go_second) (login_key ip) s = (c + 1, s(login_key ip \<mapsto> (c + 1, Some e)))"
proof -
  have w: "0 < ll_window l" "ll_window l mod go_second = 0" using assms by (simp_all add: limits_ok_def)
  have e: "ll_window l div go_second * go_second = ll_window l" using w(2) div_mult_mod_eq [of "ll_window l" go_second] by simp
  have "\<not> ll_window l div go_second \<le> 0"
  proof
    assume "ll_window l div go_second \<le> 0"
    then have "ll_window l div go_second * go_second \<le> 0" by (simp add: go_second_def)
    with e w(1) show False by simp
  qed
  with e show "present now (login_key ip) s = None \<Longrightarrow>
      incrExpire now (ll_window l div go_second) (login_key ip) s = (1, s(login_key ip \<mapsto> (1, Some (now + ll_window l))))"
    by (simp add: incrExpire_def)
  show "s (login_key ip) = Some (c, Some e) \<Longrightarrow> now < e \<Longrightarrow> 0 < c \<Longrightarrow>
      incrExpire now (ll_window l div go_second) (login_key ip) s = (c + 1, s(login_key ip \<mapsto> (c + 1, Some e)))"
    by (simp add: incrExpire_def present_def)
qed

lemma vk_unlocked:
  assumes l: "limits_ok l" and "present now (lock_key ip) s = None"
    "incrExpire now (ll_window l div go_second) (login_key ip) s = (c, s1)"
  shows "vk_CheckLogin ttl Answered Answered Answered l now ip s =
    (if c \<ge> ll_max l
     then ((False, 0, Some (now + ll_lockout l)), s1(lock_key ip \<mapsto> (1, Some (now + ll_lockout l)), login_key ip := None))
     else ((True, ll_max l - c, None), s1))"
proof -
  have "lock_ttl ttl now (lock_key ip) s = -2" using assms(2) by (simp add: lock_ttl_def)
  moreover have "ll_lockout l div 1000000 * 1000000 = ll_lockout l" "0 < ll_lockout l"
    using l div_mult_mod_eq [of "ll_lockout l" 1000000] by (simp_all add: limits_ok_def)
  moreover from this have "0 < ll_lockout l div 1000000" by (cases "ll_lockout l div 1000000 \<le> 0") auto
  ultimately show ?thesis by (simp add: vk_CheckLogin_def assms(3) applied_def)
qed

lemma vk_locked:
  assumes "s (lock_key ip) = Some (1, Some e)" "now < e" "0 < ttl (e - now)"
  shows "\<exists>t. vk_CheckLogin ttl Answered Answered Answered l now ip s = ((False, 0, t), s)"
  using assms by (simp add: vk_CheckLogin_def lock_ttl_def present_def)

text \<open>One attempt of an address.\<close>

definition agree_on ::
    "login_limits \<Rightarrow> instant list \<Rightarrow> instant \<Rightarrow> string \<Rightarrow> (string \<rightharpoonup> loginAttempts) \<Rightarrow> server_keys \<Rightarrow>
     login_answer \<times> (string \<rightharpoonup> loginAttempts) \<Rightarrow> login_answer \<times> server_keys \<Rightarrow> bool" where
  "agree_on l ts now ip m s x y \<longleftrightarrow>
     fst (fst x) = fst (fst y) \<and> fst (snd (fst x)) = fst (snd (fst y)) \<and> same_logins l ts now (snd x ip) ip (snd y) \<and>
     (\<forall>ip'. ip' \<noteq> ip \<longrightarrow> snd x ip' = m ip' \<and> snd y (login_key ip') = s (login_key ip') \<and> snd y (lock_key ip') = s (lock_key ip'))"

lemma attempt_agrees:
  assumes l: "limits_ok l" and ts: "off_boundary l ts" "now \<in> set ts" and ttl: "\<And>d. go_second \<le> d \<Longrightarrow> 0 < ttl d"
    and same: "same_logins l ts now (m ip) ip s"
  shows "agree_on l ts now ip m s (mem_CheckLogin l now ip m) (vk_CheckLogin ttl Answered Answered Answered l now ip s)"
proof -
  have lim: "2 \<le> ll_max l" "0 < ll_window l" "ll_window l < ll_lockout l" "ll_window l < 2 ^ 63 - 1"
    using l by (simp_all add: limits_ok_def)
  have off: "u - t \<noteq> ll_window l" "u - t < ll_lockout l \<Longrightarrow> u - t \<le> ll_lockout l - go_second" if "t \<in> set ts" "u \<in> set ts" for t u
    using ts(1) that by (fastforce simp: off_boundary_def list_all_iff)+
  have fresh: "agree_on l ts now ip m s (mem_CheckLogin l now ip m) (vk_CheckLogin ttl Answered Answered Answered l now ip s)"
    if "present now (login_key ip) s = None" "present now (lock_key ip) s = None"
      "mem_CheckLogin l now ip m = ((True, ll_max l - 1, None), m(ip \<mapsto> a))"
      "la_first a = now" "la_last a = now" "la_count a = 1" "la_locked a = None" for a
    using lim ts(2) that(2-)
    by (simp add: agree_on_def vk_unlocked [OF l that(2) incr_login(1) [OF l that(1)]] same_logins_def present_def)
  show ?thesis
  proof (cases "m ip")
    case None
    then show ?thesis using same
      by (intro fresh [of "\<lparr>la_count = 1, la_first = now, la_last = now, la_locked = None\<rparr>"])
        (simp_all add: same_logins_def mem_CheckLogin_def)
  next
    case (Some a)
    note st = same [unfolded Some same_logins_def option.case]
    have ordl: "la_first a \<in> set ts" "la_last a \<in> set ts" "la_first a \<le> la_last a" "la_last a \<le> now"
      using st by simp_all
    show ?thesis
    proof (cases "la_locked a")
      case (Some e)
      with st have e: "e = la_last a + ll_lockout l" "s (lock_key ip) = Some (1, Some e)" "s (login_key ip) = None" by simp_all
      show ?thesis
      proof (cases "now < e")
        case True
        with e off(2) [OF ordl(2) ts(2)] have "0 < ttl (e - now)" by (intro ttl) simp
        from vk_locked [where s = s and ttl = ttl, OF e(2) True this] obtain t where
          "vk_CheckLogin ttl Answered Answered Answered l now ip s = ((False, 0, t), s)" by blast
        with True Some same \<open>m ip = Some a\<close> show ?thesis by (simp add: agree_on_def mem_CheckLogin_def)
      next
        case False
        then have "ll_window l < now - la_first a" using e(1) ordl(3) lim by simp
        then have "ll_window l < time_sub now (la_first a)" using past_window [OF lim(2,4)] by simp
        with False Some \<open>m ip = Some a\<close> e show ?thesis
          by (intro fresh [of "a\<lparr>la_count := 1, la_first := now, la_locked := None, la_last := now\<rparr>"])
            (simp_all add: mem_CheckLogin_def present_def)
      qed
    next
      case None
      with st have k: "s (login_key ip) = Some (la_count a, Some (la_first a + ll_window l))" "0 < la_count a"
        "present now (lock_key ip) s = None" by simp_all
      show ?thesis
      proof (cases "ll_window l < now - la_first a")
        case True
        then have "ll_window l < time_sub now (la_first a)" using past_window [OF lim(2,4)] by simp
        with None \<open>m ip = Some a\<close> k True show ?thesis
          by (intro fresh [of "a\<lparr>la_count := 1, la_first := now, la_locked := None, la_last := now\<rparr>"])
            (simp_all add: mem_CheckLogin_def present_def)
      next
        case False
        then have in_w: "now < la_first a + ll_window l" using off(1) [OF ordl(1) ts(2)] by simp
        have "\<not> ll_window l < time_sub now (la_first a)" using False past_window [OF lim(2,4)] by simp
        with None \<open>m ip = Some a\<close> k ts(2) ordl False same lim show ?thesis
          by (auto simp: agree_on_def mem_CheckLogin_def vk_unlocked [OF l k(3) incr_login(2) [where s = s, OF l k(1) in_w k(2)]]
              same_logins_def present_def Let_def)
      qed
    qed
  qed
qed

lemma reset_agrees: "same_logins l ts t (mem_Reset ip m ip) ip (vk_Reset Answered Answered ip s)"
  by (simp add: same_logins_def mem_Reset_def vk_Reset_def applied_def present_def)

lemma sweep_agrees:
  assumes l: "limits_ok l" and same: "same_logins l ts now (m ip) ip s"
  shows "same_logins l ts now (mem_login_cleanup l now m ip) ip s"
proof (cases "m ip")
  case (Some a)
  note st = same [unfolded Some same_logins_def option.case]
  have lim: "0 < ll_window l" "ll_window l < ll_lockout l" "ll_window l + ll_lockout l < 2 ^ 63 - 1"
    using l by (simp_all add: limits_ok_def)
  then have w: "wrap64 (ll_window l + ll_lockout l) = ll_window l + ll_lockout l" by (intro wrap64_id) (simp add: in_int64_def)
  show ?thesis
  proof (cases "ll_window l + ll_lockout l < time_sub now (la_last a)")
    case True
    then have "ll_window l + ll_lockout l < now - la_last a" using past_window [OF _ lim(3)] lim by simp
    with st lim have "present now (login_key ip) s = None \<and> present now (lock_key ip) s = None"
      by (auto simp: present_def split: option.splits)
    with True Some w show ?thesis by (simp add: mem_login_cleanup_def same_logins_def)
  next
    case False
    with Some same w show ?thesis by (simp add: mem_login_cleanup_def)
  qed
qed (use same in \<open>simp add: mem_login_cleanup_def\<close>)

lemma logins_agree_from:
  assumes l: "limits_ok l" and off: "off_boundary l ts" and ttl: "\<And>d. go_second \<le> d \<Longrightarrow> 0 < ttl d"
  shows "(\<And>ip. same_logins l ts t (m ip) ip s) \<Longrightarrow> sorted (t # login_times es) \<Longrightarrow> set (login_times es) \<subseteq> set ts \<Longrightarrow>
    mem_logins l es m = vk_logins ttl l es s"
proof (induction es arbitrary: t m s)
  case (Cons e es)
  show ?case
  proof (cases e)
    case (Attempt now ip)
    have now: "t \<le> now" "now \<in> set ts" "sorted (now # login_times es)" "set (login_times es) \<subseteq> set ts"
      using Cons.prems(2,3) by (simp_all add: Attempt login_times_def map_filter_simps)
    have same: "same_logins l ts now (m ip) ip s" for ip by (rule same_later [OF Cons.prems(1) now(1)])
    obtain ok left lock m1 where x: "mem_CheckLogin l now ip m = ((ok, left, lock), m1)" by (metis prod.exhaust)
    obtain ok' left' lock' s1 where y: "vk_CheckLogin ttl Answered Answered Answered l now ip s = ((ok', left', lock'), s1)"
      by (metis prod.exhaust)
    have ag: "agree_on l ts now ip m s ((ok, left, lock), m1) ((ok', left', lock'), s1)"
      using attempt_agrees [where m = m and ip = ip and ttl = ttl, OF l off now(2) ttl same] unfolding x y by simp
    have "same_logins l ts now (m1 ip') ip' s1" for ip'
    proof (cases "ip' = ip")
      case False
      with ag have o: "m1 ip' = m ip'" "s1 (login_key ip') = s (login_key ip')" "s1 (lock_key ip') = s (lock_key ip')"
        by (simp_all add: agree_on_def)
      show ?thesis unfolding o(1) by (rule same_other [OF same [of ip'] o(2,3)])
    qed (use ag in \<open>simp add: agree_on_def\<close>)
    from Cons.IH [where m = m1 and s = s1, OF this now(3,4)] ag show ?thesis by (simp add: Attempt x y agree_on_def)
  next
    case (Success ip)
    have "same_logins l ts t (mem_Reset ip m ip') ip' (vk_Reset Answered Answered ip s)" for ip'
    proof (cases "ip' = ip")
      case False
      then have o: "mem_Reset ip m ip' = m ip'" "vk_Reset Answered Answered ip s (login_key ip') = s (login_key ip')"
        "vk_Reset Answered Answered ip s (lock_key ip') = s (lock_key ip')"
        by (simp_all add: mem_Reset_def vk_Reset_def applied_def)
      show ?thesis unfolding o(1) by (rule same_other [OF Cons.prems(1) o(2,3)])
    qed (simp add: reset_agrees)
    from Cons.IH [where m = "mem_Reset ip m" and s = "vk_Reset Answered Answered ip s", OF this] Cons.prems(2,3)
    show ?thesis by (simp add: Success login_times_def map_filter_simps)
  next
    case (Sweep now)
    have now: "t \<le> now" "sorted (now # login_times es)" "set (login_times es) \<subseteq> set ts"
      using Cons.prems(2,3) by (simp_all add: Sweep login_times_def map_filter_simps)
    have "same_logins l ts now (mem_login_cleanup l now m ip) ip s" for ip
      by (rule sweep_agrees [OF l same_later [OF Cons.prems(1) now(1)]])
    from Cons.IH [where m = "mem_login_cleanup l now m" and s = s, OF this now(2,3)] show ?thesis by (simp add: Sweep)
  qed
qed simp

text \<open>The login limiters in memory and on the server answer every attempt alike (allowed or not, attempts left),
  over any history of attempts, successful logins and clean-ups of any addresses, with limits of at least two
  attempts and a lock longer than the window, as long as the server answers and no attempt comes exactly at the end
  of a window or in the last second of a lock.\<close>

theorem login_limiters_agree:
  assumes "limits_ok l" "sorted (login_times es)" "off_boundary l (login_times es)" "\<And>d. go_second \<le> d \<Longrightarrow> 0 < ttl d"
  shows "mem_logins l es Map.empty = vk_logins ttl l es Map.empty"
proof -
  let ?t = "case login_times es of [] \<Rightarrow> 0 | t # _ \<Rightarrow> t"
  have "sorted (?t # login_times es)" using assms(2) by (cases "login_times es") simp_all
  moreover have "same_logins l (login_times es) ?t (Map.empty ip) ip Map.empty" for ip
    by (simp add: same_logins_def present_def)
  ultimately show ?thesis
    by (intro logins_agree_from [OF assms(1,3,4), where t = ?t]) simp_all
qed

definition demo_limits :: login_limits where
  "demo_limits = \<lparr>ll_max = 5, ll_window = 15 * go_minute, ll_lockout = 30 * go_minute\<rparr>"

definition demo_logins :: "login_event list" where
  "demo_logins = [Attempt 0 ''a'', Attempt 1 ''a'', Attempt 2 ''a'', Attempt 3 ''b'', Attempt 4 ''a'', Attempt 5 ''a'',
     Success ''b'', Attempt 6 ''a'', Attempt go_hour ''a'']"

text \<open>Of the five attempts the last is denied, although one attempt was reported left.\<close>

theorem login_limiters_agree_witness:
  "mem_logins demo_limits demo_logins Map.empty =
     [(True, 4), (True, 3), (True, 2), (True, 4), (True, 1), (False, 0), (False, 0), (True, 4)] \<and>
   vk_logins (\<lambda>d. d div go_second) demo_limits demo_logins Map.empty =
     [(True, 4), (True, 3), (True, 2), (True, 4), (True, 1), (False, 0), (False, 0), (True, 4)]"
proof -
  have m: "mem_logins demo_limits demo_logins Map.empty =
     [(True, 4), (True, 3), (True, 2), (True, 4), (True, 1), (False, 0), (False, 0), (True, 4)]" by code_simp
  have "limits_ok demo_limits" by (simp add: limits_ok_def demo_limits_def duration_defs)
  moreover have "sorted (login_times demo_logins)" "off_boundary demo_limits (login_times demo_logins)" by code_simp+
  moreover have "0 < d div go_second" if "go_second \<le> d" for d
    using that by (simp add: go_second_def pos_imp_zdiv_pos_iff)
  ultimately show ?thesis using m login_limiters_agree [of demo_limits demo_logins "\<lambda>d. d div go_second"] by simp
qed

subsection \<open>The client address\<close>

lemma xff_skip:
  assumes "list_all (\<lambda>h. go_trim_space h = [] \<or> (case parse (go_trim_space h) of None \<Rightarrow> True | Some a \<Rightarrow> trusted a)) hops"
  shows "xff_loop parse trusted (hops @ es) = xff_loop parse trusted es"
  using assms by (induction hops) (auto simp: Let_def split: option.split)

lemma split_hops:
  "list_all (\<lambda>h. CHR '','' \<notin> set h) (h # hs) \<Longrightarrow>
   go_split (CHR '','') (h @ concat (map (\<lambda>h. CHR '','' # h) hs)) = h # hs"
proof (induction hs arbitrary: h)
  case (Cons k ks)
  then show ?case using go_split_append [of "CHR '',''" h "k @ concat (map (\<lambda>h. CHR '','' # h) ks)"] by simp
qed (simp add: go_split_plain)

text \<open>Behind trusted proxies that extend the header line, the address used for limits and audit is the one the
  outermost proxy saw: whatever text the client sent in the line and however many trusted hops follow.\<close>

theorem client_ip_unspoofable:
  assumes "nets \<noteq> []" "split_host_port peer = Some host" "parse host = Some a" "list_ex (\<lambda>n. contains n a) nets"
    "parse (go_trim_space real) = Some b" "\<not> list_ex (\<lambda>n. contains n b) nets" "go_trim_space real \<noteq> []"
    "list_all (\<lambda>h. CHR '','' \<notin> set h) (real # hops)"
    "list_all (\<lambda>h. case parse (go_trim_space h) of None \<Rightarrow> True | Some c \<Rightarrow> list_ex (\<lambda>n. contains n c) nets) hops"
  shows "clientIP parse contains split_host_port nets peer
      ((forged @ '','' @ real @ concat (map (\<lambda>h. CHR '','' # h) hops)) # lines) = go_trim_space real"
proof -
  let ?tr = "\<lambda>a. list_ex (\<lambda>n. contains n a) nets"
  have "go_split (CHR '','') (forged @ '','' @ real @ concat (map (\<lambda>h. CHR '','' # h) hops)) =
      go_split (CHR '','') forged @ real # hops"
    using go_split_at [of "CHR '',''" forged] split_hops [OF assms(8)] by simp
  then have "rev (go_split (CHR '','') (forged @ '','' @ real @ concat (map (\<lambda>h. CHR '','' # h) hops))) =
      rev hops @ real # rev (go_split (CHR '','') forged)" by simp
  moreover have "xff_loop parse ?tr (rev hops @ real # es) = Some (go_trim_space real)" for es
  proof -
    have "list_all (\<lambda>h. go_trim_space h = [] \<or> (case parse (go_trim_space h) of None \<Rightarrow> True | Some a \<Rightarrow> ?tr a)) (rev hops)"
      using assms(9) by (simp add: list_all_iff)
    from xff_skip [OF this] show ?thesis using assms(5,6,7) by simp
  qed
  ultimately show ?thesis using assms(1-4) by (simp add: clientIP_def Let_def)
qed

theorem client_ip_unspoofable_witness:
  "clientIP (\<lambda>s. if go_contains s ''.'' then Some s else None) (\<lambda>n a. go_has_prefix a n) (\<lambda>p. Some (take 8 p)) [''10.'']
     ''10.0.0.1:4711'' [''9.9.9.9, 1.2.3.4, 8.8.8.8, 10.0.0.2''] = ''8.8.8.8''"
proof -
  let ?parse = "\<lambda>s. if go_contains s ''.'' then Some s else None"
  have "clientIP ?parse (\<lambda>n a. go_has_prefix a n) (\<lambda>p. Some (take 8 p)) [''10.'']
     ''10.0.0.1:4711'' ((''9.9.9.9, 1.2.3.4'' @ '','' @ '' 8.8.8.8'' @ concat (map (\<lambda>h. CHR '','' # h) ['' 10.0.0.2''])) # [])
     = go_trim_space '' 8.8.8.8''"
    by (rule client_ip_unspoofable [where b = "''8.8.8.8''"]) code_simp+
  moreover have "go_trim_space '' 8.8.8.8'' = ''8.8.8.8''" by code_simp
  ultimately show ?thesis by simp
qed

text \<open>Only the first header line is read: a proxy that adds a line of its own instead of extending the client's
  leaves the choice of the address to the client.\<close>

lemma second_header_line_ignored:
  "clientIP (\<lambda>s. if go_contains s ''.'' then Some s else None) (\<lambda>n a. go_has_prefix a n) (\<lambda>p. Some (take 8 p)) [''10.'']
     ''10.0.0.1:4711'' [''1.2.3.4'', ''8.8.8.8''] = ''1.2.3.4''"
  by code_simp

end
