(* ===== verification/Accounts.thy ===== *)
theory Accounts
  imports Access
begin

text \<open>
  User accounts: the table of users with its constraints (\<^verbatim>\<open>store/users.go\<close>,
  \<^verbatim>\<open>db/migrations/00002_identity.sql\<close>), passwords and their policy (\<^verbatim>\<open>crypto/password.go\<close>,
  \<^verbatim>\<open>api/auth.go\<close>), password reset tokens (\<^verbatim>\<open>store/password_reset.go\<close>) and the administration of users
  (\<^verbatim>\<open>api/users.go\<close>). Argon2id and the library for phone numbers are parameters; salts, new ids and the clock are
  arguments. A database error other than a violated constraint is not modelled.
\<close>

subsection \<open>Passwords\<close>

text \<open>\<open>ps_derive salt plaintext\<close> is the PHC text of the peppered argon2id hash; \<open>ps_compare\<close> decodes such a text and
  compares: none for a text that does not decode, else whether the password matches and whether the parameters of the
  text are weaker than the configured ones.\<close>

record password_scheme =
  ps_derive :: "string \<Rightarrow> string \<Rightarrow> string"
  ps_compare :: "string \<Rightarrow> string \<Rightarrow> (bool \<times> bool) option"

definition HashPassword :: "password_scheme \<Rightarrow> string \<Rightarrow> string \<Rightarrow> string option" where
  "HashPassword P salt plain = (if plain = [] then None else Some (ps_derive P salt plain))"

definition VerifyPassword :: "password_scheme \<Rightarrow> string \<Rightarrow> string \<Rightarrow> (bool \<times> bool) option" where
  "VerifyPassword P encoded plain =
     (if encoded = [] \<or> plain = [] then Some (False, False)
      else map_option (\<lambda>(ok, weak). if ok then (True, weak) else (False, False)) (ps_compare P encoded plain))"

datatype policy_error = TooShort | TooLong | NoUpper | NoLower | NoDigit | NoSpecial

definition maxPasswordLength :: nat where "maxPasswordLength = 1024"

definition char_in :: "char \<Rightarrow> char \<Rightarrow> char \<Rightarrow> bool" where
  "char_in lo hi c = ((of_char lo :: nat) \<le> of_char c \<and> (of_char c :: nat) \<le> of_char hi)"

definition validatePasswordPolicy :: "string \<Rightarrow> policy_error option" where
  "validatePasswordPolicy p =
     (if length p < 8 then Some TooShort
      else if length p > maxPasswordLength then Some TooLong
      else if \<not> list_ex (char_in (CHR ''A'') (CHR ''Z'')) p then Some NoUpper
      else if \<not> list_ex (char_in (CHR ''a'') (CHR ''z'')) p then Some NoLower
      else if \<not> list_ex (char_in (CHR ''0'') (CHR ''9'')) p then Some NoDigit
      else if \<not> list_ex (List.member ''!@#$%^&*()_+-=[]{}|;:,.<>?'') p then Some NoSpecial
      else None)"

subsection \<open>Phone numbers\<close>

text \<open>The library's functions: parsing, validity, the E.164 form, the region of a number and all regions of its
  country code.\<close>

record phone_lib =
  ph_parse :: "string \<Rightarrow> string option"
  ph_valid :: "string \<Rightarrow> bool"
  ph_e164 :: "string \<Rightarrow> string"
  ph_region :: "string \<Rightarrow> string"
  ph_regions :: "string \<Rightarrow> string list"

definition go_to_upper :: "string \<Rightarrow> string" where
  "go_to_upper s = map (\<lambda>c. let n = (of_char c :: nat) in if 97 \<le> n \<and> n \<le> 122 then char_of (n - 32) else c) s"

definition validatePhoneNumber :: "phone_lib \<Rightarrow> string \<Rightarrow> string option" where
  "validatePhoneNumber L phone0 =
     (let phone = go_trim_space phone0
      in if phone = [] then Some []
         else case ph_parse L phone of
                None \<Rightarrow> None
              | Some num \<Rightarrow> if ph_valid L num then Some (ph_e164 L num) else None)"

definition isCompatibleRegion :: "phone_lib \<Rightarrow> string \<Rightarrow> string \<Rightarrow> string \<Rightarrow> bool" where
  "isCompatibleRegion L chosen detected num =
     (if chosen = detected then True
      else if detected = [] \<or> detected = ''ZZ'' then length chosen = 2
      else List.member (ph_regions L num) chosen)"

definition validatePhoneCountry :: "phone_lib \<Rightarrow> string \<Rightarrow> string \<Rightarrow> string option" where
  "validatePhoneCountry L country phone =
     (if phone = [] then Some country
      else case ph_parse L phone of
             None \<Rightarrow> None
           | Some num \<Rightarrow>
               if country = [] then Some (ph_region L num)
               else if isCompatibleRegion L country (ph_region L num) num then Some country else None)"

subsection \<open>The table of users\<close>

record user_row =
  us_id :: uuid
  us_full_name :: string
  us_phone :: string
  us_country :: string
  us_email :: string
  us_password :: string
  us_role :: string
  us_created :: instant
  us_updated :: instant
  us_google :: string
  us_slack :: string
  us_slack_name :: string
  us_failed :: int
  us_locked :: "instant option"
  us_last_failed :: "instant option"
  us_last_login :: "instant option"
  us_last_ip :: string
  us_voice_opt_out :: bool
  us_prefs :: "string option" \<comment> \<open>a JSON document\<close>

type_synonym user_table = "user_row list"

datatype user_error = DuplicateKey | CheckViolated | UserNotFound | HashFailed

text \<open>The constraints: ids, e-mail addresses and non-empty Slack identities are unique, the role is one of the three
  and the count of failures is not negative. A write that violates one changes nothing.\<close>

definition user_violation :: "user_table \<Rightarrow> user_error option" where
  "user_violation tab =
     (if \<not> distinct (map us_id tab) \<or> \<not> distinct (map us_email tab) \<or> \<not> distinct (filter (\<lambda>x. x \<noteq> []) (map us_slack tab))
      then Some DuplicateKey
      else if list_ex (\<lambda>u. \<not> ValidRole (us_role u) \<or> us_failed u < 0) tab then Some CheckViolated
      else None)"

definition write_users :: "user_table \<Rightarrow> user_table \<Rightarrow> (user_error + unit) \<times> user_table" where
  "write_users tab tab1 = (case user_violation tab1 of None \<Rightarrow> (Inr (), tab1) | Some e \<Rightarrow> (Inl e, tab))"

definition change_user :: "uuid \<Rightarrow> (user_row \<Rightarrow> user_row) \<Rightarrow> user_table \<Rightarrow> user_table" where
  "change_user u f tab = map (\<lambda>r. if us_id r = u then f r else r) tab"

definition user_GetByEmail :: "string \<Rightarrow> user_table \<Rightarrow> user_row option" where
  "user_GetByEmail email tab = List.find (\<lambda>r. us_email r = email) tab"

definition user_GetByID :: "uuid \<Rightarrow> user_table \<Rightarrow> user_row option" where
  "user_GetByID u tab = List.find (\<lambda>r. us_id r = u) tab"

definition GetByGoogleID :: "string \<Rightarrow> user_table \<Rightarrow> user_row option" where
  "GetByGoogleID g tab = List.find (\<lambda>r. us_google r = g) tab"

definition GetBySlackUserID :: "string \<Rightarrow> user_table \<Rightarrow> user_row option" where
  "GetBySlackUserID s tab = List.find (\<lambda>r. us_slack r = s) tab"

definition ListUsers :: "user_table \<Rightarrow> user_row list" where
  "ListUsers tab = take 500 tab"

definition CountAdmins :: "user_table \<Rightarrow> nat" where
  "CountAdmins tab = length (filter (\<lambda>r. us_role r = ''admin'') tab)"

definition CountUsers :: "user_table \<Rightarrow> nat" where
  "CountUsers tab = length tab"

definition CreateUser ::
    "password_scheme \<Rightarrow> string \<Rightarrow> uuid \<Rightarrow> instant \<Rightarrow> string \<Rightarrow> string \<Rightarrow> string \<Rightarrow> user_table
     \<Rightarrow> (user_error + user_row) \<times> user_table" where
  "CreateUser P salt key now email password role tab =
     (case HashPassword P salt password of
        None \<Rightarrow> (Inl HashFailed, tab)
      | Some h \<Rightarrow>
          let r = \<lparr>us_id = key, us_full_name = [], us_phone = [], us_country = [], us_email = email, us_password = h,
                   us_role = role, us_created = now, us_updated = now, us_google = [], us_slack = [], us_slack_name = [],
                   us_failed = 0, us_locked = None, us_last_failed = None, us_last_login = None, us_last_ip = [],
                   us_voice_opt_out = False, us_prefs = None\<rparr>
          in case write_users tab (tab @ [r]) of
               (Inl e, tab1) \<Rightarrow> (Inl e, tab1)
             | (Inr _, tab1) \<Rightarrow> (Inr r, tab1))"

text \<open>The keys \<^verbatim>\<open>UpdateUser\<close> knows, each with the value it takes.\<close>

datatype user_field =
    SetEmail string | SetPassword string | SetRole string | SetFullName string | SetPhone string | SetCountry string
  | SetFailed int | SetLocked "instant option" | SetLastFailed "instant option" | SetLastLogin "instant option"
  | SetLastIP string | SetSlack string | SetSlackName string | SetVoiceOptOut bool

fun set_field :: "user_field \<Rightarrow> user_row \<Rightarrow> user_row" where
  "set_field (SetEmail v) r = r\<lparr>us_email := v\<rparr>"
| "set_field (SetPassword v) r = r\<lparr>us_password := v\<rparr>"
| "set_field (SetRole v) r = r\<lparr>us_role := v\<rparr>"
| "set_field (SetFullName v) r = r\<lparr>us_full_name := v\<rparr>"
| "set_field (SetPhone v) r = r\<lparr>us_phone := v\<rparr>"
| "set_field (SetCountry v) r = r\<lparr>us_country := v\<rparr>"
| "set_field (SetFailed v) r = r\<lparr>us_failed := v\<rparr>"
| "set_field (SetLocked v) r = r\<lparr>us_locked := v\<rparr>"
| "set_field (SetLastFailed v) r = r\<lparr>us_last_failed := v\<rparr>"
| "set_field (SetLastLogin v) r = r\<lparr>us_last_login := v\<rparr>"
| "set_field (SetLastIP v) r = r\<lparr>us_last_ip := v\<rparr>"
| "set_field (SetSlack v) r = r\<lparr>us_slack := v\<rparr>"
| "set_field (SetSlackName v) r = r\<lparr>us_slack_name := v\<rparr>"
| "set_field (SetVoiceOptOut v) r = r\<lparr>us_voice_opt_out := v\<rparr>"

definition UpdateUser :: "instant \<Rightarrow> uuid \<Rightarrow> user_field list \<Rightarrow> user_table \<Rightarrow> (user_error + unit) \<times> user_table" where
  "UpdateUser now u fs tab =
     (if fs = [] then (Inr (), tab)
      else if user_GetByID u tab = None then (Inl UserNotFound, tab)
      else write_users tab (change_user u (\<lambda>r. fold set_field fs r\<lparr>us_updated := now\<rparr>) tab))"

definition DeleteUser :: "uuid \<Rightarrow> user_table \<Rightarrow> (user_error + unit) \<times> user_table" where
  "DeleteUser u tab =
     (if user_GetByID u tab = None then (Inl UserNotFound, tab) else (Inr (), filter (\<lambda>r. us_id r \<noteq> u) tab))"

datatype login_error = ErrInvalidCredentials | ErrAccountLocked | ErrVerify

definition locked_at :: "instant \<Rightarrow> user_row \<Rightarrow> bool" where
  "locked_at now r = (case us_locked r of None \<Rightarrow> False | Some t \<Rightarrow> now < t)"

text \<open>A password whose stored parameters are weak is hashed again; a failure of that is ignored.\<close>

definition Authenticate ::
    "password_scheme \<Rightarrow> string \<Rightarrow> instant \<Rightarrow> string \<Rightarrow> string \<Rightarrow> user_table \<Rightarrow> (login_error + user_row) \<times> user_table" where
  "Authenticate P salt now email password tab =
     (case user_GetByEmail email tab of
        None \<Rightarrow> (Inl ErrInvalidCredentials, tab)
      | Some r \<Rightarrow>
          if locked_at now r then (Inl ErrAccountLocked, tab)
          else case VerifyPassword P (us_password r) password of
                 None \<Rightarrow> (Inl ErrVerify, tab)
               | Some (ok, weak) \<Rightarrow>
                   if \<not> ok then (Inl ErrInvalidCredentials, tab)
                   else (Inr r,
                         case if weak then HashPassword P salt password else None of
                           None \<Rightarrow> tab
                         | Some h \<Rightarrow> change_user (us_id r) (\<lambda>r. r\<lparr>us_password := h, us_updated := now\<rparr>) tab))"

definition RecordFailedLogin :: "instant \<Rightarrow> string \<Rightarrow> user_table \<Rightarrow> user_table" where
  "RecordFailedLogin now email tab =
     (case user_GetByEmail email tab of
        None \<Rightarrow> tab
      | Some r0 \<Rightarrow>
          let n = us_failed r0 + 1
          in change_user (us_id r0) (\<lambda>r. r\<lparr>us_failed := n, us_last_failed := Some now, us_updated := now,
               us_locked := (if n \<ge> 5 then Some (now + 30 * go_minute) else us_locked r)\<rparr>) tab)"

definition RecordSuccessfulLogin :: "instant \<Rightarrow> uuid \<Rightarrow> string \<Rightarrow> user_table \<Rightarrow> user_table" where
  "RecordSuccessfulLogin now u ip tab =
     change_user u (\<lambda>r. r\<lparr>us_failed := 0, us_locked := None, us_last_login := Some now, us_last_ip := ip, us_updated := now\<rparr>) tab"

definition UnlockAccount :: "instant \<Rightarrow> uuid \<Rightarrow> user_table \<Rightarrow> (user_error + unit) \<times> user_table" where
  "UnlockAccount now u tab =
     (if user_GetByID u tab = None then (Inl UserNotFound, tab)
      else (Inr (), change_user u (\<lambda>r. r\<lparr>us_failed := 0, us_locked := None, us_updated := now\<rparr>) tab))"

definition GetNotificationPreferences :: "uuid \<Rightarrow> user_table \<Rightarrow> string option" where
  "GetNotificationPreferences u tab =
     map_option (\<lambda>r. case us_prefs r of None \<Rightarrow> ''{}'' | Some d \<Rightarrow> d) (user_GetByID u tab)"

definition UpdateNotificationPreferences :: "uuid \<Rightarrow> string option \<Rightarrow> user_table \<Rightarrow> user_table" where
  "UpdateNotificationPreferences u d tab = change_user u (\<lambda>r. r\<lparr>us_prefs := d\<rparr>) tab"

definition UpdateGoogleID :: "uuid \<Rightarrow> string \<Rightarrow> user_table \<Rightarrow> user_table" where
  "UpdateGoogleID u g tab = change_user u (\<lambda>r. r\<lparr>us_google := g\<rparr>) tab"

definition ClearGoogleID :: "instant \<Rightarrow> uuid \<Rightarrow> user_table \<Rightarrow> user_table" where
  "ClearGoogleID now u tab = change_user u (\<lambda>r. r\<lparr>us_google := [], us_updated := now\<rparr>) tab"

text \<open>\<^verbatim>\<open>ErrSlackIdentityTaken\<close> is the violated unique index.\<close>

definition SetSlackIdentity :: "instant \<Rightarrow> uuid \<Rightarrow> string \<Rightarrow> string \<Rightarrow> user_table \<Rightarrow> (user_error + unit) \<times> user_table" where
  "SetSlackIdentity now u s name tab =
     write_users tab (change_user u (\<lambda>r. r\<lparr>us_slack := s, us_slack_name := name, us_updated := now\<rparr>) tab)"

definition ClearSlackIdentity :: "instant \<Rightarrow> uuid \<Rightarrow> user_table \<Rightarrow> user_table" where
  "ClearSlackIdentity now u tab = change_user u (\<lambda>r. r\<lparr>us_slack := [], us_slack_name := [], us_updated := now\<rparr>) tab"

end
