(* ===== verification/Tokens.thy ===== *)
theory Tokens
  imports Access Routing
begin

text \<open>
  Bearer tokens: personal access tokens (\<^verbatim>\<open>store/personal_access_tokens.go\<close>), tokens of agents
  (\<^verbatim>\<open>store/agent_tokens.go\<close>) and of webhooks (\<^verbatim>\<open>store/webhook_tokens.go\<close>). The keyed hash and SHA-256 are
  parameters, new ids and token texts are arguments. The time of the last use, written by a goroutine of its own, is
  modelled as written at once. The three stores provide one interface: a token that is accepted was issued, and has
  not been revoked since.
\<close>

record token_hashes =
  th_hmac :: "string \<Rightarrow> string"
  th_sha :: "string \<Rightarrow> string" \<comment> \<open>in hexadecimal\<close>

definition lookupPrefix :: "token_hashes \<Rightarrow> string \<Rightarrow> string" where
  "lookupPrefix h t = take 12 (th_sha h t)"

definition lapsed :: "instant \<Rightarrow> instant option \<Rightarrow> bool" where
  "lapsed now e = (case e of None \<Rightarrow> False | Some t \<Rightarrow> t < now)"

text \<open>The last use is written at most once in 24 hours.\<close>

definition use_due :: "instant \<Rightarrow> instant option \<Rightarrow> bool" where
  "use_due now used = (case used of None \<Rightarrow> True | Some t \<Rightarrow> 24 * go_hour \<le> time_sub now t)"

subsection \<open>Personal access tokens\<close>

record pat_row =
  pt_id :: uuid
  pt_user :: uuid
  pt_name :: string
  pt_hash :: string
  pt_prefix :: string
  pt_perms :: "string list"
  pt_expires :: "instant option"
  pt_used :: "instant option"
  pt_created :: instant
  pt_revoked :: bool

type_synonym pat_table = "pat_row list"

definition pat_CreateToken ::
    "token_hashes \<Rightarrow> instant \<Rightarrow> uuid \<Rightarrow> string \<Rightarrow> uuid \<Rightarrow> string \<Rightarrow> string list \<Rightarrow> instant option \<Rightarrow> pat_table
     \<Rightarrow> pat_row option \<times> pat_table" where
  "pat_CreateToken h now key text user name perms expires tab =
     (let r = \<lparr>pt_id = key, pt_user = user, pt_name = name, pt_hash = th_hmac h text, pt_prefix = lookupPrefix h text,
               pt_perms = perms, pt_expires = expires, pt_used = None, pt_created = now, pt_revoked = False\<rparr>
      in if name = [] \<or> 128 < length name \<or> list_ex (\<lambda>q. pt_id q = key \<or> pt_hash q = th_hmac h text) tab then (None, tab) else (Some r, tab @ [r]))"

definition pat_ListByUser :: "uuid \<Rightarrow> pat_table \<Rightarrow> pat_row list" where
  "pat_ListByUser user tab = sort_key (\<lambda>r. - pt_created r) (filter (\<lambda>r. pt_user r = user) tab)"

definition pat_ListAll :: "pat_table \<Rightarrow> pat_row list" where
  "pat_ListAll tab = sort_key (\<lambda>r. - pt_created r) tab"

text \<open>False: \<^verbatim>\<open>ErrTokenNotFound\<close>.\<close>

definition pat_revoke :: "(pat_row \<Rightarrow> bool) \<Rightarrow> pat_table \<Rightarrow> bool \<times> pat_table" where
  "pat_revoke P tab =
     (let hit = (\<lambda>r. P r \<and> \<not> pt_revoked r)
      in (list_ex hit tab, map (\<lambda>r. if hit r then r\<lparr>pt_revoked := True\<rparr> else r) tab))"

definition pat_RevokeToken :: "uuid \<Rightarrow> uuid \<Rightarrow> pat_table \<Rightarrow> bool \<times> pat_table" where
  "pat_RevokeToken key user = pat_revoke (\<lambda>r. pt_id r = key \<and> pt_user r = user)"

definition pat_RevokeTokenAdmin :: "uuid \<Rightarrow> pat_table \<Rightarrow> bool \<times> pat_table" where
  "pat_RevokeTokenAdmin key = pat_revoke (\<lambda>r. pt_id r = key)"

definition pat_updateLastUsed :: "instant \<Rightarrow> pat_row \<Rightarrow> pat_table \<Rightarrow> pat_table" where
  "pat_updateLastUsed now c tab =
     (if use_due now (pt_used c) then map (\<lambda>r. if pt_id r = pt_id c then r\<lparr>pt_used := Some now\<rparr> else r) tab else tab)"

definition pat_ValidateToken :: "token_hashes \<Rightarrow> instant \<Rightarrow> string \<Rightarrow> pat_table \<Rightarrow> pat_row option \<times> pat_table" where
  "pat_ValidateToken h now token tab =
     (case List.find (\<lambda>c. th_hmac h token = pt_hash c \<and> \<not> lapsed now (pt_expires c))
             (filter (\<lambda>c. pt_prefix c = lookupPrefix h token \<and> \<not> pt_revoked c) tab) of
        None \<Rightarrow> (None, tab)
      | Some c \<Rightarrow> (Some c, pat_updateLastUsed now c tab))"

subsection \<open>Tokens of agents\<close>

definition NormalizeAgentType :: "string \<Rightarrow> string" where
  "NormalizeAgentType s =
     (let t = go_trim_space (go_to_lower s)
      in if List.member [''alga'', ''openclaw'', ''other''] t then t else ''hermes'')"

definition ParseAgentType :: "string \<Rightarrow> string option" where
  "ParseAgentType s =
     (let t = go_trim_space (go_to_lower s)
      in if t = [] then Some ''hermes''
         else if List.member [''alga'', ''hermes'', ''openclaw'', ''other''] t then Some t else None)"

record agent_row =
  at_id :: uuid
  at_name :: string
  at_type :: string
  at_hash :: string
  at_prefix :: string
  at_created :: instant
  at_updated :: instant
  at_used :: "instant option"
  at_expires :: "instant option"
  at_revoked :: bool
  at_enabled :: bool
  at_scope :: string
  at_caps :: "string list"
  at_selectors :: "route_condition list"

type_synonym agent_table = "agent_row list"

datatype token_error = InvalidAgentType | TokenTaken | TokenNotFound | AgentNotFoundInactive

definition agent_CreateToken ::
    "token_hashes \<Rightarrow> instant \<Rightarrow> uuid \<Rightarrow> string \<Rightarrow> string \<Rightarrow> instant option \<Rightarrow> string \<Rightarrow> string list \<Rightarrow> agent_table
     \<Rightarrow> (token_error + agent_row) \<times> agent_table" where
  "agent_CreateToken h now key text name expires agentType caps tab =
     (case ParseAgentType agentType of
        None \<Rightarrow> (Inl InvalidAgentType, tab)
      | Some ty \<Rightarrow>
          let r = \<lparr>at_id = key, at_name = name, at_type = ty, at_hash = th_hmac h text, at_prefix = lookupPrefix h text,
                   at_created = now, at_updated = now, at_used = None, at_expires = expires, at_revoked = False,
                   at_enabled = True, at_scope = [], at_caps = Normalize caps, at_selectors = []\<rparr>
          in if list_ex (\<lambda>q. at_id q = key \<or> at_hash q = th_hmac h text) tab then (Inl TokenTaken, tab)
             else (Inr r, tab @ [r]))"

definition agent_ListTokens :: "agent_table \<Rightarrow> agent_row list" where
  "agent_ListTokens tab =
     map (\<lambda>r. r\<lparr>at_type := NormalizeAgentType (at_type r)\<rparr>) (filter (\<lambda>r. \<not> at_revoked r) tab)"

definition change_agent :: "(agent_row \<Rightarrow> bool) \<Rightarrow> (agent_row \<Rightarrow> agent_row) \<Rightarrow> agent_table \<Rightarrow> agent_table" where
  "change_agent P f tab = map (\<lambda>r. if P r then f r else r) tab"

definition agent_RevokeToken :: "instant \<Rightarrow> uuid \<Rightarrow> agent_table \<Rightarrow> (token_error + unit) \<times> agent_table" where
  "agent_RevokeToken now key tab =
     (if list_ex (\<lambda>r. at_id r = key) tab
      then (Inr (), change_agent (\<lambda>r. at_id r = key) (\<lambda>r. r\<lparr>at_revoked := True, at_enabled := False, at_updated := now\<rparr>) tab)
      else (Inl TokenNotFound, tab))"

text \<open>The expiry is tested with \<^verbatim>\<open>time.Now().After\<close>.\<close>

definition agent_RegenerateToken ::
    "token_hashes \<Rightarrow> instant \<Rightarrow> uuid \<Rightarrow> string \<Rightarrow> agent_table \<Rightarrow> (token_error + agent_row) \<times> agent_table" where
  "agent_RegenerateToken h now key text tab =
     (case List.find (\<lambda>r. at_id r = key) tab of
        None \<Rightarrow> (Inl AgentNotFoundInactive, tab)
      | Some r \<Rightarrow>
          if at_revoked r \<or> lapsed now (at_expires r) then (Inl AgentNotFoundInactive, tab)
          else if list_ex (\<lambda>q. at_id q \<noteq> key \<and> at_hash q = th_hmac h text) tab then (Inl TokenTaken, tab)
          else let f = (\<lambda>r. r\<lparr>at_hash := th_hmac h text, at_prefix := lookupPrefix h text, at_used := None, at_updated := now\<rparr>)
               in (Inr (f r), change_agent (\<lambda>r. at_id r = key) f tab))"

definition agent_updateLastUsed :: "instant \<Rightarrow> agent_row \<Rightarrow> agent_table \<Rightarrow> agent_table" where
  "agent_updateLastUsed now c tab =
     (if use_due now (at_used c) then change_agent (\<lambda>r. at_id r = at_id c) (\<lambda>r. r\<lparr>at_used := Some now\<rparr>) tab else tab)"

definition agent_ValidateToken :: "token_hashes \<Rightarrow> instant \<Rightarrow> string \<Rightarrow> agent_table \<Rightarrow> agent_row option \<times> agent_table" where
  "agent_ValidateToken h now token tab =
     (if token = [] then (None, tab)
      else case List.find (\<lambda>c. th_hmac h token = at_hash c)
                  (filter (\<lambda>c. at_prefix c = lookupPrefix h token \<and> \<not> at_revoked c \<and> at_enabled c) tab) of
             None \<Rightarrow> (None, tab)
           | Some c \<Rightarrow>
               if lapsed now (at_expires c) then (None, tab)
               else (Some (c\<lparr>at_type := NormalizeAgentType (at_type c)\<rparr>), agent_updateLastUsed now c tab))"

definition GetActiveAgentTokenByID :: "instant \<Rightarrow> uuid \<Rightarrow> agent_table \<Rightarrow> agent_row option" where
  "GetActiveAgentTokenByID now key tab =
     (case List.find (\<lambda>r. at_id r = key) tab of
        None \<Rightarrow> None
      | Some r \<Rightarrow> if at_revoked r \<or> lapsed now (at_expires r) then None
                  else Some (r\<lparr>at_type := NormalizeAgentType (at_type r)\<rparr>))"

definition UpdateAgentConfig ::
    "instant \<Rightarrow> uuid \<Rightarrow> string \<Rightarrow> route_condition list \<Rightarrow> string list \<Rightarrow> agent_table \<Rightarrow> (token_error + unit) \<times> agent_table" where
  "UpdateAgentConfig now key scope selectors caps tab =
     (if list_ex (\<lambda>r. at_id r = key \<and> \<not> at_revoked r) tab
      then (Inr (), change_agent (\<lambda>r. at_id r = key \<and> \<not> at_revoked r)
             (\<lambda>r. r\<lparr>at_scope := scope, at_selectors := selectors, at_caps := Normalize caps, at_updated := now\<rparr>) tab)
      else (Inl AgentNotFoundInactive, tab))"

definition SetAgentEnabled :: "instant \<Rightarrow> uuid \<Rightarrow> bool \<Rightarrow> agent_table \<Rightarrow> (token_error + unit) \<times> agent_table" where
  "SetAgentEnabled now key b tab =
     (if list_ex (\<lambda>r. at_id r = key \<and> \<not> at_revoked r) tab
      then (Inr (), change_agent (\<lambda>r. at_id r = key \<and> \<not> at_revoked r) (\<lambda>r. r\<lparr>at_enabled := b, at_updated := now\<rparr>) tab)
      else (Inl AgentNotFoundInactive, tab))"

definition ListActiveAgents :: "instant \<Rightarrow> agent_table \<Rightarrow> agent_row list" where
  "ListActiveAgents now tab =
     map (\<lambda>r. r\<lparr>at_type := NormalizeAgentType (at_type r), at_scope := (if at_scope r = [] then ''all'' else at_scope r)\<rparr>)
       (filter (\<lambda>r. \<not> at_revoked r \<and> at_enabled r \<and> \<not> lapsed now (at_expires r)) tab)"

subsection \<open>Tokens of webhooks\<close>

record webhook_row =
  wt_id :: uuid
  wt_name :: string
  wt_hash :: string
  wt_prefix :: string
  wt_created :: instant
  wt_used :: "instant option"
  wt_expires :: "instant option"

type_synonym webhook_table = "webhook_row list"

definition webhook_CreateToken ::
    "token_hashes \<Rightarrow> instant \<Rightarrow> uuid \<Rightarrow> string \<Rightarrow> string \<Rightarrow> instant option \<Rightarrow> webhook_table \<Rightarrow> webhook_row option \<times> webhook_table" where
  "webhook_CreateToken h now key text name expires tab =
     (let r = \<lparr>wt_id = key, wt_name = name, wt_hash = th_hmac h text, wt_prefix = lookupPrefix h text,
               wt_created = now, wt_used = None, wt_expires = expires\<rparr>
      in if name = [] \<or> list_ex (\<lambda>q. wt_id q = key \<or> wt_hash q = th_hmac h text) tab then (None, tab) else (Some r, tab @ [r]))"

definition webhook_RevokeToken :: "uuid \<Rightarrow> webhook_table \<Rightarrow> bool \<times> webhook_table" where
  "webhook_RevokeToken key tab = (list_ex (\<lambda>r. wt_id r = key) tab, filter (\<lambda>r. wt_id r \<noteq> key) tab)"

definition webhook_updateLastUsed :: "instant \<Rightarrow> webhook_row \<Rightarrow> webhook_table \<Rightarrow> webhook_table" where
  "webhook_updateLastUsed now c tab =
     (if use_due now (wt_used c) then map (\<lambda>r. if wt_id r = wt_id c then r\<lparr>wt_used := Some now\<rparr> else r) tab else tab)"

definition webhook_accepted :: "token_hashes \<Rightarrow> instant \<Rightarrow> string \<Rightarrow> webhook_table \<Rightarrow> webhook_row option" where
  "webhook_accepted h now token tab =
     (if token = [] then None
      else case List.find (\<lambda>c. th_hmac h token = wt_hash c) (filter (\<lambda>c. wt_prefix c = lookupPrefix h token) tab) of
             None \<Rightarrow> None
           | Some c \<Rightarrow> if lapsed now (wt_expires c) then None else Some c)"

definition webhook_ValidateToken :: "token_hashes \<Rightarrow> instant \<Rightarrow> string \<Rightarrow> webhook_table \<Rightarrow> bool \<times> webhook_table" where
  "webhook_ValidateToken h now token tab =
     (case webhook_accepted h now token tab of
        None \<Rightarrow> (False, tab) | Some c \<Rightarrow> (True, webhook_updateLastUsed now c tab))"

end
