(* ===== verification/Login_Sessions.thy ===== *)
theory Login_Sessions
  imports Prelude
begin

text \<open>
  Login sessions in PostgreSQL (\<^verbatim>\<open>store/sessions.go\<close>, schema in \<^verbatim>\<open>db/migrations/00002_identity.sql\<close>)
  and in Valkey (\<^verbatim>\<open>valkey/session.go\<close>). A session is found by the keyed hash of its cookie; refreshing it
  replaces the cookie and the refresh token and remembers what was replaced, so that a replay is recognised.

  The keyed hash is the parameter \<open>sf_hash\<close>. New random texts are arguments. Statements and commands are answered;
  only the refresh script of the server may fail, because the code has a second way then.
\<close>

subsection \<open>Sessions\<close>

record session =
  ss_id :: string \<comment> \<open>the plain cookie, empty in stored sessions\<close>
  ss_hash :: string
  ss_user :: uuid
  ss_token :: string \<comment> \<open>the plain refresh token, empty in stored sessions\<close>
  ss_thash :: string
  ss_prev :: "string list"
  ss_prev_ids :: "string list"
  ss_family :: string
  ss_created :: instant
  ss_expires :: instant
  ss_used :: instant
  ss_ip :: string
  ss_agent :: string

record session_cfg =
  sf_hash :: "string \<Rightarrow> string"
  sf_expiry :: int
  sf_lifetime :: int

record session_texts =
  tx_id :: string
  tx_token :: string
  tx_family :: string

definition maxPrevRefreshTokens :: nat where
  "maxPrevRefreshTokens = 3"

definition isWithinAbsoluteLifetime :: "instant \<Rightarrow> session \<Rightarrow> int \<Rightarrow> bool" where
  "isWithinAbsoluteLifetime now s m = (m \<le> 0 \<or> now < ss_created s + m)"

text \<open>The session that a login creates, as it is handed to the caller and as it is stored.\<close>

definition new_session :: "session_cfg \<Rightarrow> instant \<Rightarrow> uuid \<Rightarrow> string \<Rightarrow> string \<Rightarrow> session_texts \<Rightarrow> session" where
  "new_session cfg now user ip agent x =
     \<lparr>ss_id = tx_id x, ss_hash = sf_hash cfg (tx_id x), ss_user = user, ss_token = tx_token x,
      ss_thash = sf_hash cfg (tx_token x), ss_prev = [], ss_prev_ids = [], ss_family = tx_family x, ss_created = now,
      ss_expires = now + sf_expiry cfg, ss_used = now, ss_ip = ip, ss_agent = agent\<rparr>"

definition stored :: "session \<Rightarrow> session" where
  "stored s = s\<lparr>ss_id := [], ss_token := []\<rparr>"

subsection \<open>PostgreSQL\<close>

type_synonym session_table = "(uuid \<times> session) list"

text \<open>The hash of the cookie is unique; a violation is an error.\<close>

definition pg_CreateSession ::
    "session_cfg \<Rightarrow> instant \<Rightarrow> uuid \<Rightarrow> string \<Rightarrow> string \<Rightarrow> session_texts \<Rightarrow> uuid \<Rightarrow> session_table
     \<Rightarrow> session option \<times> session_table" where
  "pg_CreateSession cfg now user ip agent x key tab =
     (let s = new_session cfg now user ip agent x
      in if list_ex (\<lambda>r. ss_hash (snd r) = ss_hash s \<or> fst r = key) tab then (None, tab)
         else (Some s, tab @ [(key, stored s)]))"

definition pg_DeleteSessionByIDHash :: "string \<Rightarrow> session_table \<Rightarrow> session_table" where
  "pg_DeleteSessionByIDHash h tab = (if h = [] then tab else filter (\<lambda>r. ss_hash (snd r) \<noteq> h) tab)"

definition pg_DeleteSession :: "session_cfg \<Rightarrow> string \<Rightarrow> session_table \<Rightarrow> session_table" where
  "pg_DeleteSession cfg i tab = (if i = [] then tab else filter (\<lambda>r. ss_hash (snd r) \<noteq> sf_hash cfg i) tab)"

definition pg_GetSession :: "session_cfg \<Rightarrow> instant \<Rightarrow> string \<Rightarrow> session_table \<Rightarrow> session option \<times> session_table" where
  "pg_GetSession cfg now i tab =
     (if i = [] then (None, tab)
      else case List.find (\<lambda>r. ss_hash (snd r) = sf_hash cfg i \<and> now < ss_expires (snd r)) tab of
             None \<Rightarrow> (None, tab)
           | Some (k, s) \<Rightarrow>
               if \<not> isWithinAbsoluteLifetime now s (sf_lifetime cfg) then (None, pg_DeleteSession cfg i tab)
               else (Some (s\<lparr>ss_id := i\<rparr>), tab))"

definition pg_GetSessionByRefreshToken ::
    "session_cfg \<Rightarrow> instant \<Rightarrow> string \<Rightarrow> session_table \<Rightarrow> session option \<times> session_table" where
  "pg_GetSessionByRefreshToken cfg now t tab =
     (if t = [] then (None, tab)
      else case List.find (\<lambda>r. ss_thash (snd r) = sf_hash cfg t \<and> now < ss_expires (snd r)) tab of
             None \<Rightarrow> (None, tab)
           | Some (k, s) \<Rightarrow>
               if \<not> isWithinAbsoluteLifetime now s (sf_lifetime cfg)
               then (None, filter (\<lambda>r. ss_hash (snd r) \<noteq> ss_hash s) tab)
               else (Some s, tab))"

definition rotated :: "session_cfg \<Rightarrow> instant \<Rightarrow> string \<Rightarrow> string \<Rightarrow> session_texts \<Rightarrow> session \<Rightarrow> session" where
  "rotated cfg now ip agent x s =
     s\<lparr>ss_hash := sf_hash cfg (tx_id x), ss_thash := sf_hash cfg (tx_token x),
       ss_prev := take maxPrevRefreshTokens (ss_thash s # ss_prev s),
       ss_prev_ids := take maxPrevRefreshTokens (ss_hash s # ss_prev_ids s),
       ss_expires := now + sf_expiry cfg, ss_used := now, ss_ip := ip, ss_agent := agent\<rparr>"

definition rotateSessionRow ::
    "session_cfg \<Rightarrow> instant \<Rightarrow> string \<Rightarrow> string \<Rightarrow> session_texts \<Rightarrow> uuid \<times> session \<Rightarrow> session_table
     \<Rightarrow> session option \<times> session_table" where
  "rotateSessionRow cfg now ip agent x row tab =
     (case row of (k, s) \<Rightarrow>
        if \<not> isWithinAbsoluteLifetime now s (sf_lifetime cfg)
        then (None, filter (\<lambda>r. ss_hash (snd r) \<noteq> ss_hash s) tab)
        else
          let s1 = rotated cfg now ip agent x s
          in if list_ex (\<lambda>r. ss_hash (snd r) = ss_hash s1 \<and> fst r \<noteq> k) tab then (None, tab)
             else (Some (s1\<lparr>ss_id := tx_id x, ss_token := tx_token x\<rparr>),
                   map (\<lambda>r. if fst r = k then (k, s1) else r) tab))"

definition pg_RefreshSession ::
    "session_cfg \<Rightarrow> instant \<Rightarrow> string \<Rightarrow> string \<Rightarrow> string \<Rightarrow> session_texts \<Rightarrow> session_table \<Rightarrow> session option \<times> session_table" where
  "pg_RefreshSession cfg now i ip agent x tab =
     (if i = [] then (None, tab)
      else case List.find (\<lambda>r. ss_hash (snd r) = sf_hash cfg i) tab of
             None \<Rightarrow> (None, tab)
           | Some row \<Rightarrow> rotateSessionRow cfg now ip agent x row tab)"

text \<open>The flag: \<^verbatim>\<open>ErrRefreshTokenReused\<close>.\<close>

definition pg_RefreshSessionByRefreshToken ::
    "session_cfg \<Rightarrow> instant \<Rightarrow> string \<Rightarrow> string \<Rightarrow> string \<Rightarrow> session_texts \<Rightarrow> session_table
     \<Rightarrow> (session option \<times> bool) \<times> session_table" where
  "pg_RefreshSessionByRefreshToken cfg now t ip agent x tab =
     (if t = [] then ((None, False), tab)
      else case List.find (\<lambda>r. ss_thash (snd r) = sf_hash cfg t \<and> now < ss_expires (snd r)) tab of
             Some row \<Rightarrow> (case rotateSessionRow cfg now ip agent x row tab of (r, tab1) \<Rightarrow> ((r, False), tab1))
           | None \<Rightarrow>
               (case List.find (\<lambda>r. List.member (ss_prev (snd r)) (sf_hash cfg t) \<and> now < ss_expires (snd r)) tab of
                  None \<Rightarrow> ((None, False), tab)
                | Some (k, s) \<Rightarrow> ((Some s, True), tab)))"

definition pg_FindRotatedOutSession :: "session_cfg \<Rightarrow> instant \<Rightarrow> string \<Rightarrow> session_table \<Rightarrow> session option" where
  "pg_FindRotatedOutSession cfg now i tab =
     (if i = [] then None
      else map_option snd
             (List.find (\<lambda>r. List.member (ss_prev_ids (snd r)) (sf_hash cfg i) \<and> now < ss_expires (snd r)) tab))"

definition pg_DeleteAllUserSessions :: "uuid \<Rightarrow> session_table \<Rightarrow> session_table" where
  "pg_DeleteAllUserSessions u tab = filter (\<lambda>r. ss_user (snd r) \<noteq> u) tab"

definition pg_ListUserSessions :: "session_cfg \<Rightarrow> instant \<Rightarrow> uuid \<Rightarrow> session_table \<Rightarrow> session list" where
  "pg_ListUserSessions cfg now u tab =
     filter (\<lambda>s. isWithinAbsoluteLifetime now s (sf_lifetime cfg) \<and> \<not> ss_expires s < now)
       (sort_key (\<lambda>s. - ss_used s) (map snd (filter (\<lambda>r. ss_user (snd r) = u \<and> now < ss_expires (snd r)) tab)))"

definition pg_DeleteExpired :: "session_cfg \<Rightarrow> instant \<Rightarrow> session_table \<Rightarrow> nat \<times> session_table" where
  "pg_DeleteExpired cfg now tab =
     (let gone = (\<lambda>s. ss_expires s < now \<or> 0 < sf_lifetime cfg \<and> ss_created s < now - sf_lifetime cfg)
      in (length (filter (\<lambda>r. gone (snd r)) tab), filter (\<lambda>r. \<not> gone (snd r)) tab))"

subsection \<open>Valkey\<close>

text \<open>Documents by the hash of the cookie, mappings from refresh token hashes to documents, marks of replaced
  cookies, and per user the set of his documents; all with their expiry.\<close>

record session_server =
  vs_docs :: "string \<rightharpoonup> session \<times> instant"
  vs_tokens :: "string \<rightharpoonup> string \<times> instant"
  vs_marks :: "string \<rightharpoonup> uuid \<times> instant"
  vs_sets :: "uuid \<rightharpoonup> string list \<times> instant"

definition unexpired :: "instant \<Rightarrow> ('v \<times> instant) option \<Rightarrow> 'v option" where
  "unexpired now e = (case e of None \<Rightarrow> None | Some (v, t) \<Rightarrow> if now < t then Some v else None)"

text \<open>Expiries are sent as whole milliseconds, those of sets as whole seconds.\<close>

definition expiry_ms :: "session_cfg \<Rightarrow> int" where
  "expiry_ms cfg = sf_expiry cfg div 1000000 * 1000000"

definition set_members :: "instant \<Rightarrow> uuid \<Rightarrow> session_server \<Rightarrow> string list" where
  "set_members now u v = (case unexpired now (vs_sets v u) of None \<Rightarrow> [] | Some hs \<Rightarrow> hs)"

definition addUserSession :: "session_cfg \<Rightarrow> instant \<Rightarrow> uuid \<Rightarrow> string \<Rightarrow> session_server \<Rightarrow> session_server" where
  "addUserSession cfg now u h v =
     v\<lparr>vs_sets := (vs_sets v)(u \<mapsto> (List.insert h (set_members now u v),
          now + sf_expiry cfg div go_second * go_second))\<rparr>"

definition removeUserSession :: "instant \<Rightarrow> uuid \<Rightarrow> string \<Rightarrow> session_server \<Rightarrow> session_server" where
  "removeUserSession now u h v =
     v\<lparr>vs_sets := (vs_sets v)(u := (case vs_sets v u of
          None \<Rightarrow> None
        | Some (hs, t) \<Rightarrow> let hs1 = filter (\<lambda>k. k \<noteq> h) (set_members now u v) in if hs1 = [] then None else Some (hs1, t)))\<rparr>"

definition vk_CreateSession ::
    "session_cfg \<Rightarrow> instant \<Rightarrow> uuid \<Rightarrow> string \<Rightarrow> string \<Rightarrow> session_texts \<Rightarrow> session_server \<Rightarrow> session option \<times> session_server" where
  "vk_CreateSession cfg now user ip agent x v =
     (let s = new_session cfg now user ip agent x; t = now + expiry_ms cfg
      in (Some s, addUserSession cfg now user (ss_hash s)
            (v\<lparr>vs_docs := (vs_docs v)(ss_hash s \<mapsto> (stored s, t)),
               vs_tokens := (vs_tokens v)(ss_thash s \<mapsto> (ss_hash s, t))\<rparr>)))"

definition vk_delete :: "instant \<Rightarrow> string \<Rightarrow> session_server \<Rightarrow> session_server" where
  "vk_delete now h v =
     (case unexpired now (vs_docs v h) of
        None \<Rightarrow> v
      | Some s \<Rightarrow>
          removeUserSession now (ss_user s) h
            (v\<lparr>vs_docs := (vs_docs v)(h := None),
               vs_tokens := (\<lambda>t. if t = ss_thash s \<or> t \<in> set (ss_prev s) then None else vs_tokens v t)\<rparr>))"

definition vk_DeleteSession :: "session_cfg \<Rightarrow> instant \<Rightarrow> string \<Rightarrow> session_server \<Rightarrow> session_server" where
  "vk_DeleteSession cfg now i v = (if i = [] then v else vk_delete now (sf_hash cfg i) v)"

definition vk_DeleteSessionByIDHash :: "instant \<Rightarrow> string \<Rightarrow> session_server \<Rightarrow> session_server" where
  "vk_DeleteSessionByIDHash now h v = (if h = [] then v else vk_delete now h v)"

definition vk_GetSession :: "session_cfg \<Rightarrow> instant \<Rightarrow> string \<Rightarrow> session_server \<Rightarrow> session option \<times> session_server" where
  "vk_GetSession cfg now i v =
     (if i = [] then (None, v)
      else case unexpired now (vs_docs v (sf_hash cfg i)) of
             None \<Rightarrow> (None, v)
           | Some s \<Rightarrow> if \<not> isWithinAbsoluteLifetime now s (sf_lifetime cfg) then (None, vk_DeleteSession cfg now i v)
                      else (Some s, v))"

text \<open>The document a refresh token leads to.\<close>

definition token_doc :: "instant \<Rightarrow> string \<Rightarrow> session_server \<Rightarrow> (string \<times> session) option" where
  "token_doc now th v =
     (case unexpired now (vs_tokens v th) of
        None \<Rightarrow> None
      | Some h \<Rightarrow> (case unexpired now (vs_docs v h) of None \<Rightarrow> None | Some s \<Rightarrow> Some (h, s)))"

definition vk_GetSessionByRefreshToken ::
    "session_cfg \<Rightarrow> instant \<Rightarrow> string \<Rightarrow> session_server \<Rightarrow> session option \<times> session_server" where
  "vk_GetSessionByRefreshToken cfg now t v =
     (if t = [] then (None, v)
      else case token_doc now (sf_hash cfg t) v of
             None \<Rightarrow> (None, v)
           | Some (h, s) \<Rightarrow>
               if \<not> isWithinAbsoluteLifetime now s (sf_lifetime cfg) then (None, vk_DeleteSession cfg now (ss_id s) v)
               else (Some s, v))"

text \<open>The script: the time of the refresh is stored as the new expiry. The result is the new document.\<close>

definition refresh_script ::
    "session_cfg \<Rightarrow> instant \<Rightarrow> string \<Rightarrow> string \<Rightarrow> string \<Rightarrow> string \<Rightarrow> string \<Rightarrow> uuid \<Rightarrow> session_server
     \<Rightarrow> session option \<times> session_server" where
  "refresh_script cfg now h old_th new_th ip agent user v =
     (case unexpired now (vs_docs v h) of
        None \<Rightarrow> (None, v)
      | Some s \<Rightarrow>
          let s1 = s\<lparr>ss_thash := new_th, ss_prev := take maxPrevRefreshTokens (ss_thash s # ss_prev s),
                     ss_expires := now, ss_used := now, ss_ip := ip, ss_agent := agent\<rparr>;
              t = now + expiry_ms cfg
          in (Some s1,
              v\<lparr>vs_docs := (vs_docs v)(h \<mapsto> (s1, t)),
                vs_tokens := (vs_tokens v)(old_th := None, new_th \<mapsto> (h, t)),
                vs_marks := (vs_marks v)(h \<mapsto> (user, t))\<rparr>))"

definition refreshSessionFallback ::
    "session_cfg \<Rightarrow> instant \<Rightarrow> string \<Rightarrow> session \<Rightarrow> string \<Rightarrow> string \<Rightarrow> string \<Rightarrow> session_server
     \<Rightarrow> session option \<times> session_server" where
  "refreshSessionFallback cfg now h s token ip agent v =
     (let prev = take maxPrevRefreshTokens (ss_thash s # ss_prev s);
          th = sf_hash cfg token;
          s1 = s\<lparr>ss_token := token, ss_thash := th, ss_prev := prev, ss_expires := now + sf_expiry cfg, ss_used := now,
                 ss_ip := ip, ss_agent := agent\<rparr>;
          t = now + expiry_ms cfg
      in (Some s1,
          v\<lparr>vs_docs := (vs_docs v)(h \<mapsto> (stored s1, t)),
            vs_tokens := (vs_tokens v)(ss_thash s \<mapsto> (h, t), th \<mapsto> (h, t))\<rparr>))"

text \<open>\<open>script\<close>: whether the script is answered; if it fails, it was not carried out.\<close>

definition rotateByIDHash ::
    "bool \<Rightarrow> session_cfg \<Rightarrow> instant \<Rightarrow> string \<Rightarrow> session \<Rightarrow> string \<Rightarrow> string \<Rightarrow> session_texts \<Rightarrow> session_server
     \<Rightarrow> session option \<times> session_server" where
  "rotateByIDHash script cfg now h s ip agent x v =
     (if \<not> script then refreshSessionFallback cfg now h s (tx_token x) ip agent v
      else
        let th = sf_hash cfg (tx_token x); h1 = sf_hash cfg (tx_id x); t = now + expiry_ms cfg
        in case refresh_script cfg now h (ss_thash s) th ip agent (ss_user s) v of
             (None, v1) \<Rightarrow> (None, v1)
           | (Some s1, v1) \<Rightarrow>
               let v2 = v1\<lparr>vs_docs := (vs_docs v1)(h1 \<mapsto> (stored s1, t), h := None),
                           vs_tokens := (vs_tokens v1)(th \<mapsto> (h1, t), ss_thash s1 \<mapsto> (h1, t))\<rparr>
               in (Some (s1\<lparr>ss_id := tx_id x, ss_hash := h1, ss_token := tx_token x, ss_thash := th\<rparr>),
                   addUserSession cfg now (ss_user s1) h1 (removeUserSession now (ss_user s1) h v2)))"

definition vk_RefreshSession ::
    "bool \<Rightarrow> session_cfg \<Rightarrow> instant \<Rightarrow> string \<Rightarrow> string \<Rightarrow> string \<Rightarrow> session_texts \<Rightarrow> session_server
     \<Rightarrow> session option \<times> session_server" where
  "vk_RefreshSession script cfg now i ip agent x v =
     (if i = [] then (None, v)
      else case vk_GetSession cfg now i v of
             (None, v1) \<Rightarrow> (None, v1)
           | (Some s, v1) \<Rightarrow> rotateByIDHash script cfg now (sf_hash cfg i) s ip agent x v1)"

definition vk_RefreshSessionByRefreshToken ::
    "bool \<Rightarrow> session_cfg \<Rightarrow> instant \<Rightarrow> string \<Rightarrow> string \<Rightarrow> string \<Rightarrow> session_texts \<Rightarrow> session_server
     \<Rightarrow> (session option \<times> bool) \<times> session_server" where
  "vk_RefreshSessionByRefreshToken script cfg now t ip agent x v =
     (if t = [] then ((None, False), v)
      else case token_doc now (sf_hash cfg t) v of
             None \<Rightarrow> ((None, False), v)
           | Some (h, s) \<Rightarrow>
               if \<not> isWithinAbsoluteLifetime now s (sf_lifetime cfg)
               then ((None, False), vk_DeleteSession cfg now (ss_id s) v)
               else if ss_thash s \<noteq> sf_hash cfg t then ((Some s, True), v)
               else (case rotateByIDHash script cfg now h s ip agent x v of (r, v1) \<Rightarrow> ((r, False), v1)))"

text \<open>Only the hash and the user of the answer are set.\<close>

definition vk_FindRotatedOutSession :: "session_cfg \<Rightarrow> instant \<Rightarrow> string \<Rightarrow> session_server \<Rightarrow> session option" where
  "vk_FindRotatedOutSession cfg now i v =
     (if i = [] then None
      else map_option (\<lambda>u. \<lparr>ss_id = [], ss_hash = sf_hash cfg i, ss_user = u, ss_token = [], ss_thash = [], ss_prev = [],
                            ss_prev_ids = [], ss_family = [], ss_created = 0, ss_expires = 0, ss_used = 0, ss_ip = [],
                            ss_agent = []\<rparr>)
             (unexpired now (vs_marks v (sf_hash cfg i))))"

fun delete_docs :: "instant \<Rightarrow> string list \<Rightarrow> session_server \<Rightarrow> session_server" where
  "delete_docs now [] v = v"
| "delete_docs now (h # hs) v =
     (let v1 = (case unexpired now (vs_docs v h) of
                  None \<Rightarrow> v
                | Some s \<Rightarrow> v\<lparr>vs_tokens := (\<lambda>t. if t = ss_thash s \<or> t \<in> set (ss_prev s) then None else vs_tokens v t)\<rparr>)
      in delete_docs now hs (v1\<lparr>vs_docs := (vs_docs v1)(h := None)\<rparr>))"

definition vk_DeleteAllUserSessions :: "instant \<Rightarrow> uuid \<Rightarrow> session_server \<Rightarrow> session_server" where
  "vk_DeleteAllUserSessions now u v =
     (let v1 = delete_docs now (set_members now u v) v in v1\<lparr>vs_sets := (vs_sets v1)(u := None)\<rparr>)"

fun list_docs :: "session_cfg \<Rightarrow> instant \<Rightarrow> uuid \<Rightarrow> string list \<Rightarrow> session_server \<Rightarrow> session list \<times> session_server" where
  "list_docs cfg now u [] v = ([], v)"
| "list_docs cfg now u (h # hs) v =
     (case unexpired now (vs_docs v h) of
        None \<Rightarrow> list_docs cfg now u hs (removeUserSession now u h v)
      | Some s \<Rightarrow>
          if ss_expires s < now \<or> \<not> isWithinAbsoluteLifetime now s (sf_lifetime cfg)
          then list_docs cfg now u hs (removeUserSession now u h v)
          else (case list_docs cfg now u hs v of (ss, v1) \<Rightarrow> (s # ss, v1)))"

definition vk_ListUserSessions ::
    "session_cfg \<Rightarrow> instant \<Rightarrow> uuid \<Rightarrow> session_server \<Rightarrow> session list \<times> session_server" where
  "vk_ListUserSessions cfg now u v =
     (case list_docs cfg now u (set_members now u v) v of (ss, v1) \<Rightarrow> (sort_key (\<lambda>s. - ss_used s) ss, v1))"

definition vk_DeleteExpired :: "session_server \<Rightarrow> nat \<times> session_server" where
  "vk_DeleteExpired v = (0, v)"

end
