(* ===== verification/Auth.thy ===== *)
theory Auth
  imports Accounts Tokens Login_Sessions Rate_Limit
begin

text \<open>
  Authentication of requests and the endpoints around it: the middleware for cookies, personal access tokens and agent
  tokens (\<^verbatim>\<open>api/platform/middleware.go\<close>), login, logout, refresh, management of sessions, change and reset of the
  password (\<^verbatim>\<open>api/auth.go\<close>), first set-up (\<^verbatim>\<open>api/setup.go\<close>), personal access tokens
  (\<^verbatim>\<open>api/personal_tokens.go\<close>) and users (\<^verbatim>\<open>api/users.go\<close>). The session store is an interface with two
  providers, as in the code. The body of a request is what the JSON decoder makes of it, none if that fails. Database
  errors other than violated constraints are not modelled. The client address is that of \<open>clientIP\<close>.
\<close>

subsection \<open>The session store as an interface\<close>

record 's session_ops =
  so_create :: "instant \<Rightarrow> uuid \<Rightarrow> string \<Rightarrow> string \<Rightarrow> session_texts \<Rightarrow> uuid \<Rightarrow> 's \<Rightarrow> session option \<times> 's"
  so_get :: "instant \<Rightarrow> string \<Rightarrow> 's \<Rightarrow> session option \<times> 's"
  so_refresh :: "instant \<Rightarrow> string \<Rightarrow> string \<Rightarrow> string \<Rightarrow> session_texts \<Rightarrow> 's \<Rightarrow> session option \<times> 's"
  so_refresh_token :: "instant \<Rightarrow> string \<Rightarrow> string \<Rightarrow> string \<Rightarrow> session_texts \<Rightarrow> 's \<Rightarrow> (session option \<times> bool) \<times> 's"
  so_replayed :: "instant \<Rightarrow> string \<Rightarrow> 's \<Rightarrow> session option"
  so_delete :: "instant \<Rightarrow> string \<Rightarrow> 's \<Rightarrow> 's"
  so_delete_hash :: "instant \<Rightarrow> string \<Rightarrow> 's \<Rightarrow> 's"
  so_delete_all :: "instant \<Rightarrow> uuid \<Rightarrow> 's \<Rightarrow> 's"
  so_list :: "instant \<Rightarrow> uuid \<Rightarrow> 's \<Rightarrow> session list \<times> 's"
  so_cascade :: "uuid \<Rightarrow> 's \<Rightarrow> 's" \<comment> \<open>what deleting the user's row does\<close>

definition pg_sessions :: "session_cfg \<Rightarrow> session_table session_ops" where
  "pg_sessions cfg =
     \<lparr>so_create = pg_CreateSession cfg, so_get = pg_GetSession cfg, so_refresh = pg_RefreshSession cfg,
      so_refresh_token = pg_RefreshSessionByRefreshToken cfg, so_replayed = pg_FindRotatedOutSession cfg,
      so_delete = (\<lambda>now. pg_DeleteSession cfg), so_delete_hash = (\<lambda>now. pg_DeleteSessionByIDHash),
      so_delete_all = (\<lambda>now. pg_DeleteAllUserSessions), so_list = (\<lambda>now u tab. (pg_ListUserSessions cfg now u tab, tab)),
      so_cascade = pg_DeleteAllUserSessions\<rparr>"

definition vk_sessions :: "bool \<Rightarrow> session_cfg \<Rightarrow> session_server session_ops" where
  "vk_sessions script cfg =
     \<lparr>so_create = (\<lambda>now u ip agent x key. vk_CreateSession cfg now u ip agent x), so_get = vk_GetSession cfg,
      so_refresh = vk_RefreshSession script cfg, so_refresh_token = vk_RefreshSessionByRefreshToken script cfg,
      so_replayed = vk_FindRotatedOutSession cfg, so_delete = vk_DeleteSession cfg,
      so_delete_hash = vk_DeleteSessionByIDHash, so_delete_all = vk_DeleteAllUserSessions, so_list = vk_ListUserSessions cfg,
      so_cascade = (\<lambda>u v. v)\<rparr>"

subsection \<open>Requests, answers, the world\<close>

record request =
  ht_method :: string
  ht_auth :: string \<comment> \<open>the \<^verbatim>\<open>Authorization\<close> header\<close>
  ht_csrf :: string \<comment> \<open>\<^verbatim>\<open>X-CSRF-Token\<close>\<close>
  ht_requested_with :: string
  ht_session :: "string option" \<comment> \<open>the cookies\<close>
  ht_refresh :: "string option"
  ht_csrf_cookie :: "string option"
  ht_ip :: string
  ht_agent :: string

datatype ErrorCode =
    ErrorCodeValidationFailed | ErrorCodeUnauthorized | ErrorCodeForbidden | ErrorCodeNotFound | ErrorCodeConflict
  | ErrorCodeRateLimited | ErrorCodeInternal | ErrorCodeMethodNotAllowed

datatype body =
    Message string
  | Profile user_row "string list" \<comment> \<open>with permissions\<close>
  | SessionViews "(session \<times> bool) list"
  | Number nat
  | PatList "pat_row list"
  | NewPat pat_row string
  | UserList "user_row list"
  | NewUser user_row

datatype cookie = SessionCookie | RefreshCookie | CsrfCookie

text \<open>An answer: an error with its message, or a body; and the cookies set, or cleared where there is no value.\<close>

type_synonym answer = "(ErrorCode \<times> string + body) \<times> (cookie \<times> string option) list"

record audit_entry =
  au_event :: string
  au_user :: "uuid option"
  au_ok :: bool
  au_reason :: string

record reset_row =
  rs_id :: uuid
  rs_user :: uuid
  rs_hash :: string
  rs_expires :: instant
  rs_used :: bool

record 's world =
  w_users :: user_table
  w_sessions :: 's
  w_pats :: pat_table
  w_agents :: agent_table
  w_resets :: "reset_row list"
  w_logins :: "string \<rightharpoonup> loginAttempts"
  w_audit :: "audit_entry list"
  w_mail :: "(string \<times> string) list" \<comment> \<open>recipient, token\<close>

record 's server =
  sv_sessions :: "'s session_ops"
  sv_passwords :: password_scheme
  sv_hashes :: token_hashes
  sv_limits :: login_limits
  sv_parse_uuid :: "string \<Rightarrow> uuid option"
  sv_parse_time :: "string \<Rightarrow> instant option" \<comment> \<open>RFC 3339\<close>
  sv_mailer :: bool
  sv_phones :: phone_lib

text \<open>The random choices of one request.\<close>

record draws =
  dr_texts :: session_texts
  dr_csrf :: string
  dr_key :: uuid
  dr_salt :: string
  dr_token :: string

definition audit :: "string \<Rightarrow> uuid option \<Rightarrow> bool \<Rightarrow> string \<Rightarrow> 's world \<Rightarrow> 's world" where
  "audit event user ok reason w =
     w\<lparr>w_audit := w_audit w @ [\<lparr>au_event = event, au_user = user, au_ok = ok, au_reason = reason\<rparr>]\<rparr>"

definition fail :: "ErrorCode \<Rightarrow> string \<Rightarrow> answer" where
  "fail c m = (Inl (c, m), [])"

definition answered :: "body \<Rightarrow> answer" where
  "answered b = (Inr b, [])"

abbreviation method_not_allowed :: answer where
  "method_not_allowed \<equiv> fail ErrorCodeMethodNotAllowed ''method not allowed''"

subsection \<open>The middleware\<close>

record auth_ctx =
  cx_user :: "user_row option"
  cx_method :: string
  cx_session :: string \<comment> \<open>the digest of the session that authenticated\<close>

type_synonym 's handler = "auth_ctx \<Rightarrow> 's world \<Rightarrow> answer \<times> 's world"

definition IsStateChangingMethod :: "string \<Rightarrow> bool" where
  "IsStateChangingMethod m = List.member [''POST'', ''PUT'', ''PATCH'', ''DELETE''] m"

definition ValidateCSRFToken :: "request \<Rightarrow> bool" where
  "ValidateCSRFToken rq =
     (if \<not> IsStateChangingMethod (ht_method rq) then True
      else if ht_csrf rq = [] then False
      else ht_csrf_cookie rq = Some (ht_csrf rq))"

definition IntersectPATPermissions :: "string \<Rightarrow> string list \<Rightarrow> string list" where
  "IntersectPATPermissions role patPerms = filter (List.member (AllPermissions role)) patPerms"

definition pat_allowed :: "string \<Rightarrow> string list \<Rightarrow> string list \<Rightarrow> bool" where
  "pat_allowed role patPerms perms =
     (let effective = IntersectPATPermissions role patPerms; wildcard = List.member patPerms ''*''
      in list_ex (\<lambda>p. wildcard \<and> HasAnyPermission role [p] \<or> List.member effective p) perms)"

definition AuthMiddleware :: "'s server \<Rightarrow> instant \<Rightarrow> 's handler \<Rightarrow> string list \<Rightarrow> request \<Rightarrow> 's world \<Rightarrow> answer \<times> 's world" where
  "AuthMiddleware sv now serve perms rq w =
     (if go_has_prefix (ht_auth rq) ''Bearer alga_pat_'' then
        (case pat_ValidateToken (sv_hashes sv) now (go_trim_prefix (ht_auth rq) ''Bearer '') (w_pats w) of
           (None, pats) \<Rightarrow>
             (fail ErrorCodeUnauthorized ''invalid or expired personal access token'', w\<lparr>w_pats := pats\<rparr>)
         | (Some p, pats) \<Rightarrow>
             let w1 = w\<lparr>w_pats := pats\<rparr>
             in case user_GetByID (pt_user p) (w_users w1) of
                  None \<Rightarrow> (fail ErrorCodeUnauthorized ''user not found'', w1)
                | Some u \<Rightarrow>
                    if locked_at now u then (fail ErrorCodeForbidden ''account is locked'', w1)
                    else if perms \<noteq> [] \<and> \<not> pat_allowed (us_role u) (pt_perms p) perms
                    then (fail ErrorCodeForbidden ''insufficient permissions'', w1)
                    else serve \<lparr>cx_user = Some u, cx_method = ''pat'', cx_session = []\<rparr> w1)
      else if IsStateChangingMethod (ht_method rq) \<and> \<not> ValidateCSRFToken rq
      then (fail ErrorCodeForbidden ''invalid csrf token'', w)
      else case ht_session rq of
             None \<Rightarrow> (fail ErrorCodeUnauthorized ''not authenticated'', w)
           | Some c \<Rightarrow>
               (case so_get (sv_sessions sv) now c (w_sessions w) of
                  (None, s) \<Rightarrow> (fail ErrorCodeUnauthorized ''invalid or expired session'', w\<lparr>w_sessions := s\<rparr>)
                | (Some sess, s) \<Rightarrow>
                    let w1 = w\<lparr>w_sessions := s\<rparr>
                    in case user_GetByID (ss_user sess) (w_users w1) of
                         None \<Rightarrow> (fail ErrorCodeUnauthorized ''user not found'', w1)
                       | Some u \<Rightarrow>
                           if locked_at now u
                           then (fail ErrorCodeForbidden ''account is locked due to too many failed login attempts'',
                                 audit ''login_failed'' (Some (us_id u)) False ''account_locked'' w1)
                           else if perms \<noteq> [] \<and> \<not> HasAnyPermission (us_role u) perms
                           then (fail ErrorCodeForbidden ''insufficient permissions'',
                                 audit ''login_failed'' (Some (us_id u)) False ''insufficient_permissions'' w1)
                           else serve \<lparr>cx_user = Some u, cx_method = [], cx_session = ss_hash sess\<rparr> w1))"

text \<open>The permission check inside a handler looks at the role alone.\<close>

definition CheckPermission :: "auth_ctx \<Rightarrow> string list \<Rightarrow> answer option" where
  "CheckPermission cx perms =
     (case cx_user cx of
        None \<Rightarrow> Some (fail ErrorCodeUnauthorized ''unauthorized'')
      | Some u \<Rightarrow> if HasAnyPermission (us_role u) perms then None else Some (fail ErrorCodeForbidden ''insufficient permissions''))"

text \<open>\<open>allow\<close> is the limiter of authenticated routes, asked inside the middleware.\<close>

definition authMiddleware ::
    "(string \<Rightarrow> bool) option \<Rightarrow> 's server \<Rightarrow> instant \<Rightarrow> 's handler \<Rightarrow> string list \<Rightarrow> request \<Rightarrow> 's world \<Rightarrow> answer \<times> 's world" where
  "authMiddleware allow sv now serve perms rq =
     AuthMiddleware sv now
       (case allow of
          None \<Rightarrow> serve
        | Some ok \<Rightarrow> (\<lambda>cx w. if ok (ht_ip rq) then serve cx w else (fail ErrorCodeRateLimited ''Rate limit exceeded. Please try again later.'', w)))
       perms rq"

definition AuthMiddlewareSSE :: "'s server \<Rightarrow> instant \<Rightarrow> 's handler \<Rightarrow> request \<Rightarrow> 's world \<Rightarrow> answer \<times> 's world" where
  "AuthMiddlewareSSE sv now serve rq w =
     (case ht_session rq of
        None \<Rightarrow> (fail ErrorCodeUnauthorized ''not authenticated'', w)
      | Some c \<Rightarrow>
          (case so_get (sv_sessions sv) now c (w_sessions w) of
             (None, s) \<Rightarrow> (fail ErrorCodeUnauthorized ''not authenticated'', w\<lparr>w_sessions := s\<rparr>)
           | (Some sess, s) \<Rightarrow>
               let w1 = w\<lparr>w_sessions := s\<rparr>
               in case user_GetByID (ss_user sess) (w_users w1) of
                    None \<Rightarrow> (fail ErrorCodeUnauthorized ''not authenticated'', w1)
                  | Some u \<Rightarrow>
                      if locked_at now u then (fail ErrorCodeForbidden ''account is locked'', w1)
                      else serve \<lparr>cx_user = Some u, cx_method = [], cx_session = []\<rparr> w1))"

text \<open>The agent a bearer token stands for.\<close>

definition AgentBearerMiddleware ::
    "'s server \<Rightarrow> instant \<Rightarrow> (agent_row \<Rightarrow> 's world \<Rightarrow> answer \<times> 's world) \<Rightarrow> request \<Rightarrow> 's world \<Rightarrow> answer \<times> 's world" where
  "AgentBearerMiddleware sv now serve rq w =
     (if \<not> go_has_prefix (ht_auth rq) ''Bearer '' then (fail ErrorCodeUnauthorized ''missing bearer token'', w)
      else
        let token = go_trim_space (go_trim_prefix (ht_auth rq) ''Bearer '')
        in if token = [] then (fail ErrorCodeUnauthorized ''missing bearer token'', w)
           else case agent_ValidateToken (sv_hashes sv) now token (w_agents w) of
                  (None, agents) \<Rightarrow> (fail ErrorCodeUnauthorized ''invalid or expired token'', w\<lparr>w_agents := agents\<rparr>)
                | (Some a, agents) \<Rightarrow> serve (a\<lparr>at_type := NormalizeAgentType (at_type a)\<rparr>) (w\<lparr>w_agents := agents\<rparr>))"

text \<open>Without a limiter the request passes even if no agent was identified.\<close>

definition AgentRateLimitMiddleware ::
    "(uuid \<Rightarrow> bool) option \<Rightarrow> (agent_row option \<Rightarrow> 's world \<Rightarrow> answer \<times> 's world) \<Rightarrow> agent_row option \<Rightarrow> 's world
     \<Rightarrow> answer \<times> 's world" where
  "AgentRateLimitMiddleware allow serve agent w =
     (case allow of
        None \<Rightarrow> serve agent w
      | Some ok \<Rightarrow>
          (case agent of
             None \<Rightarrow> (fail ErrorCodeUnauthorized ''unauthorized'', w)
           | Some a \<Rightarrow> if ok (at_id a) then serve agent w else (fail ErrorCodeRateLimited ''Rate limit exceeded. Please try again later.'', w)))"

end
