(* ===== verification/Auth_Handlers.thy ===== *)
theory Auth_Handlers
  imports Auth
begin

text \<open>
  The endpoints: \<^verbatim>\<open>api/auth.go\<close>, \<^verbatim>\<open>api/setup.go\<close>, \<^verbatim>\<open>api/personal_tokens.go\<close>, \<^verbatim>\<open>api/users.go\<close>,
  and the store of reset tokens (\<^verbatim>\<open>store/password_reset.go\<close>). A handler behind the middleware takes its context.
\<close>

definition status_ok :: "string \<Rightarrow> answer" where
  "status_ok s = answered (Message s)"

definition session_cookies :: "string \<Rightarrow> session \<Rightarrow> (cookie \<times> string option) list" where
  "session_cookies csrf s =
     [(SessionCookie, Some (ss_id s)), (RefreshCookie, Some (ss_token s)), (CsrfCookie, Some csrf)]"

definition cleared_cookies :: "(cookie \<times> string option) list" where
  "cleared_cookies = [(SessionCookie, None), (RefreshCookie, None), (CsrfCookie, None)]"

subsection \<open>Login and logout\<close>

definition handleLogin ::
    "'s server \<Rightarrow> draws \<Rightarrow> instant \<Rightarrow> request \<Rightarrow> (string \<times> string) option \<Rightarrow> 's world \<Rightarrow> answer \<times> 's world" where
  "handleLogin sv d now rq b w =
     (if ht_method rq \<noteq> ''POST'' then (method_not_allowed, w)
      else case mem_CheckLogin (sv_limits sv) now (ht_ip rq) (w_logins w) of
        ((allowed, remaining, lock), logins) \<Rightarrow>
          let w1 = w\<lparr>w_logins := logins\<rparr>
          in if \<not> allowed
             then (fail ErrorCodeRateLimited ''too many login attempts. please try again later'',
                   audit ''login_failed'' None False ''rate_limited'' w1)
             else case b of
               None \<Rightarrow> (fail ErrorCodeValidationFailed ''invalid request body'', w1)
             | Some (email, password) \<Rightarrow>
                 if email = [] \<or> password = []
                 then (fail ErrorCodeValidationFailed ''email and password are required'', w1)
                 else case Authenticate (sv_passwords sv) (dr_salt d) now email password (w_users w1) of
                   (Inl e, us) \<Rightarrow>
                     (if e = ErrAccountLocked
                      then fail ErrorCodeForbidden ''account is locked due to too many failed login attempts. please try again in 30 minutes''
                      else fail ErrorCodeUnauthorized ''invalid credentials'',
                      audit ''login_failed'' None False ''credentials'' (w1\<lparr>w_users := RecordFailedLogin now email us\<rparr>))
                 | (Inr u, us) \<Rightarrow>
                     let w2 = w1\<lparr>w_users := RecordSuccessfulLogin now (us_id u) (ht_ip rq) us,
                                 w_logins := mem_Reset (ht_ip rq) (w_logins w1)\<rparr>
                     in case so_create (sv_sessions sv) now (us_id u) (ht_ip rq) (ht_agent rq) (dr_texts d) (dr_key d) (w_sessions w2) of
                          (None, s) \<Rightarrow>
                            (fail ErrorCodeInternal ''failed to create session'',
                             audit ''login_failed'' (Some (us_id u)) False ''session_creation_failed'' (w2\<lparr>w_sessions := s\<rparr>))
                        | (Some sess, s) \<Rightarrow>
                            ((Inr (Profile u (AllPermissions (us_role u))), session_cookies (dr_csrf d) sess),
                             audit ''login_success'' (Some (us_id u)) True [] (w2\<lparr>w_sessions := s\<rparr>)))"

definition handleLogout :: "'s server \<Rightarrow> instant \<Rightarrow> request \<Rightarrow> 's world \<Rightarrow> answer \<times> 's world" where
  "handleLogout sv now rq w =
     (if ht_method rq \<noteq> ''POST'' then (method_not_allowed, w)
      else if \<not> ValidateCSRFToken rq then (fail ErrorCodeForbidden ''invalid csrf token'', w)
      else ((Inr (Message ''logged out''), cleared_cookies),
            case ht_session rq of
              None \<Rightarrow> w
            | Some c \<Rightarrow>
                (case so_get (sv_sessions sv) now c (w_sessions w) of
                   (found, s) \<Rightarrow>
                     let w1 = (case Option.bind found (\<lambda>x. user_GetByID (ss_user x) (w_users w)) of
                                 None \<Rightarrow> w\<lparr>w_sessions := s\<rparr>
                               | Some u \<Rightarrow> audit ''logout'' (Some (us_id u)) True [] (w\<lparr>w_sessions := s\<rparr>))
                     in w1\<lparr>w_sessions := so_delete (sv_sessions sv) now c (w_sessions w1)\<rparr>)))"

definition handleGetCurrentUser :: "request \<Rightarrow> 's handler" where
  "handleGetCurrentUser rq cx w =
     (if ht_method rq \<noteq> ''GET'' then (method_not_allowed, w)
      else case cx_user cx of
             None \<Rightarrow> (fail ErrorCodeUnauthorized ''not authenticated'', w)
           | Some u \<Rightarrow> (answered (Profile u (AllPermissions (us_role u))), w))"

subsection \<open>Sessions of the caller\<close>

definition requireCurrentSession :: "auth_ctx \<Rightarrow> answer + user_row \<times> string" where
  "requireCurrentSession cx =
     (case cx_user cx of
        None \<Rightarrow> Inl (fail ErrorCodeUnauthorized ''not authenticated'')
      | Some u \<Rightarrow>
          if cx_session cx = []
          then Inl (fail ErrorCodeValidationFailed ''session management is only available for cookie sessions'')
          else Inr (u, cx_session cx))"

definition handleListSessions :: "'s server \<Rightarrow> instant \<Rightarrow> request \<Rightarrow> 's handler" where
  "handleListSessions sv now rq cx w =
     (if ht_method rq \<noteq> ''GET'' then (method_not_allowed, w)
      else case requireCurrentSession cx of
             Inl e \<Rightarrow> (e, w)
           | Inr (u, current) \<Rightarrow>
               (case so_list (sv_sessions sv) now (us_id u) (w_sessions w) of
                  (ss, s) \<Rightarrow> (answered (SessionViews (map (\<lambda>x. (x, ss_hash x = current)) ss)), w\<lparr>w_sessions := s\<rparr>)))"

text \<open>\<open>target\<close> is the end of the path.\<close>

definition handleRevokeSession :: "'s server \<Rightarrow> instant \<Rightarrow> request \<Rightarrow> string \<Rightarrow> 's handler" where
  "handleRevokeSession sv now rq target cx w =
     (if ht_method rq \<noteq> ''DELETE'' then (method_not_allowed, w)
      else case requireCurrentSession cx of
             Inl e \<Rightarrow> (e, w)
           | Inr (u, current) \<Rightarrow>
               if target = [] then (fail ErrorCodeValidationFailed ''session id is required'', w)
               else if target = current
               then (fail ErrorCodeValidationFailed ''cannot revoke the current session; sign out instead'',
                     audit ''session_revoked'' (Some (us_id u)) False ''current_session_rejected'' w)
               else case so_list (sv_sessions sv) now (us_id u) (w_sessions w) of
                      (ss, s) \<Rightarrow>
                        let w1 = w\<lparr>w_sessions := s\<rparr>
                        in if \<not> list_ex (\<lambda>x. ss_hash x = target) ss
                           then (fail ErrorCodeNotFound ''session not found'',
                                 audit ''session_revoked'' (Some (us_id u)) False ''session_not_found'' w1)
                           else (status_ok ''session revoked'',
                                 audit ''session_revoked'' (Some (us_id u)) True target
                                   (w1\<lparr>w_sessions := so_delete_hash (sv_sessions sv) now target (w_sessions w1)\<rparr>)))"

definition handleRevokeOtherSessions :: "'s server \<Rightarrow> instant \<Rightarrow> request \<Rightarrow> 's handler" where
  "handleRevokeOtherSessions sv now rq cx w =
     (if ht_method rq \<noteq> ''DELETE'' then (method_not_allowed, w)
      else case requireCurrentSession cx of
             Inl e \<Rightarrow> (e, w)
           | Inr (u, current) \<Rightarrow>
               (case so_list (sv_sessions sv) now (us_id u) (w_sessions w) of
                  (ss, s) \<Rightarrow>
                    let others = filter (\<lambda>x. ss_hash x \<noteq> current) ss;
                        s1 = fold (\<lambda>x. so_delete_hash (sv_sessions sv) now (ss_hash x)) others s
                    in (answered (Number (length others)),
                        audit ''sessions_revoked_all'' (Some (us_id u)) True [] (w\<lparr>w_sessions := s1\<rparr>))))"

subsection \<open>Refresh\<close>

definition finishSessionRefresh :: "request \<Rightarrow> session \<Rightarrow> 's world \<Rightarrow> answer \<times> 's world" where
  "finishSessionRefresh rq sess w =
     ((Inr (Message ''session refreshed''),
       (SessionCookie, Some (ss_id sess)) #
       (if ss_token sess \<noteq> [] then [(RefreshCookie, Some (ss_token sess))] else []) @
       (case ht_csrf_cookie rq of None \<Rightarrow> [] | Some v \<Rightarrow> if v \<noteq> [] then [(CsrfCookie, Some v)] else [])),
      case user_GetByID (ss_user sess) (w_users w) of
        None \<Rightarrow> w | Some u \<Rightarrow> audit ''session_refreshed'' (Some (us_id u)) True [] w)"

text \<open>The way through the refresh token, taken when the cookie did not do; \<open>otherwise\<close> is the final answer.\<close>

definition refresh_by_token :: "'s server \<Rightarrow> draws \<Rightarrow> instant \<Rightarrow> request \<Rightarrow> answer \<Rightarrow> 's world \<Rightarrow> answer \<times> 's world" where
  "refresh_by_token sv d now rq otherwise w =
     (case ht_refresh rq of
        None \<Rightarrow> (otherwise, w)
      | Some t \<Rightarrow>
          if t = [] then (otherwise, w)
          else case so_refresh_token (sv_sessions sv) now t (ht_ip rq) (ht_agent rq) (dr_texts d) (w_sessions w) of
                 ((found, reused), s) \<Rightarrow>
                   let w1 = w\<lparr>w_sessions := s\<rparr>
                   in if reused
                      then (fail ErrorCodeUnauthorized ''session expired'',
                            case found of
                              None \<Rightarrow> w1
                            | Some x \<Rightarrow> audit ''login_failed'' (Some (ss_user x)) False ''refresh_token_reuse_detected''
                                (w1\<lparr>w_sessions := so_delete_all (sv_sessions sv) now (ss_user x) (w_sessions w1)\<rparr>))
                      else case found of
                             None \<Rightarrow> (otherwise, w1) | Some x \<Rightarrow> finishSessionRefresh rq x w1)"

text \<open>A request without the header of a script needs the CSRF token; \<open>refresh_csrf\<close> is its error.\<close>

definition refresh_csrf :: "request \<Rightarrow> answer option" where
  "refresh_csrf rq =
     (if ht_requested_with rq = ''XMLHttpRequest'' then None
      else case ht_csrf_cookie rq of
             None \<Rightarrow> Some (fail ErrorCodeForbidden ''missing csrf token'')
           | Some v \<Rightarrow>
               if v = [] \<or> ht_csrf rq = [] then Some (fail ErrorCodeForbidden ''missing csrf token'')
               else if v \<noteq> ht_csrf rq then Some (fail ErrorCodeForbidden ''invalid csrf token'')
               else None)"

definition handleRefreshSession :: "'s server \<Rightarrow> draws \<Rightarrow> instant \<Rightarrow> request \<Rightarrow> 's world \<Rightarrow> answer \<times> 's world" where
  "handleRefreshSession sv d now rq w =
     (if ht_method rq \<noteq> ''POST'' then (method_not_allowed, w)
      else case refresh_csrf rq of
        Some e \<Rightarrow> (e, w)
      | None \<Rightarrow>
          (case ht_session rq of
             None \<Rightarrow> refresh_by_token sv d now rq (fail ErrorCodeUnauthorized ''not authenticated'') w
           | Some c \<Rightarrow>
               (case so_refresh (sv_sessions sv) now c (ht_ip rq) (ht_agent rq) (dr_texts d) (w_sessions w) of
                  (Some x, s) \<Rightarrow> finishSessionRefresh rq x (w\<lparr>w_sessions := s\<rparr>)
                | (None, s) \<Rightarrow>
                    let w1 = w\<lparr>w_sessions := s\<rparr>
                    in case so_replayed (sv_sessions sv) now c s of
                         Some x \<Rightarrow>
                           (fail ErrorCodeUnauthorized ''session expired'',
                            audit ''login_failed'' (Some (ss_user x)) False ''session_replay_detected''
                              (w1\<lparr>w_sessions := so_delete_all (sv_sessions sv) now (ss_user x) s\<rparr>))
                       | None \<Rightarrow>
                           refresh_by_token sv d now rq (fail ErrorCodeUnauthorized ''session expired'')
                             (audit ''login_failed'' None False ''session_refresh_failed'' w1))))"

subsection \<open>Change of password, e-mail address and profile\<close>

text \<open>Body: current and new password.\<close>

definition handleChangePassword ::
    "'s server \<Rightarrow> draws \<Rightarrow> instant \<Rightarrow> request \<Rightarrow> (string \<times> string) option \<Rightarrow> 's handler" where
  "handleChangePassword sv d now rq b cx w =
     (if ht_method rq \<noteq> ''POST'' then (method_not_allowed, w)
      else case (cx_user cx, b) of
        (None, _) \<Rightarrow> (fail ErrorCodeUnauthorized ''not authenticated'', w)
      | (Some u, None) \<Rightarrow> (fail ErrorCodeValidationFailed ''invalid request body'', w)
      | (Some u, Some (old, new)) \<Rightarrow>
          if validatePasswordPolicy new \<noteq> None
          then (fail ErrorCodeValidationFailed ''password policy'',
                audit ''password_changed'' (Some (us_id u)) False ''password_policy_violation'' w)
          else case Authenticate (sv_passwords sv) (dr_salt d) now (us_email u) old (w_users w) of
            (Inl e, us) \<Rightarrow>
              (fail ErrorCodeUnauthorized ''current password is incorrect'',
               audit ''password_changed'' (Some (us_id u)) False ''invalid_current_password'' (w\<lparr>w_users := us\<rparr>))
          | (Inr _, us) \<Rightarrow>
              (case HashPassword (sv_passwords sv) (dr_salt d) new of
                 None \<Rightarrow> (fail ErrorCodeInternal ''failed to hash password'', w\<lparr>w_users := us\<rparr>)
               | Some h \<Rightarrow>
                   (case UpdateUser now (us_id u) [SetPassword h] us of
                      (Inl _, us1) \<Rightarrow>
                        (fail ErrorCodeInternal ''failed to update password'',
                         audit ''password_changed'' (Some (us_id u)) False ''update_failed'' (w\<lparr>w_users := us1\<rparr>))
                    | (Inr _, us1) \<Rightarrow>
                        (status_ok ''password changed successfully'',
                         audit ''password_changed'' (Some (us_id u)) True []
                           (w\<lparr>w_users := us1, w_sessions := so_delete_all (sv_sessions sv) now (us_id u) (w_sessions w)\<rparr>)))))"

text \<open>Body: password and new address.\<close>

definition handleChangeEmail ::
    "'s server \<Rightarrow> draws \<Rightarrow> instant \<Rightarrow> request \<Rightarrow> (string \<times> string) option \<Rightarrow> 's handler" where
  "handleChangeEmail sv d now rq b cx w =
     (if ht_method rq \<noteq> ''POST'' then (method_not_allowed, w)
      else case (cx_user cx, b) of
        (None, _) \<Rightarrow> (fail ErrorCodeUnauthorized ''not authenticated'', w)
      | (Some u, None) \<Rightarrow> (fail ErrorCodeValidationFailed ''invalid request body'', w)
      | (Some u, Some (password, address)) \<Rightarrow>
          if password = [] then (fail ErrorCodeValidationFailed ''password is required'', w)
          else case Authenticate (sv_passwords sv) (dr_salt d) now (us_email u) password (w_users w) of
            (Inl e, us) \<Rightarrow>
              (fail ErrorCodeUnauthorized ''password is incorrect'',
               audit ''email_changed'' (Some (us_id u)) False ''invalid_password'' (w\<lparr>w_users := us\<rparr>))
          | (Inr _, us) \<Rightarrow>
              let email = go_trim_space address; w1 = w\<lparr>w_users := us\<rparr>
              in if email = [] then (fail ErrorCodeValidationFailed ''email is required'', w1)
                 else if (case user_GetByEmail email us of None \<Rightarrow> False | Some r \<Rightarrow> us_id r \<noteq> us_id u)
                 then (fail ErrorCodeConflict ''email is already in use'', w1)
                 else case UpdateUser now (us_id u) [SetEmail email] us of
                   (Inl _, us1) \<Rightarrow>
                     (fail ErrorCodeInternal ''failed to update email'',
                      audit ''email_changed'' (Some (us_id u)) False ''update_failed'' (w1\<lparr>w_users := us1\<rparr>))
                 | (Inr _, us1) \<Rightarrow>
                     (status_ok ''email updated successfully'',
                      audit ''email_changed'' (Some (us_id u)) True email
                        (w1\<lparr>w_users := us1, w_sessions := so_delete_all (sv_sessions sv) now (us_id u) (w_sessions w)\<rparr>)))"

text \<open>Body: name, phone number, country.\<close>

definition handleUpdateProfile ::
    "'s server \<Rightarrow> instant \<Rightarrow> request \<Rightarrow> (string \<times> string \<times> string) option \<Rightarrow> 's handler" where
  "handleUpdateProfile sv now rq b cx w =
     (if ht_method rq \<noteq> ''POST'' then (method_not_allowed, w)
      else case (cx_user cx, b) of
        (None, _) \<Rightarrow> (fail ErrorCodeUnauthorized ''not authenticated'', w)
      | (Some u, None) \<Rightarrow> (fail ErrorCodeValidationFailed ''invalid request body'', w)
      | (Some u, Some (name, phone, country)) \<Rightarrow>
          (case validatePhoneNumber (sv_phones sv) (go_trim_space phone) of
             None \<Rightarrow> (fail ErrorCodeValidationFailed ''invalid phone number'', w)
           | Some number \<Rightarrow>
               (case validatePhoneCountry (sv_phones sv) (go_to_upper (go_trim_space country)) number of
                  None \<Rightarrow> (fail ErrorCodeValidationFailed ''phone country'', w)
                | Some c \<Rightarrow>
                    (case UpdateUser now (us_id u) [SetFullName name, SetPhone number, SetCountry c] (w_users w) of
                       (Inl _, us) \<Rightarrow> (fail ErrorCodeInternal ''failed to update profile'', w\<lparr>w_users := us\<rparr>)
                     | (Inr _, us) \<Rightarrow>
                         (status_ok ''profile updated successfully'',
                          audit ''user_updated'' (Some (us_id u)) True [] (w\<lparr>w_users := us\<rparr>))))))"

subsection \<open>Reset of the password\<close>

definition reset_CreateToken :: "uuid \<Rightarrow> uuid \<Rightarrow> string \<Rightarrow> instant \<Rightarrow> reset_row list \<Rightarrow> reset_row option \<times> reset_row list" where
  "reset_CreateToken key user h expires tab =
     (let r = \<lparr>rs_id = key, rs_user = user, rs_hash = h, rs_expires = expires, rs_used = False\<rparr>
      in if list_ex (\<lambda>q. rs_id q = key \<or> rs_hash q = h) tab then (None, tab) else (Some r, tab @ [r]))"

definition reset_GetByTokenHash :: "string \<Rightarrow> reset_row list \<Rightarrow> reset_row option" where
  "reset_GetByTokenHash h tab = List.find (\<lambda>r. rs_hash r = h) tab"

definition reset_MarkUsed :: "uuid \<Rightarrow> reset_row list \<Rightarrow> bool \<times> reset_row list" where
  "reset_MarkUsed key tab =
     (list_ex (\<lambda>r. rs_id r = key) tab, map (\<lambda>r. if rs_id r = key then r\<lparr>rs_used := True\<rparr> else r) tab)"

definition reset_DeleteConsumedExpired :: "instant \<Rightarrow> reset_row list \<Rightarrow> nat \<times> reset_row list" where
  "reset_DeleteConsumedExpired before tab =
     (length (filter (\<lambda>r. rs_used r \<or> rs_expires r < before) tab), filter (\<lambda>r. \<not> (rs_used r \<or> rs_expires r < before)) tab)"

definition reset_sent :: answer where
  "reset_sent = answered (Message ''if the email exists, a reset link will be sent'')"

definition handleForgotPassword ::
    "'s server \<Rightarrow> draws \<Rightarrow> instant \<Rightarrow> request \<Rightarrow> string option \<Rightarrow> 's world \<Rightarrow> answer \<times> 's world" where
  "handleForgotPassword sv d now rq b w =
     (if ht_method rq \<noteq> ''POST'' then (method_not_allowed, w)
      else if \<not> sv_mailer sv then (fail ErrorCodeInternal ''password reset is not configured'', w)
      else case b of
        None \<Rightarrow> (fail ErrorCodeValidationFailed ''invalid request body'', w)
      | Some e \<Rightarrow>
          let email = go_trim_space e
          in if email = [] then (fail ErrorCodeValidationFailed ''email is required'', w)
             else case user_GetByEmail email (w_users w) of
               None \<Rightarrow> (reset_sent, w)
             | Some u \<Rightarrow>
                 (case reset_CreateToken (dr_key d) (us_id u) (th_hmac (sv_hashes sv) (dr_token d)) (now + go_hour) (w_resets w) of
                    (None, tab) \<Rightarrow> (reset_sent, w)
                  | (Some _, tab) \<Rightarrow> (reset_sent, w\<lparr>w_resets := tab, w_mail := w_mail w @ [(us_email u, dr_token d)]\<rparr>)))"

text \<open>Body: token and new password.\<close>

definition handleResetPassword ::
    "'s server \<Rightarrow> draws \<Rightarrow> instant \<Rightarrow> request \<Rightarrow> (string \<times> string) option \<Rightarrow> 's world \<Rightarrow> answer \<times> 's world" where
  "handleResetPassword sv d now rq b w =
     (if ht_method rq \<noteq> ''POST'' then (method_not_allowed, w)
      else case b of
        None \<Rightarrow> (fail ErrorCodeValidationFailed ''invalid request body'', w)
      | Some (token, new) \<Rightarrow>
          if token = [] \<or> new = [] then (fail ErrorCodeValidationFailed ''token and new_password are required'', w)
          else if validatePasswordPolicy new \<noteq> None then (fail ErrorCodeValidationFailed ''password policy'', w)
          else case reset_GetByTokenHash (th_hmac (sv_hashes sv) token) (w_resets w) of
            None \<Rightarrow> (fail ErrorCodeValidationFailed ''invalid or expired reset token'', w)
          | Some r \<Rightarrow>
              if rs_used r then (fail ErrorCodeValidationFailed ''reset token has already been used'', w)
              else if rs_expires r < now then (fail ErrorCodeValidationFailed ''reset token has expired'', w)
              else case user_GetByID (rs_user r) (w_users w) of
                None \<Rightarrow> (fail ErrorCodeValidationFailed ''invalid or expired reset token'', w)
              | Some u \<Rightarrow>
                  (case HashPassword (sv_passwords sv) (dr_salt d) new of
                     None \<Rightarrow> (fail ErrorCodeInternal ''failed to hash password'', w)
                   | Some h \<Rightarrow>
                       (case UpdateUser now (us_id u) [SetPassword h] (w_users w) of
                          (Inl _, us) \<Rightarrow> (fail ErrorCodeInternal ''failed to update password'', w\<lparr>w_users := us\<rparr>)
                        | (Inr _, us) \<Rightarrow>
                            (status_ok ''password reset successfully'',
                             audit ''password_changed'' (Some (us_id u)) True ''password_reset''
                               (w\<lparr>w_users := us, w_resets := snd (reset_MarkUsed (rs_id r) (w_resets w)),
                                  w_sessions := so_delete_all (sv_sessions sv) now (us_id u) (w_sessions w)\<rparr>)))))"

end
