(* ===== verification/User_Admin.thy ===== *)
theory User_Admin
  imports Auth_Handlers
begin

text \<open>
  First set-up (\<^verbatim>\<open>api/setup.go\<close>), personal access tokens (\<^verbatim>\<open>api/personal_tokens.go\<close>) and the
  administration of users (\<^verbatim>\<open>api/users.go\<close>).
\<close>

subsection \<open>Set-up\<close>

definition handleSetupStatus :: "request \<Rightarrow> 's world \<Rightarrow> answer \<times> 's world" where
  "handleSetupStatus rq w =
     (if ht_method rq \<noteq> ''GET'' then (method_not_allowed, w)
      else (answered (Message (if CountUsers (w_users w) = 0 then ''needs_setup'' else ''set up'')), w))"

text \<open>Body: e-mail address, password, name. The users are counted when the request arrives.\<close>

definition handleSetup ::
    "'s server \<Rightarrow> draws \<Rightarrow> instant \<Rightarrow> request \<Rightarrow> (string \<times> string \<times> string) option \<Rightarrow> 's world \<Rightarrow> answer \<times> 's world" where
  "handleSetup sv d now rq b w =
     (if ht_method rq \<noteq> ''POST'' then (method_not_allowed, w)
      else if CountUsers (w_users w) > 0 then (fail ErrorCodeForbidden ''setup already completed'', w)
      else case b of
        None \<Rightarrow> (fail ErrorCodeValidationFailed ''invalid request body'', w)
      | Some (email, password, name) \<Rightarrow>
          if email = [] \<or> password = [] then (fail ErrorCodeValidationFailed ''email and password are required'', w)
          else if validatePasswordPolicy password \<noteq> None then (fail ErrorCodeValidationFailed ''password policy'', w)
          else case CreateUser (sv_passwords sv) (dr_salt d) (dr_key d) now email password ''admin'' (w_users w) of
            (Inl DuplicateKey, us) \<Rightarrow> (fail ErrorCodeConflict ''a user with that email already exists'', w\<lparr>w_users := us\<rparr>)
          | (Inl e, us) \<Rightarrow> (fail ErrorCodeInternal ''failed to create admin user'', w\<lparr>w_users := us\<rparr>)
          | (Inr u, us) \<Rightarrow>
              let us1 = (if name \<noteq> [] then snd (UpdateUser now (us_id u) [SetFullName name] us) else us)
              in case so_create (sv_sessions sv) now (us_id u) (ht_ip rq) (ht_agent rq) (dr_texts d) (dr_key d) (w_sessions w) of
                   (None, s) \<Rightarrow> (fail ErrorCodeInternal ''failed to create session'', w\<lparr>w_users := us1, w_sessions := s\<rparr>)
                 | (Some sess, s) \<Rightarrow>
                     ((Inr (Profile u []), session_cookies (dr_csrf d) sess),
                      audit ''login_success'' (Some (us_id u)) True ''setup''
                        (audit ''user_created'' (Some (us_id u)) True [] (w\<lparr>w_users := us1, w_sessions := s\<rparr>))))"

subsection \<open>Personal access tokens\<close>

definition listUserPATs :: "'s handler" where
  "listUserPATs cx w =
     (case cx_user cx of
        None \<Rightarrow> (fail ErrorCodeUnauthorized ''unauthorized'', w)
      | Some u \<Rightarrow> (answered (PatList (pat_ListByUser (us_id u) (w_pats w))), w))"

definition maxTokenNameLength :: nat where "maxTokenNameLength = 256"

text \<open>An expiry that does not parse or is not in the future is an error; the parser of RFC 3339 times is a parameter.\<close>

definition parseAndValidateExpiry :: "(string \<Rightarrow> instant option) \<Rightarrow> instant \<Rightarrow> string \<Rightarrow> answer + instant option" where
  "parseAndValidateExpiry parse now raw =
     (let t = go_trim_space raw
      in if t = [] then Inr None
         else case parse t of
                None \<Rightarrow> Inl (fail ErrorCodeValidationFailed ''invalid expires_at (use RFC3339)'')
              | Some e \<Rightarrow> if e \<le> now then Inl (fail ErrorCodeValidationFailed ''expires_at must be in the future'') else Inr (Some e))"

text \<open>Body: name, permissions, expiry.\<close>

definition createUserPAT ::
    "'s server \<Rightarrow> draws \<Rightarrow> instant \<Rightarrow> (string \<times> string list \<times> string) option \<Rightarrow> 's handler" where
  "createUserPAT sv d now b cx w =
     (case (cx_user cx, b) of
        (None, _) \<Rightarrow> (fail ErrorCodeUnauthorized ''unauthorized'', w)
      | (Some u, None) \<Rightarrow> (fail ErrorCodeValidationFailed ''invalid request body'', w)
      | (Some u, Some (name, perms, expires)) \<Rightarrow>
          if name = [] then (fail ErrorCodeValidationFailed ''name is required'', w)
          else if length name > maxTokenNameLength then (fail ErrorCodeValidationFailed ''name must be at most 256 characters'', w)
          else if perms = [] then (fail ErrorCodeValidationFailed ''at least one permission is required'', w)
          else if \<not> list_all (List.member (AllPermissions (us_role u))) perms
          then (fail ErrorCodeValidationFailed ''permission not available for your role'', w)
          else case (if expires = [] then Inr None else parseAndValidateExpiry (sv_parse_time sv) now expires) of
            Inl e \<Rightarrow> (e, w)
          | Inr e \<Rightarrow>
              (case pat_CreateToken (sv_hashes sv) now (dr_key d) (dr_token d) (us_id u) name perms e (w_pats w) of
                 (None, pats) \<Rightarrow> (fail ErrorCodeInternal ''failed to create personal access token'', w\<lparr>w_pats := pats\<rparr>)
               | (Some r, pats) \<Rightarrow>
                   (answered (NewPat r (dr_token d)), audit ''pat_created'' (Some (us_id u)) True [] (w\<lparr>w_pats := pats\<rparr>))))"

definition handleUserTokens ::
    "'s server \<Rightarrow> draws \<Rightarrow> instant \<Rightarrow> request \<Rightarrow> (string \<times> string list \<times> string) option \<Rightarrow> 's handler" where
  "handleUserTokens sv d now rq b cx w =
     (if ht_method rq = ''GET'' then listUserPATs cx w
      else if ht_method rq = ''POST'' then createUserPAT sv d now b cx w
      else (method_not_allowed, w))"

definition pat_revoked_answer :: "auth_ctx \<Rightarrow> bool \<times> pat_table \<Rightarrow> 's world \<Rightarrow> answer \<times> 's world" where
  "pat_revoked_answer cx r w =
     (case r of
        (False, pats) \<Rightarrow> (fail ErrorCodeNotFound ''token not found'', w\<lparr>w_pats := pats\<rparr>)
      | (True, pats) \<Rightarrow>
          (status_ok ''revoked'', audit ''pat_revoked'' (map_option us_id (cx_user cx)) True [] (w\<lparr>w_pats := pats\<rparr>)))"

definition handleUserTokenByID :: "'s server \<Rightarrow> request \<Rightarrow> string \<Rightarrow> 's handler" where
  "handleUserTokenByID sv rq i cx w =
     (if ht_method rq \<noteq> ''DELETE'' then (method_not_allowed, w)
      else case cx_user cx of
        None \<Rightarrow> (fail ErrorCodeUnauthorized ''unauthorized'', w)
      | Some u \<Rightarrow>
          (case sv_parse_uuid sv i of
             None \<Rightarrow> (fail ErrorCodeValidationFailed ''invalid token id'', w)
           | Some k \<Rightarrow> pat_revoked_answer cx (pat_RevokeToken k (us_id u) (w_pats w)) w))"

definition handleAdminTokens :: "request \<Rightarrow> 's handler" where
  "handleAdminTokens rq cx w =
     (if ht_method rq \<noteq> ''GET'' then (method_not_allowed, w) else (answered (PatList (pat_ListAll (w_pats w))), w))"

definition handleAdminTokenByID :: "'s server \<Rightarrow> request \<Rightarrow> string \<Rightarrow> 's handler" where
  "handleAdminTokenByID sv rq i cx w =
     (if ht_method rq \<noteq> ''DELETE'' then (method_not_allowed, w)
      else case sv_parse_uuid sv i of
             None \<Rightarrow> (fail ErrorCodeValidationFailed ''invalid token id'', w)
           | Some k \<Rightarrow> pat_revoked_answer cx (pat_RevokeTokenAdmin k (w_pats w)) w)"

text \<open>The route of one's own tokens asks for no permission.\<close>

definition user_tokens_route ::
    "(string \<Rightarrow> bool) option \<Rightarrow> 's server \<Rightarrow> draws \<Rightarrow> instant \<Rightarrow> request
     \<Rightarrow> (string \<times> string list \<times> string) option \<Rightarrow> 's world \<Rightarrow> answer \<times> 's world" where
  "user_tokens_route allow sv d now rq b = authMiddleware allow sv now (handleUserTokens sv d now rq b) [] rq"

subsection \<open>Users\<close>

text \<open>Body: e-mail address, password, role, name.\<close>

definition handleUsers ::
    "'s server \<Rightarrow> draws \<Rightarrow> instant \<Rightarrow> request \<Rightarrow> (string \<times> string \<times> string \<times> string) option \<Rightarrow> 's handler" where
  "handleUsers sv d now rq b cx w =
     (if ht_method rq = ''GET'' then (answered (UserList (ListUsers (w_users w))), w)
      else if ht_method rq \<noteq> ''POST'' then (method_not_allowed, w)
      else case b of
        None \<Rightarrow> (fail ErrorCodeValidationFailed ''invalid request body'', w)
      | Some (email, password, role, name) \<Rightarrow>
          if email = [] \<or> password = [] then (fail ErrorCodeValidationFailed ''email and password are required'', w)
          else if \<not> ValidRole role then (fail ErrorCodeValidationFailed ''role must be admin, operator, or viewer'', w)
          else if validatePasswordPolicy password \<noteq> None then (fail ErrorCodeValidationFailed ''password policy'', w)
          else case CreateUser (sv_passwords sv) (dr_salt d) (dr_key d) now email password role (w_users w) of
            (Inl DuplicateKey, us) \<Rightarrow> (fail ErrorCodeConflict ''a user with that email already exists'', w\<lparr>w_users := us\<rparr>)
          | (Inl e, us) \<Rightarrow> (fail ErrorCodeInternal ''failed to create user'', w\<lparr>w_users := us\<rparr>)
          | (Inr u, us) \<Rightarrow>
              (case if name \<noteq> [] then UpdateUser now (us_id u) [SetFullName name] us else (Inr (), us) of
                 (Inl _, us1) \<Rightarrow> (fail ErrorCodeInternal ''failed to set user profile'', w\<lparr>w_users := us1\<rparr>)
               | (Inr _, us1) \<Rightarrow>
                   (answered (NewUser (u\<lparr>us_full_name := name\<rparr>)),
                    audit ''user_created'' (map_option us_id (cx_user cx)) True [] (w\<lparr>w_users := us1\<rparr>))))"

record user_change =
  uc_role :: string
  uc_password :: string
  uc_email :: "string option"
  uc_full_name :: "string option"
  uc_phone :: "string option"
  uc_country :: "string option"
  uc_voice_opt_out :: "bool option"

text \<open>The parts of a change in the order the handler checks them; each looks at the users as they are then.\<close>

definition change_role :: "uuid \<Rightarrow> user_change \<Rightarrow> user_table \<Rightarrow> answer + user_field list" where
  "change_role k c tab =
     (let role = uc_role c
      in if role = [] then Inr []
         else if \<not> ValidRole role then Inl (fail ErrorCodeValidationFailed ''role must be admin, operator, or viewer'')
         else if role = ''admin'' then Inr [SetRole role]
         else case user_GetByID k tab of
                None \<Rightarrow> Inl (fail ErrorCodeNotFound ''user not found'')
              | Some target \<Rightarrow>
                  if us_role target = ''admin'' \<and> CountAdmins tab \<le> 1
                  then Inl (fail ErrorCodeValidationFailed ''cannot demote the last admin'')
                  else Inr [SetRole role])"

definition change_phone :: "phone_lib \<Rightarrow> uuid \<Rightarrow> user_change \<Rightarrow> user_table \<Rightarrow> answer + user_field list" where
  "change_phone L k c tab =
     (case case uc_phone c of None \<Rightarrow> Some None | Some p \<Rightarrow> map_option Some (validatePhoneNumber L p) of
        None \<Rightarrow> Inl (fail ErrorCodeValidationFailed ''invalid phone number'')
      | Some number \<Rightarrow>
          let fp = (case number of None \<Rightarrow> [] | Some p \<Rightarrow> [SetPhone p])
          in case uc_country c of
               None \<Rightarrow> Inr fp
             | Some country \<Rightarrow>
                 let p = (case number of
                            Some p \<Rightarrow> p
                          | None \<Rightarrow> (case user_GetByID k tab of None \<Rightarrow> [] | Some u \<Rightarrow> us_phone u))
                 in case validatePhoneCountry L (go_to_upper (go_trim_space country)) p of
                      None \<Rightarrow> Inl (fail ErrorCodeValidationFailed ''phone country'')
                    | Some x \<Rightarrow> Inr (fp @ [SetCountry x]))"

definition optional :: "('a \<Rightarrow> user_field) \<Rightarrow> 'a option \<Rightarrow> user_field list" where
  "optional f x = (case x of None \<Rightarrow> [] | Some v \<Rightarrow> [f v])"

definition change_fields :: "'s server \<Rightarrow> draws \<Rightarrow> uuid \<Rightarrow> user_change \<Rightarrow> user_table \<Rightarrow> answer + user_field list" where
  "change_fields sv d k c tab =
     (case change_role k c tab of
        Inl e \<Rightarrow> Inl e
      | Inr fr \<Rightarrow>
          if uc_password c \<noteq> [] \<and> validatePasswordPolicy (uc_password c) \<noteq> None
          then Inl (fail ErrorCodeValidationFailed ''password policy'')
          else case change_phone (sv_phones sv) k c tab of
                 Inl e \<Rightarrow> Inl e
               | Inr fp \<Rightarrow>
                   let fs = fr @ (if uc_password c \<noteq> [] then [SetPassword (uc_password c)] else []) @
                            optional SetEmail (uc_email c) @ optional SetFullName (uc_full_name c) @ fp @
                            optional SetVoiceOptOut (uc_voice_opt_out c)
                   in if fs = [] then Inl (fail ErrorCodeValidationFailed ''no fields to update'')
                      else case if uc_password c \<noteq> [] then HashPassword (sv_passwords sv) (dr_salt d) (uc_password c) else Some [] of
                             None \<Rightarrow> Inl (fail ErrorCodeInternal ''failed to hash password'')
                           | Some h \<Rightarrow> Inr (map (\<lambda>f. case f of SetPassword p \<Rightarrow> SetPassword h | _ \<Rightarrow> f) fs))"

text \<open>Check and write are statements of their own: the write may meet another table than the check.\<close>

definition write_change :: "instant \<Rightarrow> uuid \<Rightarrow> user_field list \<Rightarrow> 's handler" where
  "write_change now k fs cx w =
     (case UpdateUser now k fs (w_users w) of
        (Inl DuplicateKey, us) \<Rightarrow> (fail ErrorCodeConflict ''a user with that email already exists'', w\<lparr>w_users := us\<rparr>)
      | (Inl e, us) \<Rightarrow> (fail ErrorCodeInternal ''failed to update user'', w\<lparr>w_users := us\<rparr>)
      | (Inr _, us) \<Rightarrow>
          (status_ok ''updated'', audit ''user_updated'' (map_option us_id (cx_user cx)) True [] (w\<lparr>w_users := us\<rparr>)))"

definition check_delete :: "uuid \<Rightarrow> auth_ctx \<Rightarrow> user_table \<Rightarrow> answer option" where
  "check_delete k cx tab =
     (if map_option us_id (cx_user cx) = Some k then Some (fail ErrorCodeValidationFailed ''cannot delete yourself'')
      else case user_GetByID k tab of
             None \<Rightarrow> Some (fail ErrorCodeNotFound ''user not found'')
           | Some target \<Rightarrow>
               if us_role target = ''admin'' \<and> CountAdmins tab \<le> 1
               then Some (fail ErrorCodeValidationFailed ''cannot delete the last admin'')
               else None)"

text \<open>Tokens of the user go with his row.\<close>

definition delete_user :: "'s server \<Rightarrow> uuid \<Rightarrow> 's handler" where
  "delete_user sv k cx w =
     (case DeleteUser k (w_users w) of
        (Inl _, us) \<Rightarrow> (fail ErrorCodeNotFound ''user not found'', w\<lparr>w_users := us\<rparr>)
      | (Inr _, us) \<Rightarrow>
          (status_ok ''deleted'',
           audit ''user_deleted'' (map_option us_id (cx_user cx)) True []
             (w\<lparr>w_users := us, w_pats := filter (\<lambda>r. pt_user r \<noteq> k) (w_pats w),
                w_resets := filter (\<lambda>r. rs_user r \<noteq> k) (w_resets w),
                w_sessions := so_cascade (sv_sessions sv) k (w_sessions w)\<rparr>)))"

definition handleUserByID ::
    "'s server \<Rightarrow> draws \<Rightarrow> instant \<Rightarrow> request \<Rightarrow> string \<Rightarrow> user_change option \<Rightarrow> 's handler" where
  "handleUserByID sv d now rq i b cx w =
     (case sv_parse_uuid sv i of
        None \<Rightarrow> (fail ErrorCodeValidationFailed ''invalid user id'', w)
      | Some k \<Rightarrow>
          if ht_method rq = ''PUT'' then
            (case b of
               None \<Rightarrow> (fail ErrorCodeValidationFailed ''invalid request body'', w)
             | Some c \<Rightarrow>
                 (case change_fields sv d k c (w_users w) of
                    Inl e \<Rightarrow> (e, w) | Inr fs \<Rightarrow> write_change now k fs cx w))
          else if ht_method rq = ''DELETE'' then
            (case check_delete k cx (w_users w) of Some e \<Rightarrow> (e, w) | None \<Rightarrow> delete_user sv k cx w)
          else (method_not_allowed, w))"

end
