(* ===== verification/Session_History.thy ===== *)
theory Session_History
  imports Login_Sessions
begin

text \<open>
  Sessions: every session in PostgreSQL stems from a login and ends with its lifetime; the last three replaced
  cookies of a session are recognised as replays and older ones are not; and where the store in Valkey departs from
  this.
\<close>

subsection \<open>Histories in PostgreSQL\<close>

datatype session_cmd =
    Login uuid string string session_texts uuid
  | Look string
  | Look_Token string
  | Refresh string string string session_texts
  | Refresh_Token string string string session_texts
  | Logout string
  | Revoke string
  | Revoke_All uuid
  | Reap

fun session_do :: "session_cfg \<Rightarrow> instant \<times> session_cmd \<Rightarrow> session_table \<Rightarrow> session_table" where
  "session_do cfg (now, Login u ip agent x key) tab = snd (pg_CreateSession cfg now u ip agent x key tab)"
| "session_do cfg (now, Look i) tab = snd (pg_GetSession cfg now i tab)"
| "session_do cfg (now, Look_Token t) tab = snd (pg_GetSessionByRefreshToken cfg now t tab)"
| "session_do cfg (now, Refresh i ip agent x) tab = snd (pg_RefreshSession cfg now i ip agent x tab)"
| "session_do cfg (now, Refresh_Token t ip agent x) tab = snd (pg_RefreshSessionByRefreshToken cfg now t ip agent x tab)"
| "session_do cfg (now, Logout i) tab = pg_DeleteSession cfg i tab"
| "session_do cfg (now, Revoke h) tab = pg_DeleteSessionByIDHash h tab"
| "session_do cfg (now, Revoke_All u) tab = pg_DeleteAllUserSessions u tab"
| "session_do cfg (now, Reap) tab = snd (pg_DeleteExpired cfg now tab)"

definition login_of :: "session_cmd \<Rightarrow> (uuid \<times> string) option" where
  "login_of c = (case c of Login u ip agent x key \<Rightarrow> Some (u, tx_family x) | _ \<Rightarrow> None)"

text \<open>The session stems from a login of its user in the history, and was last renewed by an entry of it.\<close>

definition stems :: "session_cfg \<Rightarrow> (instant \<times> session_cmd) list \<Rightarrow> session \<Rightarrow> bool" where
  "stems cfg cmds s \<longleftrightarrow>
     list_ex (\<lambda>(now, c). now = ss_created s \<and> login_of c = Some (ss_user s, ss_family s)) cmds \<and>
     list_ex (\<lambda>(now, c). ss_expires s = now + sf_expiry cfg) cmds"

definition keys_unique :: "session_table \<Rightarrow> bool" where
  "keys_unique tab \<longleftrightarrow> distinct (map fst tab) \<and> distinct (map (ss_hash \<circ> snd) tab)"

lemma stems_more: "stems cfg cmds s \<Longrightarrow> stems cfg (cmds @ cs) s"
  by (auto simp: stems_def)

lemma stored_fields [simp]:
  "ss_hash (stored s) = ss_hash s" "ss_user (stored s) = ss_user s" "ss_thash (stored s) = ss_thash s"
  "ss_prev (stored s) = ss_prev s" "ss_prev_ids (stored s) = ss_prev_ids s" "ss_family (stored s) = ss_family s"
  "ss_created (stored s) = ss_created s" "ss_expires (stored s) = ss_expires s" "ss_used (stored s) = ss_used s"
  by (simp_all add: stored_def)

lemma rotated_fields [simp]:
  "ss_user (rotated cfg now ip agent x s) = ss_user s" "ss_family (rotated cfg now ip agent x s) = ss_family s"
  "ss_created (rotated cfg now ip agent x s) = ss_created s" "ss_expires (rotated cfg now ip agent x s) = now + sf_expiry cfg"
  "ss_hash (rotated cfg now ip agent x s) = sf_hash cfg (tx_id x)"
  "ss_prev_ids (rotated cfg now ip agent x s) = take 3 (ss_hash s # ss_prev_ids s)"
  "ss_prev (rotated cfg now ip agent x s) = take 3 (ss_thash s # ss_prev s)"
  by (simp_all add: rotated_def maxPrevRefreshTokens_def)

lemma find_in_table: "List.find P tab = Some r \<Longrightarrow> r \<in> set tab \<and> P r"
  by (auto simp: find_split)

text \<open>Rows after a rotation: old ones and at most the rotated one.\<close>

lemma rotate_rows:
  assumes "row \<in> set tab" "r \<in> set (snd (rotateSessionRow cfg now ip agent x row tab))"
  shows "r \<in> set tab \<or> r = (fst row, rotated cfg now ip agent x (snd row))"
proof (cases row)
  case (Pair k s)
  with assms show ?thesis by (auto simp: rotateSessionRow_def Let_def split: if_splits)
qed

lemma keys_unique_filter: "keys_unique tab \<Longrightarrow> keys_unique (filter P tab)"
  by (simp add: keys_unique_def distinct_map_filter)

lemma keys_unique_rotate:
  assumes "keys_unique tab" "row \<in> set tab"
  shows "keys_unique (snd (rotateSessionRow cfg now ip agent x row tab))"
proof (cases row)
  case (Pair k s)
  let ?s1 = "rotated cfg now ip agent x s"
  show ?thesis
  proof (cases "isWithinAbsoluteLifetime now s (sf_lifetime cfg) \<and> \<not> list_ex (\<lambda>r. ss_hash (snd r) = ss_hash ?s1 \<and> fst r \<noteq> k) tab")
    case True
    let ?f = "\<lambda>r. if fst r = k then (k, ?s1) else r"
    have "map fst (map ?f tab) = map fst tab" by (induction tab) auto
    moreover have "distinct (map (ss_hash \<circ> snd) (map ?f tab))"
    proof -
      have "inj_on (ss_hash \<circ> snd \<circ> ?f) (set tab)"
      proof (rule inj_onI)
        fix a b
        assume ab: "a \<in> set tab" "b \<in> set tab" "(ss_hash \<circ> snd \<circ> ?f) a = (ss_hash \<circ> snd \<circ> ?f) b"
        have no: "ss_hash (snd r) \<noteq> ss_hash ?s1" if "r \<in> set tab" "fst r \<noteq> k" for r
          using True that by (auto simp: list_ex_iff)
        have ku: "a = b" if "fst a = fst b" using assms(1) ab(1,2) that by (auto simp: keys_unique_def distinct_map dest: inj_onD)
        have hu: "a = b" if "ss_hash (snd a) = ss_hash (snd b)"
        proof -
          have "inj_on (ss_hash \<circ> snd) (set tab)" using assms(1) by (simp only: keys_unique_def distinct_map)
          from inj_onD [OF this _ ab(1,2)] that show ?thesis by simp
        qed
        show "a = b"
        proof (cases "fst a = k"; cases "fst b = k")
          assume "fst a = k" "fst b = k" then show ?thesis by (intro ku) simp
        next
          assume "fst a = k" "fst b \<noteq> k" then show ?thesis using ab(3) no [OF ab(2)] by simp
        next
          assume "fst a \<noteq> k" "fst b = k" then show ?thesis using ab(3) no [OF ab(1)] by simp
        next
          assume "fst a \<noteq> k" "fst b \<noteq> k" then show ?thesis using ab(3) by (intro hu) simp
        qed
      qed
      moreover have "distinct tab" using assms(1) by (simp add: keys_unique_def distinct_map)
      ultimately show ?thesis by (simp add: distinct_map comp_assoc)
    qed
    ultimately show ?thesis using assms(1) True Pair
      by (simp add: rotateSessionRow_def Let_def keys_unique_def del: map_map)
  next
    case False
    then show ?thesis using assms Pair keys_unique_filter [OF assms(1)] by (auto simp: rotateSessionRow_def Let_def)
  qed
qed

lemma session_do_rows:
  assumes "r \<in> set (session_do cfg (now, c) tab)"
  shows "r \<in> set tab \<or> (\<exists>u ip agent x key. c = Login u ip agent x key \<and> snd r = stored (new_session cfg now u ip agent x)) \<or>
    (\<exists>row ip agent x. row \<in> set tab \<and> r = (fst row, rotated cfg now ip agent x (snd row)))"
proof (cases c)
  case (Refresh i ip agent x)
  let ?f = "List.find (\<lambda>r. ss_hash (snd r) = sf_hash cfg i) tab"
  show ?thesis
  proof (cases "i = [] \<or> ?f = None")
    case True
    with assms Refresh show ?thesis by (auto simp: pg_RefreshSession_def split: if_splits)
  next
    case False
    then obtain row where f: "?f = Some row" "i \<noteq> []" by auto
    with assms Refresh have "r \<in> set (snd (rotateSessionRow cfg now ip agent x row tab))" by (simp add: pg_RefreshSession_def)
    with find_in_table [OF f(1)] rotate_rows [of row tab r] show ?thesis by blast
  qed
next
  case (Refresh_Token t ip agent x)
  let ?f = "List.find (\<lambda>r. ss_thash (snd r) = sf_hash cfg t \<and> now < ss_expires (snd r)) tab"
  show ?thesis
  proof (cases "t = [] \<or> ?f = None")
    case True
    with assms Refresh_Token show ?thesis
      by (auto simp: pg_RefreshSessionByRefreshToken_def split: option.splits if_splits)
  next
    case False
    then obtain row where f: "?f = Some row" "t \<noteq> []" by auto
    with assms Refresh_Token have "r \<in> set (snd (rotateSessionRow cfg now ip agent x row tab))"
      by (simp add: pg_RefreshSessionByRefreshToken_def split: prod.splits)
    with find_in_table [OF f(1)] rotate_rows [of row tab r] show ?thesis by blast
  qed
qed (use assms in \<open>auto simp: pg_CreateSession_def pg_GetSession_def pg_GetSessionByRefreshToken_def pg_DeleteSession_def
      pg_DeleteSessionByIDHash_def pg_DeleteAllUserSessions_def pg_DeleteExpired_def Let_def split: if_splits option.splits\<close>)

lemma session_do_unique:
  assumes "keys_unique tab"
  shows "keys_unique (session_do cfg (now, c) tab)"
proof (cases c)
  case (Login u ip agent x key)
  with assms show ?thesis by (auto simp: pg_CreateSession_def Let_def keys_unique_def list_ex_iff)
next
  case (Refresh i ip agent x)
  with assms show ?thesis
    by (auto simp: pg_RefreshSession_def keys_unique_rotate split: option.splits dest: find_in_table)
next
  case (Refresh_Token t ip agent x)
  let ?f = "List.find (\<lambda>r. ss_thash (snd r) = sf_hash cfg t \<and> now < ss_expires (snd r)) tab"
  show ?thesis
  proof (cases "t = [] \<or> ?f = None")
    case True
    with assms Refresh_Token show ?thesis
      by (auto simp: pg_RefreshSessionByRefreshToken_def split: option.splits)
  next
    case False
    then obtain row where f: "?f = Some row" "t \<noteq> []" by auto
    with find_in_table [OF f(1)] keys_unique_rotate [OF assms, of row cfg now ip agent x] Refresh_Token show ?thesis
      by (cases "rotateSessionRow cfg now ip agent x row tab") (simp add: pg_RefreshSessionByRefreshToken_def)
  qed
qed (use assms in \<open>auto simp: pg_GetSession_def pg_GetSessionByRefreshToken_def pg_DeleteSession_def
      pg_DeleteSessionByIDHash_def pg_DeleteAllUserSessions_def pg_DeleteExpired_def Let_def keys_unique_filter
      split: option.split prod.split\<close>)

lemma history_stems:
  "list_all (\<lambda>r. stems cfg cs (snd r)) tab \<Longrightarrow> keys_unique tab \<Longrightarrow>
   list_all (\<lambda>r. stems cfg (cs @ cmds) (snd r)) (fold (session_do cfg) cmds tab) \<and> keys_unique (fold (session_do cfg) cmds tab)"
proof (induction cmds arbitrary: tab cs)
  case (Cons e cmds)
  obtain now c where e: "e = (now, c)" by (rule prod.exhaust)
  have "stems cfg (cs @ [e]) (snd r)" if r: "r \<in> set (session_do cfg e tab)" for r
  proof -
    note r [unfolded e, THEN session_do_rows]
    then show ?thesis
    proof (elim disjE exE conjE)
      assume "r \<in> set tab"
      with Cons.prems(1) show ?thesis by (simp add: list_all_iff stems_more)
    next
      fix u ip agent x key
      assume "c = Login u ip agent x key" "snd r = stored (new_session cfg now u ip agent x)"
      then show ?thesis by (simp add: stems_def e new_session_def login_of_def)
    next
      fix row ip agent x
      assume row: "row \<in> set tab" "r = (fst row, rotated cfg now ip agent x (snd row))"
      with Cons.prems(1) have "stems cfg cs (snd row)" by (simp add: list_all_iff)
      with row(2) show ?thesis by (auto simp: stems_def e)
    qed
  qed
  then have "list_all (\<lambda>r. stems cfg (cs @ [e]) (snd r)) (session_do cfg e tab)" by (simp add: list_all_iff)
  from Cons.IH [OF this] session_do_unique [OF Cons.prems(2), of cfg now c] show ?case by (simp add: e)
qed simp

text \<open>C16. After any history of logins, refreshes, look-ups, logouts, revocations and reaping, a cookie that
  authenticates belongs to a session of the same user that a login of the history created less than the maximal
  lifetime ago, however often it was refreshed, and that an entry of the history renewed less than the idle
  lifetime ago; no two sessions share a cookie.\<close>

theorem sessions_stem_from_logins:
  assumes "tab = fold (session_do cfg) cmds []" "fst (pg_GetSession cfg now i tab) = Some s" "0 < sf_lifetime cfg"
  shows "keys_unique tab \<and>
    list_ex (\<lambda>(t, c). map_option fst (login_of c) = Some (ss_user s) \<and> now < t + sf_lifetime cfg) cmds \<and>
    list_ex (\<lambda>(t, c). now < t + sf_expiry cfg) cmds"
proof -
  have h: "list_all (\<lambda>r. stems cfg cmds (snd r)) tab" "keys_unique tab"
    using history_stems [of cfg "[]" "[]" cmds] assms(1) by (simp_all add: keys_unique_def)
  obtain k s0 where f: "List.find (\<lambda>r. ss_hash (snd r) = sf_hash cfg i \<and> now < ss_expires (snd r)) tab = Some (k, s0)"
    and s: "isWithinAbsoluteLifetime now s0 (sf_lifetime cfg)" "s = s0\<lparr>ss_id := i\<rparr>"
    using assms(2) by (auto simp: pg_GetSession_def split: if_splits option.splits)
  from find_in_table [OF f] h(1) have st: "stems cfg cmds s0" "now < ss_expires s0" by (auto simp: list_all_iff)
  have life: "now < ss_created s0 + sf_lifetime cfg" using s(1) assms(3) by (simp add: isWithinAbsoluteLifetime_def)
  from st(1) obtain c where "(ss_created s0, c) \<in> set cmds" "login_of c = Some (ss_user s0, ss_family s0)"
    by (auto simp: stems_def list_ex_iff)
  with life s(2) have "list_ex (\<lambda>(t, c). map_option fst (login_of c) = Some (ss_user s) \<and> now < t + sf_lifetime cfg) cmds"
    unfolding list_ex_iff by (intro bexI [of _ "(ss_created s0, c)"]) simp_all
  moreover have "list_ex (\<lambda>(t, c). now < t + sf_expiry cfg) cmds"
    using st unfolding stems_def list_ex_iff by fastforce
  ultimately show ?thesis using h(2) by simp
qed

subsection \<open>Replays\<close>

text \<open>A browser that keeps refreshing with the cookie it got last.\<close>

fun keep_refreshing :: "session_cfg \<Rightarrow> (instant \<times> session_texts) list \<Rightarrow> string \<Rightarrow> session_table \<Rightarrow> session_table" where
  "keep_refreshing cfg [] i tab = tab"
| "keep_refreshing cfg ((now, x) # xs) i tab =
     keep_refreshing cfg xs (tx_id x) (snd (pg_RefreshSession cfg now i [] [] x tab))"

text \<open>The session \<open>s\<close> with key \<open>k\<close> is the only one that knows the hashes \<open>hs\<close>.\<close>

definition sole_owner :: "uuid \<Rightarrow> session \<Rightarrow> string list \<Rightarrow> session_table \<Rightarrow> bool" where
  "sole_owner k s hs tab \<longleftrightarrow> (k, s) \<in> set tab \<and>
     list_all (\<lambda>r. if fst r = k then snd r = s
                   else list_all (\<lambda>h. h \<notin> set (ss_hash (snd r) # ss_prev_ids (snd r))) hs) tab"

lemma sole_find:
  assumes "sole_owner k s hs tab" "P (k, s)" "\<And>r. r \<in> set tab \<Longrightarrow> P r \<Longrightarrow> r = (k, s)"
  shows "List.find P tab = Some (k, s)"
proof (cases "List.find P tab")
  case None
  with assms(1,2) show ?thesis by (auto simp: find_None sole_owner_def)
next
  case (Some r)
  with find_in_table [OF Some] assms(3) show ?thesis by simp
qed

lemma sole_unknown:
  assumes "sole_owner k s hs tab" "r \<in> set tab" "h \<in> set hs" "h \<in> set (ss_hash (snd r) # ss_prev_ids (snd r))"
  shows "r = (k, s)"
proof (cases "fst r = k")
  case True
  then have "snd r = s" using assms(1,2) by (auto simp: sole_owner_def list_all_iff)
  with True show ?thesis by (simp add: prod_eq_iff)
next
  case False
  with assms(1,2) have "list_all (\<lambda>h. h \<notin> set (ss_hash (snd r) # ss_prev_ids (snd r))) hs"
    by (auto simp: sole_owner_def list_all_iff [of _ tab])
  with assms(3,4) show ?thesis by (auto simp: list_all_iff)
qed

lemma refresh_sole:
  assumes "sole_owner k s hs tab" "ss_hash s = sf_hash cfg i" "ss_hash s \<in> set hs" "sf_hash cfg (tx_id x) \<in> set hs"
    "i \<noteq> []" "isWithinAbsoluteLifetime now s (sf_lifetime cfg)"
  shows "sole_owner k (rotated cfg now [] [] x s) hs (snd (pg_RefreshSession cfg now i [] [] x tab))"
proof -
  have f: "List.find (\<lambda>r. ss_hash (snd r) = sf_hash cfg i) tab = Some (k, s)"
    using assms(2,3) sole_unknown [OF assms(1) _ assms(3)] by (intro sole_find [OF assms(1)]) simp_all
  have other: "fst r = k" if "r \<in> set tab" "ss_hash (snd r) = sf_hash cfg (tx_id x)" for r
    using sole_unknown [OF assms(1) that(1) assms(4)] that(2) by simp
  then have "snd (pg_RefreshSession cfg now i [] [] x tab) = map (\<lambda>r. if fst r = k then (k, rotated cfg now [] [] x s) else r) tab"
    using assms(5,6) f by (auto simp: pg_RefreshSession_def rotateSessionRow_def Let_def list_ex_iff)
  with assms(1) show ?thesis by (force simp: sole_owner_def list_all_iff)
qed

lemma take_4_append: "A \<noteq> [] \<Longrightarrow> take 4 (A @ take 3 B) = take 4 (A @ B)"
  by (cases A) (simp_all add: min_def)

lemma keep_refreshing_sole:
  assumes "sole_owner k s hs tab" "ss_hash s = sf_hash cfg i" "i \<noteq> []"
    "set (map (sf_hash cfg) (i # map (tx_id \<circ> snd) xs)) \<subseteq> set hs" "list_all (\<lambda>(t, x). tx_id x \<noteq> []) xs"
    "list_all (\<lambda>(t, x). isWithinAbsoluteLifetime t s (sf_lifetime cfg)) xs"
  shows "\<exists>s1. sole_owner k s1 hs (keep_refreshing cfg xs i tab) \<and>
    ss_hash s1 # ss_prev_ids s1 =
      (if xs = [] then ss_hash s # ss_prev_ids s
       else take 4 (rev (map (sf_hash cfg) (i # map (tx_id \<circ> snd) xs)) @ ss_prev_ids s)) \<and>
    ss_expires s1 = (if xs = [] then ss_expires s else fst (last xs) + sf_expiry cfg)"
  using assms
proof (induction xs arbitrary: i s tab)
  case (Cons e xs)
  obtain now x where e: "e = (now, x)" by (rule prod.exhaust)
  let ?s1 = "rotated cfg now [] [] x s" and ?t1 = "snd (pg_RefreshSession cfg now i [] [] x tab)"
  have "sole_owner k ?s1 hs ?t1" using Cons.prems by (intro refresh_sole) (simp_all add: e)
  moreover have "list_all (\<lambda>(t, x). isWithinAbsoluteLifetime t ?s1 (sf_lifetime cfg)) xs"
    using Cons.prems(6) by (simp add: isWithinAbsoluteLifetime_def)
  ultimately obtain s1 where s1: "sole_owner k s1 hs (keep_refreshing cfg xs (tx_id x) ?t1)"
    "ss_hash s1 # ss_prev_ids s1 =
      (if xs = [] then ss_hash ?s1 # ss_prev_ids ?s1
       else take 4 (rev (map (sf_hash cfg) (tx_id x # map (tx_id \<circ> snd) xs)) @ ss_prev_ids ?s1))"
    "ss_expires s1 = (if xs = [] then ss_expires ?s1 else fst (last xs) + sf_expiry cfg)"
    using Cons.IH [of ?s1 ?t1 "tx_id x"] Cons.prems(4,5) by (auto simp: e)
  show ?case
  proof (intro exI conjI)
    show "sole_owner k s1 hs (keep_refreshing cfg (e # xs) i tab)" using s1(1) by (simp add: e)
    show "ss_expires s1 = (if e # xs = [] then ss_expires s else fst (last (e # xs)) + sf_expiry cfg)"
      using s1(3) by (simp add: e)
    show "ss_hash s1 # ss_prev_ids s1 = (if e # xs = [] then ss_hash s # ss_prev_ids s
       else take 4 (rev (map (sf_hash cfg) (i # map (tx_id \<circ> snd) (e # xs))) @ ss_prev_ids s))"
    proof (cases "xs = []")
      case True
      with s1(2) Cons.prems(2) show ?thesis by (simp add: e numeral_eq_Suc)
    next
      case False
      let ?r = "rev (map (sf_hash cfg) (tx_id x # map (tx_id \<circ> snd) xs))"
      have "take 4 (?r @ take 3 (ss_hash s # ss_prev_ids s)) = take 4 (?r @ ss_hash s # ss_prev_ids s)"
        by (rule take_4_append) simp
      with s1(2) False Cons.prems(2) show ?thesis by (simp add: e)
    qed
  qed
next
  case Nil
  then show ?case by (intro exI [of _ s]) simp
qed

lemma recent_position:
  assumes "distinct L" "length L = Suc n" "j \<le> n"
  shows "L ! j \<in> set (take 3 (tl (rev L))) \<longleftrightarrow> j < n \<and> n \<le> j + 3"
proof -
  have nth: "tl (rev L) ! m = L ! (n - Suc m)" if "m < n" for m
    using that assms(2) by (simp add: nth_tl rev_nth)
  have "L ! j \<in> set (take 3 (tl (rev L))) \<longleftrightarrow> (\<exists>m. m < 3 \<and> m < n \<and> L ! (n - Suc m) = L ! j)"
    using nth assms(2) by (auto simp: in_set_conv_nth)
  also have "\<dots> \<longleftrightarrow> (\<exists>m. m < 3 \<and> m < n \<and> n - Suc m = j)"
    using assms by (auto simp: nth_eq_iff_index_eq)
  also have "\<dots> \<longleftrightarrow> j < n \<and> n \<le> j + 3"
  proof
    assume "j < n \<and> n \<le> j + 3"
    then show "\<exists>m. m < 3 \<and> m < n \<and> n - Suc m = j" by (intro exI [of _ "n - Suc j"]) auto
  qed auto
  finally show ?thesis .
qed


definition demo_cfg :: session_cfg where
  "demo_cfg = \<lparr>sf_hash = (\<lambda>t. t), sf_expiry = go_hour, sf_lifetime = 24 * go_hour\<rparr>"

definition demo_texts :: "string \<Rightarrow> session_texts" where
  "demo_texts t = \<lparr>tx_id = t, tx_token = ''t'' @ t, tx_family = ''f''\<rparr>"

definition demo_session :: session where
  "demo_session = stored (new_session demo_cfg 0 7 [] [] (demo_texts ''a''))"

lemma demo_session_simps [simp]:
  "sf_hash demo_cfg t = t" "ss_hash demo_session = ''a''" "ss_prev_ids demo_session = []" "ss_created demo_session = 0"
  "ss_user demo_session = 7" "ss_thash demo_session = ''ta''" "ss_prev demo_session = []" "ss_expires demo_session = go_hour"
  "sf_expiry demo_cfg = go_hour" "sf_lifetime demo_cfg = 24 * go_hour" "tx_id (demo_texts t) = t" "tx_token (demo_texts t) = ''t'' @ t"
  by (simp_all add: demo_session_def demo_cfg_def demo_texts_def new_session_def)

theorem sessions_stem_from_logins_witness:
  "fst (pg_GetSession demo_cfg 10 ''b''
      (fold (session_do demo_cfg) [(0, Login 7 [] [] (demo_texts ''a'') 1), (5, Refresh ''a'' [] [] (demo_texts ''b''))] [])) \<noteq> None \<and>
   10 < 0 + 24 * go_hour"
proof -
  let ?cmds = "[(0, Login 7 [] [] (demo_texts ''a'') 1), (5, Refresh ''a'' [] [] (demo_texts ''b''))]"
  have "map_option ss_user (fst (pg_GetSession demo_cfg 10 ''b'' (fold (session_do demo_cfg) ?cmds []))) = Some 7" by code_simp
  then obtain s where s: "fst (pg_GetSession demo_cfg 10 ''b'' (fold (session_do demo_cfg) ?cmds [])) = Some s" by auto
  have "0 < sf_lifetime demo_cfg" by (simp add: duration_defs)
  from sessions_stem_from_logins [OF refl s this] s show ?thesis by (simp add: login_of_def)
qed


text \<open>Refreshing by cookie does not look at the idle expiry: until the row is reaped, an expired session comes back.\<close>

lemma idle_session_revived:
  "let tab = snd (pg_CreateSession demo_cfg 0 7 [] [] (demo_texts ''a'') 1 []);
       tab1 = snd (pg_RefreshSession demo_cfg (5 * go_hour) ''a'' [] [] (demo_texts ''b'') tab)
   in fst (pg_GetSession demo_cfg (5 * go_hour) ''a'' tab) = None \<and>
      map_option ss_user (fst (pg_GetSession demo_cfg (5 * go_hour) ''b'' tab1)) = Some 7"
  by code_simp

subsection \<open>The store in Valkey\<close>

lemma set_members_shrink: "t \<le> t1 \<Longrightarrow> set (set_members t1 u v) \<subseteq> set (set_members t u v)"
  by (auto simp: set_members_def unexpired_def split: option.splits prod.splits if_splits)

lemma removeUserSession_members:
  "set (set_members now u (removeUserSession now u h v)) \<subseteq> set (set_members now u v) - {h}"
  by (auto simp: removeUserSession_def set_members_def unexpired_def Let_def split: option.splits prod.splits if_splits)

lemma removeUserSession_docs [simp]: "vs_docs (removeUserSession now u h v) = vs_docs v"
  by (simp add: removeUserSession_def)

lemma list_docs_members:
  "list_docs cfg now u hs v = (ss, v1) \<Longrightarrow> vs_docs v1 = vs_docs v \<and>
   set (set_members now u v1) \<subseteq> set (set_members now u v) -
     {h \<in> set hs. case unexpired now (vs_docs v h) of None \<Rightarrow> True | Some s \<Rightarrow> ss_expires s < now}"
proof (induction hs arbitrary: v ss v1)
  case (Cons h hs)
  let ?gone = "\<lambda>v h. case unexpired now (vs_docs v h) of None \<Rightarrow> True | Some s \<Rightarrow> ss_expires s < now"
  show ?case
  proof (cases "case unexpired now (vs_docs v h) of None \<Rightarrow> True
      | Some s \<Rightarrow> ss_expires s < now \<or> \<not> isWithinAbsoluteLifetime now s (sf_lifetime cfg)")
    case True
    let ?v = "removeUserSession now u h v"
    from True Cons.prems have "list_docs cfg now u hs ?v = (ss, v1)" by (auto split: option.splits)
    from Cons.IH [OF this] removeUserSession_members [of now u h v] show ?thesis by auto
  next
    case False
    then obtain s where s: "unexpired now (vs_docs v h) = Some s" "\<not> ss_expires s < now"
      "isWithinAbsoluteLifetime now s (sf_lifetime cfg)" by (auto split: option.splits)
    obtain ss1 v2 where r: "list_docs cfg now u hs v = (ss1, v2)" by (rule prod.exhaust)
    from s r Cons.prems have "v1 = v2" by simp
    with Cons.IH [OF r] s show ?thesis by auto
  qed
qed simp

lemma delete_docs_other: "h \<notin> set hs \<Longrightarrow> vs_docs (delete_docs now hs v) h = vs_docs v h"
  by (induction hs arbitrary: v) (auto simp: Let_def split: option.split)

text \<open>The document after a refresh by the script.\<close>

lemma refreshed_doc:
  assumes "unexpired now (vs_docs v (sf_hash cfg i)) = Some s" "i \<noteq> []" "isWithinAbsoluteLifetime now s (sf_lifetime cfg)"
    "sf_hash cfg (tx_id x) \<noteq> sf_hash cfg i"
  shows "\<exists>s1. vs_docs (snd (vk_RefreshSession True cfg now i ip agent x v)) (sf_hash cfg (tx_id x)) = Some (s1, now + expiry_ms cfg) \<and>
    ss_expires s1 = now \<and> ss_created s1 = ss_created s \<and> ss_user s1 = ss_user s"
  using assms
  by (simp add: vk_RefreshSession_def vk_GetSession_def rotateByIDHash_def refresh_script_def Let_def addUserSession_def)

text \<open>In Valkey, revoking all sessions of a user misses a session that was refreshed and then listed: the script
  stores the time of the refresh as the expiry, the next listing takes the session for expired and drops it from
  the user's set, and the revocation, which goes by this set, leaves the session alive.\<close>

theorem revocation_misses_refreshed:
  assumes "unexpired t1 (vs_docs v (sf_hash cfg i)) = Some s" "i \<noteq> []" "tx_id x \<noteq> []"
    "sf_hash cfg (tx_id x) \<noteq> sf_hash cfg i" "t1 < t2" "t2 \<le> t3" "t3 \<le> t4" "t4 < t1 + expiry_ms cfg"
    "isWithinAbsoluteLifetime t4 s (sf_lifetime cfg)"
    "v1 = snd (vk_RefreshSession True cfg t1 i ip agent x v)" "v2 = snd (vk_ListUserSessions cfg t2 (ss_user s) v1)"
    "v3 = vk_DeleteAllUserSessions t3 (ss_user s) v2"
  shows "map_option ss_user (fst (vk_GetSession cfg t4 (tx_id x) v3)) = Some (ss_user s)"
proof -
  let ?h = "sf_hash cfg (tx_id x)" and ?u = "ss_user s"
  have "isWithinAbsoluteLifetime t1 s (sf_lifetime cfg)" using assms(5-7,9) by (auto simp: isWithinAbsoluteLifetime_def)
  from refreshed_doc [OF assms(1,2) this assms(4)] obtain s1 where s1: "vs_docs v1 ?h = Some (s1, t1 + expiry_ms cfg)"
    "ss_expires s1 = t1" "ss_created s1 = ss_created s" "ss_user s1 = ?u" unfolding assms(10) by blast
  obtain ss v2' where l: "list_docs cfg t2 ?u (set_members t2 ?u v1) v1 = (ss, v2')" by (rule prod.exhaust)
  then have v2: "v2 = v2'" unfolding assms(11) by (simp add: vk_ListUserSessions_def)
  have gone: "unexpired t2 (vs_docs v1 ?h) = Some s1" using s1(1) assms(6-8) by (simp add: unexpired_def)
  have "vs_docs v2 = vs_docs v1" "?h \<notin> set (set_members t2 ?u v2)"
    using list_docs_members [OF l] gone s1(2) assms(5) unfolding v2 by auto
  moreover from this(2) have "?h \<notin> set (set_members t3 ?u v2)" using set_members_shrink [OF assms(6)] by blast
  ultimately have "vs_docs v3 ?h = Some (s1, t1 + expiry_ms cfg)"
    unfolding assms(12) using s1(1) by (simp add: vk_DeleteAllUserSessions_def Let_def delete_docs_other)
  then show ?thesis using assms(3,8,9) s1(3,4) by (simp add: vk_GetSession_def unexpired_def isWithinAbsoluteLifetime_def)
qed

definition demo_server :: session_server where
  "demo_server = snd (vk_CreateSession demo_cfg 0 7 [] [] (demo_texts ''a'')
     \<lparr>vs_docs = Map.empty, vs_tokens = Map.empty, vs_marks = Map.empty, vs_sets = Map.empty\<rparr>)"

lemma demo_server_doc: "unexpired 1 (vs_docs demo_server ''a'') = Some demo_session"
  by (simp add: demo_server_def vk_CreateSession_def addUserSession_def Let_def unexpired_def expiry_ms_def duration_defs
      demo_session_def new_session_def)

theorem revocation_misses_refreshed_witness:
  "map_option ss_user (fst (vk_GetSession demo_cfg 4 ''b''
     (vk_DeleteAllUserSessions 3 7 (snd (vk_ListUserSessions demo_cfg 2 7
       (snd (vk_RefreshSession True demo_cfg 1 ''a'' [] [] (demo_texts ''b'') demo_server))))))) = Some 7"
  using revocation_misses_refreshed [of 1 demo_server demo_cfg "''a''" demo_session "demo_texts ''b''" 2 3 4, OF _ _ _ _ _ _ _ _ _ refl refl refl]
    demo_server_doc
  by (simp add: isWithinAbsoluteLifetime_def expiry_ms_def duration_defs)

text \<open>In Valkey a replayed refresh token is not recognised: the refresh deletes the mapping of the replaced token
  and does not write it again, so presenting the token later looks like an unknown one, and nothing is revoked. The
  store in PostgreSQL answers with the reuse error.\<close>

theorem replayed_token_unknown:
  assumes "unexpired t1 (vs_docs v (sf_hash cfg i)) = Some s" "i \<noteq> []" "isWithinAbsoluteLifetime t1 s (sf_lifetime cfg)"
    "ss_thash s = sf_hash cfg t" "sf_hash cfg (tx_token x) \<noteq> sf_hash cfg t"
    "v1 = snd (vk_RefreshSession True cfg t1 i ip agent x v)"
  shows "vk_RefreshSessionByRefreshToken script cfg t2 t ip agent y v1 = ((None, False), v1)"
proof -
  have "vs_tokens v1 (sf_hash cfg t) = None"
    using assms by (simp add: vk_RefreshSession_def vk_GetSession_def rotateByIDHash_def refresh_script_def Let_def
        addUserSession_def removeUserSession_def)
  then show ?thesis by (simp add: vk_RefreshSessionByRefreshToken_def token_doc_def unexpired_def)
qed

theorem replayed_token_unknown_witness:
  "vk_RefreshSessionByRefreshToken True demo_cfg 2 ''ta'' [] [] (demo_texts ''c'')
     (snd (vk_RefreshSession True demo_cfg 1 ''a'' [] [] (demo_texts ''b'') demo_server)) =
     ((None, False), snd (vk_RefreshSession True demo_cfg 1 ''a'' [] [] (demo_texts ''b'') demo_server)) \<and>
   snd (fst (pg_RefreshSessionByRefreshToken demo_cfg 2 ''ta'' [] [] (demo_texts ''c'')
     (snd (pg_RefreshSession demo_cfg 1 ''a'' [] [] (demo_texts ''b'') [(1, demo_session)]))))"
proof -
  have "snd (fst (pg_RefreshSessionByRefreshToken demo_cfg 2 ''ta'' [] [] (demo_texts ''c'')
     (snd (pg_RefreshSession demo_cfg 1 ''a'' [] [] (demo_texts ''b'') [(1, demo_session)]))))" by code_simp
  moreover have "vk_RefreshSessionByRefreshToken True demo_cfg 2 ''ta'' [] [] (demo_texts ''c'')
     (snd (vk_RefreshSession True demo_cfg 1 ''a'' [] [] (demo_texts ''b'') demo_server)) =
     ((None, False), snd (vk_RefreshSession True demo_cfg 1 ''a'' [] [] (demo_texts ''b'') demo_server))"
    by (rule replayed_token_unknown [OF _ _ _ _ _ refl, where s = demo_session])
      (simp_all add: demo_server_doc isWithinAbsoluteLifetime_def duration_defs)
  ultimately show ?thesis by simp
qed

text \<open>The second way of refreshing, used when the script fails, returns no plain cookie.\<close>

lemma fallback_without_cookie:
  assumes "unexpired now (vs_docs v (sf_hash cfg i)) = Some s" "i \<noteq> []" "isWithinAbsoluteLifetime now s (sf_lifetime cfg)"
  shows "map_option ss_id (fst (vk_RefreshSession False cfg now i ip agent x v)) = Some (ss_id s)"
  using assms by (simp add: vk_RefreshSession_def vk_GetSession_def rotateByIDHash_def refreshSessionFallback_def Let_def)

end
