(* ===== verification/Auth_Correct.thy ===== *)
theory Auth_Correct
  imports User_Admin Session_History
begin

text \<open>
  What authentication promises over whole histories of requests. The session store is the interface
  \<open>session_contract\<close>: operations other than a creation add no session of a user who has none. From it follows that a
  cookie needs a login. The contract is interpreted for the store in PostgreSQL and for the one in Valkey; only the
  former also keeps the promise of \<open>revoking_contract\<close> that deleting a user's sessions leaves him none.
\<close>

subsection \<open>Histories of requests\<close>

datatype auth_op =
    DoLogin draws instant request "(string \<times> string) option"
  | DoLogout instant request
  | DoListSessions instant request auth_ctx
  | DoRevokeSession instant request string auth_ctx
  | DoRevokeOthers instant request auth_ctx
  | DoRefresh draws instant request
  | DoChangePassword draws instant request "(string \<times> string) option" auth_ctx
  | DoChangeEmail draws instant request "(string \<times> string) option" auth_ctx
  | DoUpdateProfile instant request "(string \<times> string \<times> string) option" auth_ctx
  | DoForgot draws instant request "string option"
  | DoReset draws instant request "(string \<times> string) option"
  | DoSetup draws instant request "(string \<times> string \<times> string) option"
  | DoUserTokens draws instant request "(string \<times> string list \<times> string) option" auth_ctx
  | DoUserToken request string auth_ctx
  | DoAdminToken request string auth_ctx
  | DoUsers draws instant request "(string \<times> string \<times> string \<times> string) option" auth_ctx
  | DoUser draws instant request string "user_change option" auth_ctx
  | DoGate instant request "string list" \<comment> \<open>any other request behind the middleware\<close>

fun auth_run :: "'s server \<Rightarrow> auth_op \<Rightarrow> 's world \<Rightarrow> answer \<times> 's world" where
  "auth_run sv (DoLogin d now rq b) w = handleLogin sv d now rq b w"
| "auth_run sv (DoLogout now rq) w = handleLogout sv now rq w"
| "auth_run sv (DoListSessions now rq cx) w = handleListSessions sv now rq cx w"
| "auth_run sv (DoRevokeSession now rq i cx) w = handleRevokeSession sv now rq i cx w"
| "auth_run sv (DoRevokeOthers now rq cx) w = handleRevokeOtherSessions sv now rq cx w"
| "auth_run sv (DoRefresh d now rq) w = handleRefreshSession sv d now rq w"
| "auth_run sv (DoChangePassword d now rq b cx) w = handleChangePassword sv d now rq b cx w"
| "auth_run sv (DoChangeEmail d now rq b cx) w = handleChangeEmail sv d now rq b cx w"
| "auth_run sv (DoUpdateProfile now rq b cx) w = handleUpdateProfile sv now rq b cx w"
| "auth_run sv (DoForgot d now rq b) w = handleForgotPassword sv d now rq b w"
| "auth_run sv (DoReset d now rq b) w = handleResetPassword sv d now rq b w"
| "auth_run sv (DoSetup d now rq b) w = handleSetup sv d now rq b w"
| "auth_run sv (DoUserTokens d now rq b cx) w = handleUserTokens sv d now rq b cx w"
| "auth_run sv (DoUserToken rq i cx) w = handleUserTokenByID sv rq i cx w"
| "auth_run sv (DoAdminToken rq i cx) w = handleAdminTokenByID sv rq i cx w"
| "auth_run sv (DoUsers d now rq b cx) w = handleUsers sv d now rq b cx w"
| "auth_run sv (DoUser d now rq i b cx) w = handleUserByID sv d now rq i b cx w"
| "auth_run sv (DoGate now rq perms) w = AuthMiddleware sv now (\<lambda>cx w. (answered (Message []), w)) perms rq w"

abbreviation auth_do :: "'s server \<Rightarrow> auth_op \<Rightarrow> 's world \<Rightarrow> 's world" where
  "auth_do sv op w \<equiv> snd (auth_run sv op w)"

text \<open>The requests that log user \<open>u\<close> in: his password is right, or he is the first user.\<close>

fun logs_in :: "'s server \<Rightarrow> auth_op \<Rightarrow> 's world \<Rightarrow> uuid \<Rightarrow> bool" where
  "logs_in sv (DoLogin d now rq b) w u =
     (case b of
        None \<Rightarrow> False
      | Some (email, password) \<Rightarrow>
          case fst (Authenticate (sv_passwords sv) (dr_salt d) now email password (w_users w)) of
            Inl e \<Rightarrow> False | Inr r \<Rightarrow> us_id r = u)"
| "logs_in sv (DoSetup d now rq b) w u = (w_users w = [] \<and> dr_key d = u)"
| "logs_in sv op w u = False"

lemma audit_world [simp]:
  "w_users (audit e u b r w) = w_users w" "w_sessions (audit e u b r w) = w_sessions w"
  "w_pats (audit e u b r w) = w_pats w" "w_resets (audit e u b r w) = w_resets w"
  by (simp_all add: audit_def)

lemma other_handlers_sessions [simp]:
  "w_sessions (snd (handleUpdateProfile sv now rq b3 cx w)) = w_sessions w"
  "w_sessions (snd (handleForgotPassword sv d now rq e w)) = w_sessions w"
  "w_sessions (snd (handleUserTokens sv d now rq b4 cx w)) = w_sessions w"
  "w_sessions (snd (handleUserTokenByID sv rq i cx w)) = w_sessions w"
  "w_sessions (snd (handleAdminTokenByID sv rq i cx w)) = w_sessions w"
  "w_sessions (snd (handleUsers sv d now rq b5 cx w)) = w_sessions w"
  "w_sessions (snd (write_change now k fs cx w)) = w_sessions w"
  by (simp_all add: handleUpdateProfile_def handleForgotPassword_def handleUserTokens_def listUserPATs_def createUserPAT_def
      handleUserTokenByID_def handleAdminTokenByID_def pat_revoked_answer_def handleUsers_def write_change_def Let_def
      split: option.split prod.split sum.split bool.split user_error.split)

subsection \<open>The contract of a session store\<close>

locale session_contract =
  fixes ops :: "'s session_ops" and owned :: "'s \<Rightarrow> uuid \<Rightarrow> bool"
  assumes get_owned: "fst (so_get ops now c s) = Some y \<Longrightarrow> owned s (ss_user y)"
    and get_keeps: "owned (snd (so_get ops now c s)) u \<Longrightarrow> owned s u"
    and create_adds: "owned (snd (so_create ops now v ip agent x k s)) u \<Longrightarrow> owned s u \<or> u = v"
    and refresh_keeps: "owned (snd (so_refresh ops now c ip agent x s)) u \<Longrightarrow> owned s u"
    and refresh_token_keeps: "owned (snd (so_refresh_token ops now c ip agent x s)) u \<Longrightarrow> owned s u"
    and delete_keeps: "owned (so_delete ops now c s) u \<Longrightarrow> owned s u"
    and delete_hash_keeps: "owned (so_delete_hash ops now c s) u \<Longrightarrow> owned s u"
    and delete_all_keeps: "owned (so_delete_all ops now v s) u \<Longrightarrow> owned s u"
    and list_keeps: "owned (snd (so_list ops now v s)) u \<Longrightarrow> owned s u"
    and cascade_keeps: "owned (so_cascade ops v s) u \<Longrightarrow> owned s u"
begin

lemma pair_laws:
  "so_get ops now c s = (r, s1) \<Longrightarrow> owned s1 u \<Longrightarrow> owned s u"
  "so_create ops now v ip agent x k s = (r, s1) \<Longrightarrow> owned s1 u \<Longrightarrow> owned s u \<or> u = v"
  "so_refresh ops now c ip agent x s = (r, s1) \<Longrightarrow> owned s1 u \<Longrightarrow> owned s u"
  "so_refresh_token ops now c ip agent x s = (q, s1) \<Longrightarrow> owned s1 u \<Longrightarrow> owned s u"
  "so_list ops now v s = (ss, s1) \<Longrightarrow> owned s1 u \<Longrightarrow> owned s u"
  using get_keeps [of now c s] create_adds [of now v ip agent x k s] refresh_keeps [of now c ip agent x s]
    refresh_token_keeps [of now c ip agent x s] list_keeps [of now v s] by simp_all

lemma fold_delete_keeps:
  "owned (fold (\<lambda>x. so_delete_hash ops now (f x)) xs s) u \<Longrightarrow> owned s u"
  by (induction xs arbitrary: s) (auto dest: delete_hash_keeps)

lemma login_adds:
  assumes e: "sv_sessions sv = ops" and o: "owned (w_sessions (snd (handleLogin sv d now rq b w))) u"
  shows "owned (w_sessions w) u \<or> logs_in sv (DoLogin d now rq b) w u"
  using o by (auto simp: handleLogin_def e Let_def split: if_splits prod.splits option.splits sum.splits dest: pair_laws)

lemma setup_adds:
  assumes e: "sv_sessions sv = ops" and o: "owned (w_sessions (snd (handleSetup sv d now rq b w))) u"
  shows "owned (w_sessions w) u \<or> logs_in sv (DoSetup d now rq b) w u"
  using o by (auto simp: handleSetup_def e Let_def CreateUser_def CountUsers_def
      split: if_splits prod.splits option.splits sum.splits user_error.splits dest: pair_laws)

lemma refresh_by_token_keeps:
  assumes e: "sv_sessions sv = ops" and o: "owned (w_sessions (snd (refresh_by_token sv d now rq a w))) u"
  shows "owned (w_sessions w) u"
  using o by (auto simp: refresh_by_token_def finishSessionRefresh_def e Let_def
      split: if_splits prod.splits option.splits dest: pair_laws delete_all_keeps)

lemma refresh_keeps_world:
  assumes e: "sv_sessions sv = ops" and o: "owned (w_sessions (snd (handleRefreshSession sv d now rq w))) u"
  shows "owned (w_sessions w) u"
  using o by (auto simp: handleRefreshSession_def finishSessionRefresh_def e Let_def
      split: if_splits prod.splits option.splits dest: pair_laws delete_all_keeps dest!: refresh_by_token_keeps [OF e])

lemma session_handlers_keep:
  assumes e: "sv_sessions sv = ops"
  shows "owned (w_sessions (snd (handleLogout sv now rq w))) u \<Longrightarrow> owned (w_sessions w) u"
    "owned (w_sessions (snd (handleListSessions sv now rq cx w))) u \<Longrightarrow> owned (w_sessions w) u"
    "owned (w_sessions (snd (handleRevokeSession sv now rq i cx w))) u \<Longrightarrow> owned (w_sessions w) u"
    "owned (w_sessions (snd (handleRevokeOtherSessions sv now rq cx w))) u \<Longrightarrow> owned (w_sessions w) u"
    "owned (w_sessions (snd (AuthMiddleware sv now (\<lambda>cx w. (a, w)) perms rq w))) u \<Longrightarrow> owned (w_sessions w) u"
  by (auto simp: handleLogout_def handleListSessions_def handleRevokeSession_def handleRevokeOtherSessions_def AuthMiddleware_def
      e Let_def split: if_splits prod.splits option.splits sum.splits
      dest!: delete_hash_keeps fold_delete_keeps delete_keeps dest: pair_laws)

lemma password_handlers_keep:
  assumes e: "sv_sessions sv = ops"
  shows "owned (w_sessions (snd (handleChangePassword sv d now rq b cx w))) u \<Longrightarrow> owned (w_sessions w) u"
    "owned (w_sessions (snd (handleChangeEmail sv d now rq b cx w))) u \<Longrightarrow> owned (w_sessions w) u"
    "owned (w_sessions (snd (handleResetPassword sv d now rq b w))) u \<Longrightarrow> owned (w_sessions w) u"
    "owned (w_sessions (snd (delete_user sv k cx w))) u \<Longrightarrow> owned (w_sessions w) u"
  by (auto simp: handleChangePassword_def handleChangeEmail_def handleResetPassword_def delete_user_def
      e Let_def split: if_splits prod.splits option.splits sum.splits dest: delete_all_keeps cascade_keeps)

lemma user_handler_keeps:
  assumes e: "sv_sessions sv = ops" and o: "owned (w_sessions (snd (handleUserByID sv d now rq i b cx w))) u"
  shows "owned (w_sessions w) u"
  using o by (auto simp: handleUserByID_def split: if_splits option.splits sum.splits dest: password_handlers_keep(4) [OF e])

lemma step_owned:
  assumes e: "sv_sessions sv = ops" and o: "owned (w_sessions (auth_do sv op w)) u"
  shows "owned (w_sessions w) u \<or> logs_in sv op w u"
  using o by (cases op) (auto simp del: logs_in.simps(1,2) dest: login_adds [OF e] setup_adds [OF e] refresh_keeps_world [OF e]
      session_handlers_keep [OF e] password_handlers_keep [OF e] user_handler_keeps [OF e])

lemma history_owned:
  assumes e: "sv_sessions sv = ops" and o: "owned (w_sessions (fold (auth_do sv) hist w)) u"
  shows "owned (w_sessions w) u \<or>
    (\<exists>before op after. hist = before @ op # after \<and> logs_in sv op (fold (auth_do sv) before w) u)"
  using o
proof (induction hist rule: rev_induct)
  case (snoc op hist)
  from snoc.prems have "owned (w_sessions (auth_do sv op (fold (auth_do sv) hist w))) u" by simp
  from step_owned [OF e this] show ?case
  proof
    assume "owned (w_sessions (fold (auth_do sv) hist w)) u"
    from snoc.IH [OF this] show ?thesis by (metis append_Cons append_assoc)
  next
    assume "logs_in sv op (fold (auth_do sv) hist w) u"
    then show ?thesis by blast
  qed
qed simp

lemma whoami_owned:
  assumes e: "sv_sessions sv = ops" and c: "\<not> go_has_prefix (ht_auth rq) ''Bearer alga_pat_''"
    and a: "fst (AuthMiddleware sv now (handleGetCurrentUser rq) perms rq w) = (Inr (Profile r ps), cs)"
  shows "owned (w_sessions w) (us_id r)"
proof -
  from a c have "\<exists>i y. fst (so_get ops now i (w_sessions w)) = Some y \<and> user_GetByID (ss_user y) (w_users w) = Some r"
    by (auto simp: AuthMiddleware_def handleGetCurrentUser_def e fail_def answered_def Let_def
        split: if_splits option.splits prod.splits intro!: exI [of _ "the (ht_session rq)"])
  then obtain i y where y: "fst (so_get ops now i (w_sessions w)) = Some y" and r: "user_GetByID (ss_user y) (w_users w) = Some r"
    by blast
  from r have "us_id r = ss_user y" by (auto simp: user_GetByID_def find_Some_iff)
  with get_owned [OF y] show ?thesis by simp
qed

text \<open>A request that passes as user \<open>r\<close> by cookie was preceded by a login of \<open>r\<close>, unless he had a session to begin with.\<close>

lemma passes_after_login:
  assumes "sv_sessions sv = ops" "\<not> owned (w_sessions w) (us_id r)" "\<not> go_has_prefix (ht_auth rq) ''Bearer alga_pat_''"
    "fst (AuthMiddleware sv now (handleGetCurrentUser rq) perms rq (fold (auth_do sv) hist w)) = (Inr (Profile r ps), cs)"
  shows "\<exists>before op after. hist = before @ op # after \<and> logs_in sv op (fold (auth_do sv) before w) (us_id r)"
  using history_owned [OF assms(1) whoami_owned [OF assms(1,3,4)]] assms(2) by blast

end

text \<open>A store that also ends all sessions of a user when it is asked to.\<close>

locale revoking_contract = session_contract +
  assumes delete_all_ends: "\<not> owned (so_delete_all ops now u s) u"
begin

lemma change_password_ends:
  assumes "sv_sessions sv = ops" "cx_user cx = Some u" "handleChangePassword sv d now rq b cx w = ((Inr m, cs), w1)"
  shows "\<not> owned (w_sessions w1) (us_id u)"
  using assms(2,3) delete_all_ends [of now "us_id u" "w_sessions w"]
  by (auto simp: handleChangePassword_def assms(1) fail_def status_ok_def answered_def Let_def
      split: if_splits option.splits prod.splits sum.splits)

lemma reset_password_ends:
  assumes "sv_sessions sv = ops" "handleResetPassword sv d now rq (Some (tok, new)) w = ((Inr m, cs), w1)"
    "reset_GetByTokenHash (th_hmac (sv_hashes sv) tok) (w_resets w) = Some q"
  shows "\<not> owned (w_sessions w1) (rs_user q)"
  using assms(2,3) delete_all_ends [of now "rs_user q" "w_sessions w"]
  by (auto simp: handleResetPassword_def assms(1) fail_def status_ok_def answered_def Let_def user_GetByID_def find_Some_iff
      split: if_splits option.splits prod.splits sum.splits)

end

subsection \<open>The two stores\<close>

definition pg_owned :: "session_table \<Rightarrow> uuid \<Rightarrow> bool" where
  "pg_owned tab u = list_ex (\<lambda>r. ss_user (snd r) = u) tab"

lemma pg_owned_iff: "pg_owned tab u \<longleftrightarrow> (\<exists>k s. (k, s) \<in> set tab \<and> ss_user s = u)"
  unfolding pg_owned_def list_ex_iff by force

lemma pg_ownedI: "(k, s) \<in> set tab \<Longrightarrow> pg_owned tab (ss_user s)"
  unfolding pg_owned_iff by blast

lemma pg_owned_filter: "pg_owned (filter P tab) u \<Longrightarrow> pg_owned tab u"
  by (auto simp: pg_owned_iff)

lemma pg_owned_rotate: "row \<in> set tab \<Longrightarrow> pg_owned (snd (rotateSessionRow cfg now ip agent x row tab)) u \<Longrightarrow> pg_owned tab u"
  by (auto simp: rotateSessionRow_def pg_owned_iff Let_def split: prod.splits if_splits) blast+

interpretation pg: revoking_contract "pg_sessions cfg" pg_owned for cfg
proof
  show "fst (so_get (pg_sessions cfg) now c s) = Some y \<Longrightarrow> pg_owned s (ss_user y)" for now c s y
    by (auto simp: pg_sessions_def pg_GetSession_def split: if_splits option.splits dest!: find_in_table) (blast intro: pg_ownedI)
  show "pg_owned (snd (so_get (pg_sessions cfg) now c s)) u \<Longrightarrow> pg_owned s u" for now c s u
    by (auto simp: pg_sessions_def pg_GetSession_def pg_DeleteSession_def split: if_splits option.splits dest: pg_owned_filter)
  show "pg_owned (snd (so_create (pg_sessions cfg) now v ip agent x k s)) u \<Longrightarrow> pg_owned s u \<or> u = v" for now v ip agent x k s u
    by (auto simp: pg_sessions_def pg_CreateSession_def pg_owned_iff stored_def new_session_def Let_def split: if_splits)
  show "pg_owned (snd (so_refresh (pg_sessions cfg) now c ip agent x s)) u \<Longrightarrow> pg_owned s u" for now c ip agent x s u
    by (auto simp: pg_sessions_def pg_RefreshSession_def split: if_splits option.splits dest!: find_in_table dest: pg_owned_rotate)
  show "pg_owned (snd (so_refresh_token (pg_sessions cfg) now c ip agent x s)) u \<Longrightarrow> pg_owned s u" for now c ip agent x s u
    by (auto simp: pg_sessions_def pg_RefreshSessionByRefreshToken_def split: if_splits option.splits prod.splits dest!: find_in_table)
      (metis pg_owned_rotate snd_conv)
  show "pg_owned (snd (so_list (pg_sessions cfg) now v s)) u \<Longrightarrow> pg_owned s u" for now v s u by (simp add: pg_sessions_def)
  show "\<not> pg_owned (so_delete_all (pg_sessions cfg) now u s) u" for now u s
    by (simp add: pg_sessions_def pg_DeleteAllUserSessions_def pg_owned_iff)
qed (auto simp: pg_sessions_def pg_DeleteSession_def pg_DeleteSessionByIDHash_def pg_DeleteAllUserSessions_def
    split: if_splits dest: pg_owned_filter)

text \<open>In Valkey what counts are the documents, expired or not.\<close>

definition doc_owned :: "(string \<rightharpoonup> session \<times> instant) \<Rightarrow> uuid \<Rightarrow> bool" where
  "doc_owned m u = (\<exists>h s t. m h = Some (s, t) \<and> ss_user s = u)"

definition vk_owned :: "session_server \<Rightarrow> uuid \<Rightarrow> bool" where
  "vk_owned v u = doc_owned (vs_docs v) u"

lemma doc_owned_upd: "doc_owned (m(h \<mapsto> (s, t))) u \<Longrightarrow> doc_owned m u \<or> ss_user s = u"
  by (auto simp: doc_owned_def split: if_splits)

lemma doc_owned_del: "doc_owned (m(h := None)) u \<Longrightarrow> doc_owned m u"
  by (auto simp: doc_owned_def split: if_splits)

lemma unexpired_owned: "unexpired now (m h) = Some s \<Longrightarrow> doc_owned m (ss_user s)"
  unfolding unexpired_def doc_owned_def by (auto split: option.splits prod.splits if_splits)

lemma addUserSession_docs [simp]: "vs_docs (addUserSession cfg now u h v) = vs_docs v"
  by (simp add: addUserSession_def)

lemma vk_delete_keeps: "vk_owned (vk_delete now h v) u \<Longrightarrow> vk_owned v u"
  by (auto simp: vk_delete_def vk_owned_def split: option.splits dest: doc_owned_del)

lemma vk_get_keeps: "vk_owned (snd (vk_GetSession cfg now c v)) u \<Longrightarrow> vk_owned v u"
  by (auto simp: vk_GetSession_def vk_DeleteSession_def split: option.splits if_splits dest: vk_delete_keeps)

lemma vk_get_doc: "vk_GetSession cfg now c v = (Some s, v1) \<Longrightarrow> unexpired now (vs_docs v (sf_hash cfg c)) = Some s \<and> v1 = v"
  by (auto simp: vk_GetSession_def split: option.splits if_splits)

lemma vk_rotate_keeps:
  assumes "unexpired now (vs_docs v h) = Some s" "vk_owned (snd (rotateByIDHash script cfg now h s ip agent x v)) u"
  shows "vk_owned v u"
proof (cases script)
  case True
  from assms(2) have "doc_owned (vs_docs v) u \<or> ss_user s = u"
    by (auto simp: rotateByIDHash_def refresh_script_def True assms(1) vk_owned_def Let_def
        dest!: doc_owned_del doc_owned_upd)
  with unexpired_owned [of now "vs_docs v" h s] assms(1) show ?thesis by (auto simp: vk_owned_def)
next
  case False
  from assms(2) have "doc_owned (vs_docs v) u \<or> ss_user s = u"
    by (auto simp: rotateByIDHash_def refreshSessionFallback_def False vk_owned_def Let_def dest!: doc_owned_upd)
  with unexpired_owned [of now "vs_docs v" h s] assms(1) show ?thesis by (auto simp: vk_owned_def)
qed

lemma list_docs_docs: "vs_docs (snd (list_docs cfg now u hs v)) = vs_docs v"
  using list_docs_members [of cfg now u hs v] by (metis prod.collapse)

lemma delete_docs_owned: "vk_owned (delete_docs now hs v) u \<Longrightarrow> vk_owned v u"
proof (induction hs arbitrary: v)
  case (Cons h hs)
  from Cons.prems have "vk_owned (delete_docs now (h # hs) v) u" .
  then have "doc_owned ((vs_docs v)(h := None)) u"
    by (auto simp: Let_def vk_owned_def split: option.splits dest!: Cons.IH [unfolded vk_owned_def])
  then show ?case by (auto simp: vk_owned_def dest: doc_owned_del)
qed simp

lemma token_doc_found: "token_doc now th v = Some (h, s) \<Longrightarrow> unexpired now (vs_docs v h) = Some s"
  by (auto simp: token_doc_def split: option.splits)

interpretation vk: session_contract "vk_sessions script cfg" vk_owned for script cfg
proof
  show "fst (so_get (vk_sessions script cfg) now c s) = Some y \<Longrightarrow> vk_owned s (ss_user y)" for now c s y
    by (cases "vk_GetSession cfg now c s") (auto simp: vk_sessions_def vk_owned_def dest!: vk_get_doc dest: unexpired_owned)
  show "vk_owned (snd (so_create (vk_sessions script cfg) now v ip agent x k s)) u \<Longrightarrow> vk_owned s u \<or> u = v" for now v ip agent x k s u
    by (auto simp: vk_sessions_def vk_CreateSession_def vk_owned_def new_session_def Let_def dest!: doc_owned_upd)
  show "vk_owned (snd (so_refresh (vk_sessions script cfg) now c ip agent x s)) u \<Longrightarrow> vk_owned s u" for now c ip agent x s u
    using vk_get_keeps [of cfg now c s u]
    by (auto simp: vk_sessions_def vk_RefreshSession_def split: if_splits option.splits prod.splits dest!: vk_get_doc vk_rotate_keeps)
  show "vk_owned (snd (so_refresh_token (vk_sessions script cfg) now c ip agent x s)) u \<Longrightarrow> vk_owned s u" for now c ip agent x s u
    by (auto simp: vk_sessions_def vk_RefreshSessionByRefreshToken_def vk_DeleteSession_def
        split: if_splits option.splits prod.splits dest!: token_doc_found dest: vk_delete_keeps)
      (metis vk_rotate_keeps snd_conv)
  show "vk_owned (snd (so_get (vk_sessions script cfg) now c s)) u \<Longrightarrow> vk_owned s u" for now c s u
    using vk_get_keeps [of cfg now c s u] by (simp add: vk_sessions_def)
  show "vk_owned (so_delete_all (vk_sessions script cfg) now v s) u \<Longrightarrow> vk_owned s u" for now v s u
    using delete_docs_owned [of now _ s u] by (auto simp: vk_sessions_def vk_DeleteAllUserSessions_def Let_def vk_owned_def)
  show "vk_owned (snd (so_list (vk_sessions script cfg) now v s)) u \<Longrightarrow> vk_owned s u" for now v s u
    using list_docs_docs [of cfg now v "set_members now v s" s]
    by (simp add: vk_sessions_def vk_ListUserSessions_def vk_owned_def split: prod.splits)
qed (auto simp: vk_sessions_def vk_DeleteSession_def vk_DeleteSessionByIDHash_def split: if_splits dest: vk_delete_keeps)

subsection \<open>Properties\<close>


text \<open>The same with the sessions in Valkey.\<close>

lemma cookie_needs_login_valkey:
  assumes "sv_sessions sv = vk_sessions script cfg" "vs_docs (w_sessions w) = Map.empty"
    "\<not> go_has_prefix (ht_auth rq) ''Bearer alga_pat_''"
    "fst (AuthMiddleware sv now (handleGetCurrentUser rq) perms rq (fold (auth_do sv) hist w)) = (Inr (Profile r ps), cs)"
  shows "\<exists>before op after. hist = before @ op # after \<and> logs_in sv op (fold (auth_do sv) before w) (us_id r)"
  by (rule vk.passes_after_login [OF assms(1) _ assms(3,4)]) (simp add: assms(2) vk_owned_def doc_owned_def)


subsection \<open>An example\<close>

definition demo_user :: "uuid \<Rightarrow> string \<Rightarrow> string \<Rightarrow> user_row" where
  "demo_user k email role =
     \<lparr>us_id = k, us_full_name = [], us_phone = [], us_country = [], us_email = email, us_password = ''#Secret-9'',
      us_role = role, us_created = 0, us_updated = 0, us_google = [], us_slack = [], us_slack_name = [], us_failed = 0,
      us_locked = None, us_last_failed = None, us_last_login = None, us_last_ip = [], us_voice_opt_out = False,
      us_prefs = None\<rparr>"

definition demo_passwords :: password_scheme where
  "demo_passwords = \<lparr>ps_derive = (\<lambda>salt p. ''#'' @ p), ps_compare = (\<lambda>h p. Some (h = ''#'' @ p, False))\<rparr>"

definition demo_hashes :: token_hashes where
  "demo_hashes = \<lparr>th_hmac = (\<lambda>t. t), th_sha = (\<lambda>t. t)\<rparr>"

definition demo_server_pg :: "session_table server" where
  "demo_server_pg =
     \<lparr>sv_sessions = pg_sessions demo_cfg, sv_passwords = demo_passwords, sv_hashes = demo_hashes,
      sv_limits = \<lparr>ll_max = 5, ll_window = 15 * go_minute, ll_lockout = 30 * go_minute\<rparr>,
      sv_parse_uuid = (\<lambda>t. Some (length t)), sv_parse_time = (\<lambda>t. None), sv_mailer = True,
      sv_phones = \<lparr>ph_parse = (\<lambda>t. None), ph_valid = (\<lambda>t. False), ph_e164 = (\<lambda>t. t), ph_region = (\<lambda>t. t), ph_regions = (\<lambda>t. [])\<rparr>\<rparr>"

definition demo_world :: "user_table \<Rightarrow> session_table world" where
  "demo_world us =
     \<lparr>w_users = us, w_sessions = [], w_pats = [], w_agents = [], w_resets = [], w_logins = Map.empty, w_audit = [], w_mail = []\<rparr>"

definition demo_request :: "string \<Rightarrow> string option \<Rightarrow> request" where
  "demo_request m c =
     \<lparr>ht_method = m, ht_auth = [], ht_csrf = ''x'', ht_requested_with = [], ht_session = c, ht_refresh = None,
      ht_csrf_cookie = Some ''x'', ht_ip = ''10.0.0.1'', ht_agent = []\<rparr>"

definition demo_draws :: "string \<Rightarrow> uuid \<Rightarrow> draws" where
  "demo_draws t k = \<lparr>dr_texts = demo_texts t, dr_csrf = ''x'', dr_key = k, dr_salt = [], dr_token = ''tok'' @ t\<rparr>"

lemmas demo_defs = demo_user_def demo_passwords_def demo_hashes_def demo_server_pg_def demo_world_def demo_request_def
  demo_draws_def

definition demo_login :: auth_op where
  "demo_login = DoLogin (demo_draws ''a'' 1) 0 (demo_request ''POST'' None) (Some (''a@b'', ''Secret-9''))"

definition demo_start :: "session_table world" where
  "demo_start = demo_world [demo_user 7 ''a@b'' ''viewer'']"

lemma demo_profile:
  "case fst (AuthMiddleware demo_server_pg 9 (handleGetCurrentUser (demo_request ''GET'' (Some ''a''))) [] (demo_request ''GET'' (Some ''a''))
      (auth_do demo_server_pg demo_login demo_start)) of
     (Inr (Profile r ps), cs) \<Rightarrow> us_id r = 7 | _ \<Rightarrow> False"
  by code_simp


definition demo_change :: "answer \<times> session_table world" where
  "demo_change = handleChangePassword demo_server_pg (demo_draws ''b'' 2) 1 (demo_request ''POST'' (Some ''a''))
     (Some (''Secret-9'', ''Secret-10'')) \<lparr>cx_user = Some (demo_user 7 ''a@b'' ''viewer''), cx_method = [], cx_session = ''a''\<rparr>
     (auth_do demo_server_pg demo_login demo_start)"

definition demo_relogin :: auth_op where
  "demo_relogin = DoLogin (demo_draws ''c'' 3) 2 (demo_request ''POST'' None) (Some (''a@b'', ''Secret-10''))"

lemma demo_after_change:
  "(case fst demo_change of (Inr m, cs) \<Rightarrow> True | _ \<Rightarrow> False) \<and>
   (case fst (AuthMiddleware demo_server_pg 9 (handleGetCurrentUser (demo_request ''GET'' (Some ''c''))) [] (demo_request ''GET'' (Some ''c''))
      (auth_do demo_server_pg demo_relogin (snd demo_change))) of
     (Inr (Profile r ps), cs) \<Rightarrow> us_id r = 7 | _ \<Rightarrow> False)"
  by code_simp


end
