(* ===== verification/Tokens_Correct.thy ===== *)
theory Tokens_Correct
  imports Tokens
begin

text \<open>
  Where accepted tokens come from. A locale states the interface of a store of bearer tokens: what a token grants,
  how an operation changes the grants, and that only a token with a grant is accepted. Its history lemma is proved
  once and interpreted for the three stores.
\<close>

subsection \<open>The interface\<close>

text \<open>\<open>issues\<close> is the grant an operation may add; \<open>revokes\<close> says that it ends a grant.\<close>

locale bearer_store =
  fixes accepts :: "instant \<Rightarrow> string \<Rightarrow> 't \<Rightarrow> (uuid \<times> 'g) option"
    and step :: "'op \<Rightarrow> 't \<Rightarrow> 't"
    and grant :: "'t \<Rightarrow> uuid \<Rightarrow> 'g \<Rightarrow> bool"
    and issues :: "'op \<Rightarrow> (uuid \<times> 'g) option"
    and revokes :: "'op \<Rightarrow> uuid \<Rightarrow> 'g \<Rightarrow> bool"
    and opens :: "string \<Rightarrow> 'g \<Rightarrow> bool"
  assumes accepts_granted: "accepts now text t = Some (k, g) \<Longrightarrow> grant t k g \<and> opens text g"
    and step_grant: "grant (step op t) k g \<Longrightarrow> grant t k g \<and> \<not> revokes op k g \<or> issues op = Some (k, g)"
begin

lemma grant_history:
  "grant (fold step ops t) k g \<Longrightarrow>
   grant t k g \<and> list_all (\<lambda>op. \<not> revokes op k g) ops \<or>
   (\<exists>before op after. ops = before @ op # after \<and> issues op = Some (k, g) \<and> list_all (\<lambda>op. \<not> revokes op k g) after)"
proof (induction ops rule: rev_induct)
  case (snoc op ops)
  from snoc.prems have "grant (step op (fold step ops t)) k g" by simp
  from step_grant [OF this] show ?case
  proof (elim disjE conjE)
    assume "issues op = Some (k, g)"
    then show ?thesis by (intro disjI2 exI [of _ ops] exI [of _ op] exI [of _ "[]"]) simp
  next
    assume kept: "\<not> revokes op k g" and "grant (fold step ops t) k g"
    from snoc.IH [OF this(2)] show ?thesis
    proof (elim disjE conjE exE)
      assume "grant t k g" "list_all (\<lambda>op. \<not> revokes op k g) ops"
      with kept show ?thesis by simp
    next
      fix before o1 after
      assume "ops = before @ o1 # after" "issues o1 = Some (k, g)" "list_all (\<lambda>op. \<not> revokes op k g) after"
      with kept show ?thesis by (intro disjI2 exI [of _ before] exI [of _ o1] exI [of _ "after @ [op]"]) simp
    qed
  qed
qed simp

lemma accepted_was_issued:
  assumes "accepts now text (fold step ops t) = Some (k, g)" "\<not> grant t k g"
  shows "opens text g \<and>
    (\<exists>before op after. ops = before @ op # after \<and> issues op = Some (k, g) \<and> list_all (\<lambda>op. \<not> revokes op k g) after)"
  using accepts_granted [OF assms(1)] grant_history [of ops t k g] assms(2) by blast

end

lemma find_row: "List.find P xs = Some x \<Longrightarrow> x \<in> set xs \<and> P x"
  by (auto simp: find_Some_iff)

lemma list_ex_map_same: "(\<And>x. P (f x) = P x) \<Longrightarrow> list_ex P (map f xs) = list_ex P xs"
  by (induction xs) simp_all

subsection \<open>Personal access tokens\<close>

datatype pat_op =
    PCreate instant uuid string uuid string "string list" "instant option" \<comment> \<open>time, id, text, user, name, permissions, expiry\<close>
  | PRevoke uuid uuid
  | PRevokeAdmin uuid
  | PUse instant string

fun pat_step :: "token_hashes \<Rightarrow> pat_op \<Rightarrow> pat_table \<Rightarrow> pat_table" where
  "pat_step h (PCreate now key text user name perms e) tab = snd (pat_CreateToken h now key text user name perms e tab)"
| "pat_step h (PRevoke key user) tab = snd (pat_RevokeToken key user tab)"
| "pat_step h (PRevokeAdmin key) tab = snd (pat_RevokeTokenAdmin key tab)"
| "pat_step h (PUse now text) tab = snd (pat_ValidateToken h now text tab)"

text \<open>A grant: user, digest, permissions, expiry.\<close>

type_synonym pat_grant = "uuid \<times> string \<times> string list \<times> instant option"

definition pat_granted :: "pat_table \<Rightarrow> uuid \<Rightarrow> pat_grant \<Rightarrow> bool" where
  "pat_granted tab k g =
     list_ex (\<lambda>r. pt_id r = k \<and> \<not> pt_revoked r \<and> (pt_user r, pt_hash r, pt_perms r, pt_expires r) = g) tab"

fun pat_issues :: "token_hashes \<Rightarrow> pat_op \<Rightarrow> (uuid \<times> pat_grant) option" where
  "pat_issues h (PCreate now key text user name perms e) = Some (key, user, th_hmac h text, perms, e)"
| "pat_issues h op = None"

fun pat_ends :: "pat_op \<Rightarrow> uuid \<Rightarrow> pat_grant \<Rightarrow> bool" where
  "pat_ends (PRevoke key user) k g = (key = k \<and> user = fst g)"
| "pat_ends (PRevokeAdmin key) k g = (key = k)"
| "pat_ends op k g = False"

definition pat_accepts :: "token_hashes \<Rightarrow> instant \<Rightarrow> string \<Rightarrow> pat_table \<Rightarrow> (uuid \<times> pat_grant) option" where
  "pat_accepts h now text tab =
     map_option (\<lambda>r. (pt_id r, pt_user r, pt_hash r, pt_perms r, pt_expires r)) (fst (pat_ValidateToken h now text tab))"

lemma pat_validate_row:
  "fst (pat_ValidateToken h now text tab) = Some c \<Longrightarrow>
   c \<in> set tab \<and> pt_hash c = th_hmac h text \<and> \<not> pt_revoked c \<and> \<not> lapsed now (pt_expires c)"
  by (auto simp: pat_ValidateToken_def dest!: find_row split: option.splits)

lemma pat_used_granted [simp]: "pat_granted (pat_updateLastUsed now c tab) k g = pat_granted tab k g"
  unfolding pat_updateLastUsed_def pat_granted_def by (cases "use_due now (pt_used c)") (simp_all, rule list_ex_map_same, simp)

lemma pat_revoked_granted:
  "pat_granted (snd (pat_revoke P tab)) k g \<Longrightarrow>
   pat_granted tab k g \<and> (\<exists>r \<in> set tab. \<not> P r \<and> pt_id r = k \<and> (pt_user r, pt_hash r, pt_perms r, pt_expires r) = g)"
  by (auto simp: pat_revoke_def pat_granted_def list_ex_iff Let_def split: if_splits)

interpretation pats: bearer_store "pat_accepts h" "pat_step h" pat_granted "pat_issues h" pat_ends "\<lambda>text g. fst (snd g) = th_hmac h text"
  for h
proof
  fix now tok tab k g
  assume "pat_accepts h now tok tab = Some (k, g)"
  then obtain c where "fst (pat_ValidateToken h now tok tab) = Some c"
    "k = pt_id c" "g = (pt_user c, pt_hash c, pt_perms c, pt_expires c)" by (auto simp: pat_accepts_def)
  with pat_validate_row [OF this(1)] show "pat_granted tab k g \<and> fst (snd g) = th_hmac h tok"
    by (auto simp: pat_granted_def list_ex_iff)
next
  fix op tab k g
  assume g: "pat_granted (pat_step h op tab) k g"
  show "pat_granted tab k g \<and> \<not> pat_ends op k g \<or> pat_issues h op = Some (k, g)"
  proof (cases op)
    case (PCreate now key tok user name perms e)
    with g show ?thesis by (auto simp: pat_CreateToken_def pat_granted_def Let_def split: if_splits)
  next
    case (PRevoke key user)
    with g have "pat_granted (snd (pat_revoke (\<lambda>r. pt_id r = key \<and> pt_user r = user) tab)) k g" by (simp add: pat_RevokeToken_def)
    from pat_revoked_granted [OF this] PRevoke show ?thesis by auto
  next
    case (PRevokeAdmin key)
    with g have "pat_granted (snd (pat_revoke (\<lambda>r. pt_id r = key) tab)) k g" by (simp add: pat_RevokeTokenAdmin_def)
    from pat_revoked_granted [OF this] PRevokeAdmin show ?thesis by auto
  next
    case (PUse now tok)
    with g show ?thesis by (auto simp: pat_ValidateToken_def split: option.splits)
  qed
qed

subsection \<open>Tokens of agents\<close>

datatype agent_op =
    ACreate instant uuid string string "instant option" string "string list" \<comment> \<open>time, id, text, name, expiry, type, capabilities\<close>
  | ARegenerate instant uuid string
  | ARevoke instant uuid
  | AConfig instant uuid string "route_condition list" "string list"
  | AEnable instant uuid bool
  | AUse instant string

fun agent_step :: "token_hashes \<Rightarrow> agent_op \<Rightarrow> agent_table \<Rightarrow> agent_table" where
  "agent_step h (ACreate now key t name e ty caps) tab = snd (agent_CreateToken h now key t name e ty caps tab)"
| "agent_step h (ARegenerate now key t) tab = snd (agent_RegenerateToken h now key t tab)"
| "agent_step h (ARevoke now key) tab = snd (agent_RevokeToken now key tab)"
| "agent_step h (AConfig now key scope sels caps) tab = snd (UpdateAgentConfig now key scope sels caps tab)"
| "agent_step h (AEnable now key b) tab = snd (SetAgentEnabled now key b tab)"
| "agent_step h (AUse now t) tab = snd (agent_ValidateToken h now t tab)"

text \<open>The grant of an agent is its digest; revoking is final, whatever is enabled afterwards.\<close>

definition agent_granted :: "agent_table \<Rightarrow> uuid \<Rightarrow> string \<Rightarrow> bool" where
  "agent_granted tab k g = list_ex (\<lambda>r. at_id r = k \<and> \<not> at_revoked r \<and> at_hash r = g) tab"

fun agent_issues :: "token_hashes \<Rightarrow> agent_op \<Rightarrow> (uuid \<times> string) option" where
  "agent_issues h (ACreate now key t name e ty caps) = Some (key, th_hmac h t)"
| "agent_issues h (ARegenerate now key t) = Some (key, th_hmac h t)"
| "agent_issues h op = None"

fun agent_ends :: "agent_op \<Rightarrow> uuid \<Rightarrow> string \<Rightarrow> bool" where
  "agent_ends (ARevoke now key) k g = (key = k)"
| "agent_ends op k g = False"

definition agent_accepts :: "token_hashes \<Rightarrow> instant \<Rightarrow> string \<Rightarrow> agent_table \<Rightarrow> (uuid \<times> string) option" where
  "agent_accepts h now t tab = map_option (\<lambda>r. (at_id r, at_hash r)) (fst (agent_ValidateToken h now t tab))"

lemma agent_validate_row:
  "fst (agent_ValidateToken h now t tab) = Some c \<Longrightarrow>
   \<exists>r \<in> set tab. at_id r = at_id c \<and> at_hash r = at_hash c \<and> at_hash c = th_hmac h t \<and> \<not> at_revoked r \<and> at_enabled r \<and>
     \<not> lapsed now (at_expires r)"
  by (auto simp: agent_ValidateToken_def dest!: find_row split: option.splits if_splits)

lemma change_agent_granted:
  "(\<And>r. P r \<Longrightarrow> at_id (f r) = at_id r \<and> at_hash (f r) = at_hash r \<and> at_revoked (f r) = at_revoked r) \<Longrightarrow>
   agent_granted (change_agent P f tab) k g = agent_granted tab k g"
  unfolding agent_granted_def change_agent_def by (rule list_ex_map_same) simp

interpretation agents: bearer_store "agent_accepts h" "agent_step h" agent_granted "agent_issues h" agent_ends "\<lambda>t g. g = th_hmac h t"
  for h
proof
  fix now t tab k g
  assume "agent_accepts h now t tab = Some (k, g)"
  then obtain c where "fst (agent_ValidateToken h now t tab) = Some c" "k = at_id c" "g = at_hash c"
    by (auto simp: agent_accepts_def)
  with agent_validate_row [OF this(1)] show "agent_granted tab k g \<and> g = th_hmac h t"
    by (auto simp: agent_granted_def list_ex_iff)
next
  fix op tab k g
  assume g: "agent_granted (agent_step h op tab) k g"
  show "agent_granted tab k g \<and> \<not> agent_ends op k g \<or> agent_issues h op = Some (k, g)"
  proof (cases op)
    case (ACreate now key t name e ty caps)
    with g show ?thesis
      by (auto simp: agent_CreateToken_def agent_granted_def Let_def split: option.splits if_splits)
  next
    case (ARegenerate now key t)
    let ?f = "\<lambda>r. r\<lparr>at_hash := th_hmac h t, at_prefix := lookupPrefix h t, at_used := None, at_updated := now\<rparr>"
    have "agent_step h op tab = tab \<or> agent_step h op tab = change_agent (\<lambda>r. at_id r = key) ?f tab"
      unfolding ARegenerate by (simp add: agent_RegenerateToken_def Let_def split: option.split)
    then show ?thesis
    proof
      assume "agent_step h op tab = tab"
      with g ARegenerate show ?thesis by simp
    next
      assume "agent_step h op tab = change_agent (\<lambda>r. at_id r = key) ?f tab"
      with g obtain r where r: "r \<in> set tab" "at_id (if at_id r = key then ?f r else r) = k"
        "\<not> at_revoked (if at_id r = key then ?f r else r)" "at_hash (if at_id r = key then ?f r else r) = g"
        by (auto simp only: agent_granted_def change_agent_def list_ex_iff set_map)
      show ?thesis
      proof (cases "at_id r = key")
        case True
        with r(2,4) ARegenerate show ?thesis by simp
      next
        case False
        with r ARegenerate show ?thesis by (auto simp: agent_granted_def list_ex_iff)
      qed
    qed
  next
    case (ARevoke now key)
    let ?f = "\<lambda>r. r\<lparr>at_revoked := True, at_enabled := False, at_updated := now\<rparr>"
    show ?thesis
    proof (cases "list_ex (\<lambda>r. at_id r = key) tab")
      case True
      with g ARevoke have "agent_granted (change_agent (\<lambda>r. at_id r = key) ?f tab) k g" by (simp add: agent_RevokeToken_def)
      then obtain r where "r \<in> set tab" "at_id r \<noteq> key" "at_id r = k" "\<not> at_revoked r" "at_hash r = g"
        unfolding agent_granted_def change_agent_def list_ex_iff by (fastforce split: if_splits)
      with ARevoke show ?thesis by (auto simp: agent_granted_def list_ex_iff)
    next
      case False
      with g ARevoke have "agent_granted tab k g" by (simp add: agent_RevokeToken_def)
      moreover from this False have "key \<noteq> k" by (auto simp: agent_granted_def list_ex_iff)
      ultimately show ?thesis using ARevoke by simp
    qed
  next
    case (AConfig now key scope sels caps)
    with g show ?thesis by (simp add: UpdateAgentConfig_def change_agent_granted split: if_splits)
  next
    case (AEnable now key b)
    with g show ?thesis by (simp add: SetAgentEnabled_def change_agent_granted split: if_splits)
  next
    case (AUse now t)
    with g show ?thesis
      by (auto simp: agent_ValidateToken_def agent_updateLastUsed_def change_agent_granted split: option.splits if_splits)
  qed
qed

subsection \<open>Tokens of webhooks\<close>

datatype webhook_op =
    WCreate instant uuid string string "instant option" \<comment> \<open>time, id, text, name, expiry\<close>
  | WRevoke uuid
  | WUse instant string

fun webhook_step :: "token_hashes \<Rightarrow> webhook_op \<Rightarrow> webhook_table \<Rightarrow> webhook_table" where
  "webhook_step h (WCreate now key t name e) tab = snd (webhook_CreateToken h now key t name e tab)"
| "webhook_step h (WRevoke key) tab = snd (webhook_RevokeToken key tab)"
| "webhook_step h (WUse now t) tab = snd (webhook_ValidateToken h now t tab)"

definition webhook_granted :: "webhook_table \<Rightarrow> uuid \<Rightarrow> string \<times> instant option \<Rightarrow> bool" where
  "webhook_granted tab k g = list_ex (\<lambda>r. wt_id r = k \<and> (wt_hash r, wt_expires r) = g) tab"

fun webhook_issues :: "token_hashes \<Rightarrow> webhook_op \<Rightarrow> (uuid \<times> string \<times> instant option) option" where
  "webhook_issues h (WCreate now key t name e) = Some (key, th_hmac h t, e)"
| "webhook_issues h op = None"

fun webhook_ends :: "webhook_op \<Rightarrow> uuid \<Rightarrow> string \<times> instant option \<Rightarrow> bool" where
  "webhook_ends (WRevoke key) k g = (key = k)"
| "webhook_ends op k g = False"

definition webhook_accepts :: "token_hashes \<Rightarrow> instant \<Rightarrow> string \<Rightarrow> webhook_table \<Rightarrow> (uuid \<times> string \<times> instant option) option" where
  "webhook_accepts h now t tab = map_option (\<lambda>r. (wt_id r, wt_hash r, wt_expires r)) (webhook_accepted h now t tab)"

lemma webhook_used_granted [simp]: "webhook_granted (webhook_updateLastUsed now c tab) k g = webhook_granted tab k g"
  unfolding webhook_updateLastUsed_def webhook_granted_def by (cases "use_due now (wt_used c)") (simp_all, rule list_ex_map_same, simp)

interpretation webhooks: bearer_store "webhook_accepts h" "webhook_step h" webhook_granted "webhook_issues h" webhook_ends
  "\<lambda>t g. fst g = th_hmac h t" for h
proof
  fix now t tab k g
  assume "webhook_accepts h now t tab = Some (k, g)"
  then show "webhook_granted tab k g \<and> fst g = th_hmac h t"
    by (auto simp: webhook_accepts_def webhook_accepted_def webhook_granted_def list_ex_iff dest!: find_row
        split: option.splits if_splits)
next
  fix op tab k g
  assume g: "webhook_granted (webhook_step h op tab) k g"
  show "webhook_granted tab k g \<and> \<not> webhook_ends op k g \<or> webhook_issues h op = Some (k, g)"
  proof (cases op)
    case (WCreate now key t name e)
    with g show ?thesis by (auto simp: webhook_CreateToken_def webhook_granted_def Let_def split: if_splits)
  next
    case (WRevoke key)
    with g show ?thesis by (auto simp: webhook_RevokeToken_def webhook_granted_def list_ex_iff)
  next
    case (WUse now t)
    with g show ?thesis by (simp add: webhook_ValidateToken_def split: option.splits)
  qed
qed

subsection \<open>Properties\<close>

text \<open>A personal access token is accepted only if it was created, for the same user and with the permissions and the
  expiry it now carries, has not been revoked since, by its user or an administrator, and has not expired.\<close>

theorem accepted_token_was_issued:
  assumes "fst (pat_ValidateToken h now tok (fold (pat_step h) ops [])) = Some c"
  shows "\<not> lapsed now (pt_expires c) \<and>
    (\<exists>before t issued name after.
       ops = before @ PCreate t (pt_id c) issued (pt_user c) name (pt_perms c) (pt_expires c) # after \<and>
       th_hmac h issued = th_hmac h tok \<and>
       list_all (\<lambda>op. op \<noteq> PRevoke (pt_id c) (pt_user c) \<and> op \<noteq> PRevokeAdmin (pt_id c)) after)"
proof -
  let ?g = "(pt_user c, pt_hash c, pt_perms c, pt_expires c)"
  have acc: "pat_accepts h now tok (fold (pat_step h) ops []) = Some (pt_id c, ?g)" by (simp add: pat_accepts_def assms)
  have "\<not> pat_granted [] (pt_id c) ?g" by (simp add: pat_granted_def)
  from pats.accepted_was_issued [OF acc this] obtain before op after where o: "pt_hash c = th_hmac h tok"
    "ops = before @ op # after" "pat_issues h op = Some (pt_id c, ?g)" "list_all (\<lambda>op. \<not> pat_ends op (pt_id c) ?g) after"
    by auto
  from o(3) obtain t issued name where p: "op = PCreate t (pt_id c) issued (pt_user c) name (pt_perms c) (pt_expires c)"
    "th_hmac h issued = pt_hash c" by (cases op) auto
  have "list_all (\<lambda>op. op \<noteq> PRevoke (pt_id c) (pt_user c) \<and> op \<noteq> PRevokeAdmin (pt_id c)) after"
    using o(4) by (auto simp: list_all_iff)
  then show ?thesis using o(1,2) p pat_validate_row [OF assms]
    by (intro conjI exI [of _ before] exI [of _ t] exI [of _ issued] exI [of _ name] exI [of _ after]) simp_all
qed

theorem accepted_token_was_issued_witness:
  "let h = \<lparr>th_hmac = (\<lambda>t. t), th_sha = (\<lambda>t. t)\<rparr>;
       ops = [PCreate 0 1 ''alga_pat_a'' 7 ''ci'' [''alerts:read''] (Some 100), PCreate 1 2 ''alga_pat_b'' 7 ''cd'' [] None, PRevoke 2 7]
   in map_option pt_user (fst (pat_ValidateToken h 9 ''alga_pat_a'' (fold (pat_step h) ops []))) = Some 7 \<and> \<not> lapsed 9 (Some 100)"
proof -
  let ?h = "\<lparr>th_hmac = (\<lambda>t. t), th_sha = (\<lambda>t. t)\<rparr>"
  let ?ops = "[PCreate 0 1 ''alga_pat_a'' 7 ''ci'' [''alerts:read''] (Some 100), PCreate 1 2 ''alga_pat_b'' 7 ''cd'' [] None, PRevoke 2 7]"
  have "map_option (\<lambda>c. (pt_user c, pt_expires c)) (fst (pat_ValidateToken ?h 9 ''alga_pat_a'' (fold (pat_step ?h) ?ops []))) =
      Some (7, Some 100)"
    by code_simp
  then obtain c where c: "fst (pat_ValidateToken ?h 9 ''alga_pat_a'' (fold (pat_step ?h) ?ops [])) = Some c"
    "pt_user c = 7" "pt_expires c = Some 100" by (auto simp del: fold_simps)
  with accepted_token_was_issued [OF c(1)] show ?thesis by (simp add: Let_def del: fold_simps)
qed

text \<open>The same for agents and webhooks; that of an agent may have been regenerated.\<close>

lemma accepted_agent_was_issued:
  assumes "fst (agent_ValidateToken h now tok (fold (agent_step h) ops [])) = Some c"
  shows "\<exists>before op after. ops = before @ op # after \<and> agent_issues h op = Some (at_id c, th_hmac h tok) \<and>
    list_all (\<lambda>op. \<forall>t. op \<noteq> ARevoke t (at_id c)) after"
proof -
  have acc: "agent_accepts h now tok (fold (agent_step h) ops []) = Some (at_id c, at_hash c)" by (simp add: agent_accepts_def assms)
  have "\<not> agent_granted [] (at_id c) (at_hash c)" by (simp add: agent_granted_def)
  from agents.accepted_was_issued [OF acc this] obtain before op after where o: "at_hash c = th_hmac h tok"
    "ops = before @ op # after" "agent_issues h op = Some (at_id c, at_hash c)" "list_all (\<lambda>op. \<not> agent_ends op (at_id c) (at_hash c)) after"
    by auto
  from o(4) have "list_all (\<lambda>op. \<forall>t. op \<noteq> ARevoke t (at_id c)) after" by (auto simp: list_all_iff)
  with o(1-3) show ?thesis by auto
qed

lemma accepted_webhook_was_issued:
  assumes "fst (webhook_ValidateToken h now tok (fold (webhook_step h) ops []))"
  shows "\<exists>before t k issued name e after. ops = before @ WCreate t k issued name e # after \<and> th_hmac h issued = th_hmac h tok \<and>
    WRevoke k \<notin> set after"
proof -
  from assms obtain c where "webhook_accepted h now tok (fold (webhook_step h) ops []) = Some c"
    by (auto simp: webhook_ValidateToken_def split: option.splits)
  then have acc: "webhook_accepts h now tok (fold (webhook_step h) ops []) = Some (wt_id c, wt_hash c, wt_expires c)"
    by (simp add: webhook_accepts_def)
  have "\<not> webhook_granted [] (wt_id c) (wt_hash c, wt_expires c)" by (simp add: webhook_granted_def)
  from webhooks.accepted_was_issued [OF acc this] obtain before op after where o: "wt_hash c = th_hmac h tok"
    "ops = before @ op # after" "webhook_issues h op = Some (wt_id c, wt_hash c, wt_expires c)"
    "list_all (\<lambda>op. \<not> webhook_ends op (wt_id c) (wt_hash c, wt_expires c)) after" by auto
  from o(3) obtain t issued name where "op = WCreate t (wt_id c) issued name (wt_expires c)" "th_hmac h issued = wt_hash c"
    by (cases op) auto
  moreover from o(4) have "WRevoke (wt_id c) \<notin> set after" by (auto simp: list_all_iff)
  ultimately show ?thesis using o(1,2) by metis
qed

end
