(* ===== verification/User_Correct.thy ===== *)
theory User_Correct
  imports Auth_Correct Tokens_Correct
begin

text \<open>
  What the handlers of accounts promise: an administrator remains, a failed login says the same whatever was wrong, a
  reset token works once; and what personal access tokens do beyond their scope.
\<close>

subsection \<open>An administrator remains\<close>

definition admin_kept :: "user_table \<Rightarrow> bool" where
  "admin_kept tab = (distinct (map us_id tab) \<and> 1 \<le> CountAdmins tab)"

lemma count_Cons: "CountAdmins (r # tab) = (if us_role r = ''admin'' then 1 else 0) + CountAdmins tab"
  by (simp add: CountAdmins_def)

lemma change_user_Cons: "change_user k f (r # tab) = (if us_id r = k then f r else r) # change_user k f tab"
  by (simp add: change_user_def)

lemma change_user_other: "k \<notin> us_id ` set tab \<Longrightarrow> change_user k f tab = tab"
  unfolding change_user_def by (rule map_idI) auto

lemma change_user_ids: "(\<And>r. us_id (f r) = us_id r) \<Longrightarrow> map us_id (change_user k f tab) = map us_id tab"
  by (simp add: change_user_def)

lemma count_kept: "(\<And>r. us_role r = ''admin'' \<Longrightarrow> us_role (f r) = ''admin'') \<Longrightarrow> CountAdmins tab \<le> CountAdmins (change_user k f tab)"
proof (induction tab)
  case (Cons r tab)
  have "us_role r = ''admin'' \<Longrightarrow> us_role (f r) = ''admin''" by (rule Cons.prems)
  with Cons.IH [OF Cons.prems] show ?case by (simp add: count_Cons change_user_Cons)
qed (simp add: CountAdmins_def)

lemma count_one_less:
  "distinct (map us_id tab) \<Longrightarrow> user_GetByID k tab = Some r \<Longrightarrow>
   CountAdmins tab \<le> CountAdmins (change_user k f tab) + (if us_role r = ''admin'' then 1 else 0)"
proof (induction tab)
  case (Cons x tab)
  show ?case
  proof (cases "us_id x = k")
    case True
    with Cons.prems have "r = x" "k \<notin> us_id ` set tab" by (auto simp: user_GetByID_def)
    with True show ?thesis by (simp add: count_Cons change_user_Cons change_user_other)
  next
    case False
    with Cons show ?thesis by (simp add: count_Cons change_user_Cons user_GetByID_def)
  qed
qed (simp add: user_GetByID_def)

lemma count_filter:
  "distinct (map us_id tab) \<Longrightarrow> user_GetByID k tab = Some r \<Longrightarrow>
   CountAdmins tab = CountAdmins (filter (\<lambda>q. us_id q \<noteq> k) tab) + (if us_role r = ''admin'' then 1 else 0)"
proof (induction tab)
  case (Cons x tab)
  show ?case
  proof (cases "us_id x = k")
    case True
    with Cons.prems have "r = x" "k \<notin> us_id ` set tab" by (auto simp: user_GetByID_def)
    moreover from this(2) have "filter (\<lambda>q. us_id q \<noteq> k) tab = tab" by (auto intro: filter_True)
    ultimately show ?thesis using True by (simp add: count_Cons)
  next
    case False
    with Cons show ?thesis by (simp add: count_Cons user_GetByID_def)
  qed
qed (simp add: user_GetByID_def)

lemma write_users_kept:
  "admin_kept tab \<Longrightarrow> 1 \<le> CountAdmins tab1 \<Longrightarrow> admin_kept (snd (write_users tab tab1))"
  by (auto simp: write_users_def admin_kept_def user_violation_def split: option.splits if_splits)

lemma change_user_kept:
  "admin_kept tab \<Longrightarrow> (\<And>r. us_id (f r) = us_id r \<and> us_role (f r) = us_role r) \<Longrightarrow> admin_kept (change_user k f tab)"
  using count_kept [of f tab k] by (simp add: admin_kept_def change_user_ids)

definition sets_role :: "user_field \<Rightarrow> bool" where
  "sets_role f = (case f of SetRole v \<Rightarrow> True | _ \<Rightarrow> False)"

lemma set_field_id [simp]: "us_id (set_field f r) = us_id r"
  by (cases f) simp_all

lemma set_field_role: "\<not> sets_role f \<Longrightarrow> us_role (set_field f r) = us_role r"
  by (cases f) (simp_all add: sets_role_def)

lemma fold_fields_id [simp]: "us_id (fold set_field fs r) = us_id r"
  by (induction fs arbitrary: r) simp_all

lemma fold_fields_role: "\<not> list_ex sets_role fs \<Longrightarrow> us_role (fold set_field fs r) = us_role r"
  by (induction fs arbitrary: r) (simp_all add: set_field_role)

lemma UpdateUser_kept:
  "admin_kept tab \<Longrightarrow> \<not> list_ex sets_role fs \<Longrightarrow> admin_kept (snd (UpdateUser now k fs tab))"
  unfolding UpdateUser_def
  by (auto intro!: write_users_kept order.trans [OF _ count_kept] simp: fold_fields_role) (simp add: admin_kept_def)

lemma CreateUser_kept: "admin_kept tab \<Longrightarrow> admin_kept (snd (CreateUser P salt k now e p role tab))"
  using write_users_kept [of tab "tab @ [r]" for r]
  by (auto simp: CreateUser_def Let_def write_users_def admin_kept_def CountAdmins_def user_violation_def
      split: option.splits if_splits)

lemma login_tables_kept:
  "admin_kept tab \<Longrightarrow> admin_kept (snd (Authenticate P salt now e p tab))"
  "admin_kept tab \<Longrightarrow> admin_kept (RecordFailedLogin now e tab)"
  "admin_kept tab \<Longrightarrow> admin_kept (RecordSuccessfulLogin now k ip tab)"
  by (auto simp: Authenticate_def RecordFailedLogin_def RecordSuccessfulLogin_def Let_def
      split: option.split prod.split intro!: change_user_kept)

lemma change_role_fields:
  "change_role k c tab = Inr fs \<Longrightarrow>
   fs = [] \<or> fs = [SetRole ''admin''] \<or>
   (\<exists>r role. fs = [SetRole role] \<and> user_GetByID k tab = Some r \<and> (us_role r = ''admin'' \<longrightarrow> 1 < CountAdmins tab))"
  by (auto simp: change_role_def Let_def split: if_splits option.splits)

lemma change_fields_split:
  assumes "change_fields sv d k c tab = Inr fs"
  shows "\<exists>fr rest. fs = fr @ rest \<and> change_role k c tab = Inr fr \<and> \<not> list_ex sets_role rest"
proof -
  from assms obtain fr fp h where fr: "change_role k c tab = Inr fr" and fp: "change_phone (sv_phones sv) k c tab = Inr fp"
    and fs: "fs = map (\<lambda>f. case f of SetPassword p \<Rightarrow> SetPassword h | _ \<Rightarrow> f)
        (fr @ (if uc_password c \<noteq> [] then [SetPassword (uc_password c)] else []) @ optional SetEmail (uc_email c) @
         optional SetFullName (uc_full_name c) @ fp @ optional SetVoiceOptOut (uc_voice_opt_out c))"
    by (auto simp: change_fields_def Let_def split: sum.splits if_splits option.splits)
  have "map (\<lambda>f. case f of SetPassword p \<Rightarrow> SetPassword h | _ \<Rightarrow> f) fr = fr"
    using change_role_fields [OF fr] by auto
  moreover have "\<not> list_ex sets_role fp"
    using fp by (auto simp: change_phone_def sets_role_def Let_def split: option.splits if_splits)
  then have "\<not> list_ex sets_role (map (\<lambda>f. case f of SetPassword p \<Rightarrow> SetPassword h | _ \<Rightarrow> f) fp)"
    by (auto simp: list_ex_iff sets_role_def split: user_field.splits)
  ultimately show ?thesis using fr unfolding fs
    by (intro exI [of _ fr] exI conjI, simp) (auto simp: optional_def sets_role_def split: option.split)
qed

lemma write_change_kept:
  assumes "admin_kept (w_users w)" "change_fields sv d k c (w_users w) = Inr fs"
  shows "admin_kept (w_users (snd (write_change now k fs cx w)))"
proof -
  let ?tab = "w_users w" and ?f = "\<lambda>r. fold set_field fs r\<lparr>us_updated := now\<rparr>"
  obtain fr rest where s: "fs = fr @ rest" "change_role k c ?tab = Inr fr" "\<not> list_ex sets_role rest"
    using change_fields_split [OF assms(2)] by blast
  have one: "1 \<le> CountAdmins ?tab" and d: "distinct (map us_id ?tab)" using assms(1) by (simp_all add: admin_kept_def)
  have "1 \<le> CountAdmins (change_user k ?f ?tab)"
    using change_role_fields [OF s(2)]
  proof (elim disjE exE conjE)
    assume "fr = []"
    with s show ?thesis by (intro order.trans [OF one count_kept]) (simp add: fold_fields_role)
  next
    assume "fr = [SetRole ''admin'']"
    with s show ?thesis by (intro order.trans [OF one count_kept]) (simp add: fold_fields_role)
  next
    fix r role
    assume "fr = [SetRole role]" "user_GetByID k ?tab = Some r" "us_role r = ''admin'' \<longrightarrow> 1 < CountAdmins ?tab"
    with count_one_less [OF d this(2), of ?f] one show ?thesis by (auto split: if_splits)
  qed
  from write_users_kept [OF assms(1) this] assms(1) have "admin_kept (snd (UpdateUser now k fs ?tab))"
    by (simp add: UpdateUser_def)
  then show ?thesis by (auto simp: write_change_def split: prod.split sum.split user_error.split)
qed

lemma delete_user_kept:
  assumes "admin_kept (w_users w)" "check_delete k cx (w_users w) = None"
  shows "admin_kept (w_users (snd (delete_user sv k cx w)))"
proof -
  let ?tab = "w_users w"
  have d: "distinct (map us_id ?tab)" and one: "1 \<le> CountAdmins ?tab" using assms(1) by (simp_all add: admin_kept_def)
  from assms(2) obtain r where r: "user_GetByID k ?tab = Some r" "us_role r = ''admin'' \<longrightarrow> 1 < CountAdmins ?tab"
    by (auto simp: check_delete_def split: if_splits option.splits)
  have "admin_kept (filter (\<lambda>q. us_id q \<noteq> k) ?tab)"
    using count_filter [OF d r(1)] r(2) one d by (auto simp: admin_kept_def distinct_map_filter split: if_splits)
  then show ?thesis using r(1) by (simp add: delete_user_def DeleteUser_def)
qed

lemma sets_role_simps [simp]:
  "\<not> sets_role (SetPassword x)" "\<not> sets_role (SetEmail x)" "\<not> sets_role (SetFullName x)" "\<not> sets_role (SetPhone x)"
  "\<not> sets_role (SetCountry x)"
  by (simp_all add: sets_role_def)

lemma kept_after:
  "UpdateUser now k fs tab = (r, tab1) \<Longrightarrow> admin_kept tab \<Longrightarrow> \<not> list_ex sets_role fs \<Longrightarrow> admin_kept tab1"
  "Authenticate P salt now e p tab = (q, tab1) \<Longrightarrow> admin_kept tab \<Longrightarrow> admin_kept tab1"
  "CreateUser P salt k now e p role tab = (v, tab1) \<Longrightarrow> admin_kept tab \<Longrightarrow> admin_kept tab1"
  using UpdateUser_kept [of tab fs now k] login_tables_kept(1) [of tab P salt now e p] CreateUser_kept [of tab P salt k now e p role]
  by simp_all

lemma other_handlers_users [simp]:
  "w_users (snd (handleLogout sv now rq w)) = w_users w" "w_users (snd (handleListSessions sv now rq cx w)) = w_users w"
  "w_users (snd (handleRevokeSession sv now rq i cx w)) = w_users w"
  "w_users (snd (handleRevokeOtherSessions sv now rq cx w)) = w_users w"
  by (simp_all add: handleLogout_def handleListSessions_def handleRevokeSession_def handleRevokeOtherSessions_def Let_def
      split: prod.split option.split sum.split)

lemma refresh_users [simp]:
  "w_users (snd (finishSessionRefresh rq x w)) = w_users w" "w_users (snd (refresh_by_token sv d now rq a w)) = w_users w"
  "w_users (snd (handleRefreshSession sv d now rq w)) = w_users w"
proof -
  show f: "w_users (snd (finishSessionRefresh rq x w)) = w_users w" for x w
    by (simp add: finishSessionRefresh_def split: option.split)
  show r: "w_users (snd (refresh_by_token sv d now rq a w)) = w_users w" for a w
    by (simp add: refresh_by_token_def Let_def f split: prod.split option.split)
  show "w_users (snd (handleRefreshSession sv d now rq w)) = w_users w"
    by (simp add: handleRefreshSession_def Let_def f r split: prod.split option.split)
qed

lemma token_handlers_users [simp]:
  "w_users (snd (handleForgotPassword sv d now rq e w)) = w_users w" "w_users (snd (handleUserTokens sv d now rq b cx w)) = w_users w"
  "w_users (snd (handleUserTokenByID sv rq i cx w)) = w_users w" "w_users (snd (handleAdminTokenByID sv rq i cx w)) = w_users w"
  by (simp_all add: handleForgotPassword_def handleUserTokens_def listUserPATs_def createUserPAT_def handleUserTokenByID_def
      handleAdminTokenByID_def pat_revoked_answer_def Let_def split: prod.split option.split sum.split bool.split)

lemma gate_users [simp]: "w_users (snd (AuthMiddleware sv now (\<lambda>cx w. (a, w)) perms rq w)) = w_users w"
  by (simp add: AuthMiddleware_def Let_def split: prod.split option.split)

lemma auth_step_kept:
  assumes "admin_kept (w_users w)"
  shows "admin_kept (w_users (auth_do sv op w))"
proof (cases op)
  case (DoUser d now rq i b cx)
  with assms show ?thesis
    by (auto simp: handleUserByID_def split: option.split sum.split intro: write_change_kept delete_user_kept)
next
  case (DoLogin d now rq b)
  with assms show ?thesis
    by (auto simp: handleLogin_def Let_def split: prod.split option.split sum.split
        intro: login_tables_kept(2,3) kept_after)
next
  case (DoSetup d now rq b)
  with assms show ?thesis
    by (auto simp: handleSetup_def Let_def CountUsers_def admin_kept_def [of "[]"] CountAdmins_def split: prod.split)
next
  case (DoUsers d now rq b cx)
  with assms show ?thesis
    by (auto simp: handleUsers_def Let_def split: prod.split option.split sum.split user_error.split
        dest: kept_after)
next
  case (DoChangePassword d now rq b cx)
  with assms show ?thesis
    by (auto simp: handleChangePassword_def Let_def split: prod.split option.split sum.split dest: kept_after)
next
  case (DoChangeEmail d now rq b cx)
  with assms show ?thesis
    by (auto simp: handleChangeEmail_def Let_def split: prod.split option.split sum.split dest: kept_after)
next
  case (DoUpdateProfile now rq b cx)
  with assms show ?thesis
    by (auto simp: handleUpdateProfile_def Let_def split: prod.split option.split sum.split dest: kept_after)
next
  case (DoReset d now rq b)
  with assms show ?thesis
    by (auto simp: handleResetPassword_def Let_def split: prod.split option.split sum.split dest: kept_after)
qed (use assms in simp_all)

text \<open>C20. As long as every request runs by itself, an administrator remains: whatever is created, demoted, deleted, locked or
  changed, once there is an administrator there always is one.\<close>

theorem last_admin_kept:
  assumes "distinct (map us_id (w_users w))" "1 \<le> CountAdmins (w_users w)"
  shows "1 \<le> CountAdmins (w_users (fold (auth_do sv) hist w))"
proof -
  have "admin_kept (w_users w) \<Longrightarrow> admin_kept (w_users (fold (auth_do sv) hist w))" for w
    by (induction hist arbitrary: w) (simp_all add: auth_step_kept)
  with assms show ?thesis by (simp add: admin_kept_def)
qed

definition demo_demote :: user_change where
  "demo_demote = \<lparr>uc_role = ''viewer'', uc_password = [], uc_email = None, uc_full_name = None, uc_phone = None,
     uc_country = None, uc_voice_opt_out = None\<rparr>"

definition two_admins :: "session_table world" where
  "two_admins = demo_world [demo_user 1 ''a@b'' ''admin'', demo_user 2 ''c@d'' ''admin'', demo_user 3 ''e@f'' ''viewer'']"

definition demo_admin_ctx :: auth_ctx where
  "demo_admin_ctx = \<lparr>cx_user = Some (demo_user 1 ''a@b'' ''admin''), cx_method = [], cx_session = ''a''\<rparr>"

theorem last_admin_kept_witness:
  "1 \<le> CountAdmins (w_users (fold (auth_do demo_server_pg)
     [DoUser (demo_draws ''a'' 1) 1 (demo_request ''PUT'' None) ''xx'' (Some demo_demote) demo_admin_ctx,
      DoUser (demo_draws ''a'' 1) 2 (demo_request ''PUT'' None) ''x'' (Some demo_demote) demo_admin_ctx] two_admins))"
  by (rule last_admin_kept) (simp_all add: two_admins_def demo_defs CountAdmins_def)

text \<open>Two requests that run at once can break it: both checks are made before either write, and each sees the other
  administrator.\<close>

lemma demotions_race:
  "case (change_fields demo_server_pg (demo_draws ''a'' 1) 1 demo_demote (w_users two_admins),
         change_fields demo_server_pg (demo_draws ''a'' 1) 2 demo_demote (w_users two_admins)) of
     (Inr f1, Inr f2) \<Rightarrow>
       CountAdmins (w_users (snd (write_change 2 2 f2 demo_admin_ctx (snd (write_change 1 1 f1 demo_admin_ctx two_admins))))) = 0
   | _ \<Rightarrow> False"
  by code_simp

subsection \<open>Failed logins\<close>

lemma authenticate_fails:
  assumes "\<nexists>r weak. user_GetByEmail email tab = Some r \<and> \<not> locked_at now r \<and> VerifyPassword P (us_password r) password = Some (True, weak)"
  obtains e where "Authenticate P salt now email password tab = (Inl e, tab)"
    "e = ErrAccountLocked \<longleftrightarrow> (\<exists>r. user_GetByEmail email tab = Some r \<and> locked_at now r)"
proof (cases "user_GetByEmail email tab")
  case None
  then have "Authenticate P salt now email password tab = (Inl ErrInvalidCredentials, tab)" by (simp add: Authenticate_def)
  from that [OF this] None show ?thesis by simp
next
  case (Some r)
  show ?thesis
  proof (cases "locked_at now r")
    case True
    with Some have "Authenticate P salt now email password tab = (Inl ErrAccountLocked, tab)" by (simp add: Authenticate_def)
    from that [OF this] Some True show ?thesis by simp
  next
    case False
    have "\<exists>e. e \<noteq> ErrAccountLocked \<and> Authenticate P salt now email password tab = (Inl e, tab)"
    proof (cases "VerifyPassword P (us_password r) password")
      case None
      with Some False show ?thesis by (intro exI [of _ ErrVerify]) (simp add: Authenticate_def)
    next
      case (Some q)
      then obtain ok weak where q: "q = (ok, weak)" by (cases q)
      with assms \<open>user_GetByEmail email tab = Some r\<close> False Some have "\<not> ok" by auto
      with Some \<open>user_GetByEmail email tab = Some r\<close> False q show ?thesis
        by (intro exI [of _ ErrInvalidCredentials]) (simp add: Authenticate_def)
    qed
    then show ?thesis using that Some False by auto
  qed
qed

text \<open>A login that does not succeed sets no cookie, creates no session and counts as a failure of the account; its
  answer is the same for an unknown address, a wrong password and a stored password that does not decode. Only
  a locked account is answered differently, and so even if the password is right.\<close>

theorem failed_login_answer:
  assumes "ht_method rq = ''POST''" "fst (mem_CheckLogin (sv_limits sv) now (ht_ip rq) (w_logins w)) = (True, left, lock)"
    "email \<noteq> []" "password \<noteq> []"
    "\<nexists>r weak. user_GetByEmail email (w_users w) = Some r \<and> \<not> locked_at now r \<and>
       VerifyPassword (sv_passwords sv) (us_password r) password = Some (True, weak)"
    "handleLogin sv d now rq (Some (email, password)) w = (a, w1)"
  shows "a = (if \<exists>r. user_GetByEmail email (w_users w) = Some r \<and> locked_at now r
        then fail ErrorCodeForbidden ''account is locked due to too many failed login attempts. please try again in 30 minutes''
        else fail ErrorCodeUnauthorized ''invalid credentials'') \<and>
    w_sessions w1 = w_sessions w \<and> w_users w1 = RecordFailedLogin now email (w_users w)"
proof -
  obtain e where e: "Authenticate (sv_passwords sv) (dr_salt d) now email password (w_users w) = (Inl e, w_users w)"
    "e = ErrAccountLocked \<longleftrightarrow> (\<exists>r. user_GetByEmail email (w_users w) = Some r \<and> locked_at now r)"
    by (rule authenticate_fails [OF assms(5)])
  obtain q logins where "mem_CheckLogin (sv_limits sv) now (ht_ip rq) (w_logins w) = (q, logins)" by (rule prod.exhaust)
  with assms(1-4,6) e show ?thesis by (auto simp: handleLogin_def Let_def)
qed

theorem failed_login_answer_witness:
  "fst (handleLogin demo_server_pg (demo_draws ''a'' 1) 0 (demo_request ''POST'' None) (Some (''a@b'', ''Wrong-77'')) two_admins) =
   fst (handleLogin demo_server_pg (demo_draws ''a'' 1) 0 (demo_request ''POST'' None) (Some (''no@one'', ''Wrong-77'')) two_admins)"
proof -
  let ?login = "\<lambda>e. handleLogin demo_server_pg (demo_draws ''a'' 1) 0 (demo_request ''POST'' None) (Some (e, ''Wrong-77'')) two_admins"
  have "fst (?login e) = fail ErrorCodeUnauthorized ''invalid credentials''" if "e = ''a@b'' \<or> e = ''no@one''" for e
  proof -
    have "\<not> (\<exists>r. user_GetByEmail e (w_users two_admins) = Some r \<and> locked_at 0 r)"
      using that by (auto simp: two_admins_def demo_defs user_GetByEmail_def locked_at_def)
    moreover have "\<nexists>r weak. user_GetByEmail e (w_users two_admins) = Some r \<and> \<not> locked_at 0 r \<and>
       VerifyPassword (sv_passwords demo_server_pg) (us_password r) ''Wrong-77'' = Some (True, weak)"
      using that by (auto simp: two_admins_def demo_defs user_GetByEmail_def locked_at_def VerifyPassword_def)
    ultimately show ?thesis
      using failed_login_answer [of "demo_request ''POST'' None" demo_server_pg 0 two_admins 4 None e "''Wrong-77''"
          "demo_draws ''a'' 1" "fst (?login e)" "snd (?login e)"] that
      by (auto simp: two_admins_def demo_defs mem_CheckLogin_def)
  qed
  from this [of "''a@b''"] this [of "''no@one''"] show ?thesis by simp
qed

text \<open>Every failure counts, also while the account is locked: from the fifth on each one locks it for another 30 minutes,
  and one more failure after the end of a lock is enough.\<close>

lemma find_changed:
  "user_GetByEmail e tab = Some r \<Longrightarrow> (\<And>q. us_email (f q) = us_email q) \<Longrightarrow>
   user_GetByEmail e (change_user (us_id r) f tab) = Some (f r)"
  by (induction tab) (auto simp: user_GetByEmail_def change_user_def)

lemma lockout_extends:
  "user_GetByEmail e tab = Some r \<Longrightarrow>
   \<exists>r1. user_GetByEmail e (fold (\<lambda>t. RecordFailedLogin t e) ts tab) = Some r1 \<and> us_failed r1 = us_failed r + int (length ts) \<and>
     us_locked r1 = (if ts \<noteq> [] \<and> 5 \<le> us_failed r1 then Some (last ts + 30 * go_minute) else us_locked r)"
proof (induction ts rule: rev_induct)
  case (snoc t ts)
  from snoc.IH [OF snoc.prems] obtain r1 where r1: "user_GetByEmail e (fold (\<lambda>t. RecordFailedLogin t e) ts tab) = Some r1"
    "us_failed r1 = us_failed r + int (length ts)"
    "us_locked r1 = (if ts \<noteq> [] \<and> 5 \<le> us_failed r1 then Some (last ts + 30 * go_minute) else us_locked r)" by blast
  let ?f = "\<lambda>q. q\<lparr>us_failed := us_failed r1 + 1, us_last_failed := Some t, us_updated := t,
     us_locked := (if us_failed r1 + 1 \<ge> 5 then Some (t + 30 * go_minute) else us_locked q)\<rparr>"
  have "RecordFailedLogin t e (fold (\<lambda>t. RecordFailedLogin t e) ts tab) =
      change_user (us_id r1) ?f (fold (\<lambda>t. RecordFailedLogin t e) ts tab)"
    by (simp add: RecordFailedLogin_def r1(1) Let_def)
  moreover have "user_GetByEmail e (change_user (us_id r1) ?f (fold (\<lambda>t. RecordFailedLogin t e) ts tab)) = Some (?f r1)"
    by (rule find_changed [OF r1(1)]) simp
  ultimately show ?case using r1(2,3) by (intro exI [of _ "?f r1"]) (auto split: if_splits)
qed simp

subsection \<open>Personal access tokens beyond their scope\<close>

lemma find_appended: "\<not> list_ex P xs \<Longrightarrow> P x \<Longrightarrow> List.find P (xs @ [x]) = Some x"
  by (induction xs) auto

text \<open>C1. Whoever holds a personal access token, however narrow its scope and near its expiry, can make a token of the
  same user with all permissions of his role and without expiry: the route for one's own tokens asks for no
  permission, and the handler compares the requested permissions with the role, not with the scope of the token.\<close>

theorem scoped_token_escapes:
  assumes "ht_auth rq = ''Bearer '' @ tok" "go_has_prefix tok ''alga_pat_''" "ht_method rq = ''POST''"
    "pat_ValidateToken (sv_hashes sv) now tok (w_pats w) = (Some p, pats)"
    "user_GetByID (pt_user p) (w_users w) = Some u" "\<not> locked_at now u" "AllPermissions (us_role u) \<noteq> []"
    "name \<noteq> []" "length name \<le> 128"
    "\<not> list_ex (\<lambda>q. pt_id q = dr_key d \<or> pt_hash q = th_hmac (sv_hashes sv) (dr_token d)) pats"
    "user_tokens_route None sv d now rq (Some (name, AllPermissions (us_role u), [])) w = (a, w1)"
  shows "\<exists>c. a = answered (NewPat c (dr_token d)) \<and> fst (pat_ValidateToken (sv_hashes sv) t (dr_token d) (w_pats w1)) = Some c \<and>
    pt_user c = pt_user p \<and> pt_perms c = AllPermissions (us_role u) \<and> pt_expires c = None"
proof -
  let ?h = "sv_hashes sv"
  let ?c = "\<lparr>pt_id = dr_key d, pt_user = us_id u, pt_name = name, pt_hash = th_hmac ?h (dr_token d),
      pt_prefix = lookupPrefix ?h (dr_token d), pt_perms = AllPermissions (us_role u), pt_expires = None, pt_used = None,
      pt_created = now, pt_revoked = False\<rparr>"
  have id: "us_id u = pt_user p" using assms(5) by (auto simp: user_GetByID_def find_Some_iff)
  have "go_has_prefix (ht_auth rq) ''Bearer alga_pat_''" "go_trim_prefix (ht_auth rq) ''Bearer '' = tok"
    using assms(2) by (auto simp: assms(1) go_has_prefix_def go_trim_prefix_def)
  moreover have "list_all (List.member (AllPermissions (us_role u))) (AllPermissions (us_role u))" by (simp add: list_all_iff)
  ultimately have run: "user_tokens_route None sv d now rq (Some (name, AllPermissions (us_role u), [])) w =
      (answered (NewPat ?c (dr_token d)), audit ''pat_created'' (Some (us_id u)) True [] (w\<lparr>w_pats := pats @ [?c]\<rparr>))"
    using assms(3-10)
    by (simp add: user_tokens_route_def authMiddleware_def AuthMiddleware_def handleUserTokens_def createUserPAT_def
        maxTokenNameLength_def pat_CreateToken_def Let_def)
  have "List.find (\<lambda>c. th_hmac ?h (dr_token d) = pt_hash c \<and> \<not> lapsed t (pt_expires c))
      (filter (\<lambda>c. pt_prefix c = lookupPrefix ?h (dr_token d) \<and> \<not> pt_revoked c) (pats @ [?c])) = Some ?c"
    using assms(10) by (simp add: find_appended list_ex_iff lapsed_def) (rule find_appended, auto simp: list_ex_iff lapsed_def)
  then have "fst (pat_ValidateToken ?h t (dr_token d) (pats @ [?c])) = Some ?c" by (simp add: pat_ValidateToken_def)
  with run assms(11) id show ?thesis by (intro exI [of _ ?c]) auto
qed

definition scoped_pat :: pat_row where
  "scoped_pat = \<lparr>pt_id = 5, pt_user = 1, pt_name = ''ci'', pt_hash = ''alga_pat_q'', pt_prefix = ''alga_pat_q'',
     pt_perms = [''alerts:read''], pt_expires = Some 100, pt_used = None, pt_created = 0, pt_revoked = False\<rparr>"

definition scoped_world :: "session_table world" where
  "scoped_world = two_admins\<lparr>w_pats := [scoped_pat]\<rparr>"

definition scoped_request :: request where
  "scoped_request = (demo_request ''POST'' None)\<lparr>ht_auth := ''Bearer alga_pat_q''\<rparr>"

theorem scoped_token_escapes_witness:
  "map_option pt_perms (fst (pat_ValidateToken demo_hashes 1000 ''toka''
     (w_pats (snd (user_tokens_route None demo_server_pg (demo_draws ''a'' 9) 50 scoped_request
        (Some (''all'', AllPermissions ''admin'', [])) scoped_world))))) = Some (AllPermissions ''admin'')"
proof -
  let ?u = "demo_user 1 ''a@b'' ''admin''"
  obtain a w1 where r: "user_tokens_route None demo_server_pg (demo_draws ''a'' 9) 50 scoped_request
      (Some (''all'', AllPermissions (us_role ?u), [])) scoped_world = (a, w1)" by (rule prod.exhaust)
  have "\<exists>c. a = answered (NewPat c (dr_token (demo_draws ''a'' 9))) \<and>
    fst (pat_ValidateToken (sv_hashes demo_server_pg) 1000 (dr_token (demo_draws ''a'' 9)) (w_pats w1)) = Some c \<and>
    pt_user c = pt_user scoped_pat \<and> pt_perms c = AllPermissions (us_role ?u) \<and> pt_expires c = None"
  proof (rule scoped_token_escapes [OF _ _ _ _ _ _ _ _ _ _ r, of "''alga_pat_q''" _ "[scoped_pat\<lparr>pt_used := Some 50\<rparr>]"])
    show "AllPermissions (us_role ?u) \<noteq> []" by code_simp
    show "pat_ValidateToken (sv_hashes demo_server_pg) 50 ''alga_pat_q'' (w_pats scoped_world) =
        (Some scoped_pat, [scoped_pat\<lparr>pt_used := Some 50\<rparr>])"
      by (simp add: pat_ValidateToken_def pat_updateLastUsed_def use_due_def lapsed_def lookupPrefix_def scoped_world_def
          scoped_pat_def demo_defs)
  qed (simp_all add: scoped_request_def demo_defs go_has_prefix_def scoped_world_def scoped_pat_def two_admins_def user_GetByID_def
      locked_at_def)
  with r show ?thesis by (auto simp: demo_defs)
qed

subsection \<open>Reset tokens\<close>

definition spent :: "string \<Rightarrow> reset_row list \<Rightarrow> bool" where
  "spent h tab = list_all (\<lambda>r. rs_hash r = h \<longrightarrow> rs_used r) tab"

lemma spent_marked: "spent h tab \<Longrightarrow> spent h (snd (reset_MarkUsed k tab))"
  by (auto simp: spent_def reset_MarkUsed_def list_all_iff)

lemma spent_created: "spent h tab \<Longrightarrow> h1 \<noteq> h \<Longrightarrow> reset_CreateToken k u h1 e tab = (q, tab1) \<Longrightarrow> spent h tab1"
  by (auto simp: spent_def reset_CreateToken_def Let_def split: if_splits)

lemma spent_filter: "spent h tab \<Longrightarrow> spent h (filter P tab)"
  by (auto simp: spent_def list_all_iff)

text \<open>The requests that send a new token with the digest \<open>h\<close>.\<close>

fun sends_token :: "'s server \<Rightarrow> string \<Rightarrow> auth_op \<Rightarrow> bool" where
  "sends_token sv h (DoForgot d now rq b) = (th_hmac (sv_hashes sv) (dr_token d) = h)"
| "sends_token sv h op = False"

lemma other_handlers_resets [simp]:
  "w_resets (snd (handleLogout sv now rq w)) = w_resets w" "w_resets (snd (handleListSessions sv now rq cx w)) = w_resets w"
  "w_resets (snd (handleRevokeSession sv now rq i cx w)) = w_resets w"
  "w_resets (snd (handleRevokeOtherSessions sv now rq cx w)) = w_resets w"
  by (simp_all add: handleLogout_def handleListSessions_def handleRevokeSession_def handleRevokeOtherSessions_def Let_def
      split: prod.split option.split sum.split)

lemma refresh_resets [simp]: "w_resets (snd (handleRefreshSession sv d now rq w)) = w_resets w"
proof -
  have f: "w_resets (snd (finishSessionRefresh rq x w)) = w_resets w" for x w
    by (simp add: finishSessionRefresh_def split: option.split)
  have r: "w_resets (snd (refresh_by_token sv d now rq a w)) = w_resets w" for a w
    by (simp add: refresh_by_token_def Let_def f split: prod.split option.split)
  show ?thesis by (simp add: handleRefreshSession_def Let_def f r split: prod.split option.split)
qed

lemma account_handlers_resets [simp]:
  "w_resets (snd (handleChangePassword sv d now rq b cx w)) = w_resets w" "w_resets (snd (handleChangeEmail sv d now rq b cx w)) = w_resets w"
  "w_resets (snd (handleUpdateProfile sv now rq b3 cx w)) = w_resets w"
  by (simp_all add: handleChangePassword_def handleChangeEmail_def handleUpdateProfile_def Let_def
      split: prod.split option.split sum.split)

lemma token_handlers_resets [simp]:
  "w_resets (snd (handleUserTokens sv d now rq b cx w)) = w_resets w"
  "w_resets (snd (handleUserTokenByID sv rq i cx w)) = w_resets w" "w_resets (snd (handleAdminTokenByID sv rq i cx w)) = w_resets w"
  by (simp_all add: handleUserTokens_def listUserPATs_def createUserPAT_def handleUserTokenByID_def
      handleAdminTokenByID_def pat_revoked_answer_def Let_def split: prod.split option.split sum.split bool.split)

lemma gate_resets [simp]: "w_resets (snd (AuthMiddleware sv now (\<lambda>cx w. (a, w)) perms rq w)) = w_resets w"
  by (simp add: AuthMiddleware_def Let_def split: prod.split option.split)

lemma spent_step:
  assumes "spent h (w_resets w)" "\<not> sends_token sv h op"
  shows "spent h (w_resets (auth_do sv op w))"
proof (cases op)
  case (DoForgot d now rq b)
  with assms show ?thesis
    by (auto simp: handleForgotPassword_def Let_def split: option.split prod.split dest: spent_created)
next
  case (DoReset d now rq b)
  with assms show ?thesis
    by (auto simp: handleResetPassword_def Let_def split: option.split prod.split sum.split intro: spent_marked)
next
  case (DoUser d now rq i b cx)
  with assms show ?thesis
    by (auto simp: handleUserByID_def write_change_def delete_user_def split: option.split prod.split sum.split user_error.split
        intro: spent_filter)
next
  case (DoSetup d now rq b)
  with assms show ?thesis
    by (auto simp: handleSetup_def Let_def split: option.split prod.split sum.split user_error.split)
next
  case (DoUsers d now rq b cx)
  with assms show ?thesis
    by (auto simp: handleUsers_def Let_def split: option.split prod.split sum.split user_error.split)
next
  case (DoLogin d now rq b)
  with assms show ?thesis by (auto simp: handleLogin_def Let_def split: option.split prod.split sum.split)
qed (use assms in simp_all)

text \<open>A reset token works once: after it has reset a password, every further request with it is refused, whatever
  happens in between, unless the same token is sent out again.\<close>

theorem reset_token_once:
  assumes "distinct (map rs_hash (w_resets w))"
    "handleResetPassword sv d now rq (Some (tok, new)) w = ((Inr m, cs), w1)"
    "list_all (\<lambda>op. \<not> sends_token sv (th_hmac (sv_hashes sv) tok) op) hist"
    "handleResetPassword sv d2 now2 rq2 (Some (tok, new2)) (fold (auth_do sv) hist w1) = (a, w2)"
  shows "\<exists>e. a = (Inl e, []) \<and> w2 = fold (auth_do sv) hist w1"
proof -
  let ?h = "th_hmac (sv_hashes sv) tok"
  from assms(2) obtain r where r: "reset_GetByTokenHash ?h (w_resets w) = Some r"
    and w1: "w_resets w1 = snd (reset_MarkUsed (rs_id r) (w_resets w))"
    by (auto simp: handleResetPassword_def fail_def status_ok_def answered_def Let_def
        split: if_splits option.splits prod.splits sum.splits)
  have "q = r" if "q \<in> set (w_resets w)" "rs_hash q = ?h" for q
    using that r assms(1) by (auto simp: reset_GetByTokenHash_def distinct_map dest!: find_row intro: inj_onD)
  then have "spent ?h (w_resets w1)" unfolding w1 by (auto simp: spent_def reset_MarkUsed_def list_all_iff)
  then have "spent ?h (w_resets (fold (auth_do sv) hist w1))"
    using assms(3) by (induction hist arbitrary: w1) (simp_all add: spent_step)
  then have "rs_used q" if "reset_GetByTokenHash ?h (w_resets (fold (auth_do sv) hist w1)) = Some q" for q
    using that by (auto simp: reset_GetByTokenHash_def spent_def list_all_iff dest!: find_row)
  with assms(4) show ?thesis
    by (auto simp: handleResetPassword_def fail_def split: if_splits option.splits)
qed

definition demo_reset :: "session_table world" where
  "demo_reset = snd (handleForgotPassword demo_server_pg (demo_draws ''r'' 4) 0 (demo_request ''POST'' None) (Some ''a@b'') two_admins)"

definition reset_again :: "draws \<Rightarrow> instant \<Rightarrow> session_table world \<Rightarrow> answer \<times> session_table world" where
  "reset_again d now w =
     handleResetPassword demo_server_pg d now (demo_request ''POST'' None) (Some (''tokr'', ''Secret-10'')) w"

lemma demo_reset_first:
  "distinct (map rs_hash (w_resets demo_reset)) \<and>
   (case fst (reset_again (demo_draws ''s'' 5) 1 demo_reset) of (Inr m, cs) \<Rightarrow> True | _ \<Rightarrow> False)"
  by code_simp

theorem reset_token_once_witness:
  "case fst (reset_again (demo_draws ''u'' 6) 3
      (auth_do demo_server_pg (DoForgot (demo_draws ''v'' 8) 2 (demo_request ''POST'' None) (Some ''a@b''))
        (snd (reset_again (demo_draws ''s'' 5) 1 demo_reset)))) of
     (Inl e, cs) \<Rightarrow> cs = [] | _ \<Rightarrow> False"
proof -
  let ?hist = "[DoForgot (demo_draws ''v'' 8) 2 (demo_request ''POST'' None) (Some ''a@b'')]"
  obtain a w1 where f: "reset_again (demo_draws ''s'' 5) 1 demo_reset = (a, w1)" by (rule prod.exhaust)
  with demo_reset_first obtain m cs where "a = (Inr m, cs)" by (auto split: prod.splits sum.splits)
  with f have f: "reset_again (demo_draws ''s'' 5) 1 demo_reset = ((Inr m, cs), w1)" by simp
  obtain a2 w2 where g: "reset_again (demo_draws ''u'' 6) 3 (fold (auth_do demo_server_pg) ?hist w1) = (a2, w2)" by (rule prod.exhaust)
  have "list_all (\<lambda>op. \<not> sends_token demo_server_pg (th_hmac (sv_hashes demo_server_pg) ''tokr'') op) ?hist"
    by (simp add: demo_defs)
  from reset_token_once [OF _ f [unfolded reset_again_def] this g [unfolded reset_again_def]] demo_reset_first f g
  show ?thesis by auto
qed

end
