(* ===== verification/Incident_Queries.thy ===== *)
theory Incident_Queries
  imports Incident_Store "HOL-Library.Multiset"
begin

text \<open>
  The reads of \<^verbatim>\<open>store/incident.go\<close> over the table of \<open>Incident_Store\<close>, and the incidents'
  timelines. A query keeps the table's order where the source asks for none; \<^verbatim>\<open>LIKE\<close> patterns are
  matched byte by byte, \<^verbatim>\<open>ILIKE\<close> folds the case of ASCII letters. The Go sort is a parameter: it
  returns some permutation sorted by the key, not necessarily a stable one.
\<close>

subsection \<open>SQL\<close>

text \<open>The operator \<^verbatim>\<open>LIKE\<close>: pattern first.\<close>

fun sql_like :: "string \<Rightarrow> string \<Rightarrow> bool" where
  "sql_like [] s = (s = [])"
| "sql_like (c # p) s =
     (if c = CHR ''%'' then
        sql_like p s \<or> (case s of [] \<Rightarrow> False | _ # t \<Rightarrow> sql_like (c # p) t)
      else if c = CHR ''_'' then (case s of [] \<Rightarrow> False | _ # t \<Rightarrow> sql_like p t)
      else if c = CHR 0x5C then
        (case p of [] \<Rightarrow> False | e # p' \<Rightarrow> (case s of [] \<Rightarrow> False | x # t \<Rightarrow> x = e \<and> sql_like p' t))
      else (case s of [] \<Rightarrow> False | x # t \<Rightarrow> x = c \<and> sql_like p t))"

definition sql_ilike :: "string \<Rightarrow> string \<Rightarrow> bool" where
  "sql_ilike p s = sql_like (go_to_lower p) (go_to_lower s)"

text \<open>\<^verbatim>\<open>LIMIT\<close> and \<^verbatim>\<open>OFFSET\<close>, each given only when positive.\<close>

definition sql_page :: "int \<Rightarrow> int \<Rightarrow> 'a list \<Rightarrow> 'a list" where
  "sql_page limit skip xs =
     (let ys = (if skip > 0 then drop (nat skip) xs else xs) in if limit > 0 then take (nat limit) ys else ys)"

definition plain_char :: "char \<Rightarrow> bool" where
  "plain_char c \<longleftrightarrow> c \<noteq> CHR ''%'' \<and> c \<noteq> CHR ''_'' \<and> c \<noteq> CHR 0x5C"

lemma sql_like_any [simp]: "sql_like ''%'' s"
  by (induction s) simp_all

lemma sql_like_plain:
  "list_all plain_char q \<Longrightarrow> sql_like (q @ p) s \<longleftrightarrow> (\<exists>t. s = q @ t \<and> sql_like p t)"
  by (induction q arbitrary: s) (auto simp: plain_char_def split: list.splits)

lemma sql_like_percent: "sql_like (CHR ''%'' # p) s \<longleftrightarrow> (\<exists>a b. s = a @ b \<and> sql_like p b)"
proof (induction s)
  case Nil
  then show ?case by simp
next
  case (Cons x s)
  have "sql_like (CHR ''%'' # p) (x # s) \<longleftrightarrow> sql_like p (x # s) \<or> sql_like (CHR ''%'' # p) s" by simp
  also have "\<dots> \<longleftrightarrow> (\<exists>a b. x # s = a @ b \<and> sql_like p b)"
    using Cons by (metis Cons_eq_append_conv append_Cons append_Nil)
  finally show ?case .
qed

text \<open>A search text without wildcards is looked for as it stands.\<close>

lemma sql_like_contains:
  assumes "list_all plain_char q"
  shows "sql_like (''%'' @ q @ ''%'') s \<longleftrightarrow> go_contains s q"
proof -
  have "sql_like (''%'' @ q @ ''%'') s \<longleftrightarrow> (\<exists>a b. s = a @ b \<and> sql_like (q @ ''%'') b)"
    by (simp only: append_Cons append_Nil sql_like_percent)
  then show ?thesis using assms by (simp add: sql_like_plain go_contains_iff del: sql_like.simps(2)) blast
qed

lemma sql_page_length: "limit > 0 \<Longrightarrow> length (sql_page limit skip xs) \<le> nat limit"
  by (simp add: sql_page_def Let_def)

lemma sql_page_set: "set (sql_page limit skip xs) \<subseteq> set xs"
  by (auto simp: sql_page_def Let_def dest: in_set_takeD in_set_dropD)

subsection \<open>Listing\<close>

record incident_filter =
  if_status :: string
  if_severity :: string
  if_priority :: string
  if_service :: string
  if_commander :: string
  if_search :: string
  if_start :: "instant option"
  if_end :: "instant option"
  if_limit :: int
  if_skip :: int
  if_sort :: string

text \<open>An id that does not parse is no condition.\<close>

definition id_matches :: "(string \<Rightarrow> uuid option) \<Rightarrow> string \<Rightarrow> uuid option \<Rightarrow> bool" where
  "id_matches parse q v = (q = [] \<or> (case parse q of None \<Rightarrow> True | Some k \<Rightarrow> v = Some k))"

definition incident_selected :: "(string \<Rightarrow> uuid option) \<Rightarrow> incident_filter \<Rightarrow> incident \<Rightarrow> bool" where
  "incident_selected parse f r =
     (in_deleted r = None \<and>
      (if_status f = [] \<or> in_status r = if_status f) \<and>
      (if_severity f = [] \<or> in_severity r = if_severity f) \<and>
      (if_priority f = [] \<or> in_priority r = if_priority f) \<and>
      id_matches parse (if_service f) (in_service r) \<and>
      id_matches parse (if_commander f) (in_commander r) \<and>
      (if_search f = [] \<or> sql_ilike (''%'' @ if_search f @ ''%'') (in_title r)) \<and>
      (case if_start f of None \<Rightarrow> True | Some t \<Rightarrow> t \<le> in_created r) \<and>
      (case if_end f of None \<Rightarrow> True | Some t \<Rightarrow> in_created r \<le> t))"

text \<open>The order the query asks for.\<close>

definition incident_order :: "string \<Rightarrow> incident \<Rightarrow> int" where
  "incident_order s r =
     (if s = ''-created_at'' then in_created r
      else if s = ''updated_at'' then - in_updated r
      else if s = ''-updated_at'' then in_updated r
      else if List.member [''severity'', ''severity_desc'', ''-severity'', ''severity_asc'', ''priority'', ''priority_asc''] s
      then in_created r
      else - in_created r)"

text \<open>The order of the page in Go, where there is one.\<close>

definition incident_rank :: "string \<Rightarrow> (incident \<Rightarrow> int) option" where
  "incident_rank s =
     (if List.member [''priority'', ''priority_asc''] s then Some (\<lambda>r. PriorityRank (in_priority r))
      else if s = ''priority_desc'' then Some (\<lambda>r. - PriorityRank (in_priority r))
      else if List.member [''severity'', ''severity_desc''] s then Some (\<lambda>r. SeverityRank (in_severity r))
      else if List.member [''-severity'', ''severity_asc''] s then Some (\<lambda>r. - SeverityRank (in_severity r))
      else None)"

definition list_limit :: "int \<Rightarrow> int" where
  "list_limit n = (let l = (if n \<le> 0 then 20 else n) in if l > 100 then 100 else l)"

definition ListIncidents ::
    "((incident \<Rightarrow> int) \<Rightarrow> incident list \<Rightarrow> incident list) \<Rightarrow> (string \<Rightarrow> uuid option) \<Rightarrow> incident_filter
     \<Rightarrow> incident list \<Rightarrow> incident list \<times> nat" where
  "ListIncidents sort_func parse f tab =
     (let sel = filter (incident_selected parse f) tab;
          page = sql_page (list_limit (if_limit f)) (if_skip f) (sort_key (incident_order (if_sort f)) sel)
      in (case incident_rank (if_sort f) of None \<Rightarrow> page | Some rank \<Rightarrow> sort_func rank page, length sel))"

definition ListSLAEligibleIncidents :: "incident list \<Rightarrow> incident list" where
  "ListSLAEligibleIncidents tab =
     filter (\<lambda>r. List.member [''detected'', ''triaging'', ''active'', ''mitigated''] (in_status r) \<and>
                 (in_sla_respond r \<noteq> None \<or> in_sla_resolve r \<noteq> None) \<and> in_deleted r = None) tab"

definition active_incident :: "incident \<Rightarrow> bool" where
  "active_incident r \<longleftrightarrow> \<not> List.member IncidentTerminalStatuses (in_status r) \<and> in_deleted r = None"

definition ListActiveSummarizableIncidents :: "incident list \<Rightarrow> incident list" where
  "ListActiveSummarizableIncidents tab =
     sort_key in_created
       (filter (\<lambda>r. List.member [''detected'', ''triaging'', ''active'', ''mitigated''] (in_status r) \<and>
                    (case in_slack_id r of None \<Rightarrow> False | Some c \<Rightarrow> c \<noteq> []) \<and> in_deleted r = None) tab)"

definition ListActiveIncidents :: "incident list \<Rightarrow> incident list" where
  "ListActiveIncidents tab =
     sort_key in_created
       (filter (\<lambda>r. \<not> List.member [''resolved'', ''closed'', ''cancelled''] (in_status r) \<and> in_deleted r = None) tab)"

definition ListActiveIncidentsForServices :: "uuid list \<Rightarrow> incident list \<Rightarrow> incident list" where
  "ListActiveIncidentsForServices ks tab =
     (if ks = [] then []
      else sort_key in_created
        (filter (\<lambda>r. \<not> List.member [''resolved'', ''closed'', ''cancelled''] (in_status r) \<and> in_deleted r = None \<and>
                     (case in_service r of None \<Rightarrow> False | Some k \<Rightarrow> List.member ks k)) tab))"

definition GetIncidentBySlackChannel :: "string \<Rightarrow> incident list \<Rightarrow> incident option" where
  "GetIncidentBySlackChannel c tab = find (\<lambda>r. in_slack_id r = Some c \<and> in_deleted r = None) tab"

subsection \<open>Counts by service\<close>

definition CountActiveByService :: "incident list \<Rightarrow> (uuid \<times> int) list" where
  "CountActiveByService tab =
     foldl (\<lambda>m r. case in_service r of
                   None \<Rightarrow> m
                 | Some k \<Rightarrow> mput k ((case map_of m k of None \<Rightarrow> 0 | Some n \<Rightarrow> n) + 1) m)
       [] (filter (\<lambda>r. active_incident r \<and> in_service r \<noteq> None) tab)"

definition CountActiveByServiceID :: "uuid \<Rightarrow> incident list \<Rightarrow> nat" where
  "CountActiveByServiceID k tab = length (filter (\<lambda>r. active_incident r \<and> in_service r = Some k) tab)"

text \<open>One row per priority; the empty priority goes into the map under \<^verbatim>\<open>P5\<close>.\<close>

definition CountActiveByPriority :: "uuid \<Rightarrow> incident list \<Rightarrow> (string \<times> nat) list" where
  "CountActiveByPriority k tab =
     (let rows = filter (\<lambda>r. active_incident r \<and> in_service r = Some k) tab;
          results = map (\<lambda>p. (p, length (filter (\<lambda>r. in_priority r = p) rows))) (remdups (map in_priority rows))
      in foldl (\<lambda>m (p, n). mput (if p = [] then ''P5'' else p) n m) [] results)"

subsection \<open>Timelines\<close>

record timeline_entry =
  te_id :: uuid
  te_incident :: uuid
  te_event :: string
  te_actor :: "uuid option"
  te_actor_type :: string
  te_message :: string
  te_metadata :: "string option"
  te_created :: instant

definition AddTimelineEntry ::
    "uuid \<Rightarrow> instant \<Rightarrow> int \<Rightarrow> timeline_entry \<Rightarrow> incident list \<Rightarrow> timeline_entry list
     \<Rightarrow> incident_error option \<times> timeline_entry list" where
  "AddTimelineEntry k now n record tab es =
     (case live_incident n tab of
        None \<Rightarrow> (Some ErrIncidentNotFound, es)
      | Some inc \<Rightarrow> (None, es @ [record\<lparr>te_id := k, te_created := now, te_incident := in_id inc\<rparr>]))"

definition GetTimeline :: "int \<Rightarrow> incident list \<Rightarrow> timeline_entry list \<Rightarrow> timeline_entry list" where
  "GetTimeline n tab es =
     (case live_incident n tab of
        None \<Rightarrow> []
      | Some inc \<Rightarrow> sort_key te_created (filter (\<lambda>e. te_incident e = in_id inc) es))"

text \<open>A read by id sees tombstones, and brings the timeline along.\<close>

definition GetIncidentByID ::
    "uuid \<Rightarrow> incident list \<Rightarrow> timeline_entry list \<Rightarrow> (incident \<times> timeline_entry list) option" where
  "GetIncidentByID k tab es =
     map_option (\<lambda>r. (r, sort_key te_created (filter (\<lambda>e. te_incident e = in_id r) es))) (find (\<lambda>r. in_id r = k) tab)"

subsection \<open>Lemmas\<close>

text \<open>Pages of one size, one after another, give the longer page.\<close>

lemma sql_page_append:
  assumes "0 < l" and "0 \<le> k" and "0 < m"
  shows "sql_page l k xs @ sql_page m (k + l) xs = sql_page (l + m) k xs"
proof -
  have "nat (k + l) = nat k + nat l" "nat (l + m) = nat l + nat m" using assms by simp_all
  with assms show ?thesis
    by (cases "k = 0") (simp_all add: sql_page_def take_add add.commute)
qed

lemma count_priorities_sum:
  assumes "\<And>p. p \<in> set (map f rows) \<Longrightarrow> p \<in> set ps" and "distinct ps"
  shows "sum_list (map (\<lambda>p. w p * length (filter (\<lambda>r. f r = p) rows)) ps) = sum_list (map (\<lambda>r. w (f r)) rows)"
  using assms
proof (induction rows)
  case Nil
  then show ?case by (simp add: sum_list_0)
next
  case (Cons r rows)
  have "sum_list (map (\<lambda>p. w p * length (filter (\<lambda>x. f x = p) (r # rows))) ps)
      = sum_list (map (\<lambda>p. (if p = f r then w p else 0) + w p * length (filter (\<lambda>x. f x = p) rows)) ps)"
    by (rule arg_cong [of _ _ sum_list], rule map_cong) auto
  also have "\<dots> = sum_list (map (\<lambda>p. if p = f r then w p else 0) ps) + sum_list (map (\<lambda>p. w p * length (filter (\<lambda>x. f x = p) rows)) ps)"
    by (rule sum_list_addf)
  also have "sum_list (map (\<lambda>p. if p = f r then w p else 0) ps) = w (f r)"
    using Cons.prems by (simp add: sum_list_distinct_conv_sum_set sum.delta)
  also have "sum_list (map (\<lambda>p. w p * length (filter (\<lambda>x. f x = p) rows)) ps) = sum_list (map (\<lambda>r. w (f r)) rows)"
    using Cons by simp
  finally show ?case by simp
qed

lemma foldl_mput_fresh:
  "distinct (map fst m @ map fst es) \<Longrightarrow> foldl (\<lambda>m (p, n). mput p n m) m es = m @ es"
proof (induction es arbitrary: m)
  case Nil
  then show ?case by simp
next
  case (Cons e es)
  have "mput (fst e) (snd e) m = m @ [e]" if "fst e \<notin> set (map fst m)"
    using that by (induction m) (auto simp: prod_eq_iff)
  with Cons show ?case by (cases e) auto
qed

text \<open>Valid priorities are never empty, so each one keeps its own count.\<close>

lemma CountActiveByPriority_plain:
  assumes "\<And>r. r \<in> set tab \<Longrightarrow> in_priority r \<noteq> []"
  shows "CountActiveByPriority k tab =
    (let rows = filter (\<lambda>r. active_incident r \<and> in_service r = Some k) tab
     in map (\<lambda>p. (p, length (filter (\<lambda>r. in_priority r = p) rows))) (remdups (map in_priority rows)))"
proof -
  let ?rows = "filter (\<lambda>r. active_incident r \<and> in_service r = Some k) tab"
  let ?es = "map (\<lambda>p. (p, length (filter (\<lambda>r. in_priority r = p) ?rows))) (remdups (map in_priority ?rows))"
  have "foldl (\<lambda>m (p, n). mput (if p = [] then ''P5'' else p) n m) [] ?es = foldl (\<lambda>m (p, n). mput p n m) [] ?es"
    using assms by (intro foldl_cong) auto
  also have "\<dots> = ?es" by (simp add: foldl_mput_fresh comp_def)
  finally show ?thesis unfolding CountActiveByPriority_def Let_def .
qed

lemma CountActiveByServiceID_by_priority:
  assumes "\<And>r. r \<in> set tab \<Longrightarrow> in_priority r \<noteq> []"
  shows "sum_list (map snd (CountActiveByPriority k tab)) = CountActiveByServiceID k tab"
  using count_priorities_sum [of in_priority "filter (\<lambda>r. active_incident r \<and> in_service r = Some k) tab"
      "remdups (map in_priority (filter (\<lambda>r. active_incident r \<and> in_service r = Some k) tab))" "\<lambda>_. 1"]
  by (simp add: CountActiveByPriority_plain [OF assms] CountActiveByServiceID_def Let_def comp_def sum_list_triv)

lemma list_limit_bounds: "1 \<le> list_limit n \<and> list_limit n \<le> 100"
  by (simp add: list_limit_def Let_def)

text \<open>A listing of incidents holds at most 100, each of them selected by the filter and none deleted, together
  with the number of all that are selected. Asked for by a sort on priority or severity, the page consists of the oldest
  incidents of the selection, and the rank only orders these among themselves: an urgent incident behind the page limit
  is never brought forward.\<close>

theorem rank_orders_the_page_only:
  fixes sort_func :: "(incident \<Rightarrow> int) \<Rightarrow> incident list \<Rightarrow> incident list"
    and parse :: "string \<Rightarrow> uuid option" and f :: incident_filter and tab :: "incident list"
  assumes permutes: "\<And>key xs. mset (sort_func key xs) = mset xs"
    and ranked: "s \<in> {''priority'', ''priority_asc'', ''severity'', ''severity_desc'', ''-severity'', ''severity_asc''}"
  defines "l \<equiv> ListIncidents sort_func parse (f\<lparr>if_sort := s\<rparr>) tab"
    and "oldest \<equiv> ListIncidents sort_func parse (f\<lparr>if_sort := ''-created_at''\<rparr>) tab"
  shows "mset (fst l) = mset (fst oldest) \<and> snd l = snd oldest \<and>
    length (fst l) \<le> 100 \<and> set (fst l) \<subseteq> {r \<in> set tab. incident_selected parse f r \<and> in_deleted r = None} \<and>
    snd l = length (filter (incident_selected parse f) tab)"
proof -
  let ?sel = "filter (incident_selected parse f) tab"
  let ?page = "sql_page (list_limit (if_limit f)) (if_skip f) (sort_key in_created ?sel)"
  have sel: "incident_selected parse (f\<lparr>if_sort := x\<rparr>) = incident_selected parse f" for x
    by (rule ext) (simp add: incident_selected_def)
  have order: "incident_order s = in_created" "incident_order ''-created_at'' = in_created"
    using ranked by (auto simp: incident_order_def)
  have "incident_rank s \<noteq> None" "incident_rank ''-created_at'' = None"
    using ranked by (auto simp: incident_rank_def)
  then obtain rank where rank: "incident_rank s = Some rank" by blast
  have l: "l = (sort_func rank ?page, length ?sel)"
    by (simp add: l_def ListIncidents_def sel order rank Let_def)
  have o: "oldest = (?page, length ?sel)"
    using \<open>incident_rank ''-created_at'' = None\<close> by (simp add: oldest_def ListIncidents_def sel order Let_def)
  have "length ?page \<le> nat (list_limit (if_limit f))"
    using list_limit_bounds [of "if_limit f"] by (intro sql_page_length) linarith
  then have len: "length ?page \<le> 100" using list_limit_bounds [of "if_limit f"] by linarith
  have "set ?page \<subseteq> set ?sel" using sql_page_set by fastforce
  then have sub: "set ?page \<subseteq> {r \<in> set tab. incident_selected parse f r \<and> in_deleted r = None}"
    by (auto simp: incident_selected_def)
  show ?thesis
    using permutes [of rank ?page] len sub mset_eq_length [OF permutes] mset_eq_setD [OF permutes]
    by (simp add: l o)
qed

definition urgent_behind :: "incident list" where
  "urgent_behind =
     [example_incident\<lparr>in_priority := ''P5''\<rparr>,
      example_incident\<lparr>in_id := 2, in_number := 8, in_priority := ''P1'', in_created := 6\<rparr>]"

definition first_by_priority :: incident_filter where
  "first_by_priority =
     \<lparr>if_status = [], if_severity = [], if_priority = [], if_service = [], if_commander = [], if_search = [],
      if_start = None, if_end = None, if_limit = 1, if_skip = 0, if_sort = ''priority''\<rparr>"

theorem rank_orders_the_page_only_witness:
  "mset (fst (ListIncidents sort_key (\<lambda>_. None) (first_by_priority\<lparr>if_sort := ''priority''\<rparr>) urgent_behind))
    = mset (fst (ListIncidents sort_key (\<lambda>_. None) (first_by_priority\<lparr>if_sort := ''-created_at''\<rparr>) urgent_behind))
   \<and> map in_priority (fst (ListIncidents sort_key (\<lambda>_. None) first_by_priority urgent_behind)) = [''P5'']"
proof -
  have "incident_selected (\<lambda>_. None) first_by_priority r" if "r \<in> set urgent_behind" for r
    using that by (auto simp: urgent_behind_def first_by_priority_def incident_selected_def example_incident_def id_matches_def)
  then have "filter (incident_selected (\<lambda>_. None) first_by_priority) urgent_behind = urgent_behind"
    by (simp add: filter_id_conv)
  then have "map in_priority (fst (ListIncidents sort_key (\<lambda>_. None) first_by_priority urgent_behind)) = [''P5'']"
    by (simp add: ListIncidents_def Let_def) (simp add: first_by_priority_def urgent_behind_def list_limit_def sql_page_def
        incident_order_def incident_rank_def example_incident_def PriorityRank_def)
  then show ?thesis
    using rank_orders_the_page_only [of sort_key "''priority''" "\<lambda>_. None" first_by_priority urgent_behind] by simp
qed

end
