(* ===== verification/Service_Graph.thy ===== *)
theory Service_Graph
  imports Incident_Queries Auth_Handlers Scheduler
begin

text \<open>
  Services, their dependencies and their status: the tables \<^verbatim>\<open>services\<close> and
  \<^verbatim>\<open>service_dependencies\<close> with the operations of \<^verbatim>\<open>store/service.go\<close>, the search for circular
  dependencies, the status tracker of \<^verbatim>\<open>servicetracker/tracker.go\<close>, the response cache of
  \<^verbatim>\<open>valkey/cache.go\<close> and the handlers of \<^verbatim>\<open>api/service.go\<close>.

  The constraints are those of migration \<^verbatim>\<open>00004_services.sql\<close>. The order of names in a listing is
  that of the database's collation, a parameter. A service id travels between the store and the
  tracker as the canonical text of its UUID, which parses back to it, so the tracker is stated over
  UUIDs. Scores are natural numbers: the code adds small integers in floating point, exactly.
\<close>

subsection \<open>Tables\<close>

record service =
  svc_id :: uuid
  svc_name :: string
  svc_display :: string
  svc_description :: string
  svc_owner :: "uuid option"
  svc_policy :: "uuid option"
  svc_matchers :: "string list option" \<comment> \<open>JSON objects as their texts; \<open>None\<close> is the nil slice\<close>
  svc_response :: int
  svc_resolve :: int
  svc_status :: string
  svc_created :: instant
  svc_updated :: instant

record dependency =
  dp_id :: uuid
  dp_service :: uuid
  dp_on :: uuid
  dp_type :: string
  dp_created :: instant

record services_db =
  sd_services :: "service list"
  sd_deps :: "dependency list"
  sd_incidents :: "incident list"
  sd_teams :: "uuid list"
  sd_policies :: "uuid list"

datatype service_error =
  InvalidServiceID | ErrServiceNotFound | ServiceDuplicate | ServiceCheck | ServiceForeignKey

definition service_statuses :: "string list" where
  "service_statuses = [''operational'', ''degraded'', ''partial_outage'', ''major_outage'', ''maintenance'']"

definition is_int32 :: "int \<Rightarrow> bool" where
  "is_int32 n = (- (2 ^ 31) \<le> n \<and> n < 2 ^ 31)"

text \<open>The constraint a row breaks among \<open>others\<close>, if any.\<close>

definition service_violation :: "services_db \<Rightarrow> service list \<Rightarrow> service \<Rightarrow> service_error option" where
  "service_violation db others r =
     (if \<not> List.member service_statuses (svc_status r) \<or> svc_response r < 0 \<or> svc_resolve r < 0 \<or>
         \<not> is_int32 (svc_response r) \<or> \<not> is_int32 (svc_resolve r) then Some ServiceCheck
      else if list_ex (\<lambda>x. svc_id x = svc_id r \<or> svc_name x = svc_name r) others then Some ServiceDuplicate
      else if (case svc_owner r of None \<Rightarrow> False | Some t \<Rightarrow> \<not> List.member (sd_teams db) t) \<or>
              (case svc_policy r of None \<Rightarrow> False | Some p \<Rightarrow> \<not> List.member (sd_policies db) p)
      then Some ServiceForeignKey
      else None)"

definition dependency_violation :: "services_db \<Rightarrow> dependency \<Rightarrow> service_error option" where
  "dependency_violation db r =
     (if dp_service r = dp_on r \<or> \<not> List.member [''depends_on'', ''hard'', ''soft''] (dp_type r) then Some ServiceCheck
      else if list_ex (\<lambda>x. dp_id x = dp_id r \<or> dp_service x = dp_service r \<and> dp_on x = dp_on r) (sd_deps db)
      then Some ServiceDuplicate
      else if \<not> list_ex (\<lambda>s. svc_id s = dp_service r) (sd_services db) \<or>
              \<not> list_ex (\<lambda>s. svc_id s = dp_on r) (sd_services db) then Some ServiceForeignKey
      else None)"

subsection \<open>The store\<close>

definition CreateService ::
    "uuid \<Rightarrow> instant \<Rightarrow> service \<Rightarrow> services_db \<Rightarrow> (service_error + service) \<times> services_db" where
  "CreateService k now record db =
     (let m = record\<lparr>svc_id := k, svc_status := or_default (svc_status record) ''operational'',
                    svc_matchers := Some (case svc_matchers record of None \<Rightarrow> [] | Some l \<Rightarrow> l),
                    svc_created := now, svc_updated := now\<rparr>
      in case service_violation db (sd_services db) m of
           Some e \<Rightarrow> (Inl e, db)
         | None \<Rightarrow> (Inr (m\<lparr>svc_matchers := svc_matchers record\<rparr>), db\<lparr>sd_services := sd_services db @ [m]\<rparr>))"

definition GetService :: "uuid \<Rightarrow> services_db \<Rightarrow> service option" where
  "GetService k db = find (\<lambda>s. svc_id s = k) (sd_services db)"

definition GetServiceByName :: "string \<Rightarrow> services_db \<Rightarrow> service option" where
  "GetServiceByName n db = find (\<lambda>s. svc_name s = n) (sd_services db)"

text \<open>Only a status that is not empty and matchers that are not nil are written.\<close>

definition service_set :: "instant \<Rightarrow> service \<Rightarrow> service \<Rightarrow> service" where
  "service_set now record r =
     r\<lparr>svc_name := svc_name record, svc_display := svc_display record,
       svc_description := svc_description record, svc_response := svc_response record,
       svc_resolve := svc_resolve record, svc_updated := now,
       svc_status := or_default (svc_status record) (svc_status r),
       svc_owner := svc_owner record, svc_policy := svc_policy record,
       svc_matchers := (case svc_matchers record of None \<Rightarrow> svc_matchers r | Some l \<Rightarrow> Some l)\<rparr>"

definition put_service :: "service \<Rightarrow> services_db \<Rightarrow> services_db" where
  "put_service r db = db\<lparr>sd_services := map (\<lambda>s. if svc_id s = svc_id r then r else s) (sd_services db)\<rparr>"

definition UpdateService ::
    "uuid \<Rightarrow> instant \<Rightarrow> service \<Rightarrow> services_db \<Rightarrow> (service_error + service) \<times> services_db" where
  "UpdateService k now record db =
     (case GetService k db of
        None \<Rightarrow> (Inl ErrServiceNotFound, db)
      | Some r \<Rightarrow>
          let r' = service_set now record r
          in case service_violation db (filter (\<lambda>s. svc_id s \<noteq> k) (sd_services db)) r' of
               Some e \<Rightarrow> (Inl e, db)
             | None \<Rightarrow> (Inr r', put_service r' db))"

text \<open>The foreign keys of incidents to a deleted service are set to null; a transaction rolls back
  the deleted dependencies when the service does not exist.\<close>

definition DeleteService :: "uuid \<Rightarrow> services_db \<Rightarrow> service_error option \<times> services_db" where
  "DeleteService k db =
     (let deps = filter (\<lambda>d. \<not> (dp_service d = k \<or> dp_on d = k)) (sd_deps db)
      in if list_ex (\<lambda>s. svc_id s = k) (sd_services db)
         then (None, db\<lparr>sd_deps := deps, sd_services := filter (\<lambda>s. svc_id s \<noteq> k) (sd_services db),
                         sd_incidents := map (\<lambda>i. if in_service i = Some k then i\<lparr>in_service := None\<rparr> else i)
                           (sd_incidents db)\<rparr>)
         else (Some ErrServiceNotFound, db))"

record list_services_filter =
  lf_status :: string
  lf_query :: string
  lf_limit :: int
  lf_skip :: int

definition service_matches :: "list_services_filter \<Rightarrow> service \<Rightarrow> bool" where
  "service_matches f s =
     ((lf_status f = [] \<or> svc_status s = lf_status f) \<and>
      (lf_query f = [] \<or>
       (let p = ''%'' @ lf_query f @ ''%''
        in sql_like p (svc_name s) \<or> sql_like p (svc_display s) \<or> sql_like p (svc_description s))))"

definition ListServices ::
    "(string \<Rightarrow> 'k::linorder) \<Rightarrow> list_services_filter \<Rightarrow> services_db \<Rightarrow> service list \<times> nat" where
  "ListServices collate f db =
     (let ms = filter (service_matches f) (sd_services db)
      in (sql_page (lf_limit f) (lf_skip f) (sort_key (\<lambda>s. collate (svc_name s)) ms), length ms))"

definition UpdateServiceStatus ::
    "uuid \<Rightarrow> instant \<Rightarrow> string \<Rightarrow> services_db \<Rightarrow> service_error option \<times> services_db" where
  "UpdateServiceStatus k now status db =
     (case GetService k db of
        None \<Rightarrow> (Some ErrServiceNotFound, db)
      | Some r \<Rightarrow>
          if \<not> List.member service_statuses status then (Some ServiceCheck, db)
          else (None, put_service (r\<lparr>svc_status := status, svc_updated := now\<rparr>) db))"

definition AddDependency ::
    "uuid \<Rightarrow> instant \<Rightarrow> uuid \<Rightarrow> uuid \<Rightarrow> string \<Rightarrow> services_db \<Rightarrow> service_error option \<times> services_db" where
  "AddDependency k now serviceID dependsOnID depType db =
     (let m = \<lparr>dp_id = k, dp_service = serviceID, dp_on = dependsOnID, dp_type = depType, dp_created = now\<rparr>
      in case dependency_violation db m of
           Some e \<Rightarrow> (Some e, db)
         | None \<Rightarrow> (None, db\<lparr>sd_deps := sd_deps db @ [m]\<rparr>))"

definition RemoveDependency :: "uuid \<Rightarrow> uuid \<Rightarrow> services_db \<Rightarrow> services_db" where
  "RemoveDependency serviceID targetID db =
     db\<lparr>sd_deps := filter (\<lambda>d. \<not> (dp_service d = serviceID \<and> dp_on d = targetID)) (sd_deps db)\<rparr>"

definition name_of_service :: "services_db \<Rightarrow> uuid \<Rightarrow> string" where
  "name_of_service db k = (case GetService k db of None \<Rightarrow> [] | Some s \<Rightarrow> svc_name s)"

text \<open>The dependencies of a service, and those on it, each with the name of the other end.\<close>

definition GetDependencies :: "uuid \<Rightarrow> services_db \<Rightarrow> (dependency \<times> string) list" where
  "GetDependencies serviceID db =
     map (\<lambda>d. (d, name_of_service db (dp_on d))) (filter (\<lambda>d. dp_service d = serviceID) (sd_deps db))"

definition GetDependents :: "uuid \<Rightarrow> services_db \<Rightarrow> (dependency \<times> string) list" where
  "GetDependents serviceID db =
     map (\<lambda>d. (d, name_of_service db (dp_service d))) (filter (\<lambda>d. dp_on d = serviceID) (sd_deps db))"

subsection \<open>Circular dependencies\<close>

text \<open>One round of the inner loop: \<open>None\<close> when the service itself is met.\<close>

fun scan_deps :: "uuid \<Rightarrow> (dependency \<times> string) list \<Rightarrow> uuid list \<Rightarrow> uuid list \<Rightarrow> (uuid list \<times> uuid list) option" where
  "scan_deps s [] visited queue = Some (visited, queue)"
| "scan_deps s (d # ds) visited queue =
     (let t = dp_on (fst d)
      in if t = s then None
         else if List.member visited t then scan_deps s ds visited queue
         else scan_deps s ds (t # visited) (queue @ [t]))"

definition dep_targets :: "services_db \<Rightarrow> uuid set" where
  "dep_targets db = dp_on ` set (sd_deps db)"

lemma finite_dep_targets [simp]: "finite (dep_targets db)"
  by (simp add: dep_targets_def)

text \<open>The round never adds more to the queue than it takes from the targets not yet visited.\<close>

lemma scan_deps_measure:
  assumes "scan_deps s ds visited queue = Some (visited', queue')" and "finite T"
    and "dp_on ` fst ` set ds \<subseteq> T"
  shows "card (T - set visited') + length queue' = card (T - set visited) + length queue"
  using assms
proof (induction ds arbitrary: visited queue)
  case Nil
  then show ?case by simp
next
  case (Cons d ds)
  let ?t = "dp_on (fst d)"
  have t: "?t \<in> T" "dp_on ` fst ` set ds \<subseteq> T" using Cons.prems(3) by auto
  have ne: "?t \<noteq> s" using Cons.prems(1) by (auto simp: Let_def)
  show ?case
  proof (cases "?t \<in> set visited")
    case True
    with Cons.prems(1) ne have "scan_deps s ds visited queue = Some (visited', queue')"
      by (simp add: Let_def)
    from Cons.IH [OF this \<open>finite T\<close> t(2)] show ?thesis .
  next
    case False
    have "T - set (?t # visited) = T - set visited - {?t}" by auto
    with False t(1) \<open>finite T\<close> have "card (T - set visited) = Suc (card (T - set (?t # visited)))"
      by (metis DiffI card_Suc_Diff1 finite_Diff)
    moreover from False Cons.prems(1) ne
    have "scan_deps s ds (?t # visited) (queue @ [?t]) = Some (visited', queue')"
      by (simp add: Let_def)
    from Cons.IH [OF this \<open>finite T\<close> t(2)]
    have "card (T - set visited') + length queue' = card (T - set (?t # visited)) + length (queue @ [?t])" .
    ultimately show ?thesis by (simp only: length_append list.size)
  qed
qed

function circular_loop :: "services_db \<Rightarrow> uuid \<Rightarrow> uuid list \<Rightarrow> uuid list \<Rightarrow> bool" where
  "circular_loop db s visited [] = False"
| "circular_loop db s visited (current # queue) =
     (case scan_deps s (GetDependencies current db) visited queue of
        None \<Rightarrow> True
      | Some vq \<Rightarrow> circular_loop db s (fst vq) (snd vq))"
  by pat_completeness auto

lemma GetDependencies_targets: "dp_on ` fst ` set (GetDependencies c db) \<subseteq> dep_targets db"
  by (auto simp: GetDependencies_def dep_targets_def)

termination circular_loop
proof (relation "measure (\<lambda>(db, s, visited, queue). card (dep_targets db - set visited) + length queue)", simp)
  fix db s visited current queue and vq :: "uuid list \<times> uuid list"
  assume "scan_deps s (GetDependencies current db) visited queue = Some vq"
  then have "scan_deps s (GetDependencies current db) visited queue = Some (fst vq, snd vq)" by simp
  from scan_deps_measure [OF this finite_dep_targets GetDependencies_targets]
  show "((db, s, fst vq, snd vq), (db, s, visited, current # queue))
        \<in> measure (\<lambda>(db, s, visited, queue). card (dep_targets db - set visited) + length queue)"
    by (simp add: case_prod_beta)
qed

definition HasCircularDependency :: "uuid \<Rightarrow> uuid \<Rightarrow> services_db \<Rightarrow> bool" where
  "HasCircularDependency serviceID dependsOnID db = circular_loop db serviceID [dependsOnID] [dependsOnID]"

subsection \<open>The status tracker\<close>

definition priorityWeight :: "string \<Rightarrow> nat" where
  "priorityWeight priority =
     (if priority = ''P1'' then 5 else if priority = ''P2'' then 4 else if priority = ''P3'' then 3
      else if priority = ''P4'' then 2 else if priority = ''P5'' then 1 else 1)"

definition scoreToStatus :: "nat \<Rightarrow> string" where
  "scoreToStatus score =
     (if score = 0 then ''operational'' else if score \<le> 4 then ''degraded''
      else if score \<le> 9 then ''partial_outage'' else ''major_outage'')"

definition calculateWeightedStatus :: "uuid \<Rightarrow> services_db \<Rightarrow> string" where
  "calculateWeightedStatus k db =
     scoreToStatus (sum_list (map (\<lambda>(p, count). priorityWeight p * count) (CountActiveByPriority k (sd_incidents db))))"

datatype service_event =
  ServiceUpdated service | ServiceDeleted string | ServiceStatusChanged uuid string string

text \<open>What one service contributes to the cascade: \<open>None\<close> for every \<^verbatim>\<open>continue\<close> of the loop.\<close>

definition cascade_step :: "instant \<Rightarrow> uuid \<Rightarrow> services_db \<Rightarrow> (services_db \<times> service_event \<times> uuid list) option" where
  "cascade_step now k db =
     (case GetService k db of
        None \<Rightarrow> None
      | Some current \<Rightarrow>
          let newStatus = calculateWeightedStatus k db
          in if svc_status current = newStatus then None
             else case UpdateServiceStatus k now newStatus db of
                    (Some e, db') \<Rightarrow> None
                  | (None, db') \<Rightarrow>
                      Some (db', ServiceStatusChanged k (svc_status current) newStatus,
                            map (\<lambda>d. dp_service (fst d)) (GetDependents k db')))"

definition service_ids :: "services_db \<Rightarrow> uuid list" where
  "service_ids db = map svc_id (sd_services db)"

lemma put_service_ids [simp]: "service_ids (put_service r db) = service_ids db"
  by (simp add: service_ids_def put_service_def comp_def if_distrib cong: if_cong)

lemma GetService_SomeD: "GetService k db = Some r \<Longrightarrow> r \<in> set (sd_services db) \<and> svc_id r = k"
  by (auto simp: GetService_def find_Some_iff)

lemma GetService_None_iff: "GetService k db = None \<longleftrightarrow> k \<notin> set (service_ids db)"
  by (auto simp: GetService_def service_ids_def find_None_iff)

lemma cascade_step_ids:
  assumes "cascade_step now k db = Some (db', e, ds)"
  shows "service_ids db' = service_ids db" "k \<in> set (service_ids db)"
proof -
  from assms obtain r where r: "GetService k db = Some r"
    by (cases "GetService k db") (simp_all add: cascade_step_def)
  then show "k \<in> set (service_ids db)" using GetService_None_iff by force
  from r assms show "service_ids db' = service_ids db"
    by (auto simp: cascade_step_def UpdateServiceStatus_def Let_def split: if_splits)
qed

function status_loop ::
    "instant \<Rightarrow> uuid list \<Rightarrow> uuid list \<Rightarrow> services_db \<Rightarrow> service_event list \<Rightarrow> services_db \<times> service_event list" where
  "status_loop now visited [] db es = (db, es)"
| "status_loop now visited (k # queue) db es =
     (if List.member visited k then status_loop now visited queue db es
      else case cascade_step now k db of
             None \<Rightarrow> status_loop now (k # visited) queue db es
           | Some r \<Rightarrow> status_loop now (k # visited) (queue @ snd (snd r)) (fst r) (es @ [fst (snd r)]))"
  by pat_completeness auto

termination status_loop
proof (relation "measures [\<lambda>(now, visited, queue, db, es). card (set (service_ids db) - set visited),
    \<lambda>(now, visited, queue, db, es). length queue]", goal_cases)
  case 1
  then show ?case by simp
next
  case (2 now visited k queue db es)
  then show ?case by simp
next
  case (3 now visited k queue db es)
  have "card (set (service_ids db) - insert k (set visited)) \<le> card (set (service_ids db) - set visited)"
    by (rule card_mono) auto
  then show ?case by auto
next
  case (4 now visited k queue db es r)
  then have "cascade_step now k db = Some (fst r, fst (snd r), snd (snd r))" by simp
  from cascade_step_ids [OF this] 4(1)
  have "card (set (service_ids (fst r)) - set (k # visited)) < card (set (service_ids db) - set visited)"
    by (intro psubset_card_mono) auto
  then show ?case by simp
qed

definition PropagateAndCascade :: "instant \<Rightarrow> uuid \<Rightarrow> services_db \<Rightarrow> services_db \<times> service_event list" where
  "PropagateAndCascade now k db = status_loop now [] [k] db []"

text \<open>Started in the background after a change of an incident.\<close>

definition propagateServiceStatus :: "instant \<Rightarrow> incident option \<Rightarrow> services_db \<Rightarrow> services_db \<times> service_event list" where
  "propagateServiceStatus now inc db =
     (case inc of
        None \<Rightarrow> (db, [])
      | Some i \<Rightarrow> (case in_service i of None \<Rightarrow> (db, []) | Some k \<Rightarrow> PropagateAndCascade now k db))"

subsection \<open>The response cache\<close>

text \<open>Keys to texts with their expiry; no cache at all when Valkey is not configured. An entry whose time to live
  rounds down to no second is refused by the server.\<close>

type_synonym cache = "(string \<times> string \<times> instant) list option"

definition cache_get :: "instant \<Rightarrow> string \<Rightarrow> (string \<times> string \<times> instant) list \<Rightarrow> string option" where
  "cache_get now key c = (case map_of c key of None \<Rightarrow> None | Some (v, e) \<Rightarrow> if now < e then Some v else None)"

definition GetOrSet :: "instant \<Rightarrow> string \<Rightarrow> int \<Rightarrow> 'e + string \<Rightarrow> cache \<Rightarrow> ('e + string) \<times> cache" where
  "GetOrSet now key ttl fetched cc =
     (case cc of
        None \<Rightarrow> (fetched, None)
      | Some c \<Rightarrow>
          (case cache_get now key c of
             Some data \<Rightarrow> if data \<noteq> [] then (Inr data, cc)
                          else (case fetched of Inl e \<Rightarrow> (Inl e, cc)
                                | Inr v \<Rightarrow> (Inr v, Some (if ttl div go_second > 0 then mput key (v, now + ttl div go_second * go_second) c else c)))
           | None \<Rightarrow>
               (case fetched of
                  Inl e \<Rightarrow> (Inl e, cc)
                | Inr v \<Rightarrow> (Inr v, Some (if ttl div go_second > 0 then mput key (v, now + ttl div go_second * go_second) c else c)))))"

definition Invalidate :: "string \<Rightarrow> cache \<Rightarrow> cache" where
  "Invalidate key cc = map_option (filter (\<lambda>e. fst e \<noteq> key)) cc"

definition InvalidatePrefix :: "string \<Rightarrow> cache \<Rightarrow> cache" where
  "InvalidatePrefix pre cc = map_option (filter (\<lambda>e. \<not> go_has_prefix (fst e) pre)) cc"

definition PrefixServicesList :: string where "PrefixServicesList = ''alga:cache:services:list''"
definition PrefixDashboardStats :: string where "PrefixDashboardStats = ''alga:cache:dashboard:stats''"
definition TTLServicesList :: int where "TTLServicesList = 30 * go_second"

subsection \<open>Handlers\<close>

datatype svc_body =
    SvcRecord service
  | SvcDetail service "(dependency \<times> string) list" "(dependency \<times> string) list" nat
  | SvcRaw string
  | SvcDependencies "(dependency \<times> string) list"
  | SvcIncidents "incident list"
  | SvcStatus string

type_synonym svc_answer = "ErrorCode \<times> string + svc_body"

record svc_world =
  vw_db :: services_db
  vw_cache :: cache
  vw_audit :: "(string \<times> string) list" \<comment> \<open>event and service id\<close>
  vw_events :: "service_event list"

text \<open>Functions of libraries: parsing and printing of UUIDs, the JSON of a listing, the database's
  collation, Go's sort.\<close>

record 'k svc_env =
  ve_parse :: "string \<Rightarrow> uuid option"
  ve_show :: "uuid \<Rightarrow> string"
  ve_json :: "service list \<times> nat \<Rightarrow> string"
  ve_collate :: "string \<Rightarrow> 'k"
  ve_sort :: "(incident \<Rightarrow> int) \<Rightarrow> incident list \<Rightarrow> incident list"
  ve_services :: bool \<comment> \<open>the service store is configured\<close>
  ve_incidents :: bool

type_synonym svc_handler = "svc_world \<Rightarrow> svc_answer \<times> svc_world"

definition svc_fail :: "ErrorCode \<Rightarrow> string \<Rightarrow> svc_answer" where
  "svc_fail c m = Inl (c, m)"

text \<open>The permission and the store every handler asks for first.\<close>

definition svc_guarded :: "auth_ctx \<Rightarrow> string \<Rightarrow> bool \<Rightarrow> svc_handler \<Rightarrow> svc_handler" where
  "svc_guarded cx perm configured h w =
     (case CheckPermission cx [perm] of
        Some a \<Rightarrow> ((case fst a of Inl e \<Rightarrow> Inl e | Inr _ \<Rightarrow> svc_fail ErrorCodeInternal []), w)
      | None \<Rightarrow> if \<not> configured then (svc_fail ErrorCodeInternal ''store not configured'', w) else h w)"

definition svc_audit :: "string \<Rightarrow> string \<Rightarrow> svc_world \<Rightarrow> svc_world" where
  "svc_audit event i w = w\<lparr>vw_audit := vw_audit w @ [(event, i)]\<rparr>"

definition svc_publish :: "service_event \<Rightarrow> svc_world \<Rightarrow> svc_world" where
  "svc_publish e w = w\<lparr>vw_events := vw_events w @ [e]\<rparr>"

definition invalidateServicesCache :: "svc_world \<Rightarrow> svc_world" where
  "invalidateServicesCache w =
     w\<lparr>vw_cache := Invalidate PrefixDashboardStats (InvalidatePrefix PrefixServicesList (vw_cache w))\<rparr>"

text \<open>A \<^verbatim>\<open>limit\<close> and a \<^verbatim>\<open>skip\<close> that are absent or do not parse are \<open>None\<close>.\<close>

definition MaxQueryLimit :: int where "MaxQueryLimit = 500"

definition ParseLimitSkip :: "int option \<Rightarrow> int option \<Rightarrow> int \<Rightarrow> int \<times> int" where
  "ParseLimitSkip limit skip defaultLimit =
     (min (case limit of None \<Rightarrow> defaultLimit | Some n \<Rightarrow> if n > 0 then n else defaultLimit) MaxQueryLimit,
      case skip of None \<Rightarrow> 0 | Some n \<Rightarrow> if n \<ge> 0 then n else 0)"

definition services_cache_key :: "list_services_filter \<Rightarrow> string" where
  "services_cache_key f =
     PrefixServicesList @ '':'' @ lf_status f @ '':'' @ lf_query f @ '':'' @ decimal (nat (lf_limit f)) @ '':'' @
       decimal (nat (lf_skip f))"

definition handleListServices ::
    "'k::linorder svc_env \<Rightarrow> auth_ctx \<Rightarrow> instant \<Rightarrow> string \<Rightarrow> string \<Rightarrow> int option \<Rightarrow> int option \<Rightarrow> svc_handler" where
  "handleListServices env cx now status q limit skip =
     svc_guarded cx ''services:read'' (ve_services env) (\<lambda>w.
       let (l, k) = ParseLimitSkip limit skip 100;
           f = \<lparr>lf_status = status, lf_query = q, lf_limit = l, lf_skip = k\<rparr>
       in case GetOrSet now (services_cache_key f) TTLServicesList
                 (Inr (ve_json env (ListServices (ve_collate env) f (vw_db w))) :: unit + string) (vw_cache w) of
            (Inl _, c) \<Rightarrow> (svc_fail ErrorCodeInternal ''failed to list services'', w\<lparr>vw_cache := c\<rparr>)
          | (Inr data, c) \<Rightarrow> (Inr (SvcRaw data), w\<lparr>vw_cache := c\<rparr>))"

record service_request =
  sr_name :: "string option"
  sr_display :: "string option"
  sr_description :: "string option"
  sr_owner :: "string option"
  sr_policy :: "string option"
  sr_matchers :: "string list option"
  sr_response :: "int option"
  sr_resolve :: "int option"

definition given :: "'a \<Rightarrow> 'a option \<Rightarrow> 'a" where
  "given d v = (case v of None \<Rightarrow> d | Some x \<Rightarrow> x)"

text \<open>An owner or a policy that is no UUID is left out. The body is \<open>None\<close> when it does not decode.\<close>

definition handleCreateService ::
    "'k svc_env \<Rightarrow> auth_ctx \<Rightarrow> uuid \<Rightarrow> instant \<Rightarrow> service_request option \<Rightarrow> svc_handler" where
  "handleCreateService env cx k now body =
     svc_guarded cx ''services:write'' (ve_services env) (\<lambda>w.
       case body of
         None \<Rightarrow> (svc_fail ErrorCodeValidationFailed ''invalid request body'', w)
       | Some rq \<Rightarrow>
           if go_trim_space (given [] (sr_name rq)) = [] then (svc_fail ErrorCodeValidationFailed ''name is required'', w)
           else
             let record = \<lparr>svc_id = 0, svc_name = go_trim_space (given [] (sr_name rq)),
                           svc_display = given [] (sr_display rq), svc_description = given [] (sr_description rq),
                           svc_owner = Option.bind (sr_owner rq) (ve_parse env),
                           svc_policy = Option.bind (sr_policy rq) (ve_parse env),
                           svc_matchers = sr_matchers rq, svc_response = given 0 (sr_response rq),
                           svc_resolve = given 0 (sr_resolve rq), svc_status = [],
                           svc_created = zero_time, svc_updated = zero_time\<rparr>
             in case CreateService k now record (vw_db w) of
                  (Inl e, db) \<Rightarrow>
                    (if e = ServiceDuplicate then svc_fail ErrorCodeConflict ''a service with this name already exists''
                     else svc_fail ErrorCodeInternal ''failed to create service'', w\<lparr>vw_db := db\<rparr>)
                | (Inr created, db) \<Rightarrow>
                    (Inr (SvcRecord created),
                     invalidateServicesCache
                       (svc_audit ''service_created'' (ve_show env (svc_id created)) (w\<lparr>vw_db := db\<rparr>))))"

definition getServiceOrError :: "'k svc_env \<Rightarrow> string \<Rightarrow> services_db \<Rightarrow> svc_answer + uuid \<times> service" where
  "getServiceOrError env i db =
     (case ve_parse env i of
        None \<Rightarrow> Inl (svc_fail ErrorCodeInternal ''failed to get service'')
      | Some k \<Rightarrow>
          (case GetService k db of
             None \<Rightarrow> Inl (svc_fail ErrorCodeNotFound ''service not found'')
           | Some r \<Rightarrow> Inr (k, r)))"

definition handleGetService :: "'k svc_env \<Rightarrow> auth_ctx \<Rightarrow> string \<Rightarrow> svc_handler" where
  "handleGetService env cx i =
     svc_guarded cx ''services:read'' (ve_services env) (\<lambda>w.
       case getServiceOrError env i (vw_db w) of
         Inl e \<Rightarrow> (e, w)
       | Inr (k, r) \<Rightarrow>
           (Inr (SvcDetail r (GetDependencies k (vw_db w)) (GetDependents k (vw_db w))
                   (if ve_incidents env then CountActiveByServiceID k (sd_incidents (vw_db w)) else 0)), w))"

definition patched :: "'k svc_env \<Rightarrow> service_request \<Rightarrow> service \<Rightarrow> service" where
  "patched env rq r =
     r\<lparr>svc_name := given (svc_name r) (sr_name rq), svc_display := given (svc_display r) (sr_display rq),
       svc_description := given (svc_description r) (sr_description rq),
       svc_owner := (case sr_owner rq of None \<Rightarrow> svc_owner r | Some t \<Rightarrow> ve_parse env t),
       svc_policy := (case sr_policy rq of None \<Rightarrow> svc_policy r | Some t \<Rightarrow> ve_parse env t),
       svc_matchers := (case sr_matchers rq of None \<Rightarrow> svc_matchers r | Some m \<Rightarrow> Some m),
       svc_response := given (svc_response r) (sr_response rq), svc_resolve := given (svc_resolve r) (sr_resolve rq)\<rparr>"

definition handlePatchService ::
    "'k svc_env \<Rightarrow> auth_ctx \<Rightarrow> instant \<Rightarrow> string \<Rightarrow> service_request option \<Rightarrow> svc_handler" where
  "handlePatchService env cx now i body =
     svc_guarded cx ''services:write'' (ve_services env) (\<lambda>w.
       case body of
         None \<Rightarrow> (svc_fail ErrorCodeValidationFailed ''invalid request body'', w)
       | Some rq \<Rightarrow>
           (case getServiceOrError env i (vw_db w) of
              Inl e \<Rightarrow> (e, w)
            | Inr (k, current) \<Rightarrow>
                (case UpdateService k now (patched env rq current) (vw_db w) of
                   (Inl e, db) \<Rightarrow> (svc_fail ErrorCodeInternal ''failed to update service'', w\<lparr>vw_db := db\<rparr>)
                 | (Inr updated, db) \<Rightarrow>
                     (Inr (SvcRecord updated),
                      invalidateServicesCache
                        (svc_publish (ServiceUpdated updated) (svc_audit ''service_updated'' i (w\<lparr>vw_db := db\<rparr>)))))))"

definition handleDeleteService :: "'k svc_env \<Rightarrow> auth_ctx \<Rightarrow> string \<Rightarrow> svc_handler" where
  "handleDeleteService env cx i =
     svc_guarded cx ''services:write'' (ve_services env) (\<lambda>w.
       case (case ve_parse env i of None \<Rightarrow> (Some InvalidServiceID, vw_db w) | Some k \<Rightarrow> DeleteService k (vw_db w)) of
         (Some e, db) \<Rightarrow>
           (if e = ErrServiceNotFound then svc_fail ErrorCodeNotFound ''service not found''
            else svc_fail ErrorCodeInternal ''failed to delete service'', w\<lparr>vw_db := db\<rparr>)
       | (None, db) \<Rightarrow>
           (Inr (SvcStatus ''deleted''),
            invalidateServicesCache
              (svc_publish (ServiceDeleted i) (svc_audit ''service_deleted'' i (w\<lparr>vw_db := db\<rparr>)))))"

definition handleListServiceDependencies :: "'k svc_env \<Rightarrow> auth_ctx \<Rightarrow> string \<Rightarrow> svc_handler" where
  "handleListServiceDependencies env cx i =
     svc_guarded cx ''services:read'' (ve_services env) (\<lambda>w.
       case ve_parse env i of
         None \<Rightarrow> (svc_fail ErrorCodeValidationFailed ''invalid service id'', w)
       | Some k \<Rightarrow> (Inr (SvcDependencies (GetDependencies k (vw_db w))), w))"

text \<open>Adding a dependency: the checks of the request, then the search, then the insertion, each of the
  latter on the database as it is at that moment.\<close>

definition add_request :: "'k svc_env \<Rightarrow> string \<Rightarrow> (string \<times> string) option \<Rightarrow> svc_answer + uuid \<times> uuid \<times> string" where
  "add_request env i body =
     (case body of
        None \<Rightarrow> Inl (svc_fail ErrorCodeValidationFailed ''invalid request body'')
      | Some (target, depType) \<Rightarrow>
          if target = [] then Inl (svc_fail ErrorCodeValidationFailed ''dependent_on_service_id is required'')
          else case (ve_parse env i, ve_parse env target) of
            (None, _) \<Rightarrow> Inl (svc_fail ErrorCodeValidationFailed ''invalid service id'')
          | (Some s, None) \<Rightarrow> Inl (svc_fail ErrorCodeValidationFailed ''invalid dependent_on_service_id'')
          | (Some s, Some d) \<Rightarrow>
              if s = d then Inl (svc_fail ErrorCodeValidationFailed ''cannot add self-dependency'')
              else Inr (s, d, or_default depType ''depends_on''))"

definition add_insert :: "uuid \<Rightarrow> instant \<Rightarrow> string \<Rightarrow> uuid \<times> uuid \<times> string \<Rightarrow> svc_handler" where
  "add_insert k now i r w =
     (case r of (s, d, depType) \<Rightarrow>
        (case AddDependency k now s d depType (vw_db w) of
           (Some e, db) \<Rightarrow> (svc_fail ErrorCodeInternal ''failed to add dependency'', w\<lparr>vw_db := db\<rparr>)
         | (None, db) \<Rightarrow>
             (Inr (SvcStatus ''added''), invalidateServicesCache (svc_audit ''service_updated'' i (w\<lparr>vw_db := db\<rparr>)))))"

definition handleAddServiceDependency ::
    "'k svc_env \<Rightarrow> auth_ctx \<Rightarrow> uuid \<Rightarrow> instant \<Rightarrow> string \<Rightarrow> (string \<times> string) option \<Rightarrow> svc_handler" where
  "handleAddServiceDependency env cx k now i body =
     svc_guarded cx ''services:write'' (ve_services env) (\<lambda>w.
       case add_request env i body of
         Inl e \<Rightarrow> (e, w)
       | Inr (s, d, depType) \<Rightarrow>
           if HasCircularDependency s d (vw_db w) then (svc_fail ErrorCodeConflict ''circular dependency detected'', w)
           else add_insert k now i (s, d, depType) w)"

definition handleRemoveServiceDependency :: "'k svc_env \<Rightarrow> auth_ctx \<Rightarrow> string \<Rightarrow> string \<Rightarrow> svc_handler" where
  "handleRemoveServiceDependency env cx i target =
     svc_guarded cx ''services:write'' (ve_services env) (\<lambda>w.
       case (ve_parse env i, ve_parse env target) of
         (None, _) \<Rightarrow> (svc_fail ErrorCodeValidationFailed ''invalid service id'', w)
       | (Some s, None) \<Rightarrow> (svc_fail ErrorCodeValidationFailed ''invalid target service id'', w)
       | (Some s, Some d) \<Rightarrow>
           (Inr (SvcStatus ''removed''),
            invalidateServicesCache
              (svc_audit ''service_updated'' i (w\<lparr>vw_db := RemoveDependency s d (vw_db w)\<rparr>))))"

definition handleListServiceIncidents ::
    "'k svc_env \<Rightarrow> auth_ctx \<Rightarrow> string \<Rightarrow> int option \<Rightarrow> int option \<Rightarrow> svc_handler" where
  "handleListServiceIncidents env cx i limit skip =
     svc_guarded cx ''incidents:read'' (ve_incidents env) (\<lambda>w.
       case ve_parse env i of
         None \<Rightarrow> (svc_fail ErrorCodeValidationFailed ''invalid service id'', w)
       | Some k \<Rightarrow>
           let (l, sk) = ParseLimitSkip limit skip 20;
               f = \<lparr>if_status = [], if_severity = [], if_priority = [], if_service = ve_show env k, if_commander = [],
                    if_search = [], if_start = None, if_end = None, if_limit = l, if_skip = sk, if_sort = []\<rparr>
           in (Inr (SvcIncidents (fst (ListIncidents (ve_sort env) (ve_parse env) f (sd_incidents (vw_db w))))), w))"

definition handleListServiceDependents :: "'k svc_env \<Rightarrow> auth_ctx \<Rightarrow> string \<Rightarrow> svc_handler" where
  "handleListServiceDependents env cx i =
     svc_guarded cx ''services:read'' (ve_services env) (\<lambda>w.
       case ve_parse env i of
         None \<Rightarrow> (svc_fail ErrorCodeValidationFailed ''invalid service id'', w)
       | Some k \<Rightarrow> (Inr (SvcDependencies (GetDependents k (vw_db w))), w))"

subsection \<open>Routes\<close>

text \<open>The path below \<^verbatim>\<open>/api/v1/services/\<close>. The suffixes are tried in this order, so a path that contains
  \<^verbatim>\<open>/dependencies/\<close> is never anything else.\<close>

datatype service_route =
    MissingServiceID | WrongMethod
  | RemoveDependencyRoute string string | DependentsRoute string | DependenciesRoute string
  | AddDependencyRoute string | IncidentsRoute string | GetRoute string | PatchRoute string | DeleteRoute string

definition trim_suffix :: "string \<Rightarrow> string \<Rightarrow> string" where
  "trim_suffix s p = (if go_has_suffix s p then take (length s - length p) s else s)"

definition sub_resource :: "string \<Rightarrow> string \<Rightarrow> string option" where
  "sub_resource name path =
     (if path = name \<or> go_has_suffix path (CHR ''/'' # name)
      then Some (let i = trim_suffix path (CHR ''/'' # name) in if i = name then [] else i) else None)"

definition serviceRoute :: "string \<Rightarrow> string \<Rightarrow> service_route" where
  "serviceRoute meth path =
     (if path = [] then MissingServiceID
      else case go_index path ''/dependencies/'' of
        Some idx \<Rightarrow>
          if meth \<noteq> ''DELETE'' then WrongMethod
          else RemoveDependencyRoute (take idx path) (drop (idx + length ''/dependencies/'') path)
      | None \<Rightarrow>
          (case sub_resource ''dependents'' path of
             Some i \<Rightarrow> if i = [] then MissingServiceID else DependentsRoute i
           | None \<Rightarrow>
               (case sub_resource ''dependencies'' path of
                  Some i \<Rightarrow>
                    if i = [] then MissingServiceID
                    else if meth = ''GET'' then DependenciesRoute i
                    else if meth = ''POST'' then AddDependencyRoute i else WrongMethod
                | None \<Rightarrow>
                    (case sub_resource ''incidents'' path of
                       Some i \<Rightarrow> if i = [] then MissingServiceID else IncidentsRoute i
                     | None \<Rightarrow>
                         if meth = ''GET'' then GetRoute path else if meth = ''PATCH'' then PatchRoute path
                         else if meth = ''DELETE'' then DeleteRoute path else WrongMethod))))"

text \<open>The parts of a request the handlers read.\<close>

record service_call =
  cl_method :: string
  cl_query :: "string \<times> string \<times> int option \<times> int option" \<comment> \<open>status, q, limit, skip\<close>
  cl_service :: "service_request option"
  cl_dependency :: "(string \<times> string) option"

definition handleServices ::
    "'k::linorder svc_env \<Rightarrow> auth_ctx \<Rightarrow> uuid \<Rightarrow> instant \<Rightarrow> service_call \<Rightarrow> svc_handler" where
  "handleServices env cx k now rq w =
     (if cl_method rq = ''GET'' then
        (case cl_query rq of (status, q, limit, skip) \<Rightarrow> handleListServices env cx now status q limit skip w)
      else if cl_method rq = ''POST'' then handleCreateService env cx k now (cl_service rq) w
      else (svc_fail ErrorCodeMethodNotAllowed ''method not allowed'', w))"

definition handleServiceRoutes ::
    "'k svc_env \<Rightarrow> auth_ctx \<Rightarrow> uuid \<Rightarrow> instant \<Rightarrow> string \<Rightarrow> service_call \<Rightarrow> svc_handler" where
  "handleServiceRoutes env cx k now path rq w =
     (case serviceRoute (cl_method rq) path of
        MissingServiceID \<Rightarrow> (svc_fail ErrorCodeValidationFailed ''missing service id'', w)
      | WrongMethod \<Rightarrow> (svc_fail ErrorCodeMethodNotAllowed ''method not allowed'', w)
      | RemoveDependencyRoute i t \<Rightarrow> handleRemoveServiceDependency env cx i t w
      | DependentsRoute i \<Rightarrow> handleListServiceDependents env cx i w
      | DependenciesRoute i \<Rightarrow> handleListServiceDependencies env cx i w
      | AddDependencyRoute i \<Rightarrow> handleAddServiceDependency env cx k now i (cl_dependency rq) w
      | IncidentsRoute i \<Rightarrow>
          (case cl_query rq of (_, _, limit, skip) \<Rightarrow> handleListServiceIncidents env cx i limit skip w)
      | GetRoute i \<Rightarrow> handleGetService env cx i w
      | PatchRoute i \<Rightarrow> handlePatchService env cx now i (cl_service rq) w
      | DeleteRoute i \<Rightarrow> handleDeleteService env cx i w)"

end
