(* ===== verification/Service_Correct.thy ===== *)
theory Service_Correct
  imports Service_Graph
begin

text \<open>
  Correctness of services: the search for circular dependencies decides reachability, the handlers
  keep the dependency graph free of cycles (locale \<open>dependency_graph\<close>), and what a cascade of the
  status tracker leaves behind.
\<close>

named_theorems svc_defs \<open>definitions of the handlers' building blocks\<close>
lemmas [svc_defs] = svc_audit_def svc_publish_def invalidateServicesCache_def svc_fail_def

subsection \<open>The search\<close>

definition dep_edges :: "services_db \<Rightarrow> (uuid \<times> uuid) set" where
  "dep_edges db = (\<lambda>d. (dp_service d, dp_on d)) ` set (sd_deps db)"

lemma GetDependencies_edges: "dp_on ` fst ` set (GetDependencies c db) = dep_edges db `` {c}"
  by (force simp: GetDependencies_def dep_edges_def)

lemma scan_deps_None_iff: "scan_deps s ds visited queue = None \<longleftrightarrow> s \<in> dp_on ` fst ` set ds"
  by (induction ds arbitrary: visited queue) (auto simp: Let_def)

lemma scan_deps_Some:
  assumes "scan_deps s ds visited queue = Some (visited', queue')"
  shows "set visited' = set visited \<union> dp_on ` fst ` set ds \<and>
    set queue' = set queue \<union> (dp_on ` fst ` set ds - set visited)"
  using assms
proof (induction ds arbitrary: visited queue)
  case Nil
  then show ?case by simp
next
  case (Cons d ds)
  let ?t = "dp_on (fst d)"
  show ?case
  proof (cases "?t \<in> set visited")
    case True
    with Cons.prems have "scan_deps s ds visited queue = Some (visited', queue')"
      by (simp add: Let_def split: if_splits)
    from Cons.IH [OF this] True show ?thesis by auto
  next
    case False
    with Cons.prems have "scan_deps s ds (?t # visited) (queue @ [?t]) = Some (visited', queue')"
      by (simp add: Let_def split: if_splits)
    from Cons.IH [OF this] False show ?thesis by auto
  qed
qed

lemma circular_loop_True:
  "circular_loop db s visited queue \<Longrightarrow> set queue \<subseteq> (dep_edges db)\<^sup>* `` {d} \<Longrightarrow> (d, s) \<in> (dep_edges db)\<^sup>+"
proof (induction db s visited queue rule: circular_loop.induct)
  case (1 db s visited)
  then show ?case by simp
next
  case (2 db s visited current queue)
  have c: "(d, current) \<in> (dep_edges db)\<^sup>*" using 2(3) by auto
  show ?case
  proof (cases "scan_deps s (GetDependencies current db) visited queue")
    case None
    then have "(current, s) \<in> dep_edges db"
      by (simp add: scan_deps_None_iff GetDependencies_edges)
    with c show ?thesis by (rule rtrancl_into_trancl1)
  next
    case (Some vq)
    then have "set (snd vq) \<subseteq> set queue \<union> dep_edges db `` {current}"
      using scan_deps_Some [of s _ visited queue "fst vq" "snd vq"] by (auto simp: GetDependencies_edges)
    moreover have "dep_edges db `` {current} \<subseteq> (dep_edges db)\<^sup>* `` {d}" using c by auto
    ultimately have "set (snd vq) \<subseteq> (dep_edges db)\<^sup>* `` {d}" using 2(3) by auto
    with 2(1) [OF Some] 2(2) Some show ?thesis by simp
  qed
qed

lemma circular_loop_False:
  "\<not> circular_loop db s visited queue \<Longrightarrow> set queue \<subseteq> set visited \<Longrightarrow>
   (\<And>v t. v \<in> set visited - set queue \<Longrightarrow> (v, t) \<in> dep_edges db \<Longrightarrow> t \<noteq> s \<and> t \<in> set visited) \<Longrightarrow>
   \<exists>W. set visited \<subseteq> W \<and> (\<forall>v \<in> W. \<forall>t. (v, t) \<in> dep_edges db \<longrightarrow> t \<noteq> s \<and> t \<in> W)"
proof (induction db s visited queue rule: circular_loop.induct)
  case (1 db s visited)
  then show ?case by (intro exI [of _ "set visited"]) auto
next
  case (2 db s visited current queue)
  from 2(2) obtain vq where vq: "scan_deps s (GetDependencies current db) visited queue = Some vq"
    by (auto split: option.splits)
  then have eq: "scan_deps s (GetDependencies current db) visited queue = Some (fst vq, snd vq)" by simp
  have sets: "set (fst vq) = set visited \<union> dep_edges db `` {current}"
    "set (snd vq) = set queue \<union> (dep_edges db `` {current} - set visited)"
    using scan_deps_Some [OF eq] by (simp_all add: GetDependencies_edges)
  have s: "(current, s) \<notin> dep_edges db"
    using vq scan_deps_None_iff [of s "GetDependencies current db" visited queue] by (simp add: GetDependencies_edges)
  have "\<exists>W. set (fst vq) \<subseteq> W \<and> (\<forall>v \<in> W. \<forall>t. (v, t) \<in> dep_edges db \<longrightarrow> t \<noteq> s \<and> t \<in> W)"
  proof (rule 2(1) [OF vq])
    show "\<not> circular_loop db s (fst vq) (snd vq)" using 2(2) vq by simp
    show "set (snd vq) \<subseteq> set (fst vq)" using 2(3) sets by auto
    fix v t assume v: "v \<in> set (fst vq) - set (snd vq)" and t: "(v, t) \<in> dep_edges db"
    show "t \<noteq> s \<and> t \<in> set (fst vq)"
    proof (cases "v = current")
      case True
      with s t sets show ?thesis by auto
    next
      case False
      with v sets have "v \<in> set visited - set (current # queue)" by auto
      from 2(4) [OF this t] sets show ?thesis by auto
    qed
  qed
  with sets show ?case by auto
qed

lemma closed_no_path:
  assumes "(d, t) \<in> R\<^sup>+" and "d \<in> W" and "\<And>v t. v \<in> W \<Longrightarrow> (v, t) \<in> R \<Longrightarrow> t \<noteq> s \<and> t \<in> W"
  shows "t \<noteq> s \<and> t \<in> W"
  using assms by (induction rule: trancl_induct) blast+

text \<open>C18. The search for circular dependencies returns for every graph, and reports one exactly when the service
  already follows, over one dependency or more, from the service it is to depend on.\<close>

theorem circular_search_decides_reachability:
  "HasCircularDependency s d db \<longleftrightarrow> (d, s) \<in> (dep_edges db)\<^sup>+"
proof
  assume "HasCircularDependency s d db"
  then show "(d, s) \<in> (dep_edges db)\<^sup>+"
    using circular_loop_True [of db s "[d]" "[d]" d] by (simp add: HasCircularDependency_def)
next
  assume r: "(d, s) \<in> (dep_edges db)\<^sup>+"
  show "HasCircularDependency s d db"
  proof (rule ccontr)
    assume "\<not> HasCircularDependency s d db"
    then have "\<exists>W. set [d] \<subseteq> W \<and> (\<forall>v \<in> W. \<forall>t. (v, t) \<in> dep_edges db \<longrightarrow> t \<noteq> s \<and> t \<in> W)"
      unfolding HasCircularDependency_def by (rule circular_loop_False) auto
    then obtain W where "d \<in> W" "\<And>v t. v \<in> W \<Longrightarrow> (v, t) \<in> dep_edges db \<Longrightarrow> t \<noteq> s \<and> t \<in> W" by auto
    from closed_no_path [OF r this] show False by simp
  qed
qed

subsection \<open>A graph without cycles\<close>

text \<open>What the client of a dependency graph relies on: the check it asks for before it adds an edge.\<close>

locale dependency_graph =
  fixes edges :: "'g \<Rightarrow> ('n \<times> 'n) set"
    and cyclic :: "'n \<Rightarrow> 'n \<Rightarrow> 'g \<Rightarrow> bool"
    and add :: "'n \<Rightarrow> 'n \<Rightarrow> 'g \<Rightarrow> 'g"
  assumes cyclic_iff: "cyclic s d g \<longleftrightarrow> (d, s) \<in> (edges g)\<^sup>+"
    and add_edges: "edges (add s d g) \<subseteq> insert (s, d) (edges g)"
begin

lemma guarded_add_acyclic:
  assumes "acyclic (edges g)" and "s \<noteq> d" and "\<not> cyclic s d g"
  shows "acyclic (edges (add s d g))"
proof -
  have "(d, s) \<notin> (edges g)\<^sup>*" using assms(2,3) by (auto simp: cyclic_iff rtrancl_eq_or_trancl)
  with assms(1) have "acyclic (insert (s, d) (edges g))" by simp
  with add_edges show ?thesis by (rule acyclic_subset [rotated])
qed

lemma cyclic_add_closes_cycle:
  assumes "cyclic s d g" and "edges (add s d g) = insert (s, d) (edges g)"
  shows "\<not> acyclic (edges (add s d g))"
proof -
  have "(d, s) \<in> (edges (add s d g))\<^sup>+"
    using assms by (metis cyclic_iff subset_insertI trancl_mono)
  moreover have "(s, d) \<in> edges (add s d g)" using assms(2) by simp
  ultimately have "(s, s) \<in> (edges (add s d g))\<^sup>+" by (metis trancl_into_trancl2)
  then show ?thesis by (auto simp: acyclic_def)
qed

end

lemma AddDependency_edges:
  "dep_edges (snd (AddDependency k now s d t db)) \<subseteq> insert (s, d) (dep_edges db)"
  by (auto simp: AddDependency_def dep_edges_def Let_def split: option.splits)

interpretation sg: dependency_graph dep_edges HasCircularDependency "\<lambda>s d db. snd (AddDependency k now s d t db)" for k now t
  by unfold_locales (auto simp: circular_search_decides_reachability dest: subsetD [OF AddDependency_edges])

subsection \<open>The invariant of the tables\<close>

definition services_inv :: "services_db \<Rightarrow> bool" where
  "services_inv db \<longleftrightarrow>
     distinct (map svc_id (sd_services db)) \<and> distinct (map svc_name (sd_services db)) \<and>
     (\<forall>s \<in> set (sd_services db). List.member service_statuses (svc_status s)) \<and>
     distinct (map (\<lambda>d. (dp_service d, dp_on d)) (sd_deps db)) \<and>
     dep_edges db \<subseteq> set (service_ids db) \<times> set (service_ids db) \<and>
     acyclic (dep_edges db)"

lemma dep_edges_same: "sd_deps db' = sd_deps db \<Longrightarrow> dep_edges db' = dep_edges db"
  by (simp add: dep_edges_def)

lemma service_violation_NoneD:
  assumes "service_violation db others r = None"
  shows "List.member service_statuses (svc_status r)" "svc_id r \<notin> svc_id ` set others"
    "svc_name r \<notin> svc_name ` set others"
  using assms by (auto simp: service_violation_def list_ex_iff split: if_splits)

lemma CreateService_inv:
  assumes "services_inv db" shows "services_inv (snd (CreateService k now record db))"
proof (cases "CreateService k now record db")
  case (Pair r db')
  show ?thesis
  proof (cases "db' = db")
    case True
    with Pair assms show ?thesis by simp
  next
    case False
    then obtain m where v: "service_violation db (sd_services db) m = None"
      and db': "db' = db\<lparr>sd_services := sd_services db @ [m]\<rparr>"
      using Pair by (auto simp: CreateService_def Let_def split: option.splits)
    have "dep_edges db' = dep_edges db" by (simp add: db' dep_edges_def)
    with Pair assms service_violation_NoneD [OF v] show ?thesis
      by (auto simp: services_inv_def db' service_ids_def)
  qed
qed

lemma map_put:
  assumes "distinct (map key xs)" and "key r' = key r" and "r \<in> set xs" and "f r' \<notin> f ` (set xs - {r})"
    and "distinct (map f xs)"
  shows "distinct (map f (map (\<lambda>x. if key x = key r' then r' else x) xs))"
proof -
  have only: "key x = key r' \<longleftrightarrow> x = r" if "x \<in> set xs" for x
    using assms(1,2,3) that by (auto simp: distinct_map dest: inj_onD)
  have inj: "inj_on f (set xs)" using assms(5) by (simp add: distinct_map)
  have "inj_on (\<lambda>x. if x = r then f r' else f x) (set xs)"
  proof (rule inj_onI)
    fix x y assume x: "x \<in> set xs" and y: "y \<in> set xs"
      and e: "(if x = r then f r' else f x) = (if y = r then f r' else f y)"
    show "x = y"
    proof (cases "x = r"; cases "y = r")
      assume "x = r" "y \<noteq> r"
      with e y have "f r' \<in> f ` (set xs - {r})" by simp
      with assms(4) show ?thesis by simp
    next
      assume "x \<noteq> r" "y = r"
      with e x have "f x = f r'" "x \<in> set xs - {r}" by simp_all
      then have "f r' \<in> f ` (set xs - {r})" by (metis image_eqI)
      with assms(4) show ?thesis by simp
    next
      assume "x \<noteq> r" "y \<noteq> r"
      with e inj x y show ?thesis by (simp add: inj_on_eq_iff)
    qed simp
  qed
  moreover have "map f (map (\<lambda>x. if key x = key r' then r' else x) xs) = map (\<lambda>x. if x = r then f r' else f x) xs"
    by (simp add: only)
  moreover have "distinct xs" using assms(5) by (simp add: distinct_map)
  ultimately show ?thesis by (simp only: distinct_map simp_thms)
qed

lemma put_service_inv:
  assumes inv: "services_inv db" and r: "GetService k db = Some r" and k: "svc_id r' = k"
    and st: "List.member service_statuses (svc_status r')"
    and nm: "svc_name r' \<notin> svc_name ` (set (sd_services db) - {r})"
  shows "services_inv (put_service r' db)"
proof -
  note rk = GetService_SomeD [OF r]
  have ids: "distinct (map svc_id (sd_services db))" using inv by (simp add: services_inv_def)
  have "distinct (map svc_name (sd_services (put_service r' db)))"
    using map_put [OF ids, of r' r svc_name] rk k nm inv
    by (simp add: put_service_def services_inv_def)
  moreover have "distinct (service_ids (put_service r' db))" using ids by (simp add: service_ids_def [symmetric])
  moreover have "dep_edges (put_service r' db) = dep_edges db" by (simp add: put_service_def dep_edges_def)
  moreover have "\<forall>s \<in> set (sd_services (put_service r' db)). List.member service_statuses (svc_status s)"
    using inv st by (auto simp: put_service_def services_inv_def)
  moreover have "sd_deps (put_service r' db) = sd_deps db" by (simp add: put_service_def)
  ultimately show ?thesis using inv by (simp add: services_inv_def service_ids_def [symmetric])
qed

lemma UpdateService_inv:
  assumes inv: "services_inv db" shows "services_inv (snd (UpdateService k now record db))"
proof (cases "GetService k db")
  case None
  with inv show ?thesis by (simp add: UpdateService_def)
next
  case (Some r)
  let ?r' = "service_set now record r"
  note rk = GetService_SomeD [OF Some]
  show ?thesis
  proof (cases "service_violation db (filter (\<lambda>s. svc_id s \<noteq> k) (sd_services db)) ?r'")
    case None
    have id: "svc_id ?r' = k" using rk by (simp add: service_set_def)
    have "inj_on svc_id (set (sd_services db))" using inv by (simp add: services_inv_def distinct_map)
    then have "svc_name ?r' \<notin> svc_name ` (set (sd_services db) - {r})"
      using service_violation_NoneD(3) [OF None] rk by (auto simp: inj_on_def)
    with put_service_inv [OF inv Some id] service_violation_NoneD(1) [OF None]
    show ?thesis by (simp add: UpdateService_def Some None Let_def)
  qed (simp add: UpdateService_def Some Let_def inv)
qed

lemma UpdateServiceStatus_inv:
  assumes inv: "services_inv db" shows "services_inv (snd (UpdateServiceStatus k now st db))"
proof (cases "GetService k db")
  case None
  with inv show ?thesis by (simp add: UpdateServiceStatus_def)
next
  case (Some r)
  note rk = GetService_SomeD [OF Some]
  have "inj_on svc_name (set (sd_services db))" using inv by (simp add: services_inv_def distinct_map)
  then have "svc_name r \<notin> svc_name ` (set (sd_services db) - {r})"
    using rk by (auto simp: inj_on_def)
  with put_service_inv [OF inv Some, of "r\<lparr>svc_status := st, svc_updated := now\<rparr>"] rk inv
  show ?thesis by (simp add: UpdateServiceStatus_def Some)
qed

lemma DeleteService_inv:
  assumes "services_inv db" shows "services_inv (snd (DeleteService k db))"
proof (cases "list_ex (\<lambda>s. svc_id s = k) (sd_services db)")
  case True
  let ?db = "snd (DeleteService k db)"
  have sub: "dep_edges ?db \<subseteq> dep_edges db" by (auto simp: DeleteService_def Let_def dep_edges_def True)
  have ends: "dep_edges ?db \<subseteq> set (service_ids ?db) \<times> set (service_ids ?db)"
    using assms by (fastforce simp: services_inv_def DeleteService_def Let_def dep_edges_def True service_ids_def)
  have "acyclic (dep_edges ?db)" using assms sub by (auto simp: services_inv_def intro: acyclic_subset)
  with ends assms show ?thesis
    by (auto simp: services_inv_def DeleteService_def Let_def True distinct_map_filter)
qed (use assms in \<open>simp add: DeleteService_def Let_def\<close>)

lemma RemoveDependency_inv:
  assumes "services_inv db" shows "services_inv (RemoveDependency s d db)"
proof -
  have sub: "dep_edges (RemoveDependency s d db) \<subseteq> dep_edges db"
    by (auto simp: RemoveDependency_def dep_edges_def)
  then have "acyclic (dep_edges (RemoveDependency s d db))"
    using assms by (auto simp: services_inv_def intro: acyclic_subset)
  with sub assms show ?thesis
    by (auto simp: services_inv_def RemoveDependency_def service_ids_def distinct_map_filter)
qed

lemma AddDependency_inv:
  assumes inv: "services_inv db" and ok: "s \<noteq> d" "\<not> HasCircularDependency s d db"
  shows "services_inv (snd (AddDependency k now s d t db))"
proof (cases "dependency_violation db \<lparr>dp_id = k, dp_service = s, dp_on = d, dp_type = t, dp_created = now\<rparr>")
  case None
  let ?db = "snd (AddDependency k now s d t db)"
  have "acyclic (dep_edges ?db)" using inv ok by (intro sg.guarded_add_acyclic) (simp_all add: services_inv_def)
  moreover have "s \<in> set (service_ids db)" "d \<in> set (service_ids db)" "(s, d) \<notin> dep_edges db"
    using None by (auto simp: dependency_violation_def list_ex_iff service_ids_def dep_edges_def split: if_splits)
  ultimately show ?thesis
    using inv by (auto simp: services_inv_def AddDependency_def Let_def None service_ids_def dep_edges_def)
qed (use inv in \<open>simp add: AddDependency_def Let_def\<close>)

subsection \<open>The cascade\<close>

definition status_of :: "services_db \<Rightarrow> uuid \<Rightarrow> string option" where
  "status_of db k = map_option svc_status (GetService k db)"

lemma scoreToStatus_valid: "scoreToStatus n \<in> set service_statuses"
  by (simp add: service_statuses_def scoreToStatus_def)

lemma find_put:
  "find (\<lambda>s. svc_id s = x) (map (\<lambda>s. if svc_id s = svc_id r then r else s) xs) =
    (if x = svc_id r \<and> find (\<lambda>s. svc_id s = x) xs \<noteq> None then Some r else find (\<lambda>s. svc_id s = x) xs)"
  by (induction xs) auto

lemma GetService_put:
  "GetService x (put_service r db) = (if x = svc_id r \<and> GetService x db \<noteq> None then Some r else GetService x db)"
  by (auto simp: GetService_def put_service_def find_put)

lemma weighted_put [simp]: "calculateWeightedStatus x (put_service r db) = calculateWeightedStatus x db"
  by (simp add: calculateWeightedStatus_def put_service_def)

lemma put_service_same [simp]:
  "sd_deps (put_service r db) = sd_deps db" "sd_incidents (put_service r db) = sd_incidents db"
  "sd_teams (put_service r db) = sd_teams db" "sd_policies (put_service r db) = sd_policies db"
  by (simp_all add: put_service_def)

lemma cascade_step_None_iff:
  "cascade_step now k db = None \<longleftrightarrow> status_of db k \<in> {None, Some (calculateWeightedStatus k db)}"
proof (cases "GetService k db")
  case (Some r)
  have "List.member service_statuses (calculateWeightedStatus k db)"
    by (simp add: calculateWeightedStatus_def scoreToStatus_valid)
  with Some show ?thesis by (simp add: cascade_step_def UpdateServiceStatus_def status_of_def Let_def)
qed (simp add: cascade_step_def status_of_def)

text \<open>The effect of a step that goes through: the status of one service, and what else it leaves alone.\<close>

lemma cascade_step_Some:
  assumes "cascade_step now k db = Some r"
  obtains old where "status_of db k = Some old" "old \<noteq> calculateWeightedStatus k db"
    "status_of (fst r) = (status_of db)(k \<mapsto> calculateWeightedStatus k db)"
    "\<And>x. calculateWeightedStatus x (fst r) = calculateWeightedStatus x db"
    "fst (snd r) = ServiceStatusChanged k old (calculateWeightedStatus k db)"
    "fst r = snd (UpdateServiceStatus k now (calculateWeightedStatus k db) db)"
    "snd (snd r) = map dp_service (filter (\<lambda>d. dp_on d = k) (sd_deps db))"
proof -
  from assms obtain s where s: "GetService k db = Some s"
    by (cases "GetService k db") (simp_all add: cascade_step_def)
  note sk = GetService_SomeD [OF s]
  let ?w = "calculateWeightedStatus k db"
  let ?s = "s\<lparr>svc_status := ?w, svc_updated := now\<rparr>"
  have valid: "?w \<in> set service_statuses"
    unfolding calculateWeightedStatus_def by (rule scoreToStatus_valid)
  have upd: "UpdateServiceStatus k now ?w db = (None, put_service ?s db)"
    by (simp add: UpdateServiceStatus_def s valid)
  have ne: "svc_status s \<noteq> ?w" using assms by (auto simp: cascade_step_def s Let_def)
  have r: "r = (put_service ?s db, ServiceStatusChanged k (svc_status s) ?w,
      map (\<lambda>d. dp_service (fst d)) (GetDependents k (put_service ?s db)))"
    using assms ne by (simp add: cascade_step_def s Let_def upd)
  show ?thesis
  proof (rule that [of "svc_status s"])
    show "status_of (fst r) = (status_of db)(k \<mapsto> ?w)"
      using sk s by (auto simp: r status_of_def GetService_put fun_eq_iff)
  qed (use ne in \<open>simp_all add: r upd status_of_def s GetDependents_def comp_def\<close>)
qed

definition change_of :: "services_db \<Rightarrow> services_db \<Rightarrow> service_event set" where
  "change_of db db' =
     {ServiceStatusChanged x old new | x old new. status_of db x = Some old \<and> status_of db' x = Some new \<and> old \<noteq> new}"

lemma status_loop_result:
  assumes "status_loop now visited queue db es = (db', es')"
  shows "service_ids db' = service_ids db \<and> sd_deps db' = sd_deps db \<and> sd_incidents db' = sd_incidents db \<and>
    (\<forall>x. status_of db' x = status_of db x \<or>
         x \<notin> set visited \<and> status_of db x \<noteq> None \<and> status_of db' x = Some (calculateWeightedStatus x db)) \<and>
    (\<forall>x \<in> set queue - set visited. status_of db' x \<in> {None, Some (calculateWeightedStatus x db)}) \<and>
    (\<exists>new. es' = es @ new \<and> distinct new \<and> set new = change_of db db')"
  using assms
proof (induction now visited queue db es arbitrary: db' es' rule: status_loop.induct)
  case (1 now visited db es)
  then show ?case by (simp add: change_of_def)
next
  case (2 now visited k queue db es)
  show ?case
  proof (cases "k \<in> set visited")
    case True
    with 2(4) have "status_loop now visited queue db es = (db', es')" by simp
    with 2(1) True show ?thesis by simp
  next
    case fresh: False
    show ?thesis
    proof (cases "cascade_step now k db")
      case None
      with 2(4) fresh have "status_loop now (k # visited) queue db es = (db', es')" by simp
      note IH = 2(2) [OF _ None this] 
      have st: "status_of db k \<in> {None, Some (calculateWeightedStatus k db)}"
        using None by (simp add: cascade_step_None_iff)
      from IH fresh have "\<And>x. status_of db' x = status_of db x \<or> x \<notin> set (k # visited)" by simp blast
      from this [of k] have k: "status_of db' k = status_of db k" by simp
      show ?thesis using IH fresh st k by auto
    next
      case (Some r)
      with 2(4) fresh have e: "status_loop now (k # visited) (queue @ snd (snd r)) (fst r) (es @ [fst (snd r)]) = (db', es')"
        by simp
      from cascade_step_Some [OF Some] obtain old where old: "status_of db k = Some old" "old \<noteq> calculateWeightedStatus k db"
        and st: "status_of (fst r) = (status_of db)(k \<mapsto> calculateWeightedStatus k db)"
        and w: "\<And>x. calculateWeightedStatus x (fst r) = calculateWeightedStatus x db"
        and ev: "fst (snd r) = ServiceStatusChanged k old (calculateWeightedStatus k db)"
        and upd: "fst r = snd (UpdateServiceStatus k now (calculateWeightedStatus k db) db)" by metis
      have same: "service_ids (fst r) = service_ids db" "sd_deps (fst r) = sd_deps db" "sd_incidents (fst r) = sd_incidents db"
        by (auto simp: upd UpdateServiceStatus_def split: option.splits)
      from 2(3) [OF _ Some e] fresh
      have IH: "service_ids db' = service_ids (fst r)" "sd_deps db' = sd_deps (fst r)" "sd_incidents db' = sd_incidents (fst r)"
        "\<And>x. status_of db' x = status_of (fst r) x \<or>
          x \<notin> set (k # visited) \<and> status_of (fst r) x \<noteq> None \<and> status_of db' x = Some (calculateWeightedStatus x (fst r))"
        "\<And>x. x \<in> set (queue @ snd (snd r)) - set (k # visited) \<Longrightarrow>
          status_of db' x \<in> {None, Some (calculateWeightedStatus x (fst r))}"
        "\<exists>new. es' = (es @ [fst (snd r)]) @ new \<and> distinct new \<and> set new = change_of (fst r) db'" by auto
      have k: "status_of db' k = Some (calculateWeightedStatus k db)" using IH(4) [of k] st by auto
      have all: "status_of db' x = status_of db x \<or>
          x \<notin> set visited \<and> status_of db x \<noteq> None \<and> status_of db' x = Some (calculateWeightedStatus x db)" for x
        using IH(4) [of x] st w fresh old(1) k by (cases "x = k") auto
      have queue: "status_of db' x \<in> {None, Some (calculateWeightedStatus x db)}" if "x \<in> set (k # queue) - set visited" for x
        using that IH(5) [of x] w k by (cases "x = k") auto
      have ch: "change_of db db' = insert (fst (snd r)) (change_of (fst r) db')" (is "?L = ?R")
      proof (rule set_eqI)
        fix e
        show "e \<in> ?L \<longleftrightarrow> e \<in> ?R"
        proof (cases "\<exists>a b. e = ServiceStatusChanged k a b")
          case True
          then show ?thesis using k old st by (auto simp: change_of_def ev)
        next
          case False
          then show ?thesis using st by (auto simp: change_of_def ev)
        qed
      qed
      have "fst (snd r) \<notin> change_of (fst r) db'" using k st by (auto simp: change_of_def ev)
      with IH(6) ch have "\<exists>new. es' = es @ new \<and> distinct new \<and> set new = change_of db db'"
        by (metis append.assoc append_Cons append_Nil distinct.simps(2) list.simps(15))
      with all queue IH(1,2,3) same show ?thesis by simp
    qed
  qed
qed

lemma status_loop_settled:
  assumes "\<And>x. x \<in> set queue - set visited \<Longrightarrow> status_of db x \<in> {None, Some (calculateWeightedStatus x db)}"
  shows "status_loop now visited queue db es = (db, es)"
  using assms
proof (induction queue arbitrary: visited)
  case Nil
  then show ?case by simp
next
  case (Cons k queue)
  show ?case
  proof (cases "k \<in> set visited")
    case True
    with Cons show ?thesis by auto
  next
    case False
    then have "cascade_step now k db = None" using Cons.prems [of k] by (simp add: cascade_step_None_iff)
    with False Cons.IH [of "k # visited"] Cons.prems show ?thesis by auto
  qed
qed

lemma cascade_same_incidents: "sd_incidents db' = sd_incidents db \<Longrightarrow> calculateWeightedStatus x db' = calculateWeightedStatus x db"
  by (simp add: calculateWeightedStatus_def)

text \<open>With valid priorities the score is the sum of the weights of the service's own active incidents.\<close>

lemma weighted_status_sum:
  assumes "\<And>r. r \<in> set (sd_incidents db) \<Longrightarrow> in_priority r \<noteq> []"
  shows "calculateWeightedStatus k db = scoreToStatus
    (sum_list (map (\<lambda>r. priorityWeight (in_priority r))
      (filter (\<lambda>r. active_incident r \<and> in_service r = Some k) (sd_incidents db))))"
  using count_priorities_sum [of in_priority "filter (\<lambda>r. active_incident r \<and> in_service r = Some k) (sd_incidents db)"
      "remdups (map in_priority (filter (\<lambda>r. active_incident r \<and> in_service r = Some k) (sd_incidents db)))" priorityWeight]
  by (simp add: calculateWeightedStatus_def CountActiveByPriority_plain [OF assms] Let_def comp_def)


text \<open>When every other service already shows what its own incidents call for, a cascade updates the service it
  starts from and no other: an outage never reaches the services that depend on it, however they depend.\<close>

theorem outage_stays_with_its_service:
  assumes others: "\<And>x. x \<noteq> k \<Longrightarrow> status_of db x \<in> {None, Some (calculateWeightedStatus x db)}"
  shows "fst (PropagateAndCascade now k db) =
      (if status_of db k \<in> {None, Some (calculateWeightedStatus k db)} then db
       else snd (UpdateServiceStatus k now (calculateWeightedStatus k db) db))"
proof (cases "cascade_step now k db")
  case None
  then have "status_of db k \<in> {None, Some (calculateWeightedStatus k db)}" by (simp add: cascade_step_None_iff)
  with None show ?thesis by (simp add: PropagateAndCascade_def)
next
  case (Some r)
  from cascade_step_Some [OF Some]
  have st: "status_of (fst r) = (status_of db)(k \<mapsto> calculateWeightedStatus k db)"
    and w: "\<And>x. calculateWeightedStatus x (fst r) = calculateWeightedStatus x db"
    and upd: "fst r = snd (UpdateServiceStatus k now (calculateWeightedStatus k db) db)" by metis+
  have "status_of db k \<notin> {None, Some (calculateWeightedStatus k db)}"
    using Some cascade_step_None_iff [of now k db] by force
  moreover have "status_loop now [k] (snd (snd r)) (fst r) [fst (snd r)] = (fst r, [fst (snd r)])"
    by (rule status_loop_settled) (use others in \<open>auto simp: st w\<close>)
  ultimately show ?thesis by (auto simp: PropagateAndCascade_def Some upd)
qed

definition two_services :: services_db where
  "two_services =
     \<lparr>sd_services =
        [\<lparr>svc_id = 7, svc_name = ''db'', svc_display = [], svc_description = [], svc_owner = None, svc_policy = None,
          svc_matchers = Some [], svc_response = 0, svc_resolve = 0, svc_status = ''operational'',
          svc_created = 0, svc_updated = 0\<rparr>,
         \<lparr>svc_id = 8, svc_name = ''web'', svc_display = [], svc_description = [], svc_owner = None, svc_policy = None,
          svc_matchers = Some [], svc_response = 0, svc_resolve = 0, svc_status = ''operational'',
          svc_created = 0, svc_updated = 0\<rparr>],
      sd_deps = [\<lparr>dp_id = 3, dp_service = 8, dp_on = 7, dp_type = ''hard'', dp_created = 0\<rparr>],
      sd_incidents = [example_incident\<lparr>in_service := Some 7, in_priority := ''P1''\<rparr>], sd_teams = [], sd_policies = []\<rparr>"

lemma two_services_status:
  "status_of two_services 7 = Some ''operational''" "status_of two_services 8 = Some ''operational''"
  "calculateWeightedStatus 7 two_services = ''partial_outage''" "calculateWeightedStatus 8 two_services = ''operational''"
  by (simp_all add: status_of_def GetService_def two_services_def calculateWeightedStatus_def CountActiveByPriority_def
      active_incident_def IncidentTerminalStatuses_def example_incident_def priorityWeight_def scoreToStatus_def Let_def)

text \<open>The database fails with a P1 incident; the web service that depends on it stays operational.\<close>

theorem outage_stays_with_its_service_witness:
  "fst (PropagateAndCascade 9 7 two_services) = snd (UpdateServiceStatus 7 9 ''partial_outage'' two_services) \<and>
   status_of (fst (PropagateAndCascade 9 7 two_services)) 8 = Some ''operational''"
proof -
  have other: "status_of two_services x \<in> {None, Some (calculateWeightedStatus x two_services)}" if "x \<noteq> 7" for x
  proof (cases "x = 8")
    case False
    with that show ?thesis by (simp add: status_of_def GetService_def two_services_def)
  qed (simp add: two_services_status)
  have eq: "fst (PropagateAndCascade 9 7 two_services) = snd (UpdateServiceStatus 7 9 ''partial_outage'' two_services)"
    using outage_stays_with_its_service [of 7 two_services 9, OF other] by (simp add: two_services_status)
  then show ?thesis
    by (simp add: UpdateServiceStatus_def GetService_def two_services_def service_statuses_def status_of_def put_service_def)
qed

subsection \<open>The handlers\<close>

datatype service_op =
    ServicesCall auth_ctx uuid instant service_call
  | ServiceCall auth_ctx uuid instant string service_call
  | CascadeRun instant uuid

fun service_exec :: "'k::linorder svc_env \<Rightarrow> service_op \<Rightarrow> svc_world \<Rightarrow> svc_world" where
  "service_exec env (ServicesCall cx k now rq) w = snd (handleServices env cx k now rq w)"
| "service_exec env (ServiceCall cx k now path rq) w = snd (handleServiceRoutes env cx k now path rq w)"
| "service_exec env (CascadeRun now k) w =
     (case PropagateAndCascade now k (vw_db w) of (db, es) \<Rightarrow> w\<lparr>vw_db := db, vw_events := vw_events w @ es\<rparr>)"

lemma guarded_db:
  assumes "P (vw_db w)" and "P (vw_db (snd (h w)))"
  shows "P (vw_db (snd (svc_guarded cx perm c h w)))"
  using assms by (simp add: svc_guarded_def split: option.split)

lemma svc_world_db [simp]:
  "vw_db (svc_audit e i w) = vw_db w" "vw_db (svc_publish ev w) = vw_db w" "vw_db (invalidateServicesCache w) = vw_db w"
  by (simp_all add: svc_defs)

lemma handleListServices_db [simp]: "vw_db (snd (handleListServices env cx now st q l sk w)) = vw_db w"
  unfolding handleListServices_def
  by (rule guarded_db) (simp_all add: Let_def split: prod.split sum.split)

lemma handleGetService_db [simp]: "vw_db (snd (handleGetService env cx i w)) = vw_db w"
  unfolding handleGetService_def by (rule guarded_db) (simp_all split: prod.split sum.split)

lemma handleListServiceDependencies_db [simp]: "vw_db (snd (handleListServiceDependencies env cx i w)) = vw_db w"
  unfolding handleListServiceDependencies_def by (rule guarded_db) (simp_all split: option.split)

lemma handleListServiceDependents_db [simp]: "vw_db (snd (handleListServiceDependents env cx i w)) = vw_db w"
  unfolding handleListServiceDependents_def by (rule guarded_db) (simp_all split: option.split)

lemma handleListServiceIncidents_db [simp]: "vw_db (snd (handleListServiceIncidents env cx i l sk w)) = vw_db w"
  unfolding handleListServiceIncidents_def by (rule guarded_db) (simp_all add: Let_def case_prod_beta split: option.split)

text \<open>The results of the store's operations, as the handlers take them apart.\<close>

lemma store_invD:
  "CreateService k now r db = (x, db') \<Longrightarrow> services_inv db \<Longrightarrow> services_inv db'"
  "UpdateService k now r db = (x, db') \<Longrightarrow> services_inv db \<Longrightarrow> services_inv db'"
  "DeleteService k db = (e, db') \<Longrightarrow> services_inv db \<Longrightarrow> services_inv db'"
  using CreateService_inv [of db k now r] UpdateService_inv [of db k now r] DeleteService_inv [of db k] by auto

lemma handleCreateService_inv:
  assumes "services_inv (vw_db w)" shows "services_inv (vw_db (snd (handleCreateService env cx k now body w)))"
  unfolding handleCreateService_def
  by (rule guarded_db [where P = services_inv])
    (use assms in \<open>auto simp: Let_def dest: store_invD(1) split: option.split prod.split sum.split\<close>)

lemma handlePatchService_inv:
  assumes "services_inv (vw_db w)" shows "services_inv (vw_db (snd (handlePatchService env cx now i body w)))"
  unfolding handlePatchService_def
  by (rule guarded_db [where P = services_inv])
    (use assms in \<open>auto dest: store_invD(2) split: option.split prod.split sum.split\<close>)

lemma handleDeleteService_inv:
  assumes "services_inv (vw_db w)" shows "services_inv (vw_db (snd (handleDeleteService env cx i w)))"
  unfolding handleDeleteService_def
  by (rule guarded_db [where P = services_inv])
    (use assms in \<open>auto dest: store_invD(3) split: option.splits prod.split\<close>)

lemma handleRemoveServiceDependency_inv:
  assumes "services_inv (vw_db w)" shows "services_inv (vw_db (snd (handleRemoveServiceDependency env cx i t w)))"
  unfolding handleRemoveServiceDependency_def
  by (rule guarded_db [where P = services_inv])
    (use assms in \<open>auto simp: RemoveDependency_inv split: option.split\<close>)

lemma add_insert_db: "vw_db (snd (add_insert k now i (s, d, t) w)) = snd (AddDependency k now s d t (vw_db w))"
  by (simp add: add_insert_def split: prod.split option.split)

lemma add_request_distinct: "add_request env i body = Inr (s, d, t) \<Longrightarrow> s \<noteq> d"
  by (auto simp: add_request_def split: option.splits prod.splits if_splits)

lemma handleAddServiceDependency_inv:
  assumes "services_inv (vw_db w)" shows "services_inv (vw_db (snd (handleAddServiceDependency env cx k now i body w)))"
  unfolding handleAddServiceDependency_def
  by (rule guarded_db [where P = services_inv])
    (use assms in \<open>auto simp: add_insert_db AddDependency_inv dest: add_request_distinct split: sum.split prod.split\<close>)

lemma status_loop_inv:
  "services_inv db \<Longrightarrow> services_inv (fst (status_loop now visited queue db es))"
proof (induction now visited queue db es rule: status_loop.induct)
  case (2 now visited k queue db es)
  show ?case
  proof (cases "k \<in> set visited")
    case False
    show ?thesis
    proof (cases "cascade_step now k db")
      case (Some r)
      from cascade_step_Some [OF this]
      have "fst r = snd (UpdateServiceStatus k now (calculateWeightedStatus k db) db)" by metis
      then have "services_inv (fst r)" using 2(4) by (simp add: UpdateServiceStatus_inv)
      with 2(3) False Some show ?thesis by simp
    qed (use 2(2,4) False in simp)
  qed (use 2(1,4) in simp)
qed simp

lemma service_exec_inv: "services_inv (vw_db w) \<Longrightarrow> services_inv (vw_db (service_exec env op w))"
proof (induction env op w rule: service_exec.induct)
  case (1 env cx k now rq w)
  then show ?case by (auto simp: handleServices_def handleCreateService_inv split: prod.split)
next
  case (2 env cx k now path rq w)
  then show ?case
    by (auto simp: handleServiceRoutes_def handleRemoveServiceDependency_inv handleAddServiceDependency_inv
        handlePatchService_inv handleDeleteService_inv split: service_route.split prod.split)
next
  case (3 env now k w)
  then show ?case
    using status_loop_inv [of "vw_db w" now "[]" "[k]" "[]"] by (simp add: PropagateAndCascade_def case_prod_beta)
qed

text \<open>C17. Requests to the service endpoints and cascades, in any order and from any callers, one after the other, keep
  the tables consistent: ids and names unique, statuses valid, no dependency twice or of an unknown service, and the
  dependencies free of cycles.\<close>

theorem services_stay_acyclic:
  assumes "services_inv (vw_db w)"
  shows "services_inv (vw_db (foldl (\<lambda>w op. service_exec env op w) w ops))"
  using assms by (induction ops arbitrary: w) (simp_all add: service_exec_inv)

lemma AddDependency_ok:
  assumes "s \<noteq> d" and "t \<in> {''depends_on'', ''hard'', ''soft''}" and "k \<notin> dp_id ` set (sd_deps db)"
    and "(s, d) \<notin> dep_edges db" and "s \<in> set (service_ids db)" and "d \<in> set (service_ids db)"
  obtains db' where "AddDependency k now s d t db = (None, db')" "dep_edges db' = insert (s, d) (dep_edges db)"
    "dp_id ` set (sd_deps db') = insert k (dp_id ` set (sd_deps db))" "service_ids db' = service_ids db"
proof -
  let ?m = "\<lparr>dp_id = k, dp_service = s, dp_on = d, dp_type = t, dp_created = now\<rparr>"
  have "dependency_violation db ?m = None"
    using assms by (auto simp: dependency_violation_def list_ex_iff service_ids_def dep_edges_def image_iff)
  then have "AddDependency k now s d t db = (None, db\<lparr>sd_deps := sd_deps db @ [?m]\<rparr>)"
    by (simp add: AddDependency_def Let_def)
  then show ?thesis by (rule that) (simp_all add: dep_edges_def service_ids_def)
qed

text \<open>The search and the insertion are two statements: when both directions of a pair of services are requested at
  once and both searches run before either insertion, both requests are granted, and the services depend on each other.\<close>

theorem concurrent_requests_make_a_cycle:
  assumes s: "GetService s (vw_db w) \<noteq> None" and d: "GetService d (vw_db w) \<noteq> None"
    and free: "\<not> HasCircularDependency s d (vw_db w)" "\<not> HasCircularDependency d s (vw_db w)"
    and fresh: "k1 \<noteq> k2" "k1 \<notin> dp_id ` set (sd_deps (vw_db w))" "k2 \<notin> dp_id ` set (sd_deps (vw_db w))"
    and ne: "s \<noteq> d" and ty: "t \<in> {''depends_on'', ''hard'', ''soft''}"
  shows "let (a1, w1) = add_insert k1 now i1 (s, d, t) w; (a2, w2) = add_insert k2 now i2 (d, s, t) w1
    in a1 = Inr (SvcStatus ''added'') \<and> a2 = Inr (SvcStatus ''added'') \<and> \<not> acyclic (dep_edges (vw_db w2))"
proof -
  have ids: "s \<in> set (service_ids (vw_db w))" "d \<in> set (service_ids (vw_db w))"
    using s d by (simp_all add: GetService_None_iff)
  have no: "(s, d) \<notin> dep_edges (vw_db w)" "(d, s) \<notin> dep_edges (vw_db w)"
    using free by (auto simp: circular_search_decides_reachability)
  obtain db1 where 1: "AddDependency k1 now s d t (vw_db w) = (None, db1)"
    "dep_edges db1 = insert (s, d) (dep_edges (vw_db w))"
    "dp_id ` set (sd_deps db1) = insert k1 (dp_id ` set (sd_deps (vw_db w)))" "service_ids db1 = service_ids (vw_db w)"
    using AddDependency_ok [OF ne ty fresh(2) no(1) ids] by metis
  have "k2 \<notin> dp_id ` set (sd_deps db1)" "(d, s) \<notin> dep_edges db1" "s \<in> set (service_ids db1)" "d \<in> set (service_ids db1)"
    using 1 fresh no ids ne by auto
  then obtain db2 where 2: "AddDependency k2 now d s t db1 = (None, db2)" "dep_edges db2 = insert (d, s) (dep_edges db1)"
    using AddDependency_ok [of d s t k2 db1 now] ne ty by metis
  have "(s, s) \<in> (dep_edges db2)\<^sup>+"
    using 1(2) 2(2) by (intro trancl_into_trancl2 [of s d] r_into_trancl) simp_all
  then have "\<not> acyclic (dep_edges db2)" by (auto simp: acyclic_def)
  with 1(1) 2(1) show ?thesis by (simp add: add_insert_def svc_defs)
qed

definition two_unrelated :: svc_world where
  "two_unrelated = \<lparr>vw_db = two_services\<lparr>sd_deps := []\<rparr>, vw_cache = None, vw_audit = [], vw_events = []\<rparr>"

theorem concurrent_requests_make_a_cycle_witness:
  "let (a1, w1) = add_insert 5 9 ''7'' (7, 8, ''hard'') two_unrelated; (a2, w2) = add_insert 6 9 ''8'' (8, 7, ''hard'') w1
    in a1 = Inr (SvcStatus ''added'') \<and> a2 = Inr (SvcStatus ''added'') \<and> \<not> acyclic (dep_edges (vw_db w2))"
  by (rule concurrent_requests_make_a_cycle)
    (simp_all add: two_unrelated_def two_services_def GetService_def circular_search_decides_reachability dep_edges_def)

theorem services_stay_acyclic_witness:
  "services_inv (vw_db (foldl (\<lambda>w op. service_exec
      \<lparr>ve_parse = (\<lambda>_. None), ve_show = (\<lambda>_. []), ve_json = (\<lambda>_. []), ve_collate = length, ve_sort = sort_key,
       ve_services = True, ve_incidents = True\<rparr> op w)
    two_unrelated [CascadeRun 9 7]))"
  by (rule services_stay_acyclic)
    (simp add: services_inv_def two_unrelated_def two_services_def dep_edges_def service_statuses_def acyclic_def)

end
