(* ===== verification/Incident_Command.thy ===== *)
theory Incident_Command
  imports Incident_Queries Accounts Tokens Access
begin

text \<open>
  Incident command: the role assignments of \<^verbatim>\<open>store/ics_role.go\<close> under the rules of \<^verbatim>\<open>ics/roles.go\<close> and
  \<^verbatim>\<open>ics/types.go\<close>, and the sections of the incident document of \<^verbatim>\<open>store/incident_document.go\<close> and
  \<^verbatim>\<open>ics/document.go\<close>. The constraints are those of migrations \<^verbatim>\<open>00006_incidents.sql\<close> and
  \<^verbatim>\<open>00020_ics_closed_end_reason.sql\<close>: among others a unique index over the incident and the role of active
  assignments. Writing a section is a read and a write without a transaction, so both are operations of their own.
\<close>

subsection \<open>Types of \<^verbatim>\<open>ics/types.go\<close>\<close>

definition ValidRoleType :: "string \<Rightarrow> bool" where
  "ValidRoleType rt = List.member [''incident_commander'', ''communications_lead'', ''responder''] rt"

definition AssignableRoleType :: "string \<Rightarrow> bool" where
  "AssignableRoleType rt \<longleftrightarrow> rt = ''incident_commander'' \<or> rt = ''communications_lead'' \<or> rt = ''responder''"

definition RoleRequiredCapability :: "string \<Rightarrow> string" where
  "RoleRequiredCapability rt =
     (if rt = ''incident_commander'' then ''command'' else if rt = ''communications_lead'' then ''communicate''
      else if rt = ''responder'' then ''investigate'' else [])"

definition RoleLabel :: "string \<Rightarrow> string" where
  "RoleLabel rt =
     (if rt = ''incident_commander'' then ''Incident Commander''
      else if rt = ''communications_lead'' then ''Communicator''
      else if rt = ''responder'' then ''Responder'' else rt)"

definition ValidEndReason :: "string \<Rightarrow> bool" where
  "ValidEndReason r =
     List.member [''replaced'', ''incident_resolved'', ''assigned'', ''agent_offline'', ''incident_closed''] r"

definition ValidDocumentSection :: "string \<Rightarrow> bool" where
  "ValidDocumentSection s =
     List.member [''impact_assessment'', ''current_status'', ''actions_taken'', ''open_questions'', ''resources'',
       ''timeline_summary'', ''root_cause'', ''resolution''] s"

subsection \<open>Tables\<close>

record role_row =
  rl_id :: uuid
  rl_incident :: uuid
  rl_role :: string
  rl_status :: string
  rl_assignee :: string \<comment> \<open>\<^verbatim>\<open>user\<close> or \<^verbatim>\<open>agent\<close>\<close>
  rl_user :: "uuid option"
  rl_agent :: "uuid option"
  rl_parent :: "uuid option"
  rl_scope :: "string option"
  rl_reason :: "string option"
  rl_started :: instant
  rl_ended :: "instant option"

record doc_row =
  dc_id :: uuid
  dc_incident :: uuid
  dc_section :: string
  dc_content :: string
  dc_version :: int
  dc_by :: "uuid option"
  dc_updated :: instant

record command_db =
  cd_incidents :: "incident list"
  cd_users :: user_table
  cd_agents :: agent_table
  cd_roles :: "role_row list"
  cd_docs :: "doc_row list"

text \<open>What the store returns: the row with the names of the assignee and the number of the incident. The parent of the
  assignment is not among the fields that are copied.\<close>

record role_record =
  rr_row :: role_row
  rr_number :: int
  rr_name :: string
  rr_email :: string
  rr_agent_type :: string
  rr_revoked :: bool

datatype command_error =
    IncidentMissing | RoleMissing | AgentInactive | CapabilityMismatch | RoleConstraint
  | InvalidRoleType | RoleNotAssignable | ActiveICExists
  | InvalidSection | VersionConflict | DocumentConstraint

subsection \<open>Roles\<close>

definition role_violates :: "command_db \<Rightarrow> role_row list \<Rightarrow> role_row \<Rightarrow> bool" where
  "role_violates db others r \<longleftrightarrow>
     \<not> ValidRoleType (rl_role r) \<or> \<not> List.member [''active'', ''ended''] (rl_status r) \<or>
     \<not> List.member [''user'', ''agent''] (rl_assignee r) \<or>
     (case rl_reason r of None \<Rightarrow> False | Some e \<Rightarrow> \<not> ValidEndReason e) \<or>
     (case rl_user r of None \<Rightarrow> False | Some u \<Rightarrow> user_GetByID u (cd_users db) = None) \<or>
     (case rl_agent r of None \<Rightarrow> False | Some a \<Rightarrow> find (\<lambda>t. at_id t = a) (cd_agents db) = None) \<or>
     (case rl_parent r of None \<Rightarrow> False | Some p \<Rightarrow> \<not> list_ex (\<lambda>x. rl_id x = p) (cd_roles db)) \<or>
     list_ex (\<lambda>x. rl_id x = rl_id r \<or>
       rl_status x = ''active'' \<and> rl_status r = ''active'' \<and> rl_incident x = rl_incident r \<and> rl_role x = rl_role r) others"

definition toICSRoleRecord :: "command_db \<Rightarrow> int \<Rightarrow> role_row \<Rightarrow> role_record" where
  "toICSRoleRecord db n a =
     (let u = Option.bind (rl_user a) (\<lambda>k. user_GetByID k (cd_users db));
          t = Option.bind (rl_agent a) (\<lambda>k. find (\<lambda>x. at_id x = k) (cd_agents db))
      in \<lparr>rr_row = a\<lparr>rl_parent := None, rl_user := map_option us_id u, rl_agent := map_option at_id t\<rparr>,
          rr_number = n,
          rr_name = (case t of Some x \<Rightarrow> at_name x | None \<Rightarrow> (case u of Some x \<Rightarrow> us_full_name x | None \<Rightarrow> [])),
          rr_email = (case u of Some x \<Rightarrow> us_email x | None \<Rightarrow> []),
          rr_agent_type = (case t of Some x \<Rightarrow> at_type x | None \<Rightarrow> []),
          rr_revoked = (case t of Some x \<Rightarrow> at_revoked x | None \<Rightarrow> False)\<rparr>)"

definition insert_role :: "role_row \<Rightarrow> command_db \<Rightarrow> command_error option \<times> command_db" where
  "insert_role m db =
     (if role_violates db (cd_roles db) m then (Some RoleConstraint, db)
      else (None, db\<lparr>cd_roles := cd_roles db @ [m]\<rparr>))"

text \<open>The record of a user's assignment is put together from the arguments, without names.\<close>

definition AssignRole ::
    "uuid \<Rightarrow> instant \<Rightarrow> int \<Rightarrow> string \<Rightarrow> uuid \<Rightarrow> uuid option \<Rightarrow> string option \<Rightarrow> command_db
     \<Rightarrow> (command_error + role_record) \<times> command_db" where
  "AssignRole k now n role user parent scope db =
     (case live_incident n (cd_incidents db) of
        None \<Rightarrow> (Inl IncidentMissing, db)
      | Some inc \<Rightarrow>
          let m = \<lparr>rl_id = k, rl_incident = in_id inc, rl_role = role, rl_status = ''active'', rl_assignee = ''user'',
                   rl_user = Some user, rl_agent = None, rl_parent = parent, rl_scope = scope, rl_reason = None,
                   rl_started = now, rl_ended = None\<rparr>
          in case insert_role m db of
               (Some e, db') \<Rightarrow> (Inl e, db')
             | (None, db') \<Rightarrow>
                 (Inr \<lparr>rr_row = m, rr_number = n, rr_name = [], rr_email = [], rr_agent_type = [], rr_revoked = False\<rparr>, db'))"

definition AssignAgentRole ::
    "uuid \<Rightarrow> instant \<Rightarrow> int \<Rightarrow> string \<Rightarrow> uuid \<Rightarrow> uuid option \<Rightarrow> string option \<Rightarrow> command_db
     \<Rightarrow> (command_error + role_record) \<times> command_db" where
  "AssignAgentRole k now n role agent parent scope db =
     (case live_incident n (cd_incidents db) of
        None \<Rightarrow> (Inl IncidentMissing, db)
      | Some inc \<Rightarrow>
          (case find (\<lambda>t. at_id t = agent \<and> \<not> at_revoked t \<and> at_enabled t) (cd_agents db) of
             None \<Rightarrow> (Inl AgentInactive, db)
           | Some t \<Rightarrow>
               let cap = RoleRequiredCapability role
               in if cap \<noteq> [] \<and> \<not> Has (at_caps t) cap then (Inl CapabilityMismatch, db)
                  else
                    let m = \<lparr>rl_id = k, rl_incident = in_id inc, rl_role = role, rl_status = ''active'',
                             rl_assignee = ''agent'', rl_user = None, rl_agent = Some agent, rl_parent = parent,
                             rl_scope = scope, rl_reason = None, rl_started = now, rl_ended = None\<rparr>
                    in case insert_role m db of
                         (Some e, db') \<Rightarrow> (Inl e, db')
                       | (None, db') \<Rightarrow> (Inr (toICSRoleRecord db' n m), db')))"

definition set_roles :: "(role_row \<Rightarrow> bool) \<Rightarrow> (role_row \<Rightarrow> role_row) \<Rightarrow> command_db \<Rightarrow> command_db" where
  "set_roles p f db = db\<lparr>cd_roles := map (\<lambda>r. if p r then f r else r) (cd_roles db)\<rparr>"

definition ended :: "instant \<Rightarrow> string \<Rightarrow> role_row \<Rightarrow> role_row" where
  "ended now reason r = r\<lparr>rl_status := ''ended'', rl_reason := Some reason, rl_ended := Some now\<rparr>"

definition UpdateRoleScope :: "uuid \<Rightarrow> string option \<Rightarrow> command_db \<Rightarrow> command_error option \<times> command_db" where
  "UpdateRoleScope k scope db =
     (let p = (\<lambda>r. rl_id r = k \<and> rl_status r = ''active'')
      in (if list_ex p (cd_roles db) then None else Some RoleMissing, set_roles p (\<lambda>r. r\<lparr>rl_scope := scope\<rparr>) db))"

text \<open>The role is ended whatever its status is.\<close>

definition EndRole :: "uuid \<Rightarrow> instant \<Rightarrow> string \<Rightarrow> command_db \<Rightarrow> command_error option \<times> command_db" where
  "EndRole k now reason db =
     (let p = (\<lambda>r. rl_id r = k)
      in if \<not> list_ex p (cd_roles db) then (Some RoleMissing, db)
         else if \<not> ValidEndReason reason then (Some RoleConstraint, db)
         else (None, set_roles p (ended now reason) db))"

definition GetActiveRoles :: "int \<Rightarrow> command_db \<Rightarrow> command_error + role_record list" where
  "GetActiveRoles n db =
     (case live_incident n (cd_incidents db) of
        None \<Rightarrow> Inl IncidentMissing
      | Some inc \<Rightarrow>
          Inr (map (toICSRoleRecord db n)
            (sort_key rl_started (filter (\<lambda>r. rl_incident r = in_id inc \<and> rl_status r = ''active'') (cd_roles db)))))"

definition GetActiveIC :: "int \<Rightarrow> command_db \<Rightarrow> command_error + role_record option" where
  "GetActiveIC n db =
     (case live_incident n (cd_incidents db) of
        None \<Rightarrow> Inl IncidentMissing
      | Some inc \<Rightarrow>
          Inr (map_option (toICSRoleRecord db n)
            (find (\<lambda>r. rl_incident r = in_id inc \<and> rl_status r = ''active'' \<and> rl_role r = ''incident_commander'') (cd_roles db))))"

definition GetAllRoles :: "int \<Rightarrow> command_db \<Rightarrow> command_error + role_record list" where
  "GetAllRoles n db =
     (case live_incident n (cd_incidents db) of
        None \<Rightarrow> Inl IncidentMissing
      | Some inc \<Rightarrow>
          Inr (map (toICSRoleRecord db n) (sort_key rl_started (filter (\<lambda>r. rl_incident r = in_id inc) (cd_roles db)))))"

definition GetDelegationTree :: "int \<Rightarrow> command_db \<Rightarrow> command_error + role_record list" where
  "GetDelegationTree n db = GetActiveRoles n db"

definition GetActiveRolesForAgent :: "uuid \<Rightarrow> command_db \<Rightarrow> role_record list" where
  "GetActiveRolesForAgent agent db =
     map (\<lambda>r. toICSRoleRecord db
            (case find (\<lambda>i. in_id i = rl_incident r \<and> in_deleted i = None) (cd_incidents db) of
               None \<Rightarrow> 0 | Some i \<Rightarrow> in_number i) r)
       (filter (\<lambda>r. rl_agent r = Some agent \<and> rl_status r = ''active'') (cd_roles db))"

definition EndAllRolesForIncident :: "int \<Rightarrow> instant \<Rightarrow> string \<Rightarrow> command_db \<Rightarrow> command_error option \<times> command_db" where
  "EndAllRolesForIncident n now reason db =
     (case live_incident n (cd_incidents db) of
        None \<Rightarrow> (Some IncidentMissing, db)
      | Some inc \<Rightarrow>
          if \<not> ValidEndReason reason \<and> list_ex (\<lambda>r. rl_incident r = in_id inc \<and> rl_status r = ''active'') (cd_roles db)
          then (Some RoleConstraint, db)
          else (None, set_roles (\<lambda>r. rl_incident r = in_id inc \<and> rl_status r = ''active'') (ended now reason) db))"

definition EndRolesForAgent :: "uuid \<Rightarrow> instant \<Rightarrow> string \<Rightarrow> command_db \<Rightarrow> command_error option \<times> command_db" where
  "EndRolesForAgent agent now reason db =
     (let p = (\<lambda>r. rl_agent r = Some agent \<and> rl_status r = ''active'')
      in if \<not> ValidEndReason reason \<and> list_ex p (cd_roles db) then (Some RoleConstraint, db)
         else (None, set_roles p (ended now reason) db))"

text \<open>\<^verbatim>\<open>ics/roles.go\<close>: the checks before an assignment, the same for users and agents.\<close>

definition role_checks :: "int \<Rightarrow> string \<Rightarrow> command_db \<Rightarrow> command_error option" where
  "role_checks n role db =
     (if \<not> ValidRoleType role then Some InvalidRoleType
      else if \<not> AssignableRoleType role then Some RoleNotAssignable
      else if role = ''incident_commander'' then
        (case GetActiveIC n db of
           Inl e \<Rightarrow> Some e
         | Inr (Some ic) \<Rightarrow> Some ActiveICExists
         | Inr None \<Rightarrow> None)
      else None)"

definition rm_AssignRole ::
    "uuid \<Rightarrow> instant \<Rightarrow> int \<Rightarrow> string \<Rightarrow> uuid \<Rightarrow> uuid option \<Rightarrow> string option \<Rightarrow> command_db
     \<Rightarrow> (command_error + role_record) \<times> command_db" where
  "rm_AssignRole k now n role user parent scope db =
     (case role_checks n role db of
        Some e \<Rightarrow> (Inl e, db)
      | None \<Rightarrow> AssignRole k now n role user parent scope db)"

definition rm_AssignAgentRole ::
    "uuid \<Rightarrow> instant \<Rightarrow> int \<Rightarrow> string \<Rightarrow> uuid \<Rightarrow> uuid option \<Rightarrow> string option \<Rightarrow> command_db
     \<Rightarrow> (command_error + role_record) \<times> command_db" where
  "rm_AssignAgentRole k now n role agent parent scope db =
     (case role_checks n role db of
        Some e \<Rightarrow> (Inl e, db)
      | None \<Rightarrow> AssignAgentRole k now n role agent parent scope db)"

subsection \<open>Documents\<close>

text \<open>The order of a listing is that of the database's collation.\<close>

definition GetAllSections :: "(string \<Rightarrow> 'k::linorder) \<Rightarrow> int \<Rightarrow> command_db \<Rightarrow> command_error + doc_row list" where
  "GetAllSections collate n db =
     (case live_incident n (cd_incidents db) of
        None \<Rightarrow> Inl IncidentMissing
      | Some inc \<Rightarrow>
          Inr (sort_key (\<lambda>d. collate (dc_section d)) (filter (\<lambda>d. dc_incident d = in_id inc) (cd_docs db))))"

definition find_section :: "uuid \<Rightarrow> string \<Rightarrow> command_db \<Rightarrow> doc_row option" where
  "find_section inc sec db = find (\<lambda>d. dc_incident d = inc \<and> dc_section d = sec) (cd_docs db)"

definition GetSection :: "int \<Rightarrow> string \<Rightarrow> command_db \<Rightarrow> command_error + doc_row option" where
  "GetSection n sec db =
     (case live_incident n (cd_incidents db) of
        None \<Rightarrow> Inl IncidentMissing
      | Some inc \<Rightarrow> Inr (find_section (in_id inc) sec db))"

text \<open>The first half of \<^verbatim>\<open>UpsertSection\<close> reads the section and compares the versions; it ends with the row to
  update, or with the incident to insert for. The second half writes.\<close>

datatype upsert_plan = PlanUpdate uuid | PlanInsert uuid

definition upsert_read :: "int \<Rightarrow> string \<Rightarrow> int \<Rightarrow> command_db \<Rightarrow> command_error + upsert_plan" where
  "upsert_read n sec version db =
     (case live_incident n (cd_incidents db) of
        None \<Rightarrow> Inl IncidentMissing
      | Some inc \<Rightarrow>
          (case find_section (in_id inc) sec db of
             Some d \<Rightarrow> if dc_version d \<noteq> version then Inl VersionConflict else Inr (PlanUpdate (dc_id d))
           | None \<Rightarrow> Inr (PlanInsert (in_id inc))))"

text \<open>The user is none for the zero UUID.\<close>

definition upsert_write ::
    "uuid \<Rightarrow> instant \<Rightarrow> string \<Rightarrow> string \<Rightarrow> int \<Rightarrow> uuid option \<Rightarrow> upsert_plan \<Rightarrow> command_db
     \<Rightarrow> (command_error + doc_row) \<times> command_db" where
  "upsert_write k now sec content version user plan db =
     (let bad_user = (case user of Some u \<Rightarrow> user_GetByID u (cd_users db) = None | None \<Rightarrow> False)
      in case plan of
        PlanUpdate i \<Rightarrow>
          (case find (\<lambda>d. dc_id d = i) (cd_docs db) of
             None \<Rightarrow> (Inl DocumentConstraint, db)
           | Some d \<Rightarrow>
               if bad_user then (Inl DocumentConstraint, db)
               else
                 let d' = d\<lparr>dc_content := content, dc_version := version + 1, dc_updated := now, dc_by := user\<rparr>
                 in (Inr d', db\<lparr>cd_docs := map (\<lambda>x. if dc_id x = i then d' else x) (cd_docs db)\<rparr>))
      | PlanInsert inc \<Rightarrow>
          if bad_user \<or> list_ex (\<lambda>x. dc_id x = k) (cd_docs db) \<or> find_section inc sec db \<noteq> None
          then (Inl DocumentConstraint, db)
          else
            let d = \<lparr>dc_id = k, dc_incident = inc, dc_section = sec, dc_content = content, dc_version = 1,
                     dc_by = user, dc_updated = now\<rparr>
            in (Inr d, db\<lparr>cd_docs := cd_docs db @ [d]\<rparr>))"

definition UpsertSection ::
    "uuid \<Rightarrow> instant \<Rightarrow> int \<Rightarrow> string \<Rightarrow> string \<Rightarrow> int \<Rightarrow> uuid option \<Rightarrow> command_db
     \<Rightarrow> (command_error + doc_row) \<times> command_db" where
  "UpsertSection k now n sec content version user db =
     (case upsert_read n sec version db of
        Inl e \<Rightarrow> (Inl e, db)
      | Inr plan \<Rightarrow> upsert_write k now sec content version user plan db)"

definition UpdateSection ::
    "uuid \<Rightarrow> instant \<Rightarrow> int \<Rightarrow> string \<Rightarrow> string \<Rightarrow> int \<Rightarrow> uuid option \<Rightarrow> command_db
     \<Rightarrow> (command_error + doc_row) \<times> command_db" where
  "UpdateSection k now n sec content version user db =
     (if \<not> ValidDocumentSection sec then (Inl InvalidSection, db)
      else UpsertSection k now n sec content version user db)"

text \<open>\<^verbatim>\<open>ON CONFLICT DO NOTHING\<close>: a section that exists keeps its row. Each section comes with its generated key.\<close>

definition insert_section :: "uuid \<Rightarrow> instant \<Rightarrow> command_db \<Rightarrow> uuid \<times> string \<times> string \<Rightarrow> command_db" where
  "insert_section inc now db e =
     (case e of (k, sec, content) \<Rightarrow>
        if find_section inc sec db \<noteq> None then db
        else db\<lparr>cd_docs := cd_docs db @
               [\<lparr>dc_id = k, dc_incident = inc, dc_section = sec, dc_content = content, dc_version = 1, dc_by = None,
                 dc_updated = now\<rparr>]\<rparr>)"

definition InitializeDocument ::
    "instant \<Rightarrow> int \<Rightarrow> (uuid \<times> string \<times> string) list \<Rightarrow> command_db \<Rightarrow> command_error option \<times> command_db" where
  "InitializeDocument now n sections db =
     (case live_incident n (cd_incidents db) of
        None \<Rightarrow> (Some IncidentMissing, db)
      | Some inc \<Rightarrow>
          if \<not> distinct (map fst sections) \<or> list_ex (\<lambda>d. List.member (map fst sections) (dc_id d)) (cd_docs db)
          then (Some DocumentConstraint, db)
          else (None, foldl (insert_section (in_id inc) now) db sections))"

text \<open>The dash is the three bytes of its UTF-8 encoding; \<open>severity\<close> is that of the triage report, if it has one.\<close>

definition initial_sections :: "string \<Rightarrow> (string \<times> string) list" where
  "initial_sections severity =
     [(''current_status'', ''Triaging '' @ [CHR 0xE2, CHR 0x80, CHR 0x94] @ '' IC is assessing scope''),
      (''impact_assessment'', if severity \<noteq> [] then ''Severity: '' @ severity else []),
      (''actions_taken'', []), (''open_questions'', []), (''resources'', []), (''timeline_summary'', [])]"

definition InitializeForIncident ::
    "(string \<Rightarrow> uuid) \<Rightarrow> instant \<Rightarrow> int \<Rightarrow> string \<Rightarrow> command_db \<Rightarrow> command_error option \<times> command_db" where
  "InitializeForIncident key now n severity db =
     InitializeDocument now n (map (\<lambda>(sec, c). (key sec, sec, c)) (initial_sections severity)) db"

end
