(* ===== verification/Incident_API.thy ===== *)
theory Incident_API
  imports Service_Graph Incident_Command Alert_Store Escalation
begin

text \<open>
  The requests that move an incident through its life (\<^verbatim>\<open>api/incident_lifecycle.go\<close>, and begin-triage and promote of
  \<^verbatim>\<open>api/ics.go\<close>), the handlers of roles and documents (\<^verbatim>\<open>api/ics.go\<close>), the cascade to the linked alerts
  (\<^verbatim>\<open>api/incident_alert_cascade.go\<close>) and the sweep over service level targets (\<^verbatim>\<open>worker/sla.go\<close>). They meet in one
  world: the tables of incidents, command and alerts, the timeline, and the escalation state in Valkey.

  What leaves the program (browser events, notifications, queue messages, chat posts) is a list of outputs. An
  incident's number travels in the path as its decimal text; a text that is no positive number stands for 0, which no
  incident has. Keys set with \<^verbatim>\<open>SETNX\<close> and a time to live are marks with the instant at which they lapse.
\<close>

subsection \<open>The world\<close>

datatype mark = MarkManual int | MarkBreach int string | MarkNudge int

datatype inc_output =
    OutEvent string int                        \<comment> \<open>browser event about an incident\<close>
  | OutNotify string "uuid list" int           \<comment> \<open>notification type and recipients\<close>
  | OutAudit string int
  | OutEscalate esc_msg
  | OutService "uuid option"                   \<comment> \<open>service status to be recomputed\<close>
  | OutChannel string int                      \<comment> \<open>post to the incident's chat channel\<close>
  | OutChannelCreate int
  | OutPostMortem uuid                         \<comment> \<open>draft to be made unless there is one\<close>
  | OutAlertResolved int string
  | OutCascadePartial int nat nat
  | OutNudge uuid int                          \<comment> \<open>event forwarded to an agent\<close>

record coord_msg =
  cm_incident :: uuid
  cm_kind :: string
  cm_actor_type :: string
  cm_created :: instant

record 'v inc_world =
  iw_cmd :: command_db
  iw_timeline :: "timeline_entry list"
  iw_kv :: 'v
  iw_marks :: "(mark \<times> instant) list"
  iw_alerts :: alert_db
  iw_messages :: "coord_msg list"
  iw_out :: "inc_output list"

record 'v inc_env =
  ie_now :: instant
  ie_ids :: "nat \<Rightarrow> uuid" \<comment> \<open>generated keys of timeline entries\<close>
  ie_num :: "string \<Rightarrow> int option" \<comment> \<open>\<^verbatim>\<open>strconv.ParseInt\<close>\<close>
  ie_uuid :: "string \<Rightarrow> uuid option"
  ie_show :: "uuid \<Rightarrow> string"
  ie_api :: "'v kv_api"
  ie_vk :: bool \<comment> \<open>Valkey is configured\<close>
  ie_queue :: bool \<comment> \<open>so is the message queue\<close>
  ie_documents :: bool
  ie_services :: services_db
  ie_key :: uuid \<comment> \<open>key of the row a request inserts\<close>
  ie_collate :: "string \<Rightarrow> nat" \<comment> \<open>order of the database's collation\<close>
  ie_section_key :: "string \<Rightarrow> uuid"
  ie_interval :: int \<comment> \<open>interval of status updates; none if not positive\<close>
  ie_alert_err :: "nat \<Rightarrow> bool"
  ie_alert_fails :: "uuid \<Rightarrow> nat \<Rightarrow> bool"

datatype inc_body =
    IncRecord "incident option"
  | IncCascade "incident option" nat nat nat
  | IncStatus string
  | IncRole role_record
  | IncRoles "role_record list"
  | IncSections "doc_row list"
  | IncSection doc_row

type_synonym inc_answer = "ErrorCode \<times> string + inc_body"
type_synonym 'v inc_handler = "'v inc_world \<Rightarrow> inc_answer \<times> 'v inc_world"

definition inc_fail :: "ErrorCode \<Rightarrow> string \<Rightarrow> inc_answer" where
  "inc_fail c m = Inl (c, m)"

definition inc_guarded :: "auth_ctx \<Rightarrow> string \<Rightarrow> 'v inc_handler \<Rightarrow> 'v inc_handler" where
  "inc_guarded cx perm h w =
     (case CheckPermission cx [perm] of
        Some a \<Rightarrow> ((case fst a of Inl e \<Rightarrow> Inl e | Inr _ \<Rightarrow> inc_fail ErrorCodeInternal []), w)
      | None \<Rightarrow> h w)"

abbreviation iw_incidents :: "'v inc_world \<Rightarrow> incident list" where
  "iw_incidents w \<equiv> cd_incidents (iw_cmd w)"

definition out :: "inc_output list \<Rightarrow> 'v inc_world \<Rightarrow> 'v inc_world" where
  "out es w = w\<lparr>iw_out := iw_out w @ es\<rparr>"

definition with_incidents :: "incident list \<Rightarrow> 'v inc_world \<Rightarrow> 'v inc_world" where
  "with_incidents tab w = w\<lparr>iw_cmd := (iw_cmd w)\<lparr>cd_incidents := tab\<rparr>\<rparr>"

definition parseIncidentNumber :: "'v inc_env \<Rightarrow> string \<Rightarrow> int" where
  "parseIncidentNumber env i = (case ie_num env i of None \<Rightarrow> 0 | Some n \<Rightarrow> if n \<le> 0 then 0 else n)"

text \<open>\<^verbatim>\<open>SETNX\<close> with a time to live.\<close>

definition set_mark :: "instant \<Rightarrow> mark \<Rightarrow> int \<Rightarrow> (mark \<times> instant) list \<Rightarrow> bool \<times> (mark \<times> instant) list" where
  "set_mark now m ttl ms =
     (if list_ex (\<lambda>e. fst e = m \<and> now < snd e) ms then (False, ms) else (True, (m, now + ttl) # ms))"

subsection \<open>Timelines, look-ups, cancellation\<close>

definition timeline_add :: "'v inc_env \<Rightarrow> int \<Rightarrow> string \<Rightarrow> uuid option \<Rightarrow> string \<Rightarrow> string \<Rightarrow> 'v inc_world \<Rightarrow> 'v inc_world" where
  "timeline_add env n event actor actor_type message w =
     w\<lparr>iw_timeline := snd (AddTimelineEntry (ie_ids env (length (iw_timeline w))) (ie_now env) n
        \<lparr>te_id = 0, te_incident = 0, te_event = event, te_actor = actor, te_actor_type = actor_type,
         te_message = message, te_metadata = None, te_created = 0\<rparr> (iw_incidents w) (iw_timeline w))\<rparr>"

definition addIncidentTimeline :: "'v inc_env \<Rightarrow> auth_ctx \<Rightarrow> int \<Rightarrow> string \<Rightarrow> string \<Rightarrow> 'v inc_world \<Rightarrow> 'v inc_world" where
  "addIncidentTimeline env cx n event message w =
     (if n = 0 then w else timeline_add env n event (map_option us_id (cx_user cx)) ''user'' message w)"

definition getIncidentOrError :: "'v inc_env \<Rightarrow> string \<Rightarrow> 'v inc_world \<Rightarrow> inc_answer + incident" where
  "getIncidentOrError env i w =
     (case ie_num env i of
        None \<Rightarrow> Inl (inc_fail ErrorCodeValidationFailed ''invalid incident number'')
      | Some n \<Rightarrow>
          (case find (\<lambda>r. in_number r = n) (iw_incidents w) of
             None \<Rightarrow> Inl (inc_fail ErrorCodeNotFound ''incident not found'')
           | Some r \<Rightarrow>
               if in_deleted r \<noteq> None then Inl (inc_fail ErrorCodeNotFound ''incident not found'') else Inr r))"

text \<open>A read that also sees deleted incidents.\<close>

definition refetch :: "int \<Rightarrow> 'v inc_world \<Rightarrow> incident option" where
  "refetch n w = find (\<lambda>r. in_number r = n) (iw_incidents w)"

definition cancelEscalationForIncident :: "'v inc_env \<Rightarrow> int \<Rightarrow> string \<Rightarrow> 'v inc_world \<Rightarrow> 'v inc_world" where
  "cancelEscalationForIncident env n reason w =
     (if \<not> ie_vk env then w
      else case CancelForIncident (ie_api env) True n (iw_kv w) of (es, s) \<Rightarrow>
        (if es = [] then w\<lparr>iw_kv := s\<rparr>
         else timeline_add env n ''escalation_cancelled'' None ''system'' (''Escalation stopped '' @ reason) (w\<lparr>iw_kv := s\<rparr>)))"

text \<open>Those who hold a role as users, then commander and responder, each once.\<close>

definition incidentNotificationRecipients :: "incident \<Rightarrow> command_db \<Rightarrow> uuid list" where
  "incidentNotificationRecipients inc db =
     dedup_by (\<lambda>u. u) []
       (concat (map (\<lambda>u. case u of None \<Rightarrow> [] | Some k \<Rightarrow> [k])
          ((case GetActiveRoles (in_number inc) db of Inl _ \<Rightarrow> [] | Inr rs \<Rightarrow> map (\<lambda>r. rl_user (rr_row r)) rs) @
           [in_commander inc, in_responder inc])))"

definition lifecycle_notifications :: "'v inc_env \<Rightarrow> incident \<Rightarrow> string \<Rightarrow> 'v inc_world \<Rightarrow> 'v inc_world" where
  "lifecycle_notifications env inc kind w =
     (let rs = incidentNotificationRecipients inc (iw_cmd w)
      in if \<not> ie_queue env \<or> rs = [] then w else out [OutNotify kind rs (in_number inc)] w)"

subsection \<open>Transitions\<close>

text \<open>The statement every lifecycle request runs, and the answers to its failures.\<close>

definition transition :: "'v inc_env \<Rightarrow> string \<Rightarrow> int \<Rightarrow> ('v inc_world \<Rightarrow> inc_answer \<times> 'v inc_world) \<Rightarrow> 'v inc_handler" where
  "transition env action n k w =
     (case TransitionIncidentStatus False (ie_now env) n (ActionSources action) (ActionTarget action) (iw_incidents w) of
        (Inl ErrIncidentStatusConflict, _) \<Rightarrow> (inc_fail ErrorCodeConflict ''incident status changed concurrently'', w)
      | (Inl _, _) \<Rightarrow> (inc_fail ErrorCodeInternal (''failed to '' @ action @ '' incident''), w)
      | (Inr _, tab) \<Rightarrow> k (with_incidents tab w))"

text \<open>The side effects that need the record, skipped when it cannot be read.\<close>

definition with_updated :: "int \<Rightarrow> (incident \<Rightarrow> 'v inc_world \<Rightarrow> 'v inc_world) \<Rightarrow> 'v inc_world \<Rightarrow> 'v inc_world" where
  "with_updated n f w = (case refetch n w of None \<Rightarrow> w | Some r \<Rightarrow> f r w)"

definition handleAcknowledgeIncident :: "'v inc_env \<Rightarrow> auth_ctx \<Rightarrow> string \<Rightarrow> 'v inc_handler" where
  "handleAcknowledgeIncident env cx i =
     inc_guarded cx ''incidents:command'' (\<lambda>w.
       case getIncidentOrError env i w of
         Inl e \<Rightarrow> (e, w)
       | Inr r \<Rightarrow>
           if in_status r \<noteq> ''detected''
           then (inc_fail ErrorCodeValidationFailed ''incident must be in 'detected' status to acknowledge'', w)
           else
             let n = parseIncidentNumber env i
             in transition env ''acknowledge'' n (\<lambda>w1.
                  let w2 = addIncidentTimeline env cx n ''acknowledged'' ''Incident acknowledged''
                             (cancelEscalationForIncident env n ''incident acknowledged'' w1);
                      w3 = out [OutAudit ''incident_acknowledged'' n] w2
                  in (Inr (IncRecord (refetch n w3)),
                      with_updated n (\<lambda>u w. out [OutService (in_service u), OutChannelCreate n]
                        (lifecycle_notifications env u ''incident_acknowledged'' (out [OutEvent ''incident_updated'' n] w))) w3)) w)"

definition handleMitigateIncident :: "'v inc_env \<Rightarrow> auth_ctx \<Rightarrow> string \<Rightarrow> 'v inc_handler" where
  "handleMitigateIncident env cx i =
     inc_guarded cx ''incidents:command'' (
       let n = parseIncidentNumber env i
       in transition env ''mitigate'' n (\<lambda>w1.
            let w3 = out [OutAudit ''incident_mitigated'' n] (addIncidentTimeline env cx n ''mitigated'' ''Incident mitigated'' w1)
            in (Inr (IncRecord (refetch n w3)),
                with_updated n (\<lambda>u w. out [OutService (in_service u), OutChannel ''mitigated'' n]
                  (lifecycle_notifications env u ''incident_mitigated'' (out [OutEvent ''incident_updated'' n] w))) w3)))"

text \<open>What a resolution asks for: a summary, and three sections of the document that are not blank.\<close>

definition section_content :: "doc_row list \<Rightarrow> string \<Rightarrow> string" where
  "section_content ds sec = (case find (\<lambda>d. dc_section d = sec) (rev ds) of None \<Rightarrow> [] | Some d \<Rightarrow> go_trim_space (dc_content d))"

definition missingIncidentResolutionRequirements :: "'v inc_env \<Rightarrow> incident \<Rightarrow> command_db \<Rightarrow> string list option" where
  "missingIncidentResolutionRequirements env inc db =
     (let summary = (if go_trim_space (in_summary inc) = [] then [''summary''] else []);
          secs = [''impact_assessment'', ''root_cause'', ''resolution'']
      in if \<not> ie_documents env then Some (summary @ secs)
         else case GetAllSections (ie_collate env) (in_number inc) db of
                Inl _ \<Rightarrow> None
              | Inr ds \<Rightarrow> Some (summary @ filter (\<lambda>s. section_content ds s = []) secs))"

subsection \<open>The cascade to alerts\<close>

text \<open>The commander that the cascade's events name: the first by status and start, both descending.\<close>

definition cascade_commander :: "int \<Rightarrow> command_db \<Rightarrow> role_row option" where
  "cascade_commander n db =
     (case sort_key (\<lambda>r. (if rl_status r = ''ended'' then 0 else 1 :: nat))
         (sort_key (\<lambda>r. - rl_started r)
            (filter (\<lambda>r. rl_role r = ''incident_commander'' \<and>
               list_ex (\<lambda>i. in_id i = rl_incident r \<and> in_number i = n \<and> in_deleted i = None) (cd_incidents db)) (cd_roles db))) of
        [] \<Rightarrow> None
      | r # _ \<Rightarrow> Some r)"

definition commander_actor :: "'v inc_env \<Rightarrow> int \<Rightarrow> command_db \<Rightarrow> event_actor option" where
  "commander_actor env n db =
     (case cascade_commander n db of
        None \<Rightarrow> None
      | Some r \<Rightarrow>
          let blank = \<lparr>ac_userid = [], ac_username = [], ac_display = [], ac_source = ''incident_cascade''\<rparr>
          in Some (if rl_assignee r = ''user'' \<and> rl_user r \<noteq> None then
                     (case user_GetByID (the (rl_user r)) (cd_users db) of
                        None \<Rightarrow> blank
                      | Some u \<Rightarrow> blank\<lparr>ac_userid := ie_show env (us_id u), ac_username := us_email u, ac_display := us_full_name u\<rparr>)
                   else if rl_assignee r = ''agent'' \<and> rl_agent r \<noteq> None then
                     (case find (\<lambda>t. at_id t = the (rl_agent r)) (cd_agents db) of
                        None \<Rightarrow> blank
                      | Some t \<Rightarrow> blank\<lparr>ac_userid := ie_show env (at_id t), ac_username := at_name t, ac_display := at_name t\<rparr>)
                   else blank))"

definition runAlertCascade :: "'v inc_env \<Rightarrow> auth_ctx \<Rightarrow> int \<Rightarrow> 'v inc_world \<Rightarrow> (nat \<times> nat \<times> nat) \<times> 'v inc_world" where
  "runAlertCascade env cx n w =
     (case ResolveAlertsByIncident (ie_alert_err env) (ie_alert_fails env) (\<lambda>_ d. d) (iw_incidents w) (ie_now env) n
         (commander_actor env n (iw_cmd w))
         (Some (case cx_user cx of
                  None \<Rightarrow> \<lparr>ac_userid = ie_show env 0, ac_username = [], ac_display = [], ac_source = ''incident_cascade''\<rparr>
                | Some u \<Rightarrow> \<lparr>ac_userid = ie_show env (us_id u), ac_username = us_email u, ac_display = us_email u,
                             ac_source = ''incident_cascade''\<rparr>))
         (iw_alerts w) of
        (Inl _, db) \<Rightarrow> ((0, 0, 0), w\<lparr>iw_alerts := db\<rparr>)
      | (Inr res, db) \<Rightarrow>
          ((length (cr_resolved res), length (cr_skipped res), length (cr_failed res)),
           out (map (\<lambda>a. OutAlertResolved n (ar_fingerprint (re_alert a))) (cr_resolved res) @
                (if cr_failed res = [] then [] else [OutCascadePartial n (length (cr_resolved res)) (length (cr_failed res))]))
             (w\<lparr>iw_alerts := db\<rparr>)))"

subsection \<open>Resolving and closing\<close>

fun strings_join :: "string \<Rightarrow> string list \<Rightarrow> string" where
  "strings_join sep [] = []"
| "strings_join sep [x] = x"
| "strings_join sep (x # xs) = x @ sep @ strings_join sep xs"

definition cascade_answer :: "'v inc_env \<Rightarrow> auth_ctx \<Rightarrow> int \<Rightarrow> incident option \<Rightarrow> 'v inc_handler" where
  "cascade_answer env cx n updated w =
     (case runAlertCascade env cx n w of ((res, sk, fl), w') \<Rightarrow> (Inr (IncCascade updated res sk fl), w'))"

definition handleResolveIncident :: "'v inc_env \<Rightarrow> auth_ctx \<Rightarrow> string \<Rightarrow> 'v inc_handler" where
  "handleResolveIncident env cx i =
     inc_guarded cx ''incidents:command'' (\<lambda>w.
       let n = parseIncidentNumber env i
       in case refetch n w of
            None \<Rightarrow> (inc_fail ErrorCodeNotFound ''incident not found'', w)
          | Some r \<Rightarrow>
              if in_deleted r \<noteq> None then (inc_fail ErrorCodeNotFound ''incident not found'', w)
              else case missingIncidentResolutionRequirements env r (iw_cmd w) of
                None \<Rightarrow> (inc_fail ErrorCodeInternal ''failed to validate incident resolution requirements'', w)
              | Some (m # ms) \<Rightarrow>
                  (inc_fail ErrorCodeValidationFailed (''incident resolution requires: '' @ strings_join '', '' (m # ms)), w)
              | Some [] \<Rightarrow>
                  transition env ''resolve'' n (\<lambda>w1.
                    let w2 = out [OutAudit ''incident_resolved'' n]
                               (addIncidentTimeline env cx n ''resolved'' ''Incident resolved''
                                 (cancelEscalationForIncident env n ''incident resolved'' w1));
                        w3 = with_updated n (\<lambda>u w.
                               out [OutService (in_service u), OutChannel ''resolved'' n, OutPostMortem (in_id u)]
                                 (lifecycle_notifications env u ''incident_resolved'' (out [OutEvent ''incident_updated'' n] w))) w2
                    in cascade_answer env cx n (refetch n w2) w3) w)"

definition end_roles_on_close :: "'v inc_env \<Rightarrow> auth_ctx \<Rightarrow> int \<Rightarrow> 'v inc_world \<Rightarrow> 'v inc_world" where
  "end_roles_on_close env cx n w =
     (case EndAllRolesForIncident n (ie_now env) ''incident_closed'' (iw_cmd w) of
        (Some _, db) \<Rightarrow> w\<lparr>iw_cmd := db\<rparr>
      | (None, db) \<Rightarrow>
          addIncidentTimeline env cx n ''ics_roles_ended'' ''ICS roles ended: incident closed'' (w\<lparr>iw_cmd := db\<rparr>))"

definition handleCloseIncident :: "'v inc_env \<Rightarrow> auth_ctx \<Rightarrow> string \<Rightarrow> 'v inc_handler" where
  "handleCloseIncident env cx i =
     inc_guarded cx ''incidents:command'' (
       let n = parseIncidentNumber env i
       in transition env ''close'' n (\<lambda>w1.
            let w2 = out [OutAudit ''incident_closed'' n]
                       (end_roles_on_close env cx n
                         (addIncidentTimeline env cx n ''closed'' ''Incident closed''
                           (cancelEscalationForIncident env n ''incident closed'' w1)));
                w3 = with_updated n (\<lambda>u w. out [OutService (in_service u), OutChannel ''closed'' n]
                       (out [OutEvent ''incident_updated'' n] w)) w2
            in cascade_answer env cx n (refetch n w2) w3))"

subsection \<open>Reopening, cancelling, escalating\<close>

definition ClearBreachDedupKeys :: "'v inc_env \<Rightarrow> int \<Rightarrow> 'v inc_world \<Rightarrow> 'v inc_world" where
  "ClearBreachDedupKeys env n w =
     (if \<not> ie_vk env then w
      else w\<lparr>iw_marks := filter (\<lambda>e. fst e \<noteq> MarkBreach n ''response'' \<and> fst e \<noteq> MarkBreach n ''resolve'') (iw_marks w)\<rparr>)"

definition handleReopenIncident :: "'v inc_env \<Rightarrow> auth_ctx \<Rightarrow> string \<Rightarrow> 'v inc_handler" where
  "handleReopenIncident env cx i =
     inc_guarded cx ''incidents:command'' (
       let n = parseIncidentNumber env i
       in transition env ''reopen'' n (\<lambda>w1.
            let w2 = ClearBreachDedupKeys env n (with_incidents (snd (ClearSLAResolvedAt False n (iw_incidents w1))) w1);
                w3 = out [OutAudit ''incident_reopened'' n] (addIncidentTimeline env cx n ''reopened'' ''Incident reopened'' w2)
            in (Inr (IncRecord (refetch n w3)),
                with_updated n (\<lambda>u w. out [OutService (in_service u), OutChannel ''active'' n]
                  (lifecycle_notifications env u ''incident_reopened'' (out [OutEvent ''incident_updated'' n] w))) w3)))"

definition handleCancelIncident :: "'v inc_env \<Rightarrow> auth_ctx \<Rightarrow> string \<Rightarrow> 'v inc_handler" where
  "handleCancelIncident env cx i =
     inc_guarded cx ''incidents:command'' (
       let n = parseIncidentNumber env i
       in transition env ''cancel'' n (\<lambda>w1.
            let w2 = out [OutAudit ''incident_cancelled'' n]
                       (cancelEscalationForIncident env n ''incident cancelled''
                         (addIncidentTimeline env cx n ''cancelled'' ''Incident cancelled'' w1))
            in (Inr (IncRecord (refetch n w2)),
                with_updated n (\<lambda>u w. out [OutService (in_service u), OutChannel ''cancelled'' n]
                  (out [OutEvent ''incident_updated'' n] w)) w2)))"

text \<open>The mark of a manual escalation is set before its other conditions are looked at.\<close>

definition manual_claim :: "'v inc_env \<Rightarrow> int \<Rightarrow> 'v inc_world \<Rightarrow> bool \<times> 'v inc_world" where
  "manual_claim env n w =
     (if \<not> ie_vk env then (True, w)
      else case set_mark (ie_now env) (MarkManual n) (60 * go_second) (iw_marks w) of
        (ok, ms) \<Rightarrow> (ok, w\<lparr>iw_marks := ms\<rparr>))"

definition service_policy :: "'v inc_env \<Rightarrow> incident \<Rightarrow> uuid option" where
  "service_policy env r =
     (case in_service r of None \<Rightarrow> None
      | Some k \<Rightarrow> (case GetService k (ie_services env) of None \<Rightarrow> None | Some s \<Rightarrow> svc_policy s))"

definition escalate_guard :: "'v inc_env \<Rightarrow> int \<Rightarrow> 'v inc_world \<Rightarrow> guard_result" where
  "escalate_guard env n w =
     (if ie_vk env then preflightEscalationState (ie_api env) (ie_now env) n (iw_kv w) else guardAllow)"

text \<open>The message names the policy of the service, and otherwise the zero UUID.\<close>

definition handleEscalateIncident :: "'v inc_env \<Rightarrow> auth_ctx \<Rightarrow> string \<Rightarrow> 'v inc_handler" where
  "handleEscalateIncident env cx i =
     inc_guarded cx ''incidents:command'' (\<lambda>w.
       case getIncidentOrError env i w of
         Inl e \<Rightarrow> (e, w)
       | Inr r \<Rightarrow>
           if IsTerminalIncidentStatus (in_status r)
           then (inc_fail ErrorCodeValidationFailed (''cannot escalate an incident in '' @ CHR 0x27 # in_status r @ CHR 0x27 # '' status''), w)
           else
             let n = parseIncidentNumber env i
             in case manual_claim env n w of
                  (False, w1) \<Rightarrow>
                    (inc_fail ErrorCodeRateLimited
                       ''an escalation was already triggered for this incident in the last 60 seconds'', w1)
                | (True, w1) \<Rightarrow>
                    (case escalate_guard env n w1 of
                       guardSkipAcknowledged \<Rightarrow>
                         (inc_fail ErrorCodeConflict ''incident escalation has already been acknowledged'', w1)
                     | guardSkipSilenced \<Rightarrow>
                         (inc_fail ErrorCodeConflict
                            ''incident escalation is silenced; cancel the silence or wait for it to expire'', w1)
                     | _ \<Rightarrow>
                         (Inr (IncRecord (Some r)),
                          out ([OutEvent ''incident_updated'' n, OutAudit ''incident_escalated'' n] @
                               (if ie_queue env
                                then [OutEscalate \<lparr>em_incident = in_number r,
                                        em_policy = (case service_policy env r of None \<Rightarrow> 0 | Some p \<Rightarrow> p),
                                        em_level = 1, em_retry = 0, em_max = MaxEscalationRetries\<rparr>]
                                else []))
                            (addIncidentTimeline env cx n ''escalated'' ''Incident escalated'' w1))))"

subsection \<open>Triage and promotion\<close>

definition handleBeginTriage :: "'v inc_env \<Rightarrow> auth_ctx \<Rightarrow> string \<Rightarrow> 'v inc_handler" where
  "handleBeginTriage env cx i =
     inc_guarded cx ''incidents:command'' (\<lambda>w.
       if i = [] then (inc_fail ErrorCodeValidationFailed ''missing incident id'', w)
       else case getIncidentOrError env i w of
         Inl e \<Rightarrow> (e, w)
       | Inr r \<Rightarrow>
           if in_status r \<noteq> ''detected''
           then (inc_fail ErrorCodeValidationFailed ''incident must be in 'detected' status to begin triage'', w)
           else
             let n = parseIncidentNumber env i
             in transition env ''begin-triage'' n (\<lambda>w1.
                  let w2 = addIncidentTimeline env cx n ''triage_started'' ''Triage started'' w1;
                      w3 = (if ie_documents env
                            then w2\<lparr>iw_cmd := snd (InitializeForIncident (ie_section_key env) (ie_now env) n [] (iw_cmd w2))\<rparr>
                            else w2)
                  in (Inr (IncRecord (refetch n w3)),
                      out [OutEvent ''incident_updated'' n, OutAudit ''incident_begin_triage'' n] w3)) w)"

definition handlePromote :: "'v inc_env \<Rightarrow> auth_ctx \<Rightarrow> string \<Rightarrow> 'v inc_handler" where
  "handlePromote env cx i =
     inc_guarded cx ''incidents:command'' (\<lambda>w.
       if i = [] then (inc_fail ErrorCodeValidationFailed ''missing incident id'', w)
       else case getIncidentOrError env i w of
         Inl e \<Rightarrow> (e, w)
       | Inr r \<Rightarrow>
           if in_status r \<noteq> ''triaging''
           then (inc_fail ErrorCodeValidationFailed ''incident must be in 'triaging' status to promote'', w)
           else
             let n = parseIncidentNumber env i
             in transition env ''promote'' n (\<lambda>w1.
                  let w2 = addIncidentTimeline env cx n ''incident_promoted'' ''Incident promoted to active'' w1
                  in (Inr (IncRecord (refetch n w2)),
                      out (OutEvent ''incident_updated'' n # OutAudit ''incident_promote'' n #
                           (case refetch n w2 of None \<Rightarrow> [] | Some u \<Rightarrow> [OutService (in_service u)])) w2)) w)"

subsection \<open>Requests about roles\<close>

definition handleListICSRoles :: "'v inc_env \<Rightarrow> auth_ctx \<Rightarrow> string \<Rightarrow> 'v inc_handler" where
  "handleListICSRoles env cx i =
     inc_guarded cx ''incidents:read'' (\<lambda>w.
       (case GetAllRoles (parseIncidentNumber env i) (iw_cmd w) of
          Inl _ \<Rightarrow> inc_fail ErrorCodeInternal ''failed to list ICS roles''
        | Inr rs \<Rightarrow> Inr (IncRoles rs), w))"

record assign_request =
  aq_role :: string
  aq_user :: string
  aq_agent :: string
  aq_scope :: "string option"

definition assign_done :: "'v inc_env \<Rightarrow> auth_ctx \<Rightarrow> int \<Rightarrow> string \<Rightarrow> string \<Rightarrow> command_db \<Rightarrow> 'v inc_world \<Rightarrow> 'v inc_world" where
  "assign_done env cx n event message db w =
     out [OutEvent ''incident_updated'' n]
       (addIncidentTimeline env cx n ''ics_role_assigned'' message (out [OutAudit event n] (w\<lparr>iw_cmd := db\<rparr>)))"

text \<open>Every error of a store that has no case of its own is answered as an internal error, an occupied role too.\<close>

definition assign_agent :: "'v inc_env \<Rightarrow> auth_ctx \<Rightarrow> int \<Rightarrow> assign_request \<Rightarrow> 'v inc_handler" where
  "assign_agent env cx n rq w =
     (case ie_uuid env (aq_agent rq) of
        None \<Rightarrow> (inc_fail ErrorCodeValidationFailed ''invalid agent_token_id'', w)
      | Some k \<Rightarrow>
          (case rm_AssignAgentRole (ie_key env) (ie_now env) n (aq_role rq) k None (aq_scope rq) (iw_cmd w) of
             (Inl RoleNotAssignable, db) \<Rightarrow>
               (inc_fail ErrorCodeValidationFailed ''role type is not assignable'', w\<lparr>iw_cmd := db\<rparr>)
           | (Inl AgentInactive, db) \<Rightarrow> (inc_fail ErrorCodeNotFound ''agent not found or inactive'', w\<lparr>iw_cmd := db\<rparr>)
           | (Inl CapabilityMismatch, db) \<Rightarrow>
               (inc_fail ErrorCodeValidationFailed (''agent does not have required capability: role '' @ aq_role rq @ '' requires '' @ RoleRequiredCapability (aq_role rq)), w\<lparr>iw_cmd := db\<rparr>)
           | (Inl _, db) \<Rightarrow> (inc_fail ErrorCodeInternal ''failed to assign agent ICS role'', w\<lparr>iw_cmd := db\<rparr>)
           | (Inr rec, db) \<Rightarrow>
               (Inr (IncRole rec),
                assign_done env cx n ''agent_role_assigned'' (''Agent ICS role assigned: '' @ aq_role rq) db w)))"

definition assign_user :: "'v inc_env \<Rightarrow> auth_ctx \<Rightarrow> int \<Rightarrow> assign_request \<Rightarrow> 'v inc_handler" where
  "assign_user env cx n rq w =
     (case ie_uuid env (aq_user rq) of
        None \<Rightarrow> (inc_fail ErrorCodeValidationFailed ''invalid user_id'', w)
      | Some k \<Rightarrow>
          (case rm_AssignRole (ie_key env) (ie_now env) n (aq_role rq) k None (aq_scope rq) (iw_cmd w) of
             (Inl RoleNotAssignable, db) \<Rightarrow>
               (inc_fail ErrorCodeValidationFailed ''role type is not assignable'', w\<lparr>iw_cmd := db\<rparr>)
           | (Inl _, db) \<Rightarrow> (inc_fail ErrorCodeInternal ''failed to assign ICS role'', w\<lparr>iw_cmd := db\<rparr>)
           | (Inr rec, db) \<Rightarrow>
               (Inr (IncRole rec),
                assign_done env cx n ''incident_role_assigned'' (''ICS role assigned: '' @ aq_role rq) db w)))"

text \<open>\<open>None\<close> is a body that cannot be decoded.\<close>

definition handleAssignICSRole :: "'v inc_env \<Rightarrow> auth_ctx \<Rightarrow> string \<Rightarrow> assign_request option \<Rightarrow> 'v inc_handler" where
  "handleAssignICSRole env cx i body =
     inc_guarded cx ''incidents:command'' (\<lambda>w.
       case body of
         None \<Rightarrow> (inc_fail ErrorCodeValidationFailed ''invalid request body'', w)
       | Some rq \<Rightarrow>
           if aq_role rq = [] then (inc_fail ErrorCodeValidationFailed ''role_type is required'', w)
           else if aq_user rq = [] \<and> aq_agent rq = []
           then (inc_fail ErrorCodeValidationFailed ''user_id or agent_token_id is required'', w)
           else if aq_user rq \<noteq> [] \<and> aq_agent rq \<noteq> []
           then (inc_fail ErrorCodeValidationFailed ''provide either user_id or agent_token_id, not both'', w)
           else if \<not> ValidRoleType (aq_role rq) then (inc_fail ErrorCodeValidationFailed ''invalid role_type'', w)
           else if aq_agent rq \<noteq> [] then assign_agent env cx (parseIncidentNumber env i) rq w
           else assign_user env cx (parseIncidentNumber env i) rq w)"

definition handleICSRoles :: "'v inc_env \<Rightarrow> auth_ctx \<Rightarrow> string \<Rightarrow> string \<Rightarrow> assign_request option \<Rightarrow> 'v inc_handler" where
  "handleICSRoles env cx http i body w =
     (if i = [] then (inc_fail ErrorCodeValidationFailed ''missing incident id'', w)
      else if http = ''GET'' then handleListICSRoles env cx i w
      else if http = ''POST'' then handleAssignICSRole env cx i body w
      else (inc_fail ErrorCodeMethodNotAllowed ''method not allowed'', w))"

definition handleUpdateICSRole :: "'v inc_env \<Rightarrow> auth_ctx \<Rightarrow> string \<Rightarrow> uuid \<Rightarrow> string option \<Rightarrow> 'v inc_handler" where
  "handleUpdateICSRole env cx i k body =
     inc_guarded cx ''incidents:command'' (\<lambda>w.
       case body of
         None \<Rightarrow> (inc_fail ErrorCodeValidationFailed ''invalid request body'', w)
       | Some scope \<Rightarrow>
           let n = parseIncidentNumber env i
           in case GetAllRoles n (iw_cmd w) of
                Inl _ \<Rightarrow> (inc_fail ErrorCodeInternal ''failed to list ICS roles'', w)
              | Inr rs \<Rightarrow>
                  (case find (\<lambda>r. rl_id (rr_row r) = k) rs of
                     None \<Rightarrow> (inc_fail ErrorCodeNotFound ''role assignment not found'', w)
                   | Some r \<Rightarrow>
                       if rl_user (rr_row r) = None
                       then (inc_fail ErrorCodeValidationFailed ''cannot update agent-assigned role via this endpoint'', w)
                       else case UpdateRoleScope (rl_id (rr_row r)) (Some scope) (iw_cmd w) of
                         (Some RoleMissing, db) \<Rightarrow>
                           (inc_fail ErrorCodeNotFound ''role assignment not found'', w\<lparr>iw_cmd := db\<rparr>)
                       | (Some _, db) \<Rightarrow> (inc_fail ErrorCodeInternal ''failed to update ICS role scope'', w\<lparr>iw_cmd := db\<rparr>)
                       | (None, db) \<Rightarrow>
                           (Inr (IncStatus ''updated''),
                            out [OutEvent ''incident_updated'' n]
                              (addIncidentTimeline env cx n ''ics_role_updated'' ''ICS role scope updated''
                                (out [OutAudit ''incident_role_updated'' n] (w\<lparr>iw_cmd := db\<rparr>))))))"

text \<open>The role is named by its own key alone; the number of the path decides where the timeline entry goes.\<close>

definition handleEndICSRole :: "'v inc_env \<Rightarrow> auth_ctx \<Rightarrow> string \<Rightarrow> uuid \<Rightarrow> string option \<Rightarrow> 'v inc_handler" where
  "handleEndICSRole env cx i k body =
     inc_guarded cx ''incidents:command'' (\<lambda>w.
       case body of
         None \<Rightarrow> (inc_fail ErrorCodeValidationFailed ''invalid request body'', w)
       | Some b \<Rightarrow>
           let reason = (if b = [] then ''replaced'' else b);
               n = parseIncidentNumber env i
           in if \<not> ValidEndReason reason then (inc_fail ErrorCodeValidationFailed ''unknown ended_reason'', w)
              else case EndRole k (ie_now env) reason (iw_cmd w) of
                (Some e, db) \<Rightarrow>
                  (if e = RoleMissing \<or> e = IncidentMissing then inc_fail ErrorCodeNotFound ''role assignment not found''
                   else inc_fail ErrorCodeInternal ''failed to end ICS role'', w\<lparr>iw_cmd := db\<rparr>)
              | (None, db) \<Rightarrow>
                  (Inr (IncStatus ''ended''),
                   out [OutEvent ''incident_updated'' n]
                     (addIncidentTimeline env cx n ''ics_role_ended'' (''ICS role ended: '' @ reason) (w\<lparr>iw_cmd := db\<rparr>))))"

text \<open>The path has been split in the number and the text of the role's key; the bodies carry one field each.\<close>

definition handleICSRoleRoutes :: "'v inc_env \<Rightarrow> auth_ctx \<Rightarrow> string \<Rightarrow> string \<Rightarrow> string \<Rightarrow> string option \<Rightarrow> 'v inc_handler" where
  "handleICSRoleRoutes env cx http i role body w =
     (if i = [] then (inc_fail ErrorCodeValidationFailed ''invalid URL'', w)
      else case ie_uuid env role of
        None \<Rightarrow> (inc_fail ErrorCodeValidationFailed ''invalid role assignment id'', w)
      | Some k \<Rightarrow>
          if http = ''PATCH'' then handleUpdateICSRole env cx i k body w
          else if http = ''DELETE'' then handleEndICSRole env cx i k body w
          else (inc_fail ErrorCodeMethodNotAllowed ''method not allowed'', w))"

subsection \<open>Requests about the document\<close>

definition handleICSDocument :: "'v inc_env \<Rightarrow> auth_ctx \<Rightarrow> string \<Rightarrow> string \<Rightarrow> 'v inc_handler" where
  "handleICSDocument env cx http i w =
     (if http \<noteq> ''GET'' then (inc_fail ErrorCodeMethodNotAllowed ''method not allowed'', w)
      else inc_guarded cx ''incidents:read'' (\<lambda>w.
        (if \<not> ie_documents env then inc_fail ErrorCodeInternal ''incident document store not configured''
         else if i = [] then inc_fail ErrorCodeValidationFailed ''missing incident id''
         else case GetAllSections (ie_collate env) (parseIncidentNumber env i) (iw_cmd w) of
                Inl _ \<Rightarrow> inc_fail ErrorCodeInternal ''failed to get incident document''
              | Inr ds \<Rightarrow> Inr (IncSections ds), w)) w)"

definition handleICSDocumentRoutes ::
    "'v inc_env \<Rightarrow> auth_ctx \<Rightarrow> string \<Rightarrow> string \<Rightarrow> string \<Rightarrow> (string \<times> int) option \<Rightarrow> 'v inc_handler" where
  "handleICSDocumentRoutes env cx http i sec body w =
     (if http \<noteq> ''PUT'' then (inc_fail ErrorCodeMethodNotAllowed ''method not allowed'', w)
      else inc_guarded cx ''incidents:write'' (\<lambda>w.
        if \<not> ie_documents env then (inc_fail ErrorCodeInternal ''incident document store not configured'', w)
        else if i = [] then (inc_fail ErrorCodeValidationFailed ''invalid URL'', w)
        else if \<not> ValidDocumentSection sec then (inc_fail ErrorCodeValidationFailed ''invalid document section'', w)
        else case body of
          None \<Rightarrow> (inc_fail ErrorCodeValidationFailed ''invalid request body'', w)
        | Some (content, version) \<Rightarrow>
            (case cx_user cx of
               None \<Rightarrow> (inc_fail ErrorCodeUnauthorized ''unauthorized'', w)
             | Some u \<Rightarrow>
                 let n = parseIncidentNumber env i
                 in case UpdateSection (ie_key env) (ie_now env) n sec content version
                        (if us_id u = 0 then None else Some (us_id u)) (iw_cmd w) of
                      (Inl VersionConflict, db) \<Rightarrow>
                        (inc_fail ErrorCodeConflict (''document version conflict '' @ [CHR 0xE2, CHR 0x80, CHR 0x94] @ '' fetch latest and retry''), w\<lparr>iw_cmd := db\<rparr>)
                    | (Inl _, db) \<Rightarrow> (inc_fail ErrorCodeInternal ''failed to update document section'', w\<lparr>iw_cmd := db\<rparr>)
                    | (Inr d, db) \<Rightarrow>
                        (Inr (IncSection d),
                         out [OutEvent ''incident_updated'' n]
                           (addIncidentTimeline env cx n ''document_updated'' (''Document section updated: '' @ sec)
                             (w\<lparr>iw_cmd := db\<rparr>))))) w)"

subsection \<open>The sweep over service level targets\<close>

definition system_entry :: "'v inc_env \<Rightarrow> int \<Rightarrow> string \<Rightarrow> string \<Rightarrow> 'v inc_world \<Rightarrow> 'v inc_world" where
  "system_entry env n event message w = timeline_add env n event None ''system'' message w"

definition markBreachDeduped :: "'v inc_env \<Rightarrow> int \<Rightarrow> string \<Rightarrow> 'v inc_world \<Rightarrow> bool \<times> 'v inc_world" where
  "markBreachDeduped env n kind w =
     (if \<not> ie_vk env then (True, w)
      else case set_mark (ie_now env) (MarkBreach n kind) (24 * go_hour) (iw_marks w) of
        (ok, ms) \<Rightarrow> (ok, w\<lparr>iw_marks := ms\<rparr>))"

definition breach_policy :: "'v inc_env \<Rightarrow> incident \<Rightarrow> uuid option" where
  "breach_policy env r = (case in_policy r of Some p \<Rightarrow> Some p | None \<Rightarrow> service_policy env r)"

definition triggerEscalationOnBreach :: "'v inc_env \<Rightarrow> incident \<Rightarrow> 'v inc_world \<Rightarrow> 'v inc_world" where
  "triggerEscalationOnBreach env r w =
     (if \<not> ie_queue env then w
      else case breach_policy env r of
        None \<Rightarrow> w
      | Some p \<Rightarrow>
          (case (if ie_vk env
                 then claimEscalationFirstPublish (ie_api env) (ie_now env) (in_number r) p 1 (iw_kv w)
                 else (guardAllow, iw_kv w)) of
             (v, s) \<Rightarrow>
               if v \<noteq> guardAllow then w\<lparr>iw_kv := s\<rparr>
               else system_entry env (in_number r) ''sla_escalation'' ''Response SLA breach triggered escalation''
                      (out [OutEscalate \<lparr>em_incident = in_number r, em_policy = p, em_level = 1, em_retry = 0,
                              em_max = MaxEscalationRetries\<rparr>] (w\<lparr>iw_kv := s\<rparr>))))"

definition respond_breached :: "instant \<Rightarrow> incident \<Rightarrow> bool" where
  "respond_breached now r \<longleftrightarrow>
     in_sla_acked r = None \<and> (case in_sla_respond r of None \<Rightarrow> False | Some t \<Rightarrow> t < now)"

definition resolve_breached :: "instant \<Rightarrow> incident \<Rightarrow> bool" where
  "resolve_breached now r \<longleftrightarrow>
     in_sla_resolved r = None \<and> (case in_sla_resolve r of None \<Rightarrow> False | Some t \<Rightarrow> t < now)"

definition sweep_respond :: "'v inc_env \<Rightarrow> incident \<Rightarrow> 'v inc_world \<Rightarrow> 'v inc_world" where
  "sweep_respond env r w =
     (if \<not> respond_breached (ie_now env) r then w
      else case markBreachDeduped env (in_number r) ''response'' w of
        (False, w1) \<Rightarrow> w1
      | (True, w1) \<Rightarrow>
          triggerEscalationOnBreach env r
            (out [OutEvent ''incident_sla_breach:response'' (in_number r)]
              (system_entry env (in_number r) ''sla_breach'' ''Response SLA breached'' w1)))"

definition sweep_resolve :: "'v inc_env \<Rightarrow> incident \<Rightarrow> 'v inc_world \<Rightarrow> 'v inc_world" where
  "sweep_resolve env r w =
     (if \<not> resolve_breached (ie_now env) r then w
      else case markBreachDeduped env (in_number r) ''resolve'' w of
        (False, w1) \<Rightarrow> w1
      | (True, w1) \<Rightarrow>
          out [OutEvent ''incident_sla_breach:resolve'' (in_number r)]
            (system_entry env (in_number r) ''sla_breach'' ''Resolve SLA breached'' w1))"

text \<open>The newest message of a kind in a live incident's thread.\<close>

definition newest_message :: "(coord_msg \<Rightarrow> bool) \<Rightarrow> int \<Rightarrow> 'v inc_world \<Rightarrow> coord_msg option" where
  "newest_message p n w =
     (case sort_key (\<lambda>m. - cm_created m)
         (filter (\<lambda>m. p m \<and> list_ex (\<lambda>i. in_id i = cm_incident m \<and> in_number i = n \<and> in_deleted i = None) (iw_incidents w))
            (iw_messages w)) of
        [] \<Rightarrow> None
      | m # _ \<Rightarrow> Some m)"

definition NewestStatusUpdate :: "int \<Rightarrow> 'v inc_world \<Rightarrow> coord_msg option" where
  "NewestStatusUpdate = newest_message (\<lambda>m. cm_kind m = ''status_update'')"

definition NewestAgentCoordinationReply :: "int \<Rightarrow> 'v inc_world \<Rightarrow> coord_msg option" where
  "NewestAgentCoordinationReply = newest_message (\<lambda>m. cm_kind m = ''agent_reply'' \<and> cm_actor_type m = ''agent'')"

definition markCommsNudgeDeduped :: "'v inc_env \<Rightarrow> int \<Rightarrow> 'v inc_world \<Rightarrow> bool \<times> 'v inc_world" where
  "markCommsNudgeDeduped env n w =
     (if \<not> ie_vk env then (True, w)
      else case set_mark (ie_now env) (MarkNudge n) (ie_interval env) (iw_marks w) of
        (ok, ms) \<Rightarrow> (ok, w\<lparr>iw_marks := ms\<rparr>))"

definition nudgeCommander :: "incident \<Rightarrow> 'v inc_world \<Rightarrow> 'v inc_world" where
  "nudgeCommander r w =
     (case GetActiveIC (in_number r) (iw_cmd w) of
        Inr (Some c) \<Rightarrow>
          if rl_assignee (rr_row c) \<noteq> ''agent'' then w
          else (case rl_agent (rr_row c) of None \<Rightarrow> w | Some k \<Rightarrow> out [OutNudge k (in_number r)] w)
      | _ \<Rightarrow> w)"

definition comms_stale :: "'v inc_env \<Rightarrow> incident \<Rightarrow> 'v inc_world \<Rightarrow> bool" where
  "comms_stale env r w \<longleftrightarrow>
     0 < ie_interval env \<and> in_status r \<noteq> ''resolved'' \<and> in_status r \<noteq> ''closed'' \<and> in_status r \<noteq> ''cancelled'' \<and>
     (case NewestAgentCoordinationReply (in_number r) w of
        None \<Rightarrow> False
      | Some a \<Rightarrow>
          (case NewestStatusUpdate (in_number r) w of None \<Rightarrow> True | Some u \<Rightarrow> cm_created u < cm_created a) \<and>
          ie_interval env \<le> ie_now env - cm_created a)"

definition sweepCommsStaleness :: "'v inc_env \<Rightarrow> incident \<Rightarrow> 'v inc_world \<Rightarrow> 'v inc_world" where
  "sweepCommsStaleness env r w =
     (if \<not> comms_stale env r w then w
      else case markCommsNudgeDeduped env (in_number r) w of
        (False, w1) \<Rightarrow> w1
      | (True, w1) \<Rightarrow>
          nudgeCommander r
            (out [OutEvent ''incident_comms_stale'' (in_number r)]
              (system_entry env (in_number r) ''comms_stale''
                ''Communicator has not published a status update after a responder report'' w1)))"

definition sla_one :: "'v inc_env \<Rightarrow> 'v inc_world \<Rightarrow> incident \<Rightarrow> 'v inc_world" where
  "sla_one env w r = sweepCommsStaleness env r (sweep_resolve env r (sweep_respond env r w))"

text \<open>One tick: the incidents are read once, before anything is written.\<close>

definition sla_tick :: "'v inc_env \<Rightarrow> 'v inc_world \<Rightarrow> 'v inc_world" where
  "sla_tick env w = foldl (sla_one env) w (ListSLAEligibleIncidents (iw_incidents w))"

subsection \<open>Requests in sequence\<close>

datatype lifecycle_request =
    RqAcknowledge | RqMitigate | RqResolve | RqClose | RqReopen | RqCancel | RqEscalate | RqBeginTriage | RqPromote

fun lifecycle :: "lifecycle_request \<Rightarrow> 'v inc_env \<Rightarrow> auth_ctx \<Rightarrow> string \<Rightarrow> 'v inc_handler" where
  "lifecycle RqAcknowledge = handleAcknowledgeIncident"
| "lifecycle RqMitigate = handleMitigateIncident"
| "lifecycle RqResolve = handleResolveIncident"
| "lifecycle RqClose = handleCloseIncident"
| "lifecycle RqReopen = handleReopenIncident"
| "lifecycle RqCancel = handleCancelIncident"
| "lifecycle RqEscalate = handleEscalateIncident"
| "lifecycle RqBeginTriage = handleBeginTriage"
| "lifecycle RqPromote = handlePromote"

datatype 'v inc_event = Request lifecycle_request "'v inc_env" auth_ctx string | Tick "'v inc_env"

fun inc_step :: "'v inc_event \<Rightarrow> 'v inc_world \<Rightarrow> 'v inc_world" where
  "inc_step (Request q env cx i) w = snd (lifecycle q env cx i w)"
| "inc_step (Tick env) w = sla_tick env w"

definition inc_run :: "'v inc_event list \<Rightarrow> 'v inc_world \<Rightarrow> 'v inc_world" where
  "inc_run evs w = foldl (\<lambda>w e. inc_step e w) w evs"

end
