(* ===== verification/Command_Correct.thy ===== *)
theory Command_Correct
  imports Incident_Command
begin

text \<open>
  What incident command promises: at most one active holder of a role of an incident; sections of the document that
  behave like registers with versions (locale \<open>versioned_store\<close>) as long as one writer follows the other, and lose an
  update when two overlap.
\<close>

subsection \<open>The invariant\<close>

abbreviation active_role :: "role_row \<Rightarrow> bool" where
  "active_role r \<equiv> rl_status r = ''active''"

definition role_sound :: "role_row \<Rightarrow> bool" where
  "role_sound r \<longleftrightarrow> ValidRoleType (rl_role r) \<and>
     (if active_role r then rl_ended r = None \<and> rl_reason r = None
      else rl_status r = ''ended'' \<and> rl_ended r \<noteq> None \<and> rl_reason r \<noteq> None)"

definition command_inv :: "command_db \<Rightarrow> bool" where
  "command_inv db \<longleftrightarrow>
     distinct (map rl_id (cd_roles db)) \<and>
     distinct (map (\<lambda>r. (rl_incident r, rl_role r)) (filter active_role (cd_roles db))) \<and>
     list_all role_sound (cd_roles db) \<and>
     distinct (map dc_id (cd_docs db)) \<and> distinct (map (\<lambda>d. (dc_incident d, dc_section d)) (cd_docs db)) \<and>
     list_all (\<lambda>d. 1 \<le> dc_version d) (cd_docs db)"

lemma insert_role_inv:
  assumes inv: "command_inv db" and m: "active_role m" "rl_ended m = None" "rl_reason m = None"
  shows "command_inv (snd (insert_role m db))"
proof (cases "role_violates db (cd_roles db) m")
  case False
  then have "ValidRoleType (rl_role m)" "rl_id m \<notin> rl_id ` set (cd_roles db)"
    and "(rl_incident m, rl_role m) \<notin> (\<lambda>r. (rl_incident r, rl_role r)) ` set (filter active_role (cd_roles db))"
    using m by (auto simp: role_violates_def list_ex_iff)
  with inv m False show ?thesis
    by (simp add: insert_role_def command_inv_def role_sound_def)
qed (simp add: insert_role_def inv)

lemma set_roles_sub:
  assumes inv: "command_inv db"
    and f: "\<And>r. r \<in> set (cd_roles db) \<Longrightarrow> p r \<Longrightarrow>
      rl_id (f r) = rl_id r \<and> role_sound (f r) \<and>
      (active_role (f r) \<longrightarrow> active_role r \<and> (rl_incident (f r), rl_role (f r)) = (rl_incident r, rl_role r))"
  shows "command_inv (set_roles p f db)"
proof -
  let ?g = "\<lambda>r. if p r then f r else r"
  have ids: "map rl_id (map ?g (cd_roles db)) = map rl_id (cd_roles db)"
    using f by simp
  have act: "distinct (map k (filter active_role (map ?g rs)))"
    if "distinct (map k (filter active_role rs))" "set rs \<subseteq> set (cd_roles db)" "k = (\<lambda>r. (rl_incident r, rl_role r))" for rs k
    using that
  proof (induction rs)
    case (Cons r rs)
    have sub: "k ` set (filter active_role (map ?g rs)) \<subseteq> k ` set (filter active_role rs)"
    proof
      fix x assume "x \<in> k ` set (filter active_role (map ?g rs))"
      then obtain y where y: "y \<in> set rs" "active_role (?g y)" "x = k (?g y)" by auto
      have "active_role y \<and> k (?g y) = k y" using f [of y] y Cons.prems by (cases "p y") auto
      with y show "x \<in> k ` set (filter active_role rs)" by auto
    qed
    show ?case
    proof (cases "active_role (?g r)")
      case True
      then have "active_role r \<and> k (?g r) = k r" using f [of r] Cons.prems by (cases "p r") auto
      with True Cons sub show ?thesis by auto
    next
      case False
      with Cons show ?thesis by (cases "active_role r") auto
    qed
  qed simp
  have sound: "list_all role_sound (map ?g (cd_roles db))"
    using inv f by (auto simp: command_inv_def list_all_iff)
  from inv ids act [of _ "cd_roles db"] sound show ?thesis
    by (simp add: command_inv_def set_roles_def comp_def del: map_map filter_map)
qed

lemma ended_sound: "role_sound r \<Longrightarrow> role_sound (ended now reason r)"
  by (simp add: role_sound_def ended_def)

lemma set_ended_inv: "command_inv db \<Longrightarrow> command_inv (set_roles p (ended now reason) db)"
  by (rule set_roles_sub) (auto simp: ended_sound command_inv_def list_all_iff, simp_all add: ended_def)

lemma role_ops_inv:
  assumes "command_inv db"
  shows "command_inv (snd (AssignRole k now n role user parent scope db))"
    and "command_inv (snd (AssignAgentRole k now n role agent parent scope db))"
    and "command_inv (snd (UpdateRoleScope k scope db))"
    and "command_inv (snd (EndRole k now reason db))"
    and "command_inv (snd (EndAllRolesForIncident n now reason db))"
    and "command_inv (snd (EndRolesForAgent agent now reason db))"
proof -
  have ins: "command_inv db'" if "insert_role m db = (e, db')" "active_role m" "rl_ended m = None" "rl_reason m = None" for m e db'
    using insert_role_inv [OF assms that(2,3,4)] that(1) by simp
  show "command_inv (snd (AssignRole k now n role user parent scope db))"
    using assms by (auto simp: AssignRole_def Let_def dest: ins split: option.split prod.split)
  show "command_inv (snd (AssignAgentRole k now n role agent parent scope db))"
    using assms by (auto simp: AssignAgentRole_def Let_def dest: ins split: option.split prod.split)
  have "command_inv (set_roles (\<lambda>r. rl_id r = k \<and> active_role r) (\<lambda>r. r\<lparr>rl_scope := scope\<rparr>) db)"
    by (rule set_roles_sub [OF assms]) (use assms in \<open>auto simp: command_inv_def list_all_iff role_sound_def\<close>)
  then show "command_inv (snd (UpdateRoleScope k scope db))" by (simp add: UpdateRoleScope_def Let_def)
  show "command_inv (snd (EndRole k now reason db))"
    using assms by (simp add: EndRole_def Let_def set_ended_inv)
  show "command_inv (snd (EndAllRolesForIncident n now reason db))"
    using assms by (simp add: EndAllRolesForIncident_def set_ended_inv split: option.split)
  show "command_inv (snd (EndRolesForAgent agent now reason db))"
    using assms by (simp add: EndRolesForAgent_def Let_def set_ended_inv)
qed

subsection \<open>Sections as versioned registers\<close>

text \<open>What a section says: its version and its text.\<close>

definition section_of :: "command_db \<Rightarrow> uuid \<times> string \<Rightarrow> (int \<times> string) option" where
  "section_of db k = map_option (\<lambda>d. (dc_version d, dc_content d)) (find_section (fst k) (snd k) db)"

text \<open>The abstract register: compare the version, then put the text under the next one.\<close>

definition versioned_put :: "'k \<Rightarrow> int \<Rightarrow> 'c \<Rightarrow> ('k \<Rightarrow> (int \<times> 'c) option) \<Rightarrow> ('k \<Rightarrow> (int \<times> 'c) option) option" where
  "versioned_put k v c m =
     (case m k of
        None \<Rightarrow> Some (m(k \<mapsto> (1, c)))
      | Some (v0, _) \<Rightarrow> if v0 = v then Some (m(k \<mapsto> (v + 1, c))) else None)"

lemma find_section_SomeD:
  "find_section i sec db = Some d \<Longrightarrow> d \<in> set (cd_docs db) \<and> dc_incident d = i \<and> dc_section d = sec"
  by (auto simp: find_section_def find_Some_iff)

lemma find_by_key:
  assumes "distinct (map key xs)" and "x \<in> set xs"
  shows "find (\<lambda>y. key y = key x) xs = Some x"
  using assms by (induction xs) auto

lemma docs_inj:
  assumes "command_inv db"
  shows "inj_on dc_id (set (cd_docs db))" "inj_on (\<lambda>d. (dc_incident d, dc_section d)) (set (cd_docs db))"
  using assms by (simp_all add: command_inv_def distinct_map)

text \<open>Replacing the row of one section by one of the same key and place.\<close>

definition put_doc :: "doc_row \<Rightarrow> command_db \<Rightarrow> command_db" where
  "put_doc d db = db\<lparr>cd_docs := map (\<lambda>x. if dc_id x = dc_id d then d else x) (cd_docs db)\<rparr>"

lemma put_doc_effect:
  assumes inv: "command_inv db" and d0: "d0 \<in> set (cd_docs db)"
    and d: "dc_id d = dc_id d0" "dc_incident d = dc_incident d0" "dc_section d = dc_section d0" "1 \<le> dc_version d"
  shows "command_inv (put_doc d db)"
    and "section_of (put_doc d db) = (section_of db)((dc_incident d, dc_section d) \<mapsto> (dc_version d, dc_content d))"
proof -
  let ?f = "\<lambda>x. if dc_id x = dc_id d then d else x"
  have eq: "x = d0" if "x \<in> set (cd_docs db)" "dc_id x = dc_id d" for x
    using docs_inj(1) [OF inv] that d0 d(1) by (auto dest: inj_onD)
  have same: "map dc_id (map ?f (cd_docs db)) = map dc_id (cd_docs db)"
    "map (\<lambda>x. (dc_incident x, dc_section x)) (map ?f (cd_docs db)) = map (\<lambda>x. (dc_incident x, dc_section x)) (cd_docs db)"
    using eq d by (auto dest: eq)
  have "list_all (\<lambda>x. 1 \<le> dc_version x) (map ?f (cd_docs db))"
    using inv d(4) by (auto simp: command_inv_def list_all_iff)
  with inv same show "command_inv (put_doc d db)"
    by (simp add: command_inv_def put_doc_def del: map_map)
  show "section_of (put_doc d db) = (section_of db)((dc_incident d, dc_section d) \<mapsto> (dc_version d, dc_content d))"
  proof (rule ext)
    fix k
    have "find (\<lambda>x. dc_incident x = fst k \<and> dc_section x = snd k) (map ?f xs) =
        (if k = (dc_incident d, dc_section d) then Some d else find (\<lambda>x. dc_incident x = fst k \<and> dc_section x = snd k) xs)"
      if "set xs \<subseteq> set (cd_docs db)" "k = (dc_incident d, dc_section d) \<longrightarrow> d0 \<in> set xs" for xs
      using that
    proof (induction xs)
      case (Cons x xs)
      show ?case
      proof (cases "dc_id x = dc_id d")
        case True
        then have "x = d0" using eq [of x] Cons.prems(1) by simp
        with Cons True d show ?thesis by (cases k) auto
      next
        case False
        have "k \<noteq> (dc_incident d, dc_section d)" if "dc_incident x = fst k" "dc_section x = snd k"
        proof
          assume "k = (dc_incident d, dc_section d)"
          with that d have "x = d0"
            using docs_inj(2) [OF inv] Cons.prems(1) d0 by (auto simp: inj_on_def)
          with False d(1) show False by simp
        qed
        moreover have "d0 \<noteq> x" using False d(1) by auto
        ultimately show ?thesis using Cons False by auto
      qed
    qed simp
    from this [of "cd_docs db"] d0
    show "section_of (put_doc d db) k = ((section_of db)((dc_incident d, dc_section d) \<mapsto> (dc_version d, dc_content d))) k"
      by (simp add: section_of_def find_section_def put_doc_def)
  qed
qed

lemma add_doc_effect:
  assumes inv: "command_inv db" and new: "find_section (dc_incident d) (dc_section d) db = None"
    "dc_id d \<notin> dc_id ` set (cd_docs db)" "1 \<le> dc_version d"
  shows "command_inv (db\<lparr>cd_docs := cd_docs db @ [d]\<rparr>)"
    and "section_of (db\<lparr>cd_docs := cd_docs db @ [d]\<rparr>) =
      (section_of db)((dc_incident d, dc_section d) \<mapsto> (dc_version d, dc_content d))"
proof -
  have none: "\<And>x. x \<in> set (cd_docs db) \<Longrightarrow> \<not> (dc_incident x = dc_incident d \<and> dc_section x = dc_section d)"
    using new(1) by (auto simp: find_section_def find_None_iff)
  then have "(dc_incident d, dc_section d) \<notin> (\<lambda>x. (dc_incident x, dc_section x)) ` set (cd_docs db)" by fastforce
  with inv new(2,3) show "command_inv (db\<lparr>cd_docs := cd_docs db @ [d]\<rparr>)"
    by (simp add: command_inv_def)
  have app: "find P (xs @ [d]) = (case find P xs of None \<Rightarrow> if P d then Some d else None | Some y \<Rightarrow> Some y)" for P xs
    by (induction xs) auto
  show "section_of (db\<lparr>cd_docs := cd_docs db @ [d]\<rparr>) =
      (section_of db)((dc_incident d, dc_section d) \<mapsto> (dc_version d, dc_content d))"
    using new(1) by (auto simp: fun_eq_iff section_of_def find_section_def app split: option.splits)
qed

text \<open>The two halves, run one right after the other, in terms of the register.\<close>

lemma upsert_read_register:
  assumes "live_incident n (cd_incidents db) = Some inc"
  shows "upsert_read n sec v db = Inl VersionConflict \<longleftrightarrow>
      versioned_put (in_id inc, sec) v c (section_of db) = None"
  using assms by (auto simp: upsert_read_def versioned_put_def section_of_def split: option.split)

lemma upsert_write_register:
  assumes inv: "command_inv db" and inc: "live_incident n (cd_incidents db) = Some inc"
    and plan: "upsert_read n sec v db = Inr plan" and user: "user = None \<or> user_GetByID (the user) (cd_users db) \<noteq> None"
    and key: "k \<notin> dc_id ` set (cd_docs db)"
  shows "\<exists>d. fst (upsert_write k now sec c v user plan db) = Inr d \<and> dc_content d = c"
    and "command_inv (snd (upsert_write k now sec c v user plan db))"
    and "Some (section_of (snd (upsert_write k now sec c v user plan db))) =
      versioned_put (in_id inc, sec) v c (section_of db)"
proof -
  have u: "\<not> (case user of Some u \<Rightarrow> user_GetByID u (cd_users db) = None | None \<Rightarrow> False)"
    using user by (auto split: option.split)
  have all: "(\<exists>d. fst (upsert_write k now sec c v user plan db) = Inr d \<and> dc_content d = c) \<and>
    command_inv (snd (upsert_write k now sec c v user plan db)) \<and>
    Some (section_of (snd (upsert_write k now sec c v user plan db))) = versioned_put (in_id inc, sec) v c (section_of db)"
  proof (cases "find_section (in_id inc) sec db")
    case None
    then have p: "plan = PlanInsert (in_id inc)" using plan inc by (simp add: upsert_read_def)
    let ?d = "\<lparr>dc_id = k, dc_incident = in_id inc, dc_section = sec, dc_content = c, dc_version = 1, dc_by = user,
               dc_updated = now\<rparr>"
    have "\<not> list_ex (\<lambda>x. dc_id x = k) (cd_docs db)" using key by (auto simp: list_ex_iff)
    with u None p have w: "upsert_write k now sec c v user plan db = (Inr ?d, db\<lparr>cd_docs := cd_docs db @ [?d]\<rparr>)"
      by (simp add: upsert_write_def Let_def)
    have m: "versioned_put (in_id inc, sec) v c (section_of db) = Some ((section_of db)((in_id inc, sec) \<mapsto> (1, c)))"
      using None by (simp add: versioned_put_def section_of_def)
    show ?thesis using add_doc_effect [OF inv, of ?d] None key by (simp add: w m)
  next
    case (Some d)
    note dk = find_section_SomeD [OF Some]
    have v: "dc_version d = v" and p: "plan = PlanUpdate (dc_id d)"
      using plan inc Some by (simp_all add: upsert_read_def split: if_splits)
    let ?d = "d\<lparr>dc_content := c, dc_version := v + 1, dc_updated := now, dc_by := user\<rparr>"
    have "find (\<lambda>x. dc_id x = dc_id d) (cd_docs db) = Some d"
      using inv dk by (intro find_by_key) (simp_all add: command_inv_def)
    with u p have w: "upsert_write k now sec c v user plan db = (Inr ?d, put_doc ?d db)"
      by (simp add: upsert_write_def Let_def put_doc_def)
    have m: "versioned_put (in_id inc, sec) v c (section_of db) = Some ((section_of db)((in_id inc, sec) \<mapsto> (v + 1, c)))"
      using Some v by (simp add: versioned_put_def section_of_def)
    have "1 \<le> dc_version d" using inv dk by (auto simp: command_inv_def list_all_iff)
    with put_doc_effect [OF inv, of d ?d] dk v show ?thesis by (simp add: w m)
  qed
  then show "\<exists>d. fst (upsert_write k now sec c v user plan db) = Inr d \<and> dc_content d = c"
    "command_inv (snd (upsert_write k now sec c v user plan db))"
    "Some (section_of (snd (upsert_write k now sec c v user plan db))) = versioned_put (in_id inc, sec) v c (section_of db)"
    by blast+
qed

text \<open>What a writer of sections relies on, and what follows for two writers who read the same version.\<close>

locale versioned_store =
  fixes inv :: "'s \<Rightarrow> bool"
    and look :: "'s \<Rightarrow> 'k \<Rightarrow> (int \<times> 'c) option"
    and put :: "'k \<Rightarrow> int \<Rightarrow> 'c \<Rightarrow> 's \<Rightarrow> bool \<times> 's"
  assumes put_current: "inv s \<Longrightarrow> look s k = Some (v, c0) \<Longrightarrow>
      fst (put k v c s) \<and> inv (snd (put k v c s)) \<and> look (snd (put k v c s)) = (look s)(k \<mapsto> (v + 1, c))"
    and put_stale: "inv s \<Longrightarrow> look s k = Some (v0, c0) \<Longrightarrow> v0 \<noteq> v \<Longrightarrow> put k v c s = (False, s)"
begin

lemma second_writer_refused:
  assumes "inv s" and "look s k = Some (v, c0)"
  shows "put k v c2 (snd (put k v c1 s)) = (False, snd (put k v c1 s))"
proof -
  have "inv (snd (put k v c1 s))" "look (snd (put k v c1 s)) k = Some (v + 1, c1)"
    using put_current [OF assms, of c1] by simp_all
  then show ?thesis using put_stale [of "snd (put k v c1 s)" k "v + 1" c1 v c2] by simp
qed

lemma version_counts_writes:
  assumes "inv s" and "look s k = Some (v, c0)"
  shows "\<exists>c. look (snd (fold (\<lambda>c (i, s). (i + 1, snd (put k i c s))) cs (v, s))) k = Some (v + int (length cs), c)"
  using assms
proof (induction cs arbitrary: s v c0)
  case (Cons c cs)
  from put_current [OF Cons.prems, of c] Cons.IH [of "snd (put k v c s)" "v + 1" c]
  show ?case by (simp add: algebra_simps)
qed simp

end

definition look_section :: "command_db \<Rightarrow> int \<times> string \<Rightarrow> (int \<times> string) option" where
  "look_section db k =
     (case live_incident (fst k) (cd_incidents db) of
        None \<Rightarrow> None
      | Some inc \<Rightarrow> section_of db (in_id inc, snd k))"

definition put_section :: "uuid \<Rightarrow> instant \<Rightarrow> int \<times> string \<Rightarrow> int \<Rightarrow> string \<Rightarrow> command_db \<Rightarrow> bool \<times> command_db" where
  "put_section key now k v c db =
     (case UpsertSection key now (fst k) (snd k) c v None db of
        (Inl e, db') \<Rightarrow> (False, db')
      | (Inr d, db') \<Rightarrow> (True, db'))"

definition docs_inv :: "command_db \<Rightarrow> bool" where
  "docs_inv db \<longleftrightarrow> command_inv db \<and> distinct (map in_id (cd_incidents db)) \<and> distinct (map in_number (cd_incidents db))"

lemma upsert_write_incidents [simp]: "cd_incidents (snd (upsert_write k now sec c v user plan db)) = cd_incidents db"
  by (simp add: upsert_write_def Let_def split: upsert_plan.split option.split)

lemma live_incident_inj:
  assumes "distinct (map in_id tab)" and "live_incident n tab = Some i" and "live_incident m tab = Some j" and "in_id i = in_id j"
  shows "n = m"
proof -
  have "i \<in> set tab" "j \<in> set tab" "in_number i = n" "in_number j = m"
    using assms(2,3) by (auto simp: live_incident_def find_Some_iff)
  with assms(1,4) show ?thesis by (auto simp: distinct_map dest: inj_onD)
qed

lemma put_existing_key_free:
  assumes inv: "command_inv db" and inc: "live_incident n (cd_incidents db) = Some inc"
    and plan: "upsert_read n sec v db = Inr plan" and d: "find_section (in_id inc) sec db \<noteq> None"
  shows "fst (upsert_write k now sec c v None plan db) = Inr (the (find_section (in_id inc) sec db)
       \<lparr>dc_content := c, dc_version := v + 1, dc_updated := now, dc_by := None\<rparr>)"
    and "command_inv (snd (upsert_write k now sec c v None plan db))"
    and "section_of (snd (upsert_write k now sec c v None plan db)) = (section_of db)((in_id inc, sec) \<mapsto> (v + 1, c))"
proof -
  from d obtain d0 where d0: "find_section (in_id inc) sec db = Some d0" by blast
  note dk = find_section_SomeD [OF d0]
  have v: "dc_version d0 = v" and p: "plan = PlanUpdate (dc_id d0)"
    using plan inc d0 by (simp_all add: upsert_read_def split: if_splits)
  let ?d = "d0\<lparr>dc_content := c, dc_version := v + 1, dc_updated := now, dc_by := None\<rparr>"
  have "find (\<lambda>x. dc_id x = dc_id d0) (cd_docs db) = Some d0"
    using inv dk by (intro find_by_key) (simp_all add: command_inv_def)
  with p have w: "upsert_write k now sec c v None plan db = (Inr ?d, put_doc ?d db)"
    by (simp add: upsert_write_def Let_def put_doc_def)
  have "1 \<le> dc_version d0" using inv dk by (auto simp: command_inv_def list_all_iff)
  with put_doc_effect [OF inv, of d0 ?d] dk v d0 w
  show "fst (upsert_write k now sec c v None plan db) = Inr (the (find_section (in_id inc) sec db)
       \<lparr>dc_content := c, dc_version := v + 1, dc_updated := now, dc_by := None\<rparr>)"
    "command_inv (snd (upsert_write k now sec c v None plan db))"
    "section_of (snd (upsert_write k now sec c v None plan db)) = (section_of db)((in_id inc, sec) \<mapsto> (v + 1, c))"
    by simp_all
qed

interpretation docs: versioned_store docs_inv look_section "put_section key now" for key now
proof
  fix s k v c0 c
  assume inv: "docs_inv s" and l: "look_section s k = Some (v, c0)"
  obtain n sec where k: "k = (n, sec)" by (cases k)
  from l obtain inc where inc: "live_incident n (cd_incidents s) = Some inc"
    and st: "section_of s (in_id inc, sec) = Some (v, c0)"
    by (auto simp: look_section_def k split: option.splits)
  then have d: "find_section (in_id inc) sec s \<noteq> None" by (auto simp: section_of_def)
  then obtain plan where plan: "upsert_read n sec v s = Inr plan"
    using st inc by (auto simp: upsert_read_def section_of_def)
  have c: "command_inv s" using inv by (simp add: docs_inv_def)
  note eff = put_existing_key_free [OF c inc plan d, of key now c]
  have put: "put_section key now k v c s = (True, snd (upsert_write key now sec c v None plan s))"
    using eff(1)
    by (cases "upsert_write key now sec c v None plan s") (simp add: put_section_def k UpsertSection_def plan)
  have "look_section (snd (upsert_write key now sec c v None plan s)) = (look_section s)(k \<mapsto> (v + 1, c))"
  proof (rule ext)
    fix q
    show "look_section (snd (upsert_write key now sec c v None plan s)) q = ((look_section s)(k \<mapsto> (v + 1, c))) q"
    proof (cases "live_incident (fst q) (cd_incidents s)")
      case None
      with inc show ?thesis by (auto simp: look_section_def k)
    next
      case (Some j)
      have "fst q = n" if "in_id j = in_id inc"
        using live_incident_inj [OF _ Some inc that] inv by (simp add: docs_inv_def)
      with Some inc show ?thesis
        by (cases q) (auto simp: look_section_def k eff(3))
    qed
  qed
  with put eff(2) inv show "fst (put_section key now k v c s) \<and> docs_inv (snd (put_section key now k v c s)) \<and>
      look_section (snd (put_section key now k v c s)) = (look_section s)(k \<mapsto> (v + 1, c))"
    by (simp add: docs_inv_def)
next
  fix s k v0 c0 v c
  assume "docs_inv s" and l: "look_section s k = Some (v0, c0)" and ne: "v0 \<noteq> v"
  then show "put_section key now k v c s = (False, s)"
    by (cases k) (auto simp: look_section_def put_section_def UpsertSection_def upsert_read_def section_of_def split: option.splits)
qed

text \<open>C12. Writing a section refines a register with versions: with a current version, or for a new section, it stores
  the text under the next version and nothing else changes; with any other version it is refused with a conflict and
  the tables stay as they are.\<close>

theorem section_refines_register:
  assumes inv: "command_inv db" and inc: "live_incident n (cd_incidents db) = Some inc"
    and sec: "ValidDocumentSection sec" and user: "user = None \<or> user_GetByID (the user) (cd_users db) \<noteq> None"
    and key: "k \<notin> dc_id ` set (cd_docs db)"
  shows "case UpdateSection k now n sec c v user db of
      (Inr d, db') \<Rightarrow> dc_content d = c \<and> command_inv db' \<and>
        versioned_put (in_id inc, sec) v c (section_of db) = Some (section_of db')
    | (Inl e, db') \<Rightarrow> e = VersionConflict \<and> db' = db \<and> versioned_put (in_id inc, sec) v c (section_of db) = None"
proof (cases "upsert_read n sec v db")
  case (Inl e)
  then have "e = VersionConflict" using inc by (auto simp: upsert_read_def split: option.splits if_splits)
  with Inl upsert_read_register [OF inc, where sec = sec and v = v and c = c] show ?thesis
    by (simp add: UpdateSection_def sec UpsertSection_def)
next
  case (Inr plan)
  from upsert_write_register [OF inv inc Inr user key, where now = now and c = c] show ?thesis
    by (cases "upsert_write k now sec c v user plan db") (auto simp: UpdateSection_def sec UpsertSection_def Inr)
qed

text \<open>C22. The read and the write are two statements, and the write does not look at the version again: when two writers
  read the same version of a section before either writes, both are told that they succeeded, the version has advanced
  by one, and the first text is gone.\<close>

theorem overlapping_writers_lose_an_update:
  assumes inv: "docs_inv db" and old: "look_section db (n, sec) = Some (v, c0)"
    and r1: "upsert_read n sec v db = Inr plan1" and r2: "upsert_read n sec v db = Inr plan2"
  shows "let (a1, db1) = upsert_write k1 t1 sec c1 v None plan1 db; (a2, db2) = upsert_write k2 t2 sec c2 v None plan2 db1
    in map_sum (\<lambda>_. ()) dc_version a1 = Inr (v + 1) \<and> map_sum (\<lambda>_. ()) dc_version a2 = Inr (v + 1) \<and>
       look_section db2 (n, sec) = Some (v + 1, c2)"
proof -
  from old obtain inc where inc: "live_incident n (cd_incidents db) = Some inc"
    and st: "section_of db (in_id inc, sec) = Some (v, c0)"
    by (auto simp: look_section_def split: option.splits)
  then obtain d where d: "find_section (in_id inc) sec db = Some d" by (auto simp: section_of_def)
  note dk = find_section_SomeD [OF d]
  have c: "command_inv db" using inv by (simp add: docs_inv_def)
  have plan: "plan1 = PlanUpdate (dc_id d)" "plan2 = PlanUpdate (dc_id d)"
    using r1 r2 inc d by (simp_all add: upsert_read_def split: if_splits)
  let ?d1 = "d\<lparr>dc_content := c1, dc_version := v + 1, dc_updated := t1, dc_by := None\<rparr>"
  let ?d2 = "d\<lparr>dc_content := c2, dc_version := v + 1, dc_updated := t2, dc_by := None\<rparr>"
  have f: "find (\<lambda>x. dc_id x = dc_id d) (cd_docs db) = Some d"
    using c dk by (intro find_by_key) (simp_all add: command_inv_def)
  then have w1: "upsert_write k1 t1 sec c1 v None plan1 db = (Inr ?d1, put_doc ?d1 db)"
    by (simp add: upsert_write_def Let_def put_doc_def plan)
  have ge: "1 \<le> dc_version d" "dc_version d = v"
    using c dk st d by (auto simp: command_inv_def list_all_iff section_of_def)
  have c1: "command_inv (put_doc ?d1 db)" using put_doc_effect(1) [OF c, of d ?d1] dk ge by simp
  have in1: "?d1 \<in> set (cd_docs (put_doc ?d1 db))" using dk by (auto simp: put_doc_def image_iff)
  then have "find (\<lambda>x. dc_id x = dc_id ?d1) (cd_docs (put_doc ?d1 db)) = Some ?d1"
    using c1 by (intro find_by_key) (simp_all add: command_inv_def)
  then have w2: "upsert_write k2 t2 sec c2 v None plan2 (put_doc ?d1 db) = (Inr ?d2, put_doc ?d2 (put_doc ?d1 db))"
    by (simp add: upsert_write_def Let_def put_doc_def plan)
  have "section_of (put_doc ?d2 (put_doc ?d1 db)) (in_id inc, sec) = Some (v + 1, c2)"
    using put_doc_effect(2) [OF c1 in1, of ?d2] dk ge by simp
  then have "look_section (put_doc ?d2 (put_doc ?d1 db)) (n, sec) = Some (v + 1, c2)"
    using inc by (simp add: look_section_def put_doc_def)
  with w1 w2 show ?thesis by simp
qed

definition one_section :: command_db where
  "one_section =
     \<lparr>cd_incidents = [example_incident], cd_users = [], cd_agents = [], cd_roles = [],
      cd_docs = [\<lparr>dc_id = 9, dc_incident = 1, dc_section = ''root_cause'', dc_content = ''disk'', dc_version = 3,
                  dc_by = None, dc_updated = 0\<rparr>]\<rparr>"

lemma one_section_facts:
  "command_inv one_section" "docs_inv one_section"
  "live_incident 7 (cd_incidents one_section) = Some example_incident"
  "look_section one_section (7, ''root_cause'') = Some (3, ''disk'')"
  "upsert_read 7 ''root_cause'' 3 one_section = Inr (PlanUpdate 9)"
  by (simp_all add: one_section_def command_inv_def docs_inv_def live_incident_def example_incident_def
      look_section_def section_of_def find_section_def upsert_read_def)

theorem section_refines_register_witness:
  "case UpdateSection 5 9 7 ''root_cause'' ''network'' 3 None one_section of
      (Inr d, db') \<Rightarrow> dc_content d = ''network'' \<and> command_inv db' \<and>
        versioned_put (in_id example_incident, ''root_cause'') 3 ''network'' (section_of one_section) = Some (section_of db')
    | (Inl e, db') \<Rightarrow> e = VersionConflict \<and> db' = one_section \<and>
        versioned_put (in_id example_incident, ''root_cause'') 3 ''network'' (section_of one_section) = None"
  by (rule section_refines_register [OF one_section_facts(1) one_section_facts(3)])
    (simp_all add: ValidDocumentSection_def one_section_def)

theorem overlapping_writers_lose_an_update_witness:
  "let (a1, db1) = upsert_write 5 9 ''root_cause'' ''network'' 3 None (PlanUpdate 9) one_section;
       (a2, db2) = upsert_write 6 9 ''root_cause'' ''memory'' 3 None (PlanUpdate 9) db1
    in map_sum (\<lambda>_. ()) dc_version a1 = Inr (3 + 1) \<and> map_sum (\<lambda>_. ()) dc_version a2 = Inr (3 + 1) \<and>
       look_section db2 (7, ''root_cause'') = Some (3 + 1, ''memory'')"
  by (rule overlapping_writers_lose_an_update [OF one_section_facts(2) one_section_facts(4) one_section_facts(5) one_section_facts(5)])

subsection \<open>Histories\<close>

text \<open>Any operation, and any change of the tables of incidents, users and agents by others. A write may come long after
  its read.\<close>

inductive command_step :: "command_db \<Rightarrow> command_db \<Rightarrow> bool" where
  st_assign: "command_step db (snd (rm_AssignRole k now n role user parent scope db))"
| st_agent: "command_step db (snd (rm_AssignAgentRole k now n role agent parent scope db))"
| st_scope: "command_step db (snd (UpdateRoleScope k scope db))"
| st_end: "command_step db (snd (EndRole k now reason db))"
| st_end_all: "command_step db (snd (EndAllRolesForIncident n now reason db))"
| st_end_agent: "command_step db (snd (EndRolesForAgent agent now reason db))"
| st_write: "upsert_read n sec version old = Inr plan \<Longrightarrow> command_inv old \<Longrightarrow>
    command_step db (snd (upsert_write k now sec content version user plan db))"
| st_init: "command_step db (snd (InitializeForIncident key now n severity db))"
| st_others: "command_step db (db\<lparr>cd_incidents := is, cd_users := us, cd_agents := ags\<rparr>)"

lemma insert_section_inv:
  assumes "command_inv db" and "fst e \<notin> dc_id ` set (cd_docs db)"
  shows "command_inv (insert_section inc now db e) \<and>
    dc_id ` set (cd_docs (insert_section inc now db e)) \<subseteq> insert (fst e) (dc_id ` set (cd_docs db))"
proof (cases "find_section inc (fst (snd e)) db")
  case None
  let ?d = "\<lparr>dc_id = fst e, dc_incident = inc, dc_section = fst (snd e), dc_content = snd (snd e), dc_version = 1,
             dc_by = None, dc_updated = now\<rparr>"
  have "insert_section inc now db e = db\<lparr>cd_docs := cd_docs db @ [?d]\<rparr>"
    using None by (cases e) (simp add: insert_section_def)
  with add_doc_effect(1) [OF assms(1), of ?d] None assms(2) show ?thesis by simp
next
  case (Some d)
  then have "insert_section inc now db e = db" by (cases e) (simp add: insert_section_def)
  with assms(1) show ?thesis by auto
qed

lemma disjoint_after_insert: "x \<notin> A \<Longrightarrow> A \<subseteq> B \<Longrightarrow> D' \<subseteq> insert x D \<Longrightarrow> B \<inter> D = {} \<Longrightarrow> A \<inter> D' = {}"
  by blast

lemma insert_sections_inv:
  "command_inv db \<Longrightarrow> distinct (map fst es) \<Longrightarrow> set (map fst es) \<inter> dc_id ` set (cd_docs db) = {} \<Longrightarrow>
   command_inv (foldl (insert_section inc now) db es)"
proof (induction es arbitrary: db)
  case (Cons e es)
  let ?db = "insert_section inc now db e"
  have "fst e \<notin> dc_id ` set (cd_docs db)" using Cons.prems(3) by auto
  from insert_section_inv [OF Cons.prems(1) this]
  have inv: "command_inv ?db" and sub: "dc_id ` set (cd_docs ?db) \<subseteq> insert (fst e) (dc_id ` set (cd_docs db))" by blast+
  have "fst e \<notin> set (map fst es)" using Cons.prems(2) by simp
  moreover have "set (map fst es) \<subseteq> set (map fst (e # es))" by auto
  ultimately have "set (map fst es) \<inter> dc_id ` set (cd_docs ?db) = {}"
    using sub Cons.prems(3) by (rule disjoint_after_insert)
  with inv Cons.prems(2) show ?case by (simp add: Cons.IH)
qed simp

lemma upsert_write_inv:
  assumes plan: "upsert_read n sec version old = Inr plan" and old: "command_inv old" and inv: "command_inv db"
  shows "command_inv (snd (upsert_write k now sec content version user plan db))"
proof (cases plan)
  case (PlanUpdate i)
  then obtain inc :: incident and d where "find_section (in_id inc) sec old = Some d" "dc_version d = version"
    using plan by (auto simp: upsert_read_def split: option.splits if_splits)
  then have "1 \<le> version"
    using old by (auto simp: command_inv_def list_all_iff dest!: find_section_SomeD)
  show ?thesis
  proof (cases "find (\<lambda>d. dc_id d = i) (cd_docs db)")
    case (Some d)
    then have d: "d \<in> set (cd_docs db)" "dc_id d = i" by (auto simp: find_Some_iff)
    have "command_inv (put_doc (d\<lparr>dc_content := content, dc_version := version + 1, dc_updated := now, dc_by := user\<rparr>) db)"
      by (rule put_doc_effect(1) [OF inv d(1)]) (use \<open>1 \<le> version\<close> in simp_all)
    with inv d(2) Some show ?thesis by (simp add: upsert_write_def PlanUpdate Let_def put_doc_def)
  qed (simp add: upsert_write_def PlanUpdate Let_def inv)
next
  case (PlanInsert i)
  let ?d = "\<lparr>dc_id = k, dc_incident = i, dc_section = sec, dc_content = content, dc_version = 1, dc_by = user, dc_updated = now\<rparr>"
  show ?thesis
  proof (cases "list_ex (\<lambda>x. dc_id x = k) (cd_docs db) \<or> find_section i sec db \<noteq> None")
    case False
    then have "k \<notin> dc_id ` set (cd_docs db)" "find_section i sec db = None" by (auto simp: list_ex_iff)
    with add_doc_effect(1) [OF inv, of ?d] inv show ?thesis
      by (simp add: upsert_write_def PlanInsert Let_def)
  qed (auto simp: upsert_write_def PlanInsert Let_def inv)
qed

lemma command_step_inv: "command_step db db' \<Longrightarrow> command_inv db \<Longrightarrow> command_inv db'"
proof (induction rule: command_step.induct)
  case (st_assign db k now n role user parent scope)
  then show ?case by (simp add: rm_AssignRole_def role_ops_inv(1) split: option.split)
next
  case (st_agent db k now n role agent parent scope)
  then show ?case by (simp add: rm_AssignAgentRole_def role_ops_inv(2) split: option.split)
next
  case (st_write n sec version old plan db k now content user)
  then show ?case by (blast intro: upsert_write_inv)
next
  case (st_init db key now n severity)
  then show ?case
    by (auto simp: InitializeForIncident_def InitializeDocument_def list_ex_iff split: option.split
        intro!: insert_sections_inv)
qed (simp_all add: role_ops_inv, simp add: command_inv_def)



end
