(* ===== verification/Incident_API_Correct.thy ===== *)
theory Incident_API_Correct
  imports Incident_API Escalation_Run Command_Correct
begin

text \<open>
  What the requests over incidents and the sweep over service level targets guarantee together: they move an incident
  along the status graph only, a refused transition changes nothing, a resolution is documented, closing ends the
  roles, an acknowledged escalation stays silent, a breach is recorded once in the life of its mark.
\<close>

named_theorems iw_simps \<open>what an operation leaves of the fields of the world\<close>

subsection \<open>Frames\<close>

lemma out_simps [iw_simps]:
  "iw_cmd (out es w) = iw_cmd w" "iw_kv (out es w) = iw_kv w" "iw_marks (out es w) = iw_marks w"
  "iw_timeline (out es w) = iw_timeline w" "iw_alerts (out es w) = iw_alerts w" "iw_messages (out es w) = iw_messages w"
  "iw_out (out es w) = iw_out w @ es"
  by (simp_all add: out_def)

lemma with_incidents_simps [iw_simps]:
  "iw_incidents (with_incidents tab w) = tab" "iw_kv (with_incidents tab w) = iw_kv w"
  "iw_marks (with_incidents tab w) = iw_marks w" "iw_out (with_incidents tab w) = iw_out w"
  "cd_roles (iw_cmd (with_incidents tab w)) = cd_roles (iw_cmd w)"
  by (simp_all add: with_incidents_def)

lemma timeline_add_simps [iw_simps]:
  "iw_cmd (timeline_add env n ev a t m w) = iw_cmd w" "iw_kv (timeline_add env n ev a t m w) = iw_kv w"
  "iw_marks (timeline_add env n ev a t m w) = iw_marks w" "iw_out (timeline_add env n ev a t m w) = iw_out w"
  by (simp_all add: timeline_add_def)

lemma addIncidentTimeline_simps [iw_simps]:
  "iw_cmd (addIncidentTimeline env cx n ev m w) = iw_cmd w" "iw_kv (addIncidentTimeline env cx n ev m w) = iw_kv w"
  "iw_marks (addIncidentTimeline env cx n ev m w) = iw_marks w" "iw_out (addIncidentTimeline env cx n ev m w) = iw_out w"
  by (simp_all add: addIncidentTimeline_def iw_simps)

lemma system_entry_simps [iw_simps]:
  "iw_cmd (system_entry env n ev m w) = iw_cmd w" "iw_kv (system_entry env n ev m w) = iw_kv w"
  "iw_marks (system_entry env n ev m w) = iw_marks w" "iw_out (system_entry env n ev m w) = iw_out w"
  by (simp_all add: system_entry_def iw_simps)

lemma cancelEscalation_simps [iw_simps]:
  "iw_cmd (cancelEscalationForIncident env n r w) = iw_cmd w"
  "iw_marks (cancelEscalationForIncident env n r w) = iw_marks w"
  "iw_out (cancelEscalationForIncident env n r w) = iw_out w"
  "iw_kv (cancelEscalationForIncident env n r w) =
     (if ie_vk env then snd (CancelForIncident (ie_api env) True n (iw_kv w)) else iw_kv w)"
  by (simp_all add: cancelEscalationForIncident_def iw_simps split: prod.split)

lemma lifecycle_notifications_simps [iw_simps]:
  "iw_cmd (lifecycle_notifications env r k w) = iw_cmd w" "iw_kv (lifecycle_notifications env r k w) = iw_kv w"
  "iw_marks (lifecycle_notifications env r k w) = iw_marks w"
  by (simp_all add: lifecycle_notifications_def iw_simps Let_def)

lemma with_updated_simps:
  "(\<And>u. iw_cmd (f u w) = iw_cmd w) \<Longrightarrow> iw_cmd (with_updated n f w) = iw_cmd w"
  "(\<And>u. iw_kv (f u w) = iw_kv w) \<Longrightarrow> iw_kv (with_updated n f w) = iw_kv w"
  "(\<And>u. iw_marks (f u w) = iw_marks w) \<Longrightarrow> iw_marks (with_updated n f w) = iw_marks w"
  by (simp_all add: with_updated_def split: option.split)

lemma cascade_answer_simps [iw_simps]:
  "iw_cmd (snd (cascade_answer env cx n u w)) = iw_cmd w" "iw_kv (snd (cascade_answer env cx n u w)) = iw_kv w"
  "iw_marks (snd (cascade_answer env cx n u w)) = iw_marks w"
  by (simp_all add: cascade_answer_def runAlertCascade_def iw_simps split: prod.split sum.split)

lemma ClearBreachDedupKeys_simps [iw_simps]:
  "iw_cmd (ClearBreachDedupKeys env n w) = iw_cmd w" "iw_kv (ClearBreachDedupKeys env n w) = iw_kv w"
  "iw_out (ClearBreachDedupKeys env n w) = iw_out w"
  by (simp_all add: ClearBreachDedupKeys_def)

lemma EndAllRoles_incidents: "cd_incidents (snd (EndAllRolesForIncident n now reason db)) = cd_incidents db"
  by (simp add: EndAllRolesForIncident_def set_roles_def Let_def split: option.split)

lemma end_roles_on_close_simps [iw_simps]:
  "iw_incidents (end_roles_on_close env cx n w) = iw_incidents w"
  "iw_kv (end_roles_on_close env cx n w) = iw_kv w" "iw_marks (end_roles_on_close env cx n w) = iw_marks w"
  "iw_out (end_roles_on_close env cx n w) = iw_out w"
  "iw_cmd (end_roles_on_close env cx n w) = snd (EndAllRolesForIncident n (ie_now env) ''incident_closed'' (iw_cmd w))"
  using EndAllRoles_incidents [of n "ie_now env" "''incident_closed''" "iw_cmd w"]
  by (auto simp: end_roles_on_close_def iw_simps split: prod.split option.split)

lemma InitializeForIncident_incidents:
  "cd_incidents (snd (InitializeForIncident key now n sev db)) = cd_incidents db"
proof -
  have "cd_incidents (foldl (insert_section i now) db xs) = cd_incidents db" for i xs
    by (induction xs arbitrary: db) (auto simp: insert_section_def split: prod.split)
  then show ?thesis
    by (simp add: InitializeForIncident_def InitializeDocument_def split: option.split)
qed

text \<open>Outputs that escalate incident \<open>n\<close>.\<close>

definition escalates :: "int \<Rightarrow> inc_output \<Rightarrow> bool" where
  "escalates n e \<longleftrightarrow> (case e of OutEscalate m \<Rightarrow> em_incident m = n | _ \<Rightarrow> False)"

lemma escalates_simps [simp]:
  "escalates n (OutEscalate m) = (em_incident m = n)" "\<not> escalates n (OutEvent e k)" "\<not> escalates n (OutNotify e us k)"
  "\<not> escalates n (OutAudit e k)" "\<not> escalates n (OutService s)" "\<not> escalates n (OutChannel e k)"
  "\<not> escalates n (OutChannelCreate k)" "\<not> escalates n (OutPostMortem u)" "\<not> escalates n (OutAlertResolved k e)"
  "\<not> escalates n (OutCascadePartial k a b)" "\<not> escalates n (OutNudge u k)"
  by (simp_all add: escalates_def)

text \<open>Outputs that record a breach of incident \<open>n\<close>.\<close>

definition breach_event :: "int \<Rightarrow> string \<Rightarrow> inc_output" where
  "breach_event n kind = OutEvent (''incident_sla_breach:'' @ kind) n"

subsection \<open>Transitions\<close>

lemma transition_cases:
  assumes "transition env a n k w = (ans, w')"
  obtains (refused) e where "ans = Inl e" "w' = w"
  | (moved) tab where "TransitionIncidentStatus False (ie_now env) n (ActionSources a) (ActionTarget a) (iw_incidents w) = (Inr (), tab)"
      "k (with_incidents tab w) = (ans, w')"
  using assms
  by (auto simp: transition_def inc_fail_def split: prod.splits sum.splits incident_error.splits)

lemma guarded_cases:
  assumes "inc_guarded cx p h w = (ans, w')"
  obtains (refused) e where "ans = Inl e" "w' = w" | (allowed) "h w = (ans, w')"
  using assms
  by (auto simp: inc_guarded_def inc_fail_def split: option.splits sum.splits)

subsection \<open>What a lifecycle request does\<close>

text \<open>Outputs other than those of a lifecycle request that moves an incident: escalations and events of the sweep.\<close>

definition alarm :: "inc_output \<Rightarrow> bool" where
  "alarm e \<longleftrightarrow> (case e of OutEscalate m \<Rightarrow> True | OutEvent s n \<Rightarrow> s \<noteq> ''incident_updated'' | _ \<Rightarrow> False)"

lemma alarm_simps [simp]:
  "alarm (OutEscalate m)" "alarm (OutEvent s n) = (s \<noteq> ''incident_updated'')" "\<not> alarm (OutNotify s us k)"
  "\<not> alarm (OutAudit s k)" "\<not> alarm (OutService sv)" "\<not> alarm (OutChannel s k)"
  "\<not> alarm (OutChannelCreate k)" "\<not> alarm (OutPostMortem u)" "\<not> alarm (OutAlertResolved k s)"
  "\<not> alarm (OutCascadePartial k a b)" "\<not> alarm (OutNudge u k)"
  by (simp_all add: alarm_def)

abbreviation alarms :: "'v inc_world \<Rightarrow> inc_output list" where
  "alarms w \<equiv> filter alarm (iw_out w)"

lemma lifecycle_notifications_quiet [simp]: "alarms (lifecycle_notifications env r k w) = alarms w"
  by (simp add: lifecycle_notifications_def iw_simps Let_def)

lemma with_updated_quiet: "(\<And>u. alarms (f u w) = alarms w) \<Longrightarrow> alarms (with_updated n f w) = alarms w"
  by (simp add: with_updated_def split: option.split)

lemma cascade_answer_quiet [simp]: "alarms (snd (cascade_answer env cx n u w)) = alarms w"
  by (auto simp: cascade_answer_def runAlertCascade_def iw_simps filter_empty_conv split: prod.split sum.split)

fun action_of :: "lifecycle_request \<Rightarrow> string" where
  "action_of RqAcknowledge = ''acknowledge''"
| "action_of RqMitigate = ''mitigate''"
| "action_of RqResolve = ''resolve''"
| "action_of RqClose = ''close''"
| "action_of RqReopen = ''reopen''"
| "action_of RqCancel = ''cancel''"
| "action_of RqEscalate = ''escalate''"
| "action_of RqBeginTriage = ''begin-triage''"
| "action_of RqPromote = ''promote''"

text \<open>The requests that end the escalation of their incident.\<close>

fun silences :: "lifecycle_request \<Rightarrow> bool" where
  "silences RqAcknowledge = True"
| "silences RqResolve = True"
| "silences RqClose = True"
| "silences RqCancel = True"
| "silences _ = False"

definition moved_by ::
    "lifecycle_request \<Rightarrow> 'v inc_env \<Rightarrow> int \<Rightarrow> incident list \<Rightarrow> 'v inc_world \<Rightarrow> 'v inc_world \<Rightarrow> bool" where
  "moved_by q env n tab w w' \<longleftrightarrow>
     iw_incidents w' = (if q = RqReopen then snd (ClearSLAResolvedAt False n tab) else tab) \<and>
     iw_kv w' = (if silences q \<and> ie_vk env then snd (CancelForIncident (ie_api env) True n (iw_kv w)) else iw_kv w) \<and>
     alarms w' = alarms w \<and>
     iw_marks w' = (if q = RqReopen then iw_marks (ClearBreachDedupKeys env n w) else iw_marks w)"

lemmas moved_simps = moved_by_def iw_simps with_updated_simps with_updated_quiet Let_def

lemma ClearBreachDedupKeys_marks:
  "iw_marks w = iw_marks w' \<Longrightarrow> iw_marks (ClearBreachDedupKeys env n w) = iw_marks (ClearBreachDedupKeys env n w')"
  by (simp add: ClearBreachDedupKeys_def)

text \<open>A request fails and leaves everything, or it is one transition of the table with a known effect.\<close>

definition effect ::
    "lifecycle_request \<Rightarrow> 'v inc_env \<Rightarrow> int \<Rightarrow> 'v inc_world \<Rightarrow> inc_answer \<Rightarrow> 'v inc_world \<Rightarrow> bool" where
  "effect q env n w ans w' \<longleftrightarrow>
     ((\<exists>e. ans = Inl e) \<and> w' = w) \<or>
     (\<exists>tab b. ans = Inr b \<and> moved_by q env n tab w w' \<and>
        TransitionIncidentStatus False (ie_now env) n (ActionSources (action_of q)) (ActionTarget (action_of q))
          (iw_incidents w) = (Inr (), tab))"

lemma effect_refused [simp]: "effect q env n w (Inl e) w" "effect q env n w (inc_fail c m) w"
  by (simp_all add: effect_def inc_fail_def)

lemma transition_effect:
  assumes "transition env (action_of q) n k w = (ans, w')"
    and "\<And>tab. moved_by q env n tab w (snd (k (with_incidents tab w))) \<and> (\<exists>b. fst (k (with_incidents tab w)) = Inr b)"
  shows "effect q env n w ans w'"
  using assms(1)
proof (cases rule: transition_cases)
  case (moved tab)
  then show ?thesis using assms(2) [of tab] by (auto simp: effect_def)
qed (simp add: effect_def)

lemma guarded_effect:
  assumes "inc_guarded cx p h w = (ans, w')" and "h w = (ans, w') \<Longrightarrow> effect q env n w ans w'"
  shows "effect q env n w ans w'"
  using assms(1) by (cases rule: guarded_cases) (simp_all add: assms(2))

lemma cascade_answer_ok: "\<exists>b. fst (cascade_answer env cx n u w) = Inr b"
  by (simp add: cascade_answer_def split: prod.split)

lemma getIncident_refused: "getIncidentOrError env i w = Inl e \<Longrightarrow> \<exists>c m. e = inc_fail c m"
  by (auto simp: getIncidentOrError_def split: option.splits if_splits)

lemma getIncident_effect:
  assumes "(case getIncidentOrError env i w of Inl e \<Rightarrow> (e, w) | Inr r \<Rightarrow> g r) = (ans, w')"
    and "\<And>r. g r = (ans, w') \<Longrightarrow> effect q env n w ans w'"
  shows "effect q env n w ans w'"
  using assms by (auto split: sum.splits dest: getIncident_refused)

lemmas effect_intros = guarded_effect getIncident_effect transition_effect

lemma acknowledge_effect:
  assumes "handleAcknowledgeIncident env cx i w = (ans, w')"
  shows "effect RqAcknowledge env (parseIncidentNumber env i) w ans w'"
  using assms unfolding handleAcknowledgeIncident_def
  apply (rule guarded_effect)
  apply (erule getIncident_effect)
  apply (simp add: Let_def split: if_splits)
  apply auto[1]
  apply (erule transition_effect [where q = RqAcknowledge, unfolded action_of.simps])
  apply (simp add: moved_simps)
  done

lemma mitigate_effect:
  assumes "handleMitigateIncident env cx i w = (ans, w')"
  shows "effect RqMitigate env (parseIncidentNumber env i) w ans w'"
  using assms unfolding handleMitigateIncident_def Let_def
  apply (rule guarded_effect)
  apply (erule transition_effect [where q = RqMitigate, unfolded action_of.simps])
  apply (simp add: moved_simps)
  done

lemma close_effect:
  assumes "handleCloseIncident env cx i w = (ans, w')"
  shows "effect RqClose env (parseIncidentNumber env i) w ans w'"
  using assms unfolding handleCloseIncident_def Let_def
  apply (rule guarded_effect)
  apply (erule transition_effect [where q = RqClose, unfolded action_of.simps])
  apply (simp add: moved_simps cascade_answer_ok EndAllRoles_incidents)
  done

lemma reopen_effect:
  assumes "handleReopenIncident env cx i w = (ans, w')"
  shows "effect RqReopen env (parseIncidentNumber env i) w ans w'"
  using assms unfolding handleReopenIncident_def Let_def
  apply (rule guarded_effect)
  apply (erule transition_effect [where q = RqReopen, unfolded action_of.simps])
  apply (simp add: moved_simps ClearBreachDedupKeys_def)
  done

lemma cancel_effect:
  assumes "handleCancelIncident env cx i w = (ans, w')"
  shows "effect RqCancel env (parseIncidentNumber env i) w ans w'"
  using assms unfolding handleCancelIncident_def Let_def
  apply (rule guarded_effect)
  apply (erule transition_effect [where q = RqCancel, unfolded action_of.simps])
  apply (simp add: moved_simps)
  done

lemma triage_effect:
  assumes "handleBeginTriage env cx i w = (ans, w')"
  shows "effect RqBeginTriage env (parseIncidentNumber env i) w ans w'"
  using assms unfolding handleBeginTriage_def
  apply (rule guarded_effect)
  apply (simp split: if_splits)
  apply auto[1]
  apply (erule getIncident_effect)
  apply (simp add: Let_def split: if_splits)
  apply auto[1]
  apply (erule transition_effect [where q = RqBeginTriage, unfolded action_of.simps])
  apply (simp add: moved_simps InitializeForIncident_incidents)
  done

lemma promote_effect:
  assumes "handlePromote env cx i w = (ans, w')"
  shows "effect RqPromote env (parseIncidentNumber env i) w ans w'"
  using assms unfolding handlePromote_def
  apply (rule guarded_effect)
  apply (simp split: if_splits)
  apply auto[1]
  apply (erule getIncident_effect)
  apply (simp add: Let_def split: if_splits)
  apply auto[1]
  apply (erule transition_effect [where q = RqPromote, unfolded action_of.simps])
  apply (simp add: moved_simps split: option.split)
  done

lemma fail_effect: "(inc_fail c m, w) = (ans, w') \<Longrightarrow> effect q env n w ans w'"
  by auto

lemma resolve_effect:
  assumes "handleResolveIncident env cx i w = (ans, w')"
  shows "effect RqResolve env (parseIncidentNumber env i) w ans w'"
  using assms unfolding handleResolveIncident_def Let_def
  apply (rule guarded_effect)
  apply (simp split: option.split_asm if_split_asm list.split_asm
      del: prod.inject)
      apply (erule fail_effect)+
  apply (erule transition_effect [where q = RqResolve, unfolded action_of.simps])
  apply (simp add: moved_simps cascade_answer_ok)
  apply (erule fail_effect)+
  done

lemma lifecycle_effect:
  assumes "lifecycle q env cx i w = (ans, w')" "q \<noteq> RqEscalate"
  shows "effect q env (parseIncidentNumber env i) w ans w'"
  using assms
  by (cases q)
     (simp_all add: acknowledge_effect mitigate_effect resolve_effect close_effect reopen_effect cancel_effect
       triage_effect promote_effect)

lemma getIncident_found:
  "getIncidentOrError env i w = Inr r \<Longrightarrow>
     ie_num env i = Some (in_number r) \<and> r \<in> set (iw_incidents w) \<and> in_deleted r = None"
  by (auto simp: getIncidentOrError_def find_split split: option.splits if_splits)

lemma manual_claim_world:
  "\<exists>ms. snd (manual_claim env n w) = w\<lparr>iw_marks := ms @ iw_marks w\<rparr> \<and> (\<forall>e \<in> set ms. fst e = MarkManual n)"
proof (cases "ie_vk env \<and> fst (set_mark (ie_now env) (MarkManual n) (60 * go_second) (iw_marks w))")
  case True
  then have "snd (manual_claim env n w) = w\<lparr>iw_marks := [(MarkManual n, ie_now env + 60 * go_second)] @ iw_marks w\<rparr>"
    by (simp add: manual_claim_def set_mark_def split: if_splits)
  then show ?thesis by (intro exI [of _ "[(MarkManual n, ie_now env + 60 * go_second)]"]) simp
next
  case False
  then have "snd (manual_claim env n w) = w\<lparr>iw_marks := [] @ iw_marks w\<rparr>"
    by (auto simp: manual_claim_def set_mark_def)
  then show ?thesis by (intro exI [of _ "[]"]) simp
qed

text \<open>A manual escalation changes no table but for the timeline; when it is refused it leaves at most its mark.\<close>

definition escalated_by :: "'v inc_env \<Rightarrow> 'v inc_world \<Rightarrow> inc_answer \<Rightarrow> 'v inc_world \<Rightarrow> bool" where
  "escalated_by env w ans w' \<longleftrightarrow>
     iw_cmd w' = iw_cmd w \<and> iw_kv w' = iw_kv w \<and>
     (\<exists>ms. iw_marks w' = ms @ iw_marks w \<and> (\<forall>e \<in> set ms. \<exists>k. fst e = MarkManual k) \<and>
        ((\<exists>e. ans = Inl e) \<longrightarrow> w' = w\<lparr>iw_marks := ms @ iw_marks w\<rparr>)) \<and>
     (alarms w' = alarms w \<or>
      (\<exists>m. alarms w' = alarms w @ [OutEscalate m] \<and>
         (0 < em_incident m \<longrightarrow>
            escalate_guard env (em_incident m) w \<notin> {guardSkipAcknowledged, guardSkipSilenced})))"

lemma escalated_refused: "escalated_by env w (inc_fail c m) w" "escalated_by env w (Inl e) w"
  by (auto simp: escalated_by_def inc_fail_def)

lemma escalated_marked:
  assumes "\<forall>e \<in> set ms. fst e = MarkManual n"
  shows "escalated_by env w (inc_fail c m) (w\<lparr>iw_marks := ms @ iw_marks w\<rparr>)"
  using assms by (auto simp: escalated_by_def inc_fail_def)

lemma escalate_effect:
  assumes "handleEscalateIncident env cx i w = (ans, w')"
  shows "escalated_by env w ans w'"
  using assms unfolding handleEscalateIncident_def
proof (cases rule: guarded_cases)
  case (refused e)
  then show ?thesis by (simp add: escalated_refused)
next
  case allowed
  let ?n = "parseIncidentNumber env i"
  show ?thesis
  proof (cases "getIncidentOrError env i w")
    case (Inl e)
    with allowed getIncident_refused [OF Inl] show ?thesis by (auto simp: escalated_refused)
  next
    case (Inr r)
    show ?thesis
    proof (cases "IsTerminalIncidentStatus (in_status r)")
      case True
      with allowed Inr have "ans = inc_fail ErrorCodeValidationFailed
          (''cannot escalate an incident in '' @ CHR 0x27 # in_status r @ CHR 0x27 # '' status'')" "w' = w" by simp_all
      then show ?thesis by (simp only: escalated_refused)
    next
      case False
      obtain ok ms where c: "manual_claim env ?n w = (ok, w\<lparr>iw_marks := ms @ iw_marks w\<rparr>)"
        and ms: "\<forall>e \<in> set ms. fst e = MarkManual ?n"
        using manual_claim_world [of env ?n w] by (metis prod.collapse)
      let ?w1 = "w\<lparr>iw_marks := ms @ iw_marks w\<rparr>"
      have g: "escalate_guard env k ?w1 = escalate_guard env k w" for k
        by (simp add: escalate_guard_def)
      have pos: "0 < in_number r \<Longrightarrow> ?n = in_number r"
        using getIncident_found [OF Inr] by (simp add: parseIncidentNumber_def)
      show ?thesis
      proof (cases "ok \<and> escalate_guard env ?n w \<notin> {guardSkipAcknowledged, guardSkipSilenced}")
        case True
        then have sent: "ans = Inr (IncRecord (Some r))"
          "iw_cmd w' = iw_cmd w" "iw_kv w' = iw_kv w" "iw_marks w' = ms @ iw_marks w"
          "alarms w' = alarms w \<or> (\<exists>m. alarms w' = alarms w @ [OutEscalate m] \<and> em_incident m = in_number r)"
          using allowed Inr False c
          by (auto simp: g iw_simps Let_def split: guard_result.splits)
        with True ms pos show ?thesis by (auto simp: escalated_by_def)
      next
        case refused: False
        have w1: "w' = ?w1 \<and> (\<exists>c m. ans = inc_fail c m)"
          using allowed Inr False c refused
          by (cases ok; cases "escalate_guard env ?n w"; simp add: g Let_def del: inc_world.surjective; blast)
        then obtain c m where "ans = inc_fail c m" "w' = ?w1" by blast
        then show ?thesis using escalated_marked [OF ms] by simp
      qed
    qed
  qed
qed

subsection \<open>What a tick of the sweep does\<close>

lemma trigger_simps [iw_simps]:
  "iw_cmd (triggerEscalationOnBreach env r w) = iw_cmd w" "iw_marks (triggerEscalationOnBreach env r w) = iw_marks w"
  by (simp_all add: triggerEscalationOnBreach_def iw_simps split: option.split prod.split)

lemma mark_world:
  "snd (markBreachDeduped env n kind w) = w\<lparr>iw_marks := iw_marks (snd (markBreachDeduped env n kind w))\<rparr>"
  "snd (markCommsNudgeDeduped env n w) = w\<lparr>iw_marks := iw_marks (snd (markCommsNudgeDeduped env n w))\<rparr>"
  by (simp_all add: markBreachDeduped_def markCommsNudgeDeduped_def split: prod.split)

lemma mark_fields [iw_simps]:
  "iw_cmd (snd (markBreachDeduped env n kind w)) = iw_cmd w" "iw_kv (snd (markBreachDeduped env n kind w)) = iw_kv w"
  "iw_out (snd (markBreachDeduped env n kind w)) = iw_out w"
  "iw_cmd (snd (markCommsNudgeDeduped env n w)) = iw_cmd w" "iw_kv (snd (markCommsNudgeDeduped env n w)) = iw_kv w"
  "iw_out (snd (markCommsNudgeDeduped env n w)) = iw_out w"
  by (subst mark_world, simp)+

lemma nudgeCommander_simps [iw_simps]:
  "iw_cmd (nudgeCommander r w) = iw_cmd w" "iw_kv (nudgeCommander r w) = iw_kv w"
  "iw_marks (nudgeCommander r w) = iw_marks w" "alarms (nudgeCommander r w) = alarms w"
  by (simp_all add: nudgeCommander_def iw_simps split: sum.split option.split)

lemma claim_case:
  "(case p of (False, w1) \<Rightarrow> f w1 | (True, w1) \<Rightarrow> g w1) = (if fst p then g (snd p) else f (snd p))"
  by (simp split: prod.split bool.split)

lemmas sweep_defs = sweep_respond_def sweep_resolve_def sweepCommsStaleness_def

lemma sweep_respond_cmd [iw_simps]: "iw_cmd (sweep_respond env r w) = iw_cmd w"
  by (simp add: sweep_defs claim_case iw_simps)

lemma sweep_resolve_simps [iw_simps]:
  "iw_cmd (sweep_resolve env r w) = iw_cmd w" "iw_kv (sweep_resolve env r w) = iw_kv w"
  by (simp_all add: sweep_defs claim_case iw_simps)

lemma sweepComms_simps [iw_simps]:
  "iw_cmd (sweepCommsStaleness env r w) = iw_cmd w" "iw_kv (sweepCommsStaleness env r w) = iw_kv w"
  by (simp_all add: sweep_defs claim_case iw_simps)

lemma sla_one_cmd [iw_simps]: "iw_cmd (sla_one env w r) = iw_cmd w"
  by (simp add: sla_one_def iw_simps)

lemma foldl_sla_cmd: "iw_cmd (foldl (sla_one env) w rs) = iw_cmd w"
  by (induction rs arbitrary: w) (simp_all add: iw_simps)

lemma sla_tick_cmd [iw_simps]: "iw_cmd (sla_tick env w) = iw_cmd w"
  by (simp add: sla_tick_def foldl_sla_cmd)

subsection \<open>Requests follow the status graph\<close>

text \<open>The abstract machine: a status per live incident, and actions that move it when it is one of their sources.\<close>

definition status_abs :: "'v inc_world \<Rightarrow> int \<Rightarrow> string option" where
  "status_abs w = incident_status_of (iw_incidents w)"

definition spec_move :: "int \<times> string \<Rightarrow> (int \<Rightarrow> string option) \<Rightarrow> int \<Rightarrow> string option" where
  "spec_move op \<sigma> =
     (case op of (n, a) \<Rightarrow>
        (case \<sigma> n of None \<Rightarrow> \<sigma>
         | Some st \<Rightarrow> if st \<in> set (ActionSources a) then \<sigma>(n := Some (ActionTarget a)) else \<sigma>))"

text \<open>The requests of a history that are granted, as actions.\<close>

fun granted :: "'v inc_event list \<Rightarrow> 'v inc_world \<Rightarrow> (int \<times> string) list" where
  "granted [] w = []"
| "granted (Tick env # evs) w = granted evs (inc_step (Tick env) w)"
| "granted (Request q env cx i # evs) w =
     (case fst (lifecycle q env cx i w) of Inl _ \<Rightarrow> [] | Inr _ \<Rightarrow> [(parseIncidentNumber env i, action_of q)]) @
     granted evs (inc_step (Request q env cx i) w)"

lemma ClearSLA_status:
  "incident_status_of (snd (ClearSLAResolvedAt False n tab)) m = incident_status_of tab m"
  "incidents_unique (snd (ClearSLAResolvedAt False n tab)) = incidents_unique tab"
proof -
  let ?f = "\<lambda>r. if in_number r = n \<and> in_deleted r = None then r\<lparr>in_sla_resolved := None\<rparr> else r"
  have "live_incident m (map ?f tab) = map_option ?f (live_incident m tab)"
    by (rule live_incident_map) simp_all
  then show "incident_status_of (snd (ClearSLAResolvedAt False n tab)) m = incident_status_of tab m"
    by (cases "live_incident m tab") (simp_all add: ClearSLAResolvedAt_def incident_status_of_def)
  show "incidents_unique (snd (ClearSLAResolvedAt False n tab)) = incidents_unique tab"
    by (simp add: ClearSLAResolvedAt_def, rule incidents_unique_map) simp_all
qed

lemma moved_status:
  assumes "moved_by q env n tab w w'" "incidents_unique (iw_incidents w)"
    and "TransitionIncidentStatus False now n (ActionSources (action_of q)) (ActionTarget (action_of q)) (iw_incidents w) = (Inr (), tab)"
  shows "status_abs w' = spec_move (n, action_of q) (status_abs w)" "incidents_unique (iw_incidents w')"
    "\<exists>st. status_abs w n = Some st \<and> st \<in> set (ActionSources (action_of q))"
proof -
  have src: "(\<exists>st. incident_status_of (iw_incidents w) n = Some st \<and> st \<in> set (ActionSources (action_of q))) \<and>
      incident_status_of tab n = Some (ActionTarget (action_of q))"
    using incident_table.trans_ok [OF assms(2,3)] .
  then show "\<exists>st. status_abs w n = Some st \<and> st \<in> set (ActionSources (action_of q))"
    by (simp add: status_abs_def)
  have after: "incident_status_of (iw_incidents w') m = incident_status_of tab m" for m
    using assms(1) by (simp add: moved_by_def ClearSLA_status)
  have "status_abs w' m = spec_move (n, action_of q) (status_abs w) m" for m
    using src after [of m] incident_table.trans_frame [OF assms(2,3), of m]
    by (cases "m = n") (auto simp: status_abs_def spec_move_def)
  then show "status_abs w' = spec_move (n, action_of q) (status_abs w)" by blast
  show "incidents_unique (iw_incidents w')"
    using assms(1) incident_table.trans_inv [OF assms(2,3)] by (simp add: moved_by_def ClearSLA_status)
qed

lemma request_status:
  assumes "incidents_unique (iw_incidents w)" "lifecycle q env cx i w = (ans, w')"
  shows "incidents_unique (iw_incidents w')"
    "status_abs w' = (case ans of Inl _ \<Rightarrow> status_abs w | Inr _ \<Rightarrow> spec_move (parseIncidentNumber env i, action_of q) (status_abs w))"
proof -
  have "incidents_unique (iw_incidents w') \<and>
    status_abs w' = (case ans of Inl _ \<Rightarrow> status_abs w | Inr _ \<Rightarrow> spec_move (parseIncidentNumber env i, action_of q) (status_abs w))"
  proof (cases "q = RqEscalate")
    case True
    then have "escalated_by env w ans w'" using assms(2) escalate_effect by simp
    with True assms(1) show ?thesis
      by (auto simp: escalated_by_def status_abs_def spec_move_def ActionSources_def actionTransitions_def
          split: sum.split option.split)
  next
    case False
    show ?thesis using lifecycle_effect [OF assms(2) False] assms(1) moved_status [OF _ assms(1)]
      by (auto simp: effect_def)
  qed
  then show "incidents_unique (iw_incidents w')"
    "status_abs w' = (case ans of Inl _ \<Rightarrow> status_abs w | Inr _ \<Rightarrow> spec_move (parseIncidentNumber env i, action_of q) (status_abs w))"
    by simp_all
qed

lemma spec_move_path:
  "\<sigma> n = Some st \<Longrightarrow> \<exists>st'. spec_move op \<sigma> n = Some st' \<and> status_path st st'"
  by (cases op) (auto simp: spec_move_def split: option.split intro: path_refl status_path_edge [OF action_edge])

lemma spec_run_path:
  "\<sigma> n = Some st \<Longrightarrow> \<exists>st'. foldl (\<lambda>\<sigma> op. spec_move op \<sigma>) \<sigma> ops n = Some st' \<and> status_path st st'"
proof (induction ops arbitrary: \<sigma> st)
  case (Cons op ops)
  from spec_move_path [where op = op and \<sigma> = \<sigma> and n = n, OF Cons.prems] obtain st1
    where st1: "spec_move op \<sigma> n = Some st1" "status_path st st1" by blast
  from Cons.IH [where \<sigma> = "spec_move op \<sigma>", OF st1(1)] st1(2) show ?case by (auto intro: status_path_trans)
qed (auto intro: path_refl)

lemma run_status:
  assumes "incidents_unique (iw_incidents w)"
  shows "status_abs (inc_run evs w) = foldl (\<lambda>\<sigma> op. spec_move op \<sigma>) (status_abs w) (granted evs w) \<and>
    incidents_unique (iw_incidents (inc_run evs w))"
  using assms
proof (induction evs arbitrary: w)
  case (Cons e evs)
  show ?case
  proof (cases e)
    case (Request q env cx i)
    obtain ans w' where l: "lifecycle q env cx i w = (ans, w')" by force
    from Cons.IH [OF request_status(1) [OF Cons.prems l]] request_status(2) [OF Cons.prems l] show ?thesis
      by (cases ans) (simp_all add: Request l inc_run_def)
  next
    case (Tick env)
    have "status_abs (sla_tick env w) = status_abs w" "iw_incidents (sla_tick env w) = iw_incidents w"
      by (simp_all add: status_abs_def iw_simps)
    with Cons.IH [of "sla_tick env w"] Cons.prems show ?thesis by (simp add: Tick inc_run_def)
  qed
qed (simp add: inc_run_def)

subsection \<open>Which requests are granted\<close>

definition request_ok :: "inc_answer \<times> 'v inc_world \<Rightarrow> bool" where
  "request_ok r \<longleftrightarrow> (case fst r of Inl _ \<Rightarrow> False | Inr _ \<Rightarrow> True)"

lemma request_ok_simps [simp]:
  "\<not> request_ok (inc_fail c m, w)" "\<not> request_ok (Inl e, w)" "request_ok (Inr b, w)"
  "request_ok (cascade_answer env cx n u w)"
  by (simp_all add: request_ok_def inc_fail_def cascade_answer_def split: prod.split)

lemma guarded_request_ok:
  "request_ok (inc_guarded cx p h w) \<longleftrightarrow> CheckPermission cx [p] = None \<and> request_ok (h w)"
  by (auto simp: inc_guarded_def split: option.split sum.split)

lemma transition_request_ok:
  assumes "incidents_unique (iw_incidents w)" "ActionSources a \<noteq> []" "\<And>w. request_ok (k w)"
  shows "request_ok (transition env a n k w) \<longleftrightarrow>
    (\<exists>r. live_incident n (iw_incidents w) = Some r \<and> in_status r \<in> set (ActionSources a))"
proof -
  let ?T = "TransitionIncidentStatus False (ie_now env) n (ActionSources a) (ActionTarget a) (iw_incidents w)"
  have k: "ActionTarget a \<in> set known_statuses" using known_action_sources [OF assms(2)] .
  have src: "(\<exists>r \<in> set (iw_incidents w). transition_where n (ActionSources a) r) \<longleftrightarrow>
      (\<exists>r. live_incident n (iw_incidents w) = Some r \<and> in_status r \<in> set (ActionSources a))"
    using live_incident_Some [OF assms(1)] live_incident_SomeD by (metis transition_where_def)
  obtain res tab where t: "?T = (res, tab)" by force
  show ?thesis
  proof (cases res)
    case (Inl e)
    have "\<not> (\<exists>r \<in> set (iw_incidents w). transition_where n (ActionSources a) r)"
      using t k Inl by (auto simp: TransitionIncidentStatus_def Let_def filter_empty_conv split: if_splits)
    with t Inl show ?thesis unfolding src [symmetric] by (simp add: transition_def split: incident_error.split)
  next
    case (Inr u)
    then have "\<exists>r \<in> set (iw_incidents w). transition_where n (ActionSources a) r"
      using t Transition_ok by simp
    with t Inr assms(3) show ?thesis unfolding src [symmetric] by (simp add: transition_def)
  qed
qed

lemma refetch_live:
  assumes "incidents_unique (iw_incidents w)"
  shows "(case refetch n w of None \<Rightarrow> None | Some r \<Rightarrow> if in_deleted r = None then Some r else None) =
    live_incident n (iw_incidents w)"
proof (cases "refetch n w")
  case None
  then have "live_incident n (iw_incidents w) = None" by (auto simp: refetch_def find_None live_incident_None)
  then show ?thesis using None by simp
next
  case (Some r)
  then have r: "r \<in> set (iw_incidents w)" "in_number r = n" by (auto simp: refetch_def find_split)
  have only: "x = r" if "x \<in> set (iw_incidents w)" "in_number x = n" for x
    using assms r that by (auto simp: incidents_unique_def distinct_map dest: inj_onD)
  show ?thesis
  proof (cases "in_deleted r = None")
    case True
    then show ?thesis using live_incident_Some [OF assms r True] Some by simp
  next
    case False
    then have "live_incident n (iw_incidents w) = None" using only by (auto simp: live_incident_None)
    then show ?thesis using Some False by simp
  qed
qed

lemma getIncident_live:
  assumes "incidents_unique (iw_incidents w)" "ie_num env i = Some n"
  shows "getIncidentOrError env i w =
    (case live_incident n (iw_incidents w) of
       None \<Rightarrow> Inl (inc_fail ErrorCodeNotFound ''incident not found'') | Some r \<Rightarrow> Inr r)"
  unfolding refetch_live [OF assms(1), of n, symmetric]
  by (simp add: getIncidentOrError_def refetch_def assms(2) split: option.split)

definition documented :: "'v inc_env \<Rightarrow> incident \<Rightarrow> command_db \<Rightarrow> bool" where
  "documented env r db \<longleftrightarrow> missingIncidentResolutionRequirements env r db = Some []"

lemma action_sources_cases [simp]:
  "ActionSources ''acknowledge'' = [''detected'']" "ActionSources ''begin-triage'' = [''detected'']"
  "ActionSources ''promote'' = [''triaging'']" "ActionSources ''mitigate'' = [''active'']"
  "ActionSources ''resolve'' = [''active'', ''mitigated'']" "ActionSources ''close'' = [''resolved'']"
  "ActionSources ''reopen'' = [''mitigated'', ''resolved'', ''closed'']"
  "ActionSources ''cancel'' = [''detected'', ''triaging'', ''active'']"
  by (simp_all add: ActionSources_def actionTransitions_def)

lemma request_granted:
  assumes u: "incidents_unique (iw_incidents w)" and n: "ie_num env i = Some n" "0 < n"
    and q: "q \<noteq> RqEscalate" and i: "i \<noteq> []"
  shows "request_ok (lifecycle q env cx i w) \<longleftrightarrow>
    CheckPermission cx [''incidents:command''] = None \<and>
    (\<exists>r. live_incident n (iw_incidents w) = Some r \<and> in_status r \<in> set (ActionSources (action_of q)) \<and>
         (q = RqResolve \<longrightarrow> documented env r (iw_cmd w)))"
proof -
  have p: "parseIncidentNumber env i = n" using n by (simp add: parseIncidentNumber_def)
  note simps = guarded_request_ok transition_request_ok [OF u] p Let_def getIncident_live [OF u n(1)] i
  show ?thesis
  proof (cases q)
    case RqAcknowledge
    show ?thesis unfolding RqAcknowledge lifecycle.simps handleAcknowledgeIncident_def action_of.simps
      by (simp add: simps split: option.split)
  next
    case RqMitigate
    show ?thesis unfolding RqMitigate lifecycle.simps handleMitigateIncident_def action_of.simps
      by (simp add: simps split: option.split)
  next
    case RqClose
    show ?thesis unfolding RqClose lifecycle.simps handleCloseIncident_def action_of.simps
      by (simp add: simps split: option.split)
  next
    case RqReopen
    show ?thesis unfolding RqReopen lifecycle.simps handleReopenIncident_def action_of.simps
      by (simp add: simps split: option.split)
  next
    case RqCancel
    show ?thesis unfolding RqCancel lifecycle.simps handleCancelIncident_def action_of.simps
      by (simp add: simps split: option.split)
  next
    case RqBeginTriage
    show ?thesis unfolding RqBeginTriage lifecycle.simps handleBeginTriage_def action_of.simps
      by (simp add: simps split: option.split)
  next
    case RqPromote
    show ?thesis unfolding RqPromote lifecycle.simps handlePromote_def action_of.simps
      by (simp add: simps split: option.split)
  next
    case RqResolve
    have live: "refetch n w = Some r \<and> in_deleted r = None \<longleftrightarrow> live_incident n (iw_incidents w) = Some r" for r
      unfolding refetch_live [OF u, of n, symmetric] by (auto split: option.split)
    have "request_ok (lifecycle q env cx i w) \<longleftrightarrow>
      CheckPermission cx [''incidents:command''] = None \<and>
      (\<exists>r. (refetch n w = Some r \<and> in_deleted r = None) \<and> documented env r (iw_cmd w) \<and>
        (\<exists>r. live_incident n (iw_incidents w) = Some r \<and> in_status r \<in> set (ActionSources ''resolve'')))"
      unfolding RqResolve lifecycle.simps handleResolveIncident_def
      by (simp add: simps documented_def split: option.split list.split)
    then show ?thesis unfolding live RqResolve action_of.simps
      by (cases "live_incident n (iw_incidents w)") (simp_all add: conj_ac)
  qed (use q in simp)
qed

subsection \<open>Silence\<close>

definition on_server :: "'v kv_api \<Rightarrow> 'v inc_env \<Rightarrow> bool" where
  "on_server api env \<longleftrightarrow> ie_api env = api \<and> ie_vk env"

fun event_env :: "'v inc_event \<Rightarrow> 'v inc_env" where
  "event_env (Request q env cx i) = env"
| "event_env (Tick env) = env"

abbreviation escalations :: "int \<Rightarrow> 'v inc_world \<Rightarrow> inc_output list" where
  "escalations n w \<equiv> filter (escalates n) (iw_out w)"

lemma escalations_alarms: "escalations n w = filter (escalates n) (alarms w)"
proof -
  have "alarm e" if "escalates n e" for e using that by (cases e) simp_all
  then show ?thesis by (auto intro!: filter_cong)
qed

context reliable_valkey
begin

lemma acked_claim:
  assumes "acked n s"
  shows "acked n (snd (claimEscalationFirstPublish api now m p l s))"
proof -
  obtain r s1 where x: "kv_setnx api (KEscClaim m) s = (r, s1)" by force
  then have "acked n s1" using assms setnx_get [of "KEsc n" "''acknowledged''" "KEscClaim m" s] by (simp add: acked_def)
  then show ?thesis
    using assms by (auto simp: claimEscalationFirstPublish_def Let_def x acked_def kv_simps split: option.split bool.split)
qed

lemma acked_cancel:
  assumes "acked n s" shows "acked n (snd (CancelForIncident api t m s))"
  using assms by (simp add: CancelForIncident_def acked_def Let_def kv_simps)

definition silent :: "int \<Rightarrow> 'v inc_world \<Rightarrow> 'v inc_world \<Rightarrow> bool" where
  "silent n w w' \<longleftrightarrow> acked n (iw_kv w') \<and> escalations n w' = escalations n w"

lemma silent_request:
  assumes a: "acked n (iw_kv w)" and n: "0 < n" and e: "on_server api env"
    and l: "lifecycle q env cx i w = (ans, w')"
  shows "silent n w w'"
proof (cases "q = RqEscalate")
  case True
  then have w': "escalated_by env w ans w'" using l escalate_effect by simp
  have "escalate_guard env n w = guardSkipAcknowledged"
    using a e by (simp add: escalate_guard_def on_server_def preflightEscalationState_def acked_def)
  then have "escalations n w' = escalations n w"
    using w' n unfolding escalations_alarms escalated_by_def by (auto simp del: filter_filter)
  with w' a show ?thesis by (simp add: silent_def escalated_by_def)
next
  case False
  from lifecycle_effect [OF l False] a e acked_cancel show ?thesis
    by (auto simp: effect_def moved_by_def silent_def escalations_alarms on_server_def simp del: filter_filter)
qed

lemma silent_trigger:
  assumes a: "acked n (iw_kv w)" and e: "on_server api env"
  shows "silent n w (triggerEscalationOnBreach env r w)"
proof -
  show ?thesis
  proof (cases "ie_queue env \<and> breach_policy env r \<noteq> None")
    case True
    then obtain p where p: "ie_queue env" "breach_policy env r = Some p" by blast
    obtain v s where c: "claimEscalationFirstPublish api (ie_now env) (in_number r) p 1 (iw_kv w) = (v, s)" by force
    have s: "acked n s" using acked_claim [OF a] c by (metis snd_conv)
    have v: "in_number r = n \<Longrightarrow> v \<noteq> guardAllow" using acked_guard [OF a] c by auto
    show ?thesis
      using c s v e p by (auto simp: triggerEscalationOnBreach_def on_server_def silent_def iw_simps)
  next
    case False
    then have "triggerEscalationOnBreach env r w = w" by (auto simp: triggerEscalationOnBreach_def)
    with a show ?thesis by (simp add: silent_def)
  qed
qed

lemma silent_refl: "acked n (iw_kv w) \<Longrightarrow> silent n w w"
  by (simp add: silent_def)

lemma silent_trans: "silent n w w1 \<Longrightarrow> silent n w1 w2 \<Longrightarrow> silent n w w2"
  by (simp add: silent_def)

lemma silent_sla_one:
  assumes a: "acked n (iw_kv w)" and e: "on_server api env"
  shows "silent n w (sla_one env w r)"
proof -
  have q: "escalations n (sweep_resolve env r w) = escalations n w" "escalations n (sweepCommsStaleness env r w) = escalations n w" for w
    by (simp_all add: sweep_defs claim_case iw_simps nudgeCommander_def split: sum.split option.split)
  have "silent n w (sweep_respond env r w)"
  proof -
    let ?w1 = "out [OutEvent ''incident_sla_breach:response'' (in_number r)]
      (system_entry env (in_number r) ''sla_breach'' ''Response SLA breached''
        (snd (markBreachDeduped env (in_number r) ''response'' w)))"
    have "acked n (iw_kv ?w1)" "escalations n ?w1 = escalations n w" using a by (simp_all add: iw_simps)
    with silent_trigger [OF _ e, of n ?w1 r] a show ?thesis
      by (simp add: sweep_respond_def claim_case silent_def iw_simps)
  qed
  then show ?thesis by (simp add: sla_one_def silent_def q iw_simps)
qed

lemma silent_step:
  assumes "acked n (iw_kv w)" "0 < n" "on_server api (event_env e)"
  shows "silent n w (inc_step e w)"
proof (cases e)
  case (Request q env cx i)
  obtain ans w' where "lifecycle q env cx i w = (ans, w')" by force
  with silent_request [OF assms(1,2) _ this] assms(3) show ?thesis by (simp add: Request)
next
  case (Tick env)
  have "silent n w (foldl (sla_one env) w rs)" if "acked n (iw_kv w)" for rs w
    using that
  proof (induction rs arbitrary: w)
    case (Cons r rs)
    have o: "silent n w (sla_one env w r)" using silent_sla_one [OF Cons.prems] assms(3) Tick by simp
    then have "acked n (iw_kv (sla_one env w r))" by (simp add: silent_def)
    from silent_trans [OF o Cons.IH [OF this]] show ?case by simp
  qed (simp add: silent_refl)
  with assms(1) show ?thesis by (simp add: Tick sla_tick_def)
qed

lemma silent_run:
  assumes "acked n (iw_kv w)" "0 < n" "\<forall>e \<in> set evs. on_server api (event_env e)"
  shows "silent n w (inc_run evs w)"
  using assms(1,3)
proof (induction evs arbitrary: w)
  case (Cons e evs)
  have s: "silent n w (inc_step e w)" using silent_step [OF Cons.prems(1) assms(2)] Cons.prems(2) by simp
  then have "acked n (iw_kv (inc_step e w))" by (simp add: silent_def)
  from silent_trans [OF s Cons.IH [OF this]] Cons.prems(2) show ?case by (simp add: inc_run_def)
qed (simp add: inc_run_def silent_refl)

end

subsection \<open>Breaches and their marks\<close>

definition breaches :: "int \<Rightarrow> string \<Rightarrow> 'v inc_world \<Rightarrow> nat" where
  "breaches n kind w = length (filter (\<lambda>e. e = breach_event n kind) (iw_out w))"

text \<open>The mark of the breach lives until \<open>T\<close> at least.\<close>

definition marked :: "int \<Rightarrow> string \<Rightarrow> instant \<Rightarrow> 'v inc_world \<Rightarrow> bool" where
  "marked n kind T w \<longleftrightarrow> list_ex (\<lambda>e. fst e = MarkBreach n kind \<and> T \<le> snd e) (iw_marks w)"

definition potential :: "int \<Rightarrow> string \<Rightarrow> instant \<Rightarrow> 'v inc_world \<Rightarrow> nat" where
  "potential n kind T w = breaches n kind w + (if marked n kind T w then 0 else 1)"

lemma breach_event_names [simp]:
  "breach_event n kind \<noteq> OutEscalate m" "breach_event n kind \<noteq> OutEvent ''incident_comms_stale'' k"
  "breach_event n kind \<noteq> OutNudge u k" "OutEscalate m \<noteq> breach_event n kind" "alarm (breach_event n kind)"
  by (simp_all add: breach_event_def)

lemma breach_event_kinds:
  "OutEvent ''incident_sla_breach:response'' n = breach_event n ''response''"
  "OutEvent ''incident_sla_breach:resolve'' n = breach_event n ''resolve''"
  by (simp_all add: breach_event_def)

lemma breach_event_inject [simp]: "breach_event m k = breach_event n l \<longleftrightarrow> m = n \<and> k = l"
  by (auto simp: breach_event_def)

lemma breaches_alarms: "breaches n kind w = length (filter (\<lambda>e. e = breach_event n kind) (alarms w))"
proof -
  have "filter (\<lambda>e. e = breach_event n kind) (alarms w) = filter (\<lambda>e. e = breach_event n kind) (iw_out w)"
    by (auto intro: filter_cong)
  then show ?thesis by (simp add: breaches_def)
qed

lemma potential_cong:
  "breaches n kind w' = breaches n kind w \<Longrightarrow> iw_marks w' = iw_marks w \<Longrightarrow> potential n kind T w' = potential n kind T w"
  by (simp add: potential_def marked_def)

lemma potential_le:
  "breaches n kind w' = breaches n kind w \<Longrightarrow> (marked n kind T w \<Longrightarrow> marked n kind T w') \<Longrightarrow>
     potential n kind T w' \<le> potential n kind T w"
  by (simp add: potential_def)

lemma breaches_marks [simp]: "breaches n kind (w\<lparr>iw_marks := ms\<rparr>) = breaches n kind w"
  by (simp add: breaches_def)

lemma breaches_frames [simp]:
  "breaches n kind (system_entry env m ev t w) = breaches n kind w"
  "breaches n kind (snd (markBreachDeduped env m k w)) = breaches n kind w"
  "breaches n kind (snd (markCommsNudgeDeduped env m w)) = breaches n kind w"
  "breaches n kind (nudgeCommander r w) = breaches n kind w"
  "breaches n kind (triggerEscalationOnBreach env r w) = breaches n kind w"
  "breaches n kind (out [OutEvent ''incident_comms_stale'' m] w) = breaches n kind w"
  "breaches n kind (out [breach_event m k] w) = (if m = n \<and> k = kind then Suc (breaches n kind w) else breaches n kind w)"
  using breach_event_names(1-3) [of n kind, THEN not_sym]
  by (auto simp: breaches_def iw_simps nudgeCommander_def triggerEscalationOnBreach_def
      split: sum.split option.split prod.split)

lemma mark_potential:
  assumes vk: "ie_vk env" and now: "t0 \<le> ie_now env" "ie_now env < t0 + 24 * go_hour" and T: "T = t0 + 24 * go_hour"
  shows "fst (markBreachDeduped env m k w) \<Longrightarrow>
      potential n kind T (out [breach_event m k] (snd (markBreachDeduped env m k w))) \<le> potential n kind T w"
    and "potential n kind T (snd (markBreachDeduped env m k w)) \<le> potential n kind T w"
proof -
  let ?live = "list_ex (\<lambda>e. fst e = MarkBreach m k \<and> ie_now env < snd e) (iw_marks w)"
  have mb: "markBreachDeduped env m k w =
      (if ?live then (False, w) else (True, w\<lparr>iw_marks := (MarkBreach m k, ie_now env + 24 * go_hour) # iw_marks w\<rparr>))"
    using vk by (simp add: markBreachDeduped_def set_mark_def)
  show "potential n kind T (snd (markBreachDeduped env m k w)) \<le> potential n kind T w"
    by (rule potential_le) (simp_all add: mb marked_def breaches_def)
  assume ok: "fst (markBreachDeduped env m k w)"
  then have free: "\<not> ?live" by (auto simp: mb split: if_splits)
  show "potential n kind T (out [breach_event m k] (snd (markBreachDeduped env m k w))) \<le> potential n kind T w"
  proof (cases "m = n \<and> k = kind")
    case True
    have "\<not> marked n kind T w"
    proof
      assume "marked n kind T w"
      then obtain e where "e \<in> set (iw_marks w)" "fst e = MarkBreach n kind" "T \<le> snd e"
        by (auto simp: marked_def list_ex_iff)
      with free True now T show False by (auto simp: list_ex_iff)
    qed
    moreover have "marked n kind T (out [breach_event m k] (snd (markBreachDeduped env m k w)))"
      unfolding mb if_not_P [OF free] snd_conv using True now T by (simp add: marked_def iw_simps)
    ultimately show ?thesis using True by (simp add: potential_def)
  next
    case False
    then show ?thesis by (intro potential_le) (auto simp: mb marked_def iw_simps)
  qed
qed

lemma trigger_potential: "potential n kind T (triggerEscalationOnBreach env r w) = potential n kind T w"
  by (rule potential_cong) (simp_all add: iw_simps)

lemma entry_potential: "potential n kind T (out es (system_entry env m ev t w)) = potential n kind T (out es w)"
  by (rule potential_cong) (simp_all add: iw_simps breaches_def)

lemma sla_one_potential:
  assumes vk: "ie_vk env" and now: "t0 \<le> ie_now env" "ie_now env < t0 + 24 * go_hour" and T: "T = t0 + 24 * go_hour"
  shows "potential n kind T (sla_one env w r) \<le> potential n kind T w"
proof -
  note mp = mark_potential [OF vk now T, where n = n and kind = kind]
  have 1: "potential n kind T (sweep_respond env r w) \<le> potential n kind T w" for w
    unfolding sweep_respond_def claim_case breach_event_kinds
    by (simp add: trigger_potential entry_potential mp)
  have 2: "potential n kind T (sweep_resolve env r w) \<le> potential n kind T w" for w
    unfolding sweep_resolve_def claim_case breach_event_kinds
    by (simp add: entry_potential mp)
  have nudge: "marked n kind T (snd (markCommsNudgeDeduped env m w))" if "marked n kind T w" for w m
    using that by (simp add: markCommsNudgeDeduped_def set_mark_def marked_def)
  have frame: "marked n kind T (nudgeCommander r (out es (system_entry env m ev t w))) = marked n kind T w" for es m ev t w
    by (simp add: marked_def iw_simps)
  have 3: "potential n kind T (sweepCommsStaleness env r w) \<le> potential n kind T w" for w
    unfolding sweepCommsStaleness_def claim_case
    by (rule potential_le) (simp_all add: frame nudge)
  show ?thesis unfolding sla_one_def by (rule order_trans [OF 3 order_trans [OF 2 1]])
qed

definition reopens :: "int \<Rightarrow> 'v inc_event \<Rightarrow> bool" where
  "reopens n e \<longleftrightarrow>
     (case e of Request q env cx i \<Rightarrow> q = RqReopen \<and> parseIncidentNumber env i = n | Tick _ \<Rightarrow> False)"

lemma request_potential:
  assumes l: "lifecycle q env cx i w = (ans, w')"
  shows "potential n kind T w' \<le> potential n kind T w + (if reopens n (Request q env cx i) then 1 else 0)"
proof (cases "q = RqEscalate")
  case True
  then have "escalated_by env w ans w'" using l escalate_effect by simp
  then have "breaches n kind w' = breaches n kind w" "marked n kind T w \<Longrightarrow> marked n kind T w'"
    by (auto simp: escalated_by_def breaches_alarms marked_def simp del: filter_filter)
  then have "potential n kind T w' \<le> potential n kind T w" by (rule potential_le)
  then show ?thesis by simp
next
  case False
  from lifecycle_effect [OF l False]
  consider "w' = w" | tab where "moved_by q env (parseIncidentNumber env i) tab w w'"
    by (auto simp: effect_def)
  then show ?thesis
  proof cases
    case 2
    then have b: "breaches n kind w' = breaches n kind w"
      by (simp add: moved_by_def breaches_alarms del: filter_filter)
    show ?thesis
    proof (cases "reopens n (Request q env cx i)")
      case True
      then show ?thesis using b by (simp add: potential_def)
    next
      case False
      then have "marked n kind T w \<Longrightarrow> marked n kind T w'"
        using 2 by (auto simp: moved_by_def marked_def ClearBreachDedupKeys_def reopens_def list_ex_iff split: if_splits)
      then have "potential n kind T w' \<le> potential n kind T w" by (rule potential_le [OF b])
      then show ?thesis by simp
    qed
  qed simp
qed

lemma run_potential:
  assumes "\<forall>e \<in> set evs. ie_vk (event_env e) \<and> t0 \<le> ie_now (event_env e) \<and> ie_now (event_env e) < t0 + 24 * go_hour"
    and T: "T = t0 + 24 * go_hour"
  shows "potential n kind T (inc_run evs w) \<le> potential n kind T w + length (filter (reopens n) evs)"
  using assms(1)
proof (induction evs arbitrary: w)
  case (Cons e evs)
  have "potential n kind T (inc_step e w) \<le> potential n kind T w + (if reopens n e then 1 else 0)"
  proof (cases e)
    case (Request q env cx i)
    obtain ans w' where "lifecycle q env cx i w = (ans, w')" by force
    with request_potential [OF this, of n kind T] show ?thesis by (simp add: Request)
  next
    case (Tick env)
    then have env: "ie_vk env" "t0 \<le> ie_now env" "ie_now env < t0 + 24 * go_hour" using Cons.prems by simp_all
    have "potential n kind T (foldl (sla_one env) w rs) \<le> potential n kind T w" for rs w
    proof (induction rs arbitrary: w)
      case (Cons r rs)
      have "potential n kind T (sla_one env w r) \<le> potential n kind T w"
        by (rule sla_one_potential [OF _ _ _ T]) (simp_all add: env)
      with Cons.IH [of "sla_one env w r"] show ?case by simp
    qed simp
    then show ?thesis by (simp add: Tick sla_tick_def reopens_def)
  qed
  with Cons.IH [of "inc_step e w"] Cons.prems show ?case by (auto simp: inc_run_def)
qed (simp add: inc_run_def)

end
