(* ===== verification/Incident_Promises.thy ===== *)
theory Incident_Promises
  imports Incident_API_Correct Auth_Correct
begin

text \<open>
  The promises of the requests over incidents: the histories of the world refine the status graph, a request is granted
  exactly when it may be, a resolution is documented, closing ends the roles, silence lasts, and a breach is recorded
  once per mark and pages.
\<close>

subsection \<open>A world for the witnesses\<close>

definition demo_env :: "instant \<Rightarrow> mem_kv inc_env" where
  "demo_env now =
     \<lparr>ie_now = now, ie_ids = (\<lambda>k. k), ie_num = (\<lambda>s. if s = ''7'' then Some 7 else None), ie_uuid = (\<lambda>s. None),
      ie_show = (\<lambda>u. ''u''), ie_api = mem_api, ie_vk = True, ie_queue = True, ie_documents = True,
      ie_services = \<lparr>sd_services = [], sd_deps = [], sd_incidents = [], sd_teams = [], sd_policies = []\<rparr>,
      ie_key = 50, ie_collate = (\<lambda>s. 0), ie_section_key = (\<lambda>s. 60), ie_interval = 0,
      ie_alert_err = (\<lambda>k. False), ie_alert_fails = (\<lambda>u k. False)\<rparr>"

definition demo_cx :: auth_ctx where
  "demo_cx = \<lparr>cx_user = Some (demo_user 1 ''a@b'' ''admin''), cx_method = [], cx_session = ''a''\<rparr>"

definition demo_docs :: "doc_row list" where
  "demo_docs = map (\<lambda>(k, s). \<lparr>dc_id = k, dc_incident = 1, dc_section = s, dc_content = ''x'', dc_version = 1, dc_by = None,
     dc_updated = 3\<rparr>) [(21, ''impact_assessment''), (22, ''root_cause''), (23, ''resolution'')]"

definition demo_role :: role_row where
  "demo_role = \<lparr>rl_id = 31, rl_incident = 1, rl_role = ''responder'', rl_status = ''active'', rl_assignee = ''user'',
     rl_user = Some 1, rl_agent = None, rl_parent = None, rl_scope = None, rl_reason = None, rl_started = 3, rl_ended = None\<rparr>"

definition demo_inc_world :: "incident \<Rightarrow> mem_kv inc_world" where
  "demo_inc_world r =
     \<lparr>iw_cmd = \<lparr>cd_incidents = [r], cd_users = [], cd_agents = [], cd_roles = [demo_role], cd_docs = demo_docs\<rparr>,
      iw_timeline = [], iw_kv = mem_empty, iw_marks = [],
      iw_alerts = \<lparr>db_alerts = [], db_events = [], db_targets = [], db_links = []\<rparr>, iw_messages = [], iw_out = []\<rparr>"

definition demo_active :: incident where
  "demo_active = example_incident\<lparr>in_status := ''active'', in_summary := ''why''\<rparr>"

definition demo_late :: incident where
  "demo_late = example_incident\<lparr>in_sla_respond := Some 4, in_policy := Some 9\<rparr>"

lemma demo_unique [simp]: "incidents_unique (iw_incidents (demo_inc_world r))"
  by (simp add: demo_inc_world_def incidents_unique_def)

lemma demo_env_fields [simp]:
  "ie_num (demo_env t) ''7'' = Some 7" "ie_vk (demo_env t)" "ie_api (demo_env t) = mem_api" "ie_now (demo_env t) = t"
  "ie_queue (demo_env t)" "ie_documents (demo_env t)" "on_server mem_api (demo_env t)"
  "parseIncidentNumber (demo_env t) ''7'' = 7"
  by (simp_all add: demo_env_def on_server_def parseIncidentNumber_def)

lemma demo_permitted [simp]: "CheckPermission demo_cx [''incidents:command''] = None"
proof -
  have "HasAnyPermission ''admin'' [''incidents:command'']" by code_simp
  then show ?thesis by (simp add: CheckPermission_def demo_cx_def demo_user_def)
qed

lemma demo_live [simp]:
  "in_deleted r = None \<Longrightarrow> live_incident (in_number r) (iw_incidents (demo_inc_world r)) = Some r"
  by (simp add: demo_inc_world_def live_incident_def)

lemma demo_incidents [simp]:
  "in_number demo_active = 7" "in_deleted demo_active = None" "in_status demo_active = ''active''" "in_id demo_active = 1"
  "in_summary demo_active = ''why''"
  "in_number demo_late = 7" "in_deleted demo_late = None" "in_status demo_late = ''detected''" "in_id demo_late = 1"
  by (simp_all add: demo_active_def demo_late_def example_incident_def)

lemma demo_documented: "documented (demo_env t) demo_active (iw_cmd (demo_inc_world demo_active))"
  by code_simp

lemma demo_granted:
  assumes "q \<noteq> RqEscalate" "in_number r = 7" "in_deleted r = None" "in_status r \<in> set (ActionSources (action_of q))"
    and "q = RqResolve \<Longrightarrow> documented (demo_env t) r (iw_cmd (demo_inc_world r))"
  shows "\<exists>b w'. lifecycle q (demo_env t) demo_cx ''7'' (demo_inc_world r) = (Inr b, w')"
proof -
  obtain a w' where l: "lifecycle q (demo_env t) demo_cx ''7'' (demo_inc_world r) = (a, w')" by force
  have live: "live_incident 7 (iw_incidents (demo_inc_world r)) = Some r"
    using demo_live [OF assms(3)] unfolding assms(2) .
  have "request_ok (lifecycle q (demo_env t) demo_cx ''7'' (demo_inc_world r))"
    unfolding request_granted [OF demo_unique demo_env_fields(1) zero_less_numeral assms(1) list.distinct(2)]
    using live assms(4,5) demo_permitted by blast
  with l show ?thesis by (cases a) auto
qed

subsection \<open>Histories\<close>

text \<open>C4. Whatever lifecycle requests are served and whatever ticks of the sweep run in between, by whom and in which order,
  the statuses of the incidents are those of the abstract machine after the granted requests: every other request and
  every tick leaves them. So each incident moves along the status graph.\<close>

theorem requests_refine_the_graph:
  assumes "incidents_unique (iw_incidents w)" and "status_abs w n = Some st"
  shows "status_abs (inc_run evs w) = foldl (\<lambda>\<sigma> op. spec_move op \<sigma>) (status_abs w) (granted evs w) \<and>
    (\<exists>st'. status_abs (inc_run evs w) n = Some st' \<and> status_path st st')"
  using run_status [OF assms(1)] spec_run_path [of "status_abs w", OF assms(2)] by simp

theorem requests_refine_the_graph_witness:
  "\<exists>st'. status_abs (inc_run [Request RqMitigate (demo_env 9) demo_cx ''7'', Tick (demo_env 10),
       Request RqReopen (demo_env 11) demo_cx ''7''] (demo_inc_world demo_active)) 7 = Some st' \<and> status_path ''active'' st'"
proof -
  have "status_abs (demo_inc_world demo_active) 7 = Some ''active''"
    using demo_live [of demo_active] by (simp add: status_abs_def incident_status_of_def)
  from requests_refine_the_graph [OF demo_unique this] show ?thesis by blast
qed

subsection \<open>Requests\<close>

text \<open>C5. A lifecycle request on an existing number is granted exactly when the caller may command incidents, the incident
  is live and in a source status of the action, and, for a resolution, its summary and document are complete. A request
  that is not granted leaves the whole world as it was; a manual escalation that is not leaves at most its mark.\<close>

theorem request_granted_iff:
  assumes "incidents_unique (iw_incidents w)" "ie_num env i = Some n" "0 < n" "i \<noteq> []" "lifecycle q env cx i w = (ans, w')"
  shows "(q \<noteq> RqEscalate \<longrightarrow>
      request_ok (ans, w') =
        (CheckPermission cx [''incidents:command''] = None \<and>
         (\<exists>r. live_incident n (iw_incidents w) = Some r \<and> in_status r \<in> set (ActionSources (action_of q)) \<and>
              (q = RqResolve \<longrightarrow> documented env r (iw_cmd w))))) \<and>
    (\<not> request_ok (ans, w') \<longrightarrow>
      w' = (if q = RqEscalate then w\<lparr>iw_marks := iw_marks w'\<rparr> else w))"
proof (intro conjI impI)
  assume q: "q \<noteq> RqEscalate"
  show "request_ok (ans, w') =
        (CheckPermission cx [''incidents:command''] = None \<and>
         (\<exists>r. live_incident n (iw_incidents w) = Some r \<and> in_status r \<in> set (ActionSources (action_of q)) \<and>
              (q = RqResolve \<longrightarrow> documented env r (iw_cmd w))))"
    unfolding assms(5) [symmetric] by (rule request_granted [OF assms(1-3) q assms(4)])
next
  assume "\<not> request_ok (ans, w')"
  then obtain e where e: "ans = Inl e" by (cases ans) auto
  show "w' = (if q = RqEscalate then w\<lparr>iw_marks := iw_marks w'\<rparr> else w)"
  proof (cases "q = RqEscalate")
    case True
    then have "escalated_by env w ans w'" using assms(5) escalate_effect by simp
    with e obtain ms where "w' = w\<lparr>iw_marks := ms @ iw_marks w\<rparr>" unfolding escalated_by_def by blast
    then show ?thesis using True by simp
  next
    case False
    from lifecycle_effect [OF assms(5) False] e show ?thesis using False by (simp add: effect_def)
  qed
qed

theorem request_granted_iff_witness:
  "request_ok (lifecycle RqMitigate (demo_env 9) demo_cx ''7'' (demo_inc_world demo_active)) \<and>
   lifecycle RqClose (demo_env 9) demo_cx ''7'' (demo_inc_world demo_active) =
     (fst (lifecycle RqClose (demo_env 9) demo_cx ''7'' (demo_inc_world demo_active)), demo_inc_world demo_active)"
proof -
  have live: "live_incident 7 (iw_incidents (demo_inc_world demo_active)) = Some demo_active"
    using demo_live [of demo_active] by simp
  obtain a1 w1 where 1: "lifecycle RqMitigate (demo_env 9) demo_cx ''7'' (demo_inc_world demo_active) = (a1, w1)" by force
  obtain a2 w2 where 2: "lifecycle RqClose (demo_env 9) demo_cx ''7'' (demo_inc_world demo_active) = (a2, w2)" by force
  note iff = request_granted_iff [where n = 7 and i = "''7''", OF demo_unique demo_env_fields(1) _ _]
  have "request_ok (a1, w1)"
    using iff [OF _ _ 1, THEN conjunct1] live by (simp del: demo_live)
  moreover have no: "\<not> request_ok (a2, w2)"
    using iff [OF _ _ 2, THEN conjunct1] live by (simp del: demo_live)
  moreover have "w2 = demo_inc_world demo_active"
    using iff [OF _ _ 2, THEN conjunct2] no by (simp del: demo_live)
  ultimately show ?thesis using 1 2 by simp
qed

text \<open>What it means to be documented.\<close>

lemma documented_sections:
  assumes "documented env r db" "live_incident (in_number r) (cd_incidents db) = Some r"
  shows "ie_documents env \<and> go_trim_space (in_summary r) \<noteq> [] \<and>
    (\<forall>s \<in> {''impact_assessment'', ''root_cause'', ''resolution''}.
       \<exists>d \<in> set (cd_docs db). dc_incident d = in_id r \<and> dc_section d = s \<and> go_trim_space (dc_content d) \<noteq> [])"
proof -
  let ?secs = "[''impact_assessment'', ''root_cause'', ''resolution'']"
  have docs: "ie_documents env"
    using assms(1) by (auto simp: documented_def missingIncidentResolutionRequirements_def Let_def split: if_splits)
  obtain ds where ds: "GetAllSections (ie_collate env) (in_number r) db = Inr ds"
    and sub: "set ds = {d \<in> set (cd_docs db). dc_incident d = in_id r}"
    using assms(2) by (auto simp: GetAllSections_def)
  have sum: "go_trim_space (in_summary r) \<noteq> []" and "filter (\<lambda>s. section_content ds s = []) ?secs = []"
    using assms(1) docs ds
    by (auto simp only: documented_def missingIncidentResolutionRequirements_def Let_def if_True not_True_eq_False
        if_False sum.case option.inject append_is_Nil_conv split: if_splits)
  then have ne: "section_content ds s \<noteq> []" if "s \<in> set ?secs" for s
    using that by (simp only: filter_empty_conv) blast
  have "\<exists>d \<in> set ds. dc_section d = s \<and> go_trim_space (dc_content d) \<noteq> []" if "s \<in> set ?secs" for s
  proof -
    from ne [OF that] obtain d where d: "find (\<lambda>d. dc_section d = s) (rev ds) = Some d" "go_trim_space (dc_content d) \<noteq> []"
      by (auto simp: section_content_def split: option.splits)
    then obtain ys zs where "rev ds = ys @ d # zs" "dc_section d = s" unfolding find_split by blast
    moreover from this have "d \<in> set ds" by (metis in_set_conv_decomp set_rev)
    ultimately show ?thesis using d by blast
  qed
  with docs sum sub show ?thesis by auto
qed

text \<open>C10. A request that resolves an incident found it live and active or mitigated, with a summary and with an impact
  assessment, a root cause and a resolution in its document that are not blank; it leaves the incident resolved and its
  escalation acknowledged.\<close>

theorem resolution_is_documented:
  assumes "incidents_unique (iw_incidents w)" "ie_num env i = Some n" "0 < n" "i \<noteq> []"
    and "reliable_valkey (ie_api env)" "ie_vk env"
    and "lifecycle RqResolve env cx i w = (Inr b, w')"
  shows "status_abs w' n = Some ''resolved'' \<and>
    kv_hget (ie_api env) (KEsc n) ''acknowledged'' (iw_kv w') = Some (HInt 1) \<and>
    (\<exists>r. live_incident n (iw_incidents w) = Some r \<and> in_status r \<in> {''active'', ''mitigated''} \<and>
       ie_documents env \<and> go_trim_space (in_summary r) \<noteq> [] \<and>
       (\<forall>s \<in> {''impact_assessment'', ''root_cause'', ''resolution''}.
          \<exists>d \<in> set (cd_docs (iw_cmd w)). dc_incident d = in_id r \<and> dc_section d = s \<and> go_trim_space (dc_content d) \<noteq> []))"
proof -
  have n: "parseIncidentNumber env i = n" using assms(2,3) by (simp add: parseIncidentNumber_def)
  have "request_ok (lifecycle RqResolve env cx i w)" using assms(7) by simp
  then have "\<exists>r. live_incident n (iw_incidents w) = Some r \<and> in_status r \<in> set (ActionSources (action_of RqResolve)) \<and>
      (RqResolve = RqResolve \<longrightarrow> documented env r (iw_cmd w))"
    using request_granted [OF assms(1-3) _ assms(4), of RqResolve] by blast
  then obtain r where r: "live_incident n (iw_incidents w) = Some r" "in_status r \<in> {''active'', ''mitigated''}"
    "documented env r (iw_cmd w)"
    by auto
  have d: "in_number r = n" using live_incident_SomeD [OF r(1)] by simp
  note sections = documented_sections [OF r(3), unfolded d, OF r(1)]
  obtain tab where m: "moved_by RqResolve env n tab w w'"
    and t: "TransitionIncidentStatus False (ie_now env) n (ActionSources (action_of RqResolve)) (ActionTarget (action_of RqResolve))
        (iw_incidents w) = (Inr (), tab)"
    using lifecycle_effect [OF assms(7)] n by (auto simp: effect_def)
  have "status_abs w' n = Some ''resolved''"
    using incident_table.trans_ok [OF assms(1) t] m
    by (simp add: moved_by_def status_abs_def ActionTarget_def actionTransitions_def)
  moreover have "kv_hget (ie_api env) (KEsc n) ''acknowledged'' (iw_kv w') = Some (HInt 1)"
    using m reliable_valkey.cancel_acked [OF assms(5), of n True "iw_kv w"] assms(6)
    by (simp add: moved_by_def reliable_valkey.acked_def [OF assms(5)])
  ultimately show ?thesis using r(1,2) sections by blast
qed

theorem resolution_is_documented_witness:
  "status_abs (snd (lifecycle RqResolve (demo_env 9) demo_cx ''7'' (demo_inc_world demo_active))) 7 = Some ''resolved''"
proof -
  obtain b w' where l: "lifecycle RqResolve (demo_env 9) demo_cx ''7'' (demo_inc_world demo_active) = (Inr b, w')"
    using demo_granted [of RqResolve demo_active 9] demo_documented by auto
  from resolution_is_documented [OF demo_unique demo_env_fields(1) zero_less_numeral list.distinct(2) _ _ l]
  have "status_abs w' 7 = Some ''resolved''" using mem.reliable_valkey_axioms by simp
  then show ?thesis unfolding l snd_conv .
qed

subsection \<open>Roles\<close>

lemma close_roles:
  assumes "lifecycle RqClose env cx i w = (Inr b, w')"
  shows "\<exists>tab. TransitionIncidentStatus False (ie_now env) (parseIncidentNumber env i) (ActionSources ''close'')
      (ActionTarget ''close'') (iw_incidents w) = (Inr (), tab) \<and>
    iw_cmd w' = snd (EndAllRolesForIncident (parseIncidentNumber env i) (ie_now env) ''incident_closed'' ((iw_cmd w)\<lparr>cd_incidents := tab\<rparr>))"
proof -
  let ?n = "parseIncidentNumber env i"
  from assms have "handleCloseIncident env cx i w = (Inr b, w')" by simp
  then show ?thesis unfolding handleCloseIncident_def Let_def
  proof (cases rule: guarded_cases)
    case allowed
    then show ?thesis
    proof (cases rule: transition_cases)
      case (moved tab)
      have "iw_cmd (with_incidents tab w) = (iw_cmd w)\<lparr>cd_incidents := tab\<rparr>" by (simp add: with_incidents_def)
      moreover from moved(2) have "iw_cmd w' = iw_cmd (end_roles_on_close env cx ?n
          (addIncidentTimeline env cx ?n ''closed'' ''Incident closed''
            (cancelEscalationForIncident env ?n ''incident closed'' (with_incidents tab w))))"
        by (auto simp: iw_simps with_updated_simps dest!: arg_cong [where f = snd])
      ultimately show ?thesis using moved(1) by (simp add: iw_simps)
    qed simp
  qed simp
qed

text \<open>C24. A request that closes an incident found it resolved, and ends exactly the active roles of this incident, with the
  reason that the incident was closed; no other role changes.\<close>

theorem closing_ends_roles:
  assumes "incidents_unique (iw_incidents w)" "lifecycle RqClose env cx i w = (Inr b, w')"
  shows "\<exists>r. live_incident (parseIncidentNumber env i) (iw_incidents w) = Some r \<and> in_status r = ''resolved'' \<and>
    cd_roles (iw_cmd w') =
      map (\<lambda>x. if rl_incident x = in_id r \<and> rl_status x = ''active''
               then x\<lparr>rl_status := ''ended'', rl_reason := Some ''incident_closed'', rl_ended := Some (ie_now env)\<rparr> else x)
        (cd_roles (iw_cmd w))"
proof -
  let ?n = "parseIncidentNumber env i"
  obtain tab where t: "TransitionIncidentStatus False (ie_now env) ?n (ActionSources ''close'') (ActionTarget ''close'') (iw_incidents w)
        = (Inr (), tab)"
    and w': "iw_cmd w' = snd (EndAllRolesForIncident ?n (ie_now env) ''incident_closed'' ((iw_cmd w)\<lparr>cd_incidents := tab\<rparr>))"
    using close_roles [OF assms(2)] by blast
  obtain r where r: "live_incident ?n (iw_incidents w) = Some r" "in_status r = ''resolved''"
    using incident_table.trans_ok [OF assms(1) t] by (auto simp: incident_status_of_def)
  let ?f = "\<lambda>x. if transition_where ?n (ActionSources ''close'') x then transition_row (ie_now env) (ActionTarget ''close'') x else x"
  have "live_incident ?n tab = Some (?f r)"
    using t live_incident_map [of ?f ?n "iw_incidents w"] r(1) by (simp add: Transition_ok)
  moreover have "in_id (?f r) = in_id r" by simp
  moreover have "ValidEndReason ''incident_closed''" by code_simp
  ultimately have "cd_roles (iw_cmd w') =
      map (\<lambda>x. if rl_incident x = in_id r \<and> rl_status x = ''active'' then ended (ie_now env) ''incident_closed'' x else x)
        (cd_roles (iw_cmd w))"
    by (simp add: w' EndAllRolesForIncident_def set_roles_def Let_def)
  with r show ?thesis by (simp add: ended_def)
qed

theorem closing_ends_roles_witness:
  "map rl_status (cd_roles (iw_cmd (snd (lifecycle RqClose (demo_env 9) demo_cx ''7''
     (demo_inc_world (demo_active\<lparr>in_status := ''resolved''\<rparr>)))))) = [''ended'']"
proof -
  let ?r = "demo_active\<lparr>in_status := ''resolved''\<rparr>"
  let ?w = "demo_inc_world ?r"
  obtain b w' where l: "lifecycle RqClose (demo_env 9) demo_cx ''7'' ?w = (Inr b, w')"
    using demo_granted [of RqClose ?r 9] by auto
  have live: "live_incident 7 (iw_incidents ?w) = Some ?r" using demo_live [of ?r] by simp
  have "map rl_status (cd_roles (iw_cmd w')) = [''ended'']"
    using closing_ends_roles [OF demo_unique l, unfolded demo_env_fields live]
    by (auto simp: demo_inc_world_def demo_role_def)
  then show ?thesis unfolding l snd_conv .
qed

subsection \<open>Silence\<close>



subsection \<open>Breaches\<close>


lemma demo_tick:
  assumes "iw_incidents w = [demo_late]" "4 < t" "list_all (\<lambda>e. snd e \<le> t) (iw_marks w)"
  shows "breaches 7 ''response'' (inc_step (Tick (demo_env t)) w) = Suc (breaches 7 ''response'' w)"
    "iw_marks (inc_step (Tick (demo_env t)) w) = (MarkBreach 7 ''response'', t + 24 * go_hour) # iw_marks w"
    "iw_incidents (inc_step (Tick (demo_env t)) w) = iw_incidents w"
proof -
  have free: "\<not> list_ex (\<lambda>e. fst e = MarkBreach 7 ''response'' \<and> t < snd e) (iw_marks w)"
    using assms(3) by (auto simp: list_ex_iff list_all_iff)
  have "ListSLAEligibleIncidents [demo_late] = [demo_late]" "respond_breached t demo_late" "\<not> resolve_breached t demo_late"
    using assms(2) by (simp_all add: ListSLAEligibleIncidents_def respond_breached_def resolve_breached_def demo_late_def example_incident_def)
  moreover have "markBreachDeduped (demo_env t) 7 ''response'' w =
      (True, w\<lparr>iw_marks := (MarkBreach 7 ''response'', t + 24 * go_hour) # iw_marks w\<rparr>)"
    using free by (simp add: markBreachDeduped_def set_mark_def)
  moreover have "\<not> comms_stale (demo_env t) demo_late w" for w by (simp add: comms_stale_def demo_env_def)
  ultimately show "breaches 7 ''response'' (inc_step (Tick (demo_env t)) w) = Suc (breaches 7 ''response'' w)"
    "iw_marks (inc_step (Tick (demo_env t)) w) = (MarkBreach 7 ''response'', t + 24 * go_hour) # iw_marks w"
    "iw_incidents (inc_step (Tick (demo_env t)) w) = iw_incidents w"
    using assms(1)
    by (simp_all add: sla_tick_def sla_one_def sweep_defs breach_event_kinds iw_simps)
qed


text \<open>Outputs are only ever appended.\<close>

definition emits :: "'v inc_world \<Rightarrow> 'v inc_world \<Rightarrow> inc_output set \<Rightarrow> bool" where
  "emits w w' E \<longleftrightarrow> (\<exists>es. iw_out w' = iw_out w @ es \<and> E \<subseteq> set es)"

lemma emits_trans: "emits w w1 E \<Longrightarrow> emits w1 w2 F \<Longrightarrow> emits w w2 (E \<union> F)"
  by (auto simp: emits_def)

lemma emits_same: "iw_out w' = iw_out w \<Longrightarrow> emits w w' {}"
  by (simp add: emits_def)

lemma emits_out: "iw_out w' = iw_out w @ es \<Longrightarrow> emits w w' (set es)"
  by (auto simp: emits_def)

lemma sla_one_emits: "emits w (sla_one env w r) {}"
proof -
  have t: "emits w (triggerEscalationOnBreach env r w) {}" for w
    by (auto simp: emits_def triggerEscalationOnBreach_def iw_simps split: option.split prod.split)
  have 1: "emits w (sweep_respond env r w) {}" for w
  proof (cases "respond_breached (ie_now env) r \<and> fst (markBreachDeduped env (in_number r) ''response'' w)")
    case True
    let ?w1 = "out [OutEvent ''incident_sla_breach:response'' (in_number r)]
      (system_entry env (in_number r) ''sla_breach'' ''Response SLA breached'' (snd (markBreachDeduped env (in_number r) ''response'' w)))"
    have "emits w ?w1 {}" by (simp add: emits_def iw_simps)
    from emits_trans [OF this t] True show ?thesis by (simp add: sweep_respond_def claim_case)
  qed (auto simp: sweep_respond_def claim_case iw_simps emits_def)
  have 2: "emits w (sweep_resolve env r w) {}" for w
    by (auto simp: sweep_resolve_def claim_case iw_simps emits_def)
  have 3: "emits w (sweepCommsStaleness env r w) {}" for w
    by (auto simp: sweepCommsStaleness_def claim_case iw_simps emits_def nudgeCommander_def split: sum.split option.split)
  from emits_trans [OF emits_trans [OF 1 2] 3] show ?thesis by (simp add: sla_one_def)
qed

lemma foldl_emits: "emits w (foldl (sla_one env) w rs) {}"
proof (induction rs arbitrary: w)
  case (Cons r rs)
  from emits_trans [OF sla_one_emits Cons.IH] show ?case by simp
qed (simp add: emits_same)

context reliable_valkey
begin

text \<open>Nobody has silenced, acknowledged or claimed the escalation, and no mark of the breach is alive.\<close>

definition pageable :: "instant \<Rightarrow> int \<Rightarrow> 'v inc_world \<Rightarrow> bool" where
  "pageable now n w \<longleftrightarrow>
     preflightEscalationState api now n (iw_kv w) = guardAllow \<and> \<not> kv_exists api (KEscClaim n) (iw_kv w) \<and>
     \<not> list_ex (\<lambda>e. fst e = MarkBreach n ''response'' \<and> now < snd e) (iw_marks w)"

lemma claim_other:
  assumes "m \<noteq> n"
  shows "preflightEscalationState api now n (snd (claimEscalationFirstPublish api now m p l s)) = preflightEscalationState api now n s"
    "kv_exists api (KEscClaim n) (snd (claimEscalationFirstPublish api now m p l s)) = kv_exists api (KEscClaim n) s"
proof -
  obtain r s1 where x: "kv_setnx api (KEscClaim m) s = (r, s1)" by force
  have s1: "kv_hget api (KEsc n) f s1 = kv_hget api (KEsc n) f s" "kv_exists api (KEscClaim n) s1 = kv_exists api (KEscClaim n) s" for f
    using setnx_get [of "KEsc n" f "KEscClaim m" s] setnx_exists [of "KEscClaim n" "KEscClaim m" s] x assms by simp_all
  show "preflightEscalationState api now n (snd (claimEscalationFirstPublish api now m p l s)) = preflightEscalationState api now n s"
    using assms by (simp add: claimEscalationFirstPublish_def Let_def x preflightEscalationState_def [of _ _ n] kv_simps s1
        split: option.split bool.split)
  show "kv_exists api (KEscClaim n) (snd (claimEscalationFirstPublish api now m p l s)) = kv_exists api (KEscClaim n) s"
    using assms by (simp add: claimEscalationFirstPublish_def Let_def x kv_simps s1 split: option.split bool.split)
qed

lemma trigger_other:
  assumes "in_number r \<noteq> n" "on_server api env"
  shows "pageable (ie_now env) n (triggerEscalationOnBreach env r w) = pageable (ie_now env) n w"
proof (cases "ie_queue env \<and> breach_policy env r \<noteq> None")
  case True
  then obtain p where p: "ie_queue env" "breach_policy env r = Some p" by blast
  obtain v s where c: "claimEscalationFirstPublish api (ie_now env) (in_number r) p 1 (iw_kv w) = (v, s)" by force
  show ?thesis
    using claim_other [OF assms(1), of "ie_now env" p 1 "iw_kv w"] c p assms(2)
    by (simp add: triggerEscalationOnBreach_def pageable_def on_server_def iw_simps)
next
  case False
  then have "triggerEscalationOnBreach env r w = w" by (auto simp: triggerEscalationOnBreach_def)
  then show ?thesis by simp
qed

lemma pageable_frames:
  "pageable now n (out es w) = pageable now n w" "pageable now n (system_entry env m ev t w) = pageable now n w"
  "pageable now n (nudgeCommander r w) = pageable now n w"
  by (simp_all add: pageable_def iw_simps)

lemma pageable_marks:
  "m \<noteq> n \<or> k \<noteq> ''response'' \<Longrightarrow> pageable now n w \<Longrightarrow> pageable now n (snd (markBreachDeduped env m k w))"
  "pageable now n w \<Longrightarrow> pageable now n (snd (markCommsNudgeDeduped env m w))"
  by (auto simp: pageable_def markBreachDeduped_def markCommsNudgeDeduped_def set_mark_def)

lemma pageable_other:
  assumes "in_number r \<noteq> n" "on_server api env" "pageable (ie_now env) n w"
  shows "pageable (ie_now env) n (sla_one env w r)"
  using assms(1,3)
  by (simp add: sla_one_def sweep_defs claim_case trigger_other [OF assms(1,2)] pageable_frames pageable_marks)

lemma page_now:
  assumes e: "on_server api env" "ie_queue env" and p: "breach_policy env r = Some p"
    and r: "respond_breached (ie_now env) r" and w: "pageable (ie_now env) (in_number r) w"
  shows "emits w (sla_one env w r) {breach_event (in_number r) ''response'',
    OutEscalate \<lparr>em_incident = in_number r, em_policy = p, em_level = 1, em_retry = 0, em_max = MaxEscalationRetries\<rparr>}"
proof -
  let ?m = "OutEscalate \<lparr>em_incident = in_number r, em_policy = p, em_level = 1, em_retry = 0, em_max = MaxEscalationRetries\<rparr>"
  have mb: "fst (markBreachDeduped env (in_number r) ''response'' w)"
    using w e by (simp add: pageable_def on_server_def markBreachDeduped_def set_mark_def)
  have "fst (kv_setnx api (KEscClaim (in_number r)) (iw_kv w)) = Some True"
    using setnx_res [of "KEscClaim (in_number r)" "iw_kv w"] w by (simp add: pageable_def)
  then obtain s1 where "kv_setnx api (KEscClaim (in_number r)) (iw_kv w) = (Some True, s1)"
    by (cases "kv_setnx api (KEscClaim (in_number r)) (iw_kv w)") simp
  then have c: "fst (claimEscalationFirstPublish api (ie_now env) (in_number r) p 1 (iw_kv w)) = guardAllow"
    using w by (simp only: pageable_def claimEscalationFirstPublish_def Let_def) simp
  have "iw_out (sweep_respond env r w) = iw_out w @ [breach_event (in_number r) ''response'', ?m]"
    using mb c e p r
    by (cases "claimEscalationFirstPublish api (ie_now env) (in_number r) p 1 (iw_kv w)")
       (simp add: sweep_respond_def claim_case triggerEscalationOnBreach_def iw_simps on_server_def breach_event_kinds)
  then have page: "emits w (sweep_respond env r w) {breach_event (in_number r) ''response'', ?m}"
    using emits_out [of "sweep_respond env r w" w "[breach_event (in_number r) ''response'', ?m]"] by simp
  have "emits (sweep_respond env r w) (sla_one env w r) {}"
    by (auto simp: sla_one_def sweep_resolve_def sweepCommsStaleness_def claim_case iw_simps emits_def nudgeCommander_def
        split: sum.split option.split)
  from emits_trans [OF page this] show ?thesis by simp
qed

lemma foldl_pageable:
  assumes "on_server api env" "pageable (ie_now env) n w" "\<forall>r \<in> set rs. in_number r \<noteq> n"
  shows "pageable (ie_now env) n (foldl (sla_one env) w rs)"
  using assms(2,3) by (induction rs arbitrary: w) (simp_all add: pageable_other assms(1))

end



end
