(* ===== verification/Heartbeat.thy ===== *)
theory Heartbeat
  imports Auth Incident_Queries Ingest
begin

text \<open>
  Heartbeats: jobs that report in, and raise an alert when they stop. The table of \<^verbatim>\<open>store/heartbeat.go\<close> with the
  constraints of migration \<^verbatim>\<open>00011_ops_config.sql\<close>, the sweep of \<^verbatim>\<open>worker/heartbeat_sweep.go\<close>, the handlers of
  \<^verbatim>\<open>api/heartbeat.go\<close>, and \<^verbatim>\<open>IngestManualAlert\<close> of \<^verbatim>\<open>webhook/receiver.go\<close>, over the interface of the alert store.

  A sweep lists the expired heartbeats first and handles them one by one, so the list it still has to handle is part of
  the state: requests and pings of the same replica run in between.
\<close>

subsection \<open>The table\<close>

record heartbeat =
  hb_id :: uuid
  hb_name :: string
  hb_description :: string
  hb_interval :: int \<comment> \<open>seconds\<close>
  hb_grace :: int
  hb_enabled :: bool
  hb_owner :: "uuid option"
  hb_status :: string
  hb_severity :: string
  hb_labels :: strmap
  hb_hash :: string
  hb_prefix :: string
  hb_ping :: "instant option"
  hb_expires :: "instant option"
  hb_breach :: "instant option"
  hb_by :: string
  hb_created :: instant
  hb_updated :: instant

datatype hb_error = HeartbeatInvalid string | HeartbeatConstraint | ErrHeartbeatNotFound

definition hb_int32 :: "int \<Rightarrow> bool" where
  "hb_int32 n = (- (2 ^ 31) \<le> n \<and> n < 2 ^ 31)"

text \<open>The checks of a row.\<close>

definition hb_checks :: "uuid list \<Rightarrow> heartbeat \<Rightarrow> bool" where
  "hb_checks teams r \<longleftrightarrow>
     hb_name r \<noteq> [] \<and> hb_int32 (hb_interval r) \<and> 0 < hb_interval r \<and> hb_int32 (hb_grace r) \<and> 0 \<le> hb_grace r \<and>
     List.member [''healthy'', ''expired''] (hb_status r) \<and>
     List.member [''critical'', ''warning'', ''info''] (hb_severity r) \<and> hb_hash r \<noteq> [] \<and> hb_prefix r \<noteq> [] \<and>
     (case hb_owner r of None \<Rightarrow> True | Some t \<Rightarrow> List.member teams t)"

text \<open>\<^verbatim>\<open>time.Duration(interval+grace) * time.Second\<close> in 64 bits.\<close>

definition hb_span :: "int \<Rightarrow> int \<Rightarrow> int" where
  "hb_span interval grace = wrap64 (wrap64 (interval + grace) * go_second)"

record hb_draft =
  hd_name :: string
  hd_description :: string
  hd_interval :: int
  hd_grace :: int
  hd_enabled :: bool
  hd_owner :: "uuid option"
  hd_status :: string
  hd_severity :: string
  hd_labels :: "strmap option"
  hd_by :: string

definition hb_Create ::
    "token_hashes \<Rightarrow> uuid list \<Rightarrow> uuid \<Rightarrow> string \<Rightarrow> instant \<Rightarrow> hb_draft \<Rightarrow> heartbeat list
     \<Rightarrow> (hb_error + heartbeat) \<times> heartbeat list" where
  "hb_Create h teams key token now d tab =
     (if hd_interval d \<le> 0 then (Inl (HeartbeatInvalid ''interval_seconds must be positive''), tab)
      else
        let grace = (if hd_grace d < 0 then 0 else hd_grace d);
            r = \<lparr>hb_id = key, hb_name = hd_name d, hb_description = hd_description d, hb_interval = hd_interval d,
                 hb_grace = grace, hb_enabled = hd_enabled d, hb_owner = hd_owner d,
                 hb_status = (if hd_status d = [] then ''healthy'' else hd_status d),
                 hb_severity = (if hd_severity d = [] then ''warning'' else hd_severity d),
                 hb_labels = (case hd_labels d of None \<Rightarrow> [] | Some l \<Rightarrow> l), hb_hash = th_hmac h token,
                 hb_prefix = lookupPrefix h token, hb_ping = None,
                 hb_expires = Some (now + hb_span (hd_interval d) grace), hb_breach = None, hb_by = hd_by d,
                 hb_created = now, hb_updated = now\<rparr>
        in if \<not> hb_checks teams r \<or> list_ex (\<lambda>q. hb_id q = key \<or> hb_hash q = hb_hash r) tab
           then (Inl HeartbeatConstraint, tab) else (Inr r, tab @ [r]))"

definition hb_find :: "uuid \<Rightarrow> heartbeat list \<Rightarrow> heartbeat option" where
  "hb_find k tab = find (\<lambda>r. hb_id r = k) tab"

definition hb_put :: "heartbeat \<Rightarrow> heartbeat list \<Rightarrow> heartbeat list" where
  "hb_put r tab = map (\<lambda>q. if hb_id q = hb_id r then r else q) tab"

text \<open>A patch takes its zero values for absent, except for the grace period: a zero is written.\<close>

record hb_patch =
  hp_name :: string
  hp_description :: string
  hp_interval :: int
  hp_grace :: int
  hp_severity :: string
  hp_labels :: "strmap option"
  hp_owner :: "uuid option"
  hp_enabled :: "bool option"

definition hb_patched :: "instant \<Rightarrow> hb_patch \<Rightarrow> heartbeat \<Rightarrow> heartbeat" where
  "hb_patched now p r =
     (let r1 = r\<lparr>hb_updated := now,
             hb_name := (if hp_name p \<noteq> [] then hp_name p else hb_name r),
             hb_description := (if hp_description p \<noteq> [] then hp_description p else hb_description r),
             hb_interval := (if 0 < hp_interval p then hp_interval p else hb_interval r),
             hb_grace := (if 0 \<le> hp_grace p then hp_grace p else hb_grace r),
             hb_severity := (if hp_severity p \<noteq> [] then hp_severity p else hb_severity r),
             hb_labels := (case hp_labels p of Some l \<Rightarrow> l | None \<Rightarrow> hb_labels r),
             hb_owner := (case hp_owner p of Some t \<Rightarrow> Some t | None \<Rightarrow> hb_owner r),
             hb_enabled := (case hp_enabled p of Some b \<Rightarrow> b | None \<Rightarrow> hb_enabled r)\<rparr>
      in if 0 < hp_interval p \<or> 0 \<le> hp_grace p
         then r1\<lparr>hb_expires := Some ((case hb_ping r of Some t \<Rightarrow> t | None \<Rightarrow> now) + hb_span (hb_interval r1) (hb_grace r1)),
                 hb_status := ''healthy''\<rparr>
         else r1)"

definition hb_Update ::
    "uuid list \<Rightarrow> uuid \<Rightarrow> instant \<Rightarrow> hb_patch \<Rightarrow> heartbeat list \<Rightarrow> (hb_error + heartbeat) \<times> heartbeat list" where
  "hb_Update teams k now p tab =
     (case hb_find k tab of
        None \<Rightarrow> (Inl ErrHeartbeatNotFound, tab)
      | Some r \<Rightarrow>
          let r' = hb_patched now p r
          in if \<not> hb_checks teams r' then (Inl HeartbeatConstraint, tab) else (Inr r', hb_put r' tab))"

definition hb_Delete :: "uuid \<Rightarrow> heartbeat list \<Rightarrow> hb_error option \<times> heartbeat list" where
  "hb_Delete k tab =
     (case hb_find k tab of
        None \<Rightarrow> (Some ErrHeartbeatNotFound, tab)
      | Some _ \<Rightarrow> (None, filter (\<lambda>r. hb_id r \<noteq> k) tab))"

record hb_query =
  hq_enabled :: "bool option"
  hq_status :: string
  hq_owner :: "uuid option"
  hq_search :: string
  hq_limit :: int
  hq_skip :: int

definition hb_selected :: "hb_query \<Rightarrow> heartbeat \<Rightarrow> bool" where
  "hb_selected q r \<longleftrightarrow>
     (case hq_enabled q of None \<Rightarrow> True | Some b \<Rightarrow> hb_enabled r = b) \<and>
     (hq_status q = [] \<or> hb_status r = hq_status q) \<and>
     (case hq_owner q of None \<Rightarrow> True | Some t \<Rightarrow> hb_owner r = Some t) \<and>
     (hq_search q = [] \<or> sql_like (''%'' @ hq_search q @ ''%'') (hb_name r))"

definition hb_List :: "hb_query \<Rightarrow> heartbeat list \<Rightarrow> heartbeat list \<times> nat" where
  "hb_List q tab =
     (let sel = filter (hb_selected q) tab;
          sorted = sort_key (\<lambda>r. - hb_created r) sel;
          rest = (if 0 < hq_skip q then drop (nat (hq_skip q)) sorted else sorted)
      in (if 0 < hq_limit q then take (nat (hq_limit q)) rest else rest, length sel))"

definition hb_RegenerateToken ::
    "token_hashes \<Rightarrow> string \<Rightarrow> uuid \<Rightarrow> instant \<Rightarrow> heartbeat list \<Rightarrow> (hb_error + heartbeat) \<times> heartbeat list" where
  "hb_RegenerateToken h token k now tab =
     (case hb_find k tab of
        None \<Rightarrow> (Inl ErrHeartbeatNotFound, tab)
      | Some r \<Rightarrow>
          let r' = r\<lparr>hb_hash := th_hmac h token, hb_prefix := lookupPrefix h token, hb_updated := now\<rparr>
          in if th_hmac h token = [] \<or> list_ex (\<lambda>q. hb_id q \<noteq> k \<and> hb_hash q = th_hmac h token) tab
             then (Inl HeartbeatConstraint, tab) else (Inr r', hb_put r' tab))"

definition hb_GetByPingToken :: "token_hashes \<Rightarrow> string \<Rightarrow> heartbeat list \<Rightarrow> heartbeat option" where
  "hb_GetByPingToken h token tab =
     (if token = [] then None
      else find (\<lambda>r. hb_prefix r = lookupPrefix h token \<and> hb_hash r = th_hmac h token) tab)"

definition hb_pinged :: "instant \<Rightarrow> heartbeat \<Rightarrow> heartbeat" where
  "hb_pinged now r =
     r\<lparr>hb_ping := Some now, hb_expires := Some (now + hb_span (hb_interval r) (hb_grace r)), hb_status := ''healthy'',
       hb_updated := now\<rparr>"

definition hb_RecordPing :: "uuid \<Rightarrow> instant \<Rightarrow> heartbeat list \<Rightarrow> (hb_error + heartbeat) \<times> heartbeat list" where
  "hb_RecordPing k now tab =
     (case hb_find k tab of
        None \<Rightarrow> (Inl ErrHeartbeatNotFound, tab)
      | Some r \<Rightarrow> (Inr (hb_pinged now r), hb_put (hb_pinged now r) tab))"

definition hb_due :: "instant \<Rightarrow> heartbeat \<Rightarrow> bool" where
  "hb_due now r \<longleftrightarrow>
     hb_enabled r \<and> hb_status r = ''healthy'' \<and> (case hb_expires r of None \<Rightarrow> False | Some t \<Rightarrow> t < now)"

definition hb_ListExpired :: "instant \<Rightarrow> heartbeat list \<Rightarrow> heartbeat list" where
  "hb_ListExpired now tab = filter (hb_due now) tab"

definition hb_expired :: "instant \<Rightarrow> heartbeat \<Rightarrow> heartbeat" where
  "hb_expired now r = r\<lparr>hb_status := ''expired'', hb_breach := Some now, hb_updated := now\<rparr>"

text \<open>The row is marked by its key alone.\<close>

definition hb_MarkExpired :: "uuid \<Rightarrow> instant \<Rightarrow> heartbeat list \<Rightarrow> (hb_error + heartbeat) \<times> heartbeat list" where
  "hb_MarkExpired k now tab =
     (case hb_find k tab of
        None \<Rightarrow> (Inl ErrHeartbeatNotFound, tab)
      | Some r \<Rightarrow> (Inr (hb_expired now r), hb_put (hb_expired now r) tab))"

subsection \<open>An alert that the program itself writes\<close>

datatype ingest_error = IngestLookup | ErrOpenAlertExists | IngestStore | IngestReload | IngestDisappeared

text \<open>\<^verbatim>\<open>IngestManualAlert\<close>: not ingested again while an alert of the fingerprint is open.\<close>

definition IngestManualAlert ::
    "receiver \<Rightarrow> 's store_api \<Rightarrow> instant \<Rightarrow> alert \<Rightarrow> event_actor option \<Rightarrow> 's
     \<Rightarrow> (ingest_error + alert_record) \<times> effect list \<times> 's" where
  "IngestManualAlert rv st now a actor s =
     (case so_get_open st (al_Fingerprint a) s of
        (Inl _, s1) \<Rightarrow> (Inl IngestLookup, [], s1)
      | (Inr (Some _), s1) \<Rightarrow> (Inl ErrOpenAlertExists, [], s1)
      | (Inr None, s1) \<Rightarrow>
          let parsed = rv_parse rv (al_StartsAt a);
              starts = (if parsed = zero_time then now else parsed);
              result = rv_route rv a;
              rec0 = new_record rv a ''firing'' (rr_Silenced result);
              row = rec0\<lparr>re_alert := (re_alert rec0)\<lparr>ar_starts := starts\<rparr>,
                            re_initial := Some (AlertEventWithActor ''fired'' starts actor)\<rparr>
          in case so_create st row s1 of
               (Inl _, s2) \<Rightarrow> (Inl IngestStore, [], s2)
             | (Inr n, s2) \<Rightarrow>
                 let (targets, posts) = (if rr_Silenced result then ([], []) else deliverToDestinations rv a (rr_Destinations result));
                     s3 = (if targets = [] then s2 else snd (so_targets st (al_Fingerprint a) targets s2));
                     es = track rv a @ posts
                 in (case so_get st (al_Fingerprint a) s3 of
                       (Inl _, s4) \<Rightarrow> (Inl IngestReload, es, s4)
                     | (Inr None, s4) \<Rightarrow> (Inl IngestDisappeared, es, s4)
                     | (Inr (Some r), s4) \<Rightarrow>
                         (Inr r, es @ publish rv ''alert_created'' r @
                            (if rr_Silenced result then [] else triggerCorrelator rv a (ar_number (re_alert r))), s4)))"

subsection \<open>The world\<close>

text \<open>\<open>hv_describe\<close> is the formatted description (\<^verbatim>\<open>fmt.Sprintf\<close>), \<open>hv_format\<close> RFC 3339; \<open>hv_resolve\<close> is
  \<^verbatim>\<open>ResolveAlertByUser\<close> of the store.\<close>

record 's hb_env =
  hv_now :: instant
  hv_key :: uuid
  hv_token :: string
  hv_hashes :: token_hashes
  hv_teams :: "uuid list"
  hv_uuid :: "string \<Rightarrow> uuid option"
  hv_show :: "uuid \<Rightarrow> string"
  hv_describe :: "string \<Rightarrow> int \<Rightarrow> int \<Rightarrow> string \<Rightarrow> string"
  hv_format :: "instant \<Rightarrow> string"
  hv_store :: "'s store_api"
  hv_resolve :: "string \<Rightarrow> event_actor option \<Rightarrow> 's \<Rightarrow> (alert_error + unit) \<times> 's"
  hv_receiver :: receiver

record 's hb_world =
  hw_tab :: "heartbeat list"
  hw_alerts :: 's
  hw_sweep :: "heartbeat list" \<comment> \<open>what the running sweep has still to handle\<close>
  hw_since :: instant \<comment> \<open>when it listed them\<close>
  hw_out :: "effect list"

definition heartbeat_actor :: event_actor where
  "heartbeat_actor = \<lparr>ac_userid = ''heartbeat'', ac_username = ''heartbeat'', ac_display = ''Heartbeat Monitor'', ac_source = ''heartbeat''\<rparr>"

definition heartbeatAlertFingerprint :: "('s, 'z) hb_env_scheme \<Rightarrow> uuid \<Rightarrow> string" where
  "heartbeatAlertFingerprint env k = ''heartbeat:'' @ hv_show env k"

subsection \<open>The sweep\<close>

text \<open>The labels of the heartbeat do not replace the four of the alert.\<close>

definition buildHeartbeatAlert :: "('s, 'z) hb_env_scheme \<Rightarrow> heartbeat \<Rightarrow> string \<Rightarrow> instant \<Rightarrow> alert" where
  "buildHeartbeatAlert env r fp now =
     (let own = [(''alertname'', ''HeartbeatExpired''), (''severity'', hb_severity r), (''heartbeat'', hb_name r),
                 (''heartbeat_id'', hv_show env (hb_id r))];
          labels = foldl (\<lambda>m (k, v). if map_of m k = None then mput k v m else m) own (hb_labels r);
          last_ping = (case hb_ping r of None \<Rightarrow> ''never'' | Some t \<Rightarrow> hv_format env t)
      in \<lparr>al_Status = ''firing'', al_Acknowledged = False, al_Labels = labels,
          al_Annotations = [(''summary'', ''Heartbeat expired: '' @ hb_name r),
            (''description'', hv_describe env (hb_name r) (hb_interval r) (hb_grace r) last_ping)],
          al_StartsAt = hv_format env now, al_EndsAt = [], al_GeneratorURL = [], al_Fingerprint = fp, al_SilenceURL = [],
          al_DashboardURL = [], al_PanelURL = [], al_Values = [], al_ValueString = []\<rparr>)"

definition processExpired :: "('s, 'z) hb_env_scheme \<Rightarrow> instant \<Rightarrow> heartbeat \<Rightarrow> 's hb_world \<Rightarrow> 's hb_world" where
  "processExpired env now r w =
     (case hb_MarkExpired (hb_id r) now (hw_tab w) of
        (Inl _, tab) \<Rightarrow> w\<lparr>hw_tab := tab\<rparr>
      | (Inr marked, tab) \<Rightarrow>
          let fp = ''heartbeat:'' @ hv_show env (hb_id r)
          in case IngestManualAlert (hv_receiver env) (hv_store env) (hv_now env) (buildHeartbeatAlert env r fp now)
               (Some heartbeat_actor) (hw_alerts w) of
            (Inl _, es, s) \<Rightarrow> w\<lparr>hw_tab := tab, hw_alerts := s, hw_out := hw_out w @ es\<rparr>
          | (Inr _, es, s) \<Rightarrow> w\<lparr>hw_tab := tab, hw_alerts := s, hw_out := hw_out w @ es @ [EAudit ''heartbeat'' fp]\<rparr>)"

definition sweep_begin :: "('s, 'z) hb_env_scheme \<Rightarrow> 's hb_world \<Rightarrow> 's hb_world" where
  "sweep_begin env w = w\<lparr>hw_sweep := hb_ListExpired (hv_now env) (hw_tab w), hw_since := hv_now env\<rparr>"

definition sweep_next :: "('s, 'z) hb_env_scheme \<Rightarrow> 's hb_world \<Rightarrow> 's hb_world" where
  "sweep_next env w =
     (case hw_sweep w of [] \<Rightarrow> w | r # rs \<Rightarrow> processExpired env (hw_since w) r (w\<lparr>hw_sweep := rs\<rparr>))"

text \<open>A tick with nothing in between.\<close>

definition hb_tick :: "('s, 'z) hb_env_scheme \<Rightarrow> 's hb_world \<Rightarrow> 's hb_world" where
  "hb_tick env w =
     (let w1 = sweep_begin env w
      in (foldl (\<lambda>w r. processExpired env (hv_now env) r w) (w1\<lparr>hw_sweep := []\<rparr>) (hw_sweep w1)))"

subsection \<open>Pings\<close>

datatype hb_body = HbRow heartbeat | HbToken heartbeat string | HbList "heartbeat list" nat | HbStatus string | HbHead

type_synonym hb_answer = "ErrorCode \<times> string + hb_body"
type_synonym 's hb_handler = "'s hb_world \<Rightarrow> hb_answer \<times> 's hb_world"

abbreviation hb_fail :: "ErrorCode \<Rightarrow> string \<Rightarrow> hb_answer" where
  "hb_fail c m \<equiv> Inl (c, m)"

definition resolveHeartbeatAlert :: "('s, 'z) hb_env_scheme \<Rightarrow> uuid \<Rightarrow> 's hb_world \<Rightarrow> 's hb_world" where
  "resolveHeartbeatAlert env k w =
     (let fp = heartbeatAlertFingerprint env k
      in case so_get_open (hv_store env) fp (hw_alerts w) of
           (Inl _, s1) \<Rightarrow> w\<lparr>hw_alerts := s1\<rparr>
         | (Inr None, s1) \<Rightarrow> w\<lparr>hw_alerts := s1\<rparr>
         | (Inr (Some _), s1) \<Rightarrow>
             (case hv_resolve env fp (Some heartbeat_actor) s1 of
                (Inl _, s2) \<Rightarrow> w\<lparr>hw_alerts := s2\<rparr>
              | (Inr _, s2) \<Rightarrow>
                  let (found, s3) = so_get (hv_store env) fp s2
                  in w\<lparr>hw_alerts := s3,
                       hw_out := hw_out w @ (if rv_dedup (hv_receiver env) then [EUntrack fp] else []) @
                         (case found of Inr (Some r) \<Rightarrow> [EPublish ''alert_updated'' r] | _ \<Rightarrow> [])\<rparr>))"

definition handleHeartbeatPing :: "('s, 'z) hb_env_scheme \<Rightarrow> string \<Rightarrow> string \<Rightarrow> 's hb_handler" where
  "handleHeartbeatPing env http text w =
     (let token = go_trim_space text
      in if token = [] then (hb_fail ErrorCodeNotFound ''not found'', w)
         else case hb_GetByPingToken (hv_hashes env) token (hw_tab w) of
           None \<Rightarrow> (hb_fail ErrorCodeNotFound ''not found'', w)
         | Some r \<Rightarrow>
             if \<not> hb_enabled r then (hb_fail ErrorCodeNotFound ''not found'', w)
             else case hb_RecordPing (hb_id r) (hv_now env) (hw_tab w) of
               (Inl _, tab) \<Rightarrow> (hb_fail ErrorCodeInternal ''failed to record heartbeat ping'', w\<lparr>hw_tab := tab\<rparr>)
             | (Inr _, tab) \<Rightarrow>
                 (Inr (if http = ''HEAD'' then HbHead else HbStatus ''ok''),
                  resolveHeartbeatAlert env (hb_id r) (w\<lparr>hw_tab := tab\<rparr>)))"

subsection \<open>Requests\<close>

record hb_request =
  hr_name :: string
  hr_description :: string
  hr_interval :: "int option"
  hr_grace :: "int option"
  hr_severity :: string
  hr_labels :: "strmap option"
  hr_owner :: string
  hr_enabled :: "bool option"

definition validHeartbeatSeverities :: "string list" where
  "validHeartbeatSeverities = [''critical'', ''high'', ''warning'', ''info'']"

text \<open>An owner in a request: none, one, or a text that is no UUID.\<close>

definition hb_owner_of :: "('s, 'z) hb_env_scheme \<Rightarrow> string \<Rightarrow> uuid option option" where
  "hb_owner_of env t = (if t = [] then Some None else case hv_uuid env t of None \<Rightarrow> None | Some k \<Rightarrow> Some (Some k))"

definition handleListHeartbeats :: "('s, 'z) hb_env_scheme \<Rightarrow> string \<Rightarrow> string \<Rightarrow> string \<Rightarrow> string \<Rightarrow> int \<Rightarrow> int \<Rightarrow> 's hb_handler" where
  "handleListHeartbeats env enabled status search owner limit skip w =
     (let q = \<lparr>hq_enabled = (if enabled = [] then None else Some (go_to_lower enabled = ''true'' \<or> enabled = ''1'')),
               hq_status = status, hq_owner = (if owner = [] then None else hv_uuid env owner), hq_search = search,
               hq_limit = limit, hq_skip = skip\<rparr>;
          (rows, total) = hb_List q (hw_tab w)
      in (Inr (HbList rows total), w))"

text \<open>\<open>None\<close> is a body that cannot be decoded.\<close>

definition handleCreateHeartbeat :: "('s, 'z) hb_env_scheme \<Rightarrow> auth_ctx \<Rightarrow> hb_request option \<Rightarrow> 's hb_handler" where
  "handleCreateHeartbeat env cx body w =
     (case body of
        None \<Rightarrow> (hb_fail ErrorCodeValidationFailed ''invalid request body'', w)
      | Some rq \<Rightarrow>
          if go_trim_space (hr_name rq) = [] then (hb_fail ErrorCodeValidationFailed ''name is required'', w)
          else case hr_interval rq of
            None \<Rightarrow> (hb_fail ErrorCodeValidationFailed ''interval_seconds must be a positive integer'', w)
          | Some interval \<Rightarrow>
              if interval \<le> 0 then (hb_fail ErrorCodeValidationFailed ''interval_seconds must be a positive integer'', w)
              else
                let sev0 = go_trim_space (hr_severity rq);
                    severity = (if sev0 = [] then ''warning'' else sev0);
                    grace = (case hr_grace rq of None \<Rightarrow> 60 | Some g \<Rightarrow> if 0 \<le> g then g else 60)
                in if \<not> List.member validHeartbeatSeverities severity
                   then (hb_fail ErrorCodeValidationFailed ''invalid severity (expected critical, high, warning, or info)'', w)
                   else case hb_owner_of env (hr_owner rq) of
                     None \<Rightarrow> (hb_fail ErrorCodeValidationFailed ''invalid owner_team_id'', w)
                   | Some owner \<Rightarrow>
                       (case hb_Create (hv_hashes env) (hv_teams env) (hv_key env) (hv_token env) (hv_now env)
                          \<lparr>hd_name = go_trim_space (hr_name rq), hd_description = go_trim_space (hr_description rq),
                           hd_interval = interval, hd_grace = grace,
                           hd_enabled = (case hr_enabled rq of None \<Rightarrow> True | Some b \<Rightarrow> b), hd_owner = owner, hd_status = [],
                           hd_severity = severity, hd_labels = hr_labels rq,
                           hd_by = (case cx_user cx of None \<Rightarrow> [] | Some u \<Rightarrow> us_email u)\<rparr> (hw_tab w) of
                         (Inl _, tab) \<Rightarrow> (hb_fail ErrorCodeInternal ''failed to create heartbeat'', w\<lparr>hw_tab := tab\<rparr>)
                       | (Inr r, tab) \<Rightarrow> (Inr (HbToken r (hv_token env)), w\<lparr>hw_tab := tab\<rparr>)))"

definition getHeartbeat :: "uuid \<Rightarrow> 's hb_handler" where
  "getHeartbeat k w =
     (case hb_find k (hw_tab w) of
        None \<Rightarrow> (hb_fail ErrorCodeNotFound ''heartbeat not found'', w)
      | Some r \<Rightarrow> (Inr (HbRow r), w))"

text \<open>A grace period that the request leaves out is a zero in the patch.\<close>

definition updateHeartbeat :: "('s, 'z) hb_env_scheme \<Rightarrow> uuid \<Rightarrow> hb_request option \<Rightarrow> 's hb_handler" where
  "updateHeartbeat env k body w =
     (case body of
        None \<Rightarrow> (hb_fail ErrorCodeValidationFailed ''invalid request body'', w)
      | Some rq \<Rightarrow>
          let severity = go_trim_space (hr_severity rq)
          in if severity \<noteq> [] \<and> \<not> List.member validHeartbeatSeverities severity
             then (hb_fail ErrorCodeValidationFailed ''invalid severity (expected critical, high, warning, or info)'', w)
             else if (case hr_interval rq of None \<Rightarrow> False | Some n \<Rightarrow> n \<le> 0)
             then (hb_fail ErrorCodeValidationFailed ''interval_seconds must be a positive integer'', w)
             else if (case hr_grace rq of None \<Rightarrow> False | Some g \<Rightarrow> g < 0)
             then (hb_fail ErrorCodeValidationFailed ''grace_seconds must be non-negative'', w)
             else case hb_owner_of env (hr_owner rq) of
               None \<Rightarrow> (hb_fail ErrorCodeValidationFailed ''invalid owner_team_id'', w)
             | Some owner \<Rightarrow>
                 (case hb_Update (hv_teams env) k (hv_now env)
                    \<lparr>hp_name = go_trim_space (hr_name rq), hp_description = go_trim_space (hr_description rq),
                     hp_interval = (case hr_interval rq of None \<Rightarrow> 0 | Some n \<Rightarrow> n),
                     hp_grace = (case hr_grace rq of None \<Rightarrow> 0 | Some g \<Rightarrow> g), hp_severity = severity,
                     hp_labels = hr_labels rq, hp_owner = owner, hp_enabled = hr_enabled rq\<rparr> (hw_tab w) of
                    (Inl ErrHeartbeatNotFound, tab) \<Rightarrow> (hb_fail ErrorCodeNotFound ''heartbeat not found'', w\<lparr>hw_tab := tab\<rparr>)
                  | (Inl _, tab) \<Rightarrow> (hb_fail ErrorCodeInternal ''failed to update heartbeat'', w\<lparr>hw_tab := tab\<rparr>)
                  | (Inr r, tab) \<Rightarrow> (Inr (HbRow r), w\<lparr>hw_tab := tab\<rparr>)))"

definition deleteHeartbeat :: "uuid \<Rightarrow> 's hb_handler" where
  "deleteHeartbeat k w =
     (case hb_Delete k (hw_tab w) of
        (Some _, tab) \<Rightarrow> (hb_fail ErrorCodeNotFound ''heartbeat not found'', w\<lparr>hw_tab := tab\<rparr>)
      | (None, tab) \<Rightarrow> (Inr (HbStatus ''deleted''), w\<lparr>hw_tab := tab\<rparr>))"

definition regenerateHeartbeatToken :: "('s, 'z) hb_env_scheme \<Rightarrow> uuid \<Rightarrow> 's hb_handler" where
  "regenerateHeartbeatToken env k w =
     (case hb_RegenerateToken (hv_hashes env) (hv_token env) k (hv_now env) (hw_tab w) of
        (Inl ErrHeartbeatNotFound, tab) \<Rightarrow> (hb_fail ErrorCodeNotFound ''heartbeat not found'', w\<lparr>hw_tab := tab\<rparr>)
      | (Inl _, tab) \<Rightarrow> (hb_fail ErrorCodeInternal ''failed to regenerate heartbeat token'', w\<lparr>hw_tab := tab\<rparr>)
      | (Inr r, tab) \<Rightarrow> (Inr (HbToken r (hv_token env)), w\<lparr>hw_tab := tab\<rparr>))"

definition hb_guarded :: "auth_ctx \<Rightarrow> string \<Rightarrow> 's hb_handler \<Rightarrow> 's hb_handler" where
  "hb_guarded cx perm h w =
     (case CheckPermission cx [perm] of
        Some a \<Rightarrow> ((case fst a of Inl e \<Rightarrow> Inl e | Inr _ \<Rightarrow> hb_fail ErrorCodeInternal []), w)
      | None \<Rightarrow> h w)"

text \<open>The path below \<^verbatim>\<open>/api/v1/heartbeats/\<close>, without a slash at its end.\<close>

definition handleHeartbeatByID :: "('s, 'z) hb_env_scheme \<Rightarrow> auth_ctx \<Rightarrow> string \<Rightarrow> string \<Rightarrow> hb_request option \<Rightarrow> 's hb_handler" where
  "handleHeartbeatByID env cx http path body w =
     (let rest = (if go_has_suffix path ''/'' then butlast path else path);
          id_part = takeWhile (\<lambda>c. c \<noteq> CHR ''/'') rest;
          sub = (if id_part = rest then None else Some (drop (Suc (length id_part)) rest))
      in if rest = [] then (hb_fail ErrorCodeValidationFailed ''missing id'', w)
         else case hv_uuid env id_part of
           None \<Rightarrow> (hb_fail ErrorCodeValidationFailed ''invalid id'', w)
         | Some k \<Rightarrow>
             (case sub of
                Some t \<Rightarrow>
                  if t = ''regenerate-token'' then
                    (if http \<noteq> ''POST'' then (hb_fail ErrorCodeMethodNotAllowed ''method not allowed'', w)
                     else hb_guarded cx ''heartbeats:write'' (regenerateHeartbeatToken env k) w)
                  else (hb_fail ErrorCodeNotFound ''not found'', w)
              | None \<Rightarrow>
                  if http = ''GET'' then hb_guarded cx ''heartbeats:read'' (getHeartbeat k) w
                  else if http = ''PUT'' then hb_guarded cx ''heartbeats:write'' (updateHeartbeat env k body) w
                  else if http = ''DELETE'' then hb_guarded cx ''heartbeats:delete'' (deleteHeartbeat k) w
                  else (hb_fail ErrorCodeMethodNotAllowed ''method not allowed'', w)))"

end
