(* ===== verification/Heartbeat_Correct.thy ===== *)
theory Heartbeat_Correct
  imports Heartbeat
begin

text \<open>
  What heartbeats promise over an alert store that does not fail (locale \<open>reliable_alerts\<close>, interpreted on the store of
  \<open>Alert_Store\<close>): a tick expires exactly the late ones and opens an alert for each, a ping closes it, and so after each
  tick an alert is open exactly for the silent. A ping between the two halves of a sweep is overwritten by it.
\<close>

subsection \<open>Tables\<close>

lemma hb_put_at:
  assumes "distinct (map hb_id tab)" "hb_find k tab = Some q" "\<And>x. hb_id (f x) = hb_id x"
  shows "hb_put (f q) tab = map (\<lambda>x. if hb_id x = k then f x else x) tab"
proof -
  from assms(2) have q: "q \<in> set tab" "hb_id q = k" by (auto simp: hb_find_def find_Some_iff)
  have "(if hb_id x = hb_id (f q) then f q else x) = (if hb_id x = k then f x else x)" if "x \<in> set tab" for x
  proof (cases "hb_id x = k")
    case True
    then have "x = q" using inj_onD [of hb_id "set tab" x q] assms(1) q that by (simp add: distinct_map)
    with True show ?thesis by (simp only: assms(3) q if_True)
  next
    case False
    then show ?thesis by (simp only: assms(3) q if_False)
  qed
  then show ?thesis unfolding hb_put_def by (rule map_cong [OF refl])
qed

lemma hb_find_in: "distinct (map hb_id tab) \<Longrightarrow> q \<in> set tab \<Longrightarrow> hb_find (hb_id q) tab = Some q"
  unfolding hb_find_def by (induction tab) auto

lemma hb_find_map:
  "(\<And>x. hb_id (f x) = hb_id x) \<Longrightarrow> hb_find k (map f tab) = map_option f (hb_find k tab)"
  unfolding hb_find_def by (induction tab) auto

lemma list_all2_member: "list_all2 P xs ys \<Longrightarrow> x \<in> set xs \<Longrightarrow> \<exists>y \<in> set ys. P x y"
  by (induction rule: list_all2_induct) auto

lemma hb_changed_id [simp]: "hb_id (hb_expired now r) = hb_id r" "hb_id (hb_pinged now r) = hb_id r"
  by (simp_all add: hb_expired_def hb_pinged_def)

lemma hb_expired_fields:
  "hb_status (hb_expired now r) = ''expired''" "hb_enabled (hb_expired now r) = hb_enabled r" "hb_expires (hb_expired now r) = hb_expires r"
  by (simp_all add: hb_expired_def)

lemma hb_pinged_fields:
  "hb_status (hb_pinged now r) = ''healthy''" "hb_enabled (hb_pinged now r) = hb_enabled r"
  "hb_expires (hb_pinged now r) = Some (now + hb_span (hb_interval r) (hb_grace r))"
  by (simp_all add: hb_pinged_def)

lemma map_if_id: "(\<And>x. hb_id (f x) = hb_id x) \<Longrightarrow> map hb_id (map (\<lambda>x. if P x then f x else x) tab) = map hb_id tab"
  by simp

lemma find_related: "list_all2 S xs ys \<Longrightarrow> (\<And>x y. S x y \<Longrightarrow> P x = Q y) \<Longrightarrow> rel_option S (find P xs) (find Q ys)"
  by (induction rule: list_all2_induct) auto

subsection \<open>Pings and ticks in any order\<close>

datatype hb_event = HbPing string string instant | HbTick instant

fun hb_time :: "hb_event \<Rightarrow> instant" where
  "hb_time (HbPing _ _ t) = t"
| "hb_time (HbTick t) = t"

fun hb_step :: "'s hb_env \<Rightarrow> hb_event \<Rightarrow> 's hb_world \<Rightarrow> 's hb_world" where
  "hb_step env (HbPing http token t) w = snd (handleHeartbeatPing (env\<lparr>hv_now := t\<rparr>) http token w)"
| "hb_step env (HbTick t) w = hb_tick (env\<lparr>hv_now := t\<rparr>) w"

text \<open>The heartbeat a ping is for.\<close>

definition hb_pings :: "'s hb_env \<Rightarrow> heartbeat list \<Rightarrow> string \<Rightarrow> heartbeat \<Rightarrow> bool" where
  "hb_pings env tab token r \<longleftrightarrow> hb_GetByPingToken (hv_hashes env) (go_trim_space token) tab = Some r \<and> hb_enabled r"

text \<open>The deadline of a heartbeat: its first one, or the one its last ping gives.\<close>

fun hb_deadline :: "'s hb_env \<Rightarrow> heartbeat list \<Rightarrow> heartbeat \<Rightarrow> hb_event list \<Rightarrow> instant option \<Rightarrow> instant option" where
  "hb_deadline env tab r [] d = d"
| "hb_deadline env tab r (HbPing http token t # evs) d =
     hb_deadline env tab r evs (if hb_pings env tab token r then Some (t + hb_span (hb_interval r) (hb_grace r)) else d)"
| "hb_deadline env tab r (HbTick t # evs) d = hb_deadline env tab r evs d"

lemma hb_deadline_append:
  "hb_deadline env tab r (evs @ es) d = hb_deadline env tab r es (hb_deadline env tab r evs d)"
  by (induction env tab r evs d rule: hb_deadline.induct) auto

text \<open>What pings and ticks leave alone.\<close>

definition hb_like :: "heartbeat \<Rightarrow> heartbeat \<Rightarrow> bool" where
  "hb_like r q \<longleftrightarrow> hb_id q = hb_id r \<and> hb_hash q = hb_hash r \<and> hb_prefix q = hb_prefix r \<and> hb_interval q = hb_interval r \<and>
     hb_grace q = hb_grace r \<and> hb_enabled q = hb_enabled r"

lemma hb_like_simps:
  "hb_like r (hb_expired now q) = hb_like r q" "hb_like r (hb_pinged now q) = hb_like r q"
  "hb_like r q \<Longrightarrow> hb_id q = hb_id r"
  by (simp_all add: hb_like_def hb_expired_def hb_pinged_def)

lemma hb_token_like:
  assumes "list_all2 (\<lambda>r q. hb_like r q \<and> S r q) tab0 tab"
  shows "rel_option (\<lambda>r q. hb_like r q \<and> S r q) (hb_GetByPingToken h token tab0) (hb_GetByPingToken h token tab)"
proof -
  have "rel_option (\<lambda>r q. hb_like r q \<and> S r q) (find (\<lambda>r. hb_prefix r = lookupPrefix h token \<and> hb_hash r = th_hmac h token) tab0)
      (find (\<lambda>r. hb_prefix r = lookupPrefix h token \<and> hb_hash r = th_hmac h token) tab)"
    by (rule find_related [OF assms]) (simp add: hb_like_def)
  then show ?thesis by (simp add: hb_GetByPingToken_def)
qed

subsection \<open>The alert store without failures\<close>

locale reliable_alerts =
  fixes st :: "'s store_api"
    and resolve :: "string \<Rightarrow> event_actor option \<Rightarrow> 's \<Rightarrow> (alert_error + unit) \<times> 's"
    and inv :: "'s \<Rightarrow> bool"
    and opens :: "'s \<Rightarrow> string \<Rightarrow> bool"
  assumes open_ok: "inv s \<Longrightarrow> \<exists>r s'. so_get_open st fp s = (Inr r, s') \<and> (r \<noteq> None) = opens s fp \<and> inv s' \<and> opens s' = opens s"
    and create_ok: "inv s \<Longrightarrow> \<not> opens s (ar_fingerprint (re_alert a)) \<Longrightarrow> ar_status (re_alert a) = ''firing'' \<Longrightarrow>
      ar_ends (re_alert a) = None \<Longrightarrow>
      \<exists>n s'. so_create st a s = (Inr n, s') \<and> inv s' \<and> opens s' = (opens s)(ar_fingerprint (re_alert a) := True)"
    and targets_ok: "inv s \<Longrightarrow> inv (snd (so_targets st fp ts s)) \<and> opens (snd (so_targets st fp ts s)) = opens s"
    and get_ok: "inv s \<Longrightarrow> opens s fp \<Longrightarrow> \<exists>r s'. so_get st fp s = (Inr (Some r), s') \<and> inv s' \<and> opens s' = opens s"
    and get_any: "inv s \<Longrightarrow> inv (snd (so_get st fp s)) \<and> opens (snd (so_get st fp s)) = opens s"
    and resolve_ok: "inv s \<Longrightarrow> opens s fp \<Longrightarrow>
      \<exists>s'. resolve fp actor s = (Inr (), s') \<and> inv s' \<and> opens s' = (opens s)(fp := False)"
begin

text \<open>An ingestion opens the fingerprint, whether or not it was open.\<close>

lemma ingest_opens:
  assumes "inv s"
  shows "\<exists>res es s'. IngestManualAlert rv st now a actor s = (res, es, s') \<and> inv s' \<and>
    opens s' = (opens s)(al_Fingerprint a := True)"
proof -
  let ?fp = "al_Fingerprint a"
  obtain r s1 where o: "so_get_open st ?fp s = (Inr r, s1)" "(r \<noteq> None) = opens s ?fp" "inv s1" "opens s1 = opens s"
    using open_ok [OF assms, of ?fp] by blast
  show ?thesis
  proof (cases r)
    case (Some x)
    then have "opens s1 = (opens s)(?fp := True)" using o by (auto simp: fun_eq_iff)
    with Some o show ?thesis by (simp add: IngestManualAlert_def)
  next
    case None
    define result where "result = rv_route rv a"
    define starts where "starts = (if rv_parse rv (al_StartsAt a) = zero_time then now else rv_parse rv (al_StartsAt a))"
    define row where "row = (new_record rv a ''firing'' (rr_Silenced result))
      \<lparr>re_alert := (re_alert (new_record rv a ''firing'' (rr_Silenced result)))\<lparr>ar_starts := starts\<rparr>,
       re_initial := Some (AlertEventWithActor ''fired'' starts actor)\<rparr>"
    have rec: "ar_fingerprint (re_alert row) = ?fp" "ar_status (re_alert row) = ''firing''" "ar_ends (re_alert row) = None"
      by (simp_all add: row_def new_record_def)
    have "\<not> opens s1 (ar_fingerprint (re_alert row))" using o None rec by simp
    from create_ok [OF o(3) this rec(2,3)] obtain n s2
      where c: "so_create st row s1 = (Inr n, s2)" "inv s2" "opens s2 = (opens s1)(?fp := True)"
      unfolding rec(1) by blast
    obtain targets posts where d: "(if rr_Silenced result then ([], []) else deliverToDestinations rv a (rr_Destinations result)) = (targets, posts)"
      by force
    define s3 where "s3 = (if targets = [] then s2 else snd (so_targets st ?fp targets s2))"
    have s3: "inv s3" "opens s3 = opens s2" using targets_ok [OF c(2), of ?fp targets] c(2) by (simp_all add: s3_def)
    obtain x s4 where g: "so_get st ?fp s3 = (Inr (Some x), s4)" "inv s4" "opens s4 = opens s3"
      using get_ok [OF s3(1), of ?fp] s3 c by auto
    have "s3 = s2" if "rr_Silenced result" using that d by (simp add: s3_def)
    then show ?thesis
      unfolding IngestManualAlert_def Let_def result_def [symmetric] starts_def [symmetric] row_def [symmetric]
      using None o c d s3 g
      by (cases "rr_Silenced result") (simp_all add: s3_def split: if_splits)
  qed
qed

definition serves :: "('s, 'z) hb_env_scheme \<Rightarrow> bool" where
  "serves env \<longleftrightarrow> hv_store env = st \<and> hv_resolve env = resolve \<and> inj (hv_show env)"

abbreviation alerting :: "('s, 'z) hb_env_scheme \<Rightarrow> 's hb_world \<Rightarrow> uuid \<Rightarrow> bool" where
  "alerting env w k \<equiv> opens (hw_alerts w) (heartbeatAlertFingerprint env k)"

lemma fingerprint_inj: "serves env \<Longrightarrow> heartbeatAlertFingerprint env k = heartbeatAlertFingerprint env l \<longleftrightarrow> k = l"
  by (auto simp: serves_def heartbeatAlertFingerprint_def dest: injD)

lemma process_one:
  assumes "serves env" "inv (hw_alerts w)" "hb_find (hb_id r) (hw_tab w) = Some q"
  shows "hw_tab (processExpired env now r w) = hb_put (hb_expired now q) (hw_tab w) \<and>
    inv (hw_alerts (processExpired env now r w)) \<and>
    opens (hw_alerts (processExpired env now r w)) = (opens (hw_alerts w))(heartbeatAlertFingerprint env (hb_id r) := True)"
proof -
  let ?a = "buildHeartbeatAlert env r (''heartbeat:'' @ hv_show env (hb_id r)) now"
  obtain res es s' where i: "IngestManualAlert (hv_receiver env) st (hv_now env) ?a (Some heartbeat_actor) (hw_alerts w) = (res, es, s')"
    "inv s'" "opens s' = (opens (hw_alerts w))(al_Fingerprint ?a := True)"
    using ingest_opens [OF assms(2)] by blast
  have "al_Fingerprint ?a = heartbeatAlertFingerprint env (hb_id r)"
    by (simp add: buildHeartbeatAlert_def heartbeatAlertFingerprint_def Let_def)
  with i assms show ?thesis
    by (cases res) (simp_all add: processExpired_def hb_MarkExpired_def serves_def Let_def)
qed

lemma resolve_one:
  assumes "serves env" "inv (hw_alerts w)"
  shows "hw_tab (resolveHeartbeatAlert env k w) = hw_tab w \<and> hw_sweep (resolveHeartbeatAlert env k w) = hw_sweep w \<and>
    hw_since (resolveHeartbeatAlert env k w) = hw_since w \<and>
    inv (hw_alerts (resolveHeartbeatAlert env k w)) \<and>
    opens (hw_alerts (resolveHeartbeatAlert env k w)) = (opens (hw_alerts w))(heartbeatAlertFingerprint env k := False)"
proof -
  let ?fp = "heartbeatAlertFingerprint env k"
  obtain r s1 where o: "so_get_open st ?fp (hw_alerts w) = (Inr r, s1)" "(r \<noteq> None) = opens (hw_alerts w) ?fp" "inv s1"
      "opens s1 = opens (hw_alerts w)"
    using open_ok [OF assms(2), of ?fp] by blast
  show ?thesis
  proof (cases r)
    case None
    then have "opens s1 = (opens (hw_alerts w))(?fp := False)" using o by (auto simp: fun_eq_iff)
    with None o assms(1) show ?thesis by (simp add: resolveHeartbeatAlert_def serves_def Let_def)
  next
    case (Some x)
    then have "opens s1 ?fp" using o by simp
    from resolve_ok [OF o(3) this] obtain s2 where s2: "resolve ?fp (Some heartbeat_actor) s1 = (Inr (), s2)" "inv s2"
      "opens s2 = (opens s1)(?fp := False)" by blast
    obtain f s3 where s3: "so_get st ?fp s2 = (f, s3)" by force
    with get_any [OF s2(2), of ?fp] have "inv s3" "opens s3 = opens s2" by simp_all
    with Some o s2 s3 assms(1) show ?thesis by (simp add: resolveHeartbeatAlert_def serves_def Let_def)
  qed
qed

text \<open>A tick: the rows that are due become expired, and an alert is open for each.\<close>

lemma handle_all:
  fixes now :: instant
  assumes "serves env" "inv (hw_alerts w)" "distinct (map hb_id (hw_tab w))" "hb_id ` set rs \<subseteq> hb_id ` set (hw_tab w)"
  defines "w' \<equiv> foldl (\<lambda>w r. processExpired env now r w) w rs"
  shows "hw_tab w' = map (\<lambda>q. if hb_id q \<in> hb_id ` set rs then hb_expired now q else q) (hw_tab w) \<and> inv (hw_alerts w') \<and>
    opens (hw_alerts w') = (\<lambda>fp. opens (hw_alerts w) fp \<or> fp \<in> heartbeatAlertFingerprint env ` hb_id ` set rs)"
  using assms(2-4) unfolding w'_def
proof (induction rs arbitrary: w)
  case Nil
  then show ?case by simp
next
  case (Cons r rs)
  let ?w = "processExpired env now r w"
  from Cons.prems(3) obtain p where "p \<in> set (hw_tab w)" "hb_id p = hb_id r" by auto
  with Cons.prems(2) have f: "hb_find (hb_id r) (hw_tab w) = Some p" by (metis hb_find_in)
  have t: "hw_tab ?w = map (\<lambda>q. if hb_id q = hb_id r then hb_expired now q else q) (hw_tab w)"
    using process_one [OF assms(1) Cons.prems(1) f] hb_put_at [OF Cons.prems(2) f, of "hb_expired now"] by simp
  have i: "inv (hw_alerts ?w)"
    and o: "opens (hw_alerts ?w) = (opens (hw_alerts w))(heartbeatAlertFingerprint env (hb_id r) := True)"
    using process_one [OF assms(1) Cons.prems(1) f] by blast+
  have d: "distinct (map hb_id (hw_tab ?w))" unfolding t by (subst map_if_id) (simp_all add: Cons.prems(2))
  have "hb_id ` set (hw_tab ?w) = hb_id ` set (hw_tab w)" unfolding t image_set map_map
    by (rule arg_cong [of _ _ set], rule map_cong) auto
  then have sub: "hb_id ` set rs \<subseteq> hb_id ` set (hw_tab ?w)" using Cons.prems(3) by simp
  have e: "hb_expired now (hb_expired now q) = hb_expired now q" for q by (simp add: hb_expired_def)
  from Cons.IH [OF i d sub] show ?case
    by (auto simp: t o e fun_eq_iff)
qed

lemma tick_does:
  assumes "serves env" "inv (hw_alerts w)" "distinct (map hb_id (hw_tab w))"
  shows "hw_tab (hb_tick env w) = map (\<lambda>q. if hb_due (hv_now env) q then hb_expired (hv_now env) q else q) (hw_tab w) \<and>
    inv (hw_alerts (hb_tick env w)) \<and>
    opens (hw_alerts (hb_tick env w)) = (\<lambda>fp. opens (hw_alerts w) fp \<or>
      (\<exists>q \<in> set (hw_tab w). hb_due (hv_now env) q \<and> fp = heartbeatAlertFingerprint env (hb_id q)))"
proof -
  let ?rs = "hb_ListExpired (hv_now env) (hw_tab w)"
  let ?w = "w\<lparr>hw_sweep := ?rs, hw_since := hv_now env\<rparr>\<lparr>hw_sweep := []\<rparr>"
  have due: "hb_id q \<in> hb_id ` set ?rs \<longleftrightarrow> hb_due (hv_now env) q" if "q \<in> set (hw_tab w)" for q
    using assms(3) that by (auto simp: hb_ListExpired_def distinct_map dest: inj_onD)
  have "hb_tick env w = foldl (\<lambda>w r. processExpired env (hv_now env) r w) ?w ?rs"
    by (simp add: hb_tick_def sweep_begin_def Let_def)
  with handle_all [of env ?w ?rs "hv_now env", OF assms(1)] assms(2,3) due show ?thesis
    by (auto simp: fun_eq_iff hb_ListExpired_def cong: map_cong)
qed

text \<open>A ping: of an enabled heartbeat it moves the deadline and closes the alert, and else it changes nothing.\<close>

lemma ping_does:
  assumes "serves env" "inv (hw_alerts w)" "distinct (map hb_id (hw_tab w))"
  shows "case hb_GetByPingToken (hv_hashes env) (go_trim_space token) (hw_tab w) of
      None \<Rightarrow> snd (handleHeartbeatPing env http token w) = w
    | Some q \<Rightarrow>
        if \<not> hb_enabled q then snd (handleHeartbeatPing env http token w) = w
        else hw_tab (snd (handleHeartbeatPing env http token w)) =
            map (\<lambda>x. if hb_id x = hb_id q then hb_pinged (hv_now env) x else x) (hw_tab w) \<and>
          hw_sweep (snd (handleHeartbeatPing env http token w)) = hw_sweep w \<and>
          hw_since (snd (handleHeartbeatPing env http token w)) = hw_since w \<and>
          inv (hw_alerts (snd (handleHeartbeatPing env http token w))) \<and>
          opens (hw_alerts (snd (handleHeartbeatPing env http token w))) =
            (opens (hw_alerts w))(heartbeatAlertFingerprint env (hb_id q) := False)"
proof (cases "hb_GetByPingToken (hv_hashes env) (go_trim_space token) (hw_tab w)")
  case None
  then show ?thesis by (simp add: handleHeartbeatPing_def Let_def)
next
  case (Some q)
  then have q: "q \<in> set (hw_tab w)" and ne: "go_trim_space token \<noteq> []"
    by (auto simp: hb_GetByPingToken_def find_Some_iff split: if_splits)
  have f: "hb_find (hb_id q) (hw_tab w) = Some q" using assms(3) q by (rule hb_find_in)
  let ?w = "w\<lparr>hw_tab := hb_put (hb_pinged (hv_now env) q) (hw_tab w)\<rparr>"
  have p: "hb_put (hb_pinged (hv_now env) q) (hw_tab w) =
      map (\<lambda>x. if hb_id x = hb_id q then hb_pinged (hv_now env) x else x) (hw_tab w)"
    using hb_put_at [OF assms(3) f, of "hb_pinged (hv_now env)"] by simp
  have run: "snd (handleHeartbeatPing env http token w) = (if hb_enabled q then resolveHeartbeatAlert env (hb_id q) ?w else w)"
    using Some ne f by (simp add: handleHeartbeatPing_def hb_RecordPing_def Let_def)
  have "inv (hw_alerts ?w)" using assms(2) by simp
  from resolve_one [OF assms(1) this, of "hb_id q"] show ?thesis by (simp add: Some run p)
qed

text \<open>The state of the table and the alerts at time \<open>t\<close>, when each heartbeat of \<open>tab\<close> has the deadline \<open>d\<close>.\<close>

definition current :: "bool \<Rightarrow> instant option \<Rightarrow> instant \<Rightarrow> heartbeat \<Rightarrow> bool" where
  "current al d t q \<longleftrightarrow> hb_expires q = d \<and>
     (hb_enabled q \<longrightarrow> hb_status q = ''healthy'' \<and> \<not> al \<or> hb_status q = ''expired'' \<and> al \<and> (\<exists>x. d = Some x \<and> x < t))"

definition tracks :: "'s hb_env \<Rightarrow> heartbeat list \<Rightarrow> (heartbeat \<Rightarrow> instant option) \<Rightarrow> instant \<Rightarrow> 's hb_world \<Rightarrow> bool" where
  "tracks env tab d t w \<longleftrightarrow> inv (hw_alerts w) \<and> distinct (map hb_id (hw_tab w)) \<and>
     list_all2 (\<lambda>r q. hb_like r q \<and> current (alerting env w (hb_id q)) (d r) t q) tab (hw_tab w)"

lemma at_time [simp]:
  "serves (env\<lparr>hv_now := t\<rparr>) = serves env" "heartbeatAlertFingerprint (env\<lparr>hv_now := t\<rparr>) k = heartbeatAlertFingerprint env k"
  by (simp_all add: serves_def heartbeatAlertFingerprint_def)

lemma tracks_later:
  assumes "tracks env tab d t w" "t \<le> u"
  shows "tracks env tab d u w"
proof -
  have "list_all2 (\<lambda>r q. hb_like r q \<and> current (alerting env w (hb_id q)) (d r) u q) tab (hw_tab w)"
    using assms by (auto simp: tracks_def current_def elim!: list_all2_mono)
  with assms(1) show ?thesis by (simp add: tracks_def)
qed

lemma tick_alerting:
  assumes "serves env" "inv (hw_alerts w)" "distinct (map hb_id (hw_tab w))" "q \<in> set (hw_tab w)"
  shows "alerting env (hb_tick env w) (hb_id q) \<longleftrightarrow> alerting env w (hb_id q) \<or> hb_due (hv_now env) q"
proof -
  have "p = q" if "p \<in> set (hw_tab w)" "hb_id p = hb_id q" for p
    using inj_onD [of hb_id "set (hw_tab w)" p q] assms(3,4) that by (simp add: distinct_map)
  then have "(\<exists>p \<in> set (hw_tab w). hb_due (hv_now env) p \<and> hb_id q = hb_id p) = hb_due (hv_now env) q"
    using assms(4) by metis
  then show ?thesis
    using tick_does [OF assms(1-3)] by (simp add: fingerprint_inj [OF assms(1)])
qed

lemma tick_tracks:
  assumes sv: "serves env" and tr: "tracks env tab d t w" and le: "t \<le> hv_now env"
  shows "tracks env tab d (hv_now env) (hb_tick env w) \<and>
    list_all2 (\<lambda>r q. hb_like r q \<and> (hb_enabled q \<longrightarrow>
      alerting env (hb_tick env w) (hb_id q) = (case d r of None \<Rightarrow> False | Some x \<Rightarrow> x < hv_now env))) tab (hw_tab (hb_tick env w))"
proof -
  note t = tr [unfolded tracks_def]
  let ?u = "hv_now env" and ?w = "hb_tick env w"
  let ?f = "\<lambda>q. if hb_due ?u q then hb_expired ?u q else q"
  note td = tick_does [OF sv conjunct1 [OF t] conjunct1 [OF conjunct2 [OF t]]]
  have step: "hb_like r (?f q) \<and> current (alerting env ?w (hb_id (?f q))) (d r) ?u (?f q) \<and>
      (hb_enabled (?f q) \<longrightarrow> alerting env ?w (hb_id (?f q)) = (case d r of None \<Rightarrow> False | Some x \<Rightarrow> x < ?u))"
    if "q \<in> set (hw_tab w)" "hb_like r q \<and> current (alerting env w (hb_id q)) (d r) t q" for r q
  proof -
    have i: "hb_id (?f q) = hb_id q" by simp
    have a: "alerting env ?w (hb_id q) \<longleftrightarrow> alerting env w (hb_id q) \<or> hb_due ?u q"
      using t that(1) by (intro tick_alerting [OF sv]) auto
    show ?thesis
    proof (cases "hb_due ?u q")
      case True
      with a i that(2) show ?thesis
        by (auto simp: current_def hb_like_simps hb_due_def hb_expired_fields split: option.splits)
    next
      case False
      with a i that(2) le show ?thesis
        by (auto simp: current_def hb_due_def split: option.splits)
    qed
  qed
  have all: "list_all2 (\<lambda>r q. hb_like r (?f q) \<and> current (alerting env ?w (hb_id (?f q))) (d r) ?u (?f q) \<and>
      (hb_enabled (?f q) \<longrightarrow> alerting env ?w (hb_id (?f q)) = (case d r of None \<Rightarrow> False | Some x \<Rightarrow> x < ?u))) tab (hw_tab w)"
    using t step by (blast intro: list.rel_mono_strong)
  have dist: "distinct (map hb_id (map ?f (hw_tab w)))" by (subst map_if_id) (use t in simp_all)
  have tab: "hw_tab ?w = map ?f (hw_tab w)" using td by blast
  have "list_all2 (\<lambda>r q. hb_like r q \<and> current (alerting env ?w (hb_id q)) (d r) ?u q) tab (hw_tab ?w)"
    unfolding tab list_all2_map2 by (rule list_all2_mono [OF all]) blast
  moreover have "list_all2 (\<lambda>r q. hb_like r q \<and> (hb_enabled q \<longrightarrow>
      alerting env ?w (hb_id q) = (case d r of None \<Rightarrow> False | Some x \<Rightarrow> x < ?u))) tab (hw_tab ?w)"
    unfolding tab list_all2_map2 by (rule list_all2_mono [OF all]) blast
  moreover have "distinct (map hb_id (hw_tab ?w))" unfolding tab by (rule dist)
  ultimately show ?thesis using td by (simp only: tracks_def)
qed

lemma ping_tracks:
  assumes sv: "serves env" and tr: "tracks env tab d t w" and le: "t \<le> hv_now env"
  shows "tracks env tab (\<lambda>r. if hb_pings env tab token r then Some (hv_now env + hb_span (hb_interval r) (hb_grace r)) else d r)
    (hv_now env) (snd (handleHeartbeatPing env http token w))"
proof -
  let ?u = "hv_now env" and ?w = "snd (handleHeartbeatPing env http token w)" and ?tok = "go_trim_space token"
  let ?d = "\<lambda>r. if hb_pings env tab token r then Some (?u + hb_span (hb_interval r) (hb_grace r)) else d r"
  let ?S = "\<lambda>r q. current (alerting env w (hb_id q)) (d r) t q"
  have t: "inv (hw_alerts w)" "distinct (map hb_id (hw_tab w))" "list_all2 (\<lambda>r q. hb_like r q \<and> ?S r q) tab (hw_tab w)"
    using tr by (simp_all add: tracks_def)
  have "map hb_id tab = map hb_id (hw_tab w)"
    using t(3) by (induction rule: list_all2_induct) (simp_all add: hb_like_def)
  then have ids: "inj_on hb_id (set tab)" using t(2) by (metis distinct_map)
  note same = hb_token_like [OF t(3), of "hv_hashes env" ?tok]
  note does = ping_does [OF sv t(1,2), where token = token and http = http]
  show ?thesis
  proof (cases "hb_GetByPingToken (hv_hashes env) ?tok (hw_tab w)")
    case None
    with same have "hb_GetByPingToken (hv_hashes env) ?tok tab = None" by simp
    then have "?d = d" by (simp add: hb_pings_def)
    moreover have "?w = w" using does None by simp
    ultimately show ?thesis using tracks_later [OF tr le] by (simp only:)
  next
    case (Some p)
    then obtain r0 where r0: "hb_GetByPingToken (hv_hashes env) ?tok tab = Some r0" "hb_like r0 p"
      using same by (cases "hb_GetByPingToken (hv_hashes env) ?tok tab") auto
    then have r0_in: "r0 \<in> set tab" by (auto simp: hb_GetByPingToken_def find_Some_iff split: if_splits)
    have en: "hb_enabled r0 = hb_enabled p" using r0(2) by (simp add: hb_like_def)
    show ?thesis
    proof (cases "hb_enabled p")
      case False
      then have "?d = d" using r0(1) en by (auto simp: hb_pings_def)
      moreover have "?w = w" using does Some False by simp
      ultimately show ?thesis using tracks_later [OF tr le] by (simp only:)
    next
      case True
      let ?f = "\<lambda>x. if hb_id x = hb_id p then hb_pinged ?u x else x"
      have w': "hw_tab ?w = map ?f (hw_tab w)" "inv (hw_alerts ?w)"
        "opens (hw_alerts ?w) = (opens (hw_alerts w))(heartbeatAlertFingerprint env (hb_id p) := False)"
        using does Some True by simp_all
      have "hb_like r (?f q) \<and> current (alerting env ?w (hb_id (?f q))) (?d r) ?u (?f q)"
        if "r \<in> set tab" "hb_like r q \<and> ?S r q" for r q
      proof (cases "hb_id q = hb_id p")
        case eq: True
        then have "hb_id r = hb_id r0" using that(2) r0(2) by (simp add: hb_like_def)
        with ids that(1) r0_in have "r = r0" by (rule_tac inj_onD)
        then have "?d r = Some (?u + hb_span (hb_interval q) (hb_grace q))"
          using r0(1) en True that(2) by (simp add: hb_pings_def hb_like_def)
        then show ?thesis using that(2) eq w'(3) by (simp add: hb_like_simps current_def hb_pinged_fields)
      next
        case ne: False
        then have "r \<noteq> r0" using that(2) r0(2) by (auto simp: hb_like_def)
        then have "?d r = d r" using r0(1) by (simp add: hb_pings_def)
        then show ?thesis using that(2) ne w'(3) le
          by (auto simp: current_def fingerprint_inj [OF sv])
      qed
      then have all: "list_all2 (\<lambda>r q. hb_like r (?f q) \<and> current (alerting env ?w (hb_id (?f q))) (?d r) ?u (?f q)) tab (hw_tab w)"
        using t(3) by (blast intro: list.rel_mono_strong)
      have "distinct (map hb_id (map ?f (hw_tab w)))" by (subst map_if_id) (use t in simp_all)
      with all show ?thesis using w'(2) by (simp only: tracks_def w'(1) list_all2_map2)
    qed
  qed
qed

lemma run_tracks:
  assumes "serves env" "tracks env tab d t w" "sorted (t # map hb_time evs)"
  shows "tracks env tab (\<lambda>r. hb_deadline env tab r evs (d r)) (last (t # map hb_time evs)) (foldl (\<lambda>w ev. hb_step env ev w) w evs)"
  using assms(2,3)
proof (induction evs arbitrary: d t w)
  case Nil
  then show ?case by simp
next
  case (Cons ev evs)
  have le: "t \<le> hb_time ev" "sorted (hb_time ev # map hb_time evs)" using Cons.prems(2) by auto
  have t: "tracks (env\<lparr>hv_now := u\<rparr>) tab d t w = tracks env tab d t w" for u d t w by (simp add: tracks_def)
  show ?case
  proof (cases ev)
    case (HbTick u)
    have "tracks env tab d u (hb_tick (env\<lparr>hv_now := u\<rparr>) w)"
      using tick_tracks [of "env\<lparr>hv_now := u\<rparr>" tab d t w] assms(1) Cons.prems(1) le HbTick by (simp add: t)
    from Cons.IH [OF this] le HbTick show ?thesis by simp
  next
    case (HbPing http token u)
    have p: "hb_pings (env\<lparr>hv_now := u\<rparr>) tab token r = hb_pings env tab token r" for r by (simp add: hb_pings_def)
    have "tracks env tab (\<lambda>r. if hb_pings env tab token r then Some (u + hb_span (hb_interval r) (hb_grace r)) else d r) u
        (snd (handleHeartbeatPing (env\<lparr>hv_now := u\<rparr>) http token w))"
      using ping_tracks [of "env\<lparr>hv_now := u\<rparr>" tab d t w token http] assms(1) Cons.prems(1) le HbPing by (simp add: t p cong: if_cong)
    from Cons.IH [OF this] le HbPing show ?thesis by simp
  qed
qed

text \<open>After a tick an alert is open exactly for the enabled heartbeats whose deadline has passed.\<close>

lemma silent_iff:
  assumes "serves env" "inv (hw_alerts w)" "distinct (map hb_id (hw_tab w))"
    and fresh: "\<forall>r \<in> set (hw_tab w). hb_status r = ''healthy'' \<and> \<not> alerting env w (hb_id r)"
    and "sorted (map hb_time evs @ [now])" "r \<in> set (hw_tab w)" "hb_enabled r"
  shows "alerting env (foldl (\<lambda>w ev. hb_step env ev w) w (evs @ [HbTick now])) (hb_id r) \<longleftrightarrow>
    (case hb_deadline env (hw_tab w) r evs (hb_expires r) of None \<Rightarrow> False | Some x \<Rightarrow> x < now)"
proof -
  let ?t = "hd (map hb_time evs @ [now])" and ?w = "foldl (\<lambda>w ev. hb_step env ev w) w evs" and ?e = "env\<lparr>hv_now := now\<rparr>"
  let ?d = "\<lambda>r. hb_deadline env (hw_tab w) r evs (hb_expires r)"
  have "list_all2 (\<lambda>r q. hb_like r q \<and> current (alerting env w (hb_id q)) (hb_expires r) ?t q) (hw_tab w) (hw_tab w)"
    using fresh by (intro list.rel_refl_strong) (auto simp: hb_like_def current_def)
  then have start: "tracks env (hw_tab w) hb_expires ?t w" using assms(2,3) by (simp add: tracks_def)
  have "sorted (map hb_time evs)" and bound: "\<forall>e \<in> set evs. hb_time e \<le> now"
    using assms(5) by (simp_all add: sorted_append)
  then have le: "sorted (?t # map hb_time evs)" by (cases evs) simp_all
  have "last (?t # map hb_time evs) \<le> now"
  proof (cases "evs = []")
    case False
    with bound show ?thesis by (simp add: last_map)
  qed simp
  note le = le this
  have "tracks ?e (hw_tab w) ?d (last (?t # map hb_time evs)) ?w"
    using run_tracks [OF assms(1) start le(1)] by (simp add: tracks_def)
  from tick_tracks [of ?e, OF _ this] assms(1) le(2)
  have "list_all2 (\<lambda>r q. hb_like r q \<and> (hb_enabled q \<longrightarrow>
      alerting env (hb_tick ?e ?w) (hb_id q) = (case ?d r of None \<Rightarrow> False | Some x \<Rightarrow> x < now))) (hw_tab w) (hw_tab (hb_tick ?e ?w))"
    by (simp cong: option.case_cong)
  from list_all2_member [OF this assms(6)] obtain q where "hb_like r q" "hb_enabled q \<longrightarrow>
      alerting env (hb_tick ?e ?w) (hb_id q) = (case ?d r of None \<Rightarrow> False | Some x \<Rightarrow> x < now)"
    by blast
  with assms(7) show ?thesis by (simp add: hb_like_def)
qed

text \<open>A ping between the two halves of a sweep.\<close>

lemma ping_between:
  fixes env :: "'s hb_env" and pinged listed :: instant and http :: string
  assumes sv: "serves env" and i: "inv (hw_alerts w)" and dist: "distinct (map hb_id (hw_tab w))"
    and late: "hb_ListExpired listed (hw_tab w) = r # rs"
    and ping: "hb_GetByPingToken (hv_hashes env) (go_trim_space token) (hw_tab w) = Some r"
  defines "w2 \<equiv> snd (handleHeartbeatPing (env\<lparr>hv_now := pinged\<rparr>) http token (sweep_begin (env\<lparr>hv_now := listed\<rparr>) w))"
  shows "hb_find (hb_id r) (hw_tab w2) = Some (hb_pinged pinged r) \<and> \<not> alerting env w2 (hb_id r) \<and>
    hb_find (hb_id r) (hw_tab (sweep_next (env\<lparr>hv_now := now\<rparr>) w2)) = Some (hb_expired listed (hb_pinged pinged r)) \<and>
    alerting env (sweep_next (env\<lparr>hv_now := now\<rparr>) w2) (hb_id r)"
proof -
  let ?w1 = "sweep_begin (env\<lparr>hv_now := listed\<rparr>) w" and ?e = "env\<lparr>hv_now := now\<rparr>"
  have w1: "hw_tab ?w1 = hw_tab w" "hw_alerts ?w1 = hw_alerts w" "hw_sweep ?w1 = r # rs" "hw_since ?w1 = listed"
    using late by (simp_all add: sweep_begin_def)
  have "r \<in> set (hb_ListExpired listed (hw_tab w))" using late by simp
  then have r: "r \<in> set (hw_tab w)" "hb_enabled r" by (simp_all add: hb_ListExpired_def hb_due_def)
  have f: "hb_find (hb_id r) (hw_tab w) = Some r" using dist r(1) by (rule hb_find_in)
  let ?f = "\<lambda>x. if hb_id x = hb_id r then hb_pinged pinged x else x"
  have w2: "hw_tab w2 = map ?f (hw_tab w)" "hw_sweep w2 = r # rs" "hw_since w2 = listed" "inv (hw_alerts w2)"
    "opens (hw_alerts w2) = (opens (hw_alerts w))(heartbeatAlertFingerprint env (hb_id r) := False)"
    using ping_does [of "env\<lparr>hv_now := pinged\<rparr>" ?w1, where token = token and http = http] sv i dist ping r(2) w1
    by (simp_all add: w2_def)
  have g: "hb_find (hb_id r) (hw_tab w2) = Some (hb_pinged pinged r)"
    by (simp add: w2(1) hb_find_map f)
  let ?w = "w2\<lparr>hw_sweep := rs\<rparr>"
  have next': "sweep_next ?e w2 = processExpired ?e listed r ?w" by (simp add: sweep_next_def w2)
  have d: "distinct (map hb_id (hw_tab w2))" unfolding w2(1) by (subst map_if_id) (simp_all add: dist)
  have "hb_find (hb_id r) (hw_tab ?w) = Some (hb_pinged pinged r)" using g by simp
  from process_one [of ?e ?w r, OF _ _ this, of listed] sv w2(4)
  have p: "hw_tab (sweep_next ?e w2) = hb_put (hb_expired listed (hb_pinged pinged r)) (hw_tab w2)"
    "opens (hw_alerts (sweep_next ?e w2)) = (opens (hw_alerts w2))(heartbeatAlertFingerprint env (hb_id r) := True)"
    by (simp_all add: next')
  have "hb_find (hb_id r) (hw_tab (sweep_next ?e w2)) = Some (hb_expired listed (hb_pinged pinged r))"
    unfolding p(1) hb_put_at [OF d g, of "hb_expired listed", simplified] by (simp add: hb_find_map g)
  then show ?thesis by (simp add: g p(2) w2(5))
qed

end

subsection \<open>The store of the program\<close>

text \<open>Each operation takes the next key and number of the generators.\<close>

abbreviation hb_pg :: "(nat \<Rightarrow> instant) \<Rightarrow> pg_state store_api" where
  "hb_pg clock \<equiv> pg_store None (\<lambda>_ _. False) clock (\<lambda>t. (t, int t))"

definition pg_resolve_user :: "(nat \<Rightarrow> instant) \<Rightarrow> string \<Rightarrow> event_actor option \<Rightarrow> pg_state \<Rightarrow> (alert_error + unit) \<times> pg_state" where
  "pg_resolve_user clock fp actor s =
     (let (res, db) = ResolveAlertByUser (\<lambda>_. False) (\<lambda>d. d) (clock (snd s)) fp actor (fst s) in (res, (db, Suc (snd s))))"

definition keys_below :: "alert_row list \<Rightarrow> nat \<Rightarrow> bool" where
  "keys_below tab t \<longleftrightarrow> list_all (\<lambda>r. ar_id r < t \<and> ar_number r < int t) tab"

definition pg_fresh :: "pg_state \<Rightarrow> bool" where
  "pg_fresh s \<longleftrightarrow> pg_inv s \<and> keys_below (db_alerts (fst s)) (snd s)"

lemma keys_below_Suc: "keys_below tab t \<Longrightarrow> keys_below tab (Suc t)"
  by (auto simp: keys_below_def list_all_iff less_Suc_eq dest!: bspec)

lemma keys_below_map: "(\<And>r. ar_id (f r) = ar_id r \<and> ar_number (f r) = ar_number r) \<Longrightarrow> keys_below (map f tab) t = keys_below tab t"
  by (simp add: keys_below_def list_all_iff)

lemma close_tab_keys: "keys_below (close_tab s now i tab) t = keys_below tab t"
  unfolding close_tab_def by (rule keys_below_map) (simp add: resolve_row_def)

lemma lookup_ok: "lookup_result (\<lambda>_. False) db found = Inr (map_option (toAlertRecord db) found)"
  by (cases found) (simp_all add: lookup_result_def)

lemma touch_keys: "sql_update P (\<lambda>r. r\<lparr>ar_updated := now\<rparr>) tab = Some (n, tab') \<Longrightarrow> keys_below tab' = keys_below tab"
  unfolding sql_update_Some fun_eq_iff by (auto intro!: keys_below_map)

lemma targets_keys:
  assumes "UpdateDeliveryTargets (\<lambda>_. False) (\<lambda>d. d) now fp ts db = (res, db')"
  shows "keys_below (db_alerts db') = keys_below (db_alerts db)"
proof -
  have ins: "db_alerts d = db_alerts db" if "insert_targets f 3 j ts (db\<lparr>db_targets := X\<rparr>) = (ok, d)" for f j X ok d
    using insert_targets_alerts [of f 3 j ts "db\<lparr>db_targets := X\<rparr>"] that by simp
  show ?thesis using assms
    by (auto simp: UpdateDeliveryTargets_def Let_def split: if_splits option.splits prod.splits dest!: ins touch_keys)
qed

lemma resolve_user_does:
  assumes "pg_fresh (db, t)" "tab_opens (db_alerts db) fp"
  shows "\<exists>db'. ResolveAlertByUser (\<lambda>_. False) (\<lambda>d. d) now fp actor db = (Inr (), db') \<and> alert_wf db' \<and>
    keys_below (db_alerts db') t \<and> tab_opens (db_alerts db') = (tab_opens (db_alerts db))(fp := False)"
proof -
  let ?xs = "filter (\<lambda>r. ar_fingerprint r = fp \<and> is_open r) (db_alerts db)"
  have wf: "alert_wf db" and k: "keys_below (db_alerts db) t" using assms(1) by (simp_all add: pg_fresh_def pg_inv_def)
  have "?xs \<noteq> []" using assms(2) by (auto simp: tab_opens_def filter_empty_conv)
  then obtain a where a: "latest ar_updated ?xs = Some a" using latest_None [of ar_updated ?xs] by (cases "latest ar_updated ?xs") auto
  from latest_in [OF a] have m: "a \<in> set (db_alerts db)" "is_open a" "ar_fingerprint a = fp" by simp_all
  let ?ev = "AlertEventWithActor ''resolved'' now actor"
  obtain res db' where r: "resolve_update (\<lambda>_. False) False now ?ev (ar_id a) db = (res, db')" by force
  have "res = Inr ()"
    using r resolve_stmt_cases [where fails = "\<lambda>_. False" and s = False and now = now and ev = ?ev, OF alert_wf_constraints [OF wf]]
    by (auto simp: resolve_update_def filter_id_open [OF wf m(1,2)] Let_def)
  with resolve_update_view [OF wf m(1,2) r] have "alert_wf db'" "db_alerts db' = close_tab False now (ar_id a) (db_alerts db)"
    by simp_all
  with r \<open>res = Inr ()\<close> a m(3) k close_tab_opens [OF wf m(1,2)] show ?thesis
    by (simp add: ResolveAlertByUser_def close_tab_keys)
qed

lemma create_does:
  assumes f: "pg_fresh (db, t)" and no: "\<not> tab_opens (db_alerts db) (ar_fingerprint (re_alert a))"
    and a: "ar_status (re_alert a) = ''firing''" "ar_ends (re_alert a) = None"
  shows "\<exists>db'. Create (\<lambda>_. False) now t (int t) a db = (Inr (int t), db') \<and> alert_wf db' \<and> keys_below (db_alerts db') (Suc t) \<and>
    tab_opens (db_alerts db') = (tab_opens (db_alerts db))(ar_fingerprint (re_alert a) := True)"
proof -
  let ?row = "created_alert now t (int t) a"
  have wf: "alert_wf db" and k: "keys_below (db_alerts db) t" using f by (simp_all add: pg_fresh_def pg_inv_def)
  have row: "ar_id ?row = t" "ar_number ?row = int t" "ar_status ?row = ''firing''" "ar_fingerprint ?row = ar_fingerprint (re_alert a)"
    using a by (simp_all add: created_alert_def Let_def)
  have "t \<notin> ar_id ` set (db_alerts db)" "int t \<notin> ar_number ` set (db_alerts db)"
    using k by (auto simp: keys_below_def list_all_iff)
  moreover have "ar_fingerprint (re_alert a) \<notin> ar_fingerprint ` set (filter is_open (db_alerts db))"
    using no by (auto simp: tab_opens_def)
  ultimately have c: "alert_constraints (db_alerts db @ [?row])"
    using alert_wf_constraints [OF wf] row by (auto simp: alert_constraints_def)
  obtain res db' where r: "Create (\<lambda>_. False) now t (int t) a db = (res, db')" by force
  have res: "res = Inr (int t)" "db_alerts db' = db_alerts db @ [?row]" using r c by (auto simp: Create_def Let_def)
  have "keys_below (db_alerts db') (Suc t)"
    unfolding res(2) using keys_below_Suc [OF k] row by (simp add: keys_below_def)
  with Create_view [OF wf a(2) r] r res a(1) show ?thesis by simp
qed

interpretation pga: reliable_alerts "hb_pg clock" "pg_resolve_user clock" pg_fresh pg_opens
proof unfold_locales
  fix s :: pg_state and fp
  obtain db t where s: "s = (db, t)" by force
  have later: "pg_fresh (db', Suc t)" if "alert_wf db'" "keys_below (db_alerts db') = keys_below (db_alerts db)" "pg_fresh (db, t)" for db'
    using that keys_below_Suc by (simp add: pg_fresh_def pg_inv_def)
  have same: "pg_fresh (db, Suc t)" if "pg_fresh (db, t)"
    using that keys_below_Suc [of "db_alerts db" t] by (simp add: pg_fresh_def pg_inv_def)
  show "\<exists>r s'. so_get_open (hb_pg clock) fp s = (Inr r, s') \<and> (r \<noteq> None) = pg_opens s fp \<and> pg_fresh s' \<and> pg_opens s' = pg_opens s"
    if "pg_fresh s"
    using same that GetOpen_view [OF refl, of "\<lambda>_. False" fp db]
    by (cases "latest ar_updated (filter (\<lambda>r. ar_fingerprint r = fp \<and> is_open r) (db_alerts db))")
      (simp_all add: s pg_store_def pg_opens_def GetOpenByFingerprint_def lookup_ok)
  show "\<exists>n s'. so_create (hb_pg clock) a s = (Inr n, s') \<and> pg_fresh s' \<and> pg_opens s' = (pg_opens s)(ar_fingerprint (re_alert a) := True)"
    if "pg_fresh s" "\<not> pg_opens s (ar_fingerprint (re_alert a))" "ar_status (re_alert a) = ''firing''" "ar_ends (re_alert a) = None" for a
    using that create_does [of db t a "clock t"]
    by (auto simp: s pg_store_def pg_opens_def pg_fresh_def pg_inv_def)
  show "pg_fresh (snd (so_targets (hb_pg clock) fp ts s)) \<and> pg_opens (snd (so_targets (hb_pg clock) fp ts s)) = pg_opens s"
    if "pg_fresh s" for ts
  proof -
    obtain res db' where r: "UpdateDeliveryTargets (\<lambda>_. False) (\<lambda>d. d) (clock t) fp ts db = (res, db')" by force
    have "alert_wf db" using that by (simp add: s pg_fresh_def pg_inv_def)
    from UpdateDeliveryTargets_view [OF this r] targets_keys [OF r] later that r show ?thesis
      by (simp add: s pg_store_def pg_opens_def)
  qed
  show "\<exists>r s'. so_get (hb_pg clock) fp s = (Inr (Some r), s') \<and> pg_fresh s' \<and> pg_opens s' = pg_opens s"
    if "pg_fresh s" "pg_opens s fp"
  proof -
    have "filter (\<lambda>r. ar_fingerprint r = fp) (db_alerts db) \<noteq> []"
      using that(2) by (auto simp: s pg_opens_def tab_opens_def filter_empty_conv)
    then obtain a where "latest ar_updated (filter (\<lambda>r. ar_fingerprint r = fp) (db_alerts db)) = Some a"
      by (metis latest_None option.exhaust)
    with same that(1) show ?thesis by (simp add: s pg_store_def pg_opens_def GetByFingerprint_def lookup_ok)
  qed
  show "pg_fresh (snd (so_get (hb_pg clock) fp s)) \<and> pg_opens (snd (so_get (hb_pg clock) fp s)) = pg_opens s"
    if "pg_fresh s"
    using same that by (simp add: s pg_store_def pg_opens_def)
  show "\<exists>s'. pg_resolve_user clock fp actor s = (Inr (), s') \<and> pg_fresh s' \<and> pg_opens s' = (pg_opens s)(fp := False)"
    if "pg_fresh s" "pg_opens s fp" for actor
    using that resolve_user_does [of db t fp "clock t" actor] keys_below_Suc
    by (auto simp: s pg_resolve_user_def pg_opens_def pg_fresh_def pg_inv_def)
qed

subsection \<open>Edits\<close>

text \<open>An update that leaves the grace period out sets it to zero, and the heartbeat is healthy again without a ping.\<close>

lemma update_drops_grace:
  assumes "updateHeartbeat env k (Some rq) w = (Inr b, w')" "hr_grace rq = None"
    and "hb_find k (hw_tab w) = Some r" "distinct (map hb_id (hw_tab w))"
  shows "\<exists>q. hb_find k (hw_tab w') = Some q \<and> hb_grace q = 0 \<and> hb_status q = ''healthy'' \<and> hb_ping q = hb_ping r \<and>
    hw_alerts w' = hw_alerts w"
proof -
  define p where "p = \<lparr>hp_name = go_trim_space (hr_name rq), hp_description = go_trim_space (hr_description rq),
      hp_interval = (case hr_interval rq of None \<Rightarrow> 0 | Some n \<Rightarrow> n), hp_grace = 0, hp_severity = go_trim_space (hr_severity rq),
      hp_labels = hr_labels rq, hp_owner = the (hb_owner_of env (hr_owner rq)), hp_enabled = hr_enabled rq\<rparr>"
  obtain res tab where u: "hb_Update (hv_teams env) k (hv_now env) p (hw_tab w) = (res, tab)" by force
  have r: "(\<exists>q. res = Inr q) \<and> w' = w\<lparr>hw_tab := tab\<rparr>"
    using assms(1,2) u [unfolded p_def]
    by (cases res) (simp_all add: updateHeartbeat_def Let_def split: if_splits option.splits hb_error.splits)
  with u assms(3) have t: "tab = hb_put (hb_patched (hv_now env) p r) (hw_tab w)"
    by (auto simp: hb_Update_def Let_def split: if_splits)
  have i: "hb_id (hb_patched (hv_now env) p x) = hb_id x" for x by (simp add: hb_patched_def Let_def)
  have "hb_find k tab = Some (hb_patched (hv_now env) p r)"
    unfolding t hb_put_at [OF assms(4,3), of "hb_patched (hv_now env) p", OF i]
    by (subst hb_find_map) (use i assms(3) in \<open>auto simp: hb_find_def find_Some_iff\<close>)
  moreover have "hb_grace (hb_patched (hv_now env) p r) = 0" "hb_status (hb_patched (hv_now env) p r) = ''healthy''"
    "hb_ping (hb_patched (hv_now env) p r) = hb_ping r"
    by (simp_all add: hb_patched_def p_def Let_def)
  ultimately show ?thesis using r by simp
qed

text \<open>The severity the handlers accept and the table does not.\<close>

lemma high_not_created:
  assumes "hd_severity d = ''high''"
  shows "\<exists>e. hb_Create h teams k token now d tab = (Inl e, tab)"
proof -
  have no: "\<not> hb_checks teams r" if "hb_severity r = ''high''" for teams r
    using that by (simp add: hb_checks_def)
  show ?thesis
    using assms by (simp add: hb_Create_def Let_def no)
qed

lemma trim_high: "go_trim_space ''high'' = ''high''"
  by code_simp

lemma high_severity_refused:
  "\<exists>c m. handleCreateHeartbeat env cx (Some (rq\<lparr>hr_severity := ''high''\<rparr>)) w = (Inl (c, m), w)"
proof -
  have m: "List.member validHeartbeatSeverities ''high''" by code_simp
  show ?thesis
  proof (cases "go_trim_space (hr_name rq) = [] \<or> hr_interval rq = None \<or> (\<exists>n. hr_interval rq = Some n \<and> n \<le> 0) \<or>
      hb_owner_of env (hr_owner rq) = None")
    case True
    then show ?thesis
      by (elim disjE exE conjE) (simp_all add: handleCreateHeartbeat_def Let_def trim_high m split: option.split)
  next
    case False
    then obtain n own where f: "hr_interval rq = Some n" "0 < n" "hb_owner_of env (hr_owner rq) = Some own" by fastforce
    define d where "d = \<lparr>hd_name = go_trim_space (hr_name rq), hd_description = go_trim_space (hr_description rq),
      hd_interval = n, hd_grace = (case hr_grace rq of None \<Rightarrow> 60 | Some g \<Rightarrow> if 0 \<le> g then g else 60),
      hd_enabled = (case hr_enabled rq of None \<Rightarrow> True | Some b \<Rightarrow> b), hd_owner = own, hd_status = [],
      hd_severity = ''high'', hd_labels = hr_labels rq, hd_by = (case cx_user cx of None \<Rightarrow> [] | Some u \<Rightarrow> us_email u)\<rparr>"
    have "hd_severity d = ''high''" by (simp add: d_def)
    from high_not_created [OF this] obtain e
      where e: "hb_Create (hv_hashes env) (hv_teams env) (hv_key env) (hv_token env) (hv_now env) d (hw_tab w) = (Inl e, hw_tab w)"
      by blast
    show ?thesis
      using False f e m
      by (simp add: handleCreateHeartbeat_def Let_def trim_high d_def)
  qed
qed

subsection \<open>Properties\<close>

text \<open>C13. An alert is open for a heartbeat exactly when it is silent: after any pings (of any token, by any method) and
  sweeps in the order of their times, and a sweep at \<open>now\<close>, the alert of an enabled heartbeat is open iff the deadline that
  its last ping (or its creation) set has passed. The statements of the database do not fail here, and no ping falls
  between the two halves of a sweep.\<close>

theorem alarm_iff_silent:
  fixes env :: "pg_state hb_env"
  assumes "hv_store env = hb_pg clock" "hv_resolve env = pg_resolve_user clock" "inj (hv_show env)"
    and "pg_fresh (hw_alerts w)" "distinct (map hb_id (hw_tab w))"
    and "\<forall>r \<in> set (hw_tab w). hb_status r = ''healthy'' \<and> \<not> pg_opens (hw_alerts w) (heartbeatAlertFingerprint env (hb_id r))"
    and "sorted (map hb_time evs @ [now])" "r \<in> set (hw_tab w)" "hb_enabled r"
  shows "pg_opens (hw_alerts (foldl (\<lambda>w ev. hb_step env ev w) w (evs @ [HbTick now]))) (heartbeatAlertFingerprint env (hb_id r)) \<longleftrightarrow>
    (case hb_deadline env (hw_tab w) r evs (hb_expires r) of None \<Rightarrow> False | Some d \<Rightarrow> d < now)"
proof -
  have "pga.serves clock env" using assms(1-3) by (simp add: pga.serves_def)
  from pga.silent_iff [OF this assms(4-9)] show ?thesis .
qed

definition example_beat :: heartbeat where
  "example_beat = \<lparr>hb_id = 1, hb_name = ''backup'', hb_description = [], hb_interval = 10, hb_grace = 0, hb_enabled = True,
     hb_owner = None, hb_status = ''healthy'', hb_severity = ''critical'', hb_labels = [], hb_hash = ''t'', hb_prefix = ''t'',
     hb_ping = None, hb_expires = Some 10000000000, hb_breach = None, hb_by = [], hb_created = 0, hb_updated = 0\<rparr>"

definition example_beats :: "pg_state hb_env" where
  "example_beats = \<lparr>hv_now = 0, hv_key = 0, hv_token = [], hv_hashes = \<lparr>th_hmac = id, th_sha = id\<rparr>, hv_teams = [],
     hv_uuid = (\<lambda>_. None), hv_show = (\<lambda>k. replicate k CHR ''x''), hv_describe = (\<lambda>_ _ _ _. []), hv_format = (\<lambda>_. []),
     hv_store = hb_pg int, hv_resolve = pg_resolve_user int, hv_receiver = example_receiver\<rparr>"

definition example_beat_world :: "pg_state hb_world" where
  "example_beat_world = \<lparr>hw_tab = [example_beat], hw_alerts = (empty_db, 0), hw_sweep = [], hw_since = 0, hw_out = []\<rparr>"

lemma example_beats_start:
  "hv_store example_beats = hb_pg int" "hv_resolve example_beats = pg_resolve_user int" "inj (hv_show example_beats)"
  "pg_fresh (hw_alerts example_beat_world)" "distinct (map hb_id (hw_tab example_beat_world))"
  "\<not> pg_opens (hw_alerts example_beat_world) fp" "hw_tab example_beat_world = [example_beat]" "hb_enabled example_beat"
  "hb_status example_beat = ''healthy''" "hb_id example_beat = 1"
  by (simp_all add: example_beats_def example_beat_world_def example_beat_def inj_def pg_fresh_def pg_inv_def empty_db_wf
      keys_below_def empty_db_def [THEN arg_cong, of db_alerts] pg_opens_def tab_opens_def)

lemma example_beat_token:
  "hb_GetByPingToken (hv_hashes example_beats) (go_trim_space ''t'') [example_beat] = Some example_beat"
proof -
  have "go_trim_space ''t'' = ''t''" by code_simp
  then show ?thesis by (simp add: hb_GetByPingToken_def example_beats_def example_beat_def lookupPrefix_def)
qed

theorem alarm_iff_silent_witness:
  "\<not> pg_opens (hw_alerts (foldl (\<lambda>w ev. hb_step example_beats ev w) example_beat_world
      ([HbPing ''GET'' ''t'' 5000000000] @ [HbTick 12000000000]))) (heartbeatAlertFingerprint example_beats 1) \<and>
   pg_opens (hw_alerts (foldl (\<lambda>w ev. hb_step example_beats ev w) example_beat_world
      ([HbPing ''GET'' ''t'' 5000000000] @ [HbTick 16000000000]))) (heartbeatAlertFingerprint example_beats 1)"
proof -
  have d: "hb_deadline example_beats [example_beat] example_beat [HbPing ''GET'' ''t'' 5000000000] x = Some 15000000000" for x
    using example_beat_token example_beats_start(8)
    by (simp add: hb_pings_def example_beat_def hb_span_def wrap64_def go_second_def)
  note a = alarm_iff_silent [where env = example_beats and w = example_beat_world and r = example_beat and clock = int
      and evs = "[HbPing ''GET'' ''t'' 5000000000]", OF example_beats_start(1-5)]
  show ?thesis
    using a [of 12000000000] a [of 16000000000] by (simp add: example_beats_start d del: hb_deadline.simps hb_step.simps foldl_append foldl.simps)
qed

text \<open>C23. A ping that arrives between the two halves of a sweep is lost: for a heartbeat that the sweep has listed as late, the
  ping moves its deadline and makes it healthy, and then the sweep, which marks the row by its key alone, expires it all the
  same and opens an alert, although the new deadline lies ahead.\<close>

theorem ping_during_sweep_is_lost:
  fixes env :: "pg_state hb_env"
  assumes "hv_store env = hb_pg clock" "hv_resolve env = pg_resolve_user clock" "inj (hv_show env)"
    and "pg_fresh (hw_alerts w)" "distinct (map hb_id (hw_tab w))"
    and "hb_ListExpired listed (hw_tab w) = r # rs"
    and "hb_GetByPingToken (hv_hashes env) (go_trim_space token) (hw_tab w) = Some r"
    and "w2 = snd (handleHeartbeatPing (env\<lparr>hv_now := pinged\<rparr>) http token (sweep_begin (env\<lparr>hv_now := listed\<rparr>) w))"
    and "w3 = sweep_next (env\<lparr>hv_now := now\<rparr>) w2"
  shows "\<exists>p q. hb_find (hb_id r) (hw_tab w2) = Some p \<and> hb_status p = ''healthy'' \<and>
      \<not> pg_opens (hw_alerts w2) (heartbeatAlertFingerprint env (hb_id r)) \<and>
      hb_find (hb_id r) (hw_tab w3) = Some q \<and> hb_status q = ''expired'' \<and>
      hb_expires q = Some (pinged + hb_span (hb_interval r) (hb_grace r)) \<and>
      pg_opens (hw_alerts w3) (heartbeatAlertFingerprint env (hb_id r))"
proof -
  have "pga.serves clock env" using assms(1-3) by (simp add: pga.serves_def)
  from pga.ping_between [OF this assms(4-7), of pinged http now] show ?thesis
    by (simp add: assms(8,9) hb_expired_fields hb_pinged_fields)
qed

theorem ping_during_sweep_is_lost_witness:
  "\<exists>w3 q. w3 = sweep_next (example_beats\<lparr>hv_now := 13000000000\<rparr>) (snd (handleHeartbeatPing
        (example_beats\<lparr>hv_now := 12000000001\<rparr>) ''POST'' ''t'' (sweep_begin (example_beats\<lparr>hv_now := 12000000000\<rparr>) example_beat_world))) \<and>
     hb_find 1 (hw_tab w3) = Some q \<and> hb_status q = ''expired'' \<and> hb_expires q = Some 22000000001 \<and>
     pg_opens (hw_alerts w3) (heartbeatAlertFingerprint example_beats 1)"
proof -
  have l: "hb_ListExpired 12000000000 (hw_tab example_beat_world) = [example_beat]"
    by (simp add: example_beats_start(7) hb_ListExpired_def hb_due_def example_beat_def)
  have s: "12000000001 + hb_span (hb_interval example_beat) (hb_grace example_beat) = 22000000001"
    by (simp add: example_beat_def hb_span_def wrap64_def go_second_def)
  from ping_during_sweep_is_lost [OF example_beats_start(1-5) l _ refl refl, of "''t''" 12000000001 "''POST''" 13000000000]
    example_beat_token s
  show ?thesis by (simp add: example_beats_start(7,10)) blast
qed

end

