(* ===== verification/Spec2Isabelle.thy ===== *)
theory Spec2Isabelle
  imports Prelude Incident_Lifecycle Incident_Store Matching Routing Alert_Types Alert_Store Alert_Invariant Ingest Cancel_Set Escalation_Correct OnCall_Correct Handoff Triage_Correct Correlation_Correct Investigation_Correct Access Scheduler_Correct Leader Outbox Automation_Correct Rate_Limit_Correct Login_Correct User_Correct Service_Correct Incident_Promises Heartbeat_Correct
begin

text \<open>
  Alga's backend (\<^verbatim>\<open>src/apps/backend\<close>, Go): alerts come in over webhooks, are routed, correlated, triaged and
  investigated by agents; incidents are escalated through on-call schedules; people and agents act over an HTTP API.
  This library models its core as HOL functions over explicit state and proves what makes it correct. Paths below are
  relative to \<^verbatim>\<open>src/apps/backend\<close>.

  \<^bold>\<open>How the parts interact.\<close> \<^verbatim>\<open>webhook/receiver.go\<close> stores alerts and hands them to the router and the correlator.
  The correlator buffers them per key in Valkey and flushes groups; triage closes a group, attaches it to an
  investigation or creates one. The scheduler binds pending investigations to agents and takes back work whose lease
  ran out; only the replica that holds the leader lease runs it. Incidents follow a status graph; the escalation worker
  and its sweep page users that the policy engine and the on-call resolver name, until somebody acknowledges. Changes
  of entities leave rows in outboxes, and automation rules run their actions through a webhook guard. Services depend on
  each other and show the status their incidents call for. Every request passes rate limits and the authentication
  middleware, which accepts a session cookie, a personal access token or an agent token and checks the role.

  \<^bold>\<open>Theories and what they model.\<close>

  \<^item> \<open>Prelude\<close>: Go values (byte strings, string maps, 64-bit arithmetic with wrap-around, saturating time differences),
  shared loops, and the lemma collections the components use.

  \<^item> \<open>Incident_Lifecycle\<close>, \<open>Incident_Store\<close>, \<open>Incident_Queries\<close>: \<^verbatim>\<open>incident/*.go\<close> (status graph, actions, priority matrix),
  \<^verbatim>\<open>store/incident.go\<close>. State: the list of rows of \<^verbatim>\<open>incidents\<close> and of the timeline. Lemmas: runs of actions follow the
  status graph; of racing actions one wins; reachable tables satisfy the database checks and carry the time stamps of
  their status; listings by rank order the page only.

  \<^item> \<open>Matching\<close>, \<open>Routing\<close>: \<^verbatim>\<open>matching/conditions.go\<close>, \<^verbatim>\<open>routing/engine.go\<close>. The greedy wildcard matcher decides a
  declarative glob; a built engine routes like the first configured rule.

  \<^item> \<open>Alert_Types\<close>, \<open>Alert_Store\<close>, \<open>Alert_Invariant\<close>, \<open>Ingest\<close>: \<^verbatim>\<open>types/payload.go\<close>, \<^verbatim>\<open>store/alert.go\<close>,
  \<^verbatim>\<open>webhook/receiver.go\<close>, \<^verbatim>\<open>webhook/delivery_posts.go\<close>. State: the tables of alerts, events and links. Lemmas: the
  constraints (one open alert per fingerprint) survive every operation under failures; ingestion never reopens a
  resolved alert; a fingerprint is open exactly when its last notification fires.

  \<^item> \<open>Valkey\<close>, \<open>Cancel_Set\<close>, \<open>Escalation\<close>, \<open>Escalation_Run\<close>, \<open>Escalation_Correct\<close>: \<^verbatim>\<open>valkey/client.go\<close>,
  \<^verbatim>\<open>cancellation/*.go\<close>, \<^verbatim>\<open>escalation/*.go\<close>, \<^verbatim>\<open>worker/escalation*.go\<close>. The server is the locale \<open>reliable_valkey\<close>,
  interpreted on an in-memory map. Lemmas: an acknowledgement stops all sweeps; without repetitions every level is
  published once and the escalation ends; only live incidents page, and only the level's users.

  \<^item> \<open>OnCall\<close>, \<open>OnCall_Correct\<close>, \<open>Handoff\<close>: \<^verbatim>\<open>oncall/*.go\<close>. Precedence of overrides and layers, exactness of shifts.

  \<^item> \<open>Triage\<close>, \<open>Triage_Correct\<close>, \<open>Correlation\<close>, \<open>Correlation_Correct\<close>: \<^verbatim>\<open>triage/*.go\<close>, \<^verbatim>\<open>correlator/*.go\<close>. Triage rests on
  the locale \<open>alert_store_contract\<close>, interpreted on \<open>Alert_Store\<close>; a flush delivers the batch it peeked.

  \<^item> \<open>Investigations\<close>, \<open>Investigation_Actions\<close>, \<open>Investigation_Correct\<close>: \<^verbatim>\<open>store/alert_investigation*.go\<close> and the handlers
  that assign, complete and reopen. Lemmas: one current investigation per alert, one winner of racing claims.

  \<^item> \<open>Agent_Health\<close>, \<open>Scheduler\<close>, \<open>Scheduler_Correct\<close>, \<open>Leader\<close>: \<^verbatim>\<open>worker/agent_health.go\<close>,
  \<^verbatim>\<open>worker/scheduler*.go\<close>, \<^verbatim>\<open>valkey/leader.go\<close>. Lemmas: a pass respects the capacity of agents; undeliverable work
  is forwarded six times and ends; one leader per lease.

  \<^item> \<open>Outbox\<close>, \<open>Automation\<close>, \<open>Automation_Runs\<close>, \<open>Automation_Correct\<close>: \<^verbatim>\<open>store/outbox.go\<close>, \<^verbatim>\<open>worker/outbox.go\<close>,
  \<^verbatim>\<open>automation/*.go\<close>, \<^verbatim>\<open>store/automation.go\<close>, \<^verbatim>\<open>worker/automation.go\<close>. Lemmas: bounded attempts; one run per rule and
  event whose actions happen in order, each at most once; webhooks reach public addresses only.

  \<^item> \<open>Access\<close>, \<open>Rate_Limit\<close>, \<open>Rate_Limit_Correct\<close>, \<open>Login_Correct\<close>: \<^verbatim>\<open>rbac/*.go\<close>, \<^verbatim>\<open>capability/*.go\<close>,
  \<^verbatim>\<open>api/ratelimit.go\<close>, \<^verbatim>\<open>valkey/ratelimit.go\<close>. The limiters in memory and on the server
  agree; the client address cannot be forged behind trusted proxies.

  \<^item> \<open>Login_Sessions\<close>, \<open>Session_History\<close>, \<open>Accounts\<close>, \<open>Tokens\<close>, \<open>Tokens_Correct\<close>, \<open>Auth\<close>, \<open>Auth_Handlers\<close>, \<open>User_Admin\<close>,
  \<open>Auth_Correct\<close>, \<open>User_Correct\<close>: \<^verbatim>\<open>store/sessions.go\<close>, \<^verbatim>\<open>valkey/session.go\<close>, \<^verbatim>\<open>store/users.go\<close>, the three token
  stores, \<^verbatim>\<open>api/auth.go\<close>, \<^verbatim>\<open>api/users.go\<close>, \<^verbatim>\<open>api/setup.go\<close>, \<^verbatim>\<open>api/personal_tokens.go\<close> and the middleware. The locales
  \<open>bearer_store\<close>, \<open>session_contract\<close> and \<open>revoking_contract\<close> state what the middleware relies on and are interpreted on
  the three token stores and the two session stores. Lemmas: every accepted cookie or token leads back to a login or
  to its creation; changing a password revokes; an administrator remains.

  \<^item> \<open>Service_Graph\<close>, \<open>Service_Correct\<close>: \<^verbatim>\<open>store/service.go\<close>, \<^verbatim>\<open>servicetracker/tracker.go\<close>, \<^verbatim>\<open>api/service.go\<close>,
  \<^verbatim>\<open>valkey/cache.go\<close>. The breadth-first search decides reachability, the locale \<open>dependency_graph\<close> derives from it that
  the graph stays acyclic, and a cascade settles; two concurrent requests can still make a cycle.

  \<^item> \<open>Incident_Command\<close>, \<open>Command_Correct\<close>: \<^verbatim>\<open>ics/*.go\<close>, \<^verbatim>\<open>store/ics_role.go\<close>, \<^verbatim>\<open>store/incident_document.go\<close>. State: the
  record \<open>command_db\<close> of incidents, users, agents, roles and document sections. Lemmas: one active holder per role; a
  section is a versioned register (locale \<open>versioned_store\<close>) for writers in sequence, and overlapping writers lose an update.

  \<^item> \<open>Incident_API\<close>, \<open>Incident_API_Correct\<close>, \<open>Incident_Promises\<close>: \<^verbatim>\<open>api/incident_lifecycle.go\<close>, \<^verbatim>\<open>api/ics.go\<close>,
  \<^verbatim>\<open>api/incident_alert_cascade.go\<close>, \<^verbatim>\<open>worker/sla.go\<close>. State: the record \<open>inc_world\<close> of the command tables, the timeline,
  the alerts, the escalation state in Valkey (over \<open>reliable_valkey\<close>), the marks set with \<^verbatim>\<open>SETNX\<close>, and what the program
  sent out. Lemmas: histories of requests and sweeps refine the status graph; when a request is granted; a resolution is
  documented; silence after an acknowledgement lasts; a breach pages, and is recorded once per mark.

  \<^item> \<open>Heartbeat\<close>, \<open>Heartbeat_Correct\<close>: \<^verbatim>\<open>store/heartbeat.go\<close>, \<^verbatim>\<open>worker/heartbeat_sweep.go\<close>, \<^verbatim>\<open>api/heartbeat.go\<close>, and
  \<^verbatim>\<open>IngestManualAlert\<close> of the receiver. State: the record \<open>hb_world\<close> of the table, the alert store (over \<open>reliable_alerts\<close>)
  and what a running sweep has still to handle. Lemmas: after any pings and sweeps an alert is open exactly for the silent;
  a ping between the two halves of a sweep is lost.

  \<^bold>\<open>Conventions.\<close> A table is the list of its rows, and a statement of SQL is translated clause by clause; the
  constraints are those of \<^verbatim>\<open>db/migrations\<close>. A transaction is one step. Times, generated keys and random texts are
  arguments. Strings are lists of bytes; case folding and trimming are those of ASCII. Where a statement can fail for
  reasons outside the program (connection, time-out) and the code reacts to it, the failure is an argument; elsewhere
  statements succeed unless they break a constraint. Logging, metrics and tracing are left out. Hash functions, parsers
  of UUIDs and times, regular expressions, JSON and Go's unstable sort are parameters.

  \<^bold>\<open>Bounds and fuel.\<close> Loops are structural or come with a measure: the breadth-first searches with the nodes not yet
  visited and the length of the queue, the correlator's and the scheduler's loops with their worklists. The escalation
  machine is run for a given number of rounds, and its theorems give the number after which it stops (the policy's
  highest level, if there are no repetitions). Machine integers wrap where the code multiplies durations; elsewhere
  values are bounded by the checks of the database.

  \<^bold>\<open>Not modelled.\<close>

  \<^item> The agent API (\<^verbatim>\<open>api/agent\<close>), the handlers that create and edit incidents (\<^verbatim>\<open>api/incident.go\<close>), incident investigations
  (\<^verbatim>\<open>worker/investigate.go\<close>, \<^verbatim>\<open>store/incident_investigation.go\<close>), coordination threads: of the same kind
  as what is modelled, and the next candidates. War rooms (\<^verbatim>\<open>ics/warroom.go\<close>) are calls of a conference service.

  \<^item> Single sign-on and the delivery over Slack, Mattermost, mail and telephone: calls of remote services; what the core
  hands to them is an effect in the models.

  \<^item> \<^verbatim>\<open>rabbitmq\<close>, \<^verbatim>\<open>sse\<close>: connections, consumers and channels. The verdict on a message (acknowledge, requeue, retry) belongs
  to the worker's model.

  \<^item> Tables without rules of their own (teams, playbooks, status pages, settings), prompts and knowledge, metrics in
  floating point, encryption at rest, wiring, the command line agent and the integrations.
\<close>

end
